(* ===== verification/Skw_Prelude.thy ===== *)
theory Skw_Prelude
  imports Main "HOL-Library.Word" "HOL-Library.Multiset"
begin

text \<open>
  Shared material of the development: the machine integers of the driver's C code, the
  error numbers, the inline helpers of the kernel headers that the driver calls everywhere
  (802.11 sequence number arithmetic, jiffies comparison, \<open>BIT\<close>), generic lemmas on
  lists, and two locales that every stateful component is an instance of: a machine whose
  operations keep an invariant, and a machine whose operations neither lose nor invent
  buffers.
\<close>

unbundle bit_operations_syntax

section \<open>Machine integers and error numbers\<close>

type_synonym u8 = "8 word"
type_synonym u16 = "16 word"
type_synonym u32 = "32 word"
type_synonym u64 = "64 word"

named_theorems skw_simps \<open>unfolding rules of constants: error numbers and flags\<close>

text \<open>The error numbers the driver returns, as the negated values of the kernel ABI.\<close>

definition ENOMEM :: int where "ENOMEM = 12"
definition EBUSY :: int where "EBUSY = 16"
definition EINVAL :: int where "EINVAL = 22"
definition ERANGE :: int where "ERANGE = 34"
definition ENOTSUPP :: int where "ENOTSUPP = 524"
definition ENOENT :: int where "ENOENT = 2"
definition EIO :: int where "EIO = 5"
definition E2BIG :: int where "E2BIG = 7"
definition ETIMEDOUT :: int where "ETIMEDOUT = 110"

lemmas errno_defs = ENOMEM_def EBUSY_def EINVAL_def ERANGE_def ENOTSUPP_def ENOENT_def EIO_def E2BIG_def ETIMEDOUT_def

declare errno_defs [skw_simps]

text \<open>The buses the chip is attached to.\<close>

datatype skw_bus = SKW_BUS_SDIO | SKW_BUS_USB | SKW_BUS_PCIE | SKW_BUS_SDIO2 | SKW_BUS_USB2

text \<open>\<open>BIT(n)\<close> stored into (or tested against) an object of the width at hand.\<close>

definition BIT :: "nat \<Rightarrow> 'a::len word" where
  "BIT n = push_bit n 1"

lemma BIT_out: "LENGTH('a::len) \<le> n \<Longrightarrow> (BIT n :: 'a word) = 0"
  by (simp add: BIT_def push_bit_eq_mult)

section \<open>Sequence numbers modulo 4096\<close>

text \<open>
  The 802.11 helpers of the kernel headers, on the u16 values the driver passes. A sequence
  number precedes another when it is less than half the number space behind it.
\<close>

definition ieee80211_sn_add :: "u16 \<Rightarrow> u16 \<Rightarrow> u16" where
  "ieee80211_sn_add a b = (a + b) AND 0xFFF"

definition ieee80211_sn_sub :: "u16 \<Rightarrow> u16 \<Rightarrow> u16" where
  "ieee80211_sn_sub a b = (a - b) AND 0xFFF"

definition ieee80211_sn_inc :: "u16 \<Rightarrow> u16" where
  "ieee80211_sn_inc a = ieee80211_sn_add a 1"

definition ieee80211_sn_less :: "u16 \<Rightarrow> u16 \<Rightarrow> bool" where
  "ieee80211_sn_less a b = (0x800 < (a - b) AND 0xFFF)"

text \<open>How far \<open>b\<close> lies ahead of \<open>a\<close> on the circle of 4096 sequence numbers.\<close>

definition sn_off :: "u16 \<Rightarrow> u16 \<Rightarrow> nat" where
  "sn_off a b = unat (ieee80211_sn_sub b a)"

lemma and_4095: "(x::u16) AND 0xFFF = take_bit 12 x"
proof -
  have "(0xFFF :: u16) = mask 12" by (simp add: mask_eq_exp_minus_1)
  then show ?thesis by (simp only: take_bit_eq_mask)
qed

lemma uint_and_4095: "uint ((x::u16) AND 0xFFF) = uint x mod 4096"
  by (simp only: and_4095 unsigned_take_bit_eq) (simp add: take_bit_eq_mod)

lemma uint_sn_add: "uint (ieee80211_sn_add a b) = (uint a + uint b) mod 4096"
  by (simp add: ieee80211_sn_add_def uint_and_4095 uint_word_ariths mod_mod_cancel)

lemma uint_sn_sub: "uint (ieee80211_sn_sub a b) = (uint a - uint b) mod 4096"
  by (simp add: ieee80211_sn_sub_def uint_and_4095 uint_word_ariths mod_mod_cancel)

lemma uint_sn_inc: "uint (ieee80211_sn_inc a) = (uint a + 1) mod 4096"
  by (simp add: ieee80211_sn_inc_def uint_sn_add)

lemma unat_sn_inc: "unat (ieee80211_sn_inc a) = (unat a + 1) mod 4096"
proof -
  have "int (unat (ieee80211_sn_inc a)) = int ((unat a + 1) mod 4096)"
    by (simp add: uint_sn_inc zmod_int add.commute)
  then show ?thesis by (rule int_int_eq [THEN iffD1])
qed

lemma int_sn_off: "int (sn_off a b) = (uint b - uint a) mod 4096"
  by (simp add: sn_off_def uint_sn_sub)

lemma unat_less_if_uint: "uint (x::u16) < 4096 \<Longrightarrow> unat x < 4096"
  using nat_less_iff [of "uint x" 4096] by simp

lemma sn_inc_less [simp]: "unat (ieee80211_sn_inc a) < 4096"
  by (rule unat_less_if_uint) (simp add: uint_sn_inc)

lemma sn_sub_less [simp]: "unat (ieee80211_sn_sub a b) < 4096"
  by (rule unat_less_if_uint) (simp add: uint_sn_sub)

lemma sn_add_less [simp]: "unat (ieee80211_sn_add a b) < 4096"
  by (rule unat_less_if_uint) (simp add: uint_sn_add)

lemma sn_off_less [simp]: "sn_off a b < 4096"
  by (simp add: sn_off_def)

lemma sn_off_le [simp]: "sn_off a b \<le> 4095"
  using sn_off_less [of a b] by linarith

lemma sn_off_sym: "sn_off b a = (if sn_off a b = 0 then 0 else 4096 - sn_off a b)"
proof -
  have "(uint a - uint b) mod 4096 = (- (uint b - uint a)) mod 4096" by simp
  also have "\<dots> = (if (uint b - uint a) mod 4096 = 0 then 0 else 4096 - (uint b - uint a) mod 4096)"
    by (rule zmod_zminus1_eq_if)
  finally have "int (sn_off b a) = (if sn_off a b = 0 then 0 else 4096 - int (sn_off a b))"
    using int_sn_off [of a b] int_sn_off [of b a] by auto
  then show ?thesis using sn_off_less [of a b] by (auto split: if_splits)
qed

lemma sn_less_iff: "ieee80211_sn_less a b \<longleftrightarrow> 0 < sn_off a b \<and> sn_off a b < 2048"
proof -
  have "ieee80211_sn_less a b \<longleftrightarrow> 2048 < sn_off b a"
    by (simp add: ieee80211_sn_less_def sn_off_def ieee80211_sn_sub_def word_less_nat_alt)
  then show ?thesis using sn_off_less [of a b] unfolding sn_off_sym [of b a] by auto
qed

lemma sn_off_refl [simp]: "sn_off a a = 0"
  by (simp add: sn_off_def ieee80211_sn_sub_def)

lemma sn_off_trans: "sn_off a c = (sn_off a b + sn_off b c) mod 4096"
proof -
  have "int (sn_off a c) = ((uint b - uint a) mod 4096 + (uint c - uint b) mod 4096) mod 4096"
    unfolding int_sn_off mod_add_eq by simp
  also have "\<dots> = int ((sn_off a b + sn_off b c) mod 4096)"
    by (simp add: zmod_int int_sn_off)
  finally show ?thesis by simp
qed

lemma sn_off_inc_self [simp]: "sn_off a (ieee80211_sn_inc a) = 1"
proof -
  have "int (sn_off a (ieee80211_sn_inc a)) = ((uint a + 1) mod 4096 - uint a) mod 4096"
    by (simp add: int_sn_off uint_sn_inc)
  also have "\<dots> = 1" unfolding mod_diff_left_eq by simp
  finally show ?thesis by simp
qed

lemma sn_off_inc_right: "sn_off a (ieee80211_sn_inc b) = (sn_off a b + 1) mod 4096"
  by (simp add: sn_off_trans [of a "ieee80211_sn_inc b" b])

lemma mod_4096_pred:
  "x < 4096 \<Longrightarrow> y = (1 + x) mod 4096 \<Longrightarrow> x = (if y = 0 then 4095 else y - 1)" for x y :: nat
  by (auto simp: mod_if)

lemma sn_off_inc_left:
  "sn_off (ieee80211_sn_inc a) b = (if sn_off a b = 0 then 4095 else sn_off a b - 1)"
proof -
  have "sn_off a b = (1 + sn_off (ieee80211_sn_inc a) b) mod 4096"
    using sn_off_trans [of a b "ieee80211_sn_inc a"] by simp
  with sn_off_less show ?thesis by (rule mod_4096_pred)
qed

lemma unat_from_off: "unat b < 4096 \<Longrightarrow> unat b = (unat a + sn_off a b) mod 4096"
proof -
  assume b: "unat b < 4096"
  have "int ((unat a + sn_off a b) mod 4096) = (uint a + (uint b - uint a) mod 4096) mod 4096"
    by (simp add: zmod_int int_sn_off)
  also have "\<dots> = uint b mod 4096" unfolding mod_add_right_eq by simp
  also have "\<dots> = int (unat b mod 4096)" by (simp add: zmod_int)
  finally have "(unat a + sn_off a b) mod 4096 = unat b mod 4096"
    by (rule int_int_eq [THEN iffD1])
  with b show ?thesis by simp
qed

lemma sn_off_inj: "unat b < 4096 \<Longrightarrow> unat c < 4096 \<Longrightarrow> sn_off a b = sn_off a c \<Longrightarrow> b = c"
  using unat_from_off [of b a] unat_from_off [of c a] by (simp add: word_unat_eq_iff)

lemma sn_off_0_iff: "unat a < 4096 \<Longrightarrow> unat b < 4096 \<Longrightarrow> sn_off a b = 0 \<longleftrightarrow> a = b"
  using sn_off_inj [of a b a] by auto

lemma sn_off_add_nat: "k < 4096 \<Longrightarrow> sn_off w (w + of_nat k) = k"
proof -
  assume k: "k < 4096"
  have "ieee80211_sn_sub (w + of_nat k) w = of_nat k AND 0xFFF"
    by (simp add: ieee80211_sn_sub_def)
  moreover have "uint (of_nat k AND 0xFFF :: u16) = int k"
    using k by (simp add: uint_and_4095 uint_word_of_int take_bit_eq_mod unsigned_of_nat flip: zmod_int)
  ultimately have "int (sn_off w (w + of_nat k)) = int k" by (simp add: sn_off_def)
  then show ?thesis by simp
qed

section \<open>Jiffies\<close>

text \<open>\<open>time_after(a, b)\<close> is \<open>(long)(b - a) < 0\<close>; \<open>time_before(a, b)\<close> swaps it.\<close>

definition time_after :: "u64 \<Rightarrow> u64 \<Rightarrow> bool" where
  "time_after a b = (sint (b - a) < 0)"

definition time_before :: "u64 \<Rightarrow> u64 \<Rightarrow> bool" where
  "time_before a b = time_after b a"

definition time_before_eq :: "u64 \<Rightarrow> u64 \<Rightarrow> bool" where
  "time_before_eq a b = (0 \<le> sint (b - a))"

section \<open>Lists\<close>

text \<open>Number of non-empty members of a list of lists.\<close>

definition count_nonempty :: "'a list list \<Rightarrow> nat" where
  "count_nonempty xss = length (filter (\<lambda>xs. xs \<noteq> []) xss)"

lemma count_nonempty_Nil [simp]: "count_nonempty [] = 0"
  by (simp add: count_nonempty_def)

lemma count_nonempty_Cons [simp]:
  "count_nonempty (xs # xss) = (if xs = [] then 0 else 1) + count_nonempty xss"
  by (simp add: count_nonempty_def)

lemma count_nonempty_upd:
  "i < length xss \<Longrightarrow>
     count_nonempty (xss[i := ys]) + (if xss ! i = [] then 0 else 1)
     = count_nonempty xss + (if ys = [] then 0 else 1)"
proof (induction xss arbitrary: i)
  case (Cons xs xss)
  then show ?case by (cases i) force+
qed simp

lemma count_nonempty_0: "count_nonempty xss = 0 \<longleftrightarrow> (\<forall>xs \<in> set xss. xs = [])"
  by (auto simp: count_nonempty_def filter_empty_conv)

lemma count_nonempty_pos: "i < length xss \<Longrightarrow> xss ! i \<noteq> [] \<Longrightarrow> 0 < count_nonempty xss"
  using count_nonempty_0 [of xss] nth_mem [of i xss] by blast

lemma count_nonempty_le: "count_nonempty xss \<le> length xss"
  by (simp add: count_nonempty_def)

lemma mset_concat_upd:
  "i < length xss \<Longrightarrow>
     mset (concat (xss[i := ys])) + mset (xss ! i) = mset (concat xss) + mset ys"
  by (induction xss arbitrary: i) (auto simp: nth_Cons ac_simps split: nat.splits)

lemma count_nonempty_remove:
  "i < length xss \<Longrightarrow> xss ! i \<noteq> [] \<Longrightarrow>
     count_nonempty xss = Suc (count_nonempty (xss[i := []]))"
  using count_nonempty_upd [of i xss "[]"] by simp

lemma count_nonempty_add:
  "i < length xss \<Longrightarrow> xss ! i = [] \<Longrightarrow> ys \<noteq> [] \<Longrightarrow>
     count_nonempty (xss[i := ys]) = Suc (count_nonempty xss)"
  using count_nonempty_upd [of i xss ys] by simp

lemma count_nonempty_same:
  "i < length xss \<Longrightarrow> xss ! i \<noteq> [] \<Longrightarrow> ys \<noteq> [] \<Longrightarrow>
     count_nonempty (xss[i := ys]) = count_nonempty xss"
  using count_nonempty_upd [of i xss ys] by simp

lemma mset_concat_remove:
  "i < length xss \<Longrightarrow> mset (concat xss) = mset (xss ! i) + mset (concat (xss[i := []]))"
  using mset_concat_upd [of i xss "[]"] by (simp add: ac_simps)

lemma unat_dec: "unat (x::'a::len word) = Suc n \<Longrightarrow> unat (x - 1) = n"
  using unat_minus_one [of x] by force

lemma mod_sum_diff:
  "x < m \<Longrightarrow> y < m \<Longrightarrow> z = (x + y) mod m \<Longrightarrow> x \<le> z \<Longrightarrow> y = z - (x::nat)"
  using le_mod_geq [of m "x + y"] by (cases "x + y < m") auto

lemma nth_update_if: "j < length xs \<Longrightarrow> xs[i := x] ! j = (if i = j then x else xs ! j)"
  by auto

lemma mod_add_wrap: "m dvd n \<Longrightarrow> (x mod n + k) mod m = (x + k) mod (m::nat)"
  by (metis mod_add_left_eq mod_mod_cancel)

lemma mod_add_inj:
  assumes "(a + x) mod m = (a + y) mod m" "x < m" "y < m"
  shows "x = (y::nat)"
proof (rule ccontr)
  assume ne: "x \<noteq> y"
  have aux: False if "(a + u) mod m = (a + v) mod m" "u < v" "v < m" for u v :: nat
  proof -
    have "m dvd (a + v) - (a + u)"
      using that mod_eq_dvd_iff_nat [of "a + u" "a + v" m] by simp
    then show False using that by (auto dest!: dvd_imp_le)
  qed
  from ne show False using aux [of x y] aux [of y x] assms by (cases x y rule: linorder_cases) auto
qed

section \<open>Byte buffers\<close>

text \<open>Copying bytes into a buffer at an offset (\<open>memcpy\<close> to a place inside it).\<close>

definition poke :: "nat \<Rightarrow> 'a list \<Rightarrow> 'a list \<Rightarrow> 'a list" where
  "poke off dat buf = take off buf @ dat @ drop (off + length dat) buf"

definition in_range :: "nat \<Rightarrow> nat \<Rightarrow> 'a list \<Rightarrow> bool" where
  "in_range off n buf \<longleftrightarrow> off + n \<le> length buf"

lemma length_poke [simp]: "off + length dat \<le> length buf \<Longrightarrow> length (poke off dat buf) = length buf"
  by (simp add: poke_def)

lemma take_poke_before [simp]:
  "n \<le> off \<Longrightarrow> off \<le> length buf \<Longrightarrow> take n (poke off dat buf) = take n buf"
  by (simp add: poke_def min_def)

lemma take_poke_after:
  "off \<le> length buf \<Longrightarrow> take (off + length dat) (poke off dat buf) = take off buf @ dat"
  by (simp add: poke_def)

lemma drop_poke [simp]:
  "off + length dat \<le> n \<Longrightarrow> off + length dat \<le> length buf \<Longrightarrow> drop n (poke off dat buf) = drop n buf"
  by (simp add: poke_def)

text \<open>The two bytes of a u16 and the value of a byte string in the little-endian order of the host.\<close>

definition le16 :: "u16 \<Rightarrow> u8 list" where
  "le16 x = [ucast x, ucast (drop_bit 8 x)]"

fun le_val :: "u8 list \<Rightarrow> u64" where
  "le_val [] = 0"
| "le_val (b # bs) = ucast b + 256 * le_val bs"

definition get16 :: "u8 list \<Rightarrow> u16" where
  "get16 bs = (case bs of lo # hi # _ \<Rightarrow> ucast lo + 256 * ucast hi | _ \<Rightarrow> 0)"

lemma length_le16 [simp]: "length (le16 x) = 2"
  by (simp add: le16_def)

lemma word16_bytes: "ucast (ucast x :: u8) + 256 * ucast (ucast (drop_bit 8 x) :: u8) = (x :: u16)"
proof -
  have x: "uint x < 65536" using uint_lt2p [of x] by simp
  then have "uint x div 256 mod 256 = uint x div 256" by (intro mod_pos_pos_trivial) (simp_all add: pos_imp_zdiv_nonneg_iff)
  with x have "uint (ucast (ucast x :: u8) + 256 * ucast (ucast (drop_bit 8 x) :: u8) :: u16) = uint x"
    by (simp add: uint_word_ariths unsigned_ucast_eq unsigned_drop_bit_eq take_bit_eq_mod
        drop_bit_eq_div uint_mod uint_div)
  then show ?thesis by (rule word_uint_eqI)
qed

lemma get16_le16 [simp]: "get16 (le16 x @ r) = x"
  by (simp add: get16_def le16_def word16_bytes)

section \<open>Machines that keep an invariant\<close>

text \<open>
  A run is guarded when each of its events satisfies the guard in the state where it happens.
\<close>

fun guarded_run :: "('e \<Rightarrow> 's \<Rightarrow> bool) \<Rightarrow> ('e \<Rightarrow> 's \<Rightarrow> 's) \<Rightarrow> 'e list \<Rightarrow> 's \<Rightarrow> bool" where
  "guarded_run g step [] s = True"
| "guarded_run g step (e # es) s = (g e s \<and> guarded_run g step es (step e s))"

lemma guarded_run_always: "(\<And>e s. e \<in> set es \<Longrightarrow> g e s) \<Longrightarrow> guarded_run g step es s"
  by (induction es arbitrary: s) simp_all

lemma guarded_run_append: "guarded_run g step (es @ fs) s \<longleftrightarrow> guarded_run g step es s \<and> guarded_run g step fs (fold step es s)"
  by (induction es arbitrary: s) simp_all

lemma guarded_run_True [simp]: "guarded_run (\<lambda>e s. True) step es s"
  by (induction es arbitrary: s) simp_all

text \<open>
  The contract of a stateful component: each operation, named by an event, keeps the
  invariant when its guard holds. Then every guarded sequence of operations does.
\<close>

locale inv_machine =
  fixes step :: "'e \<Rightarrow> 's \<Rightarrow> 's" and invar :: "'s \<Rightarrow> bool" and guard :: "'e \<Rightarrow> 's \<Rightarrow> bool"
  assumes step_invar: "invar s \<Longrightarrow> guard e s \<Longrightarrow> invar (step e s)"
begin

lemma run_invar: "invar s \<Longrightarrow> guarded_run guard step es s \<Longrightarrow> invar (fold step es s)"
  by (induction es arbitrary: s) (auto intro: step_invar)

end

text \<open>
  The contract of a component that handles buffers: what it holds, hands on and frees after
  an operation is what it held, handed on and freed before, together with what came in.
\<close>

locale conserving_machine = inv_machine +
  fixes load :: "'b \<Rightarrow> 'c multiset" and inp :: "'a \<Rightarrow> 'c multiset"
  assumes step_load: "invar s \<Longrightarrow> guard e s \<Longrightarrow> load (step e s) = load s + inp e"
begin

lemma run_load:
  "invar s \<Longrightarrow> guarded_run guard step es s \<Longrightarrow>
     load (fold step es s) = load s + (\<Sum>e \<leftarrow> es. inp e)"
proof (induction es arbitrary: s)
  case (Cons e es)
  then have "load (fold step es (step e s)) = load (step e s) + (\<Sum>e \<leftarrow> es. inp e)"
    by (auto intro: step_invar)
  with Cons.prems show ?case by (simp add: step_load ac_simps)
qed simp

end

end
