(* ===== verification/Rx_Reorder.thy ===== *)
theory Rx_Reorder
  imports Skw_Prelude
begin

text \<open>
  The receive reorder buffer of \<^verbatim>\<open>skw_rx.c\<close>: one circular array of buffer lists per block-ack
  session, indexed by sequence number modulo the window size, from which frames leave in
  sequence order. The theory holds the data (\<^verbatim>\<open>skw_rx.h\<close>, \<^verbatim>\<open>skw_iface.h\<close>), the reorder
  timer, forced release, release of the ready prefix, and the per-frame decision of
  \<^verbatim>\<open>skw_ampdu_reorder\<close>.
\<close>

section \<open>Descriptors, buffers and the reorder state\<close>

text \<open>
  \<open>struct skw_rx_desc\<close>: bit-fields keep their widths. The fields the driver never reads
  on this path are left out.
\<close>

record skw_rx_desc =
  msdu_len :: u16
  csum_valid :: bool
  snap_match :: bool
  is_amsdu :: bool
  is_qos_data :: bool
  amsdu_first_idx :: bool
  amsdu_last_idx :: bool
  csum :: u16
  msdu_filter :: u8
  sn :: "12 word"
  frag_num :: "4 word"
  inst_id :: "2 word"
  more_frag :: bool
  peer_idx :: "5 word"
  is_mc_addr :: bool
  tid :: "4 word"
  pn :: "u8 list"
  msdu_offset :: u8
  amsdu_idx :: "6 word"
  need_forward :: bool
  mac_drop_frag :: bool

text \<open>\<open>struct skw_skb_rxcb\<close>, the driver's control block inside a buffer.\<close>

record skw_skb_rxcb =
  rx_time :: u64
  rx_desc_offset :: u16
  amsdu_bitmap :: u8
  amsdu_mask :: u8
  amsdu_flags :: u16
  skw_created :: bool
  lmac_id :: u8
  skip_replay_detect :: bool

text \<open>
  A socket buffer: its identity (the address the C code passes around), the descriptor found
  before its data, the control block and the data.
\<close>

record sk_buff =
  skb_id :: nat
  skb_desc :: skw_rx_desc
  skb_cb :: skw_skb_rxcb
  skb_data :: "u8 list"

abbreviation skb_sn :: "sk_buff \<Rightarrow> u16" where
  "skb_sn b \<equiv> ucast (sn (skb_desc b))"

definition SKW_AMSDU_FLAG_TAINT :: u16 where "SKW_AMSDU_FLAG_TAINT = BIT 0"
definition SKW_AMSDU_FLAG_VALID :: u16 where "SKW_AMSDU_FLAG_VALID = BIT 1"

datatype skw_release_reason =
  SKW_RELEASE_INVALID | SKW_RELEASE_EXPIRED | SKW_RELEASE_OOB | SKW_RELEASE_BAR | SKW_RELEASE_FREE

text \<open>\<open>struct skw_tid_rx\<close>: the window and its buffer array.\<close>

record skw_tid_rx =
  win_start :: u16
  win_size :: u16
  stored_num :: u32
  tid_ref_cnt :: int
  reorder_buf :: "sk_buff list list"

text \<open>
  \<open>struct skw_reorder_rx\<close> without its back pointers: the reference count, the reorder
  timer (\<open>None\<close> when not pending, otherwise the expiry time), what the timer is armed
  for, the pending forced release, and the session.
\<close>

record skw_reorder_rx =
  ref_cnt :: int
  timer :: "u64 option"
  expired_sn :: u16
  expired_ref_cnt :: int
  todo_seq :: u16
  todo_reason :: skw_release_reason
  todo_actived :: bool
  tid_rx :: "skw_tid_rx option"

text \<open>What the environment supplies: the clock and the configured reorder timeout in jiffies.\<close>

record rx_env =
  jiffies :: u64
  reorder_timeout :: u64

text \<open>
  The working state of one reorder call: the reorder record, its window, the release list
  being built, the buffers freed, and whether the session was put on the to-do list.
\<close>

record reorder_ctx =
  cx_r :: skw_reorder_rx
  cx_t :: skw_tid_rx
  cx_rel :: "sk_buff list"
  cx_freed :: "sk_buff list"
  cx_kick :: bool

section \<open>Readiness and timeouts\<close>

definition has_flag :: "u16 \<Rightarrow> sk_buff \<Rightarrow> bool" where
  "has_flag f b = (amsdu_flags (skb_cb b) AND f \<noteq> 0)"

definition is_skw_release_ready :: "sk_buff list \<Rightarrow> bool" where
  "is_skw_release_ready lst =
     (case lst of [] \<Rightarrow> False
      | b # _ \<Rightarrow> \<not> (has_flag SKW_AMSDU_FLAG_VALID b \<and>
                    amsdu_bitmap (skb_cb b) \<noteq> amsdu_mask (skb_cb b)))"

definition is_skw_msdu_timeout :: "rx_env \<Rightarrow> sk_buff list \<Rightarrow> bool" where
  "is_skw_msdu_timeout env lst =
     (case lst of [] \<Rightarrow> False
      | b # _ \<Rightarrow> time_after (jiffies env) (rx_time (skb_cb b) + reorder_timeout env))"

definition slot_of :: "skw_tid_rx \<Rightarrow> u16 \<Rightarrow> nat" where
  "slot_of t s = unat s mod unat (win_size t)"

definition tainted :: "sk_buff list \<Rightarrow> bool" where
  "tainted lst = (case lst of [] \<Rightarrow> False | b # _ \<Rightarrow> has_flag SKW_AMSDU_FLAG_TAINT b)"

section \<open>The reorder timer\<close>

definition skw_set_reorder_timer :: "rx_env \<Rightarrow> u16 \<Rightarrow> reorder_ctx \<Rightarrow> reorder_ctx" where
  "skw_set_reorder_timer env s c =
     (let r = cx_r c; t = cx_t c in
      if timer r \<noteq> None \<or> ref_cnt r \<noteq> tid_ref_cnt t then c
      else case reorder_buf t ! slot_of t s of
             [] \<Rightarrow> c
           | b # _ \<Rightarrow>
             (let timeout = rx_time (skb_cb b) + reorder_timeout env in
              if time_before (jiffies env) timeout
              then c\<lparr>cx_r := r\<lparr>expired_sn := s, expired_ref_cnt := tid_ref_cnt t,
                                timer := Some timeout\<rparr>\<rparr>
              else if \<not> todo_actived r
              then c\<lparr>cx_r := r\<lparr>todo_seq := s, todo_actived := True,
                                todo_reason := SKW_RELEASE_EXPIRED\<rparr>, cx_kick := True\<rparr>
              else c))"

definition del_timer :: "reorder_ctx \<Rightarrow> reorder_ctx" where
  "del_timer c = c\<lparr>cx_r := (cx_r c)\<lparr>timer := None\<rparr>\<rparr>"

section \<open>Forced release\<close>

text \<open>One turn of the loop of \<open>skw_reorder_force_release\<close> with a non-empty buffer.\<close>

definition force_release_step :: "reorder_ctx \<Rightarrow> reorder_ctx" where
  "force_release_step c =
     (let t = cx_t c; i = slot_of t (win_start t); lst = reorder_buf t ! i;
          t1 = t\<lparr>win_start := ieee80211_sn_inc (win_start t)\<rparr>;
          t2 = t1\<lparr>reorder_buf := (reorder_buf t)[i := []], stored_num := stored_num t - 1\<rparr> in
      if lst = [] then c\<lparr>cx_t := t1\<rparr>
      else if tainted lst then c\<lparr>cx_t := t2, cx_freed := cx_freed c @ lst\<rparr>
      else c\<lparr>cx_t := t2, cx_rel := cx_rel c @ lst\<rparr>)"

lemma force_release_step_win [simp]:
  "win_start (cx_t (force_release_step c)) = ieee80211_sn_inc (win_start (cx_t c))"
  "win_size (cx_t (force_release_step c)) = win_size (cx_t c)"
  "cx_r (force_release_step c) = cx_r c"
  "cx_kick (force_release_step c) = cx_kick c"
  by (auto simp: force_release_step_def Let_def)

function force_release_loop :: "u16 \<Rightarrow> u16 \<Rightarrow> reorder_ctx \<Rightarrow> reorder_ctx" where
  "force_release_loop to_sn target c =
     (if ieee80211_sn_less (win_start (cx_t c)) target
      then if stored_num (cx_t c) = 0 then c\<lparr>cx_t := (cx_t c)\<lparr>win_start := to_sn\<rparr>\<rparr>
           else force_release_loop to_sn target (force_release_step c)
      else c)"
  by pat_completeness auto
termination
  by (relation "measure (\<lambda>(to_sn, target, c). sn_off (win_start (cx_t c)) target)")
     (auto simp: sn_less_iff sn_off_inc_left)

declare force_release_loop.simps [simp del]

definition skw_reorder_force_release :: "u16 \<Rightarrow> reorder_ctx \<Rightarrow> reorder_ctx" where
  "skw_reorder_force_release to_sn c =
     (let r = cx_r c; t = cx_t c;
          c1 = (if timer r \<noteq> None \<and> ref_cnt r = tid_ref_cnt t \<and>
                   (ieee80211_sn_less (expired_sn r) to_sn \<or>
                    ieee80211_sn_less to_sn (win_start t))
                then del_timer c else c) in
      force_release_loop to_sn (ieee80211_sn_inc to_sn) c1)"

section \<open>Release of the ready prefix\<close>

text \<open>
  The loop of \<open>skw_reorder_release\<close>. \<open>n\<close> counts the turns left, so \<open>i\<close> runs
  from 0 to \<open>win_size - 1\<close>; \<open>w\<close> is the window start read before the loop and
  \<open>rel\<close> the local flag \<open>release\<close>.
\<close>

fun release_loop :: "rx_env \<Rightarrow> u16 \<Rightarrow> nat \<Rightarrow> bool \<Rightarrow> reorder_ctx \<Rightarrow> reorder_ctx" where
  "release_loop env w 0 rel c = c"
| "release_loop env w (Suc n) rel c =
     (let r = cx_r c; t = cx_t c;
          i = unat (win_size t) - Suc n;
          index = (unat w + i) mod unat (win_size t);
          lst = reorder_buf t ! index;
          s = w + of_nat i in
      if stored_num t = 0 then (if timer r \<noteq> None then del_timer c else c)
      else if lst = [] then
        (if timer r \<noteq> None then c else release_loop env w n False c)
      else if \<not> rel then
        (if \<not> is_skw_msdu_timeout env lst then skw_set_reorder_timer env s c
         else release_loop env w n True (skw_reorder_force_release s c))
      else
        (let c1 = (if timer r \<noteq> None \<and> expired_sn r = win_start t then del_timer c else c) in
         if tainted lst then
           release_loop env w n False
             (c1\<lparr>cx_t := t\<lparr>reorder_buf := (reorder_buf t)[index := []]\<rparr>,
                 cx_freed := cx_freed c1 @ lst\<rparr>)
         else if is_skw_release_ready lst \<or> is_skw_msdu_timeout env lst then
           release_loop env w n True
             (c1\<lparr>cx_t := t\<lparr>reorder_buf := (reorder_buf t)[index := []],
                           win_start := ieee80211_sn_inc (win_start t),
                           stored_num := stored_num t - 1\<rparr>,
                 cx_rel := cx_rel c1 @ lst\<rparr>)
         else if timer (cx_r c1) = None then skw_set_reorder_timer env s c1
         else c1))"

definition skw_reorder_release :: "rx_env \<Rightarrow> reorder_ctx \<Rightarrow> reorder_ctx" where
  "skw_reorder_release env c =
     release_loop env (win_start (cx_t c)) (unat (win_size (cx_t c))) True c"

section \<open>The per-frame decision\<close>

definition SKW_RX_FILTER_EXCL :: u32 where
  "SKW_RX_FILTER_EXCL = BIT 5 OR BIT 4 OR BIT 2 OR BIT 11 OR BIT 12"

definition snap_hdr :: "u8 list" where
  "snap_hdr = [0xAA, 0xAA, 0x03, 0x0, 0x0, 0x0]"

text \<open>
  The control block of the slot's first buffer after an A-MSDU subframe has been recorded in
  it; \<open>SKW_RXCB_AMSDU_LAST\<close> is bit 0 of the bitmap.
\<close>

definition amsdu_record :: "skw_rx_desc \<Rightarrow> u8 list \<Rightarrow> skw_skb_rxcb \<Rightarrow> skw_skb_rxcb" where
  "amsdu_record d dat cb =
     (let cb1 = cb\<lparr>amsdu_bitmap := amsdu_bitmap cb OR BIT (unat (amsdu_idx d)),
                   amsdu_flags := amsdu_flags cb OR SKW_AMSDU_FLAG_VALID\<rparr>;
          cb2 = (if amsdu_first_idx d \<and> take 6 dat = snap_hdr
                 then cb1\<lparr>amsdu_flags := amsdu_flags cb1 OR SKW_AMSDU_FLAG_TAINT\<rparr> else cb1) in
      if amsdu_last_idx d
      then cb2\<lparr>amsdu_mask := BIT (unat (amsdu_idx d) + 1) - 1,
               amsdu_bitmap := amsdu_bitmap cb2 OR BIT 0\<rparr>
      else cb2)"

fun map_hd :: "('a \<Rightarrow> 'a) \<Rightarrow> 'a list \<Rightarrow> 'a list" where
  "map_hd f [] = []"
| "map_hd f (x # xs) = f x # xs"

text \<open>
  The tail of \<open>skw_ampdu_reorder\<close> after the label \<open>out\<close>: \<open>own\<close> is whether the
  function still holds the buffer (\<open>skb\<close> is not null there).
\<close>

definition ampdu_reorder_out ::
  "rx_env \<Rightarrow> sk_buff \<Rightarrow> bool \<Rightarrow> bool \<Rightarrow> bool \<Rightarrow> reorder_ctx \<Rightarrow> reorder_ctx" where
  "ampdu_reorder_out env b release dropped own c =
     (let c1 = (if dropped \<and> own then c\<lparr>cx_freed := cx_freed c @ [b]\<rparr> else c);
          own1 = (own \<and> \<not> dropped) in
      if stored_num (cx_t c1) \<noteq> 0 then
        (if release then skw_reorder_release env c1
         else if own1 then skw_set_reorder_timer env (skb_sn b) c1 else c1)
      else if timer (cx_r c1) \<noteq> None then del_timer c1 else c1)"

text \<open>
  The last step of the window logic: a complete frame is in its slot; at the window start the
  slot is released, otherwise it is counted as stored.
\<close>

definition ampdu_place :: "rx_env \<Rightarrow> u16 \<Rightarrow> sk_buff \<Rightarrow> bool \<Rightarrow> reorder_ctx \<Rightarrow> reorder_ctx" where
  "ampdu_place env wstart b release c =
     (let t = cx_t c; r = cx_r c; i = slot_of t (skb_sn b) in
      if skb_sn b = wstart then
        (let c1 = c\<lparr>cx_rel := cx_rel c @ reorder_buf t ! i\<rparr>;
             c2 = (if timer r \<noteq> None \<and> expired_sn r = win_start t then del_timer c1 else c1) in
         ampdu_reorder_out env b True False True
           (c2\<lparr>cx_t := t\<lparr>reorder_buf := (reorder_buf t)[i := []],
                         win_start := ieee80211_sn_inc (win_start t)\<rparr>\<rparr>))
      else ampdu_reorder_out env b release False True
             (c\<lparr>cx_t := t\<lparr>stored_num := stored_num t + 1\<rparr>\<rparr>))"

definition ampdu_insert :: "rx_env \<Rightarrow> sk_buff \<Rightarrow> bool \<Rightarrow> reorder_ctx \<Rightarrow> reorder_ctx" where
  "ampdu_insert env b release c =
     (let t = cx_t c; d = skb_desc b; i = slot_of t (skb_sn b); lst = reorder_buf t ! i in
      if is_amsdu d then
        (let cb = skb_cb (if lst = [] then b else hd lst);
             t1 = (if lst = [] then t\<lparr>stored_num := stored_num t + 1\<rparr> else t) in
         if amsdu_bitmap cb AND BIT (unat (amsdu_idx d)) \<noteq> 0
         then ampdu_reorder_out env b release True True (c\<lparr>cx_t := t1\<rparr>)
         else
           (let cb1 = amsdu_record d (skb_data b) cb;
                lst1 = map_hd (\<lambda>x. x\<lparr>skb_cb := cb1\<rparr>) (lst @ [b]);
                t2 = t1\<lparr>reorder_buf := (reorder_buf t)[i := lst1]\<rparr> in
            if amsdu_bitmap cb1 \<noteq> amsdu_mask cb1
            then ampdu_reorder_out env b release False True (c\<lparr>cx_t := t2\<rparr>)
            else
              (let t3 = t2\<lparr>stored_num := stored_num t2 - 1\<rparr> in
               if amsdu_flags cb1 AND SKW_AMSDU_FLAG_TAINT \<noteq> 0
               then ampdu_reorder_out env b release True False
                      (c\<lparr>cx_t := t3\<lparr>reorder_buf := (reorder_buf t)[i := []],
                                    win_start := ieee80211_sn_inc (win_start t)\<rparr>,
                         cx_freed := cx_freed c @ lst1\<rparr>)
               else ampdu_place env (win_start t) b release (c\<lparr>cx_t := t3\<rparr>))))
      else if lst \<noteq> [] then ampdu_reorder_out env b release True True c
      else ampdu_place env (win_start t) b release
             (c\<lparr>cx_t := t\<lparr>reorder_buf := (reorder_buf t)[i := [b]]\<rparr>\<rparr>))"

text \<open>
  \<open>skw_ampdu_reorder\<close> from the point where the session is known to exist: old frames,
  frames beyond the window, then the insertion.
\<close>

definition ampdu_reorder_window :: "rx_env \<Rightarrow> sk_buff \<Rightarrow> reorder_ctx \<Rightarrow> reorder_ctx" where
  "ampdu_reorder_window env b c =
     (let t = cx_t c; s = skb_sn b in
      if ieee80211_sn_less s (win_start t) then
        (if SKW_RX_FILTER_EXCL AND BIT (unat (msdu_filter (skb_desc b) AND 0x1F)) \<noteq> 0
         then c\<lparr>cx_rel := cx_rel c @ [b\<lparr>skb_cb := (skb_cb b)\<lparr>skip_replay_detect := True\<rparr>\<rparr>]\<rparr>
         else ampdu_reorder_out env b False True True c)
      else if \<not> ieee80211_sn_less s (win_start t + win_size t)
      then ampdu_insert env b True
             (skw_reorder_force_release (ieee80211_sn_sub s (win_size t)) c)
      else ampdu_insert env b False c)"


section \<open>Opening a session\<close>

text \<open>
  The window \<open>skw_add_tid_rx\<close> allocates: at least 64 positions, doubled. The size is
  computed in 32 bits and stored in the 16-bit field \<open>win_size\<close>.
\<close>

definition rx_win_sz :: "u16 \<Rightarrow> u32" where
  "rx_win_sz buf_size = push_bit 1 (if 64 < buf_size then ucast buf_size else 64)"

definition new_tid_rx :: "u16 \<Rightarrow> u16 \<Rightarrow> int \<Rightarrow> skw_tid_rx" where
  "new_tid_rx ssn buf_size ref =
     \<lparr>win_start = ssn, win_size = ucast (rx_win_sz buf_size), stored_num = 0,
      tid_ref_cnt = ref, reorder_buf = replicate (unat (rx_win_sz buf_size)) []\<rparr>"

end
