(* ===== verification/Rx_Reorder_Correct.thy ===== *)
theory Rx_Reorder_Correct
  imports Rx_Reorder
begin

text \<open>
  Correctness of the reorder buffer: no buffer is lost or delivered twice, the window
  invariant, in-order delivery, and the places where the code leaves the invariant.
\<close>

section \<open>Conservation of buffers\<close>

definition ctx_load :: "reorder_ctx \<Rightarrow> nat multiset" where
  "ctx_load c = image_mset skb_id (mset (cx_rel c) + mset (cx_freed c)
                                   + mset (concat (reorder_buf (cx_t c))))"

definition buf_ok :: "skw_tid_rx \<Rightarrow> bool" where
  "buf_ok t \<longleftrightarrow> 0 < unat (win_size t) \<and> length (reorder_buf t) = unat (win_size t)"

lemma slot_of_less: "buf_ok t \<Longrightarrow> slot_of t s < length (reorder_buf t)"
  by (simp add: buf_ok_def slot_of_def)

lemma index_less: "buf_ok t \<Longrightarrow> n mod unat (win_size t) < length (reorder_buf t)"
  by (simp add: buf_ok_def)

lemma set_timer_frame [simp]:
  "cx_t (skw_set_reorder_timer env s c) = cx_t c"
  "cx_rel (skw_set_reorder_timer env s c) = cx_rel c"
  "cx_freed (skw_set_reorder_timer env s c) = cx_freed c"
  by (auto simp: skw_set_reorder_timer_def Let_def split: list.splits)

lemma del_timer_frame [simp]:
  "cx_t (del_timer c) = cx_t c" "cx_rel (del_timer c) = cx_rel c"
  "cx_freed (del_timer c) = cx_freed c" "timer (cx_r (del_timer c)) = None"
  by (simp_all add: del_timer_def)

lemma ctx_load_frame [simp]:
  "ctx_load (skw_set_reorder_timer env s c) = ctx_load c" "ctx_load (del_timer c) = ctx_load c"
  by (simp_all add: ctx_load_def)

text \<open>Taking a slot out of the array, to the release list or to be freed.\<close>

lemma ctx_load_take:
  assumes "i < length (reorder_buf (cx_t c))"
    and "reorder_buf t' = (reorder_buf (cx_t c))[i := []]"
  shows "ctx_load (c\<lparr>cx_t := t', cx_rel := cx_rel c @ reorder_buf (cx_t c) ! i\<rparr>) = ctx_load c"
    and "ctx_load (c\<lparr>cx_t := t', cx_freed := cx_freed c @ reorder_buf (cx_t c) ! i\<rparr>) = ctx_load c"
  using assms mset_concat_remove [of i "reorder_buf (cx_t c)"]
  by (simp_all add: ctx_load_def ac_simps)

lemma force_step_safe:
  assumes "buf_ok (cx_t c)"
  shows "buf_ok (cx_t (force_release_step c)) \<and> ctx_load (force_release_step c) = ctx_load c"
proof -
  let ?i = "slot_of (cx_t c) (win_start (cx_t c))"
  have i: "?i < length (reorder_buf (cx_t c))" using assms by (rule slot_of_less)
  show ?thesis
    using assms ctx_load_take [OF i]
    by (auto simp: force_release_step_def Let_def buf_ok_def) (simp_all add: ctx_load_def)
qed

lemma force_loop_safe:
  "buf_ok (cx_t c) \<Longrightarrow> buf_ok (cx_t (force_release_loop to_sn target c)) \<and>
     ctx_load (force_release_loop to_sn target c) = ctx_load c"
proof (induction to_sn target c rule: force_release_loop.induct)
  case (1 to_sn target c)
  then show ?case
    using force_step_safe [of c]
    by (subst (1 2) force_release_loop.simps) (auto simp: buf_ok_def ctx_load_def)
qed

lemma force_release_safe:
  assumes "buf_ok (cx_t c)"
  shows "buf_ok (cx_t (skw_reorder_force_release s c))"
    and "ctx_load (skw_reorder_force_release s c) = ctx_load c"
  using assms force_loop_safe [of c] force_loop_safe [of "del_timer c"]
  by (auto simp: skw_reorder_force_release_def Let_def)

lemma release_loop_safe:
  "buf_ok (cx_t c) \<Longrightarrow> buf_ok (cx_t (release_loop env w n rel c)) \<and>
     ctx_load (release_loop env w n rel c) = ctx_load c"
proof (induction n arbitrary: rel c)
  case (Suc n)
  let ?t = "cx_t c"
  let ?j = "(unat w + (unat (win_size ?t) - Suc n)) mod unat (win_size ?t)"
  have j: "?j < length (reorder_buf ?t)" using Suc.prems by (rule index_less)
  show ?case
    using Suc.prems Suc.IH force_release_safe [of c] ctx_load_take [OF j] ctx_load_take [of ?j "del_timer c"] j
    by (auto simp: Let_def buf_ok_def)
qed simp

lemma reorder_release_safe:
  assumes "buf_ok (cx_t c)"
  shows "buf_ok (cx_t (skw_reorder_release env c))"
    and "ctx_load (skw_reorder_release env c) = ctx_load c"
  using release_loop_safe [OF assms] by (simp_all add: skw_reorder_release_def)

lemma ctx_load_free: "ctx_load (c\<lparr>cx_freed := cx_freed c @ [b]\<rparr>) = ctx_load c + {#skb_id b#}"
  by (simp add: ctx_load_def)

lemma out_safe:
  assumes "buf_ok (cx_t c)"
  shows "buf_ok (cx_t (ampdu_reorder_out env b release dropped own c))"
    and "ctx_load (ampdu_reorder_out env b release dropped own c) =
         ctx_load c + (if dropped \<and> own then {#skb_id b#} else {#})"
  using assms reorder_release_safe
  by (auto simp: ampdu_reorder_out_def Let_def ctx_load_free)

lemma ctx_load_tid: "reorder_buf t' = reorder_buf (cx_t c) \<Longrightarrow> ctx_load (c\<lparr>cx_t := t'\<rparr>) = ctx_load c"
  by (simp add: ctx_load_def)

lemma place_safe:
  assumes "buf_ok (cx_t c)"
  shows "buf_ok (cx_t (ampdu_place env w b release c))"
    and "ctx_load (ampdu_place env w b release c) = ctx_load c"
proof -
  let ?t = "cx_t c"
  let ?i = "slot_of ?t (skb_sn b)"
  let ?t' = "?t\<lparr>reorder_buf := (reorder_buf ?t)[?i := []],
                win_start := ieee80211_sn_inc (win_start ?t)\<rparr>"
  have i: "?i < length (reorder_buf ?t)" using assms by (rule slot_of_less)
  have ok: "buf_ok ?t'" "buf_ok (?t\<lparr>stored_num := stored_num ?t + 1\<rparr>)"
    using assms by (simp_all add: buf_ok_def)
  have load: "ctx_load (c\<lparr>cx_rel := cx_rel c @ reorder_buf ?t ! ?i, cx_t := ?t'\<rparr>) = ctx_load c"
    using ctx_load_take(1) [OF i, of ?t'] by (simp add: ctx_load_def)
  have load': "ctx_load (del_timer (c\<lparr>cx_rel := cx_rel c @ reorder_buf ?t ! ?i\<rparr>)
                 \<lparr>cx_t := ?t'\<rparr>) = ctx_load c"
    using load by (simp add: ctx_load_def)
  show "buf_ok (cx_t (ampdu_place env w b release c))"
    using ok by (auto simp: ampdu_place_def Let_def intro!: out_safe(1))
  show "ctx_load (ampdu_place env w b release c) = ctx_load c"
    using ok load load' by (auto simp: ampdu_place_def Let_def out_safe(2) ctx_load_tid)
qed

lemma ids_map_hd: "map skb_id (map_hd (\<lambda>x. x\<lparr>skb_cb := cb\<rparr>) xs) = map skb_id xs"
  by (cases xs) auto

lemma mset_ids_map_hd:
  "image_mset skb_id (mset (map_hd (\<lambda>x. x\<lparr>skb_cb := cb\<rparr>) xs)) = image_mset skb_id (mset xs)"
  using ids_map_hd [of cb xs] by (metis mset_map)

text \<open>Putting the frame into its slot, with the control block of the first buffer rewritten.\<close>

lemma ctx_load_put:
  assumes "i < length (reorder_buf (cx_t c))"
    and "reorder_buf t' = (reorder_buf (cx_t c))[i :=
           map_hd (\<lambda>x. x\<lparr>skb_cb := cb\<rparr>) (reorder_buf (cx_t c) ! i @ [b])]"
  shows "ctx_load (c\<lparr>cx_t := t'\<rparr>) = ctx_load c + {#skb_id b#}"
proof -
  let ?xs = "reorder_buf (cx_t c)"
  let ?ys = "map_hd (\<lambda>x. x\<lparr>skb_cb := cb\<rparr>) (?xs ! i @ [b])"
  have "image_mset skb_id (mset (concat (?xs[i := ?ys])) + mset (?xs ! i))
        = image_mset skb_id (mset (concat ?xs) + mset ?ys)"
    using assms(1) by (simp only: mset_concat_upd)
  then show ?thesis
    using assms(2) by (simp add: ctx_load_def mset_ids_map_hd ac_simps)
qed

lemma insert_safe:
  assumes ok: "buf_ok (cx_t c)"
  shows "buf_ok (cx_t (ampdu_insert env b release c))"
    and "ctx_load (ampdu_insert env b release c) = ctx_load c + {#skb_id b#}"
proof -
  let ?t = "cx_t c"
  let ?i = "slot_of ?t (skb_sn b)"
  have i: "?i < length (reorder_buf ?t)" using ok by (rule slot_of_less)
  have tids: "ctx_load (c\<lparr>cx_t := t'\<rparr>) = ctx_load c + {#skb_id b#}"
    if "reorder_buf t' = (reorder_buf ?t)[?i := map_hd (\<lambda>x. x\<lparr>skb_cb := cb\<rparr>) (reorder_buf ?t ! ?i @ [b])]"
    for t' cb using ctx_load_put [OF i that] .
  have purge: "ctx_load (c\<lparr>cx_t := t', cx_freed := cx_freed c @ map_hd (\<lambda>x. x\<lparr>skb_cb := cb\<rparr>) (reorder_buf ?t ! ?i @ [b])\<rparr>)
        = ctx_load c + {#skb_id b#}"
    if "reorder_buf t' = (reorder_buf ?t)[?i := []]" for t' cb
    using that mset_concat_remove [OF i] by (simp add: ctx_load_def mset_ids_map_hd ac_simps)
  have single: "ctx_load (c\<lparr>cx_t := t'\<rparr>) = ctx_load c + {#skb_id b#}"
    if "reorder_buf t' = (reorder_buf ?t)[?i := [b]]" "reorder_buf ?t ! ?i = []" for t'
    using that mset_concat_remove [OF i] mset_concat_upd [OF i, of "[b]"]
    by (simp add: ctx_load_def ac_simps)
  have okt: "buf_ok t'" if "win_size t' = win_size ?t" "length (reorder_buf t') = length (reorder_buf ?t)" for t'
    using ok that by (simp add: buf_ok_def)
  show "buf_ok (cx_t (ampdu_insert env b release c))"
    unfolding ampdu_insert_def Let_def
    by (auto intro!: out_safe(1) place_safe(1) okt)
  show "ctx_load (ampdu_insert env b release c) = ctx_load c + {#skb_id b#}"
  proof (cases "is_amsdu (skb_desc b)")
    case True
    then show ?thesis
      by (simp add: ampdu_insert_def Let_def out_safe(2) place_safe(2) okt tids purge ctx_load_tid
               del: append_eq_append_conv)
  next
    case False
    then show ?thesis
      by (simp add: ampdu_insert_def Let_def out_safe(2) place_safe(2) okt ok single)
  qed
qed

lemma window_safe:
  assumes "buf_ok (cx_t c)"
  shows "buf_ok (cx_t (ampdu_reorder_window env b c))"
    and "ctx_load (ampdu_reorder_window env b c) = ctx_load c + {#skb_id b#}"
proof -
  show "buf_ok (cx_t (ampdu_reorder_window env b c))"
    using assms by (simp add: ampdu_reorder_window_def Let_def insert_safe(1) out_safe(1)
        force_release_safe(1))
  have "ctx_load (c\<lparr>cx_rel := cx_rel c @ [b\<lparr>skb_cb := cb\<rparr>]\<rparr>) = ctx_load c + {#skb_id b#}" for cb
    by (simp add: ctx_load_def)
  then show "ctx_load (ampdu_reorder_window env b c) = ctx_load c + {#skb_id b#}"
    using assms by (simp add: ampdu_reorder_window_def Let_def insert_safe(2) out_safe(2)
        force_release_safe)
qed

text \<open>A frame event: the clock at its arrival and the buffer.\<close>

fun rx_frame :: "rx_env \<times> sk_buff \<Rightarrow> reorder_ctx \<Rightarrow> reorder_ctx" where
  "rx_frame (env, b) c = ampdu_reorder_window env b c"

interpretation frames: conserving_machine rx_frame "\<lambda>c. buf_ok (cx_t c)" "\<lambda>_ _. True"
  ctx_load "\<lambda>e. {#skb_id (snd e)#}"
  by unfold_locales (auto simp: window_safe)

section \<open>The window invariant\<close>

definition win_geom :: "skw_tid_rx \<Rightarrow> bool" where
  "win_geom t \<longleftrightarrow> buf_ok t \<and> 1 < unat (win_size t) \<and>
     unat (win_size t) dvd 4096 \<and> unat (win_size t) < 2048"

definition in_window :: "skw_tid_rx \<Rightarrow> bool" where
  "in_window t \<longleftrightarrow> (\<forall>i < length (reorder_buf t). \<forall>x \<in> set (reorder_buf t ! i).
     slot_of t (skb_sn x) = i \<and> sn_off (win_start t) (skb_sn x) < unat (win_size t))"

definition counted :: "skw_tid_rx \<Rightarrow> bool" where
  "counted t \<longleftrightarrow> unat (stored_num t) = count_nonempty (reorder_buf t)"

text \<open>
  The invariant: the array has one slot per window position, every buffered frame lies in the
  window and in the slot of its sequence number, and \<open>stored_num\<close> counts the occupied
  slots.
\<close>

definition reorder_inv :: "skw_tid_rx \<Rightarrow> bool" where
  "reorder_inv t \<longleftrightarrow> win_geom t \<and> unat (win_start t) < 4096 \<and> counted t \<and> in_window t"

lemma skb_sn_less [simp]: "unat (skb_sn x) < 4096"
  using unsigned_less [of "sn (skb_desc x)", where 'a = nat] 
  by (simp add: unsigned_ucast_eq take_bit_eq_mod)

lemma in_window_empty: "\<forall>xs \<in> set (reorder_buf t). xs = [] \<Longrightarrow> in_window t"
  by (auto simp: in_window_def dest!: nth_mem)

lemma reorder_invD:
  assumes "reorder_inv t"
  shows "buf_ok t" "win_geom t" "counted t" "in_window t" "unat (win_start t) < 4096"
  using assms by (auto simp: reorder_inv_def win_geom_def)

lemma slot_of_off:
  assumes "win_geom t" "unat s < 4096"
  shows "slot_of t s = (unat w + sn_off w s) mod unat (win_size t)"
  using assms unat_from_off [of s w] by (simp add: slot_of_def win_geom_def mod_mod_cancel)

lemma slot_off_inj:
  assumes g: "win_geom t" and "unat s < 4096"
    and "slot_of t s = (unat w + k) mod unat (win_size t)"
    and lt: "sn_off w s < unat (win_size t)" "k < unat (win_size t)"
  shows "sn_off w s = k"
proof -
  have "(unat w + sn_off w s) mod unat (win_size t) = (unat w + k) mod unat (win_size t)"
    using assms slot_of_off [OF g, of s w] by simp
  then show ?thesis using lt by (rule mod_add_inj)
qed

text \<open>All frames of the slot at distance \<open>k\<close> carry that sequence number.\<close>

lemma slot_members:
  assumes "reorder_inv t" "k < unat (win_size t)"
    and "x \<in> set (reorder_buf t ! ((unat (win_start t) + k) mod unat (win_size t)))"
  shows "sn_off (win_start t) (skb_sn x) = k"
proof -
  let ?i = "(unat (win_start t) + k) mod unat (win_size t)"
  have i: "?i < length (reorder_buf t)" using reorder_invD(1) [OF assms(1)] by (rule index_less)
  then have "slot_of t (skb_sn x) = ?i" "sn_off (win_start t) (skb_sn x) < unat (win_size t)"
    using reorder_invD(4) [OF assms(1)] assms(3) by (auto simp: in_window_def)
  then show ?thesis
    using slot_off_inj [OF reorder_invD(2) [OF assms(1)], of "skb_sn x" "win_start t" k] assms(2)
    by simp
qed

lemma start_slot_members:
  assumes "reorder_inv t" "x \<in> set (reorder_buf t ! slot_of t (win_start t))"
  shows "skb_sn x = win_start t"
proof -
  have "0 < unat (win_size t)" using reorder_invD(1) [OF assms(1)] by (simp add: buf_ok_def)
  then have "sn_off (win_start t) (skb_sn x) = 0"
    using slot_members [OF assms(1), of 0 x] assms(2) by (simp add: slot_of_def)
  then show ?thesis
    using sn_off_0_iff [of "win_start t" "skb_sn x"] reorder_invD(5) [OF assms(1)] by simp
qed

text \<open>
  The window moves past its first position once that slot is empty: the common core of the
  forced release, the ordinary release and the direct hand-over.
\<close>

definition advance :: "skw_tid_rx \<Rightarrow> skw_tid_rx" where
  "advance t = t\<lparr>win_start := ieee80211_sn_inc (win_start t),
                 reorder_buf := (reorder_buf t)[slot_of t (win_start t) := []],
                 stored_num := (if reorder_buf t ! slot_of t (win_start t) = [] then stored_num t
                                else stored_num t - 1)\<rparr>"

lemma counted_dec:
  assumes "counted t" "buf_ok t" "i < length (reorder_buf t)" "reorder_buf t ! i \<noteq> []"
    and "reorder_buf t' = (reorder_buf t)[i := []]" "stored_num t' = stored_num t - 1"
  shows "counted t'"
  using assms count_nonempty_remove [of i "reorder_buf t"] unat_dec [of "stored_num t"]
  by (simp add: counted_def)

lemma in_window_advance:
  assumes "reorder_inv t"
    and t': "reorder_buf t' = (reorder_buf t)[slot_of t (win_start t) := []]"
      "win_start t' = ieee80211_sn_inc (win_start t)" "win_size t' = win_size t"
  shows "in_window t'"
proof (unfold in_window_def, intro allI impI ballI)
  fix i x
  assume i: "i < length (reorder_buf t')" and x: "x \<in> set (reorder_buf t' ! i)"
  let ?w = "win_start t"
  have i': "i < length (reorder_buf t)" using i t'(1) by simp
  then have ne: "i \<noteq> slot_of t ?w" and x': "x \<in> set (reorder_buf t ! i)"
    using x unfolding t'(1) by (cases "i = slot_of t ?w"; simp)+
  have sl: "slot_of t (skb_sn x) = i" and off: "sn_off ?w (skb_sn x) < unat (win_size t)"
    using reorder_invD(4) [OF assms(1)] x' i' by (auto simp: in_window_def)
  have "sn_off ?w (skb_sn x) \<noteq> 0"
    using sl ne sn_off_0_iff [of ?w "skb_sn x"] reorder_invD(5) [OF assms(1)] by auto
  with sl off t'(2,3) show "slot_of t' (skb_sn x) = i \<and>
      sn_off (win_start t') (skb_sn x) < unat (win_size t')"
    by (simp add: slot_of_def sn_off_inc_left)
qed

lemma reorder_inv_advance: assumes "reorder_inv t" shows "reorder_inv (advance t)"
proof -
  note inv = reorder_invD [OF assms]
  let ?i = "slot_of t (win_start t)"
  have i: "?i < length (reorder_buf t)" using inv(1) by (rule slot_of_less)
  have "counted (advance t)"
  proof (cases "reorder_buf t ! ?i = []")
    case True
    then have "(reorder_buf t)[?i := []] = reorder_buf t" by (metis list_update_id)
    with True inv(3) show ?thesis by (simp add: counted_def advance_def)
  next
    case False
    then show ?thesis using counted_dec [OF inv(3,1) i] by (simp add: advance_def)
  qed
  moreover have "in_window (advance t)"
    using in_window_advance [OF assms] by (simp add: advance_def)
  moreover have "win_geom (advance t)"
    using inv(2) by (simp add: win_geom_def buf_ok_def advance_def)
  ultimately show ?thesis by (simp add: reorder_inv_def advance_def)
qed

lemma force_step_advance: "cx_t (force_release_step c) = advance (cx_t c)"
proof -
  let ?t = "cx_t c"
  have "reorder_buf ?t ! slot_of ?t (win_start ?t) = [] \<Longrightarrow>
        (reorder_buf ?t)[slot_of ?t (win_start ?t) := []] = reorder_buf ?t"
    by (metis list_update_id)
  then show ?thesis by (auto simp: force_release_step_def advance_def Let_def)
qed

section \<open>Order of release\<close>

text \<open>
  Relative to a window start \<open>w0\<close> of the past: what has been released is in sequence
  order and lies before the current window start.
\<close>

definition ordered :: "u16 \<Rightarrow> reorder_ctx \<Rightarrow> bool" where
  "ordered w0 c \<longleftrightarrow> sorted (map (\<lambda>x. sn_off w0 (skb_sn x)) (cx_rel c)) \<and>
     (\<forall>x \<in> set (cx_rel c). sn_off w0 (skb_sn x) < sn_off w0 (win_start (cx_t c)))"

lemma ordered_frame:
  "cx_rel c' = cx_rel c \<Longrightarrow> win_start (cx_t c') = win_start (cx_t c) \<Longrightarrow> ordered w0 c' = ordered w0 c"
  by (simp add: ordered_def)

lemma ordered_timer [simp]:
  "ordered w0 (del_timer c) = ordered w0 c"
  "ordered w0 (skw_set_reorder_timer env s c) = ordered w0 c"
  by (simp_all add: ordered_def)

lemma sn_off_inc_room: "sn_off w0 w < 4095 \<Longrightarrow> sn_off w0 (ieee80211_sn_inc w) = Suc (sn_off w0 w)"
  by (simp add: sn_off_inc_right)

lemma sn_off_diff: "sn_off w a \<le> sn_off w b \<Longrightarrow> sn_off a b = sn_off w b - sn_off w a"
  by (rule mod_sum_diff [OF sn_off_less sn_off_less sn_off_trans])

lemma sn_off_sum: "sn_off w a + sn_off a b < 4096 \<Longrightarrow> sn_off w b = sn_off w a + sn_off a b"
  using sn_off_trans [of w b a] by simp

text \<open>Releasing frames that all carry the sequence number of the window start keeps the order.\<close>

lemma ordered_release:
  assumes "ordered w0 c" "\<forall>x \<in> set lst. skb_sn x = win_start (cx_t c)"
    and "sn_off w0 (win_start (cx_t c)) < 4095"
    and "win_start (cx_t c') = ieee80211_sn_inc (win_start (cx_t c))" "cx_rel c' = cx_rel c @ lst"
  shows "ordered w0 c'"
proof -
  let ?p = "sn_off w0 (win_start (cx_t c))"
  have "sorted (map (\<lambda>x. sn_off w0 (skb_sn x)) lst)"
    using assms(2) by (induction lst) auto
  then show ?thesis
    using assms sn_off_inc_room [OF assms(3)] by (auto simp: ordered_def sorted_append less_Suc_eq)
qed

lemma force_step_ordered:
  assumes "reorder_inv (cx_t c)" "ordered w0 c" "sn_off w0 (win_start (cx_t c)) < 4095"
  shows "ordered w0 (force_release_step c)"
proof -
  let ?lst = "reorder_buf (cx_t c) ! slot_of (cx_t c) (win_start (cx_t c))"
  have "cx_rel (force_release_step c) = cx_rel c @ (if tainted ?lst then [] else ?lst)"
    by (auto simp: force_release_step_def Let_def)
  moreover have "\<forall>x \<in> set ?lst. skb_sn x = win_start (cx_t c)"
    using start_slot_members [OF assms(1)] by blast
  ultimately show ?thesis
    using ordered_release [OF assms(2) _ assms(3), of "if tainted ?lst then [] else ?lst" "force_release_step c"]
    by auto
qed

text \<open>The jump over an empty buffer.\<close>

lemma reorder_inv_jump:
  assumes "reorder_inv t" "stored_num t = 0" "unat s < 4096"
  shows "reorder_inv (t\<lparr>win_start := s\<rparr>)"
proof -
  have "\<forall>xs \<in> set (reorder_buf t). xs = []"
    using reorder_invD(3) [OF assms(1)] assms(2) by (simp add: counted_def count_nonempty_0)
  then have "in_window (t\<lparr>win_start := s\<rparr>)" by (simp add: in_window_empty)
  then show ?thesis using assms by (simp add: reorder_inv_def win_geom_def buf_ok_def counted_def)
qed

lemma force_loop_inv:
  assumes "reorder_inv (cx_t c)" "unat to_sn < 4096" "ordered w0 c"
    and "sn_off w0 (win_start (cx_t c)) + sn_off (win_start (cx_t c)) (ieee80211_sn_inc to_sn) < 4096"
  shows "reorder_inv (cx_t (force_release_loop to_sn (ieee80211_sn_inc to_sn) c)) \<and>
         ordered w0 (force_release_loop to_sn (ieee80211_sn_inc to_sn) c)"
  using assms
proof (induction to_sn "ieee80211_sn_inc to_sn" c rule: force_release_loop.induct)
  case (1 to_sn c)
  let ?w = "win_start (cx_t c)" and ?target = "ieee80211_sn_inc to_sn"
  show ?case
  proof (cases "ieee80211_sn_less ?w ?target")
    case False
    then show ?thesis using 1 by (simp add: force_release_loop.simps [of to_sn ?target c])
  next
    case True
    then have pos: "0 < sn_off ?w ?target" "sn_off ?w ?target < 2048" by (auto simp: sn_less_iff)
    have has_room: "sn_off w0 ?w < 4095" using "1.prems"(4) pos by linarith
    show ?thesis
    proof (cases "stored_num (cx_t c) = 0")
      case True
      have "sn_off ?w to_sn \<le> sn_off ?w ?target"
        using pos by (simp add: sn_off_inc_right mod_if split: if_splits)
      then have "sn_off w0 ?w \<le> sn_off w0 to_sn"
        using sn_off_sum [of w0 ?w to_sn] "1.prems"(4) by linarith
      then have "ordered w0 (c\<lparr>cx_t := cx_t c\<lparr>win_start := to_sn\<rparr>\<rparr>)"
        using "1.prems"(3) by (auto simp: ordered_def)
      with True \<open>ieee80211_sn_less ?w ?target\<close> show ?thesis
        using reorder_inv_jump [OF "1.prems"(1) True "1.prems"(2)]
        by (simp add: force_release_loop.simps [of to_sn ?target c])
    next
      case False
      have "reorder_inv (cx_t (force_release_step c))"
        using reorder_inv_advance [OF "1.prems"(1)] by (simp add: force_step_advance)
      moreover have "ordered w0 (force_release_step c)"
        using force_step_ordered [OF "1.prems"(1,3) has_room] .
      ultimately show ?thesis
        using 1 False True pos has_room
        by (simp add: force_release_loop.simps [of to_sn ?target c] sn_off_inc_room sn_off_inc_left)
    qed
  qed
qed

text \<open>
  Where the loop stops: at the position after \<open>to_sn\<close>, or at \<open>to_sn\<close> itself when the
  buffer ran empty before.
\<close>

lemma force_loop_start:
  assumes "sn_off (win_start (cx_t c)) target < 2048" "0 < sn_off (win_start (cx_t c)) target"
    "unat target < 4096"
  shows "win_start (cx_t (force_release_loop to_sn target c)) = target \<or>
     (win_start (cx_t (force_release_loop to_sn target c)) = to_sn \<and>
      stored_num (cx_t (force_release_loop to_sn target c)) = 0)"
  using assms
proof (induction to_sn target c rule: force_release_loop.induct)
  case (1 to_sn target c)
  let ?w = "win_start (cx_t c)"
  have less: "ieee80211_sn_less ?w target" using "1.prems" by (simp add: sn_less_iff)
  show ?case
  proof (cases "stored_num (cx_t c) = 0 \<or> sn_off ?w target > 1")
    case True
    then show ?thesis using less 1
      by (auto simp: force_release_loop.simps [of to_sn target c] sn_off_inc_left)
  next
    case False
    then have "sn_off ?w target = 1" using "1.prems"(2) by linarith
    then have "sn_off (ieee80211_sn_inc ?w) target = 0" by (simp add: sn_off_inc_left)
    then have "ieee80211_sn_inc ?w = target" using "1.prems"(3) by (simp add: sn_off_0_iff)
    then have "force_release_loop to_sn target (force_release_step c) = force_release_step c"
      by (simp add: force_release_loop.simps [of to_sn target "force_release_step c"] sn_less_iff)
    with False less \<open>ieee80211_sn_inc ?w = target\<close> show ?thesis
      by (simp add: force_release_loop.simps [of to_sn target c])
  qed
qed

definition slot_at :: "skw_tid_rx \<Rightarrow> nat \<Rightarrow> sk_buff list" where
  "slot_at t k = reorder_buf t ! ((unat (win_start t) + k) mod unat (win_size t))"

lemma slot_at_0: "slot_at t 0 = reorder_buf t ! slot_of t (win_start t)"
  by (simp add: slot_at_def slot_of_def)

lemma slot_at_advance:
  assumes "reorder_inv t" "Suc k < unat (win_size t)"
  shows "slot_at (advance t) k = slot_at t (Suc k)"
proof -
  let ?m = "unat (win_size t)" and ?w = "unat (win_start t)"
  have "?m dvd 4096" using reorder_invD(2) [OF assms(1)] by (simp add: win_geom_def)
  then have "(unat (ieee80211_sn_inc (win_start t)) + k) mod ?m = (?w + 1 + k) mod ?m"
    by (simp only: unat_sn_inc mod_add_wrap)
  moreover have "(?w + 0) mod ?m \<noteq> (?w + Suc k) mod ?m"
    using mod_add_inj [of ?w 0 ?m "Suc k"] assms(2) by auto
  ultimately show ?thesis
    by (simp add: slot_at_def advance_def slot_of_def)
qed

lemma slot_at_pos:
  assumes "reorder_inv t" "slot_at t k \<noteq> []"
  shows "stored_num t \<noteq> 0"
proof -
  have "0 < count_nonempty (reorder_buf t)"
    using assms(2) index_less [OF reorder_invD(1) [OF assms(1)]]
    unfolding slot_at_def by (rule count_nonempty_pos [rotated])
  then show ?thesis using reorder_invD(3) [OF assms(1)] by (auto simp: counted_def)
qed

lemma force_loop_exact:
  assumes "reorder_inv (cx_t c)" "ordered w0 c"
    and "sn_off (win_start (cx_t c)) target = Suc k" "Suc k \<le> unat (win_size (cx_t c))"
    and "slot_at (cx_t c) k \<noteq> []" "unat target < 4096"
    and "sn_off w0 (win_start (cx_t c)) + Suc k < 4096"
  shows "reorder_inv (cx_t (force_release_loop to_sn target c)) \<and>
         ordered w0 (force_release_loop to_sn target c) \<and>
         win_start (cx_t (force_release_loop to_sn target c)) = target"
  using assms
proof (induction k arbitrary: c)
  case 0
  let ?c = "force_release_step c"
  have inv: "reorder_inv (cx_t ?c)"
    using reorder_inv_advance [OF "0.prems"(1)] by (simp add: force_step_advance)
  have ord: "ordered w0 ?c" using force_step_ordered "0.prems" by simp
  have "sn_off (win_start (cx_t ?c)) target = 0" using "0.prems" by (simp add: sn_off_inc_left)
  then have st: "win_start (cx_t ?c) = target" using "0.prems" by (simp add: sn_off_0_iff)
  have "stored_num (cx_t c) \<noteq> 0" using slot_at_pos "0.prems" by blast
  then have "force_release_loop to_sn target c = force_release_loop to_sn target ?c"
    using "0.prems" by (simp add: force_release_loop.simps [of to_sn target c] sn_less_iff)
  also have "\<dots> = ?c"
    using st by (simp add: force_release_loop.simps [of to_sn target ?c] sn_less_iff)
  finally show ?case using inv ord st by simp
next
  case (Suc k)
  let ?c = "force_release_step c"
  have "win_geom (cx_t c)" using Suc.prems(1) by (rule reorder_invD)
  then have lt: "Suc (Suc k) < 2048" using Suc.prems(4) by (simp add: win_geom_def)
  have "stored_num (cx_t c) \<noteq> 0" using slot_at_pos Suc.prems by blast
  then have eq: "force_release_loop to_sn target c = force_release_loop to_sn target ?c"
    using Suc.prems lt by (simp add: force_release_loop.simps [of to_sn target c] sn_less_iff)
  have "reorder_inv (cx_t ?c)"
    using reorder_inv_advance [OF Suc.prems(1)] by (simp add: force_step_advance)
  moreover have "ordered w0 ?c" using force_step_ordered Suc.prems by simp
  moreover have "slot_at (cx_t ?c) k \<noteq> []"
    using slot_at_advance [OF Suc.prems(1), of k] Suc.prems by (simp add: force_step_advance)
  moreover have "sn_off w0 (win_start (cx_t ?c)) = Suc (sn_off w0 (win_start (cx_t c)))"
    using Suc.prems(7) by (simp add: sn_off_inc_room)
  ultimately show ?case
    unfolding eq using Suc.prems by (intro Suc.IH) (simp_all add: sn_off_inc_left)
qed

section \<open>Release of the ready prefix keeps invariant and order\<close>

definition no_taint :: "skw_tid_rx \<Rightarrow> bool" where
  "no_taint t \<longleftrightarrow> (\<forall>lst \<in> set (reorder_buf t). \<not> tainted lst)"

lemma tainted_Nil [simp]: "\<not> tainted []"
  by (simp add: tainted_def)

lemma no_taint_clear: "no_taint t \<Longrightarrow> reorder_buf t' = (reorder_buf t)[i := []] \<Longrightarrow> no_taint t'"
  using set_update_subset_insert [of "reorder_buf t" i "[]"] by (auto simp: no_taint_def)

lemma no_taint_force_loop:
  "no_taint (cx_t c) \<Longrightarrow> no_taint (cx_t (force_release_loop to_sn target c))"
proof (induction to_sn target c rule: force_release_loop.induct)
  case (1 to_sn target c)
  have "no_taint (cx_t (force_release_step c))"
    using no_taint_clear [OF "1.prems"] by (simp add: force_step_advance advance_def)
  with 1 show ?case by (subst force_release_loop.simps) (auto simp: no_taint_def)
qed

lemma force_release_cases:
  obtains c1 where "skw_reorder_force_release s c = force_release_loop s (ieee80211_sn_inc s) c1"
    "cx_t c1 = cx_t c" "cx_rel c1 = cx_rel c"
  unfolding skw_reorder_force_release_def Let_def by (auto split: if_splits)

lemma force_loop_size [simp]:
  "win_size (cx_t (force_release_loop to_sn target c)) = win_size (cx_t c)"
  by (induction to_sn target c rule: force_release_loop.induct)
     (subst force_release_loop.simps, simp)

text \<open>A slot released at the window start is an \<open>advance\<close> of the window.\<close>

lemma release_slot_advance:
  assumes "reorder_buf t ! slot_of t (win_start t) \<noteq> []"
  shows "t\<lparr>reorder_buf := (reorder_buf t)[slot_of t (win_start t) := []],
           win_start := ieee80211_sn_inc (win_start t), stored_num := stored_num t - 1\<rparr> = advance t"
  using assms by (simp add: advance_def)


text \<open>
  What the loop relies on with \<open>n\<close> turns left: the invariant, order relative to \<open>w0\<close>,
  and that the window start has advanced from \<open>w\<close> by at most the turns done, by exactly
  them while the flag \<open>release\<close> is set.
\<close>

definition loop_ok :: "u16 \<Rightarrow> u16 \<Rightarrow> nat \<Rightarrow> bool \<Rightarrow> reorder_ctx \<Rightarrow> bool" where
  "loop_ok w0 w n rel c \<longleftrightarrow>
     reorder_inv (cx_t c) \<and> no_taint (cx_t c) \<and> ordered w0 c \<and> unat w < 4096 \<and>
     n \<le> unat (win_size (cx_t c)) \<and>
     sn_off w (win_start (cx_t c)) \<le> unat (win_size (cx_t c)) - n \<and>
     (rel \<longrightarrow> sn_off w (win_start (cx_t c)) = unat (win_size (cx_t c)) - n) \<and>
     sn_off w0 w + unat (win_size (cx_t c)) < 4096 \<and>
     sn_off w0 (win_start (cx_t c)) = sn_off w0 w + sn_off w (win_start (cx_t c))"

lemma loop_ok_index:
  assumes "loop_ok w0 w (Suc n) rel c" and "i = unat (win_size (cx_t c)) - Suc n"
  shows "(unat w + i) mod unat (win_size (cx_t c)) =
         (unat (win_start (cx_t c)) + (i - sn_off w (win_start (cx_t c)))) mod unat (win_size (cx_t c))"
proof -
  let ?t = "cx_t c"
  have inv: "reorder_inv ?t" and le: "sn_off w (win_start ?t) \<le> i"
    using assms by (simp_all add: loop_ok_def)
  have "unat (win_size ?t) dvd 4096" using reorder_invD(2) [OF inv] by (simp add: win_geom_def)
  from mod_add_wrap [OF this, of "unat w + sn_off w (win_start ?t)" "i - sn_off w (win_start ?t)"]
  show ?thesis using unat_from_off [OF reorder_invD(5) [OF inv], of w] le
    by (metis add.assoc le_add_diff_inverse)
qed

lemma loop_ok_clean:
  assumes "loop_ok w0 w n rel c"
  shows "\<not> tainted (reorder_buf (cx_t c) ! (k mod unat (win_size (cx_t c))))"
proof -
  have "no_taint (cx_t c)" "buf_ok (cx_t c)" using assms by (simp_all add: loop_ok_def reorder_invD)
  then show ?thesis using index_less [of "cx_t c" k] by (auto simp: no_taint_def dest: nth_mem)
qed

lemma loop_ok_facts:
  assumes "loop_ok w0 w (Suc n) rel c" and "i = unat (win_size (cx_t c)) - Suc n"
  shows "unat (win_size (cx_t c)) - n = Suc i" "Suc i < 2048" "sn_off w0 w + Suc i < 4096"
    "sn_off w (win_start (cx_t c)) \<le> i" "rel \<Longrightarrow> sn_off w (win_start (cx_t c)) = i"
    "sn_off w (ieee80211_sn_inc (w + of_nat i)) = Suc i"
proof -
  have "unat (win_size (cx_t c)) < 2048"
    using assms(1) reorder_invD(2) [of "cx_t c"] by (simp add: loop_ok_def win_geom_def)
  then show "unat (win_size (cx_t c)) - n = Suc i" "Suc i < 2048" "sn_off w0 w + Suc i < 4096"
    "sn_off w (win_start (cx_t c)) \<le> i" "rel \<Longrightarrow> sn_off w (win_start (cx_t c)) = i"
    using assms by (auto simp: loop_ok_def)
  then show "sn_off w (ieee80211_sn_inc (w + of_nat i)) = Suc i"
    by (simp add: sn_off_inc_room sn_off_add_nat)
qed

lemma loop_ok_empty: "loop_ok w0 w (Suc n) rel c \<Longrightarrow> loop_ok w0 w n False c"
  by (auto simp: loop_ok_def)

text \<open>A timed-out slot after a gap: the forced release moves the window right behind it.\<close>

lemma loop_ok_gap:
  assumes "loop_ok w0 w (Suc n) rel c" and i: "i = unat (win_size (cx_t c)) - Suc n"
    and "reorder_buf (cx_t c) ! ((unat w + i) mod unat (win_size (cx_t c))) \<noteq> []"
  shows "loop_ok w0 w n True (skw_reorder_force_release (w + of_nat i) c)"
proof -
  let ?t = "cx_t c" and ?s = "w + of_nat i :: u16"
  let ?target = "ieee80211_sn_inc ?s" and ?k = "i - sn_off w (win_start (cx_t c))"
  note f = loop_ok_facts [OF assms(1) i]
  obtain c1 where c1: "skw_reorder_force_release ?s c = force_release_loop ?s ?target c1"
    "cx_t c1 = ?t" "cx_rel c1 = cx_rel c" by (rule force_release_cases)
  have "ordered w0 c" using assms(1) by (simp add: loop_ok_def)
  then have "ordered w0 c1" by (simp add: ordered_def c1)
  then have ok: "reorder_inv ?t" "no_taint ?t" "ordered w0 c1" "unat w < 4096"
    "Suc n \<le> unat (win_size ?t)" "sn_off w0 w + unat (win_size ?t) < 4096"
    "sn_off w0 (win_start ?t) = sn_off w0 w + sn_off w (win_start ?t)"
    using assms(1) by (simp_all add: loop_ok_def)
  have off: "sn_off (win_start ?t) ?target = Suc ?k"
    using sn_off_diff [of w "win_start ?t" ?target] f by simp
  have "reorder_inv (cx_t (force_release_loop ?s ?target c1)) \<and>
     ordered w0 (force_release_loop ?s ?target c1) \<and>
     win_start (cx_t (force_release_loop ?s ?target c1)) = ?target"
  proof (rule force_loop_exact)
    show "slot_at (cx_t c1) ?k \<noteq> []"
      using assms(3) loop_ok_index [OF assms(1) i] by (simp add: slot_at_def c1)
  qed (use c1 ok off f in \<open>simp_all\<close>)
  moreover have "no_taint (cx_t (force_release_loop ?s ?target c1))"
    using no_taint_force_loop [of c1] ok(2) by (simp add: c1)
  moreover have "sn_off w0 ?target = sn_off w0 w + Suc i"
    using sn_off_sum [of w0 w ?target] f by simp
  ultimately show ?thesis using ok f by (simp add: loop_ok_def c1)
qed

text \<open>A ready slot at the window start: it is handed on and the window advances by one.\<close>

lemma loop_ok_head:
  assumes "loop_ok w0 w (Suc n) True c" and i: "i = unat (win_size (cx_t c)) - Suc n"
    and lst: "lst = reorder_buf (cx_t c) ! ((unat w + i) mod unat (win_size (cx_t c)))" "lst \<noteq> []"
    and c1: "cx_t c1 = cx_t c" "cx_rel c1 = cx_rel c"
  shows "loop_ok w0 w n True
    (c1\<lparr>cx_t := (cx_t c)\<lparr>reorder_buf := (reorder_buf (cx_t c))
           [(unat w + i) mod unat (win_size (cx_t c)) := []],
         win_start := ieee80211_sn_inc (win_start (cx_t c)), stored_num := stored_num (cx_t c) - 1\<rparr>,
       cx_rel := cx_rel c1 @ lst\<rparr>)"
proof -
  let ?t = "cx_t c" and ?c = "c1\<lparr>cx_t := advance (cx_t c), cx_rel := cx_rel c1 @ lst\<rparr>"
  note f = loop_ok_facts [OF assms(1) i]
  have ok: "reorder_inv ?t" "no_taint ?t" "ordered w0 c" using assms(1) by (simp_all add: loop_ok_def)
  have at: "(unat w + i) mod unat (win_size ?t) = slot_of ?t (win_start ?t)"
    using loop_ok_index [OF assms(1) i] f(5) by (simp add: slot_of_def)
  have "ordered w0 ?c"
  proof (rule ordered_release [of w0 c])
    show "\<forall>x \<in> set lst. skb_sn x = win_start ?t"
      using start_slot_members [OF ok(1)] at lst by simp
  qed (use assms(1) c1 ok f in \<open>simp_all add: advance_def loop_ok_def\<close>)
  moreover have "no_taint (advance ?t)" using no_taint_clear [OF ok(2)] by (simp add: advance_def)
  ultimately have "loop_ok w0 w n True ?c"
    using assms(1) f reorder_inv_advance [OF ok(1)]
    by (simp add: loop_ok_def) (simp add: advance_def sn_off_inc_room)
  then show ?thesis using release_slot_advance [of ?t] lst at by simp
qed

lemma release_loop_inv:
  assumes "loop_ok w0 w n rel c"
  shows "reorder_inv (cx_t (release_loop env w n rel c)) \<and>
         no_taint (cx_t (release_loop env w n rel c)) \<and>
         ordered w0 (release_loop env w n rel c)"
  using assms
proof (induction n arbitrary: rel c)
  case 0
  then show ?case by (simp add: loop_ok_def)
next
  case (Suc n)
  define i where "i = unat (win_size (cx_t c)) - Suc n"
  have ok: "reorder_inv (cx_t c)" "no_taint (cx_t c)" "ordered w0 c"
    using Suc.prems by (simp_all add: loop_ok_def)
  note IH = Suc.IH [OF loop_ok_empty] Suc.IH [OF loop_ok_gap] Suc.IH [OF loop_ok_head]
  note clean = loop_ok_clean [OF Suc.prems, of "unat w + i"]
  show ?case
  proof (cases rel)
    case True
    with Suc.prems have "loop_ok w0 w (Suc n) True c" by simp
    then show ?thesis using ok clean True Suc.prems
      by (simp add: Let_def IH(1) i_def [symmetric] Suc.IH [OF loop_ok_head [OF _ i_def]])
  next
    case False
    then show ?thesis using ok Suc.prems
      by (simp add: Let_def IH(1) i_def [symmetric] Suc.IH [OF loop_ok_gap [OF _ i_def]])
  qed
qed

section \<open>A frame keeps invariant and order\<close>

text \<open>
  What a call may rely on and keeps: the invariant, no tainted slot, and order relative to an
  earlier window start with room left on the number circle.
\<close>

definition good :: "u16 \<Rightarrow> reorder_ctx \<Rightarrow> bool" where
  "good w0 c \<longleftrightarrow> reorder_inv (cx_t c) \<and> no_taint (cx_t c) \<and> ordered w0 c"

definition has_room :: "nat \<Rightarrow> u16 \<Rightarrow> reorder_ctx \<Rightarrow> bool" where
  "has_room k w0 c \<longleftrightarrow> sn_off w0 (win_start (cx_t c)) + unat (win_size (cx_t c)) + k < 4096"

lemma good_frame:
  "cx_t c' = cx_t c \<Longrightarrow> cx_rel c' = cx_rel c \<Longrightarrow> good w0 c' = good w0 c"
  by (simp add: good_def ordered_def)

lemma good_release:
  assumes "good w0 c" "has_room 0 w0 c"
  shows "good w0 (skw_reorder_release env c)"
  using release_loop_inv [of w0 "win_start (cx_t c)" "unat (win_size (cx_t c))" True c env] assms
  by (simp add: good_def has_room_def skw_reorder_release_def loop_ok_def reorder_invD)

lemma good_out:
  assumes "good w0 c" "has_room 0 w0 c"
  shows "good w0 (ampdu_reorder_out env b release dropped own c)"
proof -
  let ?c = "if dropped \<and> own then c\<lparr>cx_freed := cx_freed c @ [b]\<rparr> else c"
  have g: "good w0 ?c" using assms(1) by (auto simp: good_frame [of ?c c])
  moreover have "has_room 0 w0 ?c" using assms(2) by (simp add: has_room_def)
  ultimately have "good w0 (skw_reorder_release env ?c)" by (rule good_release)
  with g show ?thesis
    by (auto simp: ampdu_reorder_out_def Let_def good_frame [of "del_timer _"]
        good_frame [of "skw_set_reorder_timer _ _ _"])
qed

lemma advance_counted:
  assumes "reorder_buf t ! slot_of t (win_start t) \<noteq> []"
  shows "advance (t\<lparr>stored_num := stored_num t + 1\<rparr>) =
         t\<lparr>reorder_buf := (reorder_buf t)[slot_of t (win_start t) := []],
           win_start := ieee80211_sn_inc (win_start t)\<rparr>"
  using assms by (simp add: advance_def slot_of_def)

text \<open>
  Placing a complete frame: the slot already holds it, and would be counted by one more.
\<close>

lemma good_place:
  assumes g: "good w0 (c\<lparr>cx_t := (cx_t c)\<lparr>stored_num := stored_num (cx_t c) + 1\<rparr>\<rparr>)"
    and r: "has_room 1 w0 c" and w: "w = win_start (cx_t c)"
    and ne: "reorder_buf (cx_t c) ! slot_of (cx_t c) (skb_sn b) \<noteq> []"
  shows "good w0 (ampdu_place env w b release c)"
proof (cases "skb_sn b = w")
  case False
  then show ?thesis
    using good_out [OF g] r by (simp add: ampdu_place_def Let_def has_room_def)
next
  case True
  let ?t = "cx_t c"
  let ?t1 = "?t\<lparr>stored_num := stored_num ?t + 1\<rparr>"
  let ?lst = "reorder_buf ?t ! slot_of ?t (win_start ?t)"
  have inv: "reorder_inv ?t1" "no_taint ?t1" using g by (simp_all add: good_def)
  have sz: "1 < unat (win_size ?t)"
    using reorder_invD(2) [OF inv(1)] by (simp add: win_geom_def)
  have good': "good w0 c'" "has_room 0 w0 c'"
    if "cx_t c' = advance ?t1" "cx_rel c' = cx_rel c @ ?lst" for c'
  proof -
    have "\<forall>x \<in> set ?lst. skb_sn x = win_start ?t"
      using start_slot_members [OF inv(1)] by (auto simp: slot_of_def)
    then have "ordered w0 c'"
      using ordered_release [of w0 "c\<lparr>cx_t := ?t1\<rparr>" ?lst c'] g r that sz
      by (simp add: good_def has_room_def advance_def)
    moreover have "no_taint (advance ?t1)"
      using no_taint_clear [OF inv(2)] by (simp add: advance_def)
    ultimately show "good w0 c'" using reorder_inv_advance [OF inv(1)] that by (simp add: good_def)
    show "has_room 0 w0 c'"
      using r that sz by (simp add: has_room_def advance_def sn_off_inc_room)
  qed
  have "advance ?t1 = ?t\<lparr>reorder_buf := (reorder_buf ?t)[slot_of ?t w := []],
          win_start := ieee80211_sn_inc w\<rparr>"
    using advance_counted [of ?t] ne True w by simp
  then show ?thesis
    using True w by (simp add: ampdu_place_def Let_def good_out good')
qed


text \<open>
  A frame as it arrives: nothing recorded in its control block yet, and not the first subframe
  of an A-MSDU whose destination address is an LLC/SNAP header.
\<close>

definition clean_frame :: "sk_buff \<Rightarrow> bool" where
  "clean_frame b \<longleftrightarrow> amsdu_bitmap (skb_cb b) = 0 \<and> amsdu_flags (skb_cb b) = 0 \<and>
     \<not> (is_amsdu (skb_desc b) \<and> amsdu_first_idx (skb_desc b) \<and> take 6 (skb_data b) = snap_hdr)"

text \<open>Replacing one slot by a list of frames of the window that belong there.\<close>

lemma in_window_put:
  assumes "in_window t" "buf_ok t"
    and "\<forall>x \<in> set ys. slot_of t (skb_sn x) = i \<and> sn_off (win_start t) (skb_sn x) < unat (win_size t)"
    and "reorder_buf t' = (reorder_buf t)[i := ys]" "win_start t' = win_start t" "win_size t' = win_size t"
  shows "in_window t'"
proof -
  have "slot_of t' s = slot_of t s" for s using assms(6) by (simp add: slot_of_def)
  then show ?thesis
    using assms by (auto simp: in_window_def nth_update_if)
qed

lemma reorder_inv_put:
  assumes inv: "reorder_inv t" and b: "sn_off (win_start t) (skb_sn b) < unat (win_size t)"
    and t': "reorder_buf t' = (reorder_buf t)[slot_of t (skb_sn b) := ys]"
      "win_start t' = win_start t" "win_size t' = win_size t"
    and ys: "ys \<noteq> []" "\<forall>y \<in> set ys. \<exists>x \<in> set (reorder_buf t ! slot_of t (skb_sn b)) \<union> {b}. skb_sn y = skb_sn x"
    and st: "stored_num t' = (if reorder_buf t ! slot_of t (skb_sn b) = [] then stored_num t + 1
                              else stored_num t)"
  shows "reorder_inv t'"
proof -
  let ?i = "slot_of t (skb_sn b)"
  note I = reorder_invD [OF inv]
  have i: "?i < length (reorder_buf t)" using I(1) by (rule slot_of_less)
  have "\<forall>x \<in> set (reorder_buf t ! ?i) \<union> {b}.
      slot_of t (skb_sn x) = ?i \<and> sn_off (win_start t) (skb_sn x) < unat (win_size t)"
    using I(4) i b by (auto simp: in_window_def)
  with ys(2) have "in_window t'"
    by (intro in_window_put [OF I(4,1) _ t']) (metis (no_types, lifting))
  moreover have "counted t'"
  proof (cases "reorder_buf t ! ?i = []")
    case True
    have "unat (stored_num t) < 2048"
      using I(3) count_nonempty_le [of "reorder_buf t"] I(2)
      by (simp add: counted_def win_geom_def buf_ok_def)
    then have "unat (stored_num t + 1) = Suc (unat (stored_num t))"
      by (simp add: unat_word_ariths)
    then show ?thesis
      using True count_nonempty_add [OF i True ys(1)] I(3) st t'(1) by (simp add: counted_def)
  next
    case False
    then show ?thesis
      using count_nonempty_same [OF i False ys(1)] I(3) st t'(1) by (simp add: counted_def)
  qed
  ultimately show ?thesis
    using I(2,5) t' by (simp add: reorder_inv_def win_geom_def buf_ok_def)
qed


lemma no_taint_put:
  "no_taint t \<Longrightarrow> \<not> tainted ys \<Longrightarrow> reorder_buf t' = (reorder_buf t)[i := ys] \<Longrightarrow> no_taint t'"
  using set_update_subset_insert [of "reorder_buf t" i ys] by (auto simp: no_taint_def)

lemma taint_bits:
  "SKW_AMSDU_FLAG_VALID AND SKW_AMSDU_FLAG_TAINT = 0" "SKW_AMSDU_FLAG_TAINT AND SKW_AMSDU_FLAG_VALID = 0"
  by (simp_all add: SKW_AMSDU_FLAG_VALID_def SKW_AMSDU_FLAG_TAINT_def BIT_def)

lemma amsdu_record_taint:
  assumes "\<not> (amsdu_first_idx d \<and> take 6 dat = snap_hdr)"
    and "amsdu_flags cb AND SKW_AMSDU_FLAG_TAINT = 0"
  shows "amsdu_flags (amsdu_record d dat cb) AND SKW_AMSDU_FLAG_TAINT = 0"
  using assms by (auto simp: amsdu_record_def Let_def word_bw_comms taint_bits bit.conj_disj_distrib2
      bit.conj_disj_distrib)

lemma tainted_map_hd:
  "tainted (map_hd (\<lambda>x. x\<lparr>skb_cb := cb\<rparr>) (xs @ [b])) \<longleftrightarrow> amsdu_flags cb AND SKW_AMSDU_FLAG_TAINT \<noteq> 0"
  by (cases xs) (auto simp: tainted_def has_flag_def)

lemma map_hd_sn:
  "\<forall>y \<in> set (map_hd (\<lambda>x. x\<lparr>skb_cb := cb\<rparr>) (xs @ [b])). \<exists>x \<in> set xs \<union> {b}. skb_sn y = skb_sn x"
  by (cases xs) auto

lemma map_hd_Nil [simp]: "map_hd f xs = [] \<longleftrightarrow> xs = []"
  by (cases xs) auto

text \<open>The control block an A-MSDU subframe is recorded in carries no taint.\<close>

lemma good_insert_amsdu:
  assumes g: "good w0 c" and r: "has_room 1 w0 c" and cl: "clean_frame b" and am: "is_amsdu (skb_desc b)"
    and off: "sn_off (win_start (cx_t c)) (skb_sn b) < unat (win_size (cx_t c))"
  shows "good w0 (ampdu_insert env b release c)"
proof -
  let ?t = "cx_t c" and ?d = "skb_desc b"
  let ?i = "slot_of ?t (skb_sn b)"
  let ?lst = "reorder_buf ?t ! ?i"
  let ?cb = "skb_cb (if ?lst = [] then b else hd ?lst)"
  let ?t1 = "if ?lst = [] then ?t\<lparr>stored_num := stored_num ?t + 1\<rparr> else ?t"
  let ?cb1 = "amsdu_record ?d (skb_data b) ?cb"
  let ?lst1 = "map_hd (\<lambda>x. x\<lparr>skb_cb := ?cb1\<rparr>) (?lst @ [b])"
  let ?t2 = "?t1\<lparr>reorder_buf := (reorder_buf ?t)[?i := ?lst1]\<rparr>"
  have inv: "reorder_inv ?t" and nt: "no_taint ?t" and ord: "ordered w0 c"
    using g by (simp_all add: good_def)
  have i: "?i < length (reorder_buf ?t)" using reorder_invD(1) [OF inv] by (rule slot_of_less)
  then have "\<not> tainted ?lst" using nt by (simp add: no_taint_def)
  then have "amsdu_flags ?cb AND SKW_AMSDU_FLAG_TAINT = 0"
    using cl by (cases ?lst) (auto simp: tainted_def has_flag_def clean_frame_def)
  then have nt1: "amsdu_flags ?cb1 AND SKW_AMSDU_FLAG_TAINT = 0"
    using cl am by (intro amsdu_record_taint) (auto simp: clean_frame_def)
  have inv2: "reorder_inv ?t2"
    by (rule reorder_inv_put [OF inv off _ _ _ _ map_hd_sn]) auto
  have nt2: "no_taint ?t2"
    by (rule no_taint_put [OF nt, of ?lst1]) (simp_all add: tainted_map_hd nt1)
  have good2: "good w0 (c\<lparr>cx_t := ?t2\<rparr>)"
    using inv2 nt2 ord by (simp add: good_def ordered_def)
  have room2: "has_room 0 w0 (c\<lparr>cx_t := t'\<rparr>)" "has_room 1 w0 (c\<lparr>cx_t := t'\<rparr>)"
    if "win_start t' = win_start ?t" "win_size t' = win_size ?t" for t'
    using r that by (simp_all add: has_room_def)
  have dup: "good w0 (ampdu_reorder_out env b release True True (c\<lparr>cx_t := ?t1\<rparr>))"
    if "amsdu_bitmap ?cb AND BIT (unat (amsdu_idx ?d)) \<noteq> 0"
  proof -
    have "?lst \<noteq> []" using that cl by (auto simp: clean_frame_def)
    then show ?thesis using good_out [OF g] r by (simp add: has_room_def)
  qed
  have part: "good w0 (ampdu_reorder_out env b release False True (c\<lparr>cx_t := ?t2\<rparr>))"
    by (rule good_out [OF good2]) (simp add: room2)
  have place: "good w0 (ampdu_place env (win_start ?t) b release
      (c\<lparr>cx_t := ?t2\<lparr>stored_num := stored_num ?t2 - 1\<rparr>\<rparr>))"
    by (rule good_place) (use good2 i r in \<open>simp_all add: has_room_def slot_of_def\<close>)
  show ?thesis
    unfolding ampdu_insert_def Let_def using am nt1 dup part place by simp
qed


lemma good_insert_msdu:
  assumes g: "good w0 c" and r: "has_room 1 w0 c" and cl: "clean_frame b" and am: "\<not> is_amsdu (skb_desc b)"
    and off: "sn_off (win_start (cx_t c)) (skb_sn b) < unat (win_size (cx_t c))"
  shows "good w0 (ampdu_insert env b release c)"
proof (cases "reorder_buf (cx_t c) ! slot_of (cx_t c) (skb_sn b) = []")
  case False
  then show ?thesis
    using good_out [OF g] r am by (simp add: ampdu_insert_def Let_def has_room_def)
next
  case True
  let ?t = "cx_t c"
  let ?i = "slot_of ?t (skb_sn b)"
  let ?t1 = "?t\<lparr>reorder_buf := (reorder_buf ?t)[?i := [b]]\<rparr>"
  have inv: "reorder_inv ?t" and nt: "no_taint ?t" and ord: "ordered w0 c"
    using g by (simp_all add: good_def)
  have i: "?i < length (reorder_buf ?t)" using reorder_invD(1) [OF inv] by (rule slot_of_less)
  have "reorder_inv (?t1\<lparr>stored_num := stored_num ?t1 + 1\<rparr>)"
    using True by (intro reorder_inv_put [OF inv off, of _ "[b]"]) auto
  moreover have "no_taint (?t1\<lparr>stored_num := stored_num ?t1 + 1\<rparr>)"
    using cl by (intro no_taint_put [OF nt, of "[b]"])
      (auto simp: tainted_def has_flag_def clean_frame_def)
  ultimately have "good w0 (ampdu_place env (win_start ?t) b release (c\<lparr>cx_t := ?t1\<rparr>))"
    using ord r i by (intro good_place) (simp_all add: good_def ordered_def has_room_def slot_of_def)
  then show ?thesis using True am by (simp add: ampdu_insert_def Let_def)
qed

lemmas good_insert = good_insert_amsdu good_insert_msdu

section \<open>Frames beyond the window\<close>

lemma window_test:
  assumes "win_geom t" "unat (win_start t) < 4096" "\<not> ieee80211_sn_less s (win_start t)"
  shows "sn_off (win_start t) s \<le> 2048"
    and "ieee80211_sn_less s (win_start t + win_size t) \<longleftrightarrow>
         sn_off (win_start t) s < unat (win_size t)"
proof -
  let ?w = "win_start t" and ?m = "unat (win_size t)"
  have m: "?m < 2048" "0 < ?m" using assms(1) by (simp_all add: win_geom_def)
  show le: "sn_off ?w s \<le> 2048"
    using assms(3) sn_off_less [of ?w s] unfolding sn_less_iff sn_off_sym [of s ?w]
    by (auto split: if_splits simp del: sn_off_less sn_off_le)
  have end_off: "sn_off ?w (?w + win_size t) = ?m"
    using sn_off_add_nat [of ?m ?w] m by simp
  show "ieee80211_sn_less s (?w + win_size t) \<longleftrightarrow> sn_off ?w s < ?m"
  proof (cases "sn_off ?w s < ?m")
    case True
    then show ?thesis
      using sn_off_diff [of ?w s "?w + win_size t"] end_off m by (simp add: sn_less_iff)
  next
    case False
    then have "sn_off (?w + win_size t) s = sn_off ?w s - ?m"
      using sn_off_diff [of ?w "?w + win_size t" s] end_off by simp
    then show ?thesis
      using False le m sn_off_sym [of "?w + win_size t" s] by (auto simp: sn_less_iff)
  qed
qed


text \<open>
  A frame beyond the window: the forced release leaves the window ending at the frame, or,
  when it emptied the buffer early, one position short of it.
\<close>

lemma oob_release:
  assumes inv: "reorder_inv t" and t: "t = cx_t c" and ord: "ordered (win_start t) c"
    and far: "unat (win_size t) \<le> sn_off (win_start t) s" "sn_off (win_start t) s \<le> 2048"
    and s: "unat s < 4096" and nt: "no_taint t"
  defines "c' \<equiv> skw_reorder_force_release (ieee80211_sn_sub s (win_size t)) c"
  shows "good (win_start t) c'" and "has_room 1 (win_start t) c'" and "win_size (cx_t c') = win_size t"
    and "sn_off (win_start (cx_t c')) s = unat (win_size t) - 1 \<or>
         sn_off (win_start (cx_t c')) s = unat (win_size t) \<and> stored_num (cx_t c') = 0"
proof -
  let ?w = "win_start t" and ?m = "unat (win_size t)"
  let ?to = "ieee80211_sn_sub s (win_size t)"
  let ?target = "ieee80211_sn_inc ?to"
  have m: "1 < ?m" "?m < 2048" using reorder_invD(2) [OF inv] by (simp_all add: win_geom_def)
  have bk: "sn_off ?to s = ?m"
  proof -
    have "int (sn_off ?to s) = (uint s - (uint s - uint (win_size t)) mod 4096) mod 4096"
      by (simp add: int_sn_off uint_sn_sub)
    also have "\<dots> = uint (win_size t) mod 4096" unfolding mod_diff_right_eq by simp
    also have "\<dots> = int (?m mod 4096)" by (simp add: zmod_int)
    finally have "sn_off ?to s = ?m mod 4096" by (rule int_int_eq [THEN iffD1])
    with m show ?thesis by simp
  qed
  have to_off: "sn_off ?w ?to = sn_off ?w s - ?m"
  proof -
    have "sn_off ?to ?w = (?m + sn_off s ?w) mod 4096" using sn_off_trans [of ?to ?w s] bk by simp
    then show ?thesis
      using far m sn_off_sym [of s ?w] sn_off_sym [of ?w ?to] by (auto simp: mod_if split: if_splits)
  qed
  have target_off: "sn_off ?w ?target = Suc (sn_off ?w s - ?m)"
    using to_off far(2) by (simp add: sn_off_inc_room)
  obtain c1 where c1: "c' = force_release_loop ?to ?target c1" "cx_t c1 = cx_t c" "cx_rel c1 = cx_rel c"
    unfolding c'_def by (rule force_release_cases)
  have g: "reorder_inv (cx_t c') \<and> ordered ?w c'"
    unfolding c1(1) using inv ord target_off far(2) c1 t
    by (intro force_loop_inv) (simp_all add: ordered_def)
  moreover have "no_taint (cx_t c')"
    unfolding c1(1) using no_taint_force_loop [of c1] nt c1 t by simp
  ultimately show "good ?w c'" by (simp add: good_def)
  show sz: "win_size (cx_t c') = win_size t" unfolding c1(1) using c1 t by simp
  have stop: "win_start (cx_t c') = ?target \<or> win_start (cx_t c') = ?to \<and> stored_num (cx_t c') = 0"
    unfolding c1(1) using target_off far m c1 t by (intro force_loop_start) simp_all
  then show "has_room 1 ?w c'"
    using target_off to_off sz far m by (auto simp: has_room_def)
  have "sn_off ?target s = ?m - 1" using bk m by (simp add: sn_off_inc_left)
  with stop bk show "sn_off (win_start (cx_t c')) s = ?m - 1 \<or>
      sn_off (win_start (cx_t c')) s = ?m \<and> stored_num (cx_t c') = 0" by auto
qed


lemma release_loop_stop:
  "stored_num (cx_t c) = 0 \<Longrightarrow> cx_t (release_loop env w n rel c) = cx_t c \<and>
     cx_rel (release_loop env w n rel c) = cx_rel c"
  by (cases n) (simp_all add: Let_def)

text \<open>
  In the second case the frame sits in the slot of the window start, from which the release
  that follows takes it at once: the window moves on by one and the buffer is empty again.
\<close>

lemma oob_empty_insert:
  assumes inv: "reorder_inv (cx_t c)" and st: "stored_num (cx_t c) = 0" and cl: "clean_frame b"
    and am: "\<not> is_amsdu (skb_desc b)"
    and off: "sn_off (win_start (cx_t c)) (skb_sn b) = unat (win_size (cx_t c))"
  shows "cx_t (ampdu_insert env b True c) = advance (cx_t c)"
    and "cx_rel (ampdu_insert env b True c) = cx_rel c @ [b]"
proof -
  let ?t = "cx_t c"
  let ?m = "unat (win_size ?t)" and ?w = "win_start ?t"
  let ?i = "slot_of ?t (skb_sn b)"
  let ?t1 = "?t\<lparr>reorder_buf := (reorder_buf ?t)[?i := [b]], stored_num := 1\<rparr>"
  let ?c1 = "c\<lparr>cx_t := ?t1\<rparr>"
  note I = reorder_invD [OF inv]
  have m: "1 < ?m" using I(2) by (simp add: win_geom_def)
  have i: "?i < length (reorder_buf ?t)" using I(1) by (rule slot_of_less)
  have "\<forall>xs \<in> set (reorder_buf ?t). xs = []"
    using I(3) st by (simp add: counted_def count_nonempty_0)
  then have empty: "reorder_buf ?t ! ?i = []" using i by simp
  have at: "?i = slot_of ?t ?w"
    using slot_of_off [OF I(2), of "skb_sn b" ?w] off by (simp add: slot_of_def)
  have ne: "skb_sn b \<noteq> ?w" using off m by auto
  obtain n where n: "?m = Suc n" using m by (cases ?m) auto
  have clean: "\<not> tainted [b]" "is_skw_release_ready [b]"
    using cl by (simp_all add: tainted_def has_flag_def is_skw_release_ready_def clean_frame_def)
  have ins: "ampdu_insert env b True c = release_loop env ?w (Suc n) True ?c1"
    using am empty ne st n
    by (simp add: ampdu_insert_def ampdu_place_def ampdu_reorder_out_def Let_def
        skw_reorder_release_def del: release_loop.simps)
  have sl: "unat ?w mod ?m = ?i" using at by (simp add: slot_of_def)
  have "advance ?t = ?t1\<lparr>reorder_buf := (reorder_buf ?t)[?i := []],
           win_start := ieee80211_sn_inc ?w, stored_num := 0\<rparr>"
    using empty at st by (simp add: advance_def)
  then have "cx_t (release_loop env ?w (Suc n) True ?c1) = advance ?t \<and>
        cx_rel (release_loop env ?w (Suc n) True ?c1) = cx_rel c @ [b]"
    using clean i n sl release_loop_stop [of _ env ?w n True] by (simp add: Let_def)
  then show "cx_t (ampdu_insert env b True c) = advance ?t"
    "cx_rel (ampdu_insert env b True c) = cx_rel c @ [b]" by (simp_all add: ins)
qed

text \<open>
  The frames for which the code keeps the invariant: clean ones, and A-MSDU subframes only when
  they do not lie beyond the window.
\<close>

definition frame_ok :: "skw_tid_rx \<Rightarrow> sk_buff \<Rightarrow> bool" where
  "frame_ok t b \<longleftrightarrow> clean_frame b \<and>
     (is_amsdu (skb_desc b) \<longrightarrow> ieee80211_sn_less (skb_sn b) (win_start t) \<or>
        ieee80211_sn_less (skb_sn b) (win_start t + win_size t))"

definition in_order :: "u16 \<Rightarrow> sk_buff list \<Rightarrow> bool" where
  "in_order w bs \<longleftrightarrow> sorted (map (\<lambda>x. sn_off w (skb_sn x)) bs)"

lemma good_in_order: "good w c \<Longrightarrow> in_order w (cx_rel c)"
  by (simp add: good_def ordered_def in_order_def)

lemma beyond_good:
  assumes inv: "reorder_inv t" and t: "t = cx_t c" and nt: "no_taint t" and rel: "cx_rel c = []"
    and cl: "clean_frame b" and am: "\<not> is_amsdu (skb_desc b)"
    and far: "unat (win_size t) \<le> sn_off (win_start t) (skb_sn b)"
      "sn_off (win_start t) (skb_sn b) \<le> 2048"
  defines "c' \<equiv> skw_reorder_force_release (ieee80211_sn_sub (skb_sn b) (win_size t)) c"
  shows "reorder_inv (cx_t (ampdu_insert env b True c')) \<and> no_taint (cx_t (ampdu_insert env b True c')) \<and>
    in_order (win_start t) (cx_rel (ampdu_insert env b True c'))"
proof -
  let ?w = "win_start t"
  have "ordered ?w c" using rel by (simp add: ordered_def)
  note O = oob_release [OF inv t this far skb_sn_less nt, folded c'_def]
  have m: "1 < unat (win_size t)" using reorder_invD(2) [OF inv] by (simp add: win_geom_def)
  have g: "reorder_inv (cx_t c')" "no_taint (cx_t c')" "ordered ?w c'"
    using O(1) by (simp_all add: good_def)
  from O(4) show ?thesis
  proof
    assume "sn_off (win_start (cx_t c')) (skb_sn b) = unat (win_size t) - 1"
    then have "good ?w (ampdu_insert env b True c')"
      using O(3) m by (intro good_insert_msdu [OF O(1,2) cl am]) simp
    then show ?thesis using good_in_order by (simp add: good_def)
  next
    assume *: "sn_off (win_start (cx_t c')) (skb_sn b) = unat (win_size t) \<and> stored_num (cx_t c') = 0"
    then have ins: "cx_t (ampdu_insert env b True c') = advance (cx_t c')"
        "cx_rel (ampdu_insert env b True c') = cx_rel c' @ [b]"
      using oob_empty_insert [OF g(1) _ cl am] O(3) by simp_all
    have "sn_off ?w (skb_sn b) = sn_off ?w (win_start (cx_t c')) + unat (win_size t)"
      using sn_off_sum [of ?w "win_start (cx_t c')" "skb_sn b"] * O(2,3) by (simp add: has_room_def)
    then have "in_order ?w (cx_rel c' @ [b])"
      using g(3) by (auto simp: in_order_def ordered_def sorted_append intro: less_imp_le trans_less_add1)
    moreover have "no_taint (advance (cx_t c'))"
      using no_taint_clear [OF g(2)] by (simp add: advance_def)
    ultimately show ?thesis using reorder_inv_advance [OF g(1)] by (simp add: ins)
  qed
qed

lemma window_good:
  fixes env :: rx_env
  assumes inv: "reorder_inv (cx_t c)" and nt: "no_taint (cx_t c)" and rel: "cx_rel c = []"
    and ok: "frame_ok (cx_t c) b"
  defines "c' \<equiv> ampdu_reorder_window env b c"
  shows "reorder_inv (cx_t c') \<and> no_taint (cx_t c') \<and> in_order (win_start (cx_t c)) (cx_rel c')"
proof -
  let ?t = "cx_t c"
  let ?w = "win_start ?t" and ?m = "unat (win_size ?t)" and ?s = "skb_sn b"
  note I = reorder_invD [OF inv]
  have m: "?m < 2048" using I(2) by (simp add: win_geom_def)
  have cl: "clean_frame b" using ok by (simp add: frame_ok_def)
  have ord: "ordered ?w c" using rel by (simp add: ordered_def)
  have g: "good ?w c" using inv nt ord by (simp add: good_def)
  have rm: "has_room 0 ?w c" "has_room 1 ?w c" using m by (simp_all add: has_room_def)
  consider (old) "ieee80211_sn_less ?s ?w"
    | (inside) "\<not> ieee80211_sn_less ?s ?w" "ieee80211_sn_less ?s (?w + win_size ?t)"
    | (beyond) "\<not> ieee80211_sn_less ?s ?w" "\<not> ieee80211_sn_less ?s (?w + win_size ?t)" by blast
  then show ?thesis
  proof cases
    case old
    then show ?thesis
      using g good_out [OF g rm(1)] rel
      by (auto simp: c'_def ampdu_reorder_window_def Let_def good_def ordered_def in_order_def)
  next
    case inside
    then have "good ?w (ampdu_insert env b False c)"
      using window_test(2) [OF I(2,5) inside(1)] good_insert [OF g rm(2) cl]
      by (cases "is_amsdu (skb_desc b)") simp_all
    with inside good_in_order show ?thesis
      by (simp add: c'_def ampdu_reorder_window_def Let_def good_def)
  next
    case beyond
    then have "\<not> is_amsdu (skb_desc b)" using ok by (simp add: frame_ok_def)
    then show ?thesis
      using beyond window_test [OF I(2,5) beyond(1)] beyond_good [OF inv refl nt rel cl]
      by (simp add: c'_def ampdu_reorder_window_def Let_def)
  qed
qed


section \<open>Sessions and runs\<close>

text \<open>The block-ack buffer sizes whose doubled window divides the sequence number space.\<close>

definition ba_size_ok :: "u16 \<Rightarrow> bool" where
  "ba_size_ok n \<longleftrightarrow> n \<le> 64 \<or> n = 128 \<or> n = 256 \<or> n = 512"

lemma rx_win_sz_ok:
  "ba_size_ok n \<Longrightarrow> \<exists>k \<in> {128, 256, 512, 1024}. rx_win_sz n = k"
  by (auto simp: ba_size_ok_def rx_win_sz_def)

lemma new_tid_rx_inv:
  fixes ref :: int
  assumes "ba_size_ok n" "unat ssn < 4096"
  shows "reorder_inv (new_tid_rx ssn n ref)" and "no_taint (new_tid_rx ssn n ref)"
proof -
  obtain k where k: "rx_win_sz n = k" "k = 128 \<or> k = 256 \<or> k = 512 \<or> k = 1024"
    using rx_win_sz_ok [OF assms(1)] by blast
  have "in_window (new_tid_rx ssn n ref)" by (rule in_window_empty) (simp add: new_tid_rx_def)
  then show "reorder_inv (new_tid_rx ssn n ref)" "no_taint (new_tid_rx ssn n ref)"
    using assms(2) k
    by (auto simp: new_tid_rx_def reorder_inv_def win_geom_def buf_ok_def counted_def
        count_nonempty_def no_taint_def)
qed

text \<open>
  A frame event on a session whose previous release list has been handed on: the release and
  free lists start empty.
\<close>

fun rx_next :: "rx_env \<times> sk_buff \<Rightarrow> reorder_ctx \<Rightarrow> reorder_ctx" where
  "rx_next (env, b) c = ampdu_reorder_window env b (c\<lparr>cx_rel := [], cx_freed := []\<rparr>)"

definition session_inv :: "reorder_ctx \<Rightarrow> bool" where
  "session_inv c \<longleftrightarrow> reorder_inv (cx_t c) \<and> no_taint (cx_t c)"

interpretation session: inv_machine rx_next session_inv "\<lambda>e c. frame_ok (cx_t c) (snd e)"
proof
  fix s :: reorder_ctx and e :: "rx_env \<times> sk_buff"
  assume "session_inv s" "frame_ok (cx_t s) (snd e)"
  then show "session_inv (rx_next e s)"
    using window_good [of "s\<lparr>cx_rel := [], cx_freed := []\<rparr>" "snd e" "fst e"]
    by (cases e) (simp add: session_inv_def)
qed

end
