(* ===== verification/Rx_Reorder_Props.thy ===== *)
theory Rx_Reorder_Props
  imports Rx_Reorder_Correct
begin

text \<open>
  The properties of the reorder buffer, with concrete sessions and frames on which they are
  evaluated.
\<close>

section \<open>Concrete frames\<close>

definition ex_desc :: "12 word \<Rightarrow> skw_rx_desc" where
  "ex_desc s = \<lparr>msdu_len = 0, csum_valid = False, snap_match = True, is_amsdu = False,
     is_qos_data = True, amsdu_first_idx = False, amsdu_last_idx = False, csum = 0,
     msdu_filter = 0, sn = s, frag_num = 0, inst_id = 0, more_frag = False, peer_idx = 0,
     is_mc_addr = False, tid = 0, pn = [], msdu_offset = 0, amsdu_idx = 0,
     need_forward = False, mac_drop_frag = False\<rparr>"

definition ex_cb :: skw_skb_rxcb where
  "ex_cb = \<lparr>rx_time = 0, rx_desc_offset = 0, amsdu_bitmap = 0, amsdu_mask = 0, amsdu_flags = 0,
     skw_created = False, lmac_id = 0, skip_replay_detect = False\<rparr>"

definition ex_frame :: "nat \<Rightarrow> 12 word \<Rightarrow> sk_buff" where
  "ex_frame n s = \<lparr>skb_id = n, skb_desc = ex_desc s, skb_cb = ex_cb, skb_data = []\<rparr>"

text \<open>An A-MSDU subframe with its index, first and last marks and data.\<close>

definition ex_amsdu :: "nat \<Rightarrow> 12 word \<Rightarrow> 6 word \<Rightarrow> bool \<Rightarrow> bool \<Rightarrow> u8 list \<Rightarrow> sk_buff" where
  "ex_amsdu n s i head lastf dat =
     \<lparr>skb_id = n, skb_desc = (ex_desc s)\<lparr>is_amsdu := True, amsdu_idx := i, amsdu_first_idx := head,
        amsdu_last_idx := lastf\<rparr>, skb_cb = ex_cb, skb_data = dat\<rparr>"

definition ex_env :: rx_env where
  "ex_env = \<lparr>jiffies = 0, reorder_timeout = 100\<rparr>"

definition ex_ctx :: "skw_tid_rx \<Rightarrow> reorder_ctx" where
  "ex_ctx t = \<lparr>cx_r = \<lparr>ref_cnt = 0, timer = None, expired_sn = 0, expired_ref_cnt = 0, todo_seq = 0,
       todo_reason = SKW_RELEASE_INVALID, todo_actived = False, tid_rx = None\<rparr>,
     cx_t = t, cx_rel = [], cx_freed = [], cx_kick = False\<rparr>"

text \<open>A session with a window of four positions, empty, at sequence number 0.\<close>

definition ex_tid :: skw_tid_rx where
  "ex_tid = \<lparr>win_start = 0, win_size = 4, stored_num = 0, tid_ref_cnt = 0,
             reorder_buf = [[], [], [], []]\<rparr>"

lemma ex_tid_inv: "reorder_inv ex_tid" "no_taint ex_tid" "buf_ok ex_tid"
proof -
  have "in_window ex_tid" by (rule in_window_empty) (simp add: ex_tid_def)
  then show "reorder_inv ex_tid" "no_taint ex_tid" "buf_ok ex_tid"
    by (simp_all add: ex_tid_def reorder_inv_def win_geom_def buf_ok_def counted_def no_taint_def)
qed

lemma ex_ctx_simps [simp]:
  "cx_t (ex_ctx t) = t" "cx_rel (ex_ctx t) = []" "cx_freed (ex_ctx t) = []"
  by (simp_all add: ex_ctx_def)

lemma ex_frame_simps [simp]:
  "sn (skb_desc (ex_frame n s)) = s" "is_amsdu (skb_desc (ex_frame n s)) = False"
  "skb_id (ex_frame n s) = n" "msdu_filter (skb_desc (ex_frame n s)) = 0"
  by (simp_all add: ex_frame_def ex_desc_def)

lemma ex_frame_clean: "clean_frame (ex_frame n s)"
  by (simp add: clean_frame_def ex_frame_def ex_cb_def ex_desc_def)

lemma ex_frame_ok: "frame_ok t (ex_frame n s)"
  using ex_frame_clean by (simp add: frame_ok_def ex_frame_def ex_desc_def)

section \<open>Properties\<close>

text \<open>
  C30. No buffer is lost, duplicated or invented: whatever sequence of frames arrives, on any
  well-formed session, the buffers released, freed and still stored are exactly those that were
  there before plus the frames that arrived (each counted once).
\<close>

theorem reorder_conserves:
  assumes "buf_ok (cx_t c)"
  shows "ctx_load (fold rx_frame es c) = ctx_load c + (\<Sum>e \<leftarrow> es. {#skb_id (snd e)#})"
  by (rule frames.run_load) (simp_all add: assms)

theorem reorder_conserves_witness:
  "ctx_load (fold rx_frame [(ex_env, ex_frame 7 1), (ex_env, ex_frame 8 0)] (ex_ctx ex_tid)) = {#7, 8#}"
  using reorder_conserves [of "ex_ctx ex_tid" "[(ex_env, ex_frame 7 1), (ex_env, ex_frame 8 0)]"]
    ex_tid_inv(3)
  by (simp add: ex_ctx_def ctx_load_def ex_frame_def) (simp add: ex_tid_def add_mset_commute)

text \<open>
  C2. The window invariant survives a run of well-behaved frames: take a freshly opened session whose
  block-ack size is at most 64, or 128, 256 or 512 (so that its window divides the sequence space), with a start in the
  sequence space, and any sequence of frames that are clean (no mark of an A-MSDU under way, and no first subframe that starts with
  the SNAP header) and, if they are subframes of an A-MSDU, do not lie beyond the window when they arrive. Then
  the array still has one slot per position, every stored frame lies inside the window in the slot of its sequence number,
  and \<open>stored_num\<close> counts the occupied slots. (The last section shows what the frames left out do to the window.)
\<close>

theorem reorder_run_invariant:
  assumes "ba_size_ok n" and "unat ssn < 4096"
    and "cx_t c = new_tid_rx ssn n ref"
    and "guarded_run (\<lambda>e c. frame_ok (cx_t c) (snd e)) rx_next es c"
  shows "reorder_inv (cx_t (fold rx_next es c))"
proof -
  have "session_inv c" using new_tid_rx_inv [OF assms(1,2)] assms(3) by (simp add: session_inv_def)
  then have "session_inv (fold rx_next es c)" using assms(4) by (rule session.run_invar)
  then show ?thesis by (simp add: session_inv_def)
qed

theorem reorder_run_invariant_witness:
  "reorder_inv (cx_t (fold rx_next [(ex_env, ex_frame 7 300), (ex_env, ex_frame 8 302)]
     (ex_ctx (new_tid_rx 300 64 0))))"
  by (rule reorder_run_invariant [of 64 300 _ 0]) (simp_all add: ba_size_ok_def ex_ctx_def ex_frame_ok)

text \<open>
  C3. Frames leave in sequence order. On a session opened with such a block-ack size and start, after any run of such
  frames (clean, and not beyond the window if they are subframes of an A-MSDU) and for one more of them: what this frame causes to be
  released is ordered by distance from the window start that it met.
\<close>

theorem reorder_in_order:
  assumes "ba_size_ok n" and "unat ssn < 4096" and "cx_t c = new_tid_rx ssn n ref"
    and "guarded_run (\<lambda>e c. frame_ok (cx_t c) (snd e)) rx_next es c"
    and "frame_ok (cx_t (fold rx_next es c)) b"
  shows "in_order (win_start (cx_t (fold rx_next es c))) (cx_rel (rx_next (env, b) (fold rx_next es c)))"
proof -
  let ?d = "fold rx_next es c"
  have "session_inv c" using new_tid_rx_inv [OF assms(1,2)] assms(3) by (simp add: session_inv_def)
  then have "session_inv ?d" using assms(4) by (rule session.run_invar)
  then show ?thesis using window_good [of "?d\<lparr>cx_rel := [], cx_freed := []\<rparr>" b env] assms(5) by (simp add: session_inv_def)
qed

theorem reorder_in_order_witness:
  "let d = fold rx_next [(ex_env, ex_frame 7 301), (ex_env, ex_frame 8 302)] (ex_ctx (new_tid_rx 300 64 0)) in
   in_order (win_start (cx_t d)) (cx_rel (rx_next (ex_env, ex_frame 9 300) d)) \<and> map skb_id (cx_rel (rx_next (ex_env, ex_frame 9 300) d)) = [9, 7, 8]"
proof -
  let ?es = "[(ex_env, ex_frame 7 301), (ex_env, ex_frame 8 302)]" and ?c = "ex_ctx (new_tid_rx 300 64 0)"
  have "in_order (win_start (cx_t (fold rx_next ?es ?c))) (cx_rel (rx_next (ex_env, ex_frame 9 300) (fold rx_next ?es ?c)))"
    by (rule reorder_in_order [of 64 300 _ 0]) (simp_all add: ba_size_ok_def ex_ctx_def ex_frame_ok)
  moreover have "map skb_id (cx_rel (rx_next (ex_env, ex_frame 9 300) (fold rx_next ?es ?c))) = [9, 7, 8]" by code_simp
  ultimately show ?thesis unfolding Let_def by blast
qed

lemma force_loop_closed:
  assumes "reorder_inv (cx_t c)" "slot_at (cx_t c) k \<noteq> []" "Suc k \<le> unat (win_size (cx_t c))"
    and "sn_off (win_start (cx_t c)) target = Suc k" "unat target < 4096"
  shows "cx_rel (force_release_loop to_sn target c) =
           cx_rel c @ concat (filter (\<lambda>l. \<not> tainted l) (map (slot_at (cx_t c)) [0..<Suc k])) \<and>
         win_start (cx_t (force_release_loop to_sn target c)) = target"
  using assms
proof (induction k arbitrary: c)
  case 0
  let ?c = "force_release_step c"
  have "sn_off (win_start (cx_t ?c)) target = 0" using 0 by (simp add: sn_off_inc_left)
  then have st: "win_start (cx_t ?c) = target" using 0 by (simp add: sn_off_0_iff)
  have "force_release_loop to_sn target c = ?c"
    using 0 slot_at_pos [OF "0.prems"(1,2)] st
    by (simp add: force_release_loop.simps [of to_sn target c]
        force_release_loop.simps [of to_sn target ?c] sn_less_iff)
  then show ?case using st 0 by (auto simp: force_release_step_def Let_def slot_at_0)
next
  case (Suc k)
  let ?c = "force_release_step c" and ?t = "cx_t c"
  have lt: "Suc (Suc k) < 2048"
    using Suc.prems(3) reorder_invD(2) [OF Suc.prems(1)] by (simp add: win_geom_def)
  have step: "force_release_loop to_sn target c = force_release_loop to_sn target ?c"
    using Suc.prems slot_at_pos [OF Suc.prems(1,2)] lt
    by (simp add: force_release_loop.simps [of to_sn target c] sn_less_iff)
  have sl: "slot_at (cx_t ?c) j = slot_at ?t (Suc j)" if "j \<le> k" for j
    using slot_at_advance [OF Suc.prems(1), of j] Suc.prems(3) that by (simp add: force_step_advance)
  have "cx_rel (force_release_loop to_sn target ?c) = cx_rel ?c @
      concat (filter (\<lambda>l. \<not> tainted l) (map (slot_at (cx_t ?c)) [0..<Suc k])) \<and>
      win_start (cx_t (force_release_loop to_sn target ?c)) = target"
    using Suc.prems sl [of k] reorder_inv_advance [OF Suc.prems(1)]
    by (intro Suc.IH) (simp_all add: force_step_advance [symmetric] sn_off_inc_left)
  moreover have "map (slot_at (cx_t ?c)) [0..<Suc k] = map (slot_at ?t) [1..<Suc (Suc k)]"
    using sl by (simp add: map_Suc_upt [symmetric] del: upt_Suc)
  moreover have "cx_rel ?c = cx_rel c @ (if tainted (slot_at ?t 0) then [] else slot_at ?t 0)"
    by (auto simp: force_release_step_def Let_def slot_at_0)
  moreover have "[0..<Suc (Suc k)] = 0 # [1..<Suc (Suc k)]" by (simp add: upt_conv_Cons)
  ultimately show ?case unfolding step by (simp del: upt_Suc)
qed

text \<open>
  The forced release has a closed form: on a session that satisfies the invariant, releasing up
  to a position of the window whose slot is occupied hands on exactly the untainted slots from
  the window start to that position, in order, frees the tainted ones, and leaves the window
  right after that position.
\<close>

theorem force_release_closed_form:
  assumes "reorder_inv (cx_t c)" and "k < unat (win_size (cx_t c))" and "slot_at (cx_t c) k \<noteq> []"
    and "sn_off (win_start (cx_t c)) s = k"
  shows "cx_rel (skw_reorder_force_release s c) =
           cx_rel c @ concat (filter (\<lambda>l. \<not> tainted l) (map (slot_at (cx_t c)) [0..<Suc k])) \<and>
         win_start (cx_t (skw_reorder_force_release s c)) = ieee80211_sn_inc s"
proof -
  obtain c1 where c1: "skw_reorder_force_release s c = force_release_loop s (ieee80211_sn_inc s) c1"
    "cx_t c1 = cx_t c" "cx_rel c1 = cx_rel c" by (rule force_release_cases)
  have "unat (win_size (cx_t c)) < 2048" using reorder_invD(2) [OF assms(1)] by (simp add: win_geom_def)
  then have "sn_off (win_start (cx_t c)) (ieee80211_sn_inc s) = Suc k"
    using assms(2,4) by (simp add: sn_off_inc_room)
  then have "cx_rel (force_release_loop s (ieee80211_sn_inc s) c1) =
      cx_rel c1 @ concat (filter (\<lambda>l. \<not> tainted l) (map (slot_at (cx_t c1)) [0..<Suc k])) \<and>
      win_start (cx_t (force_release_loop s (ieee80211_sn_inc s) c1)) = ieee80211_sn_inc s"
    using assms by (intro force_loop_closed) (simp_all add: c1)
  then show ?thesis by (simp add: c1)
qed

text \<open>A session with one frame waiting at sequence number 2.\<close>

definition ex_tid2 :: skw_tid_rx where
  "ex_tid2 = \<lparr>win_start = 0, win_size = 4, stored_num = 1, tid_ref_cnt = 0,
              reorder_buf = [[], [], [ex_frame 5 2], []]\<rparr>"

lemma ex_tid2_simps [simp]:
  "win_start ex_tid2 = 0" "win_size ex_tid2 = 4" "reorder_buf ex_tid2 = [[], [], [ex_frame 5 2], []]"
  by (simp_all add: ex_tid2_def)

lemma ex_tid2_inv: "reorder_inv ex_tid2"
proof -
  have "in_window (ex_tid\<lparr>reorder_buf := (reorder_buf ex_tid)[2 := [ex_frame 5 2]]\<rparr>)"
    by (rule in_window_put [OF reorder_invD(4) [OF ex_tid_inv(1)] ex_tid_inv(3), of "[ex_frame 5 2]" 2])
       (auto simp: slot_of_def ex_tid_def ex_frame_def ex_desc_def sn_off_def ieee80211_sn_sub_def)
  then have "in_window ex_tid2"
    by (simp add: in_window_def ex_tid_def ex_tid2_def slot_of_def)
  then show ?thesis
    by (simp add: ex_tid2_def reorder_inv_def win_geom_def buf_ok_def counted_def)
qed

theorem force_release_closed_form_witness:
  "cx_rel (skw_reorder_force_release 2 (ex_ctx ex_tid2)) = [ex_frame 5 2]"
proof -
  have "sn_off 0 2 = 2" by (simp add: sn_off_def ieee80211_sn_sub_def)
  moreover have "\<not> tainted [ex_frame 5 2]"
    by (simp add: tainted_def has_flag_def ex_frame_def ex_cb_def)
  moreover have "[0..<Suc 2] = [0, 1, 2]" by (simp add: upt_rec)
  ultimately show ?thesis
    using force_release_closed_form [of "ex_ctx ex_tid2" 2 2] ex_tid2_inv
    by (simp add: slot_at_def del: upt_Suc)
qed

section \<open>The release list only grows\<close>

definition extends :: "reorder_ctx \<Rightarrow> reorder_ctx \<Rightarrow> bool" where
  "extends c c' \<longleftrightarrow> (\<exists>ys. cx_rel c' = cx_rel c @ ys)"

lemma extends_refl [simp]: "extends c c"
  by (simp add: extends_def)

lemma extends_trans: "extends a b \<Longrightarrow> extends b c \<Longrightarrow> extends a c"
  by (auto simp: extends_def)

lemma extends_timer [simp]:
  "extends c (del_timer c)" "extends c (skw_set_reorder_timer env s c)"
  by (simp_all add: extends_def)

lemma extends_force_loop: "extends c (force_release_loop to_sn target c)"
proof (induction to_sn target c rule: force_release_loop.induct)
  case (1 to_sn target c)
  have "extends c (force_release_step c)"
    by (auto simp: extends_def force_release_step_def Let_def)
  with 1 show ?case
    by (subst force_release_loop.simps) (auto intro: extends_trans simp: extends_def)
qed

lemma extends_force: "extends c (skw_reorder_force_release s c)"
  using force_release_cases [of s c] extends_force_loop by (metis extends_def)

lemma extends_if: "extends c a \<Longrightarrow> extends c b \<Longrightarrow> extends c (if p then a else b)"
  by simp

lemma extends_release_loop: "extends c (release_loop env w n rel c)"
proof (induction n arbitrary: rel c)
  case (Suc n)
  have step: "extends c (release_loop env w n rel' c')" if "extends c c'" for rel' c'
    using that Suc.IH by (rule extends_trans)
  show ?case unfolding release_loop.simps Let_def
    by (intro extends_if step extends_timer extends_force extends_refl) (simp_all add: extends_def)
qed simp

lemma extends_release: "extends c (skw_reorder_release env c)"
  by (simp add: skw_reorder_release_def extends_release_loop)

lemma extends_out: "extends c (ampdu_reorder_out env b release dropped own c)"
proof -
  let ?c = "if dropped \<and> own then c\<lparr>cx_freed := cx_freed c @ [b]\<rparr> else c"
  have "extends c ?c" by (simp add: extends_def)
  then have "extends c (skw_reorder_release env ?c)" using extends_release by (rule extends_trans)
  then show ?thesis by (auto simp: ampdu_reorder_out_def Let_def extends_def)
qed

text \<open>
  No head-of-line delay: a complete frame (not part of an A-MSDU) that carries the sequence number the
  window starts at is released by the call that receives it, before anything else, and the
  window moves past it.
\<close>

theorem in_sequence_released_at_once:
  assumes "win_geom (cx_t c)" and "\<not> is_amsdu (skb_desc b)" and "skb_sn b = win_start (cx_t c)"
    and "reorder_buf (cx_t c) ! slot_of (cx_t c) (skb_sn b) = []"
  shows "\<exists>ys. cx_rel (ampdu_reorder_window env b c) = cx_rel c @ b # ys"
proof -
  let ?t = "cx_t c"
  let ?i = "slot_of ?t (skb_sn b)"
  have w: "unat (win_start ?t) < 4096" using skb_sn_less [of b] assms(3) by simp
  have old: "\<not> ieee80211_sn_less (skb_sn b) (win_start ?t)" using assms(3) by (simp add: sn_less_iff)
  have inside: "ieee80211_sn_less (skb_sn b) (win_start ?t + win_size ?t)"
    using window_test(2) [OF assms(1) w old] assms(1,3) by (simp add: win_geom_def)
  have i: "?i < length (reorder_buf ?t)" using assms(1) by (simp add: win_geom_def slot_of_less)
  have ext: "\<exists>ys. cx_rel (ampdu_reorder_out env b True False True c') = cx_rel c @ b # ys"
    if "cx_rel c' = cx_rel c @ [b]" for c'
    using extends_out [of c' env b True False True] that by (auto simp: extends_def)
  show ?thesis
    using old inside assms(2-4) i
    by (auto simp: ampdu_reorder_window_def ampdu_insert_def ampdu_place_def Let_def slot_of_def intro!: ext)
qed

theorem in_sequence_released_at_once_witness:
  "\<exists>ys. cx_rel (ampdu_reorder_window ex_env (ex_frame 9 0) (ex_ctx ex_tid2)) = ex_frame 9 0 # ys"
  using in_sequence_released_at_once [of "ex_ctx ex_tid2" "ex_frame 9 0" ex_env]
    reorder_invD(2) [OF ex_tid2_inv] by (simp add: slot_of_def)

text \<open>
  Duplicates and late frames are dropped: a complete frame inside the window whose slot is
  occupied, and a frame older than the window whose type is not on the exempt list, are freed
  and change neither the window nor the release list.
\<close>

theorem duplicate_or_late_dropped:
  assumes "win_geom (cx_t c)" and "unat (win_start (cx_t c)) < 4096"
    and "ieee80211_sn_less (skb_sn b) (win_start (cx_t c)) \<and>
           SKW_RX_FILTER_EXCL AND BIT (unat (msdu_filter (skb_desc b) AND 0x1F)) = 0 \<or>
         sn_off (win_start (cx_t c)) (skb_sn b) < unat (win_size (cx_t c)) \<and>
           \<not> is_amsdu (skb_desc b) \<and> reorder_buf (cx_t c) ! slot_of (cx_t c) (skb_sn b) \<noteq> []"
  shows "cx_freed (ampdu_reorder_window env b c) = cx_freed c @ [b] \<and>
         cx_rel (ampdu_reorder_window env b c) = cx_rel c \<and>
         cx_t (ampdu_reorder_window env b c) = cx_t c"
proof -
  let ?t = "cx_t c"
  have out: "cx_freed (ampdu_reorder_out env b False True True c) = cx_freed c @ [b] \<and>
      cx_rel (ampdu_reorder_out env b False True True c) = cx_rel c \<and>
      cx_t (ampdu_reorder_out env b False True True c) = cx_t c"
    by (simp add: ampdu_reorder_out_def Let_def)
  show ?thesis
  proof (cases "ieee80211_sn_less (skb_sn b) (win_start ?t)")
    case True
    have m: "unat (win_size ?t) < 2048" using assms(1) by (simp add: win_geom_def)
    have "\<not> sn_off (win_start ?t) (skb_sn b) < unat (win_size ?t)"
      using True m sn_off_sym [of "skb_sn b" "win_start ?t"] by (auto simp: sn_less_iff split: if_splits)
    with True assms(3) out show ?thesis by (auto simp: ampdu_reorder_window_def Let_def)
  next
    case False
    with assms(3) have "ieee80211_sn_less (skb_sn b) (win_start ?t + win_size ?t)"
      using window_test(2) [OF assms(1,2) False] by simp
    with False assms(3) out show ?thesis
      by (auto simp: ampdu_reorder_window_def ampdu_insert_def Let_def)
  qed
qed

theorem duplicate_or_late_dropped_witness:
  "cx_freed (ampdu_reorder_window ex_env (ex_frame 9 2) (ex_ctx ex_tid2)) = [ex_frame 9 2]"
  using duplicate_or_late_dropped [of "ex_ctx ex_tid2" "ex_frame 9 2" ex_env]
    reorder_invD(2) [OF ex_tid2_inv]
  by (simp add: slot_of_def sn_off_def ieee80211_sn_sub_def)

section \<open>Where the buffer does not do what it is meant to\<close>

text \<open>
  A frame beyond the window that meets an empty buffer leaves the window one position short of it:
  the frame is delivered, yet its sequence number is still inside the new window, so a copy of it
  is accepted again and waits to be delivered a second time.
\<close>

theorem oob_frame_accepted_twice:
  "let c = fold (ampdu_reorder_window ex_env) [ex_frame 1 200, ex_frame 2 200] (ex_ctx ex_tid)
   in map skb_id (cx_rel c) = [1] \<and> cx_freed c = [] \<and> win_start (cx_t c) = 197 \<and>
      map skb_id (concat (reorder_buf (cx_t c))) = [2]"
  by code_simp

text \<open>
  Purging a tainted slot in the release loop does not decrement \<open>stored_num\<close>: the counter
  stays at one although the buffer is empty.
\<close>

theorem tainted_purge_leaks_count:
  "let t = cx_t (fold (ampdu_reorder_window ex_env)
             [ex_amsdu 1 1 1 True False snap_hdr, ex_frame 2 0] (ex_ctx ex_tid))
   in stored_num t = 1 \<and> concat (reorder_buf t) = []"
  by code_simp

text \<open>
  A tainted A-MSDU that completes anywhere in the window moves the window start: the A-MSDU in
  progress at the old start is passed over and its last subframe dropped as late.
\<close>

theorem tainted_amsdu_moves_window:
  "let c = fold (ampdu_reorder_window ex_env)
             [ex_amsdu 1 0 1 True False [], ex_amsdu 2 1 1 True True snap_hdr,
              ex_amsdu 3 0 2 False True []] (ex_ctx ex_tid)
   in win_start (cx_t c) = 1 \<and> map skb_id (cx_rel c) = [] \<and> map skb_id (cx_freed c) = [2, 3]"
  by code_simp

lemmas release_loop_numeral =
  release_loop.simps(2) [where n = "pred_numeral k" for k, folded numeral_eq_Suc]

text \<open>
  The release loop arms the timer with a sequence number that is not reduced modulo 4096.
\<close>

theorem timer_armed_with_unmasked_sn:
  "let t = ex_tid\<lparr>win_start := 4095, stored_num := 1, reorder_buf := [[], [ex_frame 1 1], [], []]\<rparr>;
       c = skw_reorder_release ex_env (ex_ctx t)
   in timer (cx_r c) = Some 100 \<and> expired_sn (cx_r c) = 4097"
  by (simp add: Let_def skw_reorder_release_def ex_tid_def ex_ctx_def ex_env_def release_loop_numeral
      is_skw_msdu_timeout_def skw_set_reorder_timer_def ex_frame_def ex_cb_def slot_of_def
      time_after_def time_before_def)

end
