(* ===== verification/Rx_Reorder_Live.thy ===== *)
theory Rx_Reorder_Live
  imports Rx_Reorder_Correct
begin

text \<open>
  Nothing stays behind in the reorder buffer: a forced release up to the end of the window
  empties it, and after a release pass every frame still stored is watched by an armed timer or
  a pending forced release.
\<close>

section \<open>Releases only take away\<close>

definition shrinks :: "skw_tid_rx \<Rightarrow> skw_tid_rx \<Rightarrow> bool" where
  "shrinks t t' \<longleftrightarrow> length (reorder_buf t') = length (reorder_buf t) \<and>
     (\<forall>j < length (reorder_buf t). reorder_buf t' ! j = [] \<or> reorder_buf t' ! j = reorder_buf t ! j)"

lemma shrinks_refl: "reorder_buf t' = reorder_buf t \<Longrightarrow> shrinks t t'"
  by (simp add: shrinks_def)

lemma shrinks_trans: "shrinks a b \<Longrightarrow> shrinks b c \<Longrightarrow> shrinks a c"
  unfolding shrinks_def by metis

lemma shrinks_clear: "reorder_buf t' = (reorder_buf t)[i := []] \<Longrightarrow> shrinks t t'"
  by (auto simp: shrinks_def nth_update_if)

lemma force_loop_shrinks: "shrinks (cx_t c) (cx_t (force_release_loop to_sn target c))"
proof (induction to_sn target c rule: force_release_loop.induct)
  case (1 to_sn target c)
  have "shrinks (cx_t c) (cx_t (force_release_step c))"
    by (auto simp: force_step_advance advance_def intro: shrinks_clear)
  with 1 show ?case
    by (subst force_release_loop.simps) (auto intro: shrinks_trans shrinks_refl)
qed

lemma force_release_shrinks: "shrinks (cx_t c) (cx_t (skw_reorder_force_release s c))"
  using force_release_cases [of s c] force_loop_shrinks by metis

section \<open>Flushing the window\<close>

lemma sn_off_add: "sn_off a (ieee80211_sn_add a b) = unat b mod 4096"
proof -
  have "int (sn_off a (ieee80211_sn_add a b)) = ((uint a + uint b) mod 4096 - uint a) mod 4096"
    by (simp add: int_sn_off uint_sn_add)
  also have "\<dots> = uint b mod 4096" unfolding mod_diff_left_eq by simp
  also have "\<dots> = int (unat b mod 4096)" by (simp add: zmod_int)
  finally show ?thesis by simp
qed

lemma window_end_off:
  assumes "win_geom t"
  shows "sn_off (win_start t) (ieee80211_sn_inc (ieee80211_sn_add (win_start t) (win_size t - 1))) = unat (win_size t)"
proof -
  obtain n where n: "unat (win_size t) = Suc n" "Suc n < 2048"
    using assms by (cases "unat (win_size t)") (auto simp: win_geom_def)
  have "unat (win_size t - 1) = n" by (rule unat_dec [OF n(1)])
  then have "sn_off (win_start t) (ieee80211_sn_add (win_start t) (win_size t - 1)) = n"
    using n(2) by (simp add: sn_off_add)
  then show ?thesis using n by (simp add: sn_off_inc_room)
qed

lemma flush_empties:
  assumes "reorder_inv (cx_t c)" and "cx_rel c = []"
    and s: "s = ieee80211_sn_add (win_start (cx_t c)) (win_size (cx_t c) - 1)"
  shows "\<forall>xs \<in> set (reorder_buf (cx_t (skw_reorder_force_release s c))). xs = []"
proof -
  let ?t = "cx_t c" and ?target = "ieee80211_sn_inc s"
  note inv = reorder_invD [OF assms(1)]
  have m: "unat (win_size ?t) < 2048" "0 < unat (win_size ?t)" using inv(2) by (auto simp: win_geom_def)
  obtain c1 where c1: "skw_reorder_force_release s c = force_release_loop s ?target c1"
    "cx_t c1 = ?t" "cx_rel c1 = cx_rel c" by (rule force_release_cases)
  let ?c' = "force_release_loop s ?target c1"
  have off: "sn_off (win_start ?t) ?target = unat (win_size ?t)" using window_end_off [OF inv(2)] s by simp
  have inv': "reorder_inv (cx_t ?c')"
    using force_loop_inv [of c1 s "win_start ?t"] assms off m by (simp add: c1 ordered_def s)
  have st: "win_start (cx_t ?c') = ?target \<or> stored_num (cx_t ?c') = 0"
    using force_loop_start [of c1 ?target s] off m by (auto simp: c1)
  have sh: "shrinks ?t (cx_t ?c')" using force_loop_shrinks [of c1] by (simp add: c1)
  have "reorder_buf (cx_t ?c') ! j = []" if j: "j < length (reorder_buf ?t)" for j
  proof (rule ccontr)
    assume ne: "reorder_buf (cx_t ?c') ! j \<noteq> []"
    then obtain x where x: "x \<in> set (reorder_buf (cx_t ?c') ! j)" "x \<in> set (reorder_buf ?t ! j)"
      using sh j by (force simp: shrinks_def)
    have "0 < count_nonempty (reorder_buf (cx_t ?c'))"
      using ne j sh by (intro count_nonempty_pos [of j]) (simp_all add: shrinks_def)
    then have "stored_num (cx_t ?c') \<noteq> 0" using reorder_invD(3) [OF inv'] by (auto simp: counted_def)
    with st have w': "win_start (cx_t ?c') = ?target" by simp
    have "sn_off (win_start ?t) (skb_sn x) < unat (win_size ?t)" "sn_off ?target (skb_sn x) < unat (win_size ?t)"
      using inv(4) reorder_invD(4) [OF inv'] x j sh w' by (auto simp: in_window_def shrinks_def c1)
    with off m show False using sn_off_trans [of "win_start ?t" "skb_sn x" ?target] by simp
  qed
  then show ?thesis using sh by (auto simp: c1(1) shrinks_def in_set_conv_nth)
qed

section \<open>Stored frames are watched\<close>

definition watched :: "reorder_ctx \<Rightarrow> bool" where
  "watched c \<longleftrightarrow> stored_num (cx_t c) = 0 \<or> timer (cx_r c) \<noteq> None \<or> todo_actived (cx_r c)"

text \<open>The session is the one the reorder record counts as current.\<close>

definition current :: "reorder_ctx \<Rightarrow> bool" where
  "current c \<longleftrightarrow> ref_cnt (cx_r c) = tid_ref_cnt (cx_t c)"

lemma set_timer_watched:
  assumes "current c" "reorder_buf (cx_t c) ! slot_of (cx_t c) s \<noteq> []"
  shows "watched (skw_set_reorder_timer env s c)"
  using assms
  by (auto simp: skw_set_reorder_timer_def Let_def watched_def current_def split: list.splits)

lemma del_timer_current [simp]: "current (del_timer c) = current c"
  by (simp add: current_def del_timer_def)

lemma advance_ref [simp]: "tid_ref_cnt (advance t) = tid_ref_cnt t"
  by (simp add: advance_def)

lemma force_loop_current: "current (force_release_loop to_sn target c) = current c"
proof (induction to_sn target c rule: force_release_loop.induct)
  case (1 to_sn target c)
  have "current (force_release_step c) = current c" by (simp add: current_def force_step_advance)
  with 1 show ?case by (subst force_release_loop.simps) (simp add: current_def)
qed

lemma force_release_current: "current (skw_reorder_force_release s c) = current c"
  by (simp add: skw_reorder_force_release_def Let_def force_loop_current)

text \<open>The slots the loop has passed, counted from the window start it began with, are empty.\<close>

definition passed :: "u16 \<Rightarrow> nat \<Rightarrow> skw_tid_rx \<Rightarrow> bool" where
  "passed w i t \<longleftrightarrow> (\<forall>j < i. reorder_buf t ! ((unat w + j) mod unat (win_size t)) = [])"

lemma passed_all:
  assumes "reorder_inv t" "passed w (unat (win_size t)) t"
  shows "stored_num t = 0"
proof -
  let ?m = "unat (win_size t)"
  have m: "0 < ?m" "length (reorder_buf t) = ?m" using reorder_invD(1) [OF assms(1)] by (simp_all add: buf_ok_def)
  have "reorder_buf t ! k = []" if k: "k < ?m" for k
  proof -
    let ?j = "(k + (?m - unat w mod ?m)) mod ?m"
    have "(unat w + ?j) mod ?m = (unat w mod ?m + (k + (?m - unat w mod ?m))) mod ?m"
      by (simp add: mod_simps)
    also have "unat w mod ?m + (k + (?m - unat w mod ?m)) = k + ?m"
      using mod_less_divisor [OF m(1), of "unat w"] by linarith
    finally have "(unat w + ?j) mod ?m = k" using k by simp
    then show ?thesis using assms(2) m(1) by (metis mod_less_divisor passed_def)
  qed
  then have "count_nonempty (reorder_buf t) = 0" using m by (auto simp: count_nonempty_0 in_set_conv_nth)
  then show ?thesis using reorder_invD(3) [OF assms(1)] by (simp add: counted_def unsigned_eq_0_iff)
qed

lemma passed_Suc:
  "passed w i t \<Longrightarrow> reorder_buf t ! ((unat w + i) mod unat (win_size t)) = [] \<Longrightarrow> passed w (Suc i) t"
  by (auto simp: passed_def less_Suc_eq)

lemma passed_shrinks:
  assumes "passed w i t" "shrinks t t'" "buf_ok t" "win_size t' = win_size t"
  shows "passed w i t'"
  using assms index_less [OF assms(3)] unfolding passed_def shrinks_def by metis

lemma force_release_size [simp]: "win_size (cx_t (skw_reorder_force_release s c)) = win_size (cx_t c)"
  by (simp add: skw_reorder_force_release_def Let_def)

lemma passed_gap:
  assumes ok: "loop_ok w0 w (Suc n) rel c" and i: "i = unat (win_size (cx_t c)) - Suc n"
    and lst: "reorder_buf (cx_t c) ! ((unat w + i) mod unat (win_size (cx_t c))) \<noteq> []"
    and pa: "passed w i (cx_t c)"
  shows "passed w (Suc i) (cx_t (skw_reorder_force_release (w + of_nat i) c))"
proof -
  let ?t = "cx_t c" and ?c' = "skw_reorder_force_release (w + of_nat i) c"
  let ?m = "unat (win_size ?t)" and ?j = "(unat w + i) mod unat (win_size (cx_t c))"
  let ?o = "sn_off w (win_start ?t)"
  note f = loop_ok_facts [OF ok i]
  have inv: "reorder_inv ?t" using ok by (simp add: loop_ok_def)
  have ok': "loop_ok w0 w n True ?c'" using ok i lst by (rule loop_ok_gap)
  then have inv': "reorder_inv (cx_t ?c')" and st: "sn_off w (win_start (cx_t ?c')) = Suc i"
    using f(1) by (simp_all add: loop_ok_def)
  have sh: "shrinks ?t (cx_t ?c')" by (rule force_release_shrinks)
  have jl: "?j < length (reorder_buf ?t)" by (rule index_less [OF reorder_invD(1) [OF inv]])
  have "reorder_buf (cx_t ?c') ! ?j = []"
  proof (rule ccontr)
    assume "reorder_buf (cx_t ?c') ! ?j \<noteq> []"
    then obtain x where x: "x \<in> set (reorder_buf (cx_t ?c') ! ?j)" "x \<in> set (reorder_buf ?t ! ?j)"
      using sh jl by (force simp: shrinks_def)
    have lt: "i - ?o < ?m" using f(1) by linarith
    have a: "sn_off (win_start ?t) (skb_sn x) = i - ?o"
      using slot_members [OF inv lt, of x] x(2) loop_ok_index [OF ok i] by simp
    have b: "sn_off (win_start ?t) (win_start (cx_t ?c')) = Suc (i - ?o)"
      using sn_off_diff [of w "win_start ?t" "win_start (cx_t ?c')"] st f(4) by simp
    have "sn_off (skb_sn x) (win_start (cx_t ?c')) = 1"
      using sn_off_diff [of "win_start ?t" "skb_sn x" "win_start (cx_t ?c')"] a b by simp
    then have "sn_off (win_start (cx_t ?c')) (skb_sn x) = 4095" using sn_off_sym [of "win_start (cx_t ?c')" "skb_sn x"] by simp
    moreover have "sn_off (win_start (cx_t ?c')) (skb_sn x) < ?m"
      using reorder_invD(4) [OF inv'] x(1) jl sh by (auto simp: in_window_def shrinks_def)
    moreover have "?m < 2048" using reorder_invD(2) [OF inv] by (simp add: win_geom_def)
    ultimately show False by simp
  qed
  moreover have "passed w i (cx_t ?c')" using passed_shrinks [OF pa sh reorder_invD(1) [OF inv]] by simp
  ultimately show ?thesis by (simp add: passed_Suc)
qed

lemma release_loop_watched:
  assumes "loop_ok w0 w n rel c" "current c" "passed w (unat (win_size (cx_t c)) - n) (cx_t c)"
  shows "watched (release_loop env w n rel c)"
  using assms
proof (induction n arbitrary: rel c)
  case 0
  then show ?case using passed_all [of "cx_t c" w] by (simp add: loop_ok_def watched_def)
next
  case (Suc n)
  let ?t = "cx_t c"
  let ?m = "unat (win_size ?t)"
  define i where "i = ?m - Suc n"
  let ?j = "(unat w + i) mod ?m"
  let ?lst = "reorder_buf ?t ! ?j"
  note ok = Suc.prems(1) and f = loop_ok_facts [OF Suc.prems(1) i_def]
  have pa: "passed w i ?t" using Suc.prems(3) by (simp add: i_def)
  have w: "unat w < 4096" using ok by (simp add: loop_ok_def)
  have slot: "slot_of ?t (w + of_nat i) = ?j"
    using w f(2) by (simp add: slot_of_def unat_word_ariths unsigned_of_nat take_bit_nat_eq_self)
  consider (zero) "stored_num ?t = 0" | (empty) "stored_num ?t \<noteq> 0" "?lst = []"
    | (gap) "stored_num ?t \<noteq> 0" "?lst \<noteq> []" "\<not> rel"
    | (head) "stored_num ?t \<noteq> 0" "?lst \<noteq> []" "rel" by blast
  then show ?case
  proof cases
    case zero
    then show ?thesis by (simp add: Let_def watched_def)
  next
    case empty
    have "watched (release_loop env w n False c)"
      using Suc.prems(2) passed_Suc [OF pa empty(2)] f(1) by (intro Suc.IH loop_ok_empty [OF ok]) simp_all
    with empty show ?thesis by (simp add: Let_def i_def [symmetric] watched_def)
  next
    case gap
    have "watched (release_loop env w n True (skw_reorder_force_release (w + of_nat i) c))"
      using Suc.prems(2) f(1) passed_gap [OF ok i_def gap(2) pa]
      by (intro Suc.IH loop_ok_gap [OF ok i_def gap(2)]) (simp_all add: force_release_current)
    with gap show ?thesis
      using set_timer_watched [OF Suc.prems(2), of "w + of_nat i"] slot by (simp add: Let_def i_def [symmetric])
  next
    case head
    let ?c1 = "if timer (cx_r c) \<noteq> None \<and> expired_sn (cx_r c) = win_start ?t then del_timer c else c"
    let ?t' = "?t\<lparr>reorder_buf := (reorder_buf ?t)[?j := []],
      win_start := ieee80211_sn_inc (win_start ?t), stored_num := stored_num ?t - 1\<rparr>"
    let ?c2 = "?c1\<lparr>cx_t := ?t', cx_rel := cx_rel ?c1 @ ?lst\<rparr>"
    have ok1: "loop_ok w0 w (Suc n) True c" using ok head by simp
    have jl: "?j < length (reorder_buf ?t)" using ok reorder_invD(1) index_less by (auto simp: loop_ok_def)
    have cur: "current ?c1" "current ?c2" using Suc.prems(2) by (simp_all add: current_def del_timer_def)
    have "passed w (Suc i) ?t'"
      using passed_shrinks [OF pa shrinks_clear [of ?t' ?t ?j]] jl ok reorder_invD(1)
      by (intro passed_Suc) (auto simp: loop_ok_def)
    then have "watched (release_loop env w n True ?c2)"
      using f(1) cur by (intro Suc.IH loop_ok_head [OF ok1 i_def refl head(2)]) simp_all
    moreover have "watched (skw_set_reorder_timer env (w + of_nat i) ?c1)"
      using head slot by (intro set_timer_watched cur) simp
    ultimately show ?thesis
      using head loop_ok_clean [OF ok, of "unat w + i"]
      by (simp add: Let_def i_def [symmetric] watched_def)
  qed
qed

section \<open>Properties\<close>

text \<open>
  C28. No frame waits unattended. Take a session that is the current one of its peer and class, that satisfies the window
  invariant, in which no slot is marked as tainted, and whose list of released frames has been handed on. After a release pass
  over it, at any time, either nothing is stored, or the reorder timer is armed, or a forced release is pending.
\<close>

theorem release_leaves_watched:
  assumes "reorder_inv (cx_t c)" and "no_taint (cx_t c)" and "cx_rel c = []" and "current c"
  shows "watched (skw_reorder_release env c)"
proof -
  have "unat (win_size (cx_t c)) < 4096" using reorder_invD(2) [OF assms(1)] by (simp add: win_geom_def)
  then have "loop_ok (win_start (cx_t c)) (win_start (cx_t c)) (unat (win_size (cx_t c))) True c"
    using assms(1-3) reorder_invD(5) [OF assms(1)] by (simp add: loop_ok_def ordered_def)
  then show ?thesis unfolding skw_reorder_release_def
    using assms(4) by (rule release_loop_watched) (simp add: passed_def)
qed

text \<open>A session with a window of four positions in which the frame with number 2 waits for 0 and 1.\<close>

definition lv_frame :: sk_buff where
  "lv_frame = \<lparr>skb_id = 5, skb_desc = \<lparr>msdu_len = 0, csum_valid = False, snap_match = True, is_amsdu = False, is_qos_data = True,
       amsdu_first_idx = False, amsdu_last_idx = False, csum = 0, msdu_filter = 0, sn = 2, frag_num = 0, inst_id = 0, more_frag = False, peer_idx = 0,
       is_mc_addr = False, tid = 0, pn = [], msdu_offset = 0, amsdu_idx = 0, need_forward = False, mac_drop_frag = False\<rparr>,
     skb_cb = \<lparr>rx_time = 0, rx_desc_offset = 0, amsdu_bitmap = 0, amsdu_mask = 0, amsdu_flags = 0, skw_created = False, lmac_id = 0,
       skip_replay_detect = False\<rparr>, skb_data = []\<rparr>"

definition lv_ctx :: reorder_ctx where
  "lv_ctx = \<lparr>cx_r = \<lparr>ref_cnt = 0, timer = None, expired_sn = 0, expired_ref_cnt = 0, todo_seq = 0,
       todo_reason = SKW_RELEASE_INVALID, todo_actived = False, tid_rx = None\<rparr>,
     cx_t = \<lparr>win_start = 0, win_size = 4, stored_num = 1, tid_ref_cnt = 0, reorder_buf = [[], [], [lv_frame], []]\<rparr>,
     cx_rel = [], cx_freed = [], cx_kick = False\<rparr>"

lemma lv_inv: "reorder_inv (cx_t lv_ctx)" "no_taint (cx_t lv_ctx)" "current lv_ctx" "cx_rel lv_ctx = []"
proof -
  have "in_window (cx_t lv_ctx)" unfolding in_window_def
  proof (intro allI impI ballI)
    fix i x
    assume i: "i < length (reorder_buf (cx_t lv_ctx))" and x: "x \<in> set (reorder_buf (cx_t lv_ctx) ! i)"
    then have "i \<in> {0, 1, 2, 3}" by (auto simp: lv_ctx_def)
    then have "i = 2 \<and> x = lv_frame" using x by (auto simp: lv_ctx_def)
    then show "slot_of (cx_t lv_ctx) (skb_sn x) = i \<and> sn_off (win_start (cx_t lv_ctx)) (skb_sn x) < unat (win_size (cx_t lv_ctx))"
      by (simp add: lv_ctx_def lv_frame_def slot_of_def sn_off_def ieee80211_sn_sub_def)
  qed
  then show "reorder_inv (cx_t lv_ctx)"
    by (simp add: reorder_inv_def win_geom_def buf_ok_def counted_def) (simp add: lv_ctx_def)
qed (simp_all add: lv_ctx_def no_taint_def tainted_def has_flag_def lv_frame_def current_def)

text \<open>The frame keeps waiting, and the timer is armed for it.\<close>

theorem release_leaves_watched_witness:
  "let c = skw_reorder_release \<lparr>jiffies = 5, reorder_timeout = 100\<rparr> lv_ctx in watched c \<and> stored_num (cx_t c) = 1 \<and> timer (cx_r c) = Some 100"
proof -
  have "watched (skw_reorder_release \<lparr>jiffies = 5, reorder_timeout = 100\<rparr> lv_ctx)" by (rule release_leaves_watched) (simp_all add: lv_inv)
  moreover have "stored_num (cx_t (skw_reorder_release \<lparr>jiffies = 5, reorder_timeout = 100\<rparr> lv_ctx)) = 1"
    "timer (cx_r (skw_reorder_release \<lparr>jiffies = 5, reorder_timeout = 100\<rparr> lv_ctx)) = Some 100" by code_simp+
  ultimately show ?thesis unfolding Let_def by blast
qed

text \<open>
  Closing a session flushes it: the forced release up to the end of the window leaves no frame
  in the buffer, so nothing is lost when the array is freed.
\<close>

theorem window_flush_complete:
  assumes "reorder_inv (cx_t c)" and "cx_rel c = []"
  shows "concat (reorder_buf (cx_t (skw_reorder_force_release
           (ieee80211_sn_add (win_start (cx_t c)) (win_size (cx_t c) - 1)) c))) = []"
  using flush_empties [OF assms refl] by (simp only: concat_eq_Nil_conv)

theorem window_flush_complete_witness:
  "concat (reorder_buf (cx_t (skw_reorder_force_release
     (ieee80211_sn_add (win_start (cx_t lv_ctx)) (win_size (cx_t lv_ctx) - 1)) lv_ctx))) = []"
  by (rule window_flush_complete) (simp_all add: lv_inv)

end
