(* ===== verification/Skw_Vring.thy ===== *)
theory Skw_Vring
  imports Skw_Prelude
begin

text \<open>
  The transmit ring of the SDIO bus, \<^verbatim>\<open>skw_tx.c\<close>: the worker that schedules frames copies each into a
  slot of a ring (\<open>skw_vring_set\<close>), and a second worker hands the slots to the bus
  (\<open>skw_sdio_write\<close>, \<open>skw_dy_worker\<close>). The page that holds the slots is a list of bytes, so that a copy
  that leaves its slot overwrites the next one. What the code reads behind a frame when it rounds
  the length up is the parameter \<open>beyond\<close>; \<open>align\<close> is the alignment of the hardware.
\<close>

section \<open>The ring\<close>

definition SKW_TX_VRING_SIZE :: nat where "SKW_TX_VRING_SIZE = 128"
definition SKW_TX_PACK_SIZE :: nat where "SKW_TX_PACK_SIZE = 1536"

record vring_desc =
  vd_addr :: nat
  vd_len :: nat
  vd_write :: bool

record skw_tx_vring =
  avail_idx :: u16
  used_idx :: u16
  avail_ring :: "nat list"
  used_ring :: "(nat \<times> nat) list"
  vr_desc :: "vring_desc list"
  vr_page :: "u8 list"

text \<open>The kernel's \<open>round_up\<close> for a power of two.\<close>

definition round_up :: "nat \<Rightarrow> nat \<Rightarrow> nat" where
  "round_up n a = (n + a - 1) div a * a"

definition skw_vring_pending_count :: "skw_tx_vring \<Rightarrow> nat" where
  "skw_vring_pending_count r = unat ((avail_idx r - used_idx r) AND 127)"

definition skw_vring_available_count :: "skw_tx_vring \<Rightarrow> nat" where
  "skw_vring_available_count r = SKW_TX_VRING_SIZE - unat ((avail_idx r - used_idx r) AND 127)"

definition tx_vring_is_full :: "skw_tx_vring \<Rightarrow> bool" where
  "tx_vring_is_full r \<longleftrightarrow> SKW_TX_VRING_SIZE - 1 \<le> unat ((avail_idx r - used_idx r) AND 127)"

definition vring_has_pending :: "skw_tx_vring \<Rightarrow> bool" where
  "vring_has_pending r \<longleftrightarrow> (avail_idx r - used_idx r) AND 127 \<noteq> 0"

definition mem_write :: "nat \<Rightarrow> u8 list \<Rightarrow> u8 list \<Rightarrow> u8 list" where
  "mem_write a bs m = take a m @ bs @ drop (a + length bs) m"

definition mem_read :: "nat \<Rightarrow> nat \<Rightarrow> u8 list \<Rightarrow> u8 list" where
  "mem_read a n m = take n (drop a m)"

text \<open>The bytes copied for a frame, and the ring after the copy. The length is a 16-bit number.\<close>

definition aligned_len :: "nat \<Rightarrow> u8 list \<Rightarrow> nat" where
  "aligned_len align dat = round_up (length dat) align mod 65536"

definition frame_bytes :: "nat \<Rightarrow> (nat \<Rightarrow> u8) \<Rightarrow> u8 list \<Rightarrow> u8 list" where
  "frame_bytes align beyond dat = map (\<lambda>i. if i < length dat then dat ! i else beyond i) [0..<aligned_len align dat]"

definition skw_vring_set :: "nat \<Rightarrow> (nat \<Rightarrow> u8) \<Rightarrow> u8 list \<Rightarrow> skw_tx_vring \<Rightarrow> int \<times> skw_tx_vring" where
  "skw_vring_set align beyond dat r =
     (if tx_vring_is_full r then (- EINVAL, r)
      else
        (let i = unat (avail_idx r AND 127); d = vr_desc r ! i; bs = frame_bytes align beyond dat in
         (0, r\<lparr>vr_page := mem_write (vd_addr d) bs (vr_page r),
               vr_desc := (vr_desc r)[i := d\<lparr>vd_len := length bs, vd_write := True\<rparr>],
               avail_ring := (avail_ring r)[i := i],
               avail_idx := avail_idx r + 1\<rparr>)))"

text \<open>Set-up, when every allocation succeeds; the page holds what was there before.\<close>

definition skw_tx_vring_init :: "u8 list \<Rightarrow> skw_tx_vring" where
  "skw_tx_vring_init page =
     \<lparr>avail_idx = 0, used_idx = 0, avail_ring = [0..<SKW_TX_VRING_SIZE], used_ring = replicate SKW_TX_VRING_SIZE (0, 0),
      vr_desc = map (\<lambda>i. \<lparr>vd_addr = i * SKW_TX_PACK_SIZE, vd_len = 0, vd_write = False\<rparr>) [0..<SKW_TX_VRING_SIZE],
      vr_page = page\<rparr>"

section \<open>Arithmetic of indices\<close>

lemma and_127: "unat (x AND 127 :: u16) = unat x mod 128"
proof -
  have "x AND 127 = take_bit 7 x" by (simp add: take_bit_eq_mask mask_eq_exp_minus_1)
  then show ?thesis by (simp add: unat_mod take_bit_eq_mod)
qed

lemma unat_add_u16: "unat (x + of_nat k :: u16) = (unat x + k) mod 65536"
  by (simp add: unat_word_ariths unat_of_nat mod_simps)

lemma slot_add: "unat ((x + of_nat k) AND 127 :: u16) = (unat x + k) mod 128"
  unfolding and_127 unat_add_u16 by (simp add: mod_mod_cancel)

text \<open>The number of slots in use, and the slot \<open>k\<close> places behind the oldest.\<close>

definition used_slots :: "skw_tx_vring \<Rightarrow> nat" where
  "used_slots r = unat (avail_idx r - used_idx r)"

lemma avail_used: "avail_idx r = used_idx r + of_nat (used_slots r)"
  by (simp add: used_slots_def)

section \<open>Handing slots to the bus\<close>

lemma and_127_eq: "(x AND 127 :: u16) = y AND 127 \<longleftrightarrow> unat x mod 128 = unat y mod 128"
  by (metis and_127 unsigned_word_eqI)

lemma diff_step:
  fixes avail used :: u16
  assumes "used AND 127 \<noteq> avail AND 127"
  shows "unat (avail - (used + 1)) mod 128 < unat (avail - used) mod 128"
proof -
  define n where "n = unat (avail - used)"
  have a: "avail = used + of_nat n" by (simp add: n_def)
  have ne: "n mod 128 \<noteq> 0"
  proof
    assume "n mod 128 = 0"
    then have "(unat used + n) mod 128 = unat used mod 128" by (metis add.right_neutral mod_add_right_eq)
    with assms slot_add [of used n] show False unfolding and_127_eq a by (simp add: unat_add_u16 mod_mod_cancel)
  qed
  then have "0 < n" by (cases n) auto
  have "n < 2 ^ LENGTH(16)" unfolding n_def by (rule unsigned_less)
  have "avail - (used + 1) = of_nat n - 1" by (simp add: a)
  also have "\<dots> = of_nat (n - 1)" using \<open>0 < n\<close> by (simp add: of_nat_diff)
  finally have "unat (avail - (used + 1)) = n - 1" using \<open>n < 2 ^ LENGTH(16)\<close> by (simp add: unat_of_nat)
  moreover have "(n - 1) mod 128 < n mod 128" using ne \<open>0 < n\<close> by (metis Suc_pred' lessI mod_Suc)
  ultimately show ?thesis by (simp add: n_def)
qed

text \<open>
  The loop over the pending slots: the position reached, the list of (address, length) pairs for the
  transfer, and the ring with the descriptors cleared.
\<close>

function write_loop ::
  "nat \<Rightarrow> u16 \<Rightarrow> u16 \<Rightarrow> (nat \<times> nat) list \<Rightarrow> skw_tx_vring \<Rightarrow> u16 \<times> (nat \<times> nat) list \<times> skw_tx_vring" where
  "write_loop limit avail used sgl r =
     (if used AND 127 = avail AND 127 then (used, sgl, r)
      else if length sgl = limit then (used, sgl, r)
      else
        (let u = unat used mod 128; i = avail_ring r ! u; d = vr_desc r ! i in
         write_loop limit avail (used + 1) (sgl @ [(vd_addr d, vd_len d)])
           (r\<lparr>used_ring := (used_ring r)[u := (i, vd_len d)],
              vr_desc := (vr_desc r)[i := d\<lparr>vd_write := False, vd_len := 0\<rparr>]\<rparr>)))"
  by pat_completeness auto

termination
  by (relation "measure (\<lambda>(limit, avail, used, sgl, r). unat (avail - used) mod 128)") (auto simp: diff_step)

declare write_loop.simps [simp del]

text \<open>One transfer, in the two parts between which the lock is free while the bus reads the slots.\<close>

definition sdio_write_begin :: "nat \<Rightarrow> skw_tx_vring \<Rightarrow> (u16 \<times> (nat \<times> nat) list \<times> skw_tx_vring) option" where
  "sdio_write_begin limit r =
     (if vring_has_pending r then Some (write_loop limit (avail_idx r) (used_idx r) [] r) else None)"

definition transfer_bytes :: "(nat \<times> nat) list \<Rightarrow> skw_tx_vring \<Rightarrow> u8 list list" where
  "transfer_bytes sgl r = map (\<lambda>(a, n). mem_read a n (vr_page r)) sgl"

definition sdio_write_end :: "u16 \<Rightarrow> skw_tx_vring \<Rightarrow> skw_tx_vring" where
  "sdio_write_end u r = r\<lparr>used_idx := u\<rparr>"

text \<open>
  The whole call: \<open>tx\<close> is the answer of the bus to a list of buffers and their total size, \<open>eof\<close> the block
  that ends a transfer. The result, the frames handed over and the ring.
\<close>

definition skw_sdio_write ::
  "(u8 list list \<Rightarrow> nat \<Rightarrow> int) \<Rightarrow> u8 list \<Rightarrow> nat \<Rightarrow> skw_tx_vring \<Rightarrow> int \<times> u8 list list \<times> skw_tx_vring" where
  "skw_sdio_write tx eof limit r =
     (case sdio_write_begin limit r of
        None \<Rightarrow> (- EINVAL, [], r)
      | Some (u, sgl, r1) \<Rightarrow>
          (let bs = transfer_bytes sgl r1 in
           (tx (bs @ [eof]) (sum_list (map snd sgl) + 512), bs, sdio_write_end u r1)))"

text \<open>
  The worker. Its state is the ring, the credits and the frames handed over so far; \<open>stop\<close> tells in
  which round the driver is seen to shut down, \<open>ign\<close> whether credits are ignored.
\<close>

record dy_state =
  dy_ring :: skw_tx_vring
  dy_credit :: int
  dy_sent :: "u8 list list"

definition skw_get_hw_credit :: "bool \<Rightarrow> int \<Rightarrow> int" where
  "skw_get_hw_credit ign c = (if ign then 2147483647 else c)"

definition dy_round ::
  "(u8 list list \<Rightarrow> nat \<Rightarrow> int) \<Rightarrow> u8 list \<Rightarrow> int \<Rightarrow> bool \<Rightarrow> dy_state \<Rightarrow> dy_state" where
  "dy_round tx eof pkt_limit ign s =
     (let limit = min (min (int (skw_vring_pending_count (dy_ring s))) (skw_get_hw_credit ign (dy_credit s))) pkt_limit;
          (ret, bs, r) = skw_sdio_write tx eof (nat (limit mod 65536)) (dy_ring s) in
      \<lparr>dy_ring = r, dy_credit = (if ret = 0 then dy_credit s - limit else dy_credit s), dy_sent = dy_sent s @ bs\<rparr>)"

partial_function (option) skw_dy_worker ::
  "(u8 list list \<Rightarrow> nat \<Rightarrow> int) \<Rightarrow> u8 list \<Rightarrow> int \<Rightarrow> bool \<Rightarrow> (nat \<Rightarrow> bool) \<Rightarrow> nat \<Rightarrow> dy_state \<Rightarrow> dy_state option" where
  "skw_dy_worker tx eof pkt_limit ign stop n s =
     (if stop n then Some s
      else if skw_get_hw_credit ign (dy_credit s) = 0 then Some s
      else if skw_vring_pending_count (dy_ring s) = 0 then Some s
      else skw_dy_worker tx eof pkt_limit ign stop (Suc n) (dy_round tx eof pkt_limit ign s))"

end
