(* ===== verification/Skw_Tx.thy ===== *)
theory Skw_Tx
  imports Skw_Vring
begin

text \<open>
  The transmit scheduler, \<^verbatim>\<open>skw_tx.c\<close>: outgoing frames wait in one queue per interface and access
  category; the worker moves them to caches, thins out pure TCP acknowledgements, and then, for each
  access category and each radio, picks frames of the interfaces in turn, within the credits granted
  by the firmware, the quotas of the interfaces and the room in the ring. On the SDIO bus the frames picked
  are copied into the transmit ring. Waiting frames and frames in each place are lists, the head first.
\<close>

section \<open>Frames and peers\<close>

text \<open>A frame with what the scheduler reads of it; \<open>tk_tcp_word\<close> is the fourth word of its TCP header.\<close>

record tx_skb =
  tk_bytes :: "u8 list"
  tk_peer_idx :: nat
  tk_unicast :: bool
  tk_stream :: "nat \<times> nat \<times> nat \<times> nat"
  tk_tcp_word :: u32

record tx_peer =
  tp_bytes :: nat
  tp_pkts :: nat
  tp_deauthed :: bool

section \<open>Pure acknowledgements\<close>

definition is_skw_same_tcp_stream :: "tx_skb \<Rightarrow> tx_skb \<Rightarrow> bool" where
  "is_skw_same_tcp_stream b1 b2 \<longleftrightarrow> tk_stream b1 = tk_stream b2"

text \<open>The kernel's \<open>tcp_optlen\<close> and \<open>tcp_flag_word\<close>: header length in the top four bits, flags, window.\<close>

definition tcp_optlen :: "tx_skb \<Rightarrow> int" where
  "tcp_optlen b = (int (unat (drop_bit 28 (tk_tcp_word b))) - 5) * 4"

definition TCP_FLAG_ACK :: u32 where "TCP_FLAG_ACK = 0x00100000"

definition mergeable :: "tx_skb \<Rightarrow> bool" where
  "mergeable b \<longleftrightarrow> tcp_optlen b = 0 \<and> tk_tcp_word b = TCP_FLAG_ACK"

text \<open>The inner loop: the queue of acknowledgements, the cache, and the frames freed.\<close>

function merge_inner ::
  "tx_skb \<Rightarrow> nat \<Rightarrow> tx_skb list \<times> tx_skb list \<times> tx_skb list \<Rightarrow> tx_skb list \<times> tx_skb list \<times> tx_skb list" where
  "merge_inner b i (ackq, txq, freed) =
     (if i < length ackq then
        (let x = hd ackq; rest = tl ackq in
         if is_skw_same_tcp_stream b x then
           (if mergeable x then merge_inner b (i + 1) (rest, txq, freed @ [x])
            else merge_inner b (i + 1) (rest, txq @ [x], freed))
         else merge_inner b (i + 1) (rest @ [x], txq, freed))
      else (ackq, txq, freed))"
  by pat_completeness auto
termination
  by (relation "measure (\<lambda>(b, i, ackq, txq, freed). length ackq - i)") (auto simp: Let_def)

declare merge_inner.simps [simp del]

lemma merge_inner_length: "merge_inner b i (ackq, txq, freed) = (a, t, f) \<Longrightarrow> length a \<le> length ackq"
proof (induction b i "(ackq, txq, freed)" arbitrary: ackq txq freed rule: merge_inner.induct)
  case (1 b i ackq txq freed)
  show ?case
  proof (cases "i < length ackq")
    case True
    then have "ackq \<noteq> []" by auto
    then have "length (tl ackq @ [hd ackq]) = length ackq" "length (tl ackq) \<le> length ackq" by auto
    then show ?thesis using 1 True
      by (subst (asm) (4) merge_inner.simps) (fastforce simp: Let_def split: if_splits)
  next
    case False
    then show ?thesis using "1.prems" by (simp add: merge_inner.simps)
  qed
qed

function merge_acks ::
  "tx_skb list \<times> tx_skb list \<times> tx_skb list \<Rightarrow> tx_skb list \<times> tx_skb list" where
  "merge_acks (ackq, txq, freed) =
     (if ackq = [] then (txq, freed)
      else case merge_inner (last ackq) 0 (butlast ackq, txq, freed) of
        (a, t, f) \<Rightarrow> merge_acks (a, t @ [last ackq], f))"
  by pat_completeness auto
termination
proof (relation "measure (\<lambda>(ackq, txq, freed). length ackq)", simp, clarsimp)
  fix ackq txq freed a t f
  assume "(a, t, f) = merge_inner (last ackq) 0 (butlast ackq, txq, freed)" "ackq \<noteq> []"
  moreover from this have "length a \<le> length (butlast ackq)" by (metis merge_inner_length)
  ultimately show "length a < length ackq" by (cases "length ackq") auto
qed

declare merge_acks.simps [simp del]

definition skw_merge_pure_ack :: "tx_skb list \<Rightarrow> tx_skb list \<Rightarrow> tx_skb list \<times> tx_skb list" where
  "skw_merge_pure_ack ackq txq = merge_acks (ackq, txq, [])"

section \<open>State\<close>

text \<open>An interface: five queues, four categories and the acknowledgements, and the cache of each.\<close>

record tx_iface =
  ti_lmac :: nat
  ti_txq :: "tx_skb list list"
  ti_cache :: "tx_skb list list"
  ti_deauth :: bool
  ti_stopped :: "bool list"
  ti_factor :: "int list"

text \<open>A slot of the scheduler, the interface whose cache it points to by number.\<close>

record skw_tx_info =
  sl_quota :: int
  sl_reset :: bool
  sl_iface :: nat

record skw_tx_lmac =
  tl_reset :: bool
  tl_cred :: int
  tl_map :: u16
  tl_nr :: nat
  tl_bk_limit :: int
  tl_current :: int
  tl_ac_reset :: u32
  tl_count_limit :: int
  tl_pending :: int
  tl_list :: "tx_skb list"
  tl_tx :: "skw_tx_info list"

text \<open>A radio: its credits and ring, the channel number in frame headers, and the frames that entered the ring or did not.\<close>

record tx_radio =
  tr_active :: bool
  tr_credit :: int
  tr_ring :: skw_tx_vring
  tr_lport :: u8
  tr_sent :: "tx_skb list"
  tr_lost :: "tx_skb list"

record tx_core =
  tc_ifaces :: "tx_iface option list"
  tc_peers :: "tx_peer option option list list"
  tc_txl :: "skw_tx_lmac list"
  tc_radios :: "tx_radio list"
  tc_freed :: "tx_skb list"

text \<open>What does not change while the worker runs.\<close>

record tx_hw =
  hw_align :: nat
  hw_pkt_limit :: int
  hw_sdio1 :: bool
  hw_ignore_cred :: bool
  hw_chn_offset :: nat
  hw_len_offset :: nat
  hw_eof_offset :: nat
  hw_hdr_len :: nat

definition SKW_WMM_AC_VO :: nat where "SKW_WMM_AC_VO = 0"
definition SKW_WMM_AC_VI :: nat where "SKW_WMM_AC_VI = 1"
definition SKW_WMM_AC_BE :: nat where "SKW_WMM_AC_BE = 2"
definition SKW_WMM_AC_BK :: nat where "SKW_WMM_AC_BK = 3"
definition SKW_WMM_AC_MAX :: nat where "SKW_WMM_AC_MAX = 4"
definition SKW_ACK_TXQ :: nat where "SKW_ACK_TXQ = 4"
definition SKW_BASE_VO :: int where "SKW_BASE_VO = 16"
definition SKW_BASE_VI :: int where "SKW_BASE_VI = 24"
definition SKW_TXQ_LOW_THRESHOLD :: nat where "SKW_TXQ_LOW_THRESHOLD = 512"

section \<open>Collecting the queues\<close>

text \<open>
  One interface of \<open>skw_txq_prepare\<close>: acknowledgements are merged into the best-effort cache, the queue
  of the category is appended, everything is freed when the interface is being deauthenticated.
\<close>

definition iface_collect :: "nat \<Rightarrow> tx_iface \<Rightarrow> tx_iface \<times> tx_skb list" where
  "iface_collect ac f =
     (let (f1, fr1) =
        (if ac = SKW_WMM_AC_BE \<and> ti_txq f ! SKW_ACK_TXQ \<noteq> [] then
           (case skw_merge_pure_ack (ti_txq f ! SKW_ACK_TXQ) (ti_cache f ! ac) of
              (c, fr) \<Rightarrow> (f\<lparr>ti_txq := (ti_txq f)[SKW_ACK_TXQ := []], ti_cache := (ti_cache f)[ac := c]\<rparr>, fr))
         else (f, []));
        f2 = f1\<lparr>ti_txq := (ti_txq f1)[ac := []], ti_cache := (ti_cache f1)[ac := ti_cache f1 ! ac @ ti_txq f1 ! ac]\<rparr>;
        (f3, fr2) = (if ti_deauth f2 then (f2\<lparr>ti_cache := (ti_cache f2)[ac := []]\<rparr>, ti_cache f2 ! ac) else (f2, [])) in
      (if length (ti_cache f3 ! ac) < SKW_TXQ_LOW_THRESHOLD \<and> ti_stopped f3 ! ac
       then f3\<lparr>ti_stopped := (ti_stopped f3)[ac := False]\<rparr> else f3,
       fr1 @ fr2))"

text \<open>The slot that a cache with frames gets on its radio.\<close>

definition slot_assign :: "nat \<Rightarrow> nat \<Rightarrow> tx_iface \<Rightarrow> skw_tx_lmac \<Rightarrow> skw_tx_lmac" where
  "slot_assign ac i f l =
     (let n = tl_nr l; fresh = bit (tl_ac_reset l) ac in
      l\<lparr>tl_current := tl_current l + int (length (ti_cache f ! ac)),
        tl_map := set_bit n (tl_map l),
        tl_tx := (tl_tx l)[n := \<lparr>sl_quota = (if fresh then ti_factor f ! ac else sl_quota (tl_tx l ! n)),
                                 sl_reset = True, sl_iface = i\<rparr>],
        tl_reset := True,
        tl_ac_reset := (if fresh then flip_bit ac (tl_ac_reset l) else tl_ac_reset l),
        tl_nr := n + 1\<rparr>)"

definition prepare_iface :: "nat \<Rightarrow> nat \<Rightarrow> tx_core \<times> nat \<Rightarrow> tx_core \<times> nat" where
  "prepare_iface ac i s =
     (case tc_ifaces (fst s) ! i of
        None \<Rightarrow> s
      | Some f \<Rightarrow>
        (let (f1, fr) = iface_collect ac f; qlen = length (ti_cache f1 ! ac); m = ti_lmac f1;
             c = (fst s)\<lparr>tc_ifaces := (tc_ifaces (fst s))[i := Some f1], tc_freed := tc_freed (fst s) @ fr\<rparr> in
         if qlen = 0 then (c, snd s)
         else (c\<lparr>tc_txl := (tc_txl c)[m := slot_assign ac i f1 (tc_txl c ! m)]\<rparr>, snd s + qlen)))"

definition skw_txq_prepare :: "nat \<Rightarrow> tx_core \<Rightarrow> tx_core \<times> nat" where
  "skw_txq_prepare ac c = fold (prepare_iface ac) [0..<4] (c, 0)"

section \<open>Picking frames\<close>

definition peer_count :: "tx_skb \<Rightarrow> tx_peer option option \<Rightarrow> tx_peer option option" where
  "peer_count b e = map_option (map_option (\<lambda>p. p\<lparr>tp_bytes := tp_bytes p + length (tk_bytes b), tp_pkts := tp_pkts p + 1\<rparr>)) e"

definition entry_ok :: "tx_skb \<Rightarrow> tx_peer option option \<Rightarrow> bool" where
  "entry_ok b e = (case e of None \<Rightarrow> True | Some None \<Rightarrow> \<not> tk_unicast b | Some (Some p) \<Rightarrow> \<not> tp_deauthed p)"

text \<open>Every radio's entry of the peer counts the frame; the frame is valid when no entry objects.\<close>

definition is_skw_peer_data_valid ::
  "tx_skb \<Rightarrow> tx_peer option option list list \<Rightarrow> bool \<times> tx_peer option option list list" where
  "is_skw_peer_data_valid b peers =
     (list_all (\<lambda>es. entry_ok b (es ! tk_peer_idx b)) peers,
      map (\<lambda>es. es[tk_peer_idx b := peer_count b (es ! tk_peer_idx b)]) peers)"

text \<open>The state of the loop over the slots of one radio: the caches are those of the category, by interface.\<close>

record slot_state =
  ss_lmac :: skw_tx_lmac
  ss_caches :: "tx_skb list list"
  ss_peers :: "tx_peer option option list list"
  ss_freed :: "tx_skb list"

definition skw_vring_check :: "bool \<Rightarrow> nat \<Rightarrow> tx_skb list \<Rightarrow> bool" where
  "skw_vring_check sdio avail l \<longleftrightarrow> sdio \<and> avail \<le> length l + 1"

definition slot_refill :: "int \<Rightarrow> skw_tx_info \<Rightarrow> skw_tx_info" where
  "slot_refill base x =
     (if sl_reset x then x\<lparr>sl_quota := max 0 (sl_quota x + base), sl_reset := False\<rparr> else x)"

text \<open>One round of the loop at a slot that is on: whether the loop goes on.\<close>

definition slot_step :: "bool \<Rightarrow> nat \<Rightarrow> int \<Rightarrow> nat \<Rightarrow> slot_state \<Rightarrow> bool \<times> slot_state" where
  "slot_step sdio avail base i s =
     (let l = ss_lmac s in
      if skw_vring_check sdio avail (tl_list l) then (False, s)
      else if tl_cred l = 0 then (False, s)
      else
        (let x = slot_refill base (tl_tx l ! i); l1 = l\<lparr>tl_tx := (tl_tx l)[i := x]\<rparr>; k = sl_iface x in
         case (if k < length (ss_caches s) then ss_caches s ! k else []) of
           [] \<Rightarrow> (True, s\<lparr>ss_lmac := l1\<lparr>tl_map := flip_bit i (tl_map l1)\<rparr>\<rparr>)
         | b # rest \<Rightarrow>
           (let (valid, peers) = is_skw_peer_data_valid b (ss_peers s); s1 = s\<lparr>ss_peers := peers\<rparr> in
            if \<not> valid then
              (True, s1\<lparr>ss_lmac := l1, ss_caches := (ss_caches s)[k := rest], ss_freed := ss_freed s @ [b]\<rparr>)
            else
              (let l2 = l1\<lparr>tl_count_limit := tl_count_limit l1 - 1\<rparr> in
               if tl_count_limit l1 = 0 then (False, s1\<lparr>ss_lmac := l2\<rparr>)
               else if sl_quota x \<noteq> 0 then
                 (True, s1\<lparr>ss_lmac := l2\<lparr>tl_tx := (tl_tx l2)[i := x\<lparr>sl_quota := sl_quota x - 1\<rparr>],
                                       tl_list := tl_list l2 @ [b], tl_cred := tl_cred l2 - 1\<rparr>,
                           ss_caches := (ss_caches s)[k := rest]\<rparr>)
               else (True, s1\<lparr>ss_lmac := l2\<lparr>tl_map := flip_bit i (tl_map l2)\<rparr>\<rparr>)))))"

text \<open>The next slot that is on, from \<open>i\<close> round; slots that are off are only passed over.\<close>

definition next_on :: "nat \<Rightarrow> skw_tx_lmac \<Rightarrow> nat option" where
  "next_on i l = map_option (\<lambda>k. (i + k) mod tl_nr l) (List.find (\<lambda>k. bit (tl_map l) ((i + k) mod tl_nr l)) [0..<tl_nr l])"

lemma next_on_Some: "next_on i l = Some j \<Longrightarrow> j < tl_nr l \<and> bit (tl_map l) j"
  by (auto simp: next_on_def find_Some_iff intro!: mod_less_divisor)

text \<open>What decreases in every round: the frames that wait and the slots that are on.\<close>

definition waiting :: "slot_state \<Rightarrow> nat" where
  "waiting s = sum_list (map length (ss_caches s))"

definition slots_on :: "skw_tx_lmac \<Rightarrow> nat set" where
  "slots_on l = {i. i < tl_nr l \<and> bit (tl_map l) i}"

lemma sum_list_pop:
  "k < length qs \<Longrightarrow> qs ! k = b # rest \<Longrightarrow> sum_list (map length (qs[k := rest])) < sum_list (map length qs)"
  by (induction qs arbitrary: k) (auto split: nat.splits)

lemma slots_on_flip: "i \<in> slots_on l \<Longrightarrow> slots_on (l\<lparr>tl_map := flip_bit i (tl_map l)\<rparr>) \<subset> slots_on l"
  by (auto simp: slots_on_def bit_flip_bit_iff)

lemma finite_slots_on [simp]: "finite (slots_on l)"
  by (simp add: slots_on_def)

text \<open>What a round can do: end the loop, switch the slot off, drop a frame, or pick one.\<close>

lemma slot_step_cases:
  assumes "slot_step sdio avail base i s = (go, s1)"
  obtains (stop) "\<not> go" "ss_caches s1 = ss_caches s" "ss_freed s1 = ss_freed s" "tl_list (ss_lmac s1) = tl_list (ss_lmac s)"
      "tl_cred (ss_lmac s1) = tl_cred (ss_lmac s)"
  | (off) "go" "ss_caches s1 = ss_caches s" "ss_freed s1 = ss_freed s" "tl_list (ss_lmac s1) = tl_list (ss_lmac s)"
      "tl_cred (ss_lmac s1) = tl_cred (ss_lmac s)"
      "tl_map (ss_lmac s1) = flip_bit i (tl_map (ss_lmac s))" "tl_nr (ss_lmac s1) = tl_nr (ss_lmac s)"
  | (free) k b rest where "go" "k < length (ss_caches s)" "ss_caches s ! k = b # rest" "ss_caches s1 = (ss_caches s)[k := rest]"
      "ss_freed s1 = ss_freed s @ [b]" "tl_list (ss_lmac s1) = tl_list (ss_lmac s)" "tl_cred (ss_lmac s1) = tl_cred (ss_lmac s)"
      "tl_map (ss_lmac s1) = tl_map (ss_lmac s)" "tl_nr (ss_lmac s1) = tl_nr (ss_lmac s)"
  | (pick) k b rest where "go" "k < length (ss_caches s)" "ss_caches s ! k = b # rest" "ss_caches s1 = (ss_caches s)[k := rest]"
      "ss_freed s1 = ss_freed s" "tl_list (ss_lmac s1) = tl_list (ss_lmac s) @ [b]" "tl_cred (ss_lmac s1) = tl_cred (ss_lmac s) - 1"
      "tl_map (ss_lmac s1) = tl_map (ss_lmac s)" "tl_nr (ss_lmac s1) = tl_nr (ss_lmac s)"
      "\<not> skw_vring_check sdio avail (tl_list (ss_lmac s))" "tl_cred (ss_lmac s) \<noteq> 0"
proof -
  define l where "l = ss_lmac s"
  define x where "x = slot_refill base (tl_tx l ! i)"
  let ?k = "sl_iface x"
  define valid where "valid b = fst (is_skw_peer_data_valid b (ss_peers s))" for b
  define peers where "peers b = snd (is_skw_peer_data_valid b (ss_peers s))" for b
  have v: "is_skw_peer_data_valid b (ss_peers s) = (valid b, peers b)" for b
    by (simp add: valid_def peers_def)
  note d = assms [unfolded slot_step_def Let_def l_def [symmetric] x_def [symmetric]]
  show thesis
  proof (cases "skw_vring_check sdio avail (tl_list l) \<or> tl_cred l = 0")
    case True
    then show thesis using d by (intro stop) (auto split: if_splits)
  next
    case go: False
    show thesis
    proof (cases "if ?k < length (ss_caches s) then ss_caches s ! ?k else []")
      case Nil
      then show thesis using d go by (intro off) (auto simp: l_def)
    next
      case (Cons b rest)
      then have k: "?k < length (ss_caches s)" "ss_caches s ! ?k = b # rest" by (auto split: if_splits)
      consider "\<not> valid b" | "valid b" "tl_count_limit l = 0" | "valid b" "tl_count_limit l \<noteq> 0" "sl_quota x \<noteq> 0"
        | "valid b" "tl_count_limit l \<noteq> 0" "sl_quota x = 0" by blast
      then show thesis
      proof cases
        case 1
        then show thesis using d go k v by (intro free [of ?k b rest]) (auto simp: l_def)
      next
        case 2
        then show thesis using d go k v by (intro stop) (auto simp: l_def)
      next
        case 3
        then show thesis using d go k v by (intro pick [of ?k b rest]) (auto simp: l_def)
      next
        case 4
        then show thesis using d go k v by (intro off) (auto simp: l_def)
      qed
    qed
  qed
qed

lemma slot_step_decreases:
  assumes "slot_step sdio avail base i s = (True, s1)" "i \<in> slots_on (ss_lmac s)"
  shows "waiting s1 + card (slots_on (ss_lmac s1)) < waiting s + card (slots_on (ss_lmac s))"
  using assms(1)
proof (cases rule: slot_step_cases)
  case off
  then have "slots_on (ss_lmac s1) = slots_on ((ss_lmac s)\<lparr>tl_map := flip_bit i (tl_map (ss_lmac s))\<rparr>)"
    by (simp add: slots_on_def)
  then show ?thesis using off psubset_card_mono [OF finite_slots_on slots_on_flip [OF assms(2)]] by (simp add: waiting_def)
next
  case (free k b rest)
  then have "slots_on (ss_lmac s1) = slots_on (ss_lmac s)" by (simp add: slots_on_def)
  then show ?thesis using free sum_list_pop [of k "ss_caches s" b rest] by (simp add: waiting_def)
next
  case (pick k b rest)
  then have "slots_on (ss_lmac s1) = slots_on (ss_lmac s)" by (simp add: slots_on_def)
  then show ?thesis using pick sum_list_pop [of k "ss_caches s" b rest] by (simp add: waiting_def)
qed simp

function slot_loop :: "bool \<Rightarrow> nat \<Rightarrow> int \<Rightarrow> nat \<Rightarrow> slot_state \<Rightarrow> slot_state" where
  "slot_loop sdio avail base i s =
     (case next_on i (ss_lmac s) of
        None \<Rightarrow> s
      | Some j \<Rightarrow>
        (case slot_step sdio avail base j s of (go, s1) \<Rightarrow> if go then slot_loop sdio avail base (j + 1) s1 else s1))"
  by pat_completeness auto
termination
proof (relation "measure (\<lambda>(sdio, avail, base, i, s). waiting s + card (slots_on (ss_lmac s)))", simp, clarsimp)
  fix sdio :: bool and avail base i s j s1
  assume "next_on i (ss_lmac s) = Some j" "(True, s1) = slot_step sdio avail base j s"
  then show "waiting s1 + card (slots_on (ss_lmac s1)) < waiting s + card (slots_on (ss_lmac s))"
    using slot_step_decreases [of sdio avail base j s s1] next_on_Some [of i "ss_lmac s" j] by (simp add: slots_on_def)
qed

declare slot_loop.simps [simp del]

text \<open>The share of the credits that a slot may use in one go.\<close>

definition slot_base :: "nat \<Rightarrow> skw_tx_lmac \<Rightarrow> int \<times> skw_tx_lmac" where
  "slot_base ac l =
     (if \<not> tl_reset l then (0, l)
      else
        (let (base, l1) =
           (if ac = SKW_WMM_AC_VO then (SKW_BASE_VO, l)
            else if ac = SKW_WMM_AC_VI then (SKW_BASE_VI, l)
            else if ac = SKW_WMM_AC_BK then
              (let (b, l2) = (if tl_bk_limit l \<noteq> 0 then (min (tl_cred l) (tl_bk_limit l), l\<lparr>tl_bk_limit := 0\<rparr>) else (tl_cred l, l)) in
               (b div int (tl_nr l), l2))
            else (min (tl_cred l) (tl_current l), l\<lparr>tl_bk_limit := (tl_cred l + 1) div 2\<rparr>)) in
         (if base \<noteq> 0 then base else 1, l1\<lparr>tl_reset := False\<rparr>)))"

section \<open>Handing frames to the ring\<close>

definition skw_set_extra_hdr :: "tx_hw \<Rightarrow> u8 \<Rightarrow> nat \<Rightarrow> bool \<Rightarrow> u32" where
  "skw_set_extra_hdr hw chn len eof =
     push_bit (hw_chn_offset hw) (ucast chn) OR
     push_bit (hw_len_offset hw) (of_int (int len - int (hw_hdr_len hw))) OR
     push_bit (hw_eof_offset hw) (if eof then 1 else 0)"

definition hdr_bytes :: "u32 \<Rightarrow> u8 list" where
  "hdr_bytes w = map (\<lambda>k. ucast (drop_bit (8 * k) w)) [0..<4]"

text \<open>
  The branch of \<open>skw_sdio_xmit\<close> that uses the ring: the header in front of the frame, the copy into the
  ring, and the frame is freed whether or not the ring took it.
\<close>

definition frame_with_header :: "tx_hw \<Rightarrow> u8 \<Rightarrow> tx_skb \<Rightarrow> u8 list" where
  "frame_with_header hw lport b =
     (let len = round_up (4 + length (tk_bytes b)) (hw_align hw) in
      hdr_bytes (skw_set_extra_hdr hw lport (len mod 65536) False) @ tk_bytes b)"

definition xmit_one :: "tx_hw \<Rightarrow> (nat \<Rightarrow> u8) \<Rightarrow> tx_skb \<Rightarrow> tx_radio \<Rightarrow> tx_radio" where
  "xmit_one hw beyond b r =
     (case skw_vring_set (hw_align hw) beyond (frame_with_header hw (tr_lport r) b) (tr_ring r) of
        (ret, ring) \<Rightarrow>
          if ret = 0 then r\<lparr>tr_ring := ring, tr_sent := tr_sent r @ [b]\<rparr>
          else r\<lparr>tr_ring := ring, tr_lost := tr_lost r @ [b]\<rparr>)"

definition skw_sdio_xmit :: "tx_hw \<Rightarrow> (nat \<Rightarrow> u8) \<Rightarrow> tx_skb list \<Rightarrow> tx_radio \<Rightarrow> tx_radio" where
  "skw_sdio_xmit hw beyond l r = fold (xmit_one hw beyond) l r"

section \<open>The worker\<close>

definition max_tx_count_limit :: "tx_hw \<Rightarrow> int" where
  "max_tx_count_limit hw = (if hw_sdio1 hw then hw_pkt_limit hw - 1 else hw_pkt_limit hw)"

definition caches_of :: "nat \<Rightarrow> tx_core \<Rightarrow> tx_skb list list" where
  "caches_of ac c = map (\<lambda>f. case f of None \<Rightarrow> [] | Some f \<Rightarrow> ti_cache f ! ac) (tc_ifaces c)"

definition put_caches :: "nat \<Rightarrow> tx_skb list list \<Rightarrow> tx_core \<Rightarrow> tx_core" where
  "put_caches ac qs c =
     c\<lparr>tc_ifaces := map2 (\<lambda>f q. map_option (\<lambda>f. f\<lparr>ti_cache := (ti_cache f)[ac := q]\<rparr>) f) (tc_ifaces c) qs\<rparr>"

definition lmac_clear :: "skw_tx_lmac \<Rightarrow> skw_tx_lmac" where
  "lmac_clear l = l\<lparr>tl_nr := 0, tl_map := 0, tl_current := 0\<rparr>"

text \<open>
  One radio in the pass for a category. The result says whether the radio has credits left. What the
  list for the bus held is handed over and the list is empty afterwards.
\<close>

definition lmac_pass :: "tx_hw \<Rightarrow> (nat \<Rightarrow> u8) \<Rightarrow> nat \<Rightarrow> nat \<Rightarrow> tx_core \<times> bool \<Rightarrow> tx_core \<times> bool" where
  "lmac_pass hw beyond ac m s =
     (let c = fst s; l = tc_txl c ! m; r = tc_radios c ! m; credit = skw_get_hw_credit (hw_ignore_cred hw) (tr_credit r) in
      if tl_map l = 0 then (c\<lparr>tc_txl := (tc_txl c)[m := lmac_clear l]\<rparr>, snd s)
      else if credit = 0 then (c\<lparr>tc_txl := (tc_txl c)[m := lmac_clear (l\<lparr>tl_cred := 0\<rparr>)]\<rparr>, snd s)
      else
        (let (base, l1) = slot_base ac (l\<lparr>tl_cred := credit\<rparr>);
             st = slot_loop True (skw_vring_available_count (tr_ring r)) base 0
                    \<lparr>ss_lmac = l1, ss_caches = caches_of ac c, ss_peers = tc_peers c, ss_freed = []\<rparr>;
             l2 = ss_lmac st; c1 = put_caches ac (ss_caches st) c in
         (c1\<lparr>tc_peers := ss_peers st, tc_freed := tc_freed c @ ss_freed st,
             tc_radios := (tc_radios c)[m := skw_sdio_xmit hw beyond (tl_list l2) r],
             tc_txl := (tc_txl c)[m := lmac_clear (l2\<lparr>tl_pending := tl_current l2 - credit + tl_cred l2, tl_list := [],
                                                     tl_count_limit := max_tx_count_limit hw\<rparr>)]\<rparr>,
          snd s \<or> tl_cred l2 \<noteq> 0)))"

definition skw_reset_ac :: "skw_tx_lmac list \<Rightarrow> skw_tx_lmac list" where
  "skw_reset_ac ls = map (\<lambda>l. l\<lparr>tl_ac_reset := 0xF\<rparr>) ls"

text \<open>The loop over the categories from \<open>ac\<close> on; it ends early when no radio has credits left.\<close>

fun ac_loop :: "tx_hw \<Rightarrow> (nat \<Rightarrow> u8) \<Rightarrow> nat list \<Rightarrow> tx_core \<Rightarrow> tx_core" where
  "ac_loop hw beyond [] c = c\<lparr>tc_txl := skw_reset_ac (tc_txl c)\<rparr>"
| "ac_loop hw beyond (ac # acs) c =
     (case skw_txq_prepare ac c of
        (c1, qlen) \<Rightarrow>
          if qlen = 0 then ac_loop hw beyond acs c1
          else
            (case fold (lmac_pass hw beyond ac) [0..<length (tc_radios c1)] (c1, False) of
               (c2, capa) \<Rightarrow> if capa then ac_loop hw beyond acs c2 else c2))"

definition tx_worker_round :: "tx_hw \<Rightarrow> (nat \<Rightarrow> u8) \<Rightarrow> tx_core \<Rightarrow> tx_core" where
  "tx_worker_round hw beyond c = ac_loop hw beyond [SKW_WMM_AC_VO, SKW_WMM_AC_VI, SKW_WMM_AC_BE, SKW_WMM_AC_BK] c"

text \<open>The start of the worker.\<close>

definition tx_worker_start :: "tx_hw \<Rightarrow> tx_core \<Rightarrow> tx_core" where
  "tx_worker_start hw c =
     c\<lparr>tc_txl := map (\<lambda>i. \<lparr>tl_reset = False, tl_cred = 0, tl_map = 0, tl_nr = 0, tl_bk_limit = 0, tl_current = 0,
         tl_ac_reset = 0xF, tl_count_limit = (if i < length (tc_radios c) then max_tx_count_limit hw else 0), tl_pending = 0,
         tl_list = [], tl_tx = replicate 4 \<lparr>sl_quota = 0, sl_reset = False, sl_iface = 0\<rparr>\<rparr>) [0..<2]\<rparr>"

text \<open>
  The checks around a round: whether the worker may run (\<open>allowed\<close> is \<open>skw_tx_allowed\<close> of the driver's
  flags), and whether it may end (\<open>cmd\<close> tells that a command waits).
\<close>

datatype tx_running = SKW_TX_RUNNING_EXIT | SKW_TX_RUNNING_RESTART | SKW_TX_RUNNING_GO

definition skw_tx_running_check :: "bool \<Rightarrow> nat \<Rightarrow> bool \<Rightarrow> nat \<Rightarrow> tx_core \<Rightarrow> tx_running" where
  "skw_tx_running_check ign wait allowed runs c =
     (if \<not> allowed then SKW_TX_RUNNING_EXIT
      else if (\<Sum>r \<leftarrow> filter tr_active (tc_radios c). skw_get_hw_credit ign (tr_credit r)) = 0
      then (if runs < wait then SKW_TX_RUNNING_RESTART else SKW_TX_RUNNING_EXIT)
      else SKW_TX_RUNNING_GO)"

definition skw_tx_exit_check :: "bool \<Rightarrow> tx_core \<Rightarrow> bool" where
  "skw_tx_exit_check cmd c \<longleftrightarrow>
     \<not> list_ex (\<lambda>(r, l). tr_active r \<and> 0 < tl_pending l \<and> 1 < skw_vring_available_count (tr_ring r)) (zip (tc_radios c) (tc_txl c)) \<and> \<not> cmd"

definition skw_check_txq :: "tx_core \<Rightarrow> bool" where
  "skw_check_txq c \<longleftrightarrow>
     list_ex (\<lambda>ac. list_ex (\<lambda>f. case f of None \<Rightarrow> False | Some f \<Rightarrow> ti_cache f ! ac \<noteq> [] \<or> ti_txq f ! ac \<noteq> []) (tc_ifaces c))
       [0..<SKW_WMM_AC_MAX]"

text \<open>
  The worker: in round \<open>n\<close> the environment says whether the driver shuts down, whether transmission is
  allowed and whether a command waits at the end, and may add credits or empty the rings in between.
\<close>

record tx_env =
  te_exit :: bool
  te_allowed :: bool
  te_cmd :: bool

partial_function (option) skw_tx_worker ::
  "tx_hw \<Rightarrow> (nat \<Rightarrow> u8) \<Rightarrow> nat \<Rightarrow> (nat \<Rightarrow> tx_env) \<Rightarrow> (nat \<Rightarrow> tx_core \<Rightarrow> tx_core) \<Rightarrow> nat \<Rightarrow> tx_core \<Rightarrow> tx_core option" where
  "skw_tx_worker hw beyond wait env other n c =
     (if te_exit (env n) then Some c
      else case skw_tx_running_check (hw_ignore_cred hw) wait (te_allowed (env n)) n c of
        SKW_TX_RUNNING_EXIT \<Rightarrow> Some c
      | SKW_TX_RUNNING_RESTART \<Rightarrow> skw_tx_worker hw beyond wait env other (Suc n) (tx_worker_start hw (other n c))
      | SKW_TX_RUNNING_GO \<Rightarrow>
          (let c1 = tx_worker_round hw beyond c in
           if skw_tx_exit_check (te_cmd (env n)) c1 then Some c1
           else skw_tx_worker hw beyond wait env other (Suc n) (other n c1)))"

end
