(* ===== verification/Skw_Vring_Props.thy ===== *)
theory Skw_Vring_Props
  imports Skw_Vring
begin

text \<open>
  The transmit ring refines a queue: frames leave in the order and with the bytes they were put in,
  also when the producer fills further slots while the bus is still reading. The worker that
  empties the ring always comes to an end.
\<close>

section \<open>Slots in memory\<close>

lemma length_mem_write [simp]: "a + length bs \<le> length m \<Longrightarrow> length (mem_write a bs m) = length m"
  by (simp add: mem_write_def)

lemma mem_read_same: "a + length bs \<le> length m \<Longrightarrow> mem_read a (length bs) (mem_write a bs m) = bs"
  by (simp add: mem_read_def mem_write_def)

lemma mem_read_other:
  assumes "b + length bs \<le> length m" "a + n \<le> b \<or> b + length bs \<le> a"
  shows "mem_read a n (mem_write b bs m) = mem_read a n m"
proof (rule nth_equalityI)
  show "length (mem_read a n (mem_write b bs m)) = length (mem_read a n m)"
    using assms(1) by (simp add: mem_read_def)
next
  fix k assume "k < length (mem_read a n (mem_write b bs m))"
  then have "k < n" "a + k < length m" using assms(1) by (auto simp: mem_read_def)
  then show "mem_read a n (mem_write b bs m) ! k = mem_read a n m ! k"
    using assms by (auto simp: mem_read_def mem_write_def nth_append)
qed

lemma mem_read_slot:
  assumes "i \<noteq> j" "j < 128" "length m = 128 * 1536" "length bs \<le> 1536" "n \<le> 1536"
  shows "mem_read (i * 1536) n (mem_write (j * 1536) bs m) = mem_read (i * 1536) n m"
proof (rule mem_read_other)
  have "(j + 1) * 1536 \<le> 128 * 1536" using assms(2) by (intro mult_le_mono1) simp
  then show "j * 1536 + length bs \<le> length m" using assms(3,4) by simp
  consider "i + 1 \<le> j" | "j + 1 \<le> i" using assms(1) by linarith
  then show "i * 1536 + n \<le> j * 1536 \<or> j * 1536 + length bs \<le> i * 1536"
  proof cases
    case 1
    then have "(i + 1) * 1536 \<le> j * 1536" by (rule mult_le_mono1)
    then show ?thesis using assms(5) by simp
  next
    case 2
    then have "(j + 1) * 1536 \<le> i * 1536" by (rule mult_le_mono1)
    then show ?thesis using assms(4) by simp
  qed
qed

section \<open>The invariant of the ring\<close>

definition ring_ok :: "skw_tx_vring \<Rightarrow> bool" where
  "ring_ok r \<longleftrightarrow> length (vr_desc r) = 128 \<and> avail_ring r = [0..<128] \<and> length (vr_page r) = 128 * 1536 \<and>
     used_slots r \<le> 127 \<and> (\<forall>i < 128. vd_addr (vr_desc r ! i) = i * 1536 \<and> vd_len (vr_desc r ! i) \<le> 1536)"

definition nth_slot :: "skw_tx_vring \<Rightarrow> nat \<Rightarrow> nat" where
  "nth_slot r k = (unat (used_idx r) + k) mod 128"

definition slot_bytes :: "skw_tx_vring \<Rightarrow> nat \<Rightarrow> u8 list" where
  "slot_bytes r i = mem_read (vd_addr (vr_desc r ! i)) (vd_len (vr_desc r ! i)) (vr_page r)"

text \<open>The frames in slots \<open>j\<close> to \<open>n\<close> behind the oldest.\<close>

definition frames :: "skw_tx_vring \<Rightarrow> nat \<Rightarrow> nat \<Rightarrow> u8 list list" where
  "frames r j n = map (\<lambda>k. slot_bytes r (nth_slot r k)) [j..<n]"

lemma nth_slot_less [simp]: "nth_slot r k < 128"
  by (simp add: nth_slot_def)

lemma nth_slot_inj:
  assumes "j < k" "k < j + 128"
  shows "nth_slot r j \<noteq> nth_slot r k"
proof
  assume "nth_slot r j = nth_slot r k"
  then have "(unat (used_idx r) + k) mod 128 = (unat (used_idx r) + j) mod 128" by (simp add: nth_slot_def)
  then have "128 dvd k - j" using assms(1) by (subst (asm) mod_eq_dvd_iff_nat) auto
  then show False using assms by (auto dest: dvd_imp_le)
qed

lemma nth_slot_neq: "n \<le> k \<Longrightarrow> k < 128 \<Longrightarrow> nth_slot r k \<notin> nth_slot r ` {0..<n}"
  using nth_slot_inj [of _ k r] by (fastforce dest: sym)

lemma avail_slot: "unat (avail_idx r AND 127) = nth_slot r (used_slots r)"
  unfolding avail_used slot_add nth_slot_def ..

lemma pending_used: "used_slots r \<le> 127 \<Longrightarrow> unat ((avail_idx r - used_idx r) AND 127) = used_slots r"
  by (simp add: and_127 used_slots_def)

lemmas ring_counts = skw_vring_pending_count_def skw_vring_available_count_def tx_vring_is_full_def
  vring_has_pending_def SKW_TX_VRING_SIZE_def

lemma has_pending: "used_slots r \<le> 127 \<Longrightarrow> vring_has_pending r \<longleftrightarrow> used_slots r \<noteq> 0"
  using pending_used [of r] by (auto simp: vring_has_pending_def simp flip: unat_eq_0)

section \<open>Filling a slot\<close>

lemma length_frame_bytes [simp]: "length (frame_bytes align beyond dat) = aligned_len align dat"
  by (simp add: frame_bytes_def)

lemma set_cases:
  assumes ok: "ring_ok r" and s: "skw_vring_set align beyond dat r = (ret, r1)" and len: "aligned_len align dat \<le> 1536"
  shows "if used_slots r = 127 then ret = - EINVAL \<and> r1 = r
    else ret = 0 \<and> ring_ok r1 \<and> used_idx r1 = used_idx r \<and> used_slots r1 = used_slots r + 1 \<and>
      slot_bytes r1 (nth_slot r (used_slots r)) = frame_bytes align beyond dat \<and>
      (\<forall>i < 128. i \<noteq> nth_slot r (used_slots r) \<longrightarrow> vr_desc r1 ! i = vr_desc r ! i \<and>
         (\<forall>n \<le> 1536. mem_read (i * 1536) n (vr_page r1) = mem_read (i * 1536) n (vr_page r)))"
proof (cases "used_slots r = 127")
  case True
  then show ?thesis using s pending_used [of r] by (simp add: skw_vring_set_def ring_counts)
next
  case False
  let ?i = "nth_slot r (used_slots r)" and ?bs = "frame_bytes align beyond dat"
  have u: "used_slots r < 127" using ok False by (simp add: ring_ok_def)
  have nf: "\<not> tx_vring_is_full r" using pending_used [of r] u by (simp add: ring_counts)
  have r1: "ret = 0" "r1 = r\<lparr>vr_page := mem_write (?i * 1536) ?bs (vr_page r),
      vr_desc := (vr_desc r)[?i := (vr_desc r ! ?i)\<lparr>vd_len := length ?bs, vd_write := True\<rparr>],
      avail_ring := (avail_ring r)[?i := ?i], avail_idx := avail_idx r + 1\<rparr>"
    using s nf ok by (simp_all add: skw_vring_set_def Let_def avail_slot ring_ok_def)
  have "(?i + 1) * 1536 \<le> 128 * 1536" using nth_slot_less [of r "used_slots r"] by (intro mult_le_mono1) linarith
  then have fits: "?i * 1536 + length ?bs \<le> length (vr_page r)" using ok len by (simp add: ring_ok_def)
  have slots: "used_slots r1 = used_slots r + 1"
  proof -
    have "avail_idx r + 1 - used_idx r = of_nat (used_slots r + 1)" by (subst avail_used) simp
    moreover have "used_slots r1 = unat (avail_idx r + 1 - used_idx r)" by (simp add: r1(2) used_slots_def)
    ultimately have "used_slots r1 = unat (of_nat (used_slots r + 1) :: u16)" by (simp only:)
    also have "\<dots> = used_slots r + 1" using u by (simp only: unat_of_nat) simp
    finally show ?thesis .
  qed
  have "ring_ok r1" using ok len u fits slots
    by (auto simp: ring_ok_def r1(2) nth_list_update list_update_same_conv)
  moreover have "slot_bytes r1 ?i = ?bs"
    using ok mem_read_same [OF fits] by (simp add: r1(2) slot_bytes_def ring_ok_def)
  moreover have "mem_read (i * 1536) n (vr_page r1) = mem_read (i * 1536) n (vr_page r)"
    if "i \<noteq> ?i" "n \<le> 1536" for i n
    using mem_read_slot [of i ?i "vr_page r" ?bs n] that ok len by (simp add: r1(2) ring_ok_def)
  ultimately show ?thesis using False slots r1(1) by (simp add: r1(2))
qed

section \<open>Taking slots for a transfer\<close>

lemma write_loop_spec:
  assumes "ring_ok r" "n0 \<le> used_slots r" "length sgl \<le> limit"
    and "write_loop limit (avail_idx r) (used_idx r + of_nat n0) sgl r = (u, sgl1, r1)"
    and "n = min (used_slots r) (n0 + (limit - length sgl))"
  shows "u = used_idx r + of_nat n \<and> ring_ok r1 \<and> avail_idx r1 = avail_idx r \<and> used_idx r1 = used_idx r \<and>
    vr_page r1 = vr_page r \<and>
    sgl1 = sgl @ map (\<lambda>k. let d = vr_desc r ! nth_slot r k in (vd_addr d, vd_len d)) [n0..<n] \<and>
    (\<forall>i < 128. i \<notin> nth_slot r ` {n0..<n} \<longrightarrow> vr_desc r1 ! i = vr_desc r ! i)"
  using assms
proof (induction "used_slots r - n0" arbitrary: r n0 sgl n)
  case 0
  then have "n0 = used_slots r" by simp
  then show ?case using 0 by (auto simp: write_loop.simps avail_used [symmetric])
next
  case (Suc m)
  have lt: "n0 < used_slots r" "used_slots r \<le> 127" using Suc.hyps(2) Suc.prems(1) by (auto simp: ring_ok_def)
  let ?i = "nth_slot r n0"
  have ne: "(used_idx r + of_nat n0) AND 127 \<noteq> avail_idx r AND 127"
    using nth_slot_inj [of n0 "used_slots r" r] lt slot_add [of "used_idx r" n0] avail_slot [of r]
    by (auto simp: nth_slot_def)
  show ?case
  proof (cases "length sgl = limit")
    case True
    then show ?thesis using Suc.prems ne lt by (auto simp: write_loop.simps)
  next
    case False
    let ?d = "vr_desc r ! ?i"
    define r2 where "r2 = r\<lparr>used_ring := (used_ring r)[?i := (?i, vd_len ?d)], vr_desc := (vr_desc r)[?i := ?d\<lparr>vd_write := False, vd_len := 0\<rparr>]\<rparr>"
    have u: "unat (used_idx r + of_nat n0) mod 128 = ?i" by (simp add: unat_add_u16 nth_slot_def mod_mod_cancel)
    have step: "write_loop limit (avail_idx r2) (used_idx r2 + of_nat (Suc n0)) (sgl @ [(vd_addr ?d, vd_len ?d)]) r2 = (u, sgl1, r1)"
    proof -
      have "used_idx r2 + of_nat (Suc n0) = used_idx r + of_nat n0 + 1" by (simp add: r2_def)
      moreover have "avail_ring r ! ?i = ?i" using Suc.prems(1) by (simp add: ring_ok_def)
      moreover have "avail_idx r2 = avail_idx r" by (simp add: r2_def)
      ultimately show ?thesis using Suc.prems(4) ne False
        by (subst (asm) write_loop.simps) (simp add: u Let_def r2_def [symmetric] add.assoc add.commute [of 1])
    qed
    have same: "used_slots r2 = used_slots r" "nth_slot r2 = nth_slot r" by (auto simp: r2_def used_slots_def nth_slot_def)
    have ok2: "ring_ok r2" using Suc.prems(1) same(1) by (auto simp: ring_ok_def r2_def nth_list_update)
    have n: "min (used_slots r2) (Suc n0 + (limit - length (sgl @ [(vd_addr ?d, vd_len ?d)]))) = n"
      using False Suc.prems(3) by (simp add: Suc.prems(5) same)
    have "Suc n0 \<le> n" using lt False Suc.prems(3) by (simp add: Suc.prems(5))
    then have upt: "[n0..<n] = n0 # [Suc n0..<n]" by (simp add: upt_conv_Cons)
    have n127: "n \<le> 127" using lt by (simp add: Suc.prems(5))
    have other: "vr_desc r2 ! nth_slot r k = vr_desc r ! nth_slot r k" if "k \<in> {Suc n0..<n}" for k
      using nth_slot_inj [of n0 k r] that n127 by (simp add: r2_def)
    have "m = used_slots r2 - Suc n0" using Suc.hyps(2) same by simp
    note IH = Suc.hyps(1) [OF this ok2 _ _ step n [symmetric], unfolded same]
    have rest: "map (\<lambda>k. let d = vr_desc r2 ! nth_slot r k in (vd_addr d, vd_len d)) [Suc n0..<n] =
        map (\<lambda>k. let d = vr_desc r ! nth_slot r k in (vd_addr d, vd_len d)) [Suc n0..<n]"
      using other by (intro map_cong) (auto simp: Let_def)
    have "{n0..<n} = insert n0 {Suc n0..<n}" using \<open>Suc n0 \<le> n\<close> by auto
    then show ?thesis
      using IH lt False Suc.prems(3) rest upt by (auto simp: r2_def Let_def)
  qed
qed

section \<open>Producer and consumer interleaved\<close>

text \<open>
  The ring with the transfer in progress and, as ghosts, all frames put in and all frames the bus
  has read. The bus reads the memory as late as possible, when the transfer ends.
\<close>

record ring_sys =
  rs_ring :: skw_tx_vring
  rs_flight :: "((nat \<times> nat) list \<times> u16) option"
  rs_in :: "u8 list list"
  rs_out :: "u8 list list"

inductive ring_step :: "ring_sys \<Rightarrow> ring_sys \<Rightarrow> bool" where
  produce: "skw_vring_set align beyond dat (rs_ring s) = (ret, r1) \<Longrightarrow> aligned_len align dat \<le> SKW_TX_PACK_SIZE \<Longrightarrow>
    ring_step s (s\<lparr>rs_ring := r1, rs_in := rs_in s @ (if ret = 0 then [frame_bytes align beyond dat] else [])\<rparr>)"
| start: "rs_flight s = None \<Longrightarrow> sdio_write_begin limit (rs_ring s) = Some (u, sgl, r1) \<Longrightarrow>
    ring_step s (s\<lparr>rs_ring := r1, rs_flight := Some (sgl, u)\<rparr>)"
| finish: "rs_flight s = Some (sgl, u) \<Longrightarrow>
    ring_step s (s\<lparr>rs_ring := sdio_write_end u (rs_ring s), rs_flight := None,
                   rs_out := rs_out s @ transfer_bytes sgl (rs_ring s)\<rparr>)"

definition ring_reachable :: "u8 list \<Rightarrow> ring_sys \<Rightarrow> bool" where
  "ring_reachable page s \<longleftrightarrow>
     ring_step\<^sup>*\<^sup>* \<lparr>rs_ring = skw_tx_vring_init page, rs_flight = None, rs_in = [], rs_out = []\<rparr> s"

text \<open>The frames still in the ring: those of the transfer by its list, the others by their descriptors.\<close>

definition taken :: "ring_sys \<Rightarrow> nat" where
  "taken s = (case rs_flight s of None \<Rightarrow> 0 | Some (sgl, u) \<Rightarrow> length sgl)"

definition in_ring :: "ring_sys \<Rightarrow> u8 list list" where
  "in_ring s = (case rs_flight s of None \<Rightarrow> [] | Some (sgl, u) \<Rightarrow> transfer_bytes sgl (rs_ring s)) @
     frames (rs_ring s) (taken s) (used_slots (rs_ring s))"

definition ring_inv :: "ring_sys \<Rightarrow> bool" where
  "ring_inv s \<longleftrightarrow> ring_ok (rs_ring s) \<and> rs_in s = rs_out s @ in_ring s \<and> taken s \<le> used_slots (rs_ring s) \<and>
     (\<forall>sgl u. rs_flight s = Some (sgl, u) \<longrightarrow> u = used_idx (rs_ring s) + of_nat (length sgl) \<and>
        (\<forall>k < length sgl. fst (sgl ! k) = nth_slot (rs_ring s) k * 1536 \<and> snd (sgl ! k) \<le> 1536))"

lemma frames_eqI:
  "used_idx r1 = used_idx r \<Longrightarrow> (\<And>k. j \<le> k \<Longrightarrow> k < n \<Longrightarrow> slot_bytes r1 (nth_slot r k) = slot_bytes r (nth_slot r k)) \<Longrightarrow>
     frames r1 j n = frames r j n"
  by (simp add: frames_def nth_slot_def)

lemma transfer_eqI:
  "(\<And>k. k < length sgl \<Longrightarrow> mem_read (fst (sgl ! k)) (snd (sgl ! k)) (vr_page r1) = mem_read (fst (sgl ! k)) (snd (sgl ! k)) (vr_page r)) \<Longrightarrow>
     transfer_bytes sgl r1 = transfer_bytes sgl r"
  unfolding transfer_bytes_def by (rule nth_equalityI) (auto simp: case_prod_beta)

lemma mod_65536: "(x mod 65536 + k) mod 128 = (x + k) mod (128 :: nat)"
proof -
  have "x mod 65536 mod 128 = x mod (128 :: nat)" by (simp add: mod_mod_cancel)
  then show ?thesis by (metis mod_add_left_eq)
qed

lemma nth_slot_cong: "used_idx r1 = used_idx r \<Longrightarrow> nth_slot r1 k = nth_slot r k"
  by (simp add: nth_slot_def)

lemma produce_inv:
  assumes inv: "ring_inv s" and s: "skw_vring_set align beyond dat (rs_ring s) = (ret, r1)"
    and len: "aligned_len align dat \<le> 1536"
  shows "ring_inv (s\<lparr>rs_ring := r1, rs_in := rs_in s @ (if ret = 0 then [frame_bytes align beyond dat] else [])\<rparr>)"
proof (cases "used_slots (rs_ring s) = 127")
  case True
  then have "ret \<noteq> 0" "r1 = rs_ring s" using inv set_cases [OF _ s len] by (auto simp: ring_inv_def EINVAL_def)
  then have "s\<lparr>rs_ring := r1, rs_in := rs_in s @ (if ret = 0 then [frame_bytes align beyond dat] else [])\<rparr> = s" by simp
  then show ?thesis using inv by (simp only:)
next
  case False
  let ?r = "rs_ring s" and ?n = "used_slots (rs_ring s)"
  have ok: "ring_ok ?r" using inv by (simp add: ring_inv_def)
  have c: "ret = 0" "ring_ok r1" "used_idx r1 = used_idx ?r" "used_slots r1 = ?n + 1"
    "slot_bytes r1 (nth_slot ?r ?n) = frame_bytes align beyond dat"
    "\<And>i n. i < 128 \<Longrightarrow> i \<noteq> nth_slot ?r ?n \<Longrightarrow> vr_desc r1 ! i = vr_desc ?r ! i \<and>
       (n \<le> 1536 \<longrightarrow> mem_read (i * 1536) n (vr_page r1) = mem_read (i * 1536) n (vr_page ?r))"
    using set_cases [OF ok s len] False by auto
  have n: "?n < 127" using ok False by (simp add: ring_ok_def)
  have ne: "nth_slot ?r k \<noteq> nth_slot ?r ?n" if "k < ?n" for k using nth_slot_inj [of k ?n ?r] that n by simp
  have old: "frames r1 j ?n = frames ?r j ?n" for j
  proof (rule frames_eqI [OF c(3)])
    fix k assume "k < ?n"
    then show "slot_bytes r1 (nth_slot ?r k) = slot_bytes ?r (nth_slot ?r k)"
      using c(6) [OF nth_slot_less ne [of k]] ok by (simp add: slot_bytes_def ring_ok_def)
  qed
  have new: "frames r1 j (?n + 1) = frames r1 j ?n @ [frame_bytes align beyond dat]" if "j \<le> ?n" for j
    using that c(5) by (simp add: frames_def nth_slot_cong [OF c(3)])
  have tr: "transfer_bytes sgl r1 = transfer_bytes sgl ?r" if "rs_flight s = Some (sgl, u)" for sgl u
  proof (rule transfer_eqI)
    fix k assume "k < length sgl"
    then show "mem_read (fst (sgl ! k)) (snd (sgl ! k)) (vr_page r1) = mem_read (fst (sgl ! k)) (snd (sgl ! k)) (vr_page ?r)"
      using c(6) [OF nth_slot_less ne [of k]] inv that by (simp add: ring_inv_def taken_def)
  qed
  have "taken s \<le> ?n" using inv by (simp add: ring_inv_def)
  then have new1: "frames r1 (taken s) (used_slots r1) = frames ?r (taken s) ?n @ [frame_bytes align beyond dat]"
    using new old c(4) by simp
  let ?s = "s\<lparr>rs_ring := r1, rs_in := rs_in s @ (if ret = 0 then [frame_bytes align beyond dat] else [])\<rparr>"
  have "taken ?s = taken s" by (simp add: taken_def)
  moreover from this have "in_ring ?s = in_ring s @ [frame_bytes align beyond dat]"
    using new1 tr by (cases "rs_flight s") (auto simp: in_ring_def)
  ultimately show ?thesis using inv c(1-4) nth_slot_cong [OF c(3)] by (simp add: ring_inv_def)
qed

lemma begin_inv:
  assumes inv: "ring_inv s" and none: "rs_flight s = None" and b: "sdio_write_begin limit (rs_ring s) = Some (u, sgl, r1)"
  shows "ring_inv (s\<lparr>rs_ring := r1, rs_flight := Some (sgl, u)\<rparr>) \<and> length sgl = min (used_slots (rs_ring s)) limit"
proof -
  let ?r = "rs_ring s"
  define n where "n = min (used_slots ?r) limit"
  have ok: "ring_ok ?r" using inv by (simp add: ring_inv_def)
  have "write_loop limit (avail_idx ?r) (used_idx ?r + of_nat 0) [] ?r = (u, sgl, r1)"
    using b by (simp add: sdio_write_begin_def split: if_splits)
  from write_loop_spec [OF ok _ _ this, of n]
  have w: "u = used_idx ?r + of_nat n" "ring_ok r1" "avail_idx r1 = avail_idx ?r" "used_idx r1 = used_idx ?r" "vr_page r1 = vr_page ?r"
    "sgl = map (\<lambda>k. let d = vr_desc ?r ! nth_slot ?r k in (vd_addr d, vd_len d)) [0..<n]"
    "\<And>i. i < 128 \<Longrightarrow> i \<notin> nth_slot ?r ` {0..<n} \<Longrightarrow> vr_desc r1 ! i = vr_desc ?r ! i" by (simp_all add: n_def)
  have slots: "used_slots r1 = used_slots ?r" using w by (simp add: used_slots_def)
  have n127: "n \<le> used_slots ?r" "used_slots ?r \<le> 127" using ok by (simp_all add: n_def ring_ok_def)
  have "frames r1 n (used_slots ?r) = frames ?r n (used_slots ?r)"
  proof (rule frames_eqI [OF w(4)])
    fix k assume k: "n \<le> k" "k < used_slots ?r"
    then have "nth_slot ?r k \<notin> nth_slot ?r ` {0..<n}" using nth_slot_neq [OF k(1)] n127 by simp
    then show "slot_bytes r1 (nth_slot ?r k) = slot_bytes ?r (nth_slot ?r k)"
      using w(5,7) by (simp add: slot_bytes_def)
  qed
  moreover have "transfer_bytes sgl r1 = frames ?r 0 n"
    by (simp add: transfer_bytes_def frames_def w(5,6) slot_bytes_def Let_def)
  moreover have "frames ?r 0 n @ frames ?r n (used_slots ?r) = frames ?r 0 (used_slots ?r)"
    using n127(1) upt_add_eq_append [of 0 n "used_slots ?r - n"] by (simp add: frames_def flip: map_append)
  ultimately have "in_ring (s\<lparr>rs_ring := r1, rs_flight := Some (sgl, u)\<rparr>) = in_ring s"
    using none slots w(6) by (simp add: in_ring_def taken_def)
  moreover have "fst (sgl ! k) = nth_slot r1 k * 1536 \<and> snd (sgl ! k) \<le> 1536" if "k < length sgl" for k
    using that ok w(6) by (simp add: Let_def ring_ok_def nth_slot_cong [OF w(4)])
  ultimately show ?thesis using inv none slots w(1,2,4,6) n127(1)
    by (simp add: ring_inv_def taken_def n_def [symmetric])
qed

lemma finish_inv:
  assumes inv: "ring_inv s" and f: "rs_flight s = Some (sgl, u)"
  shows "ring_inv (s\<lparr>rs_ring := sdio_write_end u (rs_ring s), rs_flight := None,
                   rs_out := rs_out s @ transfer_bytes sgl (rs_ring s)\<rparr>) \<and>
    used_slots (sdio_write_end u (rs_ring s)) = used_slots (rs_ring s) - length sgl"
proof -
  let ?r = "rs_ring s" and ?n = "length sgl"
  let ?r1 = "sdio_write_end u ?r"
  have ok: "ring_ok ?r" and u: "u = used_idx ?r + of_nat ?n" and le: "?n \<le> used_slots ?r"
    using inv f by (auto simp: ring_inv_def taken_def)
  have "avail_idx ?r - u = of_nat (used_slots ?r - ?n)" using le by (subst avail_used) (simp add: u of_nat_diff)
  moreover have "used_slots ?r \<le> 127" using ok by (simp add: ring_ok_def)
  ultimately have slots: "used_slots ?r1 = used_slots ?r - ?n"
    unfolding used_slots_def [of ?r1] by (simp add: sdio_write_end_def unat_of_nat)
  have "nth_slot ?r1 k = nth_slot ?r (?n + k)" for k
    by (simp add: nth_slot_def sdio_write_end_def u unat_add_u16 mod_65536 add.assoc)
  then have "frames ?r1 0 (used_slots ?r - ?n) = frames ?r ?n (used_slots ?r)"
    using le by (intro nth_equalityI) (simp_all add: frames_def slot_bytes_def sdio_write_end_def)
  then show ?thesis using inv f ok slots
    by (auto simp: ring_inv_def in_ring_def taken_def ring_ok_def sdio_write_end_def)
qed

lemma ring_init_inv:
  assumes "length page = SKW_TX_VRING_SIZE * SKW_TX_PACK_SIZE"
  shows "ring_inv \<lparr>rs_ring = skw_tx_vring_init page, rs_flight = None, rs_in = [], rs_out = []\<rparr>"
  using assms
  by (simp add: ring_inv_def ring_ok_def skw_tx_vring_init_def used_slots_def in_ring_def taken_def frames_def
      SKW_TX_VRING_SIZE_def SKW_TX_PACK_SIZE_def)

lemma step_inv: "ring_step s s1 \<Longrightarrow> ring_inv s \<Longrightarrow> ring_inv s1"
proof (induction rule: ring_step.induct)
  case (produce align beyond dat s ret r1)
  then show ?case using produce_inv by (simp add: SKW_TX_PACK_SIZE_def)
next
  case (start s limit u sgl r1)
  then show ?case using begin_inv by blast
next
  case (finish s sgl u)
  then show ?case using finish_inv by blast
qed

lemma reachable_ring_inv:
  assumes "ring_reachable page s" "length page = SKW_TX_VRING_SIZE * SKW_TX_PACK_SIZE"
  shows "ring_inv s"
  using assms(1) unfolding ring_reachable_def by (induction rule: rtranclp_induct) (auto intro: step_inv ring_init_inv [OF assms(2)])

text \<open>
  C9. The transmit ring is a queue. However the producer and the transfers interleave, the
  producer filling slots while the bus still reads others included: the frames put in are the frames the
  bus has read, followed by those in the ring, each with its bytes intact and in order; and there
  are never more than 127 frames in the ring, so a transfer with its end block fits the list of
  128 buffers.
\<close>

theorem tx_ring_is_queue:
  assumes "ring_reachable page s" "length page = SKW_TX_VRING_SIZE * SKW_TX_PACK_SIZE"
  shows "rs_in s = rs_out s @ in_ring s \<and> length (in_ring s) = skw_vring_pending_count (rs_ring s) \<and>
    taken s + 1 \<le> SKW_TX_VRING_SIZE \<and> skw_vring_pending_count (rs_ring s) < SKW_TX_VRING_SIZE"
proof -
  have inv: "ring_inv s" by (rule reachable_ring_inv [OF assms])
  then have "length (in_ring s) = used_slots (rs_ring s)"
    by (auto simp: ring_inv_def in_ring_def taken_def frames_def transfer_bytes_def split: option.splits)
  then show ?thesis using inv pending_used [of "rs_ring s"] by (auto simp: ring_inv_def ring_counts ring_ok_def)
qed

text \<open>One frame of three bytes, aligned to four, in a fresh ring.\<close>

definition blank_page :: "u8 list" where
  "blank_page = replicate (SKW_TX_VRING_SIZE * SKW_TX_PACK_SIZE) 0"

definition one_frame :: skw_tx_vring where
  "one_frame = snd (skw_vring_set 4 (\<lambda>_. 0) [1, 2, 3] (skw_tx_vring_init blank_page))"

lemma one_frame_set: "skw_vring_set 4 (\<lambda>_. 0) [1, 2, 3] (skw_tx_vring_init blank_page) = (0, one_frame)"
  by (simp add: one_frame_def skw_vring_set_def skw_tx_vring_init_def tx_vring_is_full_def SKW_TX_VRING_SIZE_def Let_def)

lemma three_bytes: "aligned_len 4 [1, 2, 3] = 4" "frame_bytes 4 (\<lambda>_. 0) [1, 2, 3] = [1, 2, 3, 0]"
proof -
  show l: "aligned_len 4 [1, 2, 3] = 4" by (simp add: aligned_len_def round_up_def)
  show "frame_bytes 4 (\<lambda>_. 0) [1, 2, 3] = [1, 2, 3, 0]" by (simp add: frame_bytes_def l upt_rec)
qed

definition one_frame_sys :: ring_sys where
  "one_frame_sys = \<lparr>rs_ring = one_frame, rs_flight = None, rs_in = [[1, 2, 3, 0]], rs_out = []\<rparr>"

lemma one_frame_reachable: "ring_reachable blank_page one_frame_sys"
  using ring_step.produce [of 4 "\<lambda>_. 0" "[1, 2, 3]" "\<lparr>rs_ring = skw_tx_vring_init blank_page, rs_flight = None, rs_in = [], rs_out = []\<rparr>" 0 one_frame]
  by (simp add: ring_reachable_def one_frame_sys_def one_frame_set three_bytes SKW_TX_PACK_SIZE_def r_into_rtranclp)

theorem tx_ring_is_queue_witness: "in_ring one_frame_sys = [[1, 2, 3, 0]] \<and> skw_vring_pending_count one_frame = 1"
proof -
  have q: "rs_in one_frame_sys = rs_out one_frame_sys @ in_ring one_frame_sys"
    "length (in_ring one_frame_sys) = skw_vring_pending_count (rs_ring one_frame_sys)"
    using tx_ring_is_queue [OF one_frame_reachable] by (simp_all add: blank_page_def)
  have "in_ring one_frame_sys = [[1, 2, 3, 0]]" using q(1) by (simp add: one_frame_sys_def)
  with q(2) show ?thesis by (simp add: one_frame_sys_def)
qed

section \<open>The worker that empties the ring\<close>

lemma sdio_write_spec:
  assumes ok: "ring_ok r" and w: "skw_sdio_write tx eof limit r = (ret, bs, r1)" and n: "used_slots r \<noteq> 0"
  defines "k \<equiv> min (used_slots r) limit"
  shows "ring_ok r1 \<and> bs = frames r 0 k \<and> used_slots r1 = used_slots r - k \<and>
    frames r1 0 (used_slots r1) = frames r k (used_slots r)"
proof -
  let ?s = "\<lparr>rs_ring = r, rs_flight = None, rs_in = frames r 0 (used_slots r), rs_out = []\<rparr>"
  have inv: "ring_inv ?s" using ok by (simp add: ring_inv_def in_ring_def taken_def)
  have "vring_has_pending r" using has_pending ok n by (simp add: ring_ok_def)
  then obtain u sgl r2 where b: "sdio_write_begin limit r = Some (u, sgl, r2)"
    by (cases "sdio_write_begin limit r") (auto simp: sdio_write_begin_def)
  have w': "bs = transfer_bytes sgl r2" "r1 = sdio_write_end u r2" using w b by (auto simp: skw_sdio_write_def Let_def)
  note B = begin_inv [OF inv, of limit u sgl r2]
  let ?s2 = "?s\<lparr>rs_ring := r2, rs_flight := Some (sgl, u)\<rparr>"
  have i2: "ring_inv ?s2" and len: "length sgl = k" using B b by (simp_all add: k_def)
  have F: "ring_inv (?s2\<lparr>rs_ring := r1, rs_flight := None, rs_out := bs\<rparr>)" "used_slots r1 = used_slots r2 - k"
    using finish_inv [OF i2, of sgl u] w' len by auto
  have k: "k \<le> used_slots r" by (simp add: k_def)
  have slots: "used_slots r2 = used_slots r"
  proof -
    have "write_loop limit (avail_idx r) (used_idx r + of_nat 0) [] r = (u, sgl, r2)"
      using b by (simp add: sdio_write_begin_def split: if_splits)
    from write_loop_spec [OF ok _ _ this refl] show ?thesis by (simp add: used_slots_def)
  qed
  have split: "frames r 0 (used_slots r) = frames r 0 k @ frames r k (used_slots r)"
    using upt_add_eq_append [of 0 k "used_slots r - k"] k by (simp add: frames_def flip: map_append)
  have eq: "frames r 0 (used_slots r) = bs @ frames r1 0 (used_slots r1)"
    using F(1) by (simp add: ring_inv_def in_ring_def taken_def)
  have "length bs = k" using len w' by (simp add: transfer_bytes_def)
  then have "bs = frames r 0 k \<and> frames r1 0 (used_slots r1) = frames r k (used_slots r)"
    using eq split by (simp add: frames_def append_eq_append_conv)
  then show ?thesis using F slots by (simp add: ring_inv_def)
qed

text \<open>One round of the worker: a batch leaves the front of the ring, and the ring gets shorter.\<close>

lemma dy_round_spec:
  assumes ok: "ring_ok (dy_ring s)" and n: "used_slots (dy_ring s) \<noteq> 0" and c: "0 < skw_get_hw_credit ign (dy_credit s)"
    and p: "0 < pkt_limit" and s1: "s1 = dy_round tx eof pkt_limit ign s"
  shows "ring_ok (dy_ring s1) \<and> used_slots (dy_ring s1) < used_slots (dy_ring s) \<and>
    dy_sent s1 @ frames (dy_ring s1) 0 (used_slots (dy_ring s1)) = dy_sent s @ frames (dy_ring s) 0 (used_slots (dy_ring s)) \<and>
    (ign \<or> 0 \<le> dy_credit s1)"
proof -
  let ?r = "dy_ring s"
  define k where "k = min (min (int (used_slots ?r)) (skw_get_hw_credit ign (dy_credit s))) pkt_limit"
  have u: "used_slots ?r \<le> 127" using ok by (simp add: ring_ok_def)
  have k: "0 < k" "k \<le> int (used_slots ?r)" "k < 65536" using n c p u by (auto simp: k_def)
  have pc: "skw_vring_pending_count ?r = used_slots ?r" using pending_used [OF u] by (simp add: ring_counts)
  obtain ret bs r1 where w: "skw_sdio_write tx eof (nat (k mod 65536)) ?r = (ret, bs, r1)" by (metis prod_cases3)
  have m: "min (used_slots ?r) (nat (k mod 65536)) = nat k" using k by auto
  note W = sdio_write_spec [OF ok w n, unfolded m]
  have s1': "s1 =
      \<lparr>dy_ring = r1, dy_credit = (if ret = 0 then dy_credit s - k else dy_credit s), dy_sent = dy_sent s @ bs\<rparr>"
    using w by (simp add: s1 dy_round_def pc k_def [symmetric] Let_def)
  have split: "frames ?r 0 (used_slots ?r) = frames ?r 0 (nat k) @ frames ?r (nat k) (used_slots ?r)"
    using upt_add_eq_append [of 0 "nat k" "used_slots ?r - nat k"] k by (simp add: frames_def flip: map_append)
  have "\<not> ign \<Longrightarrow> k \<le> dy_credit s" by (simp add: k_def skw_get_hw_credit_def)
  then have "ign \<or> k \<le> dy_credit s \<and> 0 \<le> dy_credit s" using k(1) by linarith
  then show ?thesis unfolding s1' using W k split by auto
qed

lemma dy_worker_spec:
  assumes p: "0 < pkt_limit" and "ring_ok (dy_ring s)" "ign \<or> 0 \<le> dy_credit s"
  shows "\<exists>s1. skw_dy_worker tx eof pkt_limit ign stop n s = Some s1 \<and> ring_ok (dy_ring s1) \<and>
    dy_sent s1 @ frames (dy_ring s1) 0 (used_slots (dy_ring s1)) = dy_sent s @ frames (dy_ring s) 0 (used_slots (dy_ring s)) \<and>
    ((\<forall>m. \<not> stop m) \<longrightarrow> used_slots (dy_ring s1) = 0 \<or> skw_get_hw_credit ign (dy_credit s1) = 0) \<and>
    (ign \<or> 0 \<le> dy_credit s1)"
  using assms(2,3)
proof (induction "used_slots (dy_ring s)" arbitrary: s n rule: less_induct)
  case less
  have pc: "skw_vring_pending_count (dy_ring s) = used_slots (dy_ring s)"
    using pending_used [of "dy_ring s"] less.prems(1) by (simp add: ring_counts ring_ok_def)
  show ?case
  proof (cases "stop n \<or> skw_get_hw_credit ign (dy_credit s) = 0 \<or> used_slots (dy_ring s) = 0")
    case True
    then show ?thesis using less.prems pc by (subst skw_dy_worker.simps) auto
  next
    case False
    let ?s = "dy_round tx eof pkt_limit ign s"
    have c: "0 < skw_get_hw_credit ign (dy_credit s)" using False less.prems(2) by (auto simp: skw_get_hw_credit_def)
    have r: "used_slots (dy_ring ?s) < used_slots (dy_ring s)" "ring_ok (dy_ring ?s)" "ign \<or> 0 \<le> dy_credit ?s"
      "dy_sent ?s @ frames (dy_ring ?s) 0 (used_slots (dy_ring ?s)) = dy_sent s @ frames (dy_ring s) 0 (used_slots (dy_ring s))"
      using dy_round_spec [OF less.prems(1) _ c p refl, of tx eof] False by auto
    have "skw_dy_worker tx eof pkt_limit ign stop n s = skw_dy_worker tx eof pkt_limit ign stop (Suc n) ?s"
      using False pc by (subst skw_dy_worker.simps) simp
    then show ?thesis using less.hyps [OF r(1-3), of "Suc n"] unfolding r(4) by simp
  qed
qed

text \<open>
  C10. The worker that empties the ring always comes to an end, whatever the bus answers to the
  transfers, provided the hardware takes at least one packet at a time. It has then handed over
  a prefix of the frames of the ring, in order and none twice, the rest is still in the ring; and
  unless the driver shut down, it stopped because the ring is empty or the credits are used up.
  Credits never become negative.
\<close>

theorem dy_worker_terminates:
  assumes "0 < pkt_limit" "ring_ok (dy_ring s)" "ign \<or> 0 \<le> dy_credit s"
  shows "\<exists>s1. skw_dy_worker tx eof pkt_limit ign stop n s = Some s1 \<and>
    dy_sent s1 @ frames (dy_ring s1) 0 (used_slots (dy_ring s1)) = dy_sent s @ frames (dy_ring s) 0 (used_slots (dy_ring s)) \<and>
    ((\<forall>m. \<not> stop m) \<longrightarrow> used_slots (dy_ring s1) = 0 \<or> skw_get_hw_credit ign (dy_credit s1) = 0) \<and>
    (ign \<or> 0 \<le> dy_credit s1)"
  using dy_worker_spec [OF assms, of tx eof stop n] by blast

theorem dy_worker_terminates_witness:
  "\<exists>s1. skw_dy_worker (\<lambda>_ _. 0) [0] 8 False (\<lambda>_. False) 0 \<lparr>dy_ring = one_frame, dy_credit = 5, dy_sent = []\<rparr> = Some s1 \<and>
     dy_sent s1 @ frames (dy_ring s1) 0 (used_slots (dy_ring s1)) = [[1, 2, 3, 0]]"
proof -
  have inv: "ring_inv one_frame_sys" by (rule reachable_ring_inv [OF one_frame_reachable]) (simp add: blank_page_def)
  then have "frames one_frame 0 (used_slots one_frame) = [[1, 2, 3, 0]]"
    by (simp add: ring_inv_def one_frame_sys_def in_ring_def taken_def)
  moreover have "ring_ok one_frame" using inv by (simp add: ring_inv_def one_frame_sys_def)
  ultimately show ?thesis
    using dy_worker_terminates [of 8 "\<lparr>dy_ring = one_frame, dy_credit = 5, dy_sent = []\<rparr>" False "\<lambda>_ _. 0" "[0]" "\<lambda>_. False" 0] by auto
qed

section \<open>Behaviour worth knowing\<close>

text \<open>When the bus refuses a transfer, its frames are gone all the same: the ring moves on.\<close>

lemma refused_transfer_lost:
  assumes "ring_ok r" "used_slots r \<noteq> 0" "skw_sdio_write (\<lambda>_ _. - 5) eof 127 r = (ret, bs, r1)"
  shows "used_slots r1 = 0 \<and> bs = frames r 0 (used_slots r)"
  using sdio_write_spec [OF assms(1,3,2)] assms(1) by (simp add: ring_ok_def min_absorb1)

end
