(* ===== verification/Skw_Tx_Props.thy ===== *)
theory Skw_Tx_Props
  imports Skw_Tx Skw_Vring_Props
begin

text \<open>
  The transmit scheduler keeps every frame: a frame that waits is afterwards waiting, freed or in the
  ring. The ring takes every frame that is handed to it, because the scheduler stops while there is room.
\<close>

section \<open>Acknowledgements\<close>

lemma merge_inner_mset:
  "merge_inner b i (ackq, txq, freed) = (a, t, f) \<Longrightarrow>
     mset a + mset t + mset f = mset ackq + mset txq + mset freed"
proof (induction b i "(ackq, txq, freed)" arbitrary: ackq txq freed rule: merge_inner.induct)
  case (1 b i ackq txq freed)
  show ?case
  proof (cases "i < length ackq")
    case True
    then obtain x rest where "ackq = x # rest" by (cases ackq) auto
    then show ?thesis using 1 True
      by (subst (asm) (4) merge_inner.simps) (fastforce simp: Let_def ac_simps split: if_splits)
  next
    case False
    then show ?thesis using "1.prems" by (simp add: merge_inner.simps)
  qed
qed

lemma merge_acks_mset: "merge_acks (ackq, txq, freed) = (t, f) \<Longrightarrow> mset t + mset f = mset ackq + mset txq + mset freed"
proof (induction "(ackq, txq, freed)" arbitrary: ackq txq freed rule: merge_acks.induct)
  case (1 ackq txq freed)
  show ?case
  proof (cases "ackq = []")
    case True
    then show ?thesis using "1.prems" by (simp add: merge_acks.simps)
  next
    case False
    obtain a t1 f1 where i: "merge_inner (last ackq) 0 (butlast ackq, txq, freed) = (a, t1, f1)" by (metis prod_cases3)
    have "mset ackq = mset (butlast ackq) + {#last ackq#}" using False
      by (metis append_butlast_last_id mset.simps mset_append add_mset_add_single empty_neutral(1))
    then show ?thesis using "1.hyps" [OF False i [symmetric] refl] "1.prems" merge_inner_mset [OF i] False i
      by (subst (asm) (2) merge_acks.simps) (auto simp: ac_simps)
  qed
qed

text \<open>A TCP header is never both without options and equal to the flag: its length field is part of that word.\<close>

lemma never_mergeable: "\<not> mergeable b"
proof -
  have "drop_bit 28 TCP_FLAG_ACK = 0" by (simp add: TCP_FLAG_ACK_def drop_bit_eq_div)
  then show ?thesis by (auto simp: mergeable_def tcp_optlen_def)
qed

section \<open>Where the frames are\<close>

abbreviation mcat :: "'a list list \<Rightarrow> 'a multiset" where
  "mcat qs \<equiv> mset (concat qs)"

lemma mcat_update: "k < length qs \<Longrightarrow> mcat (qs[k := q]) + mset (qs ! k) = mcat qs + mset q"
  by (induction qs arbitrary: k) (auto simp: ac_simps split: nat.splits)

lemma mset_move:
  fixes A :: "'a multiset"
  assumes "A + X = T" "B + Y = C + c" "c + fr = X + Y"
  shows "A + B + fr = T + C"
proof -
  have "A + B + fr + Y = A + (B + Y) + fr" by (simp add: ac_simps)
  also have "\<dots> = A + C + (c + fr)" unfolding assms(2) by (simp add: ac_simps)
  also have "\<dots> = (A + X) + C + Y" unfolding assms(3) by (simp add: ac_simps)
  finally show ?thesis unfolding assms(1) by simp
qed

lemma mset_add4: "A + B = C + D \<Longrightarrow> A1 + B1 = C1 + D1 \<Longrightarrow> (A + A1) + (B + B1) = (C + C1) + (D + D1 :: 'a multiset)"
  by (metis (no_types, lifting) add.assoc add.left_commute)

lemma mset_swap:
  fixes S :: "'a multiset"
  assumes "S1 + L = S + L1" "L1 + fr = L"
  shows "S1 + fr = S"
proof -
  have "S1 + fr + L = S + (L1 + fr)" using assms(1) by (simp add: ac_simps)
  then show ?thesis unfolding assms(2) by simp
qed

definition iface_load :: "tx_iface \<Rightarrow> tx_skb multiset" where
  "iface_load f = mcat (ti_txq f) + mcat (ti_cache f)"

definition iface_ok :: "nat \<Rightarrow> tx_iface \<Rightarrow> bool" where
  "iface_ok nr f \<longleftrightarrow> length (ti_txq f) = 5 \<and> length (ti_cache f) = 5 \<and> ti_lmac f < nr"

lemma iface_ok_update [simp]:
  "iface_ok nr (f\<lparr>ti_txq := (ti_txq f)[k := q]\<rparr>) = iface_ok nr f" "iface_ok nr (f\<lparr>ti_cache := (ti_cache f)[k := q]\<rparr>) = iface_ok nr f"
  "iface_ok nr (f\<lparr>ti_stopped := x\<rparr>) = iface_ok nr f"
  by (simp_all add: iface_ok_def)

text \<open>The three moves of an interface's frames.\<close>

lemma load_merge:
  assumes "iface_ok nr f" "ac < 4" "skw_merge_pure_ack (ti_txq f ! SKW_ACK_TXQ) (ti_cache f ! ac) = (c, fr)"
  shows "iface_load (f\<lparr>ti_txq := (ti_txq f)[SKW_ACK_TXQ := []], ti_cache := (ti_cache f)[ac := c]\<rparr>) + mset fr = iface_load f"
proof -
  have "mset c + mset fr = mset (ti_txq f ! SKW_ACK_TXQ) + mset (ti_cache f ! ac)"
    using merge_acks_mset assms(3) by (fastforce simp: skw_merge_pure_ack_def)
  moreover have "mcat ((ti_txq f)[SKW_ACK_TXQ := []]) + mset (ti_txq f ! SKW_ACK_TXQ) = mcat (ti_txq f)"
    using mcat_update [of SKW_ACK_TXQ "ti_txq f" "[]"] assms(1) by (simp add: iface_ok_def SKW_ACK_TXQ_def)
  moreover have "mcat ((ti_cache f)[ac := c]) + mset (ti_cache f ! ac) = mcat (ti_cache f) + mset c"
    using assms(1,2) by (intro mcat_update) (simp add: iface_ok_def)
  ultimately have "mcat ((ti_txq f)[SKW_ACK_TXQ := []]) + mcat ((ti_cache f)[ac := c]) + mset fr = mcat (ti_txq f) + mcat (ti_cache f)"
    by (intro mset_move) assumption+
  then show ?thesis by (simp add: iface_load_def)
qed

lemma load_splice:
  assumes "iface_ok nr f" "ac < 4"
  shows "iface_load (f\<lparr>ti_txq := (ti_txq f)[ac := []], ti_cache := (ti_cache f)[ac := ti_cache f ! ac @ ti_txq f ! ac]\<rparr>) = iface_load f"
proof -
  have "mcat ((ti_txq f)[ac := []]) + mset (ti_txq f ! ac) = mcat (ti_txq f)"
    using mcat_update [of ac "ti_txq f" "[]"] assms by (simp add: iface_ok_def)
  moreover have "mcat ((ti_cache f)[ac := ti_cache f ! ac @ ti_txq f ! ac]) = mcat (ti_cache f) + mset (ti_txq f ! ac)"
    using mcat_update [of ac "ti_cache f" "ti_cache f ! ac @ ti_txq f ! ac"] assms by (simp add: iface_ok_def ac_simps)
  ultimately show ?thesis by (simp add: iface_load_def ac_simps)
qed

lemma load_flush:
  assumes "iface_ok nr f" "ac < 4"
  shows "iface_load (f\<lparr>ti_cache := (ti_cache f)[ac := []]\<rparr>) + mset (ti_cache f ! ac) = iface_load f"
  using mcat_update [of ac "ti_cache f" "[]"] assms by (simp add: iface_load_def iface_ok_def add.assoc)

lemma iface_collect_load:
  assumes ok: "iface_ok nr f" "ac < 4" and c: "iface_collect ac f = (f1, fr)"
  shows "iface_ok nr f1 \<and> ti_lmac f1 = ti_lmac f \<and> iface_load f1 + mset fr = iface_load f"
proof -
  define g1 fr1 where "g1 = (if ac = SKW_WMM_AC_BE \<and> ti_txq f ! SKW_ACK_TXQ \<noteq> []
      then f\<lparr>ti_txq := (ti_txq f)[SKW_ACK_TXQ := []], ti_cache := (ti_cache f)[ac := fst (skw_merge_pure_ack (ti_txq f ! SKW_ACK_TXQ) (ti_cache f ! ac))]\<rparr>
      else f)" and "fr1 = (if ac = SKW_WMM_AC_BE \<and> ti_txq f ! SKW_ACK_TXQ \<noteq> []
      then snd (skw_merge_pure_ack (ti_txq f ! SKW_ACK_TXQ) (ti_cache f ! ac)) else [])"
  define g2 where "g2 = g1\<lparr>ti_txq := (ti_txq g1)[ac := []], ti_cache := (ti_cache g1)[ac := ti_cache g1 ! ac @ ti_txq g1 ! ac]\<rparr>"
  define g3 where "g3 = (if ti_deauth g2 then g2\<lparr>ti_cache := (ti_cache g2)[ac := []]\<rparr> else g2)"
  define fr2 where "fr2 = (if ti_deauth g2 then ti_cache g2 ! ac else [])"
  have 1: "iface_ok nr g1" "iface_load g1 + mset fr1 = iface_load f" "ti_lmac g1 = ti_lmac f"
    using ok load_merge [OF ok, of "fst (skw_merge_pure_ack (ti_txq f ! SKW_ACK_TXQ) (ti_cache f ! ac))"
      "snd (skw_merge_pure_ack (ti_txq f ! SKW_ACK_TXQ) (ti_cache f ! ac))"]
    by (auto simp: g1_def fr1_def iface_ok_def)
  have 2: "iface_ok nr g2" "iface_load g2 = iface_load g1" "ti_lmac g2 = ti_lmac g1"
    using 1(1) load_splice [OF 1(1) ok(2)] by (simp_all add: g2_def iface_ok_def)
  have 3: "iface_ok nr g3" "iface_load g3 + mset fr2 = iface_load g2" "ti_lmac g3 = ti_lmac g2"
    using 2(1) load_flush [OF 2(1) ok(2)] by (simp_all add: g3_def fr2_def)
  have "f1 = (if length (ti_cache g3 ! ac) < SKW_TXQ_LOW_THRESHOLD \<and> ti_stopped g3 ! ac
      then g3\<lparr>ti_stopped := (ti_stopped g3)[ac := False]\<rparr> else g3)" "fr = fr1 @ fr2"
    using c by (auto simp: iface_collect_def Let_def g1_def g2_def g3_def fr1_def fr2_def split: if_splits prod.splits)
  then show ?thesis using 1 2 3 by (auto simp: iface_load_def add.assoc add.commute add.left_commute)
qed

section \<open>The loop over the slots\<close>

definition picks :: "slot_state \<Rightarrow> tx_skb multiset" where
  "picks s = mcat (ss_caches s) + mset (tl_list (ss_lmac s)) + mset (ss_freed s)"

text \<open>Caches only lose frames from the front.\<close>

definition shrunk :: "'a list list \<Rightarrow> 'a list list \<Rightarrow> bool" where
  "shrunk qs qs1 \<longleftrightarrow> length qs1 = length qs \<and> (\<forall>k < length qs. \<exists>n. qs1 ! k = drop n (qs ! k))"

lemma shrunk_refl [simp]: "shrunk qs qs"
  unfolding shrunk_def by (auto intro!: exI [of _ 0])

lemma shrunk_trans: "shrunk qs qs1 \<Longrightarrow> shrunk qs1 qs2 \<Longrightarrow> shrunk qs qs2"
  unfolding shrunk_def by (metis drop_drop)

lemma shrunk_pop: "qs ! k = b # rest \<Longrightarrow> shrunk qs (qs[k := rest])"
proof -
  assume k: "qs ! k = b # rest"
  have "\<exists>n. qs[k := rest] ! j = drop n (qs ! j)" if "j < length qs" for j
    using that k by (cases "j = k") (auto intro: exI [of _ 1] exI [of _ 0])
  then show ?thesis by (simp add: shrunk_def)
qed

lemma mcat_pop: "k < length qs \<Longrightarrow> qs ! k = b # rest \<Longrightarrow> mcat qs = add_mset b (mcat (qs[k := rest]))"
  using mcat_update [of k qs rest] by simp

lemma slot_step_keeps:
  assumes "slot_step sdio avail base i s = (go, s1)"
  shows "picks s1 = picks s \<and> shrunk (ss_caches s) (ss_caches s1) \<and>
    int (length (tl_list (ss_lmac s1))) + tl_cred (ss_lmac s1) = int (length (tl_list (ss_lmac s))) + tl_cred (ss_lmac s) \<and>
    (sdio \<longrightarrow> length (tl_list (ss_lmac s1)) \<le> max (length (tl_list (ss_lmac s))) (avail - 1)) \<and>
    (0 \<le> tl_cred (ss_lmac s) \<longrightarrow> 0 \<le> tl_cred (ss_lmac s1))"
  using assms
proof (cases rule: slot_step_cases)
  case (free k b rest)
  then show ?thesis using mcat_pop [of k "ss_caches s" b rest] by (simp add: picks_def shrunk_pop)
next
  case (pick k b rest)
  then show ?thesis using mcat_pop [of k "ss_caches s" b rest] by (auto simp: picks_def shrunk_pop skw_vring_check_def)
qed (simp_all add: picks_def)

lemma slot_loop_keeps:
  "let s1 = slot_loop sdio avail base i s in
    picks s1 = picks s \<and> shrunk (ss_caches s) (ss_caches s1) \<and>
    int (length (tl_list (ss_lmac s1))) + tl_cred (ss_lmac s1) = int (length (tl_list (ss_lmac s))) + tl_cred (ss_lmac s) \<and>
    (sdio \<longrightarrow> length (tl_list (ss_lmac s1)) \<le> max (length (tl_list (ss_lmac s))) (avail - 1)) \<and>
    (0 \<le> tl_cred (ss_lmac s) \<longrightarrow> 0 \<le> tl_cred (ss_lmac s1))"
proof (induction sdio avail base i s rule: slot_loop.induct)
  case (1 sdio avail base i s)
  show ?case
  proof (cases "next_on i (ss_lmac s)")
    case None
    then show ?thesis by (simp add: slot_loop.simps Let_def)
  next
    case (Some j)
    obtain go s1 where st: "slot_step sdio avail base j s = (go, s1)" by force
    note K = slot_step_keeps [OF st]
    show ?thesis
    proof (cases go)
      case True
      have "slot_loop sdio avail base i s = slot_loop sdio avail base (j + 1) s1"
        using Some st True by (subst slot_loop.simps) simp
      with "1.IH" [OF Some st [symmetric] True] K show ?thesis
        by (auto simp: Let_def intro: shrunk_trans)
    next
      case False
      then have "slot_loop sdio avail base i s = s1" using Some st by (subst slot_loop.simps) simp
      with K show ?thesis by simp
    qed
  qed
qed

section \<open>Frames enter the ring\<close>

definition fits :: "tx_hw \<Rightarrow> tx_skb \<Rightarrow> bool" where
  "fits hw b \<longleftrightarrow> round_up (4 + length (tk_bytes b)) (hw_align hw) mod 65536 \<le> SKW_TX_PACK_SIZE"

lemma aligned_frame: "fits hw b \<Longrightarrow> aligned_len (hw_align hw) (frame_with_header hw lport b) \<le> 1536"
  by (simp add: fits_def aligned_len_def frame_with_header_def hdr_bytes_def Let_def SKW_TX_PACK_SIZE_def)

lemma xmit_one_keeps:
  assumes "ring_ok (tr_ring r)" "used_slots (tr_ring r) < 127" "fits hw b"
  shows "ring_ok (tr_ring (xmit_one hw beyond b r)) \<and> used_slots (tr_ring (xmit_one hw beyond b r)) = used_slots (tr_ring r) + 1 \<and>
    tr_sent (xmit_one hw beyond b r) = tr_sent r @ [b] \<and> tr_lost (xmit_one hw beyond b r) = tr_lost r \<and>
    tr_credit (xmit_one hw beyond b r) = tr_credit r \<and> tr_active (xmit_one hw beyond b r) = tr_active r"
proof -
  obtain ret ring where v: "skw_vring_set (hw_align hw) beyond (frame_with_header hw (tr_lport r) b) (tr_ring r) = (ret, ring)" by force
  show ?thesis using set_cases [OF assms(1) v aligned_frame [OF assms(3)]] assms(2) v by (simp add: xmit_one_def)
qed

lemma sdio_xmit_keeps:
  assumes "ring_ok (tr_ring r)" "used_slots (tr_ring r) + length l \<le> 127" "\<forall>b \<in> set l. fits hw b"
  shows "ring_ok (tr_ring (skw_sdio_xmit hw beyond l r)) \<and> tr_sent (skw_sdio_xmit hw beyond l r) = tr_sent r @ l \<and>
    tr_lost (skw_sdio_xmit hw beyond l r) = tr_lost r \<and> tr_credit (skw_sdio_xmit hw beyond l r) = tr_credit r"
  using assms unfolding skw_sdio_xmit_def
proof (induction l arbitrary: r)
  case (Cons b l)
  then show ?case using xmit_one_keeps [of r hw b beyond] by simp
qed simp

section \<open>The whole state\<close>

definition opt_load :: "tx_iface option \<Rightarrow> tx_skb multiset" where
  "opt_load f = (case f of None \<Rightarrow> {#} | Some f \<Rightarrow> iface_load f)"

text \<open>The frames that wait, and all frames wherever they are.\<close>

definition queued :: "tx_core \<Rightarrow> tx_skb multiset" where
  "queued c = (\<Sum>f \<leftarrow> tc_ifaces c. opt_load f)"

definition in_rings :: "tx_core \<Rightarrow> tx_skb multiset" where
  "in_rings c = (\<Sum>r \<leftarrow> tc_radios c. mset (tr_sent r) + mset (tr_lost r))"

definition tx_load :: "tx_core \<Rightarrow> tx_skb multiset" where
  "tx_load c = queued c + mset (tc_freed c) + in_rings c"

definition core_ok :: "tx_hw \<Rightarrow> tx_core \<Rightarrow> bool" where
  "core_ok hw c \<longleftrightarrow> length (tc_ifaces c) = 4 \<and> length (tc_txl c) = 2 \<and> length (tc_radios c) \<le> 2 \<and>
     (\<forall>f \<in> set (tc_ifaces c). pred_option (iface_ok (length (tc_radios c))) f) \<and>
     (\<forall>l \<in> set (tc_txl c). tl_list l = []) \<and>
     (\<forall>r \<in> set (tc_radios c). ring_ok (tr_ring r) \<and> (hw_ignore_cred hw \<or> 0 \<le> tr_credit r) \<and> tr_lost r = []) \<and>
     (\<forall>b \<in># queued c. fits hw b)"

lemma sum_list_update_add:
  "k < length xs \<Longrightarrow> (\<Sum>x \<leftarrow> xs[k := y]. g x) + g (xs ! k) = (\<Sum>x \<leftarrow> xs. g x) + (g y :: 'b multiset)"
  by (induction xs arbitrary: k) (auto simp: ac_simps split: nat.splits)

lemma opt_load_in: "f \<in> set fs \<Longrightarrow> opt_load f \<subseteq># (\<Sum>f \<leftarrow> fs. opt_load f)"
  by (induction fs) (auto intro: subset_mset.order_trans)

text \<open>Collecting one interface's frames.\<close>

lemma prepare_iface_keeps:
  assumes ok: "core_ok hw (fst s)" and i: "i < 4" "ac < 4"
  shows "core_ok hw (fst (prepare_iface ac i s)) \<and> tx_load (fst (prepare_iface ac i s)) = tx_load (fst s) \<and>
    tc_radios (fst (prepare_iface ac i s)) = tc_radios (fst s)"
proof (cases "tc_ifaces (fst s) ! i")
  case None
  then show ?thesis using ok by (simp add: prepare_iface_def)
next
  case (Some f)
  let ?c = "fst s" and ?nr = "length (tc_radios (fst s))"
  obtain f1 fr where k: "iface_collect ac f = (f1, fr)" by force
  have len: "i < length (tc_ifaces ?c)" using ok i by (simp add: core_ok_def)
  have "Some f \<in> set (tc_ifaces ?c)" using Some len nth_mem by fastforce
  then have f: "iface_ok ?nr f" using ok by (fastforce simp: core_ok_def)
  note K = iface_collect_load [OF f i(2) k]
  define c1 where "c1 = ?c\<lparr>tc_ifaces := (tc_ifaces ?c)[i := Some f1], tc_freed := tc_freed ?c @ fr\<rparr>"
  have q: "queued c1 + mset fr = queued ?c"
  proof (rule mset_swap)
    show "queued c1 + iface_load f = queued ?c + iface_load f1"
      using sum_list_update_add [OF len, of opt_load "Some f1"] Some by (simp add: queued_def c1_def opt_load_def)
    show "iface_load f1 + mset fr = iface_load f" using K by blast
  qed
  then have load: "tx_load c1 = tx_load ?c" by (simp add: tx_load_def c1_def in_rings_def ac_simps)
  have "set_mset (queued c1) \<subseteq> set_mset (queued ?c)" unfolding q [symmetric] by simp
  then have ok1: "core_ok hw c1" using ok K
    by (auto simp: core_ok_def c1_def dest!: set_update_subset_insert [THEN subsetD])
  have "fst (prepare_iface ac i s) = (if ti_cache f1 ! ac = [] then c1
      else c1\<lparr>tc_txl := (tc_txl c1)[ti_lmac f1 := slot_assign ac i f1 (tc_txl c1 ! ti_lmac f1)]\<rparr>)"
    using Some k by (simp add: prepare_iface_def Let_def c1_def)
  moreover have "core_ok hw (c1\<lparr>tc_txl := (tc_txl c1)[m := slot_assign ac i f1 (tc_txl c1 ! m)]\<rparr>)" if "m < 2" for m
  proof -
    have "tl_list (slot_assign ac i f1 l) = tl_list l" for l by (simp add: slot_assign_def Let_def)
    moreover have "tl_list (tc_txl c1 ! m) = []" using ok1 that by (simp add: core_ok_def)
    ultimately have "\<forall>l \<in> set ((tc_txl c1)[m := slot_assign ac i f1 (tc_txl c1 ! m)]). tl_list l = []"
      using ok1 by (auto simp: core_ok_def dest!: set_update_subset_insert [THEN subsetD])
    then show ?thesis using ok1 by (simp add: core_ok_def queued_def)
  qed
  moreover have "ti_lmac f1 < 2" using K ok by (simp add: iface_ok_def core_ok_def)
  ultimately show ?thesis using ok1 load by (simp add: tx_load_def queued_def in_rings_def c1_def)
qed

lemma txq_prepare_keeps:
  assumes "core_ok hw c" "ac < 4" "skw_txq_prepare ac c = (c1, n)"
  shows "core_ok hw c1 \<and> tx_load c1 = tx_load c \<and> tc_radios c1 = tc_radios c"
proof -
  have "core_ok hw (fst (fold (prepare_iface ac) is s)) \<and> tx_load (fst (fold (prepare_iface ac) is s)) = tx_load (fst s) \<and>
      tc_radios (fst (fold (prepare_iface ac) is s)) = tc_radios (fst s)"
    if "core_ok hw (fst s)" "\<forall>i \<in> set is. i < 4" for "is" s
    using that by (induction "is" arbitrary: s) (simp_all add: prepare_iface_keeps [OF _ _ assms(2)])
  from this [of "(c, 0)" "[0..<4]"] show ?thesis using assms by (simp add: skw_txq_prepare_def)
qed

text \<open>Putting the caches back after the loop over the slots.\<close>

lemma put_caches_load:
  assumes "length qs = length fs" "\<forall>f \<in> set fs. pred_option (\<lambda>f. ac < length (ti_cache f)) f"
    and "\<forall>k < length fs. fs ! k = None \<longrightarrow> qs ! k = []"
  shows "(\<Sum>f \<leftarrow> map2 (\<lambda>f q. map_option (\<lambda>f. f\<lparr>ti_cache := (ti_cache f)[ac := q]\<rparr>) f) fs qs. opt_load f) +
      mcat (map (\<lambda>f. case f of None \<Rightarrow> [] | Some f \<Rightarrow> ti_cache f ! ac) fs) = (\<Sum>f \<leftarrow> fs. opt_load f) + mcat qs"
  using assms
proof (induction qs fs rule: list_induct2)
  case (Cons q qs f fs)
  let ?p = "map_option (\<lambda>f. f\<lparr>ti_cache := (ti_cache f)[ac := q]\<rparr>)"
  have IH: "(\<Sum>f \<leftarrow> map2 (\<lambda>f q. map_option (\<lambda>f. f\<lparr>ti_cache := (ti_cache f)[ac := q]\<rparr>) f) fs qs. opt_load f) +
      mcat (map (\<lambda>f. case f of None \<Rightarrow> [] | Some f \<Rightarrow> ti_cache f ! ac) fs) = (\<Sum>f \<leftarrow> fs. opt_load f) + mcat qs"
  proof (rule Cons.IH)
    show "\<forall>k < length fs. fs ! k = None \<longrightarrow> qs ! k = []" using Cons.prems(2) by fastforce
  qed (use Cons.prems(1) in simp)
  have "opt_load (?p f) + mset (case f of None \<Rightarrow> [] | Some f \<Rightarrow> ti_cache f ! ac) = opt_load f + mset q"
  proof (cases f)
    case None
    then show ?thesis using Cons.prems(2) by (auto simp: opt_load_def dest!: spec [of _ 0])
  next
    case (Some g)
    then show ?thesis using Cons.prems(1) mcat_update [of ac "ti_cache g" q]
      by (simp add: opt_load_def iface_load_def ac_simps)
  qed
  from mset_add4 [OF this IH] show ?case by (simp add: ac_simps)
qed simp

lemma caches_of_None: "k < length (tc_ifaces c) \<Longrightarrow> tc_ifaces c ! k = None \<Longrightarrow> caches_of ac c ! k = []"
  by (simp add: caches_of_def)

lemma put_caches_ok:
  assumes ok: "core_ok hw c" and ac: "ac < 4" and sh: "shrunk (caches_of ac c) qs"
  shows "queued (put_caches ac qs c) + mcat (caches_of ac c) = queued c + mcat qs \<and>
    length (tc_ifaces (put_caches ac qs c)) = 4 \<and>
    (\<forall>f \<in> set (tc_ifaces (put_caches ac qs c)). pred_option (iface_ok (length (tc_radios c))) f)"
proof -
  have len: "length qs = length (tc_ifaces c)" "length (tc_ifaces c) = 4" using sh ok by (auto simp: shrunk_def caches_of_def core_ok_def)
  have f: "\<forall>f \<in> set (tc_ifaces c). pred_option (iface_ok (length (tc_radios c))) f" using ok by (simp add: core_ok_def)
  then have cache: "\<forall>f \<in> set (tc_ifaces c). pred_option (\<lambda>f. ac < length (ti_cache f)) f"
    using ac by (auto simp: pred_option_def iface_ok_def)
  have none: "\<forall>k < length (tc_ifaces c). tc_ifaces c ! k = None \<longrightarrow> qs ! k = []"
    using sh caches_of_None [of _ c ac] by (fastforce simp: shrunk_def caches_of_def)
  have "queued (put_caches ac qs c) + mcat (caches_of ac c) = queued c + mcat qs"
    using put_caches_load [OF len(1) cache none] by (simp add: queued_def put_caches_def caches_of_def)
  moreover have "\<forall>f \<in> set (tc_ifaces (put_caches ac qs c)). pred_option (iface_ok (length (tc_radios c))) f"
    using f by (auto simp: put_caches_def set_zip option.pred_map dest!: nth_mem) (auto simp: pred_option_def)
  ultimately show ?thesis using len by (simp add: put_caches_def)
qed

lemma slot_base_list [simp]: "tl_list (snd (slot_base ac l)) = tl_list l" "tl_cred (snd (slot_base ac l)) = tl_cred l"
  by (auto simp: slot_base_def Let_def split: if_splits prod.splits)

lemma txl_update_ok:
  assumes "core_ok hw c" "tl_list l = []"
  shows "core_ok hw (c\<lparr>tc_txl := (tc_txl c)[m := l]\<rparr>)"
  using assms by (auto simp: core_ok_def queued_def dest!: set_update_subset_insert [THEN subsetD])

text \<open>The room in the ring is never exceeded.\<close>

lemma available_room: "ring_ok r \<Longrightarrow> skw_vring_available_count r = 128 - used_slots r"
  using pending_used [of r] by (simp add: ring_ok_def ring_counts)

lemma lmac_pass_keeps:
  assumes ok: "core_ok hw (fst s)" and ac: "ac < 4" and m: "m < length (tc_radios (fst s))"
    and c1_def: "c1 = fst (lmac_pass hw beyond ac m s)"
  shows "core_ok hw c1 \<and> tx_load c1 = tx_load (fst s) \<and> length (tc_radios c1) = length (tc_radios (fst s))"
proof -
  let ?c = "fst s"
  define l r credit where "l = tc_txl ?c ! m" and "r = tc_radios ?c ! m"
    and "credit = skw_get_hw_credit (hw_ignore_cred hw) (tr_credit (tc_radios ?c ! m))"
  have l: "tl_list l = []" using ok m by (simp add: core_ok_def l_def)
  have r: "ring_ok (tr_ring r)" "hw_ignore_cred hw \<or> 0 \<le> tr_credit r" "tr_lost r = []" using ok m by (auto simp: core_ok_def r_def)
  show ?thesis
  proof (cases "tl_map l = 0 \<or> credit = 0")
    case True
    then have "\<exists>l1. tl_list l1 = [] \<and> c1 = ?c\<lparr>tc_txl := (tc_txl ?c)[m := l1]\<rparr>"
      using l by (intro exI [of _ "if tl_map l = 0 then lmac_clear l else lmac_clear (l\<lparr>tl_cred := 0\<rparr>)"])
        (auto simp: c1_def lmac_pass_def Let_def l_def credit_def lmac_clear_def)
    then show ?thesis using txl_update_ok [OF ok] by (auto simp: tx_load_def queued_def in_rings_def)
  next
    case False
    obtain base l1 where b: "slot_base ac (l\<lparr>tl_cred := credit\<rparr>) = (base, l1)" by force
    define st where "st = slot_loop True (skw_vring_available_count (tr_ring r)) base 0
        \<lparr>ss_lmac = l1, ss_caches = caches_of ac ?c, ss_peers = tc_peers ?c, ss_freed = []\<rparr>"
    define c2 where "c2 = put_caches ac (ss_caches st) ?c"
    define r1 where "r1 = skw_sdio_xmit hw beyond (tl_list (ss_lmac st)) r"
    have l1: "tl_list l1 = []" using slot_base_list(1) [of ac "l\<lparr>tl_cred := credit\<rparr>"] b l by simp
    note K = slot_loop_keeps [of True "skw_vring_available_count (tr_ring r)" base 0
        "\<lparr>ss_lmac = l1, ss_caches = caches_of ac ?c, ss_peers = tc_peers ?c, ss_freed = []\<rparr>", folded st_def, unfolded Let_def]
    have p: "mcat (ss_caches st) + mset (tl_list (ss_lmac st)) + mset (ss_freed st) = mcat (caches_of ac ?c)"
      and sh: "shrunk (caches_of ac ?c) (ss_caches st)"
      and bound: "used_slots (tr_ring r) + length (tl_list (ss_lmac st)) \<le> 127"
      using K l1 available_room [OF r(1)] r(1) by (auto simp: picks_def ring_ok_def)
    note P = put_caches_ok [OF ok ac sh, folded c2_def]
    have q: "queued c2 + (mset (tl_list (ss_lmac st)) + mset (ss_freed st)) = queued ?c"
      using mset_swap [of "queued c2" "mcat (caches_of ac ?c)" "queued ?c" "mcat (ss_caches st)"] P p by (simp add: add.assoc)
    then have sub: "set_mset (queued c2) \<subseteq> set_mset (queued ?c)" "set (tl_list (ss_lmac st)) \<subseteq> set_mset (queued ?c)"
      by (auto simp flip: q)
    then have "\<forall>b \<in> set (tl_list (ss_lmac st)). fits hw b" using ok by (auto simp: core_ok_def)
    note X = sdio_xmit_keeps [OF r(1) bound this, of beyond, folded r1_def]
    define l2 where "l2 = lmac_clear ((ss_lmac st)\<lparr>tl_pending := tl_current (ss_lmac st) - credit + tl_cred (ss_lmac st), tl_list := [],
        tl_count_limit := max_tx_count_limit hw\<rparr>)"
    have c1: "c1 = c2\<lparr>tc_peers := ss_peers st, tc_freed := tc_freed ?c @ ss_freed st,
        tc_radios := (tc_radios ?c)[m := r1], tc_txl := (tc_txl ?c)[m := l2]\<rparr>"
      using False b unfolding l_def r_def credit_def st_def c2_def r1_def l2_def by (simp add: c1_def lmac_pass_def Let_def)
    have l2: "tl_list l2 = []" by (simp add: l2_def lmac_clear_def)
    have c2: "tc_radios c2 = tc_radios ?c" "tc_txl c2 = tc_txl ?c" by (simp_all add: c2_def put_caches_def)
    have rings: "(\<Sum>r \<leftarrow> (tc_radios ?c)[m := r1]. mset (tr_sent r) + mset (tr_lost r)) = in_rings ?c + mset (tl_list (ss_lmac st))"
      using sum_list_update_add [OF m, of "\<lambda>r. mset (tr_sent r) + mset (tr_lost r)" r1] X
      by (simp add: in_rings_def r_def [symmetric] ac_simps)
    have qc: "queued c1 = queued c2" by (simp add: c1 queued_def)
    have "in_rings c1 = in_rings ?c + mset (tl_list (ss_lmac st))" using rings by (simp add: c1 in_rings_def)
    moreover have "tc_freed c1 = tc_freed ?c @ ss_freed st" by (simp add: c1)
    ultimately have load: "tx_load c1 = tx_load ?c" by (simp add: tx_load_def qc ac_simps flip: q)
    have "\<forall>f \<in> set (tc_ifaces c1). pred_option (iface_ok (length (tc_radios c1))) f" "length (tc_ifaces c1) = 4"
      using P by (simp_all add: c1)
    moreover have "\<forall>x \<in> set (tc_txl c1). tl_list x = []" "length (tc_txl c1) = 2" "length (tc_radios c1) \<le> 2"
      using ok l2 by (auto simp: c1 core_ok_def dest!: set_update_subset_insert [THEN subsetD])
    moreover have "\<forall>x \<in> set (tc_radios c1). ring_ok (tr_ring x) \<and> (hw_ignore_cred hw \<or> 0 \<le> tr_credit x) \<and> tr_lost x = []"
      using ok X r by (auto simp: c1 core_ok_def dest!: set_update_subset_insert [THEN subsetD])
    moreover have "\<forall>b \<in># queued c1. fits hw b" using sub(1) ok unfolding qc by (auto simp: core_ok_def)
    ultimately show ?thesis using load by (simp add: core_ok_def c1)
  qed
qed

lemma lmac_passes_keep:
  assumes "core_ok hw (fst s)" "ac < 4" "\<forall>m \<in> set ms. m < length (tc_radios (fst s))"
  shows "core_ok hw (fst (fold (lmac_pass hw beyond ac) ms s)) \<and> tx_load (fst (fold (lmac_pass hw beyond ac) ms s)) = tx_load (fst s)"
  using assms
proof (induction ms arbitrary: s)
  case (Cons m ms)
  then show ?case using lmac_pass_keeps [of hw s ac m _ beyond, OF Cons.prems(1,2) _ refl] by simp
qed simp

lemma ac_loop_keeps:
  assumes "core_ok hw c" "\<forall>ac \<in> set acs. ac < 4"
  shows "core_ok hw (ac_loop hw beyond acs c) \<and> tx_load (ac_loop hw beyond acs c) = tx_load c"
  using assms
proof (induction acs arbitrary: c)
  case Nil
  then show ?case by (simp add: core_ok_def tx_load_def queued_def in_rings_def skw_reset_ac_def)
next
  case (Cons ac acs)
  obtain c1 n where p: "skw_txq_prepare ac c = (c1, n)" by force
  have ac: "ac < 4" and acs: "\<forall>ac \<in> set acs. ac < 4" using Cons.prems(2) by auto
  note P = txq_prepare_keeps [OF Cons.prems(1) ac p]
  obtain c2 capa where f: "fold (lmac_pass hw beyond ac) [0..<length (tc_radios c1)] (c1, False) = (c2, capa)" by force
  have F: "core_ok hw c2" "tx_load c2 = tx_load c1"
    using lmac_passes_keep [of hw "(c1, False)" ac "[0..<length (tc_radios c1)]" beyond] P ac f by auto
  show ?case using Cons.IH [OF _ acs] P F p f by simp
qed

lemma round_keeps:
  "core_ok hw c \<Longrightarrow> core_ok hw (tx_worker_round hw beyond c) \<and> tx_load (tx_worker_round hw beyond c) = tx_load c"
  unfolding tx_worker_round_def
  by (rule ac_loop_keeps) (simp_all add: SKW_WMM_AC_VO_def SKW_WMM_AC_VI_def SKW_WMM_AC_BE_def SKW_WMM_AC_BK_def)

section \<open>The transmit path as a machine\<close>

text \<open>
  What happens on the transmit path: the network stack queues a frame, the worker starts or runs a round,
  the second worker empties the ring of a radio, the firmware grants credits.
\<close>

datatype tx_event =
  TxQueue nat nat tx_skb | TxStart | TxRound "nat \<Rightarrow> u8" | TxDrain nat "u8 list list \<Rightarrow> nat \<Rightarrow> int" "u8 list" "nat \<Rightarrow> bool" | TxCredit nat nat

definition tx_queue :: "nat \<Rightarrow> nat \<Rightarrow> tx_skb \<Rightarrow> tx_core \<Rightarrow> tx_core" where
  "tx_queue i q b c =
     c\<lparr>tc_ifaces := (tc_ifaces c)[i := map_option (\<lambda>f. f\<lparr>ti_txq := (ti_txq f)[q := ti_txq f ! q @ [b]]\<rparr>) (tc_ifaces c ! i)]\<rparr>"

definition tx_drain :: "tx_hw \<Rightarrow> nat \<Rightarrow> (u8 list list \<Rightarrow> nat \<Rightarrow> int) \<Rightarrow> u8 list \<Rightarrow> (nat \<Rightarrow> bool) \<Rightarrow> tx_core \<Rightarrow> tx_core" where
  "tx_drain hw m tx eof stop c =
     (let r = tc_radios c ! m in
      case skw_dy_worker tx eof (hw_pkt_limit hw) (hw_ignore_cred hw) stop 0 \<lparr>dy_ring = tr_ring r, dy_credit = tr_credit r, dy_sent = []\<rparr> of
        None \<Rightarrow> c
      | Some s \<Rightarrow> c\<lparr>tc_radios := (tc_radios c)[m := r\<lparr>tr_ring := dy_ring s, tr_credit := dy_credit s\<rparr>]\<rparr>)"

definition skw_add_credit :: "nat \<Rightarrow> nat \<Rightarrow> tx_core \<Rightarrow> tx_core" where
  "skw_add_credit m n c = c\<lparr>tc_radios := (tc_radios c)[m := (tc_radios c ! m)\<lparr>tr_credit := tr_credit (tc_radios c ! m) + int n\<rparr>]\<rparr>"

primrec tx_step :: "tx_hw \<Rightarrow> tx_event \<Rightarrow> tx_core \<Rightarrow> tx_core" where
  "tx_step hw (TxQueue i q b) c = tx_queue i q b c"
| "tx_step hw TxStart c = tx_worker_start hw c"
| "tx_step hw (TxRound beyond) c = tx_worker_round hw beyond c"
| "tx_step hw (TxDrain m tx eof stop) c = tx_drain hw m tx eof stop c"
| "tx_step hw (TxCredit m n) c = skw_add_credit m n c"

text \<open>Frames are queued on interfaces that exist and fit a slot of the ring; radios are those of the hardware.\<close>

primrec tx_guard :: "tx_hw \<Rightarrow> tx_event \<Rightarrow> tx_core \<Rightarrow> bool" where
  "tx_guard hw (TxQueue i q b) c \<longleftrightarrow> i < 4 \<and> tc_ifaces c ! i \<noteq> None \<and> q < 5 \<and> fits hw b"
| "tx_guard hw TxStart c \<longleftrightarrow> True"
| "tx_guard hw (TxRound beyond) c \<longleftrightarrow> True"
| "tx_guard hw (TxDrain m tx eof stop) c \<longleftrightarrow> m < length (tc_radios c) \<and> 0 < hw_pkt_limit hw"
| "tx_guard hw (TxCredit m n) c \<longleftrightarrow> m < length (tc_radios c)"

primrec tx_input :: "tx_event \<Rightarrow> tx_skb multiset" where
  "tx_input (TxQueue i q b) = {#b#}"
| "tx_input TxStart = {#}"
| "tx_input (TxRound beyond) = {#}"
| "tx_input (TxDrain m tx eof stop) = {#}"
| "tx_input (TxCredit m n) = {#}"

lemma radio_update_keeps:
  assumes ok: "core_ok hw c" and m: "m < length (tc_radios c)" and ring: "ring_ok ring" "hw_ignore_cred hw \<or> 0 \<le> credit"
  defines "c1 \<equiv> c\<lparr>tc_radios := (tc_radios c)[m := (tc_radios c ! m)\<lparr>tr_ring := ring, tr_credit := credit\<rparr>]\<rparr>"
  shows "core_ok hw c1 \<and> tx_load c1 = tx_load c"
proof -
  have "in_rings c1 = in_rings c"
    using sum_list_update_add [OF m, of "\<lambda>r. mset (tr_sent r) + mset (tr_lost r)" "(tc_radios c ! m)\<lparr>tr_ring := ring, tr_credit := credit\<rparr>"]
    by (simp add: in_rings_def c1_def)
  moreover have "tr_lost (tc_radios c ! m) = []" using ok m by (simp add: core_ok_def)
  then have "core_ok hw c1" using ok ring
    by (auto simp: core_ok_def c1_def queued_def dest!: set_update_subset_insert [THEN subsetD])
  ultimately show ?thesis by (simp add: tx_load_def queued_def c1_def)
qed

lemma tx_queue_keeps:
  assumes ok: "core_ok hw c" and i: "i < 4" "tc_ifaces c ! i = Some f" and q: "q < 5" and b: "fits hw b"
  shows "core_ok hw (tx_queue i q b c) \<and> tx_load (tx_queue i q b c) = tx_load c + {#b#}"
proof -
  let ?f = "f\<lparr>ti_txq := (ti_txq f)[q := ti_txq f ! q @ [b]]\<rparr>"
  have len: "i < length (tc_ifaces c)" using ok i by (simp add: core_ok_def)
  then have f: "iface_ok (length (tc_radios c)) f" using ok i nth_mem [OF len] by (auto simp: core_ok_def)
  have c1: "tx_queue i q b c = c\<lparr>tc_ifaces := (tc_ifaces c)[i := Some ?f]\<rparr>" using i by (simp add: tx_queue_def)
  have "iface_load ?f = iface_load f + {#b#}"
    using mcat_update [of q "ti_txq f" "ti_txq f ! q @ [b]"] f q by (simp add: iface_load_def iface_ok_def)
  then have qd: "queued (tx_queue i q b c) = queued c + {#b#}"
    using sum_list_update_add [OF len, of opt_load "Some ?f"] i by (simp add: queued_def c1 opt_load_def)
  moreover have "core_ok hw (tx_queue i q b c)"
  proof -
    have "\<forall>b1 \<in># queued (tx_queue i q b c). fits hw b1" unfolding qd using ok b by (auto simp: core_ok_def)
    moreover have "\<forall>x \<in> set ((tc_ifaces c)[i := Some ?f]). pred_option (iface_ok (length (tc_radios c))) x"
      using ok f by (auto simp: core_ok_def dest!: set_update_subset_insert [THEN subsetD])
    ultimately show ?thesis using ok by (simp add: core_ok_def c1)
  qed
  ultimately show ?thesis by (simp add: tx_load_def c1 in_rings_def)
qed

lemma start_keeps: "core_ok hw c \<Longrightarrow> core_ok hw (tx_worker_start hw c) \<and> tx_load (tx_worker_start hw c) = tx_load c"
  by (simp add: core_ok_def tx_load_def queued_def in_rings_def tx_worker_start_def)

lemma drain_keeps:
  assumes ok: "core_ok hw c" and m: "m < length (tc_radios c)" and p: "0 < hw_pkt_limit hw"
  shows "core_ok hw (tx_drain hw m tx eof stop c) \<and> tx_load (tx_drain hw m tx eof stop c) = tx_load c"
proof -
  let ?s = "\<lparr>dy_ring = tr_ring (tc_radios c ! m), dy_credit = tr_credit (tc_radios c ! m), dy_sent = []\<rparr>"
  have "ring_ok (dy_ring ?s)" "hw_ignore_cred hw \<or> 0 \<le> dy_credit ?s" using ok m by (simp_all add: core_ok_def)
  from dy_worker_spec [OF p this, of tx eof stop 0] obtain s1
    where s1: "skw_dy_worker tx eof (hw_pkt_limit hw) (hw_ignore_cred hw) stop 0 ?s = Some s1"
      "ring_ok (dy_ring s1)" "hw_ignore_cred hw \<or> 0 \<le> dy_credit s1" by blast
  then show ?thesis using radio_update_keeps [OF ok m s1(2,3)] by (simp add: tx_drain_def)
qed

lemma credit_keeps:
  assumes ok: "core_ok hw c" and m: "m < length (tc_radios c)"
  shows "core_ok hw (skw_add_credit m n c) \<and> tx_load (skw_add_credit m n c) = tx_load c"
proof -
  let ?r = "tc_radios c ! m"
  have "ring_ok (tr_ring ?r)" "hw_ignore_cred hw \<or> 0 \<le> tr_credit ?r + int n" using ok nth_mem [OF m] by (force simp: core_ok_def)+
  from radio_update_keeps [OF ok m this] show ?thesis by (simp add: skw_add_credit_def)
qed

lemma tx_step_keeps:
  assumes "core_ok hw c" "tx_guard hw e c"
  shows "core_ok hw (tx_step hw e c) \<and> tx_load (tx_step hw e c) = tx_load c + tx_input e"
  using assms by (cases e) (auto simp: tx_queue_keeps start_keeps round_keeps drain_keeps credit_keeps)

interpretation tx_path: conserving_machine "tx_step hw" "core_ok hw" "tx_guard hw" tx_load tx_input
  by unfold_locales (simp_all add: tx_step_keeps)

lemma core_ok_lost: "core_ok hw c \<Longrightarrow> r \<in> set (tc_radios c) \<Longrightarrow> tr_lost r = []"
  by (simp add: core_ok_def)

text \<open>
  C8. Over any sequence of queueing frames, rounds of the scheduler, transfers and grants of credits,
  every frame that was queued is still waiting, was freed (a peer that is gone, or an
  acknowledgement that was merged), or was put into a ring, exactly once each. No ring ever refused
  a frame: the scheduler, which ignores the ring's answer, stops picking while a slot is left.
\<close>

theorem tx_path_conserves:
  assumes "core_ok hw c" "guarded_run (tx_guard hw) (tx_step hw) es c"
  defines "c1 \<equiv> fold (tx_step hw) es c"
  shows "queued c1 + mset (tc_freed c1) + (\<Sum>r \<leftarrow> tc_radios c1. mset (tr_sent r)) = tx_load c + (\<Sum>e \<leftarrow> es. tx_input e) \<and>
    (\<forall>r \<in> set (tc_radios c1). tr_lost r = [] \<and> used_slots (tr_ring r) \<le> 127)"
proof -
  have ok: "core_ok hw c1" unfolding c1_def by (rule tx_path.run_invar [OF assms(1,2)])
  then have lost: "\<forall>r \<in> set (tc_radios c1). tr_lost r = [] \<and> used_slots (tr_ring r) \<le> 127"
    by (simp add: core_ok_def ring_ok_def)
  then have "in_rings c1 = (\<Sum>r \<leftarrow> tc_radios c1. mset (tr_sent r))"
    unfolding in_rings_def by (intro arg_cong [where f = sum_list] map_cong) simp_all
  then show ?thesis using tx_path.run_load [OF assms(1,2), folded c1_def] lost by (simp add: tx_load_def)
qed

text \<open>A core with one radio and one interface, and a frame for it.\<close>

definition demo_tx_hw :: tx_hw where
  "demo_tx_hw = \<lparr>hw_align = 4, hw_pkt_limit = 16, hw_sdio1 = True, hw_ignore_cred = False, hw_chn_offset = 24,
     hw_len_offset = 0, hw_eof_offset = 16, hw_hdr_len = 4\<rparr>"

definition demo_frame :: tx_skb where
  "demo_frame = \<lparr>tk_bytes = [1, 2, 3], tk_peer_idx = 0, tk_unicast = True, tk_stream = (1, 2, 3, 4), tk_tcp_word = 0\<rparr>"

definition demo_tx_core :: tx_core where
  "demo_tx_core = tx_worker_start demo_tx_hw
     \<lparr>tc_ifaces = [Some \<lparr>ti_lmac = 0, ti_txq = replicate 5 [], ti_cache = replicate 5 [], ti_deauth = False,
                         ti_stopped = replicate 5 False, ti_factor = [0, 0, 0, 0]\<rparr>, None, None, None],
      tc_peers = [[None]], tc_txl = [],
      tc_radios = [\<lparr>tr_active = True, tr_credit = 8, tr_ring = skw_tx_vring_init blank_page, tr_lport = 2, tr_sent = [], tr_lost = []\<rparr>],
      tc_freed = []\<rparr>"

lemma init_ring_ok: "ring_ok (skw_tx_vring_init blank_page)"
  using ring_init_inv [of blank_page] by (simp add: ring_inv_def blank_page_def)

lemma demo_tx_ok: "core_ok demo_tx_hw demo_tx_core"
  using init_ring_ok
  by (simp add: core_ok_def demo_tx_core_def tx_worker_start_def demo_tx_hw_def iface_ok_def queued_def opt_load_def iface_load_def numeral_eq_Suc)

lemma demo_fits: "fits demo_tx_hw demo_frame"
  by (simp add: fits_def demo_tx_hw_def demo_frame_def round_up_def SKW_TX_PACK_SIZE_def)

theorem tx_path_conserves_witness:
  "let c1 = fold (tx_step demo_tx_hw) [TxQueue 0 2 demo_frame, TxRound (\<lambda>_. 0), TxStart] demo_tx_core in
     queued c1 + mset (tc_freed c1) + (\<Sum>r \<leftarrow> tc_radios c1. mset (tr_sent r)) = {#demo_frame#}"
proof -
  have g: "guarded_run (tx_guard demo_tx_hw) (tx_step demo_tx_hw) [TxQueue 0 2 demo_frame, TxRound (\<lambda>_. 0), TxStart] demo_tx_core"
    using demo_fits by (simp add: demo_tx_core_def tx_worker_start_def)
  have "tx_load demo_tx_core = {#}"
    by (simp add: tx_load_def demo_tx_core_def tx_worker_start_def queued_def in_rings_def opt_load_def iface_load_def numeral_eq_Suc)
  then show ?thesis using tx_path_conserves [OF demo_tx_ok g] by (simp add: Let_def)
qed

section \<open>Behaviour worth knowing\<close>

text \<open>Acknowledgements are never merged: the two tests exclude each other.\<close>

lemma no_ack_merged: "merge_inner b i (ackq, txq, freed) = (a, t, f) \<Longrightarrow> f = freed"
proof (induction b i "(ackq, txq, freed)" arbitrary: ackq txq freed rule: merge_inner.induct)
  case (1 b i ackq txq freed)
  show ?case
  proof (cases "i < length ackq")
    case True
    then show ?thesis using 1 by (subst (asm) (4) merge_inner.simps) (auto simp: Let_def never_mergeable split: if_splits)
  next
    case False
    then show ?thesis using "1.prems" by (simp add: merge_inner.simps)
  qed
qed

text \<open>
  And they change their order: the bound of the inner loop shrinks as it takes frames off, so five
  acknowledgements of one stream leave in the order 1, 2, 5, 3, 4.
\<close>

definition demo_ack :: "nat \<Rightarrow> tx_skb" where
  "demo_ack n = demo_frame\<lparr>tk_bytes := [of_nat n], tk_tcp_word := 0x50100000\<rparr>"

lemma demo_ack_fields [simp]: "is_skw_same_tcp_stream (demo_ack m) (demo_ack n)" "\<not> mergeable (demo_ack n)"
  by (simp_all add: is_skw_same_tcp_stream_def demo_ack_def never_mergeable)

lemma acks_reordered:
  "skw_merge_pure_ack [demo_ack 1, demo_ack 2, demo_ack 3, demo_ack 4, demo_ack 5] [] =
     ([demo_ack 1, demo_ack 2, demo_ack 5, demo_ack 3, demo_ack 4], [])"
  by (simp add: skw_merge_pure_ack_def merge_acks.simps merge_inner.simps)

text \<open>
  The number of pending frames of a radio is set when frames are scheduled for it and counts
  frames that were dropped; a round without frames leaves it alone. After a dropped frame the worker
  therefore turns round without work, and never returns, until another frame arrives.
\<close>

definition idle :: "tx_core \<Rightarrow> bool" where
  "idle c \<longleftrightarrow> length (tc_ifaces c) = 4 \<and>
     (\<forall>f. Some f \<in> set (tc_ifaces c) \<longrightarrow> length (ti_txq f) = 5 \<and> length (ti_cache f) = 5 \<and> concat (ti_txq f) = [] \<and> concat (ti_cache f) = [])"

lemma nth_all_empty: "concat qs = [] \<Longrightarrow> k < length qs \<Longrightarrow> qs ! k = []"
  by (simp add: concat_eq_Nil_conv)

lemma idle_collect:
  assumes "length (ti_txq f) = 5" "length (ti_cache f) = 5" "concat (ti_txq f) = []" "concat (ti_cache f) = []" "ac < 4"
    "iface_collect ac f = (f1, fr)"
  shows "fr = [] \<and> ti_txq f1 = ti_txq f \<and> ti_cache f1 = ti_cache f"
proof -
  have "ti_txq f ! ac = []" "ti_cache f ! ac = []" "ti_txq f ! SKW_ACK_TXQ = []"
    using assms by (simp_all add: nth_all_empty SKW_ACK_TXQ_def)
  then show ?thesis using assms(6) list_update_id [of "ti_txq f" ac] list_update_id [of "ti_cache f" ac]
    by (auto simp: iface_collect_def Let_def split: if_splits)
qed

lemma idle_prepare_iface:
  assumes "idle c" "i < 4" "ac < 4"
  shows "\<exists>c1. prepare_iface ac i (c, 0) = (c1, 0) \<and> idle c1 \<and> tc_txl c1 = tc_txl c \<and> tc_radios c1 = tc_radios c"
proof (cases "tc_ifaces c ! i")
  case None
  then show ?thesis using assms by (simp add: prepare_iface_def)
next
  case (Some f)
  obtain f1 fr where c: "iface_collect ac f = (f1, fr)" by force
  have f: "Some f \<in> set (tc_ifaces c)" using Some assms by (metis idle_def nth_mem)
  then have "length (ti_txq f) = 5" "length (ti_cache f) = 5" "concat (ti_txq f) = []" "concat (ti_cache f) = []"
    using assms(1) by (auto simp: idle_def)
  note I = this idle_collect [OF this assms(3) c]
  moreover have "ti_cache f ! ac = []" using I assms(3) by (intro nth_all_empty) simp_all
  moreover have "idle (c\<lparr>tc_ifaces := (tc_ifaces c)[i := Some f1], tc_freed := tc_freed c @ fr\<rparr>)"
    using assms(1) I unfolding idle_def by (auto dest!: set_update_subset_insert [THEN subsetD])
  ultimately show ?thesis using Some c by (simp add: prepare_iface_def Let_def)
qed

lemma idle_prepare:
  assumes "idle c" "ac < 4"
  shows "\<exists>c1. skw_txq_prepare ac c = (c1, 0) \<and> idle c1 \<and> tc_txl c1 = tc_txl c \<and> tc_radios c1 = tc_radios c"
proof -
  have "\<exists>c1. fold (prepare_iface ac) is (c, 0) = (c1, 0) \<and> idle c1 \<and> tc_txl c1 = tc_txl c \<and> tc_radios c1 = tc_radios c"
    if "\<forall>i \<in> set is. i < 4" for "is"
    using assms that
  proof (induction "is" arbitrary: c)
    case (Cons i "is")
    then show ?case using idle_prepare_iface [of c i ac] by fastforce
  qed simp
  then show ?thesis by (simp add: skw_txq_prepare_def)
qed

lemma idle_loop:
  assumes "idle c" "\<forall>ac \<in> set acs. ac < 4"
  shows "idle (ac_loop hw beyond acs c) \<and> tc_radios (ac_loop hw beyond acs c) = tc_radios c \<and>
    map tl_pending (tc_txl (ac_loop hw beyond acs c)) = map tl_pending (tc_txl c)"
  using assms
proof (induction acs arbitrary: c)
  case Nil
  then show ?case by (simp add: idle_def skw_reset_ac_def)
next
  case (Cons ac acs)
  then show ?case using idle_prepare [of c ac] by fastforce
qed

lemmas ac_defs = SKW_WMM_AC_VO_def SKW_WMM_AC_VI_def SKW_WMM_AC_BE_def SKW_WMM_AC_BK_def SKW_ACK_TXQ_def

lemma idle_round:
  assumes "idle c"
  shows "idle (tx_worker_round hw beyond c) \<and> tc_radios (tx_worker_round hw beyond c) = tc_radios c \<and>
    map tl_pending (tc_txl (tx_worker_round hw beyond c)) = map tl_pending (tc_txl c)"
  unfolding tx_worker_round_def by (rule idle_loop [OF assms]) (simp add: ac_defs)

lemma exit_check_pending:
  assumes "tc_radios c1 = tc_radios c" "map tl_pending (tc_txl c1) = map tl_pending (tc_txl c)"
  shows "skw_tx_exit_check cmd c1 = skw_tx_exit_check cmd c"
proof -
  have "list_ex (\<lambda>(r, l). tr_active r \<and> 0 < tl_pending l \<and> 1 < skw_vring_available_count (tr_ring r)) (zip (tc_radios c) ls) =
      list_ex (\<lambda>(r, p). tr_active r \<and> 0 < p \<and> 1 < skw_vring_available_count (tr_ring r)) (zip (tc_radios c) (map tl_pending ls))" for ls
    by (simp add: list_ex_iff zip_map2 case_prod_unfold)
  note pending = this
  show ?thesis unfolding skw_tx_exit_check_def assms(1) pending assms(2) by (rule refl)
qed

definition quiet :: "nat \<Rightarrow> tx_env" where
  "quiet n = \<lparr>te_exit = False, te_allowed = True, te_cmd = False\<rparr>"

lemma idle_worker_spins:
  assumes "idle c" "\<not> skw_tx_exit_check False c"
    "(\<Sum>r \<leftarrow> filter tr_active (tc_radios c). skw_get_hw_credit (hw_ignore_cred hw) (tr_credit r)) \<noteq> 0"
  shows "skw_tx_worker hw beyond wait quiet (\<lambda>_ c. c) n c = None"
proof -
  let ?spins = "\<lambda>hw c. idle c \<and> \<not> skw_tx_exit_check False c \<and>
      (\<Sum>r \<leftarrow> filter tr_active (tc_radios c). skw_get_hw_credit (hw_ignore_cred hw) (tr_credit r)) \<noteq> 0"
  have "env = quiet \<and> other = (\<lambda>_ c. c) \<longrightarrow> \<not> ?spins hw c" if "skw_tx_worker hw beyond wait env other n c = Some y" for env other y
    using that
  proof (rule skw_tx_worker.raw_induct [rotated], intro impI notI)
    fix f hw beyond wait env other n c y
    assume IH: "\<And>hw beyond wait env other n c y. f hw beyond wait env other n c = Some y \<Longrightarrow>
        env = quiet \<and> other = (\<lambda>_ c. c) \<longrightarrow> \<not> ?spins hw c"
      and e: "env = quiet \<and> other = (\<lambda>_ c. c)" and c: "?spins hw c"
      and r: "(if te_exit (env n) then Some c
      else case skw_tx_running_check (hw_ignore_cred hw) wait (te_allowed (env n)) n c of
        SKW_TX_RUNNING_EXIT \<Rightarrow> Some c
      | SKW_TX_RUNNING_RESTART \<Rightarrow> f hw beyond wait env other (Suc n) (tx_worker_start hw (other n c))
      | SKW_TX_RUNNING_GO \<Rightarrow>
          (let c1 = tx_worker_round hw beyond c in
           if skw_tx_exit_check (te_cmd (env n)) c1 then Some c1
           else f hw beyond wait env other (Suc n) (other n c1))) = Some y"
    let ?c = "tx_worker_round hw beyond c"
    have i: "idle ?c" "tc_radios ?c = tc_radios c" "map tl_pending (tc_txl ?c) = map tl_pending (tc_txl c)"
      using idle_round c by simp_all
    then have "?spins hw ?c" using c exit_check_pending [OF i(2,3)] by simp
    moreover from this c have "f hw beyond wait env other (Suc n) ?c = Some y"
      using r e by (simp add: quiet_def skw_tx_running_check_def)
    ultimately show False using IH e by blast
  qed
  then show ?thesis using assms by (metis not_None_eq)
qed

text \<open>One frame for a peer that is gone brings the worker there.\<close>

definition gone_core :: tx_core where
  "gone_core = demo_tx_core\<lparr>tc_peers := [[Some (Some \<lparr>tp_bytes = 0, tp_pkts = 0, tp_deauthed = True\<rparr>)]],
     tc_ifaces := [Some \<lparr>ti_lmac = 0, ti_txq = [[demo_frame], [], [], [], []], ti_cache = [[], [], [], [], []], ti_deauth = False,
                         ti_stopped = [False, False, False, False, False], ti_factor = [0, 0, 0, 0]\<rparr>, None, None, None]\<rparr>"

lemma init_room: "skw_vring_available_count (skw_tx_vring_init page) = 128"
  by (simp add: skw_vring_available_count_def skw_tx_vring_init_def SKW_TX_VRING_SIZE_def)

definition gone_slots :: slot_state where
  "gone_slots = \<lparr>ss_lmac = \<lparr>tl_reset = False, tl_cred = 8, tl_map = 1, tl_nr = 1, tl_bk_limit = 0, tl_current = 1, tl_ac_reset = 14,
       tl_count_limit = 15, tl_pending = 0, tl_list = [],
       tl_tx = \<lparr>sl_quota = 0, sl_reset = True, sl_iface = 0\<rparr> # replicate 3 \<lparr>sl_quota = 0, sl_reset = False, sl_iface = 0\<rparr>\<rparr>,
     ss_caches = [[demo_frame], [], [], []], ss_peers = [[Some (Some \<lparr>tp_bytes = 0, tp_pkts = 0, tp_deauthed = True\<rparr>)]], ss_freed = []\<rparr>"

lemma gone_slot_loop:
  "slot_loop True 128 16 0 gone_slots = 
   gone_slots\<lparr>ss_lmac := (ss_lmac gone_slots)\<lparr>tl_map := 0, tl_tx := (tl_tx (ss_lmac gone_slots))[0 := \<lparr>sl_quota = 16, sl_reset = False, sl_iface = 0\<rparr>]\<rparr>, 
     ss_caches := [[], [], [], []], ss_peers := [[Some (Some \<lparr>tp_bytes = 3, tp_pkts = 1, tp_deauthed = True\<rparr>)]], ss_freed := [demo_frame]\<rparr>"
  by code_simp

definition gone_ready :: tx_core where
  "gone_ready = gone_core\<lparr>
     tc_ifaces := [Some \<lparr>ti_lmac = 0, ti_txq = [[], [], [], [], []], ti_cache = [[demo_frame], [], [], [], []], ti_deauth = False,
                         ti_stopped = [False, False, False, False, False], ti_factor = [0, 0, 0, 0]\<rparr>, None, None, None],
     tc_txl := (tc_txl gone_core)[0 := (ss_lmac gone_slots)\<lparr>tl_reset := True, tl_cred := 0\<rparr>]\<rparr>"

lemma gone_prepare: "skw_txq_prepare 0 gone_core = (gone_ready, 1)"
  by (simp add: gone_core_def gone_ready_def gone_slots_def demo_tx_core_def tx_worker_start_def skw_txq_prepare_def prepare_iface_def
      iface_collect_def slot_assign_def ac_defs max_tx_count_limit_def demo_tx_hw_def upt_rec numeral_eq_Suc)

lemma gone_slots_lmac [simp]:
  "tl_map (ss_lmac gone_slots) = 1" "tl_reset (ss_lmac gone_slots) = False" "tl_list (ss_lmac gone_slots) = []"
  "tl_cred (ss_lmac gone_slots) = 8" "tl_current (ss_lmac gone_slots) = 1"
  by (simp_all add: gone_slots_def)

lemma gone_slots_start:
  "\<lparr>ss_lmac = (ss_lmac gone_slots)\<lparr>tl_cred := 8, tl_reset := False\<rparr>, ss_caches = [[demo_frame], [], [], []],
     ss_peers = [[Some (Some \<lparr>tp_bytes = 0, tp_pkts = 0, tp_deauthed = True\<rparr>)]], ss_freed = []\<rparr> = gone_slots"
  by (simp add: gone_slots_def)

lemma gone_pass:
  assumes "lmac_pass demo_tx_hw beyond 0 0 (gone_ready, False) = (c, capa)"
  shows "capa \<and> idle c \<and> tc_radios c = tc_radios gone_core \<and> map tl_pending (tc_txl c) = [1, 0]"
  using assms
  by (auto simp: lmac_pass_def gone_ready_def gone_core_def demo_tx_core_def tx_worker_start_def slot_base_def ac_defs
      skw_get_hw_credit_def caches_of_def demo_tx_hw_def SKW_BASE_VO_def Let_def gone_slots_start init_room gone_slot_loop
      skw_sdio_xmit_def put_caches_def idle_def lmac_clear_def numeral_2_eq_2)

lemma gone_worker_spins:
  "skw_tx_worker demo_tx_hw beyond wait quiet (\<lambda>_ c. c) 0 gone_core = None"
proof -
  obtain c capa where p: "lmac_pass demo_tx_hw beyond 0 0 (gone_ready, False) = (c, capa)" by force
  note G = gone_pass [OF p]
  have radios: "tc_radios gone_core = [\<lparr>tr_active = True, tr_credit = 8, tr_ring = skw_tx_vring_init blank_page, tr_lport = 2, tr_sent = [], tr_lost = []\<rparr>]"
    by (simp add: gone_core_def demo_tx_core_def tx_worker_start_def)
  have "tc_radios gone_ready = tc_radios gone_core" by (simp add: gone_ready_def)
  then have round: "tx_worker_round demo_tx_hw beyond gone_core = ac_loop demo_tx_hw beyond [1, 2, 3] c"
    using G p gone_prepare radios by (simp add: tx_worker_round_def ac_defs del: ac_loop.simps(1)) 
  let ?c = "ac_loop demo_tx_hw beyond [1, 2, 3] c"
  have i: "idle ?c" "tc_radios ?c = tc_radios gone_core" "map tl_pending (tc_txl ?c) = [1, 0]"
    using idle_loop [of c "[1, 2, 3]" demo_tx_hw beyond] G by simp_all
  then obtain l1 l2 where "tc_txl ?c = [l1, l2]" "tl_pending l1 = 1" by (auto simp: map_eq_Cons_conv)
  then have x: "\<not> skw_tx_exit_check False ?c" using i(2) radios by (simp add: skw_tx_exit_check_def init_room)
  have cr: "(\<Sum>r \<leftarrow> filter tr_active (tc_radios gone_core). skw_get_hw_credit False (tr_credit r)) \<noteq> 0"
    by (simp add: radios skw_get_hw_credit_def)
  have hw: "hw_ignore_cred demo_tx_hw = False" by (simp add: demo_tx_hw_def)
  have "skw_tx_worker demo_tx_hw beyond wait quiet (\<lambda>_ c. c) 0 gone_core = skw_tx_worker demo_tx_hw beyond wait quiet (\<lambda>_ c. c) 1 ?c"
    using x cr round by (subst skw_tx_worker.simps) (simp add: quiet_def skw_tx_running_check_def hw)
  also have "\<dots> = None" by (rule idle_worker_spins [OF i(1) x]) (unfold i(2) hw, rule cr)
  finally show ?thesis .
qed

end
