(* ===== verification/Skw_Msg.thy ===== *)
theory Skw_Msg
  imports Skw_Tx
begin

text \<open>
  The command channel to the firmware, \<^verbatim>\<open>skw_msg.c\<close>: one buffer, guarded by a semaphore, carries a
  command at a time. A caller that can sleep takes the semaphore, fills the buffer and waits for the
  acknowledgement (\<open>skw_msg_xmit_timeout\<close>); one that cannot sleep leaves the semaphore taken until a
  work item, started by the acknowledgement, or a timer gives it back (\<open>skw_msg_try_send\<close>). The
  transmit worker hands the buffer to the bus (\<open>skw_cmd_do\<close>).
\<close>

section \<open>Flags and identifiers\<close>

definition SKW_CMD_FLAG_NO_WAKELOCK :: nat where "SKW_CMD_FLAG_NO_WAKELOCK = 0"
definition SKW_CMD_FLAG_NO_ACK :: nat where "SKW_CMD_FLAG_NO_ACK = 1"
definition SKW_CMD_FLAG_IGNORE_BLOCK_TX :: nat where "SKW_CMD_FLAG_IGNORE_BLOCK_TX = 2"
definition SKW_CMD_FLAG_DONE :: nat where "SKW_CMD_FLAG_DONE = 3"
definition SKW_CMD_FLAG_XMIT :: nat where "SKW_CMD_FLAG_XMIT = 4"
definition SKW_CMD_FLAG_ACKED :: nat where "SKW_CMD_FLAG_ACKED = 5"

definition SKW_FLAG_FW_ASSERT :: nat where "SKW_FLAG_FW_ASSERT = 0"
definition SKW_FLAG_BLOCK_TX :: nat where "SKW_FLAG_BLOCK_TX = 1"
definition SKW_FLAG_FW_MAC_RECOVERY :: nat where "SKW_FLAG_FW_MAC_RECOVERY = 2"
definition SKW_FLAG_FW_THERMAL :: nat where "SKW_FLAG_FW_THERMAL = 3"
definition SKW_FLAG_MP_MODE :: nat where "SKW_FLAG_MP_MODE = 11"
definition SKW_FLAG_SUSPEND_PREPARE :: nat where "SKW_FLAG_SUSPEND_PREPARE = 19"

lemmas cmd_flag_defs = SKW_CMD_FLAG_NO_WAKELOCK_def SKW_CMD_FLAG_NO_ACK_def SKW_CMD_FLAG_IGNORE_BLOCK_TX_def
  SKW_CMD_FLAG_DONE_def SKW_CMD_FLAG_XMIT_def SKW_CMD_FLAG_ACKED_def
lemmas core_flag_defs = SKW_FLAG_FW_ASSERT_def SKW_FLAG_BLOCK_TX_def SKW_FLAG_FW_MAC_RECOVERY_def SKW_FLAG_FW_THERMAL_def
  SKW_FLAG_MP_MODE_def SKW_FLAG_SUSPEND_PREPARE_def

declare cmd_flag_defs [skw_simps] core_flag_defs [skw_simps]

text \<open>The identifiers of the commands that are allowed in special states, and the types of messages.\<close>

definition SKW_CMD_GET_INFO :: int where "SKW_CMD_GET_INFO = 1"
definition SKW_CMD_SYN_VERSION :: int where "SKW_CMD_SYN_VERSION = 2"
definition SKW_CMD_OPEN_DEV :: int where "SKW_CMD_OPEN_DEV = 3"
definition SKW_CMD_CLOSE_DEV :: int where "SKW_CMD_CLOSE_DEV = 4"
definition SKW_CMD_SET_MIB :: int where "SKW_CMD_SET_MIB = 40"
definition SKW_CMD_DPD_ILC_GEAR_PARAM :: int where "SKW_CMD_DPD_ILC_GEAR_PARAM = 46"
definition SKW_CMD_DPD_ILC_MARTIX_PARAM :: int where "SKW_CMD_DPD_ILC_MARTIX_PARAM = 47"
definition SKW_CMD_PHY_BB_CFG :: int where "SKW_CMD_PHY_BB_CFG = 50"
definition SKW_CMD_SET_REGD :: int where "SKW_CMD_SET_REGD = 51"
definition SKW_CMD_SET_MONITOR_PARAM :: int where "SKW_CMD_SET_MONITOR_PARAM = 60"

definition SKW_MSG_CMD :: u8 where "SKW_MSG_CMD = 0"
definition SKW_MSG_CMD_ACK :: u8 where "SKW_MSG_CMD_ACK = 1"
definition SKW_MSG_EVENT :: u8 where "SKW_MSG_EVENT = 2"
definition SKW_MSG_EVENT_LOCAL :: u8 where "SKW_MSG_EVENT_LOCAL = 3"

definition SKW_USB_CMD_MAX_LEN :: int where "SKW_USB_CMD_MAX_LEN = 1536"
definition SKW_PCIE_CMD_MAX_LEN :: int where "SKW_PCIE_CMD_MAX_LEN = 1600"
definition SKW_SDIO_CMD_MAX_LEN :: int where "SKW_SDIO_CMD_MAX_LEN = 1588"
definition SKW_MSG_BUFFER_LEN :: nat where "SKW_MSG_BUFFER_LEN = 2048"

section \<open>Messages\<close>

record skw_msg =
  ms_inst_id :: u8
  ms_type :: u8
  ms_id :: u8
  ms_seq :: u16
  ms_total_len :: u16

text \<open>The eight bytes of the header: the last two are reserved and never written.\<close>

definition msg_bytes :: "skw_msg \<Rightarrow> u8 list" where
  "msg_bytes h = [(ms_inst_id h AND 15) OR push_bit 4 (ms_type h), ms_id h] @ le16 (ms_seq h) @ le16 (ms_total_len h)"

text \<open>A header in memory; memory is a function, since the source reads a header before it looks at the length.\<close>

definition msg_at :: "(nat \<Rightarrow> u8) \<Rightarrow> skw_msg" where
  "msg_at mem = \<lparr>ms_inst_id = mem 0 AND 15, ms_type = drop_bit 4 (mem 0), ms_id = mem 1,
     ms_seq = get16 [mem 2, mem 3], ms_total_len = get16 [mem 4, mem 5]\<rparr>"

section \<open>The channel\<close>

datatype cmd_callback = Cb_none | Cb_try_send | Cb_xmit_timeout

record msg_iface =
  mi_ndev :: bool
  mi_monitor :: bool
  mi_opened :: bool

text \<open>
  The hardware: bus, whether frames carry an extra header, the port of commands. The channel: the semaphore's
  count, the command in the buffer and its reply buffer, the driver's flags, interfaces, whether the
  timer and the work item that unlocks are pending, whether an assertion is scheduled, and the
  commands handed to the bus.
\<close>

record cmd_hw =
  ch_tx :: tx_hw
  ch_bus :: skw_bus
  ch_extra :: bool
  ch_cmd_port :: u8

record cmd_chan =
  cc_lock :: nat
  cc_awake :: bool
  cc_flags :: u32
  cc_id :: int
  cc_seq :: u16
  cc_status :: u16
  cc_arg :: "u8 list option"
  cc_arg_size :: u16
  cc_buf :: "u8 list"
  cc_data_len :: u16
  cc_callback :: cmd_callback
  cc_core_flags :: u32
  cc_ifaces :: "msg_iface option list"
  cc_timer :: bool
  cc_unlock :: bool
  cc_assert :: bool
  cc_wire :: "u8 list list"

definition to_skw_iface :: "int \<Rightarrow> 'a option list \<Rightarrow> 'a option" where
  "to_skw_iface n fs = (if n < 0 \<or> 4 \<le> n then None else fs ! nat n)"

definition skw_tx_allowed :: "u32 \<Rightarrow> bool" where
  "skw_tx_allowed flags \<longleftrightarrow>
     (BIT SKW_FLAG_FW_ASSERT OR BIT SKW_FLAG_BLOCK_TX OR BIT SKW_FLAG_MP_MODE OR BIT SKW_FLAG_FW_THERMAL OR
      BIT SKW_FLAG_FW_MAC_RECOVERY) AND flags = 0"

definition skw_cmd_tx_allowed :: "u32 \<Rightarrow> bool" where
  "skw_cmd_tx_allowed flags = skw_tx_allowed (unset_bit SKW_FLAG_FW_THERMAL flags)"

definition skw_cmd_allowed :: "int \<Rightarrow> int \<Rightarrow> u32 \<Rightarrow> cmd_chan \<Rightarrow> bool" where
  "skw_cmd_allowed inst cmd extra c =
     (let flags = (if bit extra SKW_CMD_FLAG_IGNORE_BLOCK_TX then unset_bit SKW_FLAG_BLOCK_TX (cc_core_flags c) else cc_core_flags c);
          f = to_skw_iface inst (cc_ifaces c) in
      if inst < 0 then False
      else if \<not> skw_cmd_tx_allowed flags then False
      else if (case f of None \<Rightarrow> False | Some i \<Rightarrow> mi_ndev i \<and> mi_monitor i)
      then cmd \<in> {SKW_CMD_SET_MONITOR_PARAM, SKW_CMD_CLOSE_DEV, SKW_CMD_OPEN_DEV}
      else if cmd \<in> {SKW_CMD_GET_INFO, SKW_CMD_SYN_VERSION, SKW_CMD_OPEN_DEV, SKW_CMD_PHY_BB_CFG, SKW_CMD_SET_REGD,
                      SKW_CMD_SET_MIB, SKW_CMD_DPD_ILC_GEAR_PARAM, SKW_CMD_DPD_ILC_MARTIX_PARAM} then True
      else (case f of None \<Rightarrow> False | Some i \<Rightarrow> mi_opened i))"

definition skw_cmd_len_in_limit :: "skw_bus \<Rightarrow> int \<Rightarrow> bool" where
  "skw_cmd_len_in_limit b n \<longleftrightarrow>
     \<not> (b = SKW_BUS_USB \<and> SKW_USB_CMD_MAX_LEN < n \<or> b = SKW_BUS_SDIO \<and> SKW_SDIO_CMD_MAX_LEN < n \<or>
        b = SKW_BUS_PCIE \<and> SKW_PCIE_CMD_MAX_LEN < n)"

definition cmd_total_len :: "cmd_hw \<Rightarrow> nat \<Rightarrow> nat" where
  "cmd_total_len hw n =
     (let t = n + 8 in
      if ch_extra hw
      then (if ch_bus hw = SKW_BUS_USB then t + hw_hdr_len (ch_tx hw) else round_up (t + hw_hdr_len (ch_tx hw)) (hw_align (ch_tx hw)))
      else t)"

definition skw_cmd_data_len_in_limit :: "cmd_hw \<Rightarrow> nat \<Rightarrow> bool" where
  "skw_cmd_data_len_in_limit hw n = skw_cmd_len_in_limit (ch_bus hw) (int (cmd_total_len hw n))"

text \<open>A command of a caller: instance, identifier, data, reply buffer and flags.\<close>

record cmd_req =
  rq_inst :: int
  rq_cmd :: int
  rq_data :: "u8 list"
  rq_arg :: "u8 list option"
  rq_arg_size :: nat
  rq_flags :: u32

definition msg_pos :: "cmd_hw \<Rightarrow> nat" where
  "msg_pos hw = (if ch_extra hw then hw_hdr_len (ch_tx hw) else 0)"

definition skw_set_cmd :: "cmd_hw \<Rightarrow> cmd_req \<Rightarrow> cmd_chan \<Rightarrow> int \<times> cmd_chan" where
  "skw_set_cmd hw q c =
     (let n = length (rq_data q); total_len = cmd_total_len hw n; pos = msg_pos hw;
          c1 = (if ch_extra hw
                then c\<lparr>cc_buf := poke 0 (hdr_bytes (skw_set_extra_hdr (ch_tx hw) (ch_cmd_port hw) (total_len mod 65536) False)) (cc_buf c)\<rparr>
                else c) in
      if \<not> skw_cmd_len_in_limit (ch_bus hw) (int total_len) then (- E2BIG, c1)
      else
        (let h = \<lparr>ms_inst_id = of_int (rq_inst q), ms_type = SKW_MSG_CMD, ms_id = of_int (rq_cmd q), ms_seq = cc_seq c1 + 1,
                  ms_total_len = of_nat (n + 8)\<rparr> in
         (0, c1\<lparr>cc_id := rq_cmd q, cc_seq := cc_seq c1 + 1, cc_arg := rq_arg q, cc_arg_size := of_nat (rq_arg_size q),
                cc_status := 0, cc_data_len := of_nat total_len, cc_flags := rq_flags q,
                cc_buf := poke (pos + 8) (rq_data q) (poke pos (msg_bytes h) (cc_buf c1))\<rparr>)))"

section \<open>Semaphore, callbacks, abort\<close>

definition skw_cmd_lock :: "u32 \<Rightarrow> cmd_chan \<Rightarrow> cmd_chan" where
  "skw_cmd_lock flags c =
     c\<lparr>cc_lock := cc_lock c - 1,
       cc_awake := (if bit flags SKW_CMD_FLAG_NO_WAKELOCK \<or> bit (cc_core_flags c) SKW_FLAG_SUSPEND_PREPARE then cc_awake c else True)\<rparr>"

definition skw_cmd_unlock :: "u32 \<Rightarrow> cmd_chan \<Rightarrow> cmd_chan" where
  "skw_cmd_unlock flags c =
     c\<lparr>cc_awake := (if bit flags SKW_CMD_FLAG_NO_WAKELOCK then cc_awake c else False), cc_lock := cc_lock c + 1\<rparr>"

definition skw_msg_try_send_cb :: "cmd_chan \<Rightarrow> cmd_chan" where
  "skw_msg_try_send_cb c = c\<lparr>cc_unlock := True\<rparr>"

definition skw_msg_xmit_timeout_cb :: "cmd_chan \<Rightarrow> cmd_chan" where
  "skw_msg_xmit_timeout_cb c = c\<lparr>cc_flags := set_bit SKW_CMD_FLAG_DONE (cc_flags c)\<rparr>"

definition run_callback :: "cmd_chan \<Rightarrow> cmd_chan" where
  "run_callback c =
     (case cc_callback c of Cb_none \<Rightarrow> c | Cb_try_send \<Rightarrow> skw_msg_try_send_cb c | Cb_xmit_timeout \<Rightarrow> skw_msg_xmit_timeout_cb c)"

definition skw_abort_cmd :: "cmd_chan \<Rightarrow> cmd_chan" where
  "skw_abort_cmd c =
     (if cc_lock c = 0 \<and> \<not> bit (cc_flags c) SKW_CMD_FLAG_ACKED
      then run_callback (c\<lparr>cc_flags := set_bit SKW_CMD_FLAG_ACKED (cc_flags c)\<rparr>) else c)"

definition skw_work_unlock :: "cmd_chan \<Rightarrow> cmd_chan" where
  "skw_work_unlock c = c\<lparr>cc_unlock := False, cc_timer := False, cc_awake := False, cc_lock := cc_lock c + 1\<rparr>"

definition skw_cmd_timeout_fn :: "cmd_chan \<Rightarrow> cmd_chan" where
  "skw_cmd_timeout_fn c =
     (skw_cmd_unlock 0 (c\<lparr>cc_timer := False, cc_core_flags := set_bit SKW_FLAG_BLOCK_TX (cc_core_flags c)\<rparr>))\<lparr>cc_assert := True\<rparr>"

definition skw_hw_assert :: "cmd_chan \<Rightarrow> cmd_chan" where
  "skw_hw_assert c = c\<lparr>cc_core_flags := set_bit SKW_FLAG_FW_ASSERT (cc_core_flags c)\<rparr>"

section \<open>Sending\<close>

text \<open>\<open>timer_ok\<close> tells whether the memory for the timer could be allocated; the source ignores a failure.\<close>

definition skw_msg_try_send :: "cmd_hw \<Rightarrow> bool \<Rightarrow> cmd_req \<Rightarrow> cmd_chan \<Rightarrow> int \<times> cmd_chan" where
  "skw_msg_try_send hw timer_ok q c =
     (if cc_lock c = 0 then (- EBUSY, c)
      else
        (let c1 = c\<lparr>cc_lock := cc_lock c - 1, cc_awake := True\<rparr> in
         if \<not> skw_cmd_allowed (rq_inst q) (rq_cmd q) 0 c1 then (- EIO, skw_cmd_unlock 0 c1)
         else
           (case skw_set_cmd hw (q\<lparr>rq_flags := 0\<rparr>) c1 of
              (ret, c2) \<Rightarrow>
                if ret \<noteq> 0 then (ret, skw_cmd_unlock 0 c2)
                else (0, c2\<lparr>cc_timer := cc_timer c2 \<or> timer_ok, cc_callback := Cb_try_send,
                            cc_flags := set_bit SKW_CMD_FLAG_XMIT (cc_flags c2)\<rparr>))))"

text \<open>
  \<open>skw_msg_xmit_timeout\<close> in the pieces between its waits: the part up to the first wait, run once the
  semaphore is taken; the end after a wait in which the command was done; the end after a timeout.
\<close>

definition cmd_xmit_issue :: "cmd_hw \<Rightarrow> cmd_req \<Rightarrow> cmd_chan \<Rightarrow> int \<times> cmd_chan" where
  "cmd_xmit_issue hw q c =
     (case skw_set_cmd hw q (skw_cmd_lock (rq_flags q) c) of
        (ret, c1) \<Rightarrow>
          if ret \<noteq> 0 then (ret, skw_cmd_unlock (rq_flags q) c1)
          else (0, c1\<lparr>cc_callback := Cb_xmit_timeout, cc_flags := set_bit SKW_CMD_FLAG_XMIT (cc_flags c1)\<rparr>))"

definition cmd_xmit_end :: "cmd_req \<Rightarrow> cmd_chan \<Rightarrow> int \<times> cmd_chan" where
  "cmd_xmit_end q c = (0 - int (unat (cc_status c)), skw_cmd_unlock (rq_flags q) c)"

definition cmd_xmit_expire :: "cmd_req \<Rightarrow> cmd_chan \<Rightarrow> int \<times> cmd_chan" where
  "cmd_xmit_expire q c =
     (- ETIMEDOUT, skw_cmd_unlock (rq_flags q) (skw_hw_assert (c\<lparr>cc_flags := set_bit SKW_CMD_FLAG_ACKED (cc_flags c)\<rparr>)))"

definition skw_bus_cmd_xmit :: "cmd_chan \<Rightarrow> cmd_chan" where
  "skw_bus_cmd_xmit c =
     (let flags = (if bit (cc_flags c) SKW_CMD_FLAG_IGNORE_BLOCK_TX then unset_bit SKW_FLAG_BLOCK_TX (cc_core_flags c) else cc_core_flags c) in
      if \<not> skw_cmd_tx_allowed flags then skw_abort_cmd c
      else c\<lparr>cc_wire := cc_wire c @ [take (unat (cc_data_len c)) (cc_buf c)]\<rparr>)"

definition skw_cmd_do :: "cmd_chan \<Rightarrow> cmd_chan" where
  "skw_cmd_do c =
     (if bit (cc_flags c) SKW_CMD_FLAG_XMIT then
        (let c1 = skw_bus_cmd_xmit (c\<lparr>cc_flags := unset_bit SKW_CMD_FLAG_XMIT (cc_flags c)\<rparr>) in
         if bit (cc_flags c1) SKW_CMD_FLAG_NO_ACK
         then run_callback (c1\<lparr>cc_flags := set_bit SKW_CMD_FLAG_DONE (cc_flags c1)\<rparr>) else c1)
      else c)"

section \<open>The acknowledgement\<close>

text \<open>The message lies in memory \<open>mem\<close>, with \<open>data_len\<close> bytes. Its payload goes to the caller's reply buffer.\<close>

definition skw_cmd_ack_handler :: "(nat \<Rightarrow> u8) \<Rightarrow> int \<Rightarrow> cmd_chan \<Rightarrow> int \<times> cmd_chan" where
  "skw_cmd_ack_handler mem data_len c =
     (let h = msg_at mem; c1 = c\<lparr>cc_flags := set_bit SKW_CMD_FLAG_ACKED (cc_flags c)\<rparr> in
      if int (unat (ms_id h)) \<noteq> cc_id c \<or> ms_seq h \<noteq> cc_seq c then (- EINVAL, c)
      else if bit (cc_flags c) SKW_CMD_FLAG_ACKED then (- EINVAL, c1)
      else if data_len < 10 then (- EINVAL, c1)
      else
        (let c2 = c1\<lparr>cc_status := get16 [mem 8, mem 9]\<rparr>;
             n = nat (min (data_len - 10) (int (unat (cc_arg_size c)))) in
         (0, run_callback (c2\<lparr>cc_arg := map_option (poke 0 (map (\<lambda>i. mem (10 + i)) [0..<n])) (cc_arg c2)\<rparr>))))"

end
