(* ===== verification/Skw_Event.thy ===== *)
theory Skw_Event
  imports Skw_Msg
begin

text \<open>
  Messages and frames that arrive from the bus (\<open>skw_rx_cb\<close> of \<^verbatim>\<open>skw_rx.c\<close>): acknowledgements go to the command
  channel, grants of credits to the radios, other events to the queue of their interface or of the driver,
  frames to the receive thread. Queued events are handled by a work item per interface
  (\<^verbatim>\<open>skw_msg.c\<close>, \<^verbatim>\<open>skw_iface.c\<close>, \<^verbatim>\<open>skw_work.h\<close>). The second part is the general work list of
  \<^verbatim>\<open>skw_work.c\<close> with its list of objects to be freed.
\<close>

section \<open>Events\<close>

text \<open>A buffer has an identity and the bytes that have not been pulled off.\<close>

record rx_buf =
  rb_id :: nat
  rb_bytes :: "u8 list"

record skw_event_work =
  ew_enabled :: bool
  ew_qlist :: "rx_buf list"

text \<open>What the bus driver was told: ports, whether frames are copied, sizes of buffers (\<open>eh_data_align\<close> is \<open>SKB_DATA_ALIGN\<close>).\<close>

record ev_hw =
  eh_bus :: skw_bus
  eh_cmd_port :: int
  eh_dports :: "int list"
  eh_lports :: "int list"
  eh_rx_sdma :: bool
  eh_data_align :: "nat \<Rightarrow> nat"
  eh_share_len :: nat
  eh_max_buf :: nat

text \<open>
  The state: the command channel, the number of the last event, queues of the driver and of the interfaces,
  credits granted, the queue of the receive thread with the radio of each frame, the buffers freed, those that the
  callback skipped without handling or freeing them, and the
  handlers that were called (table, identifier, interface and payload).
\<close>

record ev_core =
  ec_chan :: cmd_chan
  ec_event_sn :: u16
  ec_work :: skw_event_work
  ec_iface_work :: "skw_event_work option list"
  ec_credit :: "int list"
  ec_dat_q :: "(rx_buf \<times> nat) list"
  ec_freed :: "rx_buf list"
  ec_leaked :: "rx_buf list"
  ec_calls :: "(bool \<times> nat \<times> int option \<times> u8 list) list"

definition SKW_EVENT_CREDIT_UPDATE :: u8 where "SKW_EVENT_CREDIT_UPDATE = 16"
definition SKW_EVENT_MAX :: nat where "SKW_EVENT_MAX = 39"
definition SKW_EVENT_LOCAL_MAX :: nat where "SKW_EVENT_LOCAL_MAX = 4"
definition SKW_FLAG_FW_PN_REUSE :: nat where "SKW_FLAG_FW_PN_REUSE = 17"

text \<open>Which identifiers have a handler, in the table of the firmware's events and in that of the driver's own.\<close>

definition g_event_fn :: "nat \<Rightarrow> bool" where
  "g_event_fn i \<longleftrightarrow> i \<in> {0, 1, 2, 4, 8, 9, 10, 11, 12, 13, 32, 14, 15, 17, 18, 19, 20, 21, 22, 25, 27, 28, 29, 26, 33, 37, 38}"

definition g_local_event_fn :: "nat \<Rightarrow> bool" where
  "g_local_event_fn i \<longleftrightarrow> i \<in> {1, 2, 3}"

definition buf_mem :: "(nat \<Rightarrow> u8) \<Rightarrow> u8 list \<Rightarrow> nat \<Rightarrow> u8" where
  "buf_mem beyond bs i = (if i < length bs then bs ! i else beyond i)"

definition msg_pull :: "nat \<Rightarrow> rx_buf \<Rightarrow> rx_buf option" where
  "msg_pull n b = (if length (rb_bytes b) < n then None else Some (b\<lparr>rb_bytes := drop n (rb_bytes b)\<rparr>))"

definition try_pull :: "nat \<Rightarrow> rx_buf \<Rightarrow> rx_buf" where
  "try_pull n b = (case msg_pull n b of None \<Rightarrow> b | Some b1 \<Rightarrow> b1)"

definition ev_free :: "rx_buf \<Rightarrow> ev_core \<Rightarrow> ev_core" where
  "ev_free b c = c\<lparr>ec_freed := ec_freed c @ [b]\<rparr>"

definition skw_queue_event_work :: "rx_buf \<Rightarrow> skw_event_work \<Rightarrow> int \<times> skw_event_work" where
  "skw_queue_event_work b w = (if \<not> ew_enabled w then (- EINVAL, w) else (0, w\<lparr>ew_qlist := ew_qlist w @ [b]\<rparr>))"

text \<open>An event goes to the queue of its interface if that exists, to the driver's queue otherwise; a closed queue frees it.\<close>

definition queue_event :: "int \<Rightarrow> rx_buf \<Rightarrow> ev_core \<Rightarrow> int \<times> ev_core" where
  "queue_event inst b c =
     (case to_skw_iface inst (ec_iface_work c) of
        Some w \<Rightarrow>
          (case skw_queue_event_work b w of
             (ret, w1) \<Rightarrow> if ret < 0 then (ret, ev_free b c) else (ret, c\<lparr>ec_iface_work := (ec_iface_work c)[nat inst := Some w1]\<rparr>))
      | None \<Rightarrow>
          (case skw_queue_event_work b (ec_work c) of
             (ret, w1) \<Rightarrow> if ret < 0 then (ret, ev_free b c) else (ret, c\<lparr>ec_work := w1\<rparr>)))"

definition ev_add_credit :: "nat \<Rightarrow> int \<Rightarrow> ev_core \<Rightarrow> ev_core" where
  "ev_add_credit m n c = c\<lparr>ec_credit := (ec_credit c)[m := ec_credit c ! m + n]\<rparr>"

definition skw_event_add_credit :: "(nat \<Rightarrow> u8) \<Rightarrow> ev_core \<Rightarrow> ev_core" where
  "skw_event_add_credit mem c =
     ev_add_credit 1 (int (unat (get16 [mem 2, mem 3]))) (ev_add_credit 0 (int (unat (get16 [mem 0, mem 1]))) c)"

definition skw_port_to_lmacid :: "ev_hw \<Rightarrow> int \<Rightarrow> bool \<Rightarrow> nat option" where
  "skw_port_to_lmacid hw port multi =
     (let ps = (if multi then eh_dports hw else eh_lports hw) in List.find (\<lambda>i. ps ! i = port) [0..<length ps])"

section \<open>The callback of the bus\<close>

text \<open>A message, once the bus headers are pulled off.\<close>

definition rx_msg :: "(nat \<Rightarrow> u8) \<Rightarrow> rx_buf \<Rightarrow> ev_core \<Rightarrow> ev_core" where
  "rx_msg beyond b c =
     (let mem = buf_mem beyond (rb_bytes b); m = msg_at mem in
      if ms_type m = SKW_MSG_CMD_ACK then
        ev_free b (c\<lparr>ec_chan := snd (skw_cmd_ack_handler mem (int (length (rb_bytes b))) (ec_chan c))\<rparr>)
      else if ms_type m = SKW_MSG_EVENT then
        (let c1 = c\<lparr>ec_event_sn := ec_event_sn c + 1\<rparr> in
         if ec_event_sn c1 \<noteq> ms_seq m then ev_free b (c1\<lparr>ec_chan := skw_hw_assert (ec_chan c1)\<rparr>)
         else if ms_id m = SKW_EVENT_CREDIT_UPDATE then ev_free b (skw_event_add_credit (\<lambda>i. mem (8 + i)) c1)
         else snd (queue_event (int (unat (ms_inst_id m))) b c1))
      else ev_free b c)"

text \<open>
  One entry of the list that the bus hands over: \<open>ok\<close> tells whether the socket buffer could be made. A
  buffer that cannot be made is freed as memory of the bus (with copied frames the bus keeps its memory).
\<close>

definition rx_cb_one :: "ev_hw \<Rightarrow> (nat \<Rightarrow> u8) \<Rightarrow> int \<Rightarrow> int \<Rightarrow> bool \<Rightarrow> rx_buf \<Rightarrow> ev_core \<Rightarrow> ev_core" where
  "rx_cb_one hw beyond port usb_port ok b c =
     (if \<not> ok \<or> \<not> eh_rx_sdma hw \<and> eh_max_buf hw < eh_data_align hw (length (rb_bytes b)) + eh_share_len hw then ev_free b c
      else if port = eh_cmd_port hw then
        (let b1 = (if eh_bus hw = SKW_BUS_SDIO then try_pull 4 b else b) in
         case msg_pull 12 b1 of None \<Rightarrow> ev_free b1 c | Some b2 \<Rightarrow> rx_msg beyond b2 c)
      else
        (let b1 = (if eh_bus hw = SKW_BUS_SDIO \<and> \<not> bit (cc_core_flags (ec_chan c)) SKW_FLAG_FW_PN_REUSE then try_pull 4 b else b) in
         case (if eh_bus hw = SKW_BUS_USB then skw_port_to_lmacid hw usb_port False else skw_port_to_lmacid hw port True) of
           None \<Rightarrow> ev_free b1 c
         | Some m \<Rightarrow> c\<lparr>ec_dat_q := ec_dat_q c @ [(b1, m)]\<rparr>))"

text \<open>The loop over the list stops at an empty entry; on the first USB bus the first entry names the port.\<close>

definition usb_port_of :: "ev_hw \<Rightarrow> (nat \<Rightarrow> u8) \<Rightarrow> rx_buf list \<Rightarrow> int" where
  "usb_port_of hw beyond bs =
     (case bs of [] \<Rightarrow> 0 | b # _ \<Rightarrow> if eh_bus hw = SKW_BUS_USB then int (unat (buf_mem beyond (rb_bytes b) 8 AND 1)) else 0)"

definition skw_rx_cb :: "ev_hw \<Rightarrow> (nat \<Rightarrow> u8) \<Rightarrow> (nat \<Rightarrow> bool) \<Rightarrow> int \<Rightarrow> rx_buf list \<Rightarrow> ev_core \<Rightarrow> ev_core" where
  "skw_rx_cb hw beyond ok port bs c =
     (let c1 = fold (\<lambda>b. rx_cb_one hw beyond port (usb_port_of hw beyond bs) (ok (rb_id b)) b) (takeWhile (\<lambda>b. rb_bytes b \<noteq> []) bs) c in
      c1\<lparr>ec_leaked := ec_leaked c1 @ dropWhile (\<lambda>b. rb_bytes b \<noteq> []) bs\<rparr>)"

section \<open>Handling of events\<close>

text \<open>
  \<open>skw_event_handler\<close>: an event of the driver itself reads the identifier of its interface, so without
  an interface the call faults (\<open>None\<close>).
\<close>

definition skw_event_handler :: "int option \<Rightarrow> skw_msg \<Rightarrow> u8 list \<Rightarrow> ev_core \<Rightarrow> ev_core option" where
  "skw_event_handler iface m payload c =
     (let loc = (ms_type m = SKW_MSG_EVENT_LOCAL); i = unat (ms_id m) in
      if loc \<and> iface = None then None
      else if (if loc then SKW_EVENT_LOCAL_MAX else SKW_EVENT_MAX) \<le> i then Some c
      else if \<not> (if loc then g_local_event_fn i else g_event_fn i) then Some c
      else Some (c\<lparr>ec_calls := ec_calls c @ [(loc, i, iface, payload)]\<rparr>))"

definition event_one :: "(nat \<Rightarrow> u8) \<Rightarrow> int option \<Rightarrow> rx_buf \<Rightarrow> ev_core \<Rightarrow> ev_core option" where
  "event_one beyond iface b c =
     (case skw_event_handler iface (msg_at (buf_mem beyond (rb_bytes b))) (rb_bytes (try_pull 8 b)) c of
        None \<Rightarrow> None | Some c1 \<Rightarrow> Some (ev_free (try_pull 8 b) c1))"

primrec event_loop :: "(nat \<Rightarrow> u8) \<Rightarrow> int option \<Rightarrow> rx_buf list \<Rightarrow> ev_core \<Rightarrow> ev_core option" where
  "event_loop beyond iface [] c = Some c"
| "event_loop beyond iface (b # bs) c =
     (case event_one beyond iface b c of None \<Rightarrow> None | Some c1 \<Rightarrow> event_loop beyond iface bs c1)"

definition skw_default_event_work :: "(nat \<Rightarrow> u8) \<Rightarrow> ev_core \<Rightarrow> ev_core option" where
  "skw_default_event_work beyond c =
     event_loop beyond None (ew_qlist (ec_work c)) (c\<lparr>ec_work := (ec_work c)\<lparr>ew_qlist := []\<rparr>\<rparr>)"

definition skw_iface_event_work :: "(nat \<Rightarrow> u8) \<Rightarrow> nat \<Rightarrow> ev_core \<Rightarrow> ev_core option" where
  "skw_iface_event_work beyond i c =
     (case ec_iface_work c ! i of
        None \<Rightarrow> Some c
      | Some w \<Rightarrow> event_loop beyond (Some (int i)) (ew_qlist w) (c\<lparr>ec_iface_work := (ec_iface_work c)[i := Some (w\<lparr>ew_qlist := []\<rparr>)]\<rparr>))"

text \<open>An event of the driver itself: \<open>sn\<close> is the counter of such events, \<open>n\<close> the identity of the new buffer.\<close>

definition skw_queue_local_event ::
  "nat \<Rightarrow> bool \<Rightarrow> u16 \<Rightarrow> int option \<Rightarrow> nat \<Rightarrow> u8 list \<Rightarrow> ev_core \<Rightarrow> int \<times> u16 \<times> ev_core" where
  "skw_queue_local_event n ok sn iface event payload c =
     (if \<not> ok then (- ENOMEM, sn, c)
      else
        (let inst = (case iface of None \<Rightarrow> 0 | Some i \<Rightarrow> i);
             h = \<lparr>ms_inst_id = of_int inst, ms_type = SKW_MSG_EVENT_LOCAL, ms_id = of_nat event, ms_seq = sn + 1,
                  ms_total_len = of_nat (length payload + 8)\<rparr>;
             b = \<lparr>rb_id = n, rb_bytes = msg_bytes h @ [0, 0] @ payload\<rparr> in
         case queue_event (case iface of None \<Rightarrow> - 1 | Some i \<Rightarrow> i) b c of (ret, c1) \<Rightarrow> (ret, sn + 1, c1)))"

definition skw_event_work_init :: "skw_event_work" where
  "skw_event_work_init = \<lparr>ew_enabled = True, ew_qlist = []\<rparr>"

definition skw_event_work_deinit :: "skw_event_work \<Rightarrow> skw_event_work \<times> rx_buf list" where
  "skw_event_work_deinit w = (w\<lparr>ew_enabled := False, ew_qlist := []\<rparr>, ew_qlist w)"

end
