(* ===== verification/Skw_Msg_Props.thy ===== *)
theory Skw_Msg_Props
  imports Skw_Msg
begin

text \<open>
  The command channel as a system of threads: callers that sleep, callers that do not, the transmit
  worker, the receive thread with acknowledgements, aborts, timers. Reachable states are those of an
  inductive step relation; the invariant is proved by rule induction.
\<close>

section \<open>The message in the buffer\<close>

lemma round_up_ge: "0 < a \<Longrightarrow> n \<le> round_up n a"
proof -
  assume a: "0 < a"
  have "n + a - 1 = (n + a - 1) div a * a + (n + a - 1) mod a" by simp
  moreover have "(n + a - 1) mod a < a" using a by simp
  ultimately show ?thesis unfolding round_up_def by linarith
qed

lemma total_len_ge: "0 < hw_align (ch_tx hw) \<Longrightarrow> msg_pos hw + 8 + n \<le> cmd_total_len hw n"
  using round_up_ge [of "hw_align (ch_tx hw)" "n + 8 + hw_hdr_len (ch_tx hw)"]
  by (auto simp: msg_pos_def cmd_total_len_def Let_def)

lemma length_msg_bytes [simp]: "length (msg_bytes h) = 6"
  by (simp add: msg_bytes_def)

text \<open>The first byte holds two fields of four bits.\<close>

lemma nibbles:
  fixes a b :: u8
  assumes "unat a < 16" "unat b < 16"
  shows "((a AND 15) OR push_bit 4 b) AND 15 = a" "drop_bit 4 ((a AND 15) OR push_bit 4 b) = b"
proof -
  have m: "(15 :: u8) = mask 4" by (simp add: mask_eq_exp_minus_1)
  have a: "take_bit 4 a = a" "take_bit 4 b = b" using assms
    by (simp_all add: take_bit_eq_mod word_eq_iff_unsigned unsigned_take_bit_eq flip: take_bit_eq_mask)
      (simp_all add: unat_mod word_unat_eq_iff)
  then have bits: "bit a n \<Longrightarrow> n < 4" "bit b n \<Longrightarrow> n < 4" for n by (metis bit_take_bit_iff)+
  show "((a AND 15) OR push_bit 4 b) AND 15 = a" unfolding m
    by (rule bit_word_eqI) (auto simp: bit_simps dest: bits)
  show "drop_bit 4 ((a AND 15) OR push_bit 4 b) = b" unfolding m
    by (rule bit_word_eqI) (auto simp: bit_simps dest: bits)
qed

lemma nth_poke: "off + length dat \<le> length buf \<Longrightarrow> i < length dat \<Longrightarrow> poke off dat buf ! (off + i) = dat ! i"
  by (simp add: poke_def nth_append)

lemma nth_poke_other: "off + length dat \<le> length buf \<Longrightarrow> i < off \<Longrightarrow> poke off dat buf ! i = buf ! i"
  by (simp add: poke_def nth_append)

lemma msg_at_bytes:
  assumes "\<And>i. i < 6 \<Longrightarrow> mem i = msg_bytes h ! i" "unat (ms_inst_id h) < 16" "unat (ms_type h) < 16"
  shows "msg_at mem = h"
proof -
  have m: "mem 0 = (ms_inst_id h AND 15) OR push_bit 4 (ms_type h)" "mem 1 = ms_id h"
    "[mem 2, mem 3] = le16 (ms_seq h)" "[mem 4, mem 5] = le16 (ms_total_len h)"
    using assms(1) by (simp_all add: msg_bytes_def le16_def)
  show ?thesis unfolding msg_at_def m
    using nibbles [OF assms(2,3)] get16_le16 [of _ "[]"] by simp
qed

lemma take_drop_poke: "off + length dat \<le> length buf \<Longrightarrow> take (length dat) (drop off (poke off dat buf)) = dat"
  by (simp add: poke_def)

text \<open>
  C25. A command that was accepted lies in the buffer as the firmware reads it: the header with instance, type,
  identifier, the next sequence number and the length, then the data; the buffer is not overrun.
  (The buses of the first generation; the two later ones have no limit on the length.)
\<close>

theorem set_cmd_roundtrip:
  assumes "skw_set_cmd hw q c = (0, c1)" "ch_bus hw \<in> {SKW_BUS_SDIO, SKW_BUS_USB, SKW_BUS_PCIE}"
    "1600 \<le> length (cc_buf c)" "0 < hw_align (ch_tx hw)" "0 \<le> rq_inst q" "rq_inst q < 16"
  shows "let p = msg_pos hw; n = length (rq_data q) in
    msg_at (\<lambda>i. cc_buf c1 ! (p + i)) =
      \<lparr>ms_inst_id = of_int (rq_inst q), ms_type = SKW_MSG_CMD, ms_id = of_int (rq_cmd q), ms_seq = cc_seq c + 1, ms_total_len = of_nat (n + 8)\<rparr> \<and>
    take n (drop (p + 8) (cc_buf c1)) = rq_data q \<and> length (cc_buf c1) = length (cc_buf c) \<and>
    p + 8 + n \<le> unat (cc_data_len c1) \<and> unat (cc_data_len c1) \<le> 1600"
proof -
  let ?n = "length (rq_data q)" and ?p = "msg_pos hw" and ?t = "cmd_total_len hw (length (rq_data q))"
  let ?h = "\<lparr>ms_inst_id = of_int (rq_inst q), ms_type = SKW_MSG_CMD, ms_id = of_int (rq_cmd q), ms_seq = cc_seq c + 1, ms_total_len = of_nat (?n + 8)\<rparr>"
  have ge: "?p + 8 + ?n \<le> ?t" by (rule total_len_ge [OF assms(4)])
  have lim: "skw_cmd_len_in_limit (ch_bus hw) (int ?t)"
    using assms(1) by (auto simp: skw_set_cmd_def Let_def E2BIG_def split: if_splits)
  then have t: "?t \<le> 1600" using assms(2)
    by (auto simp: skw_cmd_len_in_limit_def SKW_USB_CMD_MAX_LEN_def SKW_PCIE_CMD_MAX_LEN_def SKW_SDIO_CMD_MAX_LEN_def)
  define buf where "buf = (if ch_extra hw
      then poke 0 (hdr_bytes (skw_set_extra_hdr (ch_tx hw) (ch_cmd_port hw) (?t mod 65536) False)) (cc_buf c) else cc_buf c)"
  have len: "length buf = length (cc_buf c)" using assms(3) by (simp add: buf_def hdr_bytes_def)
  have c1: "cc_buf c1 = poke (?p + 8) (rq_data q) (poke ?p (msg_bytes ?h) buf)" "cc_data_len c1 = of_nat ?t"
    using assms(1) lim by (auto simp: skw_set_cmd_def Let_def buf_def split: if_splits)
  have room: "?p + length (msg_bytes ?h) \<le> length buf" "?p + 8 + ?n \<le> length (poke ?p (msg_bytes ?h) buf)"
    using ge t assms(3) len by simp_all
  have "cc_buf c1 ! (?p + i) = msg_bytes ?h ! i" if "i < 6" for i
    using that nth_poke_other [OF room(2), of "?p + i"] nth_poke [OF room(1), of i] by (simp add: c1)
  moreover have "unat (of_int (rq_inst q) :: u8) < 16"
    using assms(5,6) by (simp add: unat_eq_nat_uint uint_word_of_int_eq take_bit_eq_mod nat_less_iff)
  ultimately have "msg_at (\<lambda>i. cc_buf c1 ! (?p + i)) = ?h" by (intro msg_at_bytes) (simp_all add: SKW_MSG_CMD_def)
  moreover have "take ?n (drop (?p + 8) (cc_buf c1)) = rq_data q" unfolding c1(1) by (rule take_drop_poke [OF room(2)])
  moreover have "length (cc_buf c1) = length (cc_buf c)" using room len by (simp add: c1)
  moreover have "unat (cc_data_len c1) = ?t" using t by (simp add: c1 unat_of_nat)
  ultimately show ?thesis using ge t by (simp add: Let_def)
qed

definition cmd_demo_hw :: cmd_hw where
  "cmd_demo_hw = \<lparr>ch_tx = \<lparr>hw_align = 4, hw_pkt_limit = 16, hw_sdio1 = True, hw_ignore_cred = False, hw_chn_offset = 24,
     hw_len_offset = 0, hw_eof_offset = 16, hw_hdr_len = 4\<rparr>, ch_bus = SKW_BUS_SDIO, ch_extra = True, ch_cmd_port = 0\<rparr>"

definition cmd_demo :: cmd_req where
  "cmd_demo = \<lparr>rq_inst = 1, rq_cmd = SKW_CMD_SET_MIB, rq_data = [7, 8, 9], rq_arg = None, rq_arg_size = 0, rq_flags = 0\<rparr>"

text \<open>The channel after the driver was loaded.\<close>

definition cmd_chan_init :: "u8 list \<Rightarrow> cmd_chan" where
  "cmd_chan_init buf = \<lparr>cc_lock = 1, cc_awake = False, cc_flags = 0, cc_id = 0, cc_seq = 0, cc_status = 0, cc_arg = None, cc_arg_size = 0,
     cc_buf = buf, cc_data_len = 0, cc_callback = Cb_none, cc_core_flags = 0, cc_ifaces = replicate 4 None, cc_timer = False,
     cc_unlock = False, cc_assert = False, cc_wire = []\<rparr>"

lemma demo_set_cmd: "\<exists>c1. skw_set_cmd cmd_demo_hw cmd_demo (cmd_chan_init buf) = (0, c1)"
  by (simp add: skw_set_cmd_def cmd_demo_hw_def cmd_demo_def cmd_total_len_def skw_cmd_len_in_limit_def SKW_SDIO_CMD_MAX_LEN_def round_up_def Let_def)

theorem set_cmd_roundtrip_witness:
  "\<exists>c1. skw_set_cmd cmd_demo_hw cmd_demo (cmd_chan_init (replicate 2048 0)) = (0, c1) \<and> take 3 (drop 12 (cc_buf c1)) = [7, 8, 9]"
proof -
  obtain c1 where c1: "skw_set_cmd cmd_demo_hw cmd_demo (cmd_chan_init (replicate 2048 0)) = (0, c1)" using demo_set_cmd by blast
  have "msg_pos cmd_demo_hw = 4" "rq_data cmd_demo = [7, 8, 9]" by (simp_all add: msg_pos_def cmd_demo_hw_def cmd_demo_def)
  with set_cmd_roundtrip [OF c1] c1 show ?thesis by (simp add: cmd_demo_hw_def cmd_demo_def cmd_chan_init_def Let_def numeral_3_eq_3)
qed

section \<open>The channel and its threads\<close>

text \<open>
  A caller that may sleep waits for the semaphore, or has sent a command (with its sequence number) and is in its first
  or second wait. What the caller is told later comes from the replies recorded since then.
\<close>

datatype cmd_thread = Ct_idle | Ct_wait cmd_req | Ct_sent cmd_req u16 bool

datatype cmd_reply = Acked int u16 u16 | Aborted | Unacked

record cmd_sys =
  sy_chan :: cmd_chan
  sy_thread :: "nat \<Rightarrow> cmd_thread"
  sy_async :: bool
  sy_replies :: "cmd_reply list"
  sy_returns :: "(cmd_req \<times> u16 \<times> int \<times> cmd_reply list) list"

definition abort_notes :: "cmd_chan \<Rightarrow> cmd_chan \<Rightarrow> cmd_reply list" where
  "abort_notes c c1 = (if \<not> bit (cc_flags c) SKW_CMD_FLAG_ACKED \<and> bit (cc_flags c1) SKW_CMD_FLAG_ACKED then [Aborted] else [])"

definition worker_notes :: "cmd_chan \<Rightarrow> cmd_chan \<Rightarrow> cmd_reply list" where
  "worker_notes c c1 = abort_notes c c1 @ (if bit (cc_flags c) SKW_CMD_FLAG_XMIT \<and> bit (cc_flags c1) SKW_CMD_FLAG_NO_ACK then [Unacked] else [])"

definition ack_notes :: "(nat \<Rightarrow> u8) \<Rightarrow> int \<Rightarrow> cmd_chan \<Rightarrow> cmd_reply list" where
  "ack_notes mem ret c = (if ret = 0 then [Acked (int (unat (ms_id (msg_at mem)))) (ms_seq (msg_at mem)) (cc_status c)] else [])"

text \<open>
  The steps. A command of a caller that cannot sleep has a timer. \<open>late\<close> allows two coincidences: its acknowledgement is accepted
  after the timer has fired, or the timer fires between the acknowledgement and the work item that the acknowledgement starts.
\<close>

inductive cmd_step :: "cmd_hw \<Rightarrow> bool \<Rightarrow> cmd_sys \<Rightarrow> cmd_sys \<Rightarrow> bool" for hw late where
  call: "sy_thread s t = Ct_idle \<Longrightarrow> skw_cmd_allowed (rq_inst q) (rq_cmd q) (rq_flags q) (sy_chan s) \<Longrightarrow>
    \<not> bit (rq_flags q) SKW_CMD_FLAG_DONE \<Longrightarrow> \<not> bit (rq_flags q) SKW_CMD_FLAG_ACKED \<Longrightarrow>
    cmd_step hw late s (s\<lparr>sy_thread := (sy_thread s)(t := Ct_wait q)\<rparr>)"
| issue: "sy_thread s t = Ct_wait q \<Longrightarrow> 0 < cc_lock (sy_chan s) \<Longrightarrow> cmd_xmit_issue hw q (sy_chan s) = (0, c1) \<Longrightarrow>
    cmd_step hw late s (s\<lparr>sy_chan := c1, sy_thread := (sy_thread s)(t := Ct_sent q (cc_seq c1) False), sy_replies := []\<rparr>)"
| refuse: "sy_thread s t = Ct_wait q \<Longrightarrow> 0 < cc_lock (sy_chan s) \<Longrightarrow> cmd_xmit_issue hw q (sy_chan s) = (ret, c1) \<Longrightarrow> ret \<noteq> 0 \<Longrightarrow>
    cmd_step hw late s (s\<lparr>sy_chan := c1, sy_thread := (sy_thread s)(t := Ct_idle)\<rparr>)"
| nudge: "sy_thread s t = Ct_sent q n False \<Longrightarrow> \<not> bit (cc_flags (sy_chan s)) SKW_CMD_FLAG_DONE \<Longrightarrow>
    cmd_step hw late s (s\<lparr>sy_thread := (sy_thread s)(t := Ct_sent q n True)\<rparr>)"
| finish: "sy_thread s t = Ct_sent q n again \<Longrightarrow> bit (cc_flags (sy_chan s)) SKW_CMD_FLAG_DONE \<Longrightarrow> cmd_xmit_end q (sy_chan s) = (ret, c1) \<Longrightarrow>
    cmd_step hw late s (s\<lparr>sy_chan := c1, sy_thread := (sy_thread s)(t := Ct_idle), sy_returns := (q, n, ret, sy_replies s) # sy_returns s\<rparr>)"
| expire: "sy_thread s t = Ct_sent q n True \<Longrightarrow> \<not> bit (cc_flags (sy_chan s)) SKW_CMD_FLAG_DONE \<Longrightarrow> cmd_xmit_expire q (sy_chan s) = (ret, c1) \<Longrightarrow>
    cmd_step hw late s (s\<lparr>sy_chan := c1, sy_thread := (sy_thread s)(t := Ct_idle), sy_returns := (q, n, ret, sy_replies s) # sy_returns s\<rparr>)"
| try_send: "skw_msg_try_send hw timer_ok q (sy_chan s) = (ret, c1) \<Longrightarrow>
    cmd_step hw late s (s\<lparr>sy_chan := c1, sy_async := (sy_async s \<or> ret = 0), sy_replies := (if ret = 0 then [] else sy_replies s)\<rparr>)"
| worker: "skw_cmd_do (sy_chan s) = c1 \<Longrightarrow>
    cmd_step hw late s (s\<lparr>sy_chan := c1, sy_replies := sy_replies s @ worker_notes (sy_chan s) c1\<rparr>)"
| abort: "skw_abort_cmd (sy_chan s) = c1 \<Longrightarrow>
    cmd_step hw late s (s\<lparr>sy_chan := c1, sy_replies := sy_replies s @ abort_notes (sy_chan s) c1\<rparr>)"
| ack: "skw_cmd_ack_handler mem data_len (sy_chan s) = (ret, c1) \<Longrightarrow>
    late \<or> ret \<noteq> 0 \<or> cc_lock (sy_chan s) = 0 \<or> cc_callback (sy_chan s) \<noteq> Cb_try_send \<Longrightarrow>
    cmd_step hw late s (s\<lparr>sy_chan := c1, sy_replies := sy_replies s @ ack_notes mem ret c1\<rparr>)"
| unlock: "cc_unlock (sy_chan s) \<Longrightarrow>
    cmd_step hw late s (s\<lparr>sy_chan := skw_work_unlock (sy_chan s), sy_async := False\<rparr>)"
| timer: "cc_timer (sy_chan s) \<Longrightarrow> late \<or> \<not> cc_unlock (sy_chan s) \<Longrightarrow>
    cmd_step hw late s (s\<lparr>sy_chan := skw_cmd_timeout_fn (sy_chan s), sy_async := False\<rparr>)"
| flags: "cmd_step hw late s (s\<lparr>sy_chan := (sy_chan s)\<lparr>cc_core_flags := w, cc_ifaces := fs\<rparr>\<rparr>)"

definition cmd_sys_init :: "u8 list \<Rightarrow> cmd_sys" where
  "cmd_sys_init buf = \<lparr>sy_chan = cmd_chan_init buf, sy_thread = (\<lambda>_. Ct_idle), sy_async = False, sy_replies = [], sy_returns = []\<rparr>"

definition cmd_reachable :: "cmd_hw \<Rightarrow> bool \<Rightarrow> u8 list \<Rightarrow> cmd_sys \<Rightarrow> bool" where
  "cmd_reachable hw late buf s \<longleftrightarrow> (cmd_step hw late)\<^sup>*\<^sup>* (cmd_sys_init buf) s"

text \<open>The status of the last acknowledgement, zero without one.\<close>

definition reply_status :: "cmd_reply list \<Rightarrow> u16" where
  "reply_status rs = fold (\<lambda>r st. case r of Acked _ _ s \<Rightarrow> s | _ \<Rightarrow> st) rs 0"

lemma reply_status_simps [simp]:
  "reply_status [] = 0" "reply_status (rs @ [Acked i n st]) = st" "reply_status (rs @ Aborted # rs1) = reply_status (rs @ rs1)"
  "reply_status (rs @ Unacked # rs1) = reply_status (rs @ rs1)"
  by (simp_all add: reply_status_def)



definition sent :: "(nat \<Rightarrow> cmd_thread) \<Rightarrow> nat set" where
  "sent f = {t. \<exists>q n again. f t = Ct_sent q n again}"












lemma run_callback_fields [simp]:
  "cc_lock (run_callback c) = cc_lock c" "cc_timer (run_callback c) = cc_timer c" "cc_id (run_callback c) = cc_id c" "cc_seq (run_callback c) = cc_seq c"
  "cc_callback (run_callback c) = cc_callback c" "cc_status (run_callback c) = cc_status c"
  "cc_unlock (run_callback c) \<longleftrightarrow> cc_unlock c \<or> cc_callback c = Cb_try_send"
  "bit (cc_flags (run_callback c)) n \<longleftrightarrow> bit (cc_flags c) n \<or> cc_callback c = Cb_xmit_timeout \<and> n = SKW_CMD_FLAG_DONE"
  by (auto simp: run_callback_def skw_msg_try_send_cb_def skw_msg_xmit_timeout_cb_def bit_simps SKW_CMD_FLAG_DONE_def split: cmd_callback.splits)




lemma sent_upd [simp]:
  "sent (f(t := Ct_idle)) = sent f - {t}" "sent (f(t := Ct_wait q)) = sent f - {t}" "sent (f(t := Ct_sent q n b)) = insert t (sent f)"
  by (auto simp: sent_def)























section \<open>Runs of the channel\<close>

text \<open>An acknowledgement of the demonstration command with status 5.\<close>

definition demo_ack_mem :: "nat \<Rightarrow> u8" where
  "demo_ack_mem i = (if i = 1 then 40 else if i = 2 then 1 else if i = 8 then 5 else 0)"

lemma demo_ack_msg: "ms_id (msg_at demo_ack_mem) = 40" "ms_seq (msg_at demo_ack_mem) = 1" "get16 [demo_ack_mem 8, demo_ack_mem 9] = 5"
  by (simp_all add: msg_at_def demo_ack_mem_def get16_def)

lemma demo_issue:
  "\<exists>c1. cmd_xmit_issue cmd_demo_hw cmd_demo (cmd_chan_init buf) = (0, c1) \<and> cc_lock c1 = 0 \<and> cc_flags c1 = set_bit SKW_CMD_FLAG_XMIT 0 \<and>
     cc_id c1 = 40 \<and> cc_seq c1 = 1 \<and> cc_callback c1 = Cb_xmit_timeout \<and> cc_status c1 = 0 \<and> cc_core_flags c1 = 0 \<and> cc_wire c1 = []"
  by (simp add: cmd_xmit_issue_def skw_cmd_lock_def skw_set_cmd_def cmd_demo_hw_def cmd_demo_def cmd_total_len_def skw_cmd_len_in_limit_def
      SKW_SDIO_CMD_MAX_LEN_def SKW_CMD_SET_MIB_def round_up_def cmd_chan_init_def Let_def)

definition demo_sent :: "u8 list \<Rightarrow> cmd_sys" where
  "demo_sent buf =
     (let c1 = snd (cmd_xmit_issue cmd_demo_hw cmd_demo (cmd_chan_init buf)) in
      \<lparr>sy_chan = c1, sy_thread = (\<lambda>_. Ct_idle)(0 := Ct_sent cmd_demo (cc_seq c1) False), sy_async = False, sy_replies = [], sy_returns = []\<rparr>)"

lemma demo_sent_chan:
  "cc_lock (sy_chan (demo_sent buf)) = 0" "cc_flags (sy_chan (demo_sent buf)) = set_bit SKW_CMD_FLAG_XMIT 0" "cc_id (sy_chan (demo_sent buf)) = 40"
  "cc_seq (sy_chan (demo_sent buf)) = 1" "cc_callback (sy_chan (demo_sent buf)) = Cb_xmit_timeout" "cc_status (sy_chan (demo_sent buf)) = 0"
  "cc_core_flags (sy_chan (demo_sent buf)) = 0" "cc_wire (sy_chan (demo_sent buf)) = []"
  "sy_thread (demo_sent buf) 0 = Ct_sent cmd_demo 1 False" "sy_replies (demo_sent buf) = []" "sy_returns (demo_sent buf) = []"
  using demo_issue [of buf] by (auto simp: demo_sent_def Let_def)

lemma demo_sent_reachable: "cmd_reachable cmd_demo_hw late buf (demo_sent buf)"
proof -
  let ?s = "(cmd_sys_init buf)\<lparr>sy_thread := (sy_thread (cmd_sys_init buf))(0 := Ct_wait cmd_demo)\<rparr>"
  have "skw_cmd_allowed (rq_inst cmd_demo) (rq_cmd cmd_demo) (rq_flags cmd_demo) (sy_chan (cmd_sys_init buf))"
    by (simp add: skw_cmd_allowed_def cmd_demo_def cmd_sys_init_def cmd_chan_init_def to_skw_iface_def skw_cmd_tx_allowed_def
        skw_tx_allowed_def Let_def)
  then have "cmd_step cmd_demo_hw late (cmd_sys_init buf) ?s"
    by (intro cmd_step.call) (simp_all add: cmd_sys_init_def cmd_demo_def)
  moreover obtain c1 where c1: "cmd_xmit_issue cmd_demo_hw cmd_demo (cmd_chan_init buf) = (0, c1)" using demo_issue by blast
  then have "cmd_step cmd_demo_hw late ?s (?s\<lparr>sy_chan := c1, sy_thread := (sy_thread ?s)(0 := Ct_sent cmd_demo (cc_seq c1) False), sy_replies := []\<rparr>)"
    by (intro cmd_step.issue) (simp_all add: cmd_sys_init_def cmd_chan_init_def)
  moreover have "?s\<lparr>sy_chan := c1, sy_thread := (sy_thread ?s)(0 := Ct_sent cmd_demo (cc_seq c1) False), sy_replies := []\<rparr> = demo_sent buf"
    using c1 by (simp add: demo_sent_def cmd_sys_init_def)
  ultimately show ?thesis unfolding cmd_reachable_def by (metis rtranclp.simps)
qed

lemma cmd_reachable_step: "cmd_reachable hw late buf s \<Longrightarrow> cmd_step hw late s s1 \<Longrightarrow> cmd_reachable hw late buf s1"
  unfolding cmd_reachable_def by (rule rtranclp.rtrancl_into_rtrancl)


section \<open>Behaviour worth knowing\<close>

text \<open>
  The timer of a command that nobody waits for gives the semaphore back, and so does the work item that a
  late acknowledgement starts: the semaphore then admits two commands at a time, which share one buffer.
\<close>

lemma late_ack_unlocks_twice: "\<exists>s. cmd_reachable cmd_demo_hw True buf s \<and> cc_lock (sy_chan s) = 2"
proof -
  let ?s = "cmd_sys_init buf"
  obtain c1 where c1: "skw_msg_try_send cmd_demo_hw True cmd_demo (sy_chan ?s) = (0, c1)" "cc_timer c1" "cc_lock c1 = 0"
    "cc_id c1 = 40" "cc_seq c1 = 1" "cc_callback c1 = Cb_try_send" "cc_flags c1 = set_bit SKW_CMD_FLAG_XMIT 0"
    by (simp add: skw_msg_try_send_def skw_set_cmd_def cmd_demo_hw_def cmd_demo_def cmd_total_len_def skw_cmd_len_in_limit_def
      SKW_SDIO_CMD_MAX_LEN_def SKW_CMD_SET_MIB_def round_up_def cmd_sys_init_def cmd_chan_init_def Let_def skw_cmd_allowed_def
      to_skw_iface_def skw_cmd_tx_allowed_def skw_tx_allowed_def)
  note r1 = cmd_reachable_step [OF _ cmd_step.try_send [OF c1(1)], of True buf]
  have r1: "cmd_reachable cmd_demo_hw True buf (?s\<lparr>sy_chan := c1, sy_async := True, sy_replies := []\<rparr>)" (is "cmd_reachable _ _ _ ?s1")
    using r1 by (simp add: cmd_reachable_def)
  let ?s2 = "?s1\<lparr>sy_chan := skw_cmd_timeout_fn (sy_chan ?s1), sy_async := False\<rparr>"
  have r2: "cmd_reachable cmd_demo_hw True buf ?s2" by (rule cmd_reachable_step [OF r1 cmd_step.timer]) (simp_all add: c1)
  have l2: "cc_lock (sy_chan ?s2) = 1" by (simp add: skw_cmd_timeout_fn_def skw_cmd_unlock_def c1)
  obtain c3 where a: "skw_cmd_ack_handler demo_ack_mem 10 (sy_chan ?s2) = (0, c3)" and c3: "cc_unlock c3" "cc_lock c3 = 1"
    using l2 by (simp add: skw_cmd_ack_handler_def demo_ack_msg skw_cmd_timeout_fn_def skw_cmd_unlock_def c1 bit_simps cmd_flag_defs Let_def)
  let ?s3 = "?s2\<lparr>sy_chan := c3, sy_replies := sy_replies ?s2 @ ack_notes demo_ack_mem 0 c3\<rparr>"
  have r3: "cmd_reachable cmd_demo_hw True buf ?s3" by (rule cmd_reachable_step [OF r2 cmd_step.ack [OF a]]) (rule disjI1, rule TrueI)
  have "cmd_reachable cmd_demo_hw True buf (?s3\<lparr>sy_chan := skw_work_unlock (sy_chan ?s3), sy_async := False\<rparr>)"
    by (rule cmd_reachable_step [OF r3 cmd_step.unlock]) (simp add: c3)
  moreover have "cc_lock (skw_work_unlock c3) = 2" using c3 by (simp add: skw_work_unlock_def)
  ultimately show ?thesis by (intro exI) auto
qed

text \<open>A command that is aborted because the driver is blocked is reported as a success, though nothing was sent.\<close>

lemma aborted_command_succeeds:
  "\<exists>s. cmd_reachable cmd_demo_hw False buf s \<and> (cmd_demo, 1, 0, [Aborted]) \<in> set (sy_returns s) \<and> cc_wire (sy_chan s) = []"
proof -
  let ?s = "demo_sent buf"
  define c1 where "c1 = skw_abort_cmd (sy_chan ?s)"
  have c1: "bit (cc_flags c1) SKW_CMD_FLAG_DONE" "cc_status c1 = 0" "cc_wire c1 = []" "abort_notes (sy_chan ?s) c1 = [Aborted]"
    by (simp_all add: c1_def skw_abort_cmd_def run_callback_def skw_msg_xmit_timeout_cb_def abort_notes_def demo_sent_chan bit_simps cmd_flag_defs)
  let ?s1 = "?s\<lparr>sy_chan := c1, sy_replies := sy_replies ?s @ abort_notes (sy_chan ?s) c1\<rparr>"
  have r1: "cmd_reachable cmd_demo_hw False buf ?s1"
    by (rule cmd_reachable_step [OF demo_sent_reachable cmd_step.abort]) (simp add: c1_def)
  have t: "sy_thread ?s1 0 = Ct_sent cmd_demo 1 False" "bit (cc_flags (sy_chan ?s1)) SKW_CMD_FLAG_DONE"
    using c1 by (simp_all add: demo_sent_chan)
  have e: "cmd_xmit_end cmd_demo (sy_chan ?s1) = (0, skw_cmd_unlock 0 c1)" using c1 by (simp add: cmd_xmit_end_def cmd_demo_def)
  note r2 = cmd_reachable_step [OF r1 cmd_step.finish [OF t e]]
  then show ?thesis using c1 by (intro exI conjI) (assumption, simp_all add: demo_sent_chan skw_cmd_unlock_def)
qed

text \<open>An acknowledgement that is too short is refused, but it also closes the door for the proper one.\<close>

lemma short_ack_blocks:
  assumes "cc_id c = 40" "cc_seq c = 1" "\<not> bit (cc_flags c) SKW_CMD_FLAG_ACKED" "skw_cmd_ack_handler demo_ack_mem 9 c = (ret, c1)"
  shows "ret = - EINVAL \<and> fst (skw_cmd_ack_handler demo_ack_mem 10 c1) = - EINVAL \<and>
    bit (cc_flags c1) SKW_CMD_FLAG_DONE = bit (cc_flags c) SKW_CMD_FLAG_DONE"
  using assms by (auto simp: skw_cmd_ack_handler_def demo_ack_msg bit_simps cmd_flag_defs Let_def)

text \<open>On the later buses the length of a command is not limited, and a long one overruns the buffer.\<close>

lemma long_command_overruns:
  assumes "ch_bus hw = SKW_BUS_SDIO2" "length (cc_buf c) = SKW_MSG_BUFFER_LEN" "SKW_MSG_BUFFER_LEN \<le> length (rq_data q)" "msg_pos hw \<le> 16"
  shows "\<exists>c1. skw_set_cmd hw q c = (0, c1) \<and> length (cc_buf c) < length (cc_buf c1)"
proof -
  obtain ret c1 where r: "skw_set_cmd hw q c = (ret, c1)" by force
  obtain b h where b: "cc_buf c1 = poke (msg_pos hw + 8) (rq_data q) (poke (msg_pos hw) (msg_bytes h) b)" "length b = length (cc_buf c)" and "ret = 0"
    using r assms(1,2) by (auto simp: skw_set_cmd_def skw_cmd_len_in_limit_def hdr_bytes_def SKW_MSG_BUFFER_LEN_def Let_def split: if_splits)
  then have "length (poke (msg_pos hw) (msg_bytes h) b) = 2048" using assms(2,4) by (simp add: SKW_MSG_BUFFER_LEN_def)
  then have "length (cc_buf c) < length (cc_buf c1)" unfolding b(1) using assms(2-4) by (simp add: poke_def [of "msg_pos hw + 8"] SKW_MSG_BUFFER_LEN_def)
  with r \<open>ret = 0\<close> show ?thesis by blast
qed

end
