(* ===== verification/Skw_Event_Props.thy ===== *)
theory Skw_Event_Props
  imports Skw_Event Skw_Msg_Props
begin

text \<open>
  What arrives from the bus is neither lost nor freed twice, and events reach their handlers in order.
\<close>

section \<open>Where the buffers are\<close>

definition work_ids :: "skw_event_work \<Rightarrow> nat multiset" where
  "work_ids w = mset (map rb_id (ew_qlist w))"

definition opt_ids :: "skw_event_work option \<Rightarrow> nat multiset" where
  "opt_ids w = (case w of None \<Rightarrow> {#} | Some w \<Rightarrow> work_ids w)"

definition ev_load :: "ev_core \<Rightarrow> nat multiset" where
  "ev_load c = work_ids (ec_work c) + (\<Sum>w \<leftarrow> ec_iface_work c. opt_ids w) + mset (map (rb_id \<circ> fst) (ec_dat_q c)) + mset (map rb_id (ec_freed c)) +
     mset (map rb_id (ec_leaked c))"

definition ev_ok :: "ev_core \<Rightarrow> bool" where
  "ev_ok c \<longleftrightarrow> length (ec_iface_work c) = 4"

lemma sum_ids_update:
  "k < length ws \<Longrightarrow> (\<Sum>w \<leftarrow> ws[k := x]. opt_ids w) + opt_ids (ws ! k) = (\<Sum>w \<leftarrow> ws. opt_ids w) + opt_ids x"
  by (induction ws arbitrary: k) (auto simp: ac_simps split: nat.splits)

lemma pull_id [simp]: "rb_id (try_pull n b) = rb_id b" "msg_pull n b = Some b1 \<Longrightarrow> rb_id b1 = rb_id b"
  by (auto simp: try_pull_def msg_pull_def split: if_splits)

lemma free_load [simp]: "ev_load (ev_free b c) = ev_load c + {#rb_id b#}" "ev_ok (ev_free b c) = ev_ok c"
  by (simp_all add: ev_load_def ev_free_def ev_ok_def)

lemma queue_event_load:
  assumes "ev_ok c" "queue_event inst b c = (ret, c1)"
  shows "ev_ok c1 \<and> ev_load c1 = ev_load c + {#rb_id b#}"
proof (cases "to_skw_iface inst (ec_iface_work c)")
  case None
  then show ?thesis using assms
    by (auto simp: queue_event_def skw_queue_event_work_def ev_load_def ev_free_def ev_ok_def work_ids_def EINVAL_def split: if_splits)
next
  case (Some w)
  then have k: "nat inst < length (ec_iface_work c)" "ec_iface_work c ! nat inst = Some w"
    using assms(1) by (auto simp: to_skw_iface_def ev_ok_def split: if_splits)
  let ?w = "w\<lparr>ew_qlist := ew_qlist w @ [b]\<rparr>"
  have "(\<Sum>w \<leftarrow> (ec_iface_work c)[nat inst := Some ?w]. opt_ids w) = (\<Sum>w \<leftarrow> ec_iface_work c. opt_ids w) + {#rb_id b#}"
    using sum_ids_update [OF k(1), of "Some ?w"] k(2) by (simp add: opt_ids_def work_ids_def)
  then show ?thesis using assms Some
    by (auto simp: queue_event_def skw_queue_event_work_def ev_load_def ev_free_def ev_ok_def EINVAL_def split: if_splits)
qed

lemma credit_load [simp]: "ev_load (skw_event_add_credit mem c) = ev_load c" "ev_ok (skw_event_add_credit mem c) = ev_ok c"
  by (simp_all add: skw_event_add_credit_def ev_add_credit_def ev_load_def ev_ok_def)

lemma rx_msg_load:
  assumes "ev_ok c"
  shows "ev_ok (rx_msg beyond b c) \<and> ev_load (rx_msg beyond b c) = ev_load c + {#rb_id b#}"
proof -
  have upd: "ev_load (c\<lparr>ec_chan := x\<rparr>) = ev_load c" "ev_ok (c\<lparr>ec_chan := x\<rparr>) = ev_ok c"
    "ev_load (c\<lparr>ec_event_sn := n\<rparr>) = ev_load c" "ev_ok (c\<lparr>ec_event_sn := n\<rparr>) = ev_ok c"
    "ev_load (c\<lparr>ec_event_sn := n, ec_chan := x\<rparr>) = ev_load c" "ev_ok (c\<lparr>ec_event_sn := n, ec_chan := x\<rparr>) = ev_ok c" for x n
    by (simp_all add: ev_load_def ev_ok_def)
  have q: "ev_ok (snd (queue_event i b (c\<lparr>ec_event_sn := n\<rparr>))) \<and> ev_load (snd (queue_event i b (c\<lparr>ec_event_sn := n\<rparr>))) = ev_load c + {#rb_id b#}" for i n
    using queue_event_load [of "c\<lparr>ec_event_sn := n\<rparr>" i b] assms by (metis upd(3,4) prod.collapse)
  show ?thesis using assms q by (simp add: rx_msg_def Let_def upd)
qed

lemma rx_cb_one_load:
  assumes "ev_ok c"
  shows "ev_ok (rx_cb_one hw beyond port usb ok b c) \<and> ev_load (rx_cb_one hw beyond port usb ok b c) = ev_load c + {#rb_id b#}"
proof -
  have dat: "ev_load (c\<lparr>ec_dat_q := ec_dat_q c @ [(x, m)]\<rparr>) = ev_load c + {#rb_id x#}" "ev_ok (c\<lparr>ec_dat_q := q\<rparr>) = ev_ok c" for x m q
    by (simp_all add: ev_load_def ev_ok_def)
  show ?thesis using assms rx_msg_load [OF assms, of beyond]
    by (auto simp: rx_cb_one_def dat Let_def split: option.splits if_splits)
qed

lemma queue_event_leaked: "ec_leaked (snd (queue_event inst b c)) = ec_leaked c"
  by (auto simp: queue_event_def skw_queue_event_work_def ev_free_def split: option.splits)

lemma rx_cb_one_leaked: "ec_leaked (rx_cb_one hw beyond port usb ok b c) = ec_leaked c"
  by (auto simp: rx_cb_one_def rx_msg_def ev_free_def skw_event_add_credit_def ev_add_credit_def queue_event_leaked Let_def split: option.splits)

lemma rx_cb_leaked: "ec_leaked (skw_rx_cb hw beyond ok port bs c) = ec_leaked c @ dropWhile (\<lambda>b. rb_bytes b \<noteq> []) bs"
proof -
  have "ec_leaked (fold (\<lambda>b. rx_cb_one hw beyond port u (ok (rb_id b)) b) xs c) = ec_leaked c" for xs u
    by (induction xs arbitrary: c) (simp_all add: rx_cb_one_leaked)
  then show ?thesis by (simp add: skw_rx_cb_def Let_def)
qed

lemma rx_cb_load:
  assumes "ev_ok c"
  shows "ev_ok (skw_rx_cb hw beyond ok port bs c) \<and> ev_load (skw_rx_cb hw beyond ok port bs c) = ev_load c + mset (map rb_id bs)"
proof -
  have split: "mset (map rb_id bs) = mset (map rb_id (takeWhile (\<lambda>b. rb_bytes b \<noteq> []) bs)) + mset (map rb_id (dropWhile (\<lambda>b. rb_bytes b \<noteq> []) bs))"
    unfolding mset_append [symmetric] map_append [symmetric] takeWhile_dropWhile_id ..
  have leak: "ev_load (c1\<lparr>ec_leaked := ec_leaked c1 @ xs\<rparr>) = ev_load c1 + mset (map rb_id xs)" "ev_ok (c1\<lparr>ec_leaked := ys\<rparr>) = ev_ok c1" for c1 xs ys
    by (simp_all add: ev_load_def ev_ok_def)
  have f: "ev_ok (fold (\<lambda>b. rx_cb_one hw beyond port u (ok (rb_id b)) b) xs c) \<and>
      ev_load (fold (\<lambda>b. rx_cb_one hw beyond port u (ok (rb_id b)) b) xs c) = ev_load c + mset (map rb_id xs)" for xs u
    using assms
  proof (induction xs arbitrary: c)
    case (Cons b xs)
    then show ?case using rx_cb_one_load [of c hw beyond port u "ok (rb_id b)" b] by (auto simp: ac_simps)
  qed simp
  show ?thesis unfolding skw_rx_cb_def Let_def leak split
    using f [of "usb_port_of hw beyond bs" "takeWhile (\<lambda>b. rb_bytes b \<noteq> []) bs"] by (simp add: add.assoc)
qed

lemma handler_load: "skw_event_handler iface m p c = Some c1 \<Longrightarrow> ev_load c1 = ev_load c \<and> ev_ok c1 = ev_ok c"
  by (auto simp: skw_event_handler_def ev_load_def ev_ok_def Let_def split: if_splits)

lemma event_loop_load: "event_loop beyond iface bs c = Some c1 \<Longrightarrow> ev_load c1 = ev_load c + mset (map rb_id bs) \<and> ev_ok c1 = ev_ok c"
proof (induction bs arbitrary: c)
  case (Cons b bs)
  then obtain c2 where e: "event_one beyond iface b c = Some c2" "event_loop beyond iface bs c2 = Some c1"
    by (auto split: option.splits)
  then have "ev_load c2 = ev_load c + {#rb_id b#}" "ev_ok c2 = ev_ok c"
    by (auto simp: event_one_def dest: handler_load split: option.splits)
  then show ?case using Cons.IH [OF e(2)] by (simp add: ac_simps)
qed simp

lemma default_work_load:
  assumes "skw_default_event_work beyond c = Some c1"
  shows "ev_load c1 = ev_load c \<and> ev_ok c1 = ev_ok c"
  using event_loop_load [OF assms [unfolded skw_default_event_work_def]]
  by (simp add: ev_load_def ev_ok_def work_ids_def ac_simps)

lemma iface_work_load:
  assumes "ev_ok c" "i < 4" "skw_iface_event_work beyond i c = Some c1"
  shows "ev_load c1 = ev_load c \<and> ev_ok c1"
proof (cases "ec_iface_work c ! i")
  case None
  then show ?thesis using assms by (simp add: skw_iface_event_work_def)
next
  case (Some w)
  have k: "i < length (ec_iface_work c)" using assms by (simp add: ev_ok_def)
  let ?c = "c\<lparr>ec_iface_work := (ec_iface_work c)[i := Some (w\<lparr>ew_qlist := []\<rparr>)]\<rparr>"
  have e: "event_loop beyond (Some (int i)) (ew_qlist w) ?c = Some c1" using assms(3) Some by (simp add: skw_iface_event_work_def)
  have "ev_load ?c + mset (map rb_id (ew_qlist w)) = ev_load c"
    using sum_ids_update [OF k, of "Some (w\<lparr>ew_qlist := []\<rparr>)"] Some by (simp add: ev_load_def opt_ids_def work_ids_def ac_simps)
  then show ?thesis using event_loop_load [OF e] assms(1) by (simp add: ev_ok_def)
qed

section \<open>The default queue holds no event of the driver itself\<close>

definition is_local :: "(nat \<Rightarrow> u8) \<Rightarrow> rx_buf \<Rightarrow> bool" where
  "is_local beyond b \<longleftrightarrow> ms_type (msg_at (buf_mem beyond (rb_bytes b))) = SKW_MSG_EVENT_LOCAL"

definition no_local :: "(nat \<Rightarrow> u8) \<Rightarrow> ev_core \<Rightarrow> bool" where
  "no_local beyond c \<longleftrightarrow> (\<forall>b \<in> set (ew_qlist (ec_work c)). \<not> is_local beyond b)"

lemma rx_msg_work:
  "set (ew_qlist (ec_work (rx_msg beyond b c))) \<subseteq> set (ew_qlist (ec_work c)) \<union> {x. \<not> is_local beyond x}"
  by (auto simp: rx_msg_def queue_event_def skw_queue_event_work_def ev_free_def skw_event_add_credit_def ev_add_credit_def is_local_def
      SKW_MSG_EVENT_def SKW_MSG_EVENT_LOCAL_def EINVAL_def Let_def split: option.splits if_splits)

lemma rx_cb_one_work:
  "set (ew_qlist (ec_work (rx_cb_one hw beyond port usb ok b c))) \<subseteq> set (ew_qlist (ec_work c)) \<union> {x. \<not> is_local beyond x}"
proof -
  have "x \<in> set (ew_qlist (ec_work c)) \<or> \<not> is_local beyond x" if "x \<in> set (ew_qlist (ec_work (rx_msg beyond b2 c)))" for x b2
    using that rx_msg_work [of beyond b2 c] by auto
  then show ?thesis by (auto simp: rx_cb_one_def ev_free_def Let_def split: option.splits if_splits)
qed

lemma rx_cb_no_local:
  assumes "no_local beyond c"
  shows "no_local beyond (skw_rx_cb hw beyond ok port bs c)"
proof -
  have "set (ew_qlist (ec_work (fold (\<lambda>b. rx_cb_one hw beyond port u (ok (rb_id b)) b) xs c))) \<subseteq>
      set (ew_qlist (ec_work c)) \<union> {x. \<not> is_local beyond x}" for xs u
  proof (induction xs arbitrary: c)
    case (Cons b xs)
    show ?case using Cons.IH rx_cb_one_work [of hw beyond port u "ok (rb_id b)" b c] by fastforce
  qed simp
  then show ?thesis using assms by (fastforce simp: no_local_def skw_rx_cb_def Let_def)
qed

lemma handler_fault: "skw_event_handler iface m p c = None \<longleftrightarrow> ms_type m = SKW_MSG_EVENT_LOCAL \<and> iface = None"
  by (simp add: skw_event_handler_def Let_def)

lemma event_loop_total:
  "iface \<noteq> None \<or> (\<forall>b \<in> set bs. \<not> is_local beyond b) \<Longrightarrow> \<exists>c1. event_loop beyond iface bs c = Some c1"
proof (induction bs arbitrary: c)
  case (Cons b bs)
  then have "skw_event_handler iface (msg_at (buf_mem beyond (rb_bytes b))) (rb_bytes (try_pull 8 b)) c \<noteq> None"
    by (auto simp: handler_fault is_local_def)
  then show ?case using Cons by (auto simp: event_one_def)
qed simp

lemma handler_work: "skw_event_handler iface m p c = Some c1 \<Longrightarrow> ec_work c1 = ec_work c \<and> ec_iface_work c1 = ec_iface_work c"
  by (auto simp: skw_event_handler_def Let_def split: if_splits)

lemma event_loop_work: "event_loop beyond iface bs c = Some c1 \<Longrightarrow> ec_work c1 = ec_work c \<and> ec_iface_work c1 = ec_iface_work c"
proof (induction bs arbitrary: c)
  case (Cons b bs)
  then obtain c2 where "event_one beyond iface b c = Some c2" "event_loop beyond iface bs c2 = Some c1"
    by (auto split: option.splits)
  then show ?case using Cons.IH by (auto simp: event_one_def ev_free_def dest!: handler_work split: option.splits)
qed simp

section \<open>The machine\<close>

datatype ev_op =
  EvRx "nat \<Rightarrow> bool" int "rx_buf list" | EvDefault | EvIface nat | EvLocal nat bool u16 "nat option" nat "u8 list"

primrec ev_step :: "ev_hw \<Rightarrow> (nat \<Rightarrow> u8) \<Rightarrow> ev_op \<Rightarrow> ev_core \<Rightarrow> ev_core" where
  "ev_step hw beyond (EvRx ok port bs) c = skw_rx_cb hw beyond ok port bs c"
| "ev_step hw beyond EvDefault c = (case skw_default_event_work beyond c of None \<Rightarrow> c | Some c1 \<Rightarrow> c1)"
| "ev_step hw beyond (EvIface i) c = (case skw_iface_event_work beyond i c of None \<Rightarrow> c | Some c1 \<Rightarrow> c1)"
| "ev_step hw beyond (EvLocal n ok sn i e p) c = snd (snd (skw_queue_local_event n ok sn (map_option int i) e p c))"

text \<open>A run ends at a fault of the driver's event work. An interface that is named exists.\<close>

primrec ev_guard :: "(nat \<Rightarrow> u8) \<Rightarrow> ev_op \<Rightarrow> ev_core \<Rightarrow> bool" where
  "ev_guard beyond (EvRx ok port bs) c \<longleftrightarrow> True"
| "ev_guard beyond EvDefault c \<longleftrightarrow> skw_default_event_work beyond c \<noteq> None"
| "ev_guard beyond (EvIface i) c \<longleftrightarrow> i < 4"
| "ev_guard beyond (EvLocal n ok sn i e p) c \<longleftrightarrow> (case i of None \<Rightarrow> True | Some k \<Rightarrow> k < 4 \<and> ec_iface_work c ! k \<noteq> None)"

primrec ev_input :: "ev_op \<Rightarrow> nat multiset" where
  "ev_input (EvRx ok port bs) = mset (map rb_id bs)"
| "ev_input EvDefault = {#}"
| "ev_input (EvIface i) = {#}"
| "ev_input (EvLocal n ok sn i e p) = (if ok then {#n#} else {#})"

text \<open>What a step skips, and whether it queues an event of the driver itself without an interface.\<close>

primrec ev_skipped :: "ev_op \<Rightarrow> rx_buf list" where
  "ev_skipped (EvRx ok port bs) = dropWhile (\<lambda>b. rb_bytes b \<noteq> []) bs"
| "ev_skipped EvDefault = []"
| "ev_skipped (EvIface i) = []"
| "ev_skipped (EvLocal n ok sn i e p) = []"

primrec ev_orphan :: "ev_op \<Rightarrow> bool" where
  "ev_orphan (EvRx ok port bs) = False"
| "ev_orphan EvDefault = False"
| "ev_orphan (EvIface i) = False"
| "ev_orphan (EvLocal n ok sn i e p) = (i = None)"

lemma local_event_keeps:
  assumes "ev_ok c" "skw_queue_local_event n ok sn i e p c = (ret, sn1, c1)"
  shows "ev_ok c1 \<and> ev_load c1 = ev_load c + (if ok then {#n#} else {#}) \<and> ec_leaked c1 = ec_leaked c"
proof (cases ok)
  case True
  obtain b j where q: "queue_event j b c = (ret, c1)" "rb_id b = n"
    using assms(2) True by (auto simp: skw_queue_local_event_def Let_def split: prod.splits)
  then show ?thesis using queue_event_load [OF assms(1) q(1)] queue_event_leaked [of j b c] True by simp
qed (use assms in \<open>simp add: skw_queue_local_event_def\<close>)

lemma local_event_work:
  assumes "i < 4" "ec_iface_work c ! i \<noteq> None"
  shows "ec_work (snd (snd (skw_queue_local_event n ok sn (Some (int i)) e p c))) = ec_work c"
proof -
  obtain w where "to_skw_iface (int i) (ec_iface_work c) = Some w" using assms by (auto simp: to_skw_iface_def)
  then have "ec_work (snd (queue_event (int i) b c)) = ec_work c" for b by (auto simp: queue_event_def ev_free_def split: prod.splits if_splits)
  then show ?thesis by (auto simp: skw_queue_local_event_def Let_def split: prod.splits) (metis snd_conv)
qed

lemma event_handler_leaked: "skw_event_handler iface m p c = Some c1 \<Longrightarrow> ec_leaked c1 = ec_leaked c"
  by (auto simp: skw_event_handler_def Let_def split: if_splits)

lemma event_loop_leaked: "event_loop beyond iface bs c = Some c1 \<Longrightarrow> ec_leaked c1 = ec_leaked c"
proof (induction bs arbitrary: c)
  case (Cons b bs)
  then obtain c2 where "event_one beyond iface b c = Some c2" "event_loop beyond iface bs c2 = Some c1"
    by (auto split: option.splits)
  then show ?case using Cons.IH by (auto simp: event_one_def ev_free_def dest!: event_handler_leaked split: option.splits)
qed simp

lemma ev_step_keeps:
  assumes ok: "ev_ok c" and g: "ev_guard beyond e c"
  shows "ev_ok (ev_step hw beyond e c) \<and> ev_load (ev_step hw beyond e c) = ev_load c + ev_input e \<and>
    ec_leaked (ev_step hw beyond e c) = ec_leaked c @ ev_skipped e \<and>
    (no_local beyond c \<longrightarrow> \<not> ev_orphan e \<longrightarrow> no_local beyond (ev_step hw beyond e c))"
proof (cases e)
  case (EvRx ok port bs)
  then show ?thesis using rx_cb_no_local [of beyond c hw ok port bs] rx_cb_load [OF assms(1), of hw beyond ok port bs] rx_cb_leaked [of hw beyond ok port bs c] by simp
next
  case EvDefault
  show ?thesis
  proof (cases "skw_default_event_work beyond c")
    case (Some c1)
    then have e: "event_loop beyond None (ew_qlist (ec_work c)) (c\<lparr>ec_work := (ec_work c)\<lparr>ew_qlist := []\<rparr>\<rparr>) = Some c1"
      by (simp add: skw_default_event_work_def)
    have "ec_work c1 = (ec_work c)\<lparr>ew_qlist := []\<rparr>" "ec_leaked c1 = ec_leaked c"
      using event_loop_work [OF e] event_loop_leaked [OF e] by simp_all
    then show ?thesis using default_work_load [OF Some] ok EvDefault Some by (simp add: no_local_def)
  qed (use ok EvDefault in simp)
next
  case (EvIface i)
  show ?thesis
  proof (cases "skw_iface_event_work beyond i c")
    case (Some c1)
    have "ec_work c1 = ec_work c" using Some by (auto simp: skw_iface_event_work_def dest!: event_loop_work split: option.splits)
    moreover have "ec_leaked c1 = ec_leaked c" using Some by (auto simp: skw_iface_event_work_def dest!: event_loop_leaked split: option.splits)
    ultimately show ?thesis using iface_work_load [OF ok _ Some] g EvIface Some by (simp add: no_local_def)
  qed (use ok EvIface in simp)
next
  case (EvLocal n k sn i e p)
  obtain ret sn1 c1 where q: "skw_queue_local_event n k sn (map_option int i) e p c = (ret, sn1, c1)" by (metis prod_cases3)
  have "no_local beyond c1" if "no_local beyond c" "i \<noteq> None"
    using that local_event_work [of "the i" c n k sn e p] g q EvLocal by (auto simp: no_local_def)
  then show ?thesis using local_event_keeps [OF ok q] q EvLocal by auto
qed

interpretation ev_path: conserving_machine "ev_step hw beyond" ev_ok "ev_guard beyond" ev_load ev_input
  by unfold_locales (simp_all add: ev_step_keeps)

lemma ev_run_leaked:
  assumes "ev_ok c" "guarded_run (ev_guard beyond) (ev_step hw beyond) es c"
  shows "ec_leaked (fold (ev_step hw beyond) es c) = ec_leaked c @ concat (map ev_skipped es) \<and>
    (no_local beyond c \<longrightarrow> \<not> list_ex ev_orphan es \<longrightarrow> no_local beyond (fold (ev_step hw beyond) es c))"
  using assms
proof (induction es arbitrary: c)
  case (Cons e es)
  then have g: "ev_guard beyond e c" "guarded_run (ev_guard beyond) (ev_step hw beyond) es (ev_step hw beyond e c)" by simp_all
  note k = ev_step_keeps [OF Cons.prems(1) g(1), of hw]
  then show ?case using Cons.IH [OF _ g(2)] by simp
qed simp

text \<open>
  C19. Over any sequence of lists from the bus, events of the driver itself and runs of the two kinds of event work, up to a fault of the driver's event
  work, every buffer of every list and every event is in exactly one place: a queue of events, the queue of the receive thread, freed, or skipped. The buffers
  skipped, which nobody frees, are exactly those from the first empty entry of a list on. The event work of an interface never faults; that of the driver does not
  fault if it does not start with an event of the driver itself in its queue and each such event of the run names an interface, as all five callers of
  \<open>skw_queue_local_event\<close> do.
\<close>

theorem events_conserved:
  assumes "ev_ok c" "guarded_run (ev_guard beyond) (ev_step hw beyond) es c"
  defines "c1 \<equiv> fold (ev_step hw beyond) es c"
  shows "ev_load c1 = ev_load c + (\<Sum>e \<leftarrow> es. ev_input e) \<and> ec_leaked c1 = ec_leaked c @ concat (map ev_skipped es) \<and>
    skw_iface_event_work beyond i c1 \<noteq> None \<and> (no_local beyond c \<longrightarrow> \<not> list_ex ev_orphan es \<longrightarrow> skw_default_event_work beyond c1 \<noteq> None)"
proof -
  have l: "ec_leaked c1 = ec_leaked c @ concat (map ev_skipped es)" and n: "no_local beyond c \<Longrightarrow> \<not> list_ex ev_orphan es \<Longrightarrow> no_local beyond c1"
    unfolding c1_def using ev_run_leaked [OF assms(1,2)] by blast+
  have "no_local beyond c1 \<Longrightarrow> skw_default_event_work beyond c1 \<noteq> None"
    using event_loop_total [of None "ew_qlist (ec_work c1)" beyond] by (auto simp: skw_default_event_work_def no_local_def)
  moreover have "skw_iface_event_work beyond i c1 \<noteq> None"
    using event_loop_total [of "Some (int i)"] by (auto simp: skw_iface_event_work_def split: option.splits)
  ultimately show ?thesis using l n ev_path.run_load [OF assms(1,2), folded c1_def] by blast
qed

definition demo_ev_core :: ev_core where
  "demo_ev_core = \<lparr>ec_chan = cmd_chan_init (replicate 2048 0), ec_event_sn = 0, ec_work = skw_event_work_init,
     ec_iface_work = [Some skw_event_work_init, None, None, None], ec_credit = [0, 0], ec_dat_q = [], ec_freed = [], ec_leaked = [], ec_calls = []\<rparr>"

definition demo_ev_hw :: ev_hw where
  "demo_ev_hw = \<lparr>eh_bus = SKW_BUS_SDIO, eh_cmd_port = 1, eh_dports = [2], eh_lports = [0], eh_rx_sdma = True, eh_data_align = id,
     eh_share_len = 320, eh_max_buf = 2048\<rparr>"

lemma demo_ev_inv: "ev_ok demo_ev_core" "no_local beyond demo_ev_core"
  by (simp_all add: no_local_def ev_ok_def demo_ev_core_def skw_event_work_init_def)

text \<open>The end of a scan, as the firmware's first event for interface 0.\<close>

definition demo_event :: rx_buf where
  "demo_event = \<lparr>rb_id = 7, rb_bytes = replicate 16 0 @ [0x20, 0, 1, 0, 8, 0, 0, 0]\<rparr>"

theorem events_conserved_witness:
  "let c1 = fold (ev_step demo_ev_hw (\<lambda>_. 0)) [EvRx (\<lambda>_. True) 1 [demo_event, \<lparr>rb_id = 8, rb_bytes = []\<rparr>], EvIface 0] demo_ev_core in
     ev_load c1 = {#7, 8#} \<and> map rb_id (ec_leaked c1) = [8] \<and> skw_default_event_work (\<lambda>_. 0) c1 \<noteq> None"
proof -
  have g: "guarded_run (ev_guard (\<lambda>_. 0)) (ev_step demo_ev_hw (\<lambda>_. 0)) [EvRx (\<lambda>_. True) 1 [demo_event, \<lparr>rb_id = 8, rb_bytes = []\<rparr>], EvIface 0] demo_ev_core" by simp
  have "ev_load demo_ev_core = {#}" "ec_leaked demo_ev_core = []"
    by (simp_all add: ev_load_def demo_ev_core_def skw_event_work_init_def work_ids_def opt_ids_def)
  then show ?thesis using events_conserved [OF demo_ev_inv(1) g, of 0] demo_ev_inv(2) by (simp add: demo_event_def Let_def add_mset_commute)
qed

section \<open>Events reach their handlers in order\<close>

definition hdr_len :: "ev_hw \<Rightarrow> nat" where
  "hdr_len hw = (if eh_bus hw = SKW_BUS_SDIO then 16 else 12)"

text \<open>A buffer with an event for interface \<open>i\<close> and number \<open>n\<close>, other than a grant of credits, of a size the driver takes.\<close>

definition event_msg :: "ev_hw \<Rightarrow> skw_msg \<Rightarrow> nat \<Rightarrow> u16 \<Rightarrow> bool" where
  "event_msg hw m i n \<longleftrightarrow> ms_type m = SKW_MSG_EVENT \<and> unat (ms_inst_id m) = i \<and> ms_seq m = n \<and> ms_id m \<noteq> SKW_EVENT_CREDIT_UPDATE"

definition msg_of :: "ev_hw \<Rightarrow> rx_buf \<Rightarrow> skw_msg" where
  "msg_of hw b = msg_at (\<lambda>k. rb_bytes b ! (hdr_len hw + k))"

definition buf_fits :: "ev_hw \<Rightarrow> rx_buf \<Rightarrow> bool" where
  "buf_fits hw b \<longleftrightarrow> hdr_len hw + 8 \<le> length (rb_bytes b) \<and> (eh_rx_sdma hw \<or> eh_data_align hw (length (rb_bytes b)) + eh_share_len hw \<le> eh_max_buf hw)"

primrec event_seq :: "ev_hw \<Rightarrow> nat \<Rightarrow> u16 \<Rightarrow> rx_buf list \<Rightarrow> bool" where
  "event_seq hw i sn [] \<longleftrightarrow> True"
| "event_seq hw i sn (b # bs) \<longleftrightarrow> buf_fits hw b \<and> event_msg hw (msg_of hw b) i (sn + 1) \<and> event_seq hw i (sn + 1) bs"

lemma event_seq_fits: "event_seq hw i sn bs \<Longrightarrow> \<forall>b \<in> set bs. buf_fits hw b"
  by (induction bs arbitrary: sn) auto

definition pulled :: "ev_hw \<Rightarrow> rx_buf \<Rightarrow> rx_buf" where
  "pulled hw b = b\<lparr>rb_bytes := drop (hdr_len hw) (rb_bytes b)\<rparr>"

lemma pulled_bytes: "rb_bytes (pulled hw b) = drop (hdr_len hw) (rb_bytes b)"
  by (simp add: pulled_def)

lemma rx_cb_one_msg:
  "buf_fits hw b \<Longrightarrow> rx_cb_one hw beyond (eh_cmd_port hw) usb True b c = rx_msg beyond (pulled hw b) c"
  by (auto simp: rx_cb_one_def buf_fits_def hdr_len_def pulled_def try_pull_def msg_pull_def Let_def)

lemma msg_at_cong: "(\<And>k. k < 6 \<Longrightarrow> f k = g k) \<Longrightarrow> msg_at f = msg_at g"
  by (simp add: msg_at_def)

lemma msg_of_pulled: "buf_fits hw b \<Longrightarrow> msg_at (buf_mem beyond (rb_bytes (pulled hw b))) = msg_of hw b"
  unfolding msg_of_def by (rule msg_at_cong) (auto simp: buf_mem_def pulled_def buf_fits_def)

lemma rx_cb_events:
  assumes "ev_ok c" "i < 4" "ec_iface_work c ! i = Some w" "ew_enabled w" "event_seq hw i (ec_event_sn c) bs"
  shows "\<exists>c1. fold (\<lambda>b. rx_cb_one hw beyond (eh_cmd_port hw) u True b) bs c = c1 \<and> ev_ok c1 \<and> ec_chan c1 = ec_chan c \<and> ec_calls c1 = ec_calls c \<and>
    ec_iface_work c1 ! i = Some (w\<lparr>ew_qlist := ew_qlist w @ map (pulled hw) bs\<rparr>) \<and> ec_event_sn c1 = ec_event_sn c + of_nat (length bs)"
  using assms
proof (induction bs arbitrary: c w)
  case (Cons b bs)
  have m: "buf_fits hw b" "event_msg hw (msg_of hw b) i (ec_event_sn c + 1)" using Cons.prems(5) by auto
  let ?w = "w\<lparr>ew_qlist := ew_qlist w @ [pulled hw b]\<rparr>"
  let ?c = "c\<lparr>ec_event_sn := ec_event_sn c + 1, ec_iface_work := (ec_iface_work c)[i := Some ?w]\<rparr>"
  have "rx_cb_one hw beyond (eh_cmd_port hw) u True b c = rx_msg beyond (pulled hw b) c" by (rule rx_cb_one_msg [OF m(1)])
  also have "\<dots> = ?c" using m(2) Cons.prems(2-4)
    by (simp add: rx_msg_def msg_of_pulled [OF m(1)] event_msg_def queue_event_def to_skw_iface_def skw_queue_event_work_def
        SKW_MSG_EVENT_def SKW_MSG_CMD_ACK_def Let_def)
  finally have e: "rx_cb_one hw beyond (eh_cmd_port hw) u True b c = ?c" .
  have "ev_ok ?c" "ec_iface_work ?c ! i = Some ?w" using Cons.prems(1,2) by (simp_all add: ev_ok_def)
  from Cons.IH [OF this(1) Cons.prems(2) this(2)] Cons.prems(4,5) e show ?case by (auto simp: add.assoc)
qed simp

lemma event_one_call:
  assumes "event_msg hw (msg_at (buf_mem beyond (rb_bytes b))) i n" "8 \<le> length (rb_bytes b)"
  shows "\<exists>c1. event_one beyond (Some (int i)) b c = Some c1 \<and> ec_calls c1 = ec_calls c @
      (let k = unat (ms_id (msg_at (buf_mem beyond (rb_bytes b)))) in
       if k < SKW_EVENT_MAX \<and> g_event_fn k then [(False, k, Some (int i), drop 8 (rb_bytes b))] else []) \<and>
    ec_chan c1 = ec_chan c \<and> ec_event_sn c1 = ec_event_sn c"
  using assms by (auto simp: event_one_def event_msg_def skw_event_handler_def try_pull_def msg_pull_def ev_free_def
      SKW_MSG_EVENT_def SKW_MSG_EVENT_LOCAL_def Let_def)

text \<open>The call made for an event, if its identifier has a handler.\<close>

definition call_of :: "ev_hw \<Rightarrow> nat \<Rightarrow> rx_buf \<Rightarrow> (bool \<times> nat \<times> int option \<times> u8 list) list" where
  "call_of hw i b = (let k = unat (ms_id (msg_of hw b)) in
     if k < SKW_EVENT_MAX \<and> g_event_fn k then [(False, k, Some (int i), drop (hdr_len hw + 8) (rb_bytes b))] else [])"

lemma event_loop_calls:
  assumes "event_seq hw i sn bs"
  shows "\<exists>c1. event_loop beyond (Some (int i)) (map (pulled hw) bs) c = Some c1 \<and> ec_calls c1 = ec_calls c @ concat (map (call_of hw i) bs) \<and>
    ec_chan c1 = ec_chan c \<and> ec_event_sn c1 = ec_event_sn c"
  using assms
proof (induction bs arbitrary: c sn)
  case (Cons b bs)
  have m: "buf_fits hw b" "event_msg hw (msg_of hw b) i (sn + 1)" using Cons.prems by auto
  have "event_msg hw (msg_at (buf_mem beyond (rb_bytes (pulled hw b)))) i (sn + 1)" "8 \<le> length (rb_bytes (pulled hw b))"
    using m msg_of_pulled [OF m(1)] by (auto simp: pulled_def buf_fits_def)
  from event_one_call [OF this, of c, unfolded msg_of_pulled [OF m(1)]] obtain c1 where c1: "event_one beyond (Some (int i)) (pulled hw b) c = Some c1"
    "ec_calls c1 = ec_calls c @ call_of hw i b" "ec_chan c1 = ec_chan c" "ec_event_sn c1 = ec_event_sn c"
    by (auto simp: call_of_def pulled_bytes add.commute Let_def split: if_splits)
  from Cons.IH [of "sn + 1" c1] Cons.prems c1 show ?case by auto
qed simp

text \<open>
  C18. Events that the firmware numbers consecutively, delivered over the command port for an open
  interface whose queue is empty, are handled in exactly the order of their numbers: one run
  of the interface's event work calls, for each, the handler of its identifier with its payload. The firmware is not
  asserted, and the counter of events has moved on by their number.
\<close>

theorem events_in_order:
  assumes "ev_ok c" "i < 4" "ec_iface_work c ! i = Some \<lparr>ew_enabled = True, ew_qlist = []\<rparr>" "event_seq hw i (ec_event_sn c) bs"
  shows "\<exists>c1. skw_iface_event_work beyond i (skw_rx_cb hw beyond (\<lambda>_. True) (eh_cmd_port hw) bs c) = Some c1 \<and>
    ec_calls c1 = ec_calls c @ concat (map (call_of hw i) bs) \<and> ec_chan c1 = ec_chan c \<and>
    ec_event_sn c1 = ec_event_sn c + of_nat (length bs)"
proof -
  have "\<forall>b \<in> set bs. buf_fits hw b" by (rule event_seq_fits [OF assms(4)])
  then have "rb_bytes b \<noteq> []" if "b \<in> set bs" for b using that by (auto simp: buf_fits_def)
  then have t: "takeWhile (\<lambda>b. rb_bytes b \<noteq> []) bs = bs" by (simp add: takeWhile_eq_all_conv)
  define c2 where "c2 = skw_rx_cb hw beyond (\<lambda>_. True) (eh_cmd_port hw) bs c"
  have c2: "ec_chan c2 = ec_chan c" "ec_calls c2 = ec_calls c"
      "ec_iface_work c2 ! i = Some \<lparr>ew_enabled = True, ew_qlist = map (pulled hw) bs\<rparr>" "ec_event_sn c2 = ec_event_sn c + of_nat (length bs)"
    using rx_cb_events [OF assms(1-3) _ assms(4), of beyond "usb_port_of hw beyond bs"] by (simp_all add: c2_def skw_rx_cb_def t Let_def)
  let ?c = "c2\<lparr>ec_iface_work := (ec_iface_work c2)[i := Some \<lparr>ew_enabled = True, ew_qlist = []\<rparr>]\<rparr>"
  from event_loop_calls [OF assms(4), of beyond ?c] c2 show ?thesis unfolding c2_def [symmetric] by (auto simp: skw_iface_event_work_def)
qed

theorem events_in_order_witness:
  "\<exists>c1. skw_iface_event_work (\<lambda>_. 0) 0 (skw_rx_cb demo_ev_hw (\<lambda>_. 0) (\<lambda>_. True) 1 [demo_event] demo_ev_core) = Some c1 \<and>
     ec_calls c1 = [(False, 0, Some 0, [])] \<and> ec_event_sn c1 = 1"
proof -
  have h: "hdr_len demo_ev_hw = 16" by (simp add: hdr_len_def demo_ev_hw_def)
  have m: "msg_of demo_ev_hw demo_event = \<lparr>ms_inst_id = 0, ms_type = SKW_MSG_EVENT, ms_id = 0, ms_seq = 1, ms_total_len = 8\<rparr>"
    by (simp add: msg_of_def h demo_event_def msg_at_def get16_def nth_append SKW_MSG_EVENT_def)
  have "event_seq demo_ev_hw 0 (ec_event_sn demo_ev_core) [demo_event]"
    by (simp add: m buf_fits_def event_msg_def h) (simp add: demo_event_def demo_ev_core_def demo_ev_hw_def SKW_EVENT_CREDIT_UPDATE_def)
  moreover have "ev_ok demo_ev_core" "ec_iface_work demo_ev_core ! 0 = Some \<lparr>ew_enabled = True, ew_qlist = []\<rparr>"
    by (simp_all add: ev_ok_def demo_ev_core_def skw_event_work_init_def)
  moreover have "eh_cmd_port demo_ev_hw = 1" "ec_calls demo_ev_core = []" "ec_event_sn demo_ev_core = 0"
    by (simp_all add: demo_ev_hw_def demo_ev_core_def)
  moreover have "call_of demo_ev_hw 0 demo_event = [(False, 0, Some 0, [])]"
    by (simp add: call_of_def m h) (simp add: g_event_fn_def SKW_EVENT_MAX_def demo_event_def)
  ultimately show ?thesis using events_in_order [of demo_ev_core 0 demo_ev_hw "[demo_event]" "\<lambda>_. 0"] by auto
qed

section \<open>Behaviour worth knowing\<close>

text \<open>After a lost event every later one is refused as well: the counter counts what arrived.\<close>

lemma lost_event_refuses_next:
  assumes "ms_type (msg_at (buf_mem beyond (rb_bytes b))) = SKW_MSG_EVENT" "ms_type (msg_at (buf_mem beyond (rb_bytes d))) = SKW_MSG_EVENT"
    "ms_seq (msg_at (buf_mem beyond (rb_bytes b))) = ec_event_sn c + 2" "ms_seq (msg_at (buf_mem beyond (rb_bytes d))) = ec_event_sn c + 3"
  shows "ec_freed (rx_msg beyond d (rx_msg beyond b c)) = ec_freed c @ [b, d]"
  using assms by (simp add: rx_msg_def ev_free_def SKW_MSG_EVENT_def SKW_MSG_CMD_ACK_def Let_def)

text \<open>An event of the driver itself without an interface makes the default event work fault.\<close>

lemma local_event_without_iface_faults:
  "skw_default_event_work (\<lambda>_. 0) (snd (snd (skw_queue_local_event 1 True 0 None 1 [] demo_ev_core))) = None"
  by (simp add: skw_queue_local_event_def queue_event_def to_skw_iface_def skw_queue_event_work_def demo_ev_core_def skw_event_work_init_def
      skw_default_event_work_def event_one_def skw_event_handler_def msg_at_def buf_mem_def msg_bytes_def le16_def SKW_MSG_EVENT_LOCAL_def Let_def)

text \<open>An empty entry ends the loop over the list: what lies behind it is neither handled nor freed.\<close>

lemma empty_entry_leaks:
  "skw_rx_cb hw beyond ok port (\<lparr>rb_id = 1, rb_bytes = []\<rparr> # bs) c = c\<lparr>ec_leaked := ec_leaked c @ \<lparr>rb_id = 1, rb_bytes = []\<rparr> # bs\<rparr>"
  by (simp add: skw_rx_cb_def)

end
