(* ===== verification/Skw_Work.thy ===== *)
theory Skw_Work
  imports Skw_Msg
begin

text \<open>
  The work list of the driver, \<^verbatim>\<open>skw_work.c\<close>, with the list of objects to be freed after a grace period: the operations, the
  handler as one function, and the handler's sections among its callers as a step relation; and the checks of
  stations against the access control list that it runs (\<^verbatim>\<open>skw_iface.c\<close>, \<^verbatim>\<open>skw_msg.c\<close>).
\<close>

section \<open>Bits of a map\<close>

text \<open>\<open>ffs(map) - 1\<close> for a map that is not zero, and the loop that takes one bit after the other.\<close>

definition lowest_bit :: "u32 \<Rightarrow> nat" where
  "lowest_bit w = (case List.find (bit w) [0..<32] of None \<Rightarrow> 0 | Some i \<Rightarrow> i)"

lemma lowest_bit_set: "w \<noteq> 0 \<Longrightarrow> bit w (lowest_bit w) \<and> lowest_bit w < 32"
proof -
  assume "w \<noteq> 0"
  then obtain n where n: "bit w n" by (metis bit_eqI bit_0_eq bot_apply bot_bool_def)
  then have "n < 32" using bit_imp_le_length by fastforce
  with n obtain i where i: "List.find (bit w) [0..<32] = Some i" by (cases "List.find (bit w) [0..<32]") (auto simp: find_None_iff)
  then have "bit w i \<and> i < 32" by (auto simp: find_Some_iff)
  then show ?thesis by (simp add: lowest_bit_def i)
qed

lemma unset_bit_less:
  fixes w :: u32
  assumes "bit w i"
  shows "unat (unset_bit i w) < unat w"
proof -
  have "unset_bit i w \<noteq> w" using assms by (metis bit_unset_bit_iff)
  moreover have "unset_bit i w \<le> w" unfolding unset_bit_eq_and_not by (rule word_and_le2)
  ultimately show ?thesis by (simp add: word_less_nat_alt [symmetric])
qed

function map_bits :: "u32 \<Rightarrow> nat list" where
  "map_bits w = (if w = 0 then [] else lowest_bit w # map_bits (unset_bit (lowest_bit w) w))"
  by pat_completeness auto
termination
  by (relation "measure unat") (auto intro: unset_bit_less dest: lowest_bit_set)

declare map_bits.simps [simp del]

section \<open>Access control\<close>

text \<open>An access control list: whether it is a white list, and its addresses.\<close>

record acl_data =
  acl_deny_unless_listed :: bool
  acl_addrs :: "u8 list list"

definition skw_acl_allowed :: "acl_data option \<Rightarrow> u8 list \<Rightarrow> bool" where
  "skw_acl_allowed acl addr =
     (case acl of
        None \<Rightarrow> True
      | Some a \<Rightarrow>
          (let match = list_ex (\<lambda>mac. mac = addr) (acl_addrs a) in
           if acl_deny_unless_listed a then match else \<not> match))"

text \<open>The peers of a radio: an address for each index that is in use.\<close>

definition skw_ap_acl_check :: "acl_data option \<Rightarrow> u8 list option list \<Rightarrow> u32 \<Rightarrow> u8 list list" where
  "skw_ap_acl_check acl peers peer_map =
     (if peer_map = 0 then []
      else List.map_filter (\<lambda>idx. case peers ! idx of Some addr \<Rightarrow> if skw_acl_allowed acl addr then None else Some addr | None \<Rightarrow> None)
             (map_bits peer_map))"

primrec access_loop :: "u8 list option list \<Rightarrow> u8 list \<Rightarrow> nat \<Rightarrow> nat list \<Rightarrow> nat" where
  "access_loop peers mac n [] = n"
| "access_loop peers mac n (i # is) =
     (if n = 0 then n else if peers ! i = Some mac then n else access_loop peers mac (n - 1) is)"

definition skw_sta_access_allowed :: "acl_data option \<Rightarrow> u8 list option list \<Rightarrow> u32 \<Rightarrow> nat \<Rightarrow> u8 list \<Rightarrow> bool" where
  "skw_sta_access_allowed acl peers peer_map max_sta mac \<longleftrightarrow>
     access_loop peers mac max_sta (map_bits peer_map) \<noteq> 0 \<and> skw_acl_allowed acl mac"

section \<open>The work list\<close>

definition SKW_WORK_FLAG_ASSERT :: nat where "SKW_WORK_FLAG_ASSERT = 0"
definition SKW_WORK_FLAG_RCU_FREE :: nat where "SKW_WORK_FLAG_RCU_FREE = 1"
definition SKW_WORK_FLAG_RESUME :: nat where "SKW_WORK_FLAG_RESUME = 3"

lemmas work_flag_defs = SKW_WORK_FLAG_ASSERT_def SKW_WORK_FLAG_RCU_FREE_def SKW_WORK_FLAG_RESUME_def

declare work_flag_defs [skw_simps]

text \<open>The kinds of work, in the order of the enumeration, and an entry of the list.\<close>

datatype SKW_WORK_ID =
  SKW_WORK_BA_ACTION | SKW_WORK_SCAN_TIMEOUT | SKW_WORK_ACL_CHECK | SKW_WORK_SET_MC_ADDR | SKW_WORK_SET_IP | SKW_WORK_TX_FREE
| SKW_WORK_SETUP_TXBA | SKW_WORK_TX_ETHER_DATA | SKW_WORK_RADAR_PULSE | SKW_WORK_RADAR_CAC | SKW_WORK_RADAR_CAC_END
| SKW_WORK_IFACE_RPS_INIT | SKW_WORK_SPLIT_MGMT_TX_STATUS

record skw_work_cb =
  wc_iface :: "nat option"
  wc_id :: SKW_WORK_ID
  wc_data :: "u8 list"

text \<open>What a piece of work does: a command to the firmware with the data, or a call of another component.\<close>

datatype work_action =
  WaCommand nat int "u8 list" | WaScanDone nat | WaAclCheck nat | WaTxFree "u8 list" | WaMgmtStatus nat "u8 list" | WaNone

definition SKW_CMD_TX_DATA_FRAME :: int where "SKW_CMD_TX_DATA_FRAME = 15"
definition SKW_CMD_SET_IP :: int where "SKW_CMD_SET_IP = 16"
definition SKW_CMD_SET_MC_ADDR :: int where "SKW_CMD_SET_MC_ADDR = 26"
definition SKW_CMD_BA_ACTION :: int where "SKW_CMD_BA_ACTION = 30"

text \<open>
  The result of a command is \<open>send\<close>. When the set-up of a block-ack session fails, the bit of its traffic class is
  cleared again: the data is the request, with the peer in byte 2 and the class in byte 3
  (\<open>txba\<close> is the map of classes of each peer that exists).
\<close>

definition work_action_of :: "skw_work_cb \<Rightarrow> work_action" where
  "work_action_of w =
     (case wc_iface w of
        None \<Rightarrow> WaNone
      | Some i \<Rightarrow>
          (case wc_id w of
             SKW_WORK_BA_ACTION \<Rightarrow> WaCommand i SKW_CMD_BA_ACTION (wc_data w)
           | SKW_WORK_SCAN_TIMEOUT \<Rightarrow> WaScanDone i
           | SKW_WORK_ACL_CHECK \<Rightarrow> WaAclCheck i
           | SKW_WORK_SET_MC_ADDR \<Rightarrow> WaCommand i SKW_CMD_SET_MC_ADDR (wc_data w)
           | SKW_WORK_SET_IP \<Rightarrow> WaCommand i SKW_CMD_SET_IP (wc_data w)
           | SKW_WORK_TX_FREE \<Rightarrow> WaTxFree (wc_data w)
           | SKW_WORK_SETUP_TXBA \<Rightarrow> WaCommand i SKW_CMD_BA_ACTION (wc_data w)
           | SKW_WORK_TX_ETHER_DATA \<Rightarrow> WaCommand i SKW_CMD_TX_DATA_FRAME (wc_data w)
           | SKW_WORK_SPLIT_MGMT_TX_STATUS \<Rightarrow> WaMgmtStatus i (wc_data w)
           | _ \<Rightarrow> WaNone))"

definition skw_work_process :: "(work_action \<Rightarrow> int) \<Rightarrow> skw_work_cb \<Rightarrow> (nat \<Rightarrow> u16 option) \<Rightarrow> int \<times> work_action \<times> (nat \<Rightarrow> u16 option)" where
  "skw_work_process send w txba =
     (case wc_iface w of
        None \<Rightarrow> (- ENOENT, WaNone, txba)
      | Some i \<Rightarrow>
          (let a = work_action_of w; ret = (case a of WaCommand _ _ _ \<Rightarrow> send a | _ \<Rightarrow> 0);
               peer = unat (wc_data w ! 2); tid = unat (wc_data w ! 3) in
           (ret, a,
            if wc_id w = SKW_WORK_SETUP_TXBA \<and> ret \<noteq> 0 then txba(peer := map_option (unset_bit tid) (txba peer)) else txba)))"

text \<open>
  The state: flags, list of objects to free with the place where the next is hung in (the head, or behind an object), the work
  list; and, what happened so far: the objects freed, the objects hung in behind one that was gone, the
  work done, the assertions and resumes.
\<close>

datatype rcu_tail = At_head | Behind nat

record skw_work_data =
  wd_flags :: u32
  wd_rcu :: "nat list"
  wd_tail :: rcu_tail
  wd_list :: "skw_work_cb list"
  wd_freed :: "nat list"
  wd_lost :: "nat list"
  wd_done :: "skw_work_cb list"
  wd_asserts :: nat
  wd_resumes :: nat

definition skw_work_init :: skw_work_data where
  "skw_work_init = \<lparr>wd_flags = 0, wd_rcu = [], wd_tail = At_head, wd_list = [], wd_freed = [], wd_lost = [], wd_done = [],
     wd_asserts = 0, wd_resumes = 0\<rparr>"

definition queue_work :: "bool \<Rightarrow> skw_work_cb \<Rightarrow> skw_work_data \<Rightarrow> int \<times> skw_work_data" where
  "queue_work ok w d = (if \<not> ok then (- ENOMEM, d) else (0, d\<lparr>wd_list := wd_list d @ [w]\<rparr>))"

definition skw_assert_schedule :: "skw_work_data \<Rightarrow> skw_work_data" where
  "skw_assert_schedule d = d\<lparr>wd_flags := set_bit SKW_WORK_FLAG_ASSERT (wd_flags d)\<rparr>"

definition skw_work_resume :: "skw_work_data \<Rightarrow> skw_work_data" where
  "skw_work_resume d = d\<lparr>wd_flags := set_bit SKW_WORK_FLAG_RESUME (wd_flags d)\<rparr>"

text \<open>
  Handing an object over: it is hung in under the lock, and the flag is set afterwards. \<open>rcu_hang\<close> writes
  through the pointer to the place of the next object.
\<close>

definition rcu_hang :: "nat \<Rightarrow> skw_work_data \<Rightarrow> skw_work_data" where
  "rcu_hang n d =
     (let d1 = (case wd_tail d of
                  At_head \<Rightarrow> d\<lparr>wd_rcu := [n], wd_lost := wd_lost d @ wd_rcu d\<rparr>
                | Behind k \<Rightarrow> if wd_rcu d \<noteq> [] \<and> last (wd_rcu d) = k then d\<lparr>wd_rcu := wd_rcu d @ [n]\<rparr> else d\<lparr>wd_lost := wd_lost d @ [n]\<rparr>) in
      d1\<lparr>wd_tail := Behind n\<rparr>)"

definition rcu_flag :: "skw_work_data \<Rightarrow> skw_work_data" where
  "rcu_flag d = d\<lparr>wd_flags := set_bit SKW_WORK_FLAG_RCU_FREE (wd_flags d)\<rparr>"

definition skw_call_rcu :: "nat \<Rightarrow> skw_work_data \<Rightarrow> skw_work_data" where
  "skw_call_rcu n d = rcu_flag (rcu_hang n d)"

text \<open>The parts of the loop: taking the first object off, freeing it, or resetting the empty list.\<close>

definition rcu_pop :: "skw_work_data \<Rightarrow> nat option \<times> skw_work_data" where
  "rcu_pop d = (case wd_rcu d of [] \<Rightarrow> (None, d) | h # hs \<Rightarrow> (Some h, d\<lparr>wd_rcu := hs\<rparr>))"

definition rcu_reset_tail :: "skw_work_data \<Rightarrow> skw_work_data" where
  "rcu_reset_tail d = d\<lparr>wd_tail := At_head\<rparr>"

definition rcu_clear :: "skw_work_data \<Rightarrow> skw_work_data" where
  "rcu_clear d = d\<lparr>wd_flags := unset_bit SKW_WORK_FLAG_RCU_FREE (wd_flags d)\<rparr>"

definition rcu_reset :: "skw_work_data \<Rightarrow> skw_work_data" where
  "rcu_reset d = rcu_clear (rcu_reset_tail d)"

definition rcu_round :: "skw_work_data \<Rightarrow> skw_work_data" where
  "rcu_round d =
     (if bit (wd_flags d) SKW_WORK_FLAG_RCU_FREE
      then (case rcu_pop d of (Some h, d1) \<Rightarrow> d1\<lparr>wd_freed := wd_freed d1 @ [h]\<rparr> | (None, d1) \<Rightarrow> rcu_reset d1) else d)"

definition assert_round :: "skw_work_data \<Rightarrow> skw_work_data" where
  "assert_round d =
     (if bit (wd_flags d) SKW_WORK_FLAG_ASSERT
      then d\<lparr>wd_flags := unset_bit SKW_WORK_FLAG_ASSERT (wd_flags d), wd_asserts := wd_asserts d + 1\<rparr> else d)"

definition resume_round :: "skw_work_data \<Rightarrow> skw_work_data" where
  "resume_round d =
     (if bit (wd_flags d) SKW_WORK_FLAG_RESUME
      then d\<lparr>wd_flags := unset_bit SKW_WORK_FLAG_RESUME (wd_flags d), wd_resumes := wd_resumes d + 1\<rparr> else d)"

definition flag_rounds :: "skw_work_data \<Rightarrow> skw_work_data" where
  "flag_rounds d = resume_round (assert_round d)"

definition work_round :: "skw_work_data \<Rightarrow> skw_work_data" where
  "work_round d =
     (let d1 = flag_rounds (rcu_round d) in
      case wd_list d1 of [] \<Rightarrow> d1 | w # ws \<Rightarrow> d1\<lparr>wd_list := ws, wd_done := wd_done d1 @ [w]\<rparr>)"

text \<open>The handler when nothing else runs.\<close>

partial_function (option) skw_work :: "skw_work_data \<Rightarrow> skw_work_data option" where
  "skw_work d = (if wd_flags d = 0 \<and> wd_list d = [] then Some d else skw_work (work_round d))"

definition skw_work_deinit :: "skw_work_data \<Rightarrow> skw_work_data" where
  "skw_work_deinit d = d\<lparr>wd_list := []\<rparr>"

section \<open>The handler among its callers\<close>

text \<open>
  Where the handler stands: not running; at the first or second half of the loop's condition; before the test
  of the flag, taking an object off, freeing it, resetting the place for the next one, clearing the flag;
  before the assertion, the resumption, the work list, or with a piece of work in hand.
\<close>

datatype work_pc =
    Wp_idle | Wp_test | Wp_test_list | Wp_rcu | Wp_pop | Wp_free nat | Wp_tail | Wp_clear
  | Wp_assert | Wp_resume | Wp_list | Wp_process skw_work_cb

text \<open>
  The system: the data, the handler, whether it is scheduled, the numbers of callers that are about to set
  the flag and about to schedule the handler, and what has been queued and handed over so far.
\<close>

record work_sys =
  ws_data :: skw_work_data
  ws_pc :: work_pc
  ws_pending :: bool
  ws_flagging :: nat
  ws_waking :: nat
  ws_queued :: "skw_work_cb list"
  ws_handed :: "nat list"

definition work_sys_init :: work_sys where
  "work_sys_init = \<lparr>ws_data = skw_work_init, ws_pc = Wp_idle, ws_pending = False, ws_flagging = 0, ws_waking = 0,
     ws_queued = [], ws_handed = []\<rparr>"

text \<open>The sections of the handler; the work queue starts it when it is scheduled, which a later call may do again.\<close>

inductive work_handler_step :: "work_sys \<Rightarrow> work_sys \<Rightarrow> bool" where
  start: "ws_pc s = Wp_idle \<Longrightarrow> ws_pending s \<Longrightarrow> work_handler_step s (s\<lparr>ws_pc := Wp_test, ws_pending := False\<rparr>)"
| test: "ws_pc s = Wp_test \<Longrightarrow>
     work_handler_step s (s\<lparr>ws_pc := if wd_flags (ws_data s) \<noteq> 0 then Wp_rcu else Wp_test_list\<rparr>)"
| test_list: "ws_pc s = Wp_test_list \<Longrightarrow>
     work_handler_step s (s\<lparr>ws_pc := if wd_list (ws_data s) \<noteq> [] then Wp_rcu else Wp_idle\<rparr>)"
| rcu: "ws_pc s = Wp_rcu \<Longrightarrow>
     work_handler_step s (s\<lparr>ws_pc := if bit (wd_flags (ws_data s)) SKW_WORK_FLAG_RCU_FREE then Wp_pop else Wp_assert\<rparr>)"
| pop: "ws_pc s = Wp_pop \<Longrightarrow> rcu_pop (ws_data s) = (x, d) \<Longrightarrow>
     work_handler_step s (s\<lparr>ws_data := d, ws_pc := (case x of Some h \<Rightarrow> Wp_free h | None \<Rightarrow> Wp_tail)\<rparr>)"
| free: "ws_pc s = Wp_free h \<Longrightarrow>
     work_handler_step s (s\<lparr>ws_data := (ws_data s)\<lparr>wd_freed := wd_freed (ws_data s) @ [h]\<rparr>, ws_pc := Wp_assert\<rparr>)"
| tail: "ws_pc s = Wp_tail \<Longrightarrow> work_handler_step s (s\<lparr>ws_data := rcu_reset_tail (ws_data s), ws_pc := Wp_clear\<rparr>)"
| clear: "ws_pc s = Wp_clear \<Longrightarrow> work_handler_step s (s\<lparr>ws_data := rcu_clear (ws_data s), ws_pc := Wp_assert\<rparr>)"
| assert: "ws_pc s = Wp_assert \<Longrightarrow> work_handler_step s (s\<lparr>ws_data := assert_round (ws_data s), ws_pc := Wp_resume\<rparr>)"
| resume: "ws_pc s = Wp_resume \<Longrightarrow> work_handler_step s (s\<lparr>ws_data := resume_round (ws_data s), ws_pc := Wp_list\<rparr>)"
| list_empty: "ws_pc s = Wp_list \<Longrightarrow> wd_list (ws_data s) = [] \<Longrightarrow> work_handler_step s (s\<lparr>ws_pc := Wp_test\<rparr>)"
| list_take: "ws_pc s = Wp_list \<Longrightarrow> wd_list (ws_data s) = w # ws \<Longrightarrow>
     work_handler_step s (s\<lparr>ws_data := (ws_data s)\<lparr>wd_list := ws\<rparr>, ws_pc := Wp_process w\<rparr>)"
| process: "ws_pc s = Wp_process w \<Longrightarrow>
     work_handler_step s (s\<lparr>ws_data := (ws_data s)\<lparr>wd_done := wd_done (ws_data s) @ [w]\<rparr>, ws_pc := Wp_test\<rparr>)"

text \<open>
  The moments at which handing an object over is safe: not while the handler is between finding the list
  empty and clearing the flag, and not while the place for the next object is behind one that was taken off.
\<close>

definition rcu_safe :: "work_sys \<Rightarrow> bool" where
  "rcu_safe s \<longleftrightarrow> ws_pc s \<noteq> Wp_tail \<and> ws_pc s \<noteq> Wp_clear \<and> (wd_rcu (ws_data s) = [] \<longrightarrow> wd_tail (ws_data s) = At_head)"

text \<open>
  The handler and any number of callers, each of which changes the data first and schedules the handler
  afterwards; a piece of work may itself queue more. With \<open>race\<close> objects are handed over at any moment,
  as the code allows, without it only at the safe ones.
\<close>

inductive work_step :: "bool \<Rightarrow> work_sys \<Rightarrow> work_sys \<Rightarrow> bool" for race where
  handler: "work_handler_step s s' \<Longrightarrow> work_step race s s'"
| hang: "race \<or> rcu_safe s \<Longrightarrow>
     work_step race s (s\<lparr>ws_data := rcu_hang n (ws_data s), ws_flagging := ws_flagging s + 1, ws_handed := ws_handed s @ [n]\<rparr>)"
| flag: "0 < ws_flagging s \<Longrightarrow>
     work_step race s (s\<lparr>ws_data := rcu_flag (ws_data s), ws_flagging := ws_flagging s - 1, ws_waking := ws_waking s + 1\<rparr>)"
| queue: "queue_work True w (ws_data s) = (0, d) \<Longrightarrow>
     work_step race s (s\<lparr>ws_data := d, ws_waking := ws_waking s + 1, ws_queued := ws_queued s @ [w]\<rparr>)"
| queue_fails: "queue_work False w (ws_data s) = (r, d) \<Longrightarrow> work_step race s (s\<lparr>ws_data := d\<rparr>)"
| want_assert: "work_step race s (s\<lparr>ws_data := skw_assert_schedule (ws_data s), ws_waking := ws_waking s + 1\<rparr>)"
| want_resume: "work_step race s (s\<lparr>ws_data := skw_work_resume (ws_data s), ws_waking := ws_waking s + 1\<rparr>)"
| wake: "0 < ws_waking s \<Longrightarrow> work_step race s (s\<lparr>ws_waking := ws_waking s - 1, ws_pending := True\<rparr>)"

inductive_cases work_stepE: "work_step race s s'"

definition work_reachable :: "bool \<Rightarrow> work_sys \<Rightarrow> bool" where
  "work_reachable race = (work_step race)\<^sup>*\<^sup>* work_sys_init"

text \<open>What the handler has in its hand.\<close>

fun pc_work :: "work_pc \<Rightarrow> skw_work_cb list" where
  "pc_work (Wp_process w) = [w]"
| "pc_work _ = []"

fun pc_object :: "work_pc \<Rightarrow> nat list" where
  "pc_object (Wp_free h) = [h]"
| "pc_object _ = []"

section \<open>Properties of the maps\<close>

lemma lowest_bit_least: "bit w n \<Longrightarrow> lowest_bit w \<le> n"
proof -
  assume n: "bit w n"
  then have "n < 32" using bit_imp_le_length by fastforce
  with n obtain i where i: "List.find (bit w) [0..<32] = Some i" by (cases "List.find (bit w) [0..<32]") (auto simp: find_None_iff)
  then have "\<forall>j < i. \<not> bit w j" by (auto simp: find_Some_iff)
  with i n show ?thesis by (auto simp: lowest_bit_def intro: leI)
qed

lemma map_bits_filter: "map_bits w = filter (bit w) [0..<32]"
proof (induction w rule: map_bits.induct)
  case (1 w)
  show ?case
  proof (cases "w = 0")
    case True
    then show ?thesis by (simp add: map_bits.simps)
  next
    case False
    let ?i = "lowest_bit w"
    have i: "bit w ?i" "?i < 32" using lowest_bit_set [OF False] by auto
    have split: "[0..<32] = [0..<?i] @ ?i # [Suc ?i..<32]" using i(2)
      by (metis less_imp_le_nat upt_add_eq_append upt_conv_Cons le0 le_add_diff_inverse)
    have "filter (bit w) [0..<?i] = []" using lowest_bit_least [of w] by (fastforce simp: filter_empty_conv)
    moreover have "filter (bit (unset_bit ?i w)) [0..<?i] = []" using lowest_bit_least [of w]
      by (fastforce simp: filter_empty_conv bit_unset_bit_iff)
    moreover have "filter (bit (unset_bit ?i w)) [Suc ?i..<32] = filter (bit w) [Suc ?i..<32]"
      by (rule filter_cong) (auto simp: bit_unset_bit_iff)
    ultimately have "filter (bit w) [0..<32] = ?i # filter (bit (unset_bit ?i w)) [0..<32]"
      unfolding split using i by (simp add: bit_unset_bit_iff)
    with 1 [OF False] False show ?thesis by (simp add: map_bits.simps [of w])
  qed
qed

lemma access_loop_spec:
  "access_loop peers mac n is \<noteq> 0 \<longleftrightarrow> n \<noteq> 0 \<and> (length is < n \<or> (\<exists>k < min n (length is). peers ! (is ! k) = Some mac))"
proof (induction "is" arbitrary: n)
  case (Cons i "is")
  have "(\<exists>k < min n (length (i # is)). peers ! ((i # is) ! k) = Some mac) \<longleftrightarrow>
      n \<noteq> 0 \<and> (peers ! i = Some mac \<or> (\<exists>k < min (n - 1) (length is). peers ! (is ! k) = Some mac))" (is "?l \<longleftrightarrow> ?r")
  proof
    assume ?l
    then obtain k where "k < n" "k \<le> length is" "peers ! ((i # is) ! k) = Some mac" by auto
    then show ?r by (cases k) auto
  next
    assume ?r
    then consider "n \<noteq> 0" "peers ! i = Some mac" | k where "k < n - 1" "k < length is" "peers ! (is ! k) = Some mac" by auto
    then show ?l
    proof cases
      case 1
      then show ?thesis by (intro exI [of _ 0]) simp
    next
      case 2
      then show ?thesis by (intro exI [of _ "Suc k"]) auto
    qed
  qed
  then show ?case using Cons.IH [of "n - 1"] by auto
qed simp

lemma mem_map_filter: "y \<in> set (List.map_filter f xs) \<longleftrightarrow> (\<exists>x \<in> set xs. f x = Some y)"
  by (induction xs) (auto simp: List.map_filter_simps split: option.splits)

lemma refused_iff:
  "(case p of Some a \<Rightarrow> if ok a then None else Some a | None \<Rightarrow> None) = Some y \<longleftrightarrow> p = Some y \<and> \<not> ok y"
  by (auto split: option.splits)

text \<open>
  C26. A station may join an access point exactly when the access control list lets it, stations are admitted at
  all, and either fewer peers than the maximum are in the map, or the station is already one of the
  first peers of the map, as many as the maximum. The check of the access control list for the
  peers removes exactly those that it does not let in.
\<close>

theorem station_admission:
  "(skw_sta_access_allowed acl peers m n mac \<longleftrightarrow>
      skw_acl_allowed acl mac \<and> n \<noteq> 0 \<and>
      (length (filter (bit m) [0..<32]) < n \<or>
       (\<exists>k < min n (length (filter (bit m) [0..<32])). peers ! (filter (bit m) [0..<32] ! k) = Some mac))) \<and>
   set (skw_ap_acl_check acl peers m) = {addr. (\<exists>i < 32. bit m i \<and> peers ! i = Some addr) \<and> \<not> skw_acl_allowed acl addr}"
proof -
  have "set (skw_ap_acl_check acl peers m) = {addr. (\<exists>i < 32. bit m i \<and> peers ! i = Some addr) \<and> \<not> skw_acl_allowed acl addr}"
    by (cases "m = 0") (auto simp: skw_ap_acl_check_def map_bits_filter mem_map_filter refused_iff)
  then show ?thesis unfolding skw_sta_access_allowed_def map_bits_filter access_loop_spec by blast
qed

section \<open>Properties of the work list\<close>

definition work_size :: "skw_work_data \<Rightarrow> nat" where
  "work_size d = length (wd_rcu d) + length (wd_list d) + of_bool (bit (wd_flags d) 0) + of_bool (bit (wd_flags d) 1) + of_bool (bit (wd_flags d) 3)"

definition known_flags :: "skw_work_data \<Rightarrow> bool" where
  "known_flags d \<longleftrightarrow> (\<forall>n. bit (wd_flags d) n \<longrightarrow> n \<in> {0, 1, 3})"

lemma rcu_round_cases:
  obtains (off) "\<not> bit (wd_flags d) 1" "rcu_round d = d"
  | (pop) h hs where "bit (wd_flags d) 1" "wd_rcu d = h # hs" "rcu_round d = d\<lparr>wd_rcu := hs, wd_freed := wd_freed d @ [h]\<rparr>"
  | (reset) "bit (wd_flags d) 1" "wd_rcu d = []" "rcu_round d = rcu_reset d"
  by (cases "wd_rcu d"; cases "bit (wd_flags d) 1") (auto simp: rcu_round_def rcu_pop_def work_flag_defs)

lemma flag_round_fields [simp]:
  "wd_rcu (assert_round d) = wd_rcu d" "wd_tail (assert_round d) = wd_tail d" "wd_list (assert_round d) = wd_list d"
  "wd_freed (assert_round d) = wd_freed d" "wd_done (assert_round d) = wd_done d" "wd_lost (assert_round d) = wd_lost d"
  "wd_rcu (resume_round d) = wd_rcu d" "wd_tail (resume_round d) = wd_tail d" "wd_list (resume_round d) = wd_list d"
  "wd_freed (resume_round d) = wd_freed d" "wd_done (resume_round d) = wd_done d" "wd_lost (resume_round d) = wd_lost d"
  "bit (wd_flags (assert_round d)) n \<longleftrightarrow> bit (wd_flags d) n \<and> n \<noteq> 0"
  "bit (wd_flags (resume_round d)) n \<longleftrightarrow> bit (wd_flags d) n \<and> n \<noteq> 3"
  by (auto simp: assert_round_def resume_round_def work_flag_defs bit_unset_bit_iff intro!: gr0I)

lemma flag_rounds_fields [simp]:
  "wd_rcu (flag_rounds d) = wd_rcu d" "wd_tail (flag_rounds d) = wd_tail d" "wd_list (flag_rounds d) = wd_list d" "wd_freed (flag_rounds d) = wd_freed d"
  "wd_done (flag_rounds d) = wd_done d" "wd_lost (flag_rounds d) = wd_lost d"
  "bit (wd_flags (flag_rounds d)) n \<longleftrightarrow> bit (wd_flags d) n \<and> n \<noteq> 0 \<and> n \<noteq> 3"
  by (auto simp: flag_rounds_def)

lemma rcu_reset_fields [simp]:
  "wd_rcu (rcu_reset_tail d) = wd_rcu d" "wd_tail (rcu_reset_tail d) = At_head" "wd_list (rcu_reset_tail d) = wd_list d"
  "wd_freed (rcu_reset_tail d) = wd_freed d" "wd_done (rcu_reset_tail d) = wd_done d" "wd_lost (rcu_reset_tail d) = wd_lost d"
  "wd_flags (rcu_reset_tail d) = wd_flags d"
  "wd_rcu (rcu_clear d) = wd_rcu d" "wd_tail (rcu_clear d) = wd_tail d" "wd_list (rcu_clear d) = wd_list d"
  "wd_freed (rcu_clear d) = wd_freed d" "wd_done (rcu_clear d) = wd_done d" "wd_lost (rcu_clear d) = wd_lost d"
  "bit (wd_flags (rcu_clear d)) n \<longleftrightarrow> bit (wd_flags d) n \<and> n \<noteq> 1"
  by (auto simp: rcu_reset_tail_def rcu_clear_def work_flag_defs bit_unset_bit_iff)

lemma caller_fields [simp]:
  "wd_list (rcu_hang n d) = wd_list d" "wd_freed (rcu_hang n d) = wd_freed d" "wd_done (rcu_hang n d) = wd_done d"
  "wd_flags (rcu_hang n d) = wd_flags d" "wd_tail (rcu_hang n d) = Behind n"
  "wd_rcu (rcu_flag d) = wd_rcu d" "wd_tail (rcu_flag d) = wd_tail d" "wd_list (rcu_flag d) = wd_list d"
  "wd_freed (rcu_flag d) = wd_freed d" "wd_done (rcu_flag d) = wd_done d" "wd_lost (rcu_flag d) = wd_lost d"
  "bit (wd_flags (rcu_flag d)) m \<longleftrightarrow> bit (wd_flags d) m \<or> m = 1"
  by (auto simp: rcu_hang_def rcu_flag_def Let_def work_flag_defs bit_set_bit_iff bit_imp_le_length split: rcu_tail.splits)

text \<open>What a round keeps: what was done followed by what is left.\<close>

lemma work_round_keeps:
  assumes "known_flags d" "wd_rcu d \<noteq> [] \<longrightarrow> bit (wd_flags d) 1"
  shows "known_flags (work_round d) \<and> (wd_rcu (work_round d) \<noteq> [] \<longrightarrow> bit (wd_flags (work_round d)) 1) \<and>
    wd_freed (work_round d) @ wd_rcu (work_round d) = wd_freed d @ wd_rcu d \<and>
    wd_done (work_round d) @ wd_list (work_round d) = wd_done d @ wd_list d \<and> wd_lost (work_round d) = wd_lost d"
  using assms
  by (cases d rule: rcu_round_cases) (auto simp: work_round_def known_flags_def rcu_reset_def Let_def split: list.splits)

lemma work_round_decreases:
  assumes "known_flags d" "wd_flags d \<noteq> 0 \<or> wd_list d \<noteq> []"
  shows "work_size (work_round d) < work_size d"
proof -
  have "bit (wd_flags d) 0 \<or> bit (wd_flags d) 1 \<or> bit (wd_flags d) 3 \<or> wd_list d \<noteq> []"
    using assms lowest_bit_set [of "wd_flags d"] by (auto simp: known_flags_def)
  then show ?thesis
    by (cases d rule: rcu_round_cases)
      (auto simp: work_round_def work_size_def rcu_reset_def Let_def split: list.splits)
qed

lemma skw_work_spec:
  assumes "known_flags d" "wd_rcu d \<noteq> [] \<longrightarrow> bit (wd_flags d) 1"
  shows "\<exists>d1. skw_work d = Some d1 \<and> wd_freed d1 = wd_freed d @ wd_rcu d \<and> wd_done d1 = wd_done d @ wd_list d \<and>
    wd_rcu d1 = [] \<and> wd_list d1 = [] \<and> wd_flags d1 = 0 \<and> wd_lost d1 = wd_lost d"
  using assms
proof (induction "work_size d" arbitrary: d rule: less_induct)
  case less
  show ?case
  proof (cases "wd_flags d = 0 \<and> wd_list d = []")
    case True
    then have "wd_rcu d = []" using less.prems(2) by (cases "wd_rcu d") auto
    then show ?thesis using True by (subst skw_work.simps) simp
  next
    case False
    note K = work_round_keeps [OF less.prems]
    have "work_size (work_round d) < work_size d" using work_round_decreases [OF less.prems(1)] False by blast
    from less.hyps [OF this] K obtain d1 where "skw_work (work_round d) = Some d1" "wd_freed d1 = wd_freed (work_round d) @ wd_rcu (work_round d)"
      "wd_done d1 = wd_done (work_round d) @ wd_list (work_round d)" "wd_rcu d1 = []" "wd_list d1 = []" "wd_flags d1 = 0"
      "wd_lost d1 = wd_lost (work_round d)" by blast
    then show ?thesis using K False by (subst skw_work.simps) auto
  qed
qed

section \<open>Invariants of the system\<close>

definition work_inv :: "work_sys \<Rightarrow> bool" where
  "work_inv s \<longleftrightarrow>
     (let d = ws_data s in
      known_flags d \<and>
      ws_queued s = wd_done d @ pc_work (ws_pc s) @ wd_list d \<and>
      mset (ws_handed s) = mset (wd_freed d) + mset (pc_object (ws_pc s)) + mset (wd_rcu d) + mset (wd_lost d) \<and>
      (ws_pc s = Wp_idle \<and> (wd_flags d \<noteq> 0 \<or> wd_list d \<noteq> []) \<or> ws_pc s = Wp_test_list \<and> wd_flags d \<noteq> 0 \<longrightarrow>
         ws_pending s \<or> 0 < ws_waking s))"

definition rcu_inv :: "work_sys \<Rightarrow> bool" where
  "rcu_inv s \<longleftrightarrow>
     (let d = ws_data s in
      wd_lost d = [] \<and> ws_handed s = wd_freed d @ pc_object (ws_pc s) @ wd_rcu d \<and>
      (wd_rcu d \<noteq> [] \<longrightarrow> wd_tail d = Behind (last (wd_rcu d)) \<and> (bit (wd_flags d) 1 \<or> 0 < ws_flagging s)) \<and>
      (ws_pc s = Wp_tail \<or> ws_pc s = Wp_clear \<longrightarrow> wd_rcu d = []))"

lemma rcu_pop_cases:
  assumes "rcu_pop d = (x, d1)"
  obtains "wd_rcu d = []" "x = None" "d1 = d"
  | h hs where "wd_rcu d = h # hs" "x = Some h" "d1 = d\<lparr>wd_rcu := hs\<rparr>"
  using assms by (auto simp: rcu_pop_def split: list.splits)

lemma request_fields [simp]:
  "wd_rcu (skw_assert_schedule d) = wd_rcu d" "wd_tail (skw_assert_schedule d) = wd_tail d"
  "wd_list (skw_assert_schedule d) = wd_list d" "wd_freed (skw_assert_schedule d) = wd_freed d"
  "wd_done (skw_assert_schedule d) = wd_done d" "wd_lost (skw_assert_schedule d) = wd_lost d"
  "bit (wd_flags (skw_assert_schedule d)) n \<longleftrightarrow> bit (wd_flags d) n \<or> n = 0"
  "wd_rcu (skw_work_resume d) = wd_rcu d" "wd_tail (skw_work_resume d) = wd_tail d"
  "wd_list (skw_work_resume d) = wd_list d" "wd_freed (skw_work_resume d) = wd_freed d"
  "wd_done (skw_work_resume d) = wd_done d" "wd_lost (skw_work_resume d) = wd_lost d"
  "bit (wd_flags (skw_work_resume d)) n \<longleftrightarrow> bit (wd_flags d) n \<or> n = 3"
  by (auto simp: skw_assert_schedule_def skw_work_resume_def work_flag_defs bit_set_bit_iff)

lemma hang_mset:
  "mset (wd_rcu (rcu_hang n d)) + mset (wd_lost (rcu_hang n d)) = add_mset n (mset (wd_rcu d) + mset (wd_lost d))"
  by (auto simp: rcu_hang_def Let_def split: rcu_tail.splits)

lemma hang_safe:
  assumes "wd_rcu d \<noteq> [] \<longrightarrow> wd_tail d = Behind (last (wd_rcu d))" "wd_rcu d = [] \<longrightarrow> wd_tail d = At_head"
  shows "wd_rcu (rcu_hang n d) = wd_rcu d @ [n]" "wd_lost (rcu_hang n d) = wd_lost d"
  using assms by (cases "wd_rcu d"; simp add: rcu_hang_def)+

lemma handler_step_inv: "work_handler_step s s' \<Longrightarrow> work_inv s \<Longrightarrow> work_inv s'"
proof (induction rule: work_handler_step.induct)
  case (pop s x d)
  then show ?case by (auto simp: work_inv_def known_flags_def Let_def elim!: rcu_pop_cases)
qed (auto simp: work_inv_def known_flags_def Let_def)

lemma work_step_inv: "work_step race s s' \<Longrightarrow> work_inv s \<Longrightarrow> work_inv s'"
proof (induction rule: work_step.induct)
  case (handler s s')
  then show ?case by (rule handler_step_inv)
next
  case (hang s n)
  then show ?case using hang_mset [of n "ws_data s"] by (auto simp: work_inv_def known_flags_def Let_def)
qed (auto simp: work_inv_def known_flags_def Let_def queue_work_def)

lemma handler_step_rcu_inv: "work_handler_step s s' \<Longrightarrow> rcu_inv s \<Longrightarrow> rcu_inv s'"
proof (induction rule: work_handler_step.induct)
  case (pop s x d)
  then show ?case by (auto simp: rcu_inv_def Let_def elim!: rcu_pop_cases split: if_splits)
qed (auto simp: rcu_inv_def Let_def)

lemma work_step_rcu_inv: "work_step False s s' \<Longrightarrow> rcu_inv s \<Longrightarrow> rcu_inv s'"
proof (induction rule: work_step.induct)
  case (handler s s')
  then show ?case by (rule handler_step_rcu_inv)
next
  case (hang s n)
  then show ?case using hang_safe [of "ws_data s" n] by (auto simp: rcu_inv_def rcu_safe_def Let_def)
qed (auto simp: rcu_inv_def Let_def queue_work_def)

lemma work_init_inv: "work_inv work_sys_init" "rcu_inv work_sys_init"
  by (simp_all add: work_inv_def rcu_inv_def work_sys_init_def skw_work_init_def known_flags_def)

lemma work_reachable_inv: "work_reachable race s \<Longrightarrow> work_inv s"
  unfolding work_reachable_def by (induction rule: rtranclp_induct) (auto intro: work_step_inv work_init_inv)

lemma work_reachable_rcu_inv: "work_reachable False s \<Longrightarrow> rcu_inv s"
  unfolding work_reachable_def by (induction rule: rtranclp_induct) (auto intro: work_step_rcu_inv work_init_inv)

section \<open>The handler alone\<close>

lemma handler_to_assert:
  assumes "ws_pc s = Wp_rcu"
  shows "work_handler_step\<^sup>*\<^sup>* s (s\<lparr>ws_data := rcu_round (ws_data s), ws_pc := Wp_assert\<rparr>)"
proof (cases "ws_data s" rule: rcu_round_cases)
  case off
  then have "s\<lparr>ws_data := rcu_round (ws_data s), ws_pc := Wp_assert\<rparr> = s\<lparr>ws_pc := Wp_assert\<rparr>" by simp
  with work_handler_step.rcu [OF assms] off show ?thesis by (simp add: work_flag_defs r_into_rtranclp)
next
  case (pop h hs)
  define s1 where "s1 = s\<lparr>ws_pc := Wp_pop\<rparr>"
  define s2 where "s2 = s1\<lparr>ws_data := (ws_data s)\<lparr>wd_rcu := hs\<rparr>, ws_pc := Wp_free h\<rparr>"
  have "work_handler_step s s1" using work_handler_step.rcu [OF assms] pop by (simp add: s1_def work_flag_defs)
  moreover have "work_handler_step s1 s2"
    using work_handler_step.pop [of s1 "Some h" "(ws_data s)\<lparr>wd_rcu := hs\<rparr>"] pop by (simp add: s2_def s1_def rcu_pop_def)
  moreover have "work_handler_step s2 (s\<lparr>ws_data := rcu_round (ws_data s), ws_pc := Wp_assert\<rparr>)"
    using work_handler_step.free [of s2 h] pop by (simp add: s2_def s1_def)
  ultimately show ?thesis by (meson converse_rtranclp_into_rtranclp rtranclp.rtrancl_refl)
next
  case reset
  define s1 where "s1 = s\<lparr>ws_pc := Wp_pop\<rparr>"
  define s2 where "s2 = s1\<lparr>ws_pc := Wp_tail\<rparr>"
  define s3 where "s3 = s2\<lparr>ws_data := rcu_reset_tail (ws_data s), ws_pc := Wp_clear\<rparr>"
  have "work_handler_step s s1" using work_handler_step.rcu [OF assms] reset by (simp add: s1_def work_flag_defs)
  moreover have "work_handler_step s1 s2"
    using work_handler_step.pop [of s1 None "ws_data s"] reset by (simp add: s2_def s1_def rcu_pop_def)
  moreover have "work_handler_step s2 s3"
    using work_handler_step.tail [of s2] by (simp add: s3_def s2_def s1_def)
  moreover have "work_handler_step s3 (s\<lparr>ws_data := rcu_round (ws_data s), ws_pc := Wp_assert\<rparr>)"
    using work_handler_step.clear [of s3] reset by (simp add: s3_def s2_def s1_def rcu_reset_def)
  ultimately show ?thesis by (meson converse_rtranclp_into_rtranclp rtranclp.rtrancl_refl)
qed

lemma handler_from_assert:
  assumes "ws_pc s = Wp_assert"
  shows "work_handler_step\<^sup>*\<^sup>* s (s\<lparr>ws_data := (let d1 = flag_rounds (ws_data s) in
      case wd_list d1 of [] \<Rightarrow> d1 | w # ws \<Rightarrow> d1\<lparr>wd_list := ws, wd_done := wd_done d1 @ [w]\<rparr>), ws_pc := Wp_test\<rparr>)" (is "work_handler_step\<^sup>*\<^sup>* s ?t")
proof -
  define s1 where "s1 = s\<lparr>ws_data := assert_round (ws_data s), ws_pc := Wp_resume\<rparr>"
  define s2 where "s2 = s1\<lparr>ws_data := flag_rounds (ws_data s), ws_pc := Wp_list\<rparr>"
  have "work_handler_step s s1" using work_handler_step.assert [OF assms] by (simp add: s1_def)
  moreover have "work_handler_step s1 s2"
    using work_handler_step.resume [of s1] by (simp add: s2_def s1_def flag_rounds_def)
  moreover have "work_handler_step\<^sup>*\<^sup>* s2 ?t"
  proof (cases "wd_list (ws_data s)")
    case Nil
    then show ?thesis using work_handler_step.list_empty [of s2] by (simp add: s2_def s1_def r_into_rtranclp)
  next
    case (Cons w ws)
    define s3 where "s3 = s2\<lparr>ws_data := (ws_data s2)\<lparr>wd_list := ws\<rparr>, ws_pc := Wp_process w\<rparr>"
    have "work_handler_step s2 s3"
      using work_handler_step.list_take [of s2 w ws] Cons by (simp add: s3_def s2_def s1_def)
    moreover have "work_handler_step s3 ?t"
      using work_handler_step.process [of s3 w] Cons by (simp add: s3_def s2_def s1_def)
    ultimately show ?thesis by (meson converse_rtranclp_into_rtranclp rtranclp.rtrancl_refl)
  qed
  ultimately show ?thesis by (meson converse_rtranclp_into_rtranclp)
qed

lemma handler_round:
  assumes "ws_pc s = Wp_test" "wd_flags (ws_data s) \<noteq> 0 \<or> wd_list (ws_data s) \<noteq> []"
  shows "work_handler_step\<^sup>*\<^sup>* s (s\<lparr>ws_data := work_round (ws_data s)\<rparr>)"
proof -
  define s1 where "s1 = s\<lparr>ws_pc := Wp_rcu\<rparr>"
  have "work_handler_step\<^sup>*\<^sup>* s s1"
  proof (cases "wd_flags (ws_data s) \<noteq> 0")
    case True
    with work_handler_step.test [OF assms(1)] show ?thesis by (simp add: s1_def r_into_rtranclp)
  next
    case False
    with work_handler_step.test [OF assms(1)] have "work_handler_step s (s\<lparr>ws_pc := Wp_test_list\<rparr>)" by simp
    moreover have "work_handler_step (s\<lparr>ws_pc := Wp_test_list\<rparr>) s1"
      using work_handler_step.test_list [of "s\<lparr>ws_pc := Wp_test_list\<rparr>"] False assms(2) by (simp add: s1_def)
    ultimately show ?thesis by (meson converse_rtranclp_into_rtranclp rtranclp.rtrancl_refl)
  qed
  moreover have "work_handler_step\<^sup>*\<^sup>* s1 (s\<lparr>ws_data := rcu_round (ws_data s), ws_pc := Wp_assert\<rparr>)"
    using handler_to_assert [of s1] by (simp add: s1_def)
  moreover have "work_handler_step\<^sup>*\<^sup>* (s\<lparr>ws_data := rcu_round (ws_data s), ws_pc := Wp_assert\<rparr>)
      (s\<lparr>ws_data := work_round (ws_data s)\<rparr>)"
    using handler_from_assert [of "s\<lparr>ws_data := rcu_round (ws_data s), ws_pc := Wp_assert\<rparr>"] assms(1)
    by (cases s) (simp add: work_round_def)
  ultimately show ?thesis by (meson rtranclp_trans)
qed

lemma handler_runs_skw_work:
  assumes "ws_pc s = Wp_test" "known_flags (ws_data s)" "wd_rcu (ws_data s) \<noteq> [] \<longrightarrow> bit (wd_flags (ws_data s)) 1"
    and "skw_work (ws_data s) = Some d1"
  shows "work_handler_step\<^sup>*\<^sup>* s (s\<lparr>ws_data := d1, ws_pc := Wp_idle\<rparr>)"
  using assms
proof (induction "work_size (ws_data s)" arbitrary: s rule: less_induct)
  case less
  show ?case
  proof (cases "wd_flags (ws_data s) = 0 \<and> wd_list (ws_data s) = []")
    case True
    then have d1: "d1 = ws_data s" using less.prems(4) by (subst (asm) skw_work.simps) simp
    from True work_handler_step.test [OF less.prems(1)] have "work_handler_step s (s\<lparr>ws_pc := Wp_test_list\<rparr>)" by simp
    moreover have "work_handler_step (s\<lparr>ws_pc := Wp_test_list\<rparr>) (s\<lparr>ws_data := d1, ws_pc := Wp_idle\<rparr>)"
      using work_handler_step.test_list [of "s\<lparr>ws_pc := Wp_test_list\<rparr>"] True by (simp add: d1)
    ultimately show ?thesis by (meson converse_rtranclp_into_rtranclp rtranclp.rtrancl_refl)
  next
    case False
    let ?s = "s\<lparr>ws_data := work_round (ws_data s)\<rparr>"
    note K = work_round_keeps [OF less.prems(2,3)]
    have "skw_work (work_round (ws_data s)) = Some d1"
      using less.prems(4) False by (subst (asm) skw_work.simps) auto
    then have "work_handler_step\<^sup>*\<^sup>* ?s (?s\<lparr>ws_data := d1, ws_pc := Wp_idle\<rparr>)"
      using K work_round_decreases [OF less.prems(2)] False less.prems(1) by (intro less.hyps) auto
    moreover have "work_handler_step\<^sup>*\<^sup>* s ?s" using handler_round [OF less.prems(1)] False by blast
    ultimately show ?thesis by simp
  qed
qed

text \<open>
  C24. Until the list is closed, callers queue work, hand objects over and ask for an assertion or a
  resumption while the handler runs, in any interleaving of its sections with theirs. Whatever the interleaving: the work is done in the
  order in which it was queued, each piece once; each object is freed once, in the list, in the handler's
  hand, or lost; and no wake-up is missed, that is, while anything is left to do the handler runs, is
  scheduled, or is about to be scheduled. If moreover objects are handed over only at the safe moments
  (without \<open>race\<close>, see \<open>rcu_safe\<close>), none is lost, they are freed in the order in which they were handed
  over, and from every state where the handler is idle and no caller is on its way, the handler run
  alone returns with all work done, all objects freed and no flag left. Lemmas \<open>rcu_race_loses\<close> and
  \<open>rcu_reset_race_loses\<close> show that objects handed over at the other moments are lost.
\<close>

theorem work_list_drained:
  assumes "work_reachable race s"
  shows "let d = ws_data s in
    ws_queued s = wd_done d @ pc_work (ws_pc s) @ wd_list d \<and>
    mset (ws_handed s) = mset (wd_freed d) + mset (pc_object (ws_pc s)) + mset (wd_rcu d) + mset (wd_lost d) \<and>
    (wd_flags d \<noteq> 0 \<or> wd_list d \<noteq> [] \<longrightarrow> ws_pc s \<noteq> Wp_idle \<or> ws_pending s \<or> 0 < ws_waking s) \<and>
    (\<not> race \<longrightarrow>
       wd_lost d = [] \<and> ws_handed s = wd_freed d @ pc_object (ws_pc s) @ wd_rcu d \<and>
       (ws_pc s = Wp_idle \<and> ws_flagging s = 0 \<and> ws_waking s = 0 \<longrightarrow>
          (\<exists>s'. work_handler_step\<^sup>*\<^sup>* s s' \<and> ws_pc s' = Wp_idle \<and> skw_work d = Some (ws_data s') \<and>
             wd_done (ws_data s') = ws_queued s \<and> wd_freed (ws_data s') = ws_handed s \<and>
             wd_list (ws_data s') = [] \<and> wd_rcu (ws_data s') = [] \<and> wd_flags (ws_data s') = 0)))"
proof -
  let ?d = "ws_data s"
  note I = work_reachable_inv [OF assms, unfolded work_inv_def Let_def]
  have alone: "\<exists>s'. work_handler_step\<^sup>*\<^sup>* s s' \<and> ws_pc s' = Wp_idle \<and> skw_work ?d = Some (ws_data s') \<and>
       wd_done (ws_data s') = ws_queued s \<and> wd_freed (ws_data s') = ws_handed s \<and>
       wd_list (ws_data s') = [] \<and> wd_rcu (ws_data s') = [] \<and> wd_flags (ws_data s') = 0"
    if "\<not> race" "ws_pc s = Wp_idle" "ws_flagging s = 0" "ws_waking s = 0"
  proof -
    have R: "rcu_inv s" using assms that(1) work_reachable_rcu_inv by (cases race) auto
    then have f: "wd_rcu ?d \<noteq> [] \<longrightarrow> bit (wd_flags ?d) 1" using that by (simp add: rcu_inv_def Let_def)
    obtain d1 where d1: "skw_work ?d = Some d1" "wd_freed d1 = wd_freed ?d @ wd_rcu ?d" "wd_done d1 = wd_done ?d @ wd_list ?d"
      "wd_rcu d1 = []" "wd_list d1 = []" "wd_flags d1 = 0"
      using skw_work_spec [of ?d] I f by blast
    have all: "wd_done d1 = ws_queued s" "wd_freed d1 = ws_handed s"
      using I R d1 that by (simp_all add: rcu_inv_def Let_def)
    show ?thesis
    proof (cases "ws_pending s")
      case True
      let ?s1 = "s\<lparr>ws_pc := Wp_test, ws_pending := False\<rparr>"
      have "work_handler_step s ?s1" using that True by (intro work_handler_step.start)
      moreover have "work_handler_step\<^sup>*\<^sup>* ?s1 (?s1\<lparr>ws_data := d1, ws_pc := Wp_idle\<rparr>)"
        using I f d1(1) by (intro handler_runs_skw_work) auto
      ultimately show ?thesis using d1 all
        by (intro exI [of _ "?s1\<lparr>ws_data := d1, ws_pc := Wp_idle\<rparr>"]) (auto intro: converse_rtranclp_into_rtranclp)
    next
      case False
      then have "wd_flags ?d = 0 \<and> wd_list ?d = []" using I that by auto
      then have "skw_work ?d = Some ?d" by (subst skw_work.simps) simp
      with d1 all that show ?thesis by (intro exI [of _ s]) auto
    qed
  qed
  have kept: "wd_lost ?d = [] \<and> ws_handed s = wd_freed ?d @ pc_object (ws_pc s) @ wd_rcu ?d" if "\<not> race"
    using assms that work_reachable_rcu_inv [of s] by (cases race) (simp_all add: rcu_inv_def Let_def)
  show ?thesis unfolding Let_def
  proof (intro conjI impI)
    assume "wd_flags ?d \<noteq> 0 \<or> wd_list ?d \<noteq> []"
    then show "ws_pc s \<noteq> Wp_idle \<or> ws_pending s \<or> 0 < ws_waking s" using I by auto
  next
    assume "\<not> race" "ws_pc s = Wp_idle \<and> ws_flagging s = 0 \<and> ws_waking s = 0"
    then show "\<exists>s'. work_handler_step\<^sup>*\<^sup>* s s' \<and> ws_pc s' = Wp_idle \<and> skw_work ?d = Some (ws_data s') \<and>
       wd_done (ws_data s') = ws_queued s \<and> wd_freed (ws_data s') = ws_handed s \<and>
       wd_list (ws_data s') = [] \<and> wd_rcu (ws_data s') = [] \<and> wd_flags (ws_data s') = 0"
      using alone by simp
  qed (use I kept in simp_all)
qed

text \<open>Two objects handed over; the callers have scheduled the handler.\<close>

definition two_objects :: work_sys where
  "two_objects = \<lparr>ws_data = skw_call_rcu 5 (skw_call_rcu 4 skw_work_init), ws_pc = Wp_idle, ws_pending = True,
     ws_flagging = 0, ws_waking = 0, ws_queued = [], ws_handed = [4, 5]\<rparr>"

lemma hand_over:
  assumes "race \<or> rcu_safe s" "ws_flagging s = 0" "ws_waking s = 0"
  shows "(work_step race)\<^sup>*\<^sup>* s (s\<lparr>ws_data := skw_call_rcu n (ws_data s), ws_pending := True, ws_handed := ws_handed s @ [n]\<rparr>)"
proof -
  define s1 where "s1 = s\<lparr>ws_data := rcu_hang n (ws_data s), ws_flagging := ws_flagging s + 1, ws_handed := ws_handed s @ [n]\<rparr>"
  define s2 where "s2 = s1\<lparr>ws_data := rcu_flag (ws_data s1), ws_flagging := ws_flagging s1 - 1, ws_waking := ws_waking s1 + 1\<rparr>"
  define s3 where "s3 = s2\<lparr>ws_waking := ws_waking s2 - 1, ws_pending := True\<rparr>"
  have "work_step race s s1" unfolding s1_def using assms(1) by (rule work_step.hang)
  moreover have "work_step race s1 s2" unfolding s2_def by (rule work_step.flag) (simp add: s1_def)
  moreover have "work_step race s2 s3" unfolding s3_def by (rule work_step.wake) (simp add: s2_def)
  moreover have "s3 = s\<lparr>ws_data := skw_call_rcu n (ws_data s), ws_pending := True, ws_handed := ws_handed s @ [n]\<rparr>"
    using assms by (simp add: s3_def s2_def s1_def skw_call_rcu_def)
  ultimately show ?thesis by (metis converse_rtranclp_into_rtranclp rtranclp.rtrancl_refl)
qed

lemma two_objects_reachable: "work_reachable False two_objects"
proof -
  define s1 where "s1 = work_sys_init\<lparr>ws_data := skw_call_rcu 4 skw_work_init, ws_pending := True, ws_handed := [4]\<rparr>"
  have "(work_step False)\<^sup>*\<^sup>* work_sys_init s1"
    using hand_over [of False work_sys_init 4] by (simp add: s1_def work_sys_init_def rcu_safe_def skw_work_init_def)
  moreover have "(work_step False)\<^sup>*\<^sup>* s1 two_objects"
    using hand_over [of False s1 5]
    by (simp add: s1_def two_objects_def work_sys_init_def rcu_safe_def skw_call_rcu_def rcu_hang_def rcu_flag_def skw_work_init_def)
  ultimately show ?thesis unfolding work_reachable_def by (rule rtranclp_trans)
qed

theorem work_list_drained_witness:
  "\<exists>s'. work_handler_step\<^sup>*\<^sup>* two_objects s' \<and> wd_freed (ws_data s') = [4, 5] \<and> wd_flags (ws_data s') = 0"
  using work_list_drained [OF two_objects_reachable] by (auto simp: two_objects_def Let_def)

section \<open>Behaviour worth knowing\<close>

text \<open>
  Between taking off the last object and resetting the list, the place for the next object is still behind the one
  taken off: an object handed over at that moment is hung behind freed memory and never freed.
\<close>

lemma rcu_race_loses:
  assumes "wd_rcu d = [h]" "wd_tail d = Behind h" "rcu_pop d = (x, d1)"
  shows "wd_lost (skw_call_rcu n d1) = wd_lost d @ [n] \<and> wd_rcu (skw_call_rcu n d1) = []"
  using assms by (auto simp: rcu_pop_def skw_call_rcu_def rcu_flag_def rcu_hang_def)

text \<open>
  An object handed over after the list was found empty, but before it is reset, stays in the list without its flag; the
  next one replaces it.
\<close>

lemma rcu_reset_race_loses:
  assumes "wd_rcu d = []" "wd_tail d = At_head"
  shows "wd_lost (skw_call_rcu n (rcu_reset (skw_call_rcu m d))) = wd_lost d @ [m]"
  using assms by (simp add: rcu_reset_def rcu_reset_tail_def rcu_clear_def skw_call_rcu_def rcu_flag_def rcu_hang_def)

text \<open>A member of the access point that stands behind the maximum in the map is refused as if it were new.\<close>

lemma member_refused:
  "\<not> skw_sta_access_allowed None [Some a, Some b] 3 1 b \<or> a = b"
  by (auto simp: skw_sta_access_allowed_def map_bits_filter upt_rec)

end
