(* ===== verification/Skw_Util.thy ===== *)
theory Skw_Util
  imports Skw_Prelude
begin

text \<open>
  \<^verbatim>\<open>skw_util.c\<close> and the inline helpers of \<^verbatim>\<open>skw_util.h\<close>: key index table, channel numbers,
  management frame names, information-element iteration, MAC addresses as numbers, and the
  type-length-value buffers in which settings travel to the firmware.
\<close>

section \<open>Tables\<close>

definition SKW_INVALID_ID :: int where "SKW_INVALID_ID = 0xff"

definition key_idx_tbl :: "int list" where
  "key_idx_tbl = [0xff, 0x00, 0x01, 0xff, 0x02, 0xff, 0xff, 0xff,
                  0x03, 0xff, 0xff, 0xff, 0xff, 0xff, 0xff, 0xff]"

definition skw_key_idx :: "u64 \<Rightarrow> int" where
  "skw_key_idx bitmap = key_idx_tbl ! unat (bitmap AND 0xf)"

text \<open>The frame control subtypes are those of the 802.11 header of the kernel.\<close>

definition skw_mgmt_name :: "u16 \<Rightarrow> string" where
  "skw_mgmt_name fc =
     (if fc = 0x0000 then ''ASSOC_REQ''
      else if fc = 0x0010 then ''ASSOC_RESP''
      else if fc = 0x0020 then ''REASSOC_REQ''
      else if fc = 0x0030 then ''REASSOC_RESP''
      else if fc = 0x0040 then ''PROBE_REQ''
      else if fc = 0x0050 then ''PROBE_RESP''
      else if fc = 0x0080 then ''BEACON''
      else if fc = 0x0090 then ''ATIM''
      else if fc = 0x00A0 then ''DISASSOC''
      else if fc = 0x00B0 then ''AUTH''
      else if fc = 0x00C0 then ''DEAUTH''
      else if fc = 0x00D0 then ''ACTION''
      else ''UNDEFINE'')"

definition skw_freq_to_chn :: "int \<Rightarrow> int" where
  "skw_freq_to_chn freq =
     (if freq = 2484 then 14
      else if 2407 \<le> freq \<and> freq < 2484 then (freq - 2407) div 5
      else if 4910 \<le> freq \<and> freq \<le> 4980 then (freq - 4000) div 5
      else if 5000 \<le> freq \<and> freq \<le> 45000 then (freq - 5000) div 5
      else if 58320 \<le> freq \<and> freq \<le> 64800 then (freq - 56160) div 2160
      else 0)"

section \<open>Information elements\<close>

text \<open>
  What \<open>skw_foreach_element\<close> visits: identifier and data of each element, until fewer
  than two bytes are left or the announced length does not fit.
\<close>

function skw_foreach_element :: "u8 list \<Rightarrow> (u8 \<times> u8 list) list" where
  "skw_foreach_element bs =
     (case bs of
        eid # len # rest \<Rightarrow>
          if unat len \<le> length rest
          then (eid, take (unat len) rest) # skw_foreach_element (drop (unat len) rest)
          else []
      | _ \<Rightarrow> [])"
  by pat_completeness auto
termination
  by (relation "measure length") auto

declare skw_foreach_element.simps [simp del]

section \<open>MAC addresses as numbers\<close>

definition skw_mac_to_u64 :: "u8 list \<Rightarrow> u64" where
  "skw_mac_to_u64 addr = fold (\<lambda>b u. push_bit 8 u OR ucast b) (take 6 addr) 0"

fun u64_to_mac_loop :: "nat \<Rightarrow> u64 \<Rightarrow> u8 list \<Rightarrow> u8 list" where
  "u64_to_mac_loop 0 u addr = addr"
| "u64_to_mac_loop (Suc i) u addr =
     u64_to_mac_loop i (drop_bit 8 u) (addr[i := ucast (u AND 0xff)])"

definition skw_u64_to_mac :: "u64 \<Rightarrow> u8 list \<Rightarrow> u8 list" where
  "skw_u64_to_mac u addr = u64_to_mac_loop 6 u addr"

section \<open>Type-length-value buffers\<close>

text \<open>
  \<open>struct skw_tlv_conf\<close>: pointers into the buffer are offsets. The buffer is \<open>None\<close>
  when it is not allocated.
\<close>

record skw_tlv_conf =
  buff :: "u8 list option"
  plen :: "nat option"
  buff_len :: int
  total_len :: int

text \<open>\<open>sizeof(struct skw_tlv)\<close> is four bytes; \<open>ok\<close> is whether the allocation succeeds.\<close>

definition tlv_alloc_size :: "int \<Rightarrow> int" where
  "tlv_alloc_size len = (4 + 2 + len + 7) div 8 * 8"

definition skw_tlv_alloc :: "bool \<Rightarrow> int \<Rightarrow> skw_tlv_conf \<Rightarrow> int \<times> skw_tlv_conf" where
  "skw_tlv_alloc ok len conf =
     (let size = tlv_alloc_size len in
      if \<not> ok then (- ENOMEM, conf\<lparr>buff := None\<rparr>)
      else (0, conf\<lparr>buff := Some (replicate (nat size) 0), total_len := 0, buff_len := size\<rparr>))"

definition skw_tlv_reserve :: "int \<Rightarrow> skw_tlv_conf \<Rightarrow> nat option \<times> skw_tlv_conf" where
  "skw_tlv_reserve len conf =
     (if buff conf = None then (None, conf)
      else if buff_len conf < total_len conf + len then (None, conf)
      else (Some (nat (total_len conf)), conf\<lparr>total_len := total_len conf + len\<rparr>))"

definition skw_tlv_add :: "int \<Rightarrow> u8 list \<Rightarrow> skw_tlv_conf \<Rightarrow> int \<times> skw_tlv_conf" where
  "skw_tlv_add type dat conf =
     (case skw_tlv_reserve (4 + int (length dat)) conf of
        (None, c) \<Rightarrow> (- ENOMEM, c)
      | (Some off, c) \<Rightarrow>
          (0, c\<lparr>buff := map_option (poke off (le16 (word_of_int type) @
                           le16 (word_of_int (int (length dat))) @ dat)) (buff c)\<rparr>))"

definition skw_tlv_start :: "skw_tlv_conf \<Rightarrow> skw_tlv_conf" where
  "skw_tlv_start conf = (let (p, c) = skw_tlv_reserve 2 conf in c\<lparr>plen := p\<rparr>)"

definition skw_tlv_end :: "skw_tlv_conf \<Rightarrow> skw_tlv_conf" where
  "skw_tlv_end conf =
     (case plen conf of None \<Rightarrow> conf
      | Some off \<Rightarrow> conf\<lparr>buff := map_option (poke off (le16 (word_of_int (total_len conf)))) (buff conf)\<rparr>)"

definition skw_tlv_free :: "skw_tlv_conf \<Rightarrow> skw_tlv_conf" where
  "skw_tlv_free conf = conf\<lparr>buff := None, total_len := 0, buff_len := 0\<rparr>"

text \<open>
  \<open>skw_set_mib\<close> hands the first \<open>total_len\<close> bytes to \<open>skw_msg_xmit\<close>, whose answer
  \<open>xmit\<close> gives. The stack variable \<open>c\<close> starts with arbitrary contents.
\<close>

definition skw_set_mib :: "bool \<Rightarrow> (u8 list \<Rightarrow> int) \<Rightarrow> skw_tlv_conf \<Rightarrow> int \<Rightarrow> u8 list \<Rightarrow> int" where
  "skw_set_mib ok xmit c mib dat =
     (case skw_tlv_alloc ok (int (length dat)) c of
        (r, c1) \<Rightarrow>
          if r \<noteq> 0 then - ENOMEM
          else (let c2 = skw_tlv_end (snd (skw_tlv_add mib dat (skw_tlv_start c1))) in
                xmit (take (nat (total_len c2)) (the (buff c2)))))"

section \<open>A buffer that only grows\<close>

text \<open>
  The contract of an append-only message buffer: an item that fits extends the contents by its
  encoding and keeps the invariant.
\<close>

locale append_buffer =
  fixes add :: "'i \<Rightarrow> 's \<Rightarrow> 's" and contents :: "'s \<Rightarrow> u8 list" and enc :: "'i \<Rightarrow> u8 list"
    and bok :: "'s \<Rightarrow> bool" and cap :: "'s \<Rightarrow> nat"
  assumes add_fits: "bok s \<Longrightarrow> length (contents s) + length (enc i) \<le> cap s \<Longrightarrow>
      bok (add i s) \<and> contents (add i s) = contents s @ enc i \<and> cap (add i s) = cap s"
begin

lemma add_all:
  "bok s \<Longrightarrow> length (contents s) + length (concat (map enc is)) \<le> cap s \<Longrightarrow>
     bok (fold add is s) \<and> contents (fold add is s) = contents s @ concat (map enc is) \<and>
     cap (fold add is s) = cap s"
proof (induction "is" arbitrary: s)
  case (Cons i "is")
  then have "bok (add i s) \<and> contents (add i s) = contents s @ enc i \<and> cap (add i s) = cap s"
    by (intro add_fits) auto
  with Cons.prems Cons.IH [of "add i s"] show ?case by auto
qed simp

end

text \<open>One type-length-value item as bytes, and the decoder the receiver of a message applies.\<close>

definition tlv_encode :: "u16 \<times> u8 list \<Rightarrow> u8 list" where
  "tlv_encode x = le16 (fst x) @ le16 (of_nat (length (snd x))) @ snd x"

function tlv_decode :: "u8 list \<Rightarrow> (u16 \<times> u8 list) list" where
  "tlv_decode bs =
     (if length bs < 4 then []
      else let n = unat (get16 (drop 2 bs)) in
           (get16 bs, take n (drop 4 bs)) # tlv_decode (drop (4 + n) bs))"
  by pat_completeness auto
termination
  by (relation "measure length") auto

declare tlv_decode.simps [simp del]

lemma length_tlv_encode [simp]: "length (tlv_encode x) = 4 + length (snd x)"
  by (simp add: tlv_encode_def)

lemma drop_le16 [simp]: "drop 2 (le16 x @ r) = r"
  by (simp add: le16_def)

lemma drop_4_le16 [simp]: "drop 4 (le16 x @ le16 y @ r) = r"
  by (simp add: le16_def numeral_eq_Suc)

lemma tlv_decode_cons:
  assumes "length (snd x) < 65536"
  shows "tlv_decode (tlv_encode x @ r) = x # tlv_decode r"
proof -
  have n: "unat (of_nat (length (snd x)) :: u16) = length (snd x)"
    using assms by (simp add: unsigned_of_nat take_bit_nat_eq_self)
  have "drop (4 + length (snd x)) (le16 a @ le16 b @ snd x @ r) = r" for a b
    using drop_drop [of "length (snd x)" 4 "le16 a @ le16 b @ snd x @ r"] by (simp add: add.commute)
  then show ?thesis
    by (subst tlv_decode.simps) (simp add: tlv_encode_def Let_def n)
qed

lemma tlv_decode_concat:
  assumes "\<forall>x \<in> set xs. length (snd x) < 65536"
  shows "tlv_decode (concat (map tlv_encode xs)) = xs"
  using assms by (induction xs) (simp_all add: tlv_decode_cons tlv_decode.simps [of "[]"])

definition tlv_ok :: "skw_tlv_conf \<Rightarrow> bool" where
  "tlv_ok c \<longleftrightarrow> (case buff c of None \<Rightarrow> False
     | Some b \<Rightarrow> 0 \<le> total_len c \<and> total_len c \<le> buff_len c \<and> int (length b) = buff_len c)"

definition tlv_contents :: "skw_tlv_conf \<Rightarrow> u8 list" where
  "tlv_contents c = (case buff c of None \<Rightarrow> [] | Some b \<Rightarrow> take (nat (total_len c)) b)"

definition tlv_add_item :: "u16 \<times> u8 list \<Rightarrow> skw_tlv_conf \<Rightarrow> skw_tlv_conf" where
  "tlv_add_item x c = snd (skw_tlv_add (uint (fst x)) (snd x) c)"

lemma tlv_okE:
  assumes "tlv_ok c"
  obtains b n where "buff c = Some b" "total_len c = int n" "n \<le> length b" "buff_len c = int (length b)"
    "tlv_contents c = take n b" "length (tlv_contents c) = n"
proof -
  from assms obtain b where b: "buff c = Some b" "0 \<le> total_len c" "total_len c \<le> buff_len c"
    "int (length b) = buff_len c" by (auto simp: tlv_ok_def split: option.splits)
  from b(2) obtain n where "total_len c = int n" by (metis nonneg_int_cases)
  with b show ?thesis by (intro that [of b n]) (auto simp: tlv_contents_def)
qed

lemma tlv_add_fits:
  assumes "tlv_ok c" and "total_len c + 4 + int (length dat) \<le> buff_len c"
  shows "fst (skw_tlv_add ty dat c) = 0" and "tlv_ok (snd (skw_tlv_add ty dat c))"
    and "tlv_contents (snd (skw_tlv_add ty dat c)) = tlv_contents c @ tlv_encode (word_of_int ty, dat)"
    and "buff_len (snd (skw_tlv_add ty dat c)) = buff_len c"
    and "plen (snd (skw_tlv_add ty dat c)) = plen c"
    and "total_len (snd (skw_tlv_add ty dat c)) = total_len c + 4 + int (length dat)"
proof -
  obtain b n where b: "buff c = Some b" "total_len c = int n" "n \<le> length b"
    "buff_len c = int (length b)" "tlv_contents c = take n b" by (rule tlv_okE [OF assms(1)])
  let ?e = "tlv_encode (word_of_int ty, dat)"
  have le: "n + length ?e \<le> length b" using assms(2) b by simp
  have "skw_tlv_add ty dat c =
      (0, c\<lparr>total_len := int (n + length ?e), buff := Some (poke n ?e b)\<rparr>)"
    using le b by (simp add: skw_tlv_add_def skw_tlv_reserve_def tlv_encode_def)
  then show "fst (skw_tlv_add ty dat c) = 0" and "tlv_ok (snd (skw_tlv_add ty dat c))"
    and "tlv_contents (snd (skw_tlv_add ty dat c)) = tlv_contents c @ ?e"
    and "buff_len (snd (skw_tlv_add ty dat c)) = buff_len c"
    and "plen (snd (skw_tlv_add ty dat c)) = plen c"
    and "total_len (snd (skw_tlv_add ty dat c)) = total_len c + 4 + int (length dat)"
    using le b take_poke_after [of n b ?e] by (simp_all add: tlv_ok_def tlv_contents_def nat_add_distrib)
qed

lemma tlv_add_full:
  assumes "tlv_ok c" and "buff_len c < total_len c + 4 + int (length dat)"
  shows "skw_tlv_add ty dat c = (- ENOMEM, c)"
  using assms by (auto simp: skw_tlv_add_def skw_tlv_reserve_def tlv_ok_def split: option.splits)

interpretation tlv: append_buffer tlv_add_item tlv_contents tlv_encode tlv_ok "\<lambda>c. nat (buff_len c)"
proof
  fix s :: skw_tlv_conf and i :: "u16 \<times> u8 list"
  assume ok: "tlv_ok s" and le: "length (tlv_contents s) + length (tlv_encode i) \<le> nat (buff_len s)"
  obtain b n where b: "buff s = Some b" "total_len s = int n" "buff_len s = int (length b)" "length (tlv_contents s) = n"
    by (rule tlv_okE [OF ok]) blast
  then have "total_len s + 4 + int (length (snd i)) \<le> buff_len s" using le by simp
  from tlv_add_fits [OF ok this, of "uint (fst i)"]
  show "tlv_ok (tlv_add_item i s) \<and> tlv_contents (tlv_add_item i s) = tlv_contents s @ tlv_encode i \<and>
        nat (buff_len (tlv_add_item i s)) = nat (buff_len s)"
    by (simp add: tlv_add_item_def)
qed

lemma tlv_start_alloc:
  assumes "0 \<le> n" "skw_tlv_alloc True n c = (r, c1)"
  shows "r = 0" "tlv_ok (skw_tlv_start c1)" "plen (skw_tlv_start c1) = Some 0"
    "length (tlv_contents (skw_tlv_start c1)) = 2" "total_len (skw_tlv_start c1) = 2"
    "n + 6 \<le> buff_len (skw_tlv_start c1)"
proof -
  have "n + 6 \<le> tlv_alloc_size n" "0 \<le> tlv_alloc_size n" using assms(1) by (simp_all add: tlv_alloc_size_def)
  then show "r = 0" "tlv_ok (skw_tlv_start c1)" "plen (skw_tlv_start c1) = Some 0"
    "length (tlv_contents (skw_tlv_start c1)) = 2" "total_len (skw_tlv_start c1) = 2"
    "n + 6 \<le> buff_len (skw_tlv_start c1)"
    using assms by (auto simp: skw_tlv_alloc_def Let_def skw_tlv_start_def skw_tlv_reserve_def
        tlv_ok_def tlv_contents_def)
qed

lemma tlv_end_contents:
  assumes "tlv_ok c" and "plen c = Some 0" and "tlv_contents c = h @ r" and "length h = 2"
  shows "tlv_contents (skw_tlv_end c) = le16 (word_of_int (total_len c)) @ r"
    and "total_len (skw_tlv_end c) = total_len c" and "buff (skw_tlv_end c) \<noteq> None"
proof -
  obtain b n where b: "buff c = Some b" "total_len c = int n" "n \<le> length b"
    "tlv_contents c = take n b" "length (tlv_contents c) = n" by (rule tlv_okE [OF assms(1)])
  let ?l = "le16 (word_of_int (total_len c))"
  have "n = length (h @ r)" using b(5) assms(3) by simp
  then have n: "2 \<le> n" using assms(4) by simp
  have "take n (poke 0 ?l b) = ?l @ take (n - 2) (drop 2 b)" using n b by (simp add: poke_def numeral_2_eq_2)
  also have "take (n - 2) (drop 2 b) = drop 2 (take n b)" by (simp add: drop_take)
  also have "\<dots> = r" using assms(3,4) b by simp
  finally show "tlv_contents (skw_tlv_end c) = ?l @ r"
    using b assms(2) by (simp add: skw_tlv_end_def tlv_contents_def)
  show "total_len (skw_tlv_end c) = total_len c" "buff (skw_tlv_end c) \<noteq> None"
    using b assms(2) by (simp_all add: skw_tlv_end_def)
qed

section \<open>Properties\<close>

definition ex_conf :: skw_tlv_conf where
  "ex_conf = \<lparr>buff = None, plen = None, buff_len = 0, total_len = 0\<rparr>"

text \<open>
  A setting reaches the firmware intact: when the buffer can be allocated, \<open>skw_set_mib\<close>
  sends one message whose first two bytes are its own length and whose rest decodes to
  exactly the setting's identifier and data; when it cannot, nothing is sent and the
  out-of-memory error is returned.
\<close>

theorem skw_set_mib_roundtrip:
  assumes "length dat < 65530"
  shows "skw_set_mib False xmit c mib dat = - ENOMEM \<and>
    (\<exists>msg. skw_set_mib True xmit c mib dat = xmit msg \<and> unat (get16 msg) = length msg \<and>
           tlv_decode (drop 2 msg) = [(word_of_int mib, dat)])"
proof -
  obtain r c1 where al: "skw_tlv_alloc True (int (length dat)) c = (r, c1)" by force
  note st = tlv_start_alloc [OF _ al, simplified]
  let ?c2 = "skw_tlv_start c1"
  let ?c3 = "snd (skw_tlv_add mib dat ?c2)"
  have "total_len ?c2 + 4 + int (length dat) \<le> buff_len ?c2" using st by simp
  note ad = tlv_add_fits [OF st(2) this, of mib]
  have p: "plen ?c3 = Some 0" using ad(5) st(3) by simp
  note en = tlv_end_contents [OF ad(2) p ad(3) st(4)]
  define msg where "msg = tlv_contents (skw_tlv_end ?c3)"
  have msg: "msg = le16 (of_nat (6 + length dat)) @ tlv_encode (word_of_int mib, dat)"
    using en(1) ad(6) st(5) by (simp add: msg_def add.commute)
  have "skw_set_mib True xmit c mib dat = xmit msg"
    using al st(1) en(3) by (auto simp: skw_set_mib_def Let_def msg_def tlv_contents_def)
  moreover have "unat (of_nat (6 + length dat) :: u16) = 6 + length dat"
    using assms unsigned_of_nat [of "6 + length dat", where ?'a = nat and ?'b = 16]
    by (simp add: take_bit_nat_eq_self del: of_nat_add)
  moreover have "tlv_decode (tlv_encode (word_of_int mib, dat)) = [(word_of_int mib, dat)]"
    using tlv_decode_concat [of "[(word_of_int mib, dat)]"] assms by simp
  ultimately show ?thesis
    by (auto simp: skw_set_mib_def skw_tlv_alloc_def Let_def msg errno_defs)
qed

theorem skw_set_mib_roundtrip_witness:
  "\<exists>msg. skw_set_mib True (\<lambda>m. int (length m)) ex_conf 7 [1, 2, 3] = int (length msg) \<and>
         tlv_decode (drop 2 msg) = [(7, [1, 2, 3])]"
  using skw_set_mib_roundtrip [of "[1, 2, 3]" "\<lambda>m. int (length m)" ex_conf 7] by fastforce

text \<open>
  Adding an item to a message buffer is all or nothing: if header and data fit, the item is
  appended to the contents and the buffer stays within its bounds; otherwise the call fails
  with an error and the buffer is untouched.
\<close>

theorem skw_tlv_add_all_or_nothing:
  assumes "tlv_ok c"
  shows "(if total_len c + 4 + int (length dat) \<le> buff_len c
          then fst (skw_tlv_add ty dat c) = 0 \<and> tlv_ok (snd (skw_tlv_add ty dat c)) \<and>
               tlv_contents (snd (skw_tlv_add ty dat c)) =
                 tlv_contents c @ tlv_encode (word_of_int ty, dat)
          else skw_tlv_add ty dat c = (- ENOMEM, c))"
  using tlv_add_fits [OF assms] tlv_add_full [OF assms] by auto

theorem skw_tlv_add_all_or_nothing_witness:
  "skw_tlv_add 1 [5] (ex_conf\<lparr>buff := Some [0, 0, 0, 0], buff_len := 4\<rparr>) =
     (- ENOMEM, ex_conf\<lparr>buff := Some [0, 0, 0, 0], buff_len := 4\<rparr>)"
  using skw_tlv_add_all_or_nothing [of "ex_conf\<lparr>buff := Some [0, 0, 0, 0], buff_len := 4\<rparr>" "[5]" 1]
  by (simp add: tlv_ok_def ex_conf_def)

text \<open>
  A message built from any number of items decodes to those items, in order, provided they fit
  the buffer.
\<close>

theorem tlv_message_roundtrip:
  assumes "tlv_ok c" and "tlv_contents c = []" and "\<forall>x \<in> set xs. length (snd x) < 65536"
    and "length (concat (map tlv_encode xs)) \<le> nat (buff_len c)"
  shows "tlv_decode (tlv_contents (fold tlv_add_item xs c)) = xs"
  using tlv.add_all [of c xs] assms tlv_decode_concat [of xs] by simp

theorem tlv_message_roundtrip_witness:
  "tlv_decode (tlv_contents (fold tlv_add_item [(1, [7]), (2, [8, 9])]
     (ex_conf\<lparr>buff := Some (replicate 16 0), buff_len := 16\<rparr>))) = [(1, [7]), (2, [8, 9])]"
  by (rule tlv_message_roundtrip) (simp_all add: tlv_ok_def tlv_contents_def ex_conf_def)

lemma length_u64_to_mac_loop [simp]: "length (u64_to_mac_loop i u addr) = length addr"
  by (induction i u addr rule: u64_to_mac_loop.induct) simp_all

lemma byte_of_step: "ucast ((push_bit 8 u OR ucast b) AND 0xff :: u64) = (b :: u8)"
proof -
  have "x AND 0xff = take_bit 8 x" for x :: u64
    by (simp add: take_bit_eq_mask mask_eq_exp_minus_1)
  then show ?thesis by (simp only:) (rule bit_word_eqI, auto simp: bit_simps)
qed

lemma rest_of_step:
  assumes "\<And>n. bit u n \<Longrightarrow> n < 56"
  shows "drop_bit 8 (push_bit 8 u OR ucast (b :: u8)) = (u :: u64)"
  using assms by (intro bit_word_eqI) (auto simp: bit_simps dest: bit_imp_le_length)

abbreviation mac_step :: "u8 \<Rightarrow> u64 \<Rightarrow> u64" where
  "mac_step b u \<equiv> push_bit 8 u OR ucast b"

lemma mac_bits: "bit (fold mac_step xs 0) n \<Longrightarrow> n < 8 * length xs"
proof (induction xs arbitrary: n rule: rev_induct)
  case (snoc b xs)
  then consider "8 \<le> n" "bit (fold mac_step xs 0) (n - 8)" | "bit b n"
    by (auto simp: bit_simps)
  then show ?case using snoc.IH [of "n - 8"] by cases (auto dest: bit_imp_le_length)
qed simp

lemma mac_loop_inverse:
  "length xs \<le> 7 \<Longrightarrow> length xs \<le> length buf \<Longrightarrow>
     u64_to_mac_loop (length xs) (fold mac_step xs 0) buf = xs @ drop (length xs) buf"
proof (induction xs arbitrary: buf rule: rev_induct)
  case (snoc b xs)
  have "bit (fold mac_step xs 0) n \<Longrightarrow> n < 56" for n
    using mac_bits [of xs n] snoc.prems(1) by simp
  then have rest: "drop_bit 8 (mac_step b (fold mac_step xs 0)) = fold mac_step xs 0"
    by (rule rest_of_step)
  have "drop (length xs) (buf[length xs := b]) = b # drop (Suc (length xs)) buf"
    using snoc.prems(2) by (simp add: Cons_nth_drop_Suc [symmetric])
  then show ?case
    using snoc by (simp add: rest byte_of_step del: drop_bit_or)
qed simp

text \<open>
  A MAC address survives the trip through its 48-bit number.
\<close>

theorem mac_u64_roundtrip:
  assumes "length addr = 6" and "length dst = 6"
  shows "skw_u64_to_mac (skw_mac_to_u64 addr) dst = addr"
  using mac_loop_inverse [of addr dst] assms by (simp add: skw_u64_to_mac_def skw_mac_to_u64_def)

theorem mac_u64_roundtrip_witness:
  "skw_u64_to_mac (skw_mac_to_u64 [0xFE, 0xFD, 0xFC, 1, 2, 3]) [0, 0, 0, 0, 0, 0] = [0xFE, 0xFD, 0xFC, 1, 2, 3]"
  by (rule mac_u64_roundtrip) simp_all

definition ie_encode :: "u8 \<times> u8 list \<Rightarrow> u8 list" where
  "ie_encode x = fst x # of_nat (length (snd x)) # snd x"

text \<open>
  Iterating over a well-formed sequence of information elements visits exactly those elements,
  and a truncated element after them is not visited.
\<close>

theorem foreach_element_exact:
  assumes "\<forall>x \<in> set xs. length (snd x) < 256"
    and "case r of e # len # rest \<Rightarrow> length rest < unat len | _ \<Rightarrow> True"
  shows "skw_foreach_element (concat (map ie_encode xs) @ r) = xs"
  using assms
proof (induction xs)
  case Nil
  then show ?case by (subst skw_foreach_element.simps) (auto split: list.splits)
next
  case (Cons x xs)
  have "unat (of_nat (length (snd x)) :: u8) = length (snd x)"
    using Cons.prems by (simp add: unsigned_of_nat take_bit_nat_eq_self)
  with Cons show ?case
    by (subst skw_foreach_element.simps) (simp add: ie_encode_def [of x])
qed

theorem foreach_element_exact_witness:
  "skw_foreach_element [0, 2, 65, 66, 3, 1, 11, 48, 20, 1] = [(0, [65, 66]), (3, [11])]"
  using foreach_element_exact [of "[(0, [65, 66]), (3, [11])]" "[48, 20, 1]"]
  by (simp add: ie_encode_def)

end
