(* ===== verification/Rx_Frag.thy ===== *)
theory Rx_Frag
  imports Rx_Reorder Skw_Util
begin

text \<open>
  Replay detection and reassembly of fragmented frames, \<^verbatim>\<open>skw_rx.c\<close>. Packet numbers are the
  six bytes of the descriptor in the byte order of the host (little endian). The fragment
  table of an interface has four entries.
\<close>

section \<open>Keys and packet numbers\<close>

text \<open>\<open>struct skw_key\<close>: the last packet number received, per queue.\<close>

record skw_key =
  key_len :: u32
  key_data :: "u8 list"
  rx_pn :: "u8 list list"

record skw_key_conf =
  skw_cipher :: u8
  installed_bitmap :: u8
  key_flags :: u8
  wep_idx :: u8
  key_of :: "skw_key option list"

definition SKW_CIPHER_TYPE_TKIP :: u8 where "SKW_CIPHER_TYPE_TKIP = 3"
definition SKW_CIPHER_TYPE_CCMP :: u8 where "SKW_CIPHER_TYPE_CCMP = 8"
definition SKW_CIPHER_TYPE_CCMP_256 :: u8 where "SKW_CIPHER_TYPE_CCMP_256 = 9"
definition SKW_CIPHER_TYPE_GCMP :: u8 where "SKW_CIPHER_TYPE_GCMP = 10"
definition SKW_CIPHER_TYPE_GCMP_256 :: u8 where "SKW_CIPHER_TYPE_GCMP_256 = 11"

lemmas cipher_defs = SKW_CIPHER_TYPE_TKIP_def SKW_CIPHER_TYPE_CCMP_def SKW_CIPHER_TYPE_CCMP_256_def
  SKW_CIPHER_TYPE_GCMP_def SKW_CIPHER_TYPE_GCMP_256_def

definition SKW_PN_U48 :: "u8 list \<Rightarrow> u64" where
  "SKW_PN_U48 x = le_val (take 6 x)"

definition SKW_PN_U32 :: "u8 list \<Rightarrow> u64" where
  "SKW_PN_U32 x = le_val (take 4 x)"

text \<open>
  On an SDIO bus whose firmware reuses the last two bytes of the packet number for the length
  (\<open>reuse\<close>), only the low 32 bits are compared.
\<close>

definition pn_of :: "bool \<Rightarrow> u8 list \<Rightarrow> u64" where
  "pn_of reuse x = (if reuse then SKW_PN_U32 x else SKW_PN_U48 x)"

definition skw_pn_allowed :: "bool \<Rightarrow> skw_key option \<Rightarrow> skw_rx_desc \<Rightarrow> nat \<Rightarrow> int" where
  "skw_pn_allowed reuse key d queue =
     (case key of None \<Rightarrow> - EINVAL
      | Some k \<Rightarrow>
        (let p = pn_of reuse (pn d);
             q = pn_of reuse (rx_pn k ! queue);
             ret = (if q < p then 1 else if p = q then 0 else -1 :: int) in
         if ret < 0 \<or> (ret = 0 \<and> \<not> is_amsdu d \<and> p \<noteq> 0) then - EINVAL else 0))"

text \<open>
  The queue whose packet number is checked: the traffic identifier for the data ciphers, none
  for the others.
\<close>

definition data_cipher :: "u8 \<Rightarrow> bool" where
  "data_cipher c \<longleftrightarrow> c = SKW_CIPHER_TYPE_CCMP \<or> c = SKW_CIPHER_TYPE_CCMP_256 \<or>
     c = SKW_CIPHER_TYPE_GCMP \<or> c = SKW_CIPHER_TYPE_GCMP_256 \<or> c = SKW_CIPHER_TYPE_TKIP"

definition replay_queue :: "u8 \<Rightarrow> skw_rx_desc \<Rightarrow> int" where
  "replay_queue cipher d = (if data_cipher cipher then uint (tid d) else -1)"

text \<open>
  \<open>skw_replay_detect\<close>: \<open>conf\<close> is the pairwise key configuration of the peer the
  descriptor names, \<open>None\<close> when there is no such peer.
\<close>

definition skw_replay_detect ::
  "bool \<Rightarrow> skw_key_conf option \<Rightarrow> sk_buff \<Rightarrow> int \<times> skw_key_conf option" where
  "skw_replay_detect reuse conf b =
     (let d = skb_desc b in
      if skip_replay_detect (skb_cb b) then (0, conf)
      else case conf of
        None \<Rightarrow> (- EINVAL, conf)
      | Some cf \<Rightarrow>
        if is_mc_addr d then (0, conf)
        else
          (let key_idx = skw_key_idx (ucast (installed_bitmap cf));
               queue = replay_queue (skw_cipher cf) d in
           if key_idx = SKW_INVALID_ID then (0, conf)
           else if queue < 0 then (0, conf)
           else case key_of cf ! nat key_idx of
             None \<Rightarrow> (0, conf)
           | Some k \<Rightarrow>
             (let ret = skw_pn_allowed reuse (Some k) d (nat queue) in
              if ret = 0
              then (0, Some (cf\<lparr>key_of := (key_of cf)
                     [nat key_idx := Some (k\<lparr>rx_pn := (rx_pn k)[nat queue := pn d]\<rparr>)]\<rparr>))
              else (ret, conf))))"

section \<open>The fragment table\<close>

record skw_frag_entry =
  fe_id :: u8
  fe_status :: u8
  pending_len :: u16
  fe_tid :: u8
  fe_frag_num :: u8
  fe_sn :: u16
  fe_start :: u64
  fe_skbs :: "sk_buff list"
  last_pn :: "u8 list"

definition SKW_FRAG_STATUS_ACTIVE :: u8 where "SKW_FRAG_STATUS_ACTIVE = BIT 0"
definition SKW_FRAG_STATUS_CHK_PN :: u8 where "SKW_FRAG_STATUS_CHK_PN = BIT 1"

abbreviation frag_match :: "u8 \<Rightarrow> u16 \<Rightarrow> skw_frag_entry \<Rightarrow> bool" where
  "frag_match t s e \<equiv> fe_sn e = s \<and> fe_tid e = t"

text \<open>
  The loop of \<open>skw_frag_get_entry\<close> from index \<open>i\<close> on, with the last inactive entry
  and the oldest active one (index and start time) seen so far.
\<close>

fun frag_scan ::
  "bool \<Rightarrow> u8 \<Rightarrow> u16 \<Rightarrow> nat \<Rightarrow> nat option \<Rightarrow> (nat \<times> u64) option \<Rightarrow> skw_frag_entry list \<Rightarrow> nat option" where
  "frag_scan active t s i inactive oldest [] =
     (if active then None
      else case inactive of Some k \<Rightarrow> Some k | None \<Rightarrow> map_option fst oldest)"
| "frag_scan active t s i inactive oldest (e # es) =
     (if frag_match t s e then Some i
      else if active then frag_scan active t s (Suc i) inactive oldest es
      else if fe_status e AND SKW_FRAG_STATUS_ACTIVE = 0
      then frag_scan active t s (Suc i) (Some i) oldest es
      else case oldest of
             None \<Rightarrow> frag_scan active t s (Suc i) inactive (Some (i, fe_start e)) es
           | Some (j, st) \<Rightarrow>
               frag_scan active t s (Suc i) inactive
                 (if time_after st (fe_start e) then Some (i, fe_start e) else oldest) es)"

definition skw_frag_get_entry :: "skw_frag_entry list \<Rightarrow> u8 \<Rightarrow> u16 \<Rightarrow> bool \<Rightarrow> nat option" where
  "skw_frag_get_entry frag t s active = frag_scan active t s 0 None None frag"

definition chk_pn_cipher :: "u8 \<Rightarrow> bool" where
  "chk_pn_cipher c \<longleftrightarrow> c = SKW_CIPHER_TYPE_CCMP \<or> c = SKW_CIPHER_TYPE_CCMP_256 \<or>
     c = SKW_CIPHER_TYPE_GCMP \<or> c = SKW_CIPHER_TYPE_GCMP_256"

text \<open>
  The state of the receive path of one interface that reassembly works on: the fragment table,
  the frames handed on, and the buffers freed.
\<close>

record frag_ctx =
  fx_frag :: "skw_frag_entry list"
  fx_out :: "sk_buff list"
  fx_freed :: "sk_buff list"

definition frag_init_at :: "u64 \<Rightarrow> u8 \<Rightarrow> sk_buff \<Rightarrow> skw_frag_entry \<Rightarrow> skw_frag_entry" where
  "frag_init_at now cipher b e =
     (let d = skb_desc b;
          e1 = e\<lparr>fe_status := SKW_FRAG_STATUS_ACTIVE, pending_len := 0, fe_start := now,
                 fe_tid := ucast (tid d), fe_sn := ucast (sn d), fe_frag_num := 0, fe_skbs := [b]\<rparr> in
      if chk_pn_cipher cipher
      then e1\<lparr>last_pn := take 6 (pn d), fe_status := fe_status e1 OR SKW_FRAG_STATUS_CHK_PN\<rparr>
      else e1)"

text \<open>An empty table has no entry to use; the C code would then follow a null pointer.\<close>

definition skw_frag_init_entry :: "u64 \<Rightarrow> u8 \<Rightarrow> sk_buff \<Rightarrow> frag_ctx \<Rightarrow> frag_ctx" where
  "skw_frag_init_entry now cipher b c =
     (case skw_frag_get_entry (fx_frag c) (ucast (tid (skb_desc b))) (skb_sn b) False of
        None \<Rightarrow> c
      | Some k \<Rightarrow>
          c\<lparr>fx_frag := (fx_frag c)[k := frag_init_at now cipher b (fx_frag c ! k)],
            fx_freed := fx_freed c @ fe_skbs (fx_frag c ! k)\<rparr>)"

section \<open>Reassembly\<close>

text \<open>\<open>skb_pull\<close> leaves a buffer that is too short as it is; so does \<open>skb_trim\<close>.\<close>

definition skb_pull :: "nat \<Rightarrow> sk_buff \<Rightarrow> sk_buff" where
  "skb_pull n b = (if length (skb_data b) < n then b else b\<lparr>skb_data := drop n (skb_data b)\<rparr>)"

definition skb_trim_tail :: "nat \<Rightarrow> sk_buff \<Rightarrow> sk_buff" where
  "skb_trim_tail n b =
     (if length (skb_data b) < n then b else b\<lparr>skb_data := take (length (skb_data b) - n) (skb_data b)\<rparr>)"

text \<open>What the bus and the allocator contribute, and the cipher of the interface.\<close>

record frag_env =
  fv_jiffies :: u64
  fv_reuse :: bool
  fv_cipher :: u8
  fv_room_ok :: bool

text \<open>
  The last fragment has arrived: the pieces are joined in the first buffer; with TKIP the
  integrity code at the end is removed.
\<close>

definition frag_join :: "frag_env \<Rightarrow> sk_buff \<Rightarrow> sk_buff list \<Rightarrow> sk_buff" where
  "frag_join v p rest =
     (let p1 = p\<lparr>skb_data := skb_data p @ concat (map skb_data rest)\<rparr> in
      if fv_cipher v = SKW_CIPHER_TYPE_TKIP then skb_trim_tail 8 p1 else p1)"

definition frag_finish :: "frag_env \<Rightarrow> nat \<Rightarrow> frag_ctx \<Rightarrow> frag_ctx" where
  "frag_finish v k c =
     (let e = fx_frag c ! k;
          c1 = c\<lparr>fx_frag := (fx_frag c)[k := e\<lparr>fe_skbs := [], fe_status := 0, fe_tid := 0xff\<rparr>]\<rparr> in
      case fe_skbs e of
        [] \<Rightarrow> c
      | p # rest \<Rightarrow>
          if fv_room_ok v
          then c1\<lparr>fx_freed := fx_freed c @ rest, fx_out := fx_out c @ [frag_join v p rest]\<rparr>
          else c1\<lparr>fx_freed := fx_freed c @ rest @ [p]\<rparr>)"

text \<open>
  A later fragment continues an entry when its number is the next one and, for the ciphers that
  ask for it, its packet number is the last one plus one. It is stored without the addresses
  at its front.
\<close>

definition chk_pn :: "skw_frag_entry \<Rightarrow> bool" where
  "chk_pn e \<longleftrightarrow> fe_status e AND SKW_FRAG_STATUS_CHK_PN \<noteq> 0"

definition frag_continues :: "bool \<Rightarrow> skw_rx_desc \<Rightarrow> skw_frag_entry \<Rightarrow> bool" where
  "frag_continues reuse d e \<longleftrightarrow>
     unat (fe_frag_num e) + 1 = unat (frag_num d) \<and>
     (chk_pn e \<longrightarrow> pn_of reuse (last_pn e) + 1 = pn_of reuse (pn d))"

definition frag_append :: "sk_buff \<Rightarrow> skw_frag_entry \<Rightarrow> skw_frag_entry" where
  "frag_append b e =
     (let b1 = skb_pull 12 b;
          e1 = (if chk_pn e then e\<lparr>last_pn := take 6 (pn (skb_desc b))\<rparr> else e) in
      e1\<lparr>fe_frag_num := fe_frag_num e1 + 1,
         pending_len := pending_len e1 + of_nat (length (skb_data b1)),
         fe_skbs := fe_skbs e1 @ [b1]\<rparr>)"

definition skw_rx_defragment :: "frag_env \<Rightarrow> sk_buff \<Rightarrow> frag_ctx \<Rightarrow> frag_ctx" where
  "skw_rx_defragment v b c =
     (let d = skb_desc b in
      if \<not> more_frag d \<and> frag_num d = 0 then c\<lparr>fx_out := fx_out c @ [b]\<rparr>
      else if frag_num d = 0
      then skw_frag_init_entry (fv_jiffies v) (fv_cipher v)
             (b\<lparr>skb_desc := d\<lparr>csum_valid := False, csum := 0\<rparr>\<rparr>) c
      else case skw_frag_get_entry (fx_frag c) (ucast (tid d)) (skb_sn b) True of
        None \<Rightarrow> c\<lparr>fx_freed := fx_freed c @ [b]\<rparr>
      | Some k \<Rightarrow>
        if \<not> frag_continues (fv_reuse v) d (fx_frag c ! k) then c\<lparr>fx_freed := fx_freed c @ [b]\<rparr>
        else
          (let c1 = c\<lparr>fx_frag := (fx_frag c)[k := frag_append b (fx_frag c ! k)]\<rparr> in
           if more_frag d then c1 else frag_finish v k c1))"

section \<open>Setting up and clearing the table\<close>

text \<open>
  The table as the interface set-up leaves it: four zeroed entries, numbered, with the invalid
  traffic identifier; and the purge on leaving a network.
\<close>

definition frag_table_init :: "skw_frag_entry list" where
  "frag_table_init =
     map (\<lambda>i. \<lparr>fe_id = of_nat i, fe_status = 0, pending_len = 0, fe_tid = 0xff, fe_frag_num = 0,
                fe_sn = 0, fe_start = 0, fe_skbs = [], last_pn = replicate 6 0\<rparr>) [0..<4]"

definition frag_table_purge :: "frag_ctx \<Rightarrow> frag_ctx" where
  "frag_table_purge c =
     c\<lparr>fx_frag := map (\<lambda>e. e\<lparr>fe_skbs := [], fe_tid := 0xff\<rparr>) (fx_frag c),
       fx_freed := fx_freed c @ concat (map fe_skbs (fx_frag c))\<rparr>"

end
