(* ===== verification/Rx_Session.thy ===== *)
theory Rx_Session
  imports Rx_Frag
begin

text \<open>
  The receive path of the driver around the reorder buffer: peers and their sessions, opening,
  moving and closing a session, the reorder timer, the to-do lists, the handler that checks,
  reassembles and delivers released frames, the firmware's drop reports, and the data
  handler (\<^verbatim>\<open>skw_rx.c\<close>, \<^verbatim>\<open>skw_reorder_timeout\<close> of \<^verbatim>\<open>skw_iface.c\<close>). The calls run one after the
  other: locks and read-side sections of the C code delimit them.
\<close>

section \<open>State\<close>

definition SKW_NR_TID :: nat where "SKW_NR_TID = 8"

text \<open>
  A peer, as far as reception uses it; \<open>pr_lmac\<close> is the lower MAC of its interface.
\<close>

record skw_peer =
  pr_idx :: u8
  pr_lmac :: nat
  rx_filter :: u32
  rx_bytes :: u64
  rx_pkts :: u64
  ptk_conf :: skw_key_conf
  reorder :: "skw_reorder_rx list"

text \<open>A peer context: the peer and the RCU-protected entry, both as addresses of peers.\<close>

record skw_peer_ctx =
  ctx_peer :: "nat option"
  ctx_entry :: "nat option"

record skw_iface =
  if_lmac_id :: nat
  if_cipher :: u8
  if_frag :: "skw_frag_entry list"

text \<open>A session is named by the address of its peer and its traffic identifier.\<close>

type_synonym rref = "nat \<times> nat"

record skw_list =
  items :: "rref list"
  count :: int

text \<open>
  The core. \<open>peers\<close> is the store of peers by address. \<open>delivered\<close>, \<open>monitored\<close> and
  \<open>core_freed\<close> record what left the driver; \<open>rcu_q\<close> are the closed sessions whose
  release callback has not run; \<open>leaked\<close> are buffers whose last reference was dropped
  without freeing them; \<open>fault\<close> is set by an access outside an array.
\<close>

record skw_core =
  bus :: skw_bus
  fw_pn_reuse :: bool
  rx_reorder_flag :: bool
  ifaces :: "skw_iface option list"
  peer_ctx :: "skw_peer_ctx list list"
  peers :: "skw_peer list"
  rx_todo_list :: skw_list
  lmac_todo_list :: "skw_list list"
  rcu_q :: "(rref \<times> skw_tid_rx) list"
  delivered :: "(nat \<times> sk_buff) list"
  monitored :: "sk_buff list"
  core_freed :: "sk_buff list"
  leaked :: "sk_buff list"
  fault :: bool

definition pn_reuse :: "skw_core \<Rightarrow> bool" where
  "pn_reuse core \<longleftrightarrow> bus core = SKW_BUS_SDIO \<and> fw_pn_reuse core"

definition get_reorder :: "skw_core \<Rightarrow> rref \<Rightarrow> skw_reorder_rx" where
  "get_reorder core r = reorder (peers core ! fst r) ! snd r"

definition put_reorder :: "skw_core \<Rightarrow> rref \<Rightarrow> skw_reorder_rx \<Rightarrow> skw_core" where
  "put_reorder core r x =
     core\<lparr>peers := (peers core)[fst r := (peers core ! fst r)
            \<lparr>reorder := (reorder (peers core ! fst r))[snd r := x]\<rparr>]\<rparr>"

definition free_skbs :: "sk_buff list \<Rightarrow> skw_core \<Rightarrow> skw_core" where
  "free_skbs bs core = core\<lparr>core_freed := core_freed core @ bs\<rparr>"

section \<open>To-do lists\<close>

definition skw_list_add :: "rref \<Rightarrow> skw_list \<Rightarrow> skw_list" where
  "skw_list_add r l = l\<lparr>items := items l @ [r], count := count l + 1\<rparr>"

text \<open>\<open>list_del_init\<close> unlinks the node from the list it is on; the count is that of the list given.\<close>

definition skw_list_del :: "skw_list \<Rightarrow> skw_list" where
  "skw_list_del l = l\<lparr>count := count l - 1\<rparr>"

definition unlink :: "rref \<Rightarrow> skw_list \<Rightarrow> skw_list" where
  "unlink r l = l\<lparr>items := filter (\<lambda>x. x \<noteq> r) (items l)\<rparr>"

text \<open>On PCIe each lower MAC has a list of its own, otherwise the core has one.\<close>

definition todo_add :: "rref \<Rightarrow> skw_core \<Rightarrow> skw_core" where
  "todo_add r core =
     (let l = pr_lmac (peers core ! fst r) in
      if bus core = SKW_BUS_PCIE
      then core\<lparr>lmac_todo_list := (lmac_todo_list core)[l := skw_list_add r (lmac_todo_list core ! l)]\<rparr>
      else core\<lparr>rx_todo_list := skw_list_add r (rx_todo_list core)\<rparr>)"

section \<open>Working on a session\<close>

text \<open>
  Run an operation of the reorder buffer on the session \<open>r\<close>, when there is one: the
  release list grows, freed buffers are accounted, and a kick puts the session on the
  to-do list.
\<close>

definition on_session ::
  "rref \<Rightarrow> (reorder_ctx \<Rightarrow> reorder_ctx) \<Rightarrow> skw_core \<times> sk_buff list \<Rightarrow> skw_core \<times> sk_buff list" where
  "on_session r f s =
     (let core = fst s; x = get_reorder core r in
      case tid_rx x of
        None \<Rightarrow> s
      | Some t \<Rightarrow>
        (let c = f \<lparr>cx_r = x, cx_t = t, cx_rel = snd s, cx_freed = [], cx_kick = False\<rparr>;
             core1 = free_skbs (cx_freed c) (put_reorder core r ((cx_r c)\<lparr>tid_rx := Some (cx_t c)\<rparr>)) in
         (if cx_kick c then todo_add r core1 else core1, cx_rel c)))"

definition h_proto :: "u8 list \<Rightarrow> nat" where
  "h_proto dat = (if length dat < 14 then 0 else unat (dat ! 12) * 256 + unat (dat ! 13))"

definition ETH_P_PAE :: nat where "ETH_P_PAE = 0x888E"
definition SKW_ETH_P_WAPI :: nat where "SKW_ETH_P_WAPI = 0x88B4"

text \<open>The filter in force until a peer's port is open: only key frames pass.\<close>

definition rx_filtered :: "skw_peer \<Rightarrow> sk_buff \<Rightarrow> bool" where
  "rx_filtered p b \<longleftrightarrow> rx_filter p \<noteq> 0 \<and>
     rx_filter p AND BIT (unat (msdu_filter (skb_desc b) AND 0x1F)) = 0 \<and>
     \<not> (h_proto (skb_data b) = ETH_P_PAE \<or> h_proto (skb_data b) = SKW_ETH_P_WAPI)"

definition count_rx :: "nat \<Rightarrow> sk_buff \<Rightarrow> skw_core \<Rightarrow> skw_core" where
  "count_rx p b core =
     core\<lparr>peers := (peers core)[p := (peers core ! p)
            \<lparr>rx_bytes := rx_bytes (peers core ! p) + of_nat (length (skb_data b)),
             rx_pkts := rx_pkts (peers core ! p) + 1\<rparr>]\<rparr>"

definition skw_ampdu_reorder ::
  "rx_env \<Rightarrow> sk_buff \<Rightarrow> skw_core \<times> sk_buff list \<Rightarrow> skw_core \<times> sk_buff list" where
  "skw_ampdu_reorder env b s =
     (let core = fst s; rel = snd s; d = skb_desc b in
      if \<not> rx_reorder_flag core then (core, rel @ [b])
      else case ctx_entry (peer_ctx core ! unat (lmac_id (skb_cb b)) ! unat (peer_idx d)) of
        None \<Rightarrow> (core, rel @ [b])
      | Some p \<Rightarrow>
        if rx_filtered (peers core ! p) b then (free_skbs [b] core, rel)
        else
          (let core1 = count_rx p b core; r = (p, unat (tid d)) in
           if \<not> is_qos_data d \<or> is_mc_addr d then (core1, rel @ [b])
           else if more_frag d \<or> frag_num d \<noteq> 0 then (core1, rel @ [b])
           else if SKW_NR_TID \<le> unat (tid d) then (core1\<lparr>fault := True\<rparr>, rel @ [b])
           else if tid_rx (get_reorder core1 r) = None then (core1, rel @ [b])
           else on_session r (ampdu_reorder_window env b) (core1, rel)))"

section \<open>Checking, reassembling and delivering\<close>

text \<open>\<open>room\<close> is whether the memory to join the fragments that end in a frame is there.\<close>

definition handler_frag_env :: "rx_env \<Rightarrow> (sk_buff \<Rightarrow> bool) \<Rightarrow> skw_core \<Rightarrow> skw_iface \<Rightarrow> sk_buff \<Rightarrow> frag_env" where
  "handler_frag_env env room core i b =
     \<lparr>fv_jiffies = jiffies env, fv_reuse = pn_reuse core, fv_cipher = if_cipher i, fv_room_ok = room b\<rparr>"

definition handler_defrag :: "rx_env \<Rightarrow> (sk_buff \<Rightarrow> bool) \<Rightarrow> nat \<Rightarrow> skw_iface \<Rightarrow> sk_buff \<Rightarrow> skw_core \<Rightarrow> skw_core" where
  "handler_defrag env room inst i b core =
     (let c = skw_rx_defragment (handler_frag_env env room core i b) b
                \<lparr>fx_frag = if_frag i, fx_out = [], fx_freed = []\<rparr> in
      core\<lparr>ifaces := (ifaces core)[inst := Some (i\<lparr>if_frag := fx_frag c\<rparr>)],
           core_freed := core_freed core @ fx_freed c,
           delivered := delivered core @ map (Pair inst) (fx_out c)\<rparr>)"

definition handler_replay :: "skw_iface \<Rightarrow> sk_buff \<Rightarrow> skw_core \<Rightarrow> int \<times> skw_core" where
  "handler_replay i b core =
     (case ctx_peer (peer_ctx core ! if_lmac_id i ! unat (peer_idx (skb_desc b))) of
        None \<Rightarrow> (fst (skw_replay_detect (pn_reuse core) None b), core)
      | Some p \<Rightarrow>
        (let (ret, cf) = skw_replay_detect (pn_reuse core) (Some (ptk_conf (peers core ! p))) b in
         (ret, core\<lparr>peers := (peers core)[p := (peers core ! p)\<lparr>ptk_conf := the cf\<rparr>]\<rparr>)))"

definition handler_one :: "rx_env \<Rightarrow> (sk_buff \<Rightarrow> bool) \<Rightarrow> sk_buff \<Rightarrow> skw_core \<Rightarrow> skw_core" where
  "handler_one env room b core =
     (if skw_created (skb_cb b) then free_skbs [b] core
      else case ifaces core ! unat (inst_id (skb_desc b)) of
        None \<Rightarrow> free_skbs [b] core
      | Some i \<Rightarrow>
        (let (ret, core1) = handler_replay i b core in
         if ret < 0 then free_skbs [b] core1
         else handler_defrag env room (unat (inst_id (skb_desc b))) i b core1))"

text \<open>
  \<open>skw_rx_handler\<close> empties the release list; what it hands to \<open>skw_deliver_skb\<close> is
  recorded in \<open>delivered\<close> with its interface.
\<close>

definition skw_rx_handler :: "rx_env \<Rightarrow> (sk_buff \<Rightarrow> bool) \<Rightarrow> skw_core \<times> sk_buff list \<Rightarrow> skw_core" where
  "skw_rx_handler env room s = fold (handler_one env room) (snd s) (fst s)"

section \<open>Expired and forced releases\<close>

definition todo_one :: "rx_env \<Rightarrow> (sk_buff \<Rightarrow> bool) \<Rightarrow> rref \<Rightarrow> skw_core \<Rightarrow> skw_core" where
  "todo_one env room r core =
     (let s1 = on_session r (skw_reorder_force_release (todo_seq (get_reorder core r))) (core, []);
          core2 = put_reorder (fst s1) r ((get_reorder (fst s1) r)\<lparr>todo_actived := False\<rparr>) in
      skw_rx_handler env room (on_session r (skw_reorder_release env) (core2, snd s1)))"

text \<open>\<open>None\<close> names the list of the core, \<open>Some l\<close> that of a lower MAC.\<close>

definition skw_rx_todo :: "rx_env \<Rightarrow> (sk_buff \<Rightarrow> bool) \<Rightarrow> nat option \<Rightarrow> skw_core \<Rightarrow> skw_core" where
  "skw_rx_todo env room sel core =
     (let l = (case sel of None \<Rightarrow> rx_todo_list core | Some i \<Rightarrow> lmac_todo_list core ! i);
          empty = \<lparr>items = [], count = 0\<rparr>;
          core1 = (case sel of None \<Rightarrow> core\<lparr>rx_todo_list := empty\<rparr>
                   | Some i \<Rightarrow> core\<lparr>lmac_todo_list := (lmac_todo_list core)[i := empty]\<rparr>) in
      if count l = 0 then core else fold (todo_one env room) (items l) core1)"

definition skw_reorder_timeout :: "rref \<Rightarrow> skw_core \<Rightarrow> skw_core" where
  "skw_reorder_timeout r core =
     (let x = (get_reorder core r)\<lparr>timer := None\<rparr>; core0 = put_reorder core r x in
      if ref_cnt x \<noteq> expired_ref_cnt x then core0
      else if \<not> todo_actived x
      then (let core1 = put_reorder core r (x\<lparr>todo_actived := True, todo_seq := expired_sn x,
                                             todo_reason := SKW_RELEASE_EXPIRED\<rparr>) in
            core1\<lparr>rx_todo_list := skw_list_add r (rx_todo_list core1)\<rparr>)
      else core0)"

section \<open>Opening, moving and closing a session\<close>

definition skw_update_tid_rx :: "rref \<Rightarrow> u16 \<Rightarrow> skw_core \<Rightarrow> int \<times> skw_core" where
  "skw_update_tid_rx r ssn core =
     (let x = get_reorder core r; x1 = x\<lparr>todo_seq := ssn, todo_reason := SKW_RELEASE_BAR\<rparr> in
      (0, if tid_rx x = None then core
          else if todo_actived x then put_reorder core r x1
          else todo_add r (put_reorder core r (x1\<lparr>todo_actived := True\<rparr>))))"

text \<open>\<open>ok1\<close> and \<open>ok2\<close> are whether the two allocations succeed.\<close>

definition skw_add_tid_rx :: "bool \<Rightarrow> bool \<Rightarrow> rref \<Rightarrow> u16 \<Rightarrow> u16 \<Rightarrow> skw_core \<Rightarrow> int \<times> skw_core" where
  "skw_add_tid_rx ok1 ok2 r ssn buf_size core =
     (let x = get_reorder core r in
      if tid_rx x \<noteq> None then skw_update_tid_rx r ssn core
      else if \<not> ok1 then (- ENOMEM, core)
      else if \<not> ok2 then (- ENOMEM, core)
      else (0, put_reorder core r (x\<lparr>todo_seq := 0, todo_actived := False,
                 todo_reason := SKW_RELEASE_INVALID,
                 tid_rx := Some (new_tid_rx ssn buf_size (ref_cnt x))\<rparr>)))"

definition queued :: "rref \<Rightarrow> skw_core \<Rightarrow> bool" where
  "queued r core \<longleftrightarrow> r \<in> set (items (rx_todo_list core)) \<or> (\<exists>l \<in> set (lmac_todo_list core). r \<in> set (items l))"

definition todo_del :: "rref \<Rightarrow> skw_core \<Rightarrow> skw_core" where
  "todo_del r core =
     (let core1 = core\<lparr>rx_todo_list := unlink r (rx_todo_list core),
                       lmac_todo_list := map (unlink r) (lmac_todo_list core)\<rparr>;
          l = pr_lmac (peers core ! fst r) in
      if bus core = SKW_BUS_PCIE
      then core1\<lparr>lmac_todo_list := (lmac_todo_list core1)[l := skw_list_del (lmac_todo_list core1 ! l)]\<rparr>
      else core1\<lparr>rx_todo_list := skw_list_del (rx_todo_list core1)\<rparr>)"

definition skw_del_tid_rx :: "rref \<Rightarrow> skw_core \<Rightarrow> int \<times> skw_core" where
  "skw_del_tid_rx r core =
     (let x = get_reorder core r;
          core1 = (if tid_rx x \<noteq> None \<and> queued r core then todo_del r core else core);
          core2 = put_reorder core1 r (x\<lparr>tid_rx := None, ref_cnt := ref_cnt x + 1, timer := None\<rparr>) in
      (0, case tid_rx x of None \<Rightarrow> core2 | Some t \<Rightarrow> core2\<lparr>rcu_q := rcu_q core2 @ [(r, t)]\<rparr>))"

text \<open>
  The callback that ends a closed session: everything up to the end of the window is released
  and handled, then the array is freed with whatever it still holds.
\<close>

definition skw_free_tid_rx :: "rx_env \<Rightarrow> (sk_buff \<Rightarrow> bool) \<Rightarrow> skw_core \<Rightarrow> skw_core" where
  "skw_free_tid_rx env room core =
     (case rcu_q core of
        [] \<Rightarrow> core
      | (r, t) # q \<Rightarrow>
        (let c = skw_reorder_force_release (ieee80211_sn_add (win_start t) (win_size t - 1))
                   \<lparr>cx_r = get_reorder core r, cx_t = t, cx_rel = [], cx_freed = [], cx_kick = False\<rparr>;
             core1 = free_skbs (cx_freed c) (put_reorder (core\<lparr>rcu_q := q\<rparr>) r (cx_r c));
             core2 = skw_rx_handler env room (core1, cx_rel c) in
         core2\<lparr>leaked := leaked core2 @ concat (reorder_buf (cx_t c))\<rparr>))"

section \<open>Drop reports of the firmware\<close>

text \<open>
  \<open>struct skw_drop_sn_info\<close>, eight bytes, and its decoding: sequence number, subframe
  index, a byte of flags with the traffic identifier in its upper half, and a word with
  peer and interface.
\<close>

record skw_drop_sn_info =
  di_sn :: u16
  di_amsdu_idx :: u8
  di_amsdu_first :: bool
  di_amsdu_last :: bool
  di_is_amsdu :: bool
  di_qos :: bool
  di_tid :: "4 word"
  di_peer_idx :: "5 word"
  di_inst :: "2 word"

definition drop_sn_info_of :: "u8 list \<Rightarrow> skw_drop_sn_info" where
  "drop_sn_info_of bs =
     \<lparr>di_sn = get16 bs, di_amsdu_idx = bs ! 2, di_amsdu_first = bit (bs ! 3) 0,
      di_amsdu_last = bit (bs ! 3) 1, di_is_amsdu = bit (bs ! 3) 2, di_qos = bit (bs ! 3) 3,
      di_tid = ucast (drop_bit 4 (bs ! 3)), di_peer_idx = ucast (bs ! 4),
      di_inst = ucast (drop_bit 5 (bs ! 4))\<rparr>"

text \<open>
  The placeholder for a frame the hardware dropped: a zeroed descriptor (20 bytes) with the
  reported fields, marked as made by the driver. The control block is otherwise zero.
\<close>

definition drop_placeholder :: "rx_env \<Rightarrow> nat \<Rightarrow> skw_drop_sn_info \<Rightarrow> sk_buff" where
  "drop_placeholder env i di =
     \<lparr>skb_id = i,
      skb_desc = \<lparr>msdu_len = 0, csum_valid = False, snap_match = False, is_amsdu = di_is_amsdu di,
        is_qos_data = di_qos di, amsdu_first_idx = di_amsdu_first di,
        amsdu_last_idx = di_amsdu_last di, csum = 0, msdu_filter = 0, sn = ucast (di_sn di),
        frag_num = 0, inst_id = di_inst di, more_frag = False, peer_idx = di_peer_idx di,
        is_mc_addr = False, tid = di_tid di, pn = replicate 6 0, msdu_offset = 0,
        amsdu_idx = ucast (di_amsdu_idx di), need_forward = False, mac_drop_frag = False\<rparr>,
      skb_cb = \<lparr>rx_time = jiffies env, rx_desc_offset = 0, amsdu_bitmap = 0, amsdu_mask = 0,
        amsdu_flags = 0, skw_created = True, lmac_id = 0, skip_replay_detect = False\<rparr>,
      skb_data = replicate 20 0\<rparr>"

text \<open>
  The loop over the report: \<open>alloc i\<close> is the identity of the \<open>i\<close>-th buffer, \<open>None\<close>
  when it cannot be allocated.
\<close>

fun drop_info_loop ::
  "rx_env \<Rightarrow> (sk_buff \<Rightarrow> bool) \<Rightarrow> (nat \<Rightarrow> nat option) \<Rightarrow> nat \<Rightarrow> nat \<Rightarrow> u8 list \<Rightarrow> skw_core \<Rightarrow> skw_core" where
  "drop_info_loop env room alloc i 0 bs core = core"
| "drop_info_loop env room alloc i (Suc n) bs core =
     (let di = drop_sn_info_of bs;
          core1 = (if \<not> di_qos di then core
                   else case alloc i of
                     None \<Rightarrow> core
                   | Some k \<Rightarrow>
                     skw_rx_handler env room (skw_ampdu_reorder env (drop_placeholder env k di) (core, []))) in
      drop_info_loop env room alloc (Suc i) n (drop 8 bs) core1)"

text \<open>
  \<open>skw_rx_handler_drop_info\<close>: the number of entries is a signed word at \<open>offset\<close>, the
  entries follow it. The guard of the C code compares the number with the bytes from
  \<open>offset\<close> on, the count's own four bytes included. Reading past the end of the frame
  is a fault.
\<close>

definition skw_rx_handler_drop_info ::
  "rx_env \<Rightarrow> (sk_buff \<Rightarrow> bool) \<Rightarrow> (nat \<Rightarrow> nat option) \<Rightarrow> sk_buff \<Rightarrow> nat \<Rightarrow> skw_core \<Rightarrow> skw_core" where
  "skw_rx_handler_drop_info env room alloc b offset core =
     (let dat = skb_data b in
      if length dat < offset + 4 then core\<lparr>fault := True\<rparr>
      else
        (let total = sint (ucast (le_val (take 4 (drop offset dat))) :: 32 word);
             buff_len = length dat - offset in
         if total < 0 \<or> int (buff_len div 8) < total then core
         else if buff_len < 4 + 8 * nat total then core\<lparr>fault := True\<rparr>
         else drop_info_loop env room alloc 0 (nat total) (drop (offset + 4) dat) core))"

section \<open>The data handler\<close>

text \<open>
  \<open>is_skw_monitor_data\<close>: on the buses other than USB, SDIO and PCIe the function returns a
  negative error number, which is true as a \<open>bool\<close>. \<open>sniff\<close> is the flag found in the
  sniffer descriptor.
\<close>

definition is_skw_monitor_data :: "skw_bus \<Rightarrow> bool \<Rightarrow> bool" where
  "is_skw_monitor_data bs sniff =
     (case bs of SKW_BUS_USB \<Rightarrow> sniff | SKW_BUS_SDIO \<Rightarrow> sniff | SKW_BUS_PCIE \<Rightarrow> False | _ \<Rightarrow> True)"

text \<open>Offsets of the receive descriptor on the bus at hand.\<close>

record rx_desc_offsets =
  hdr_offset :: nat
  desc_msdu_offset :: nat

definition skb_trim :: "nat \<Rightarrow> sk_buff \<Rightarrow> sk_buff" where
  "skb_trim n b = b\<lparr>skb_data := take n (skb_data b)\<rparr>"

definition data_msdu_len :: "skw_core \<Rightarrow> skw_rx_desc \<Rightarrow> nat" where
  "data_msdu_len core d = unat (if pn_reuse core then get16 (drop 4 (pn d)) else msdu_len d) + 6"

text \<open>One turn of the loop of \<open>skw_rx_data_handler\<close>; \<open>sel\<close> is the to-do list it is given.\<close>

definition data_one ::
  "rx_env \<Rightarrow> (sk_buff \<Rightarrow> bool) \<Rightarrow> rx_desc_offsets \<Rightarrow> nat option \<Rightarrow> (sk_buff \<Rightarrow> bool) \<Rightarrow> (nat \<Rightarrow> nat option) \<Rightarrow>
   sk_buff \<Rightarrow> skw_core \<Rightarrow> skw_core" where
  "data_one env room off sel sniff alloc b core =
     (if is_skw_monitor_data (bus core) (sniff b) then core\<lparr>monitored := monitored core @ [b]\<rparr>
      else
        (let d = skb_desc b; b1 = skb_pull (hdr_offset off) b in
         if SKW_NR_TID \<le> unat (tid d) then free_skbs [b1] core
         else
           (let mo = int (unat (msdu_offset d)) - int (desc_msdu_offset off) - int (hdr_offset off);
                b2 = (if mo < 0 then b1 else skb_pull (nat mo) b1);
                b3 = b2\<lparr>skb_cb := (skb_cb b2)\<lparr>rx_desc_offset := word_of_int mo, rx_time := jiffies env\<rparr>\<rparr>;
                len = data_msdu_len core d;
                core1 = (if mac_drop_frag d
                         then skw_rx_handler_drop_info env room alloc b3
                                ((len + unat (msdu_offset d) + 3) div 4 * 4 - unat (msdu_offset d)) core
                         else core) in
            skw_rx_todo env room sel
              (skw_rx_handler env room (skw_ampdu_reorder env (skb_trim len b3) (core1, []))))))"

definition skw_rx_data_handler ::
  "rx_env \<Rightarrow> (sk_buff \<Rightarrow> bool) \<Rightarrow> rx_desc_offsets \<Rightarrow> nat option \<Rightarrow> (sk_buff \<Rightarrow> bool) \<Rightarrow>
   (sk_buff \<times> (nat \<Rightarrow> nat option)) list \<Rightarrow> skw_core \<Rightarrow> skw_core" where
  "skw_rx_data_handler env room off sel sniff q core =
     fold (\<lambda>(b, alloc). data_one env room off sel sniff alloc b) q core"

text \<open>One turn of the loop of \<open>skw_rx_process\<close>, on the buffers queued when it starts.\<close>

definition rx_process_round ::
  "rx_env \<Rightarrow> (sk_buff \<Rightarrow> bool) \<Rightarrow> rx_desc_offsets \<Rightarrow> nat option \<Rightarrow> (sk_buff \<Rightarrow> bool) \<Rightarrow>
   (sk_buff \<times> (nat \<Rightarrow> nat option)) list \<Rightarrow> skw_core \<Rightarrow> skw_core" where
  "rx_process_round env room off sel sniff q core =
     skw_rx_data_handler env room off sel sniff q (skw_rx_todo env room sel core)"

end
