(* ===== verification/Rx_Frag_Props.thy ===== *)
theory Rx_Frag_Props
  imports Rx_Frag
begin

text \<open>
  Replay protection and correctness of reassembly: accepted packet numbers increase, buffers are
  conserved, what is delivered is a chain of matching fragments, and a chain that arrives in
  order is delivered.
\<close>

section \<open>Replay protection\<close>

abbreviation key_slot :: "skw_key_conf \<Rightarrow> nat" where
  "key_slot cf \<equiv> nat (skw_key_idx (ucast (installed_bitmap cf)))"

text \<open>The configuration under which a unicast frame is checked.\<close>

definition replay_armed :: "skw_key_conf \<Rightarrow> bool" where
  "replay_armed cf \<longleftrightarrow>
     skw_key_idx (ucast (installed_bitmap cf)) \<noteq> SKW_INVALID_ID \<and> key_slot cf < length (key_of cf) \<and>
     data_cipher (skw_cipher cf) \<and>
     (case key_of cf ! key_slot cf of None \<Rightarrow> False | Some ky \<Rightarrow> length (rx_pn ky) = 16)"

text \<open>The packet number remembered for a queue, and that of a frame.\<close>

definition cur_pn :: "bool \<Rightarrow> skw_key_conf \<Rightarrow> nat \<Rightarrow> u64" where
  "cur_pn reuse cf q = pn_of reuse (rx_pn (the (key_of cf ! key_slot cf)) ! q)"

abbreviation fr_pn :: "bool \<Rightarrow> sk_buff \<Rightarrow> u64" where
  "fr_pn reuse b \<equiv> pn_of reuse (pn (skb_desc b))"

abbreviation fr_tid :: "sk_buff \<Rightarrow> nat" where
  "fr_tid b \<equiv> unat (tid (skb_desc b))"

text \<open>The frames of a sequence that pass the check, each judged in the state its predecessors left.\<close>

fun replay_run :: "bool \<Rightarrow> skw_key_conf option \<Rightarrow> sk_buff list \<Rightarrow> sk_buff list" where
  "replay_run reuse cf [] = []"
| "replay_run reuse cf (b # bs) =
     (let (r, cf') = skw_replay_detect reuse cf b in
      if r < 0 then replay_run reuse cf' bs else b # replay_run reuse cf' bs)"

definition checked_frame :: "sk_buff \<Rightarrow> bool" where
  "checked_frame b \<longleftrightarrow> \<not> skip_replay_detect (skb_cb b) \<and> \<not> is_mc_addr (skb_desc b)"

text \<open>A packet number may follow a remembered one: never smaller, equal only inside an A-MSDU (or zero).\<close>

definition pn_follows :: "bool \<Rightarrow> u64 \<Rightarrow> sk_buff \<Rightarrow> bool" where
  "pn_follows reuse p b \<longleftrightarrow> p \<le> fr_pn reuse b \<and>
     (\<not> is_amsdu (skb_desc b) \<and> fr_pn reuse b \<noteq> 0 \<longrightarrow> p < fr_pn reuse b)"

lemma replay_step:
  assumes "replay_armed cf" and "checked_frame b"
  obtains (rejected) "skw_replay_detect reuse (Some cf) b = (- EINVAL, Some cf)"
    | (accepted) cf' where "skw_replay_detect reuse (Some cf) b = (0, Some cf')" "replay_armed cf'"
        "pn_follows reuse (cur_pn reuse cf (fr_tid b)) b"
        "\<And>q. cur_pn reuse cf' q = (if q = fr_tid b then fr_pn reuse b else cur_pn reuse cf q)"
proof -
  let ?k = "key_slot cf"
  from assms(1) obtain ky where ky: "key_of cf ! ?k = Some ky" "length (rx_pn ky) = 16"
    and k: "?k < length (key_of cf)" by (auto simp: replay_armed_def split: option.splits)
  have t: "fr_tid b < 16" using unsigned_less [of "tid (skb_desc b)"] by simp
  define cf' where "cf' = cf\<lparr>key_of := (key_of cf)
    [?k := Some (ky\<lparr>rx_pn := (rx_pn ky)[fr_tid b := pn (skb_desc b)]\<rparr>)]\<rparr>"
  have q: "replay_queue (skw_cipher cf) (skb_desc b) = uint (tid (skb_desc b))"
    using assms(1) by (simp add: replay_queue_def replay_armed_def)
  have det: "skw_replay_detect reuse (Some cf) b =
    (if pn_follows reuse (cur_pn reuse cf (fr_tid b)) b then (0, Some cf') else (- EINVAL, Some cf))"
    using assms ky q
    by (auto simp: skw_replay_detect_def Let_def checked_frame_def replay_armed_def skw_pn_allowed_def
        pn_follows_def cur_pn_def cf'_def errno_defs)
  show thesis
  proof (cases "pn_follows reuse (cur_pn reuse cf (fr_tid b)) b")
    case True
    have "replay_armed cf'" using assms(1) ky k by (simp add: replay_armed_def cf'_def)
    moreover have "cur_pn reuse cf' q = (if q = fr_tid b then fr_pn reuse b else cur_pn reuse cf q)" for q
      using ky k t by (auto simp: cur_pn_def cf'_def)
    ultimately show thesis using True det accepted by simp
  qed (use det rejected in simp)
qed

lemma pn_follows_trans: "p \<le> p' \<Longrightarrow> pn_follows reuse p' b \<Longrightarrow> pn_follows reuse p b"
  by (auto simp: pn_follows_def)

lemma replay_unchecked: "\<not> checked_frame b \<Longrightarrow> skw_replay_detect reuse (Some cf) b = (0, Some cf)"
  by (auto simp: skw_replay_detect_def checked_frame_def Let_def)

lemma replay_run_follows:
  assumes "replay_armed cf"
  shows "(\<forall>b \<in> set (filter checked_frame (replay_run reuse (Some cf) bs)). pn_follows reuse (cur_pn reuse cf (fr_tid b)) b) \<and>
    sorted_wrt (\<lambda>a b. fr_tid a = fr_tid b \<longrightarrow> pn_follows reuse (fr_pn reuse a) b)
      (filter checked_frame (replay_run reuse (Some cf) bs)) \<and>
    filter (\<lambda>b. \<not> checked_frame b) (replay_run reuse (Some cf) bs) = filter (\<lambda>b. \<not> checked_frame b) bs"
  using assms
proof (induction bs arbitrary: cf)
  case (Cons b bs)
  show ?case
  proof (cases "checked_frame b")
    case False
    then show ?thesis using Cons.IH [OF Cons.prems] by (simp add: replay_unchecked)
  next
    case True
    from Cons.prems True show ?thesis
    proof (cases rule: replay_step [where reuse = reuse])
      case rejected
      with Cons.IH [OF Cons.prems] True show ?thesis by (simp add: errno_defs)
    next
      case (accepted cf')
      from Cons.IH [OF accepted(2)]
      have IH: "\<forall>x \<in> set (filter checked_frame (replay_run reuse (Some cf') bs)). pn_follows reuse
          (if fr_tid x = fr_tid b then fr_pn reuse b else cur_pn reuse cf (fr_tid x)) x"
        "sorted_wrt (\<lambda>a b. fr_tid a = fr_tid b \<longrightarrow> pn_follows reuse (fr_pn reuse a) b)
          (filter checked_frame (replay_run reuse (Some cf') bs))"
        "filter (\<lambda>b. \<not> checked_frame b) (replay_run reuse (Some cf') bs) = filter (\<lambda>b. \<not> checked_frame b) bs"
        by (simp_all add: accepted(4))
      have "cur_pn reuse cf (fr_tid b) \<le> fr_pn reuse b" using accepted(3) by (simp add: pn_follows_def)
      then have "pn_follows reuse (cur_pn reuse cf (fr_tid x)) x"
        if "x \<in> set (filter checked_frame (replay_run reuse (Some cf') bs))" for x
        using bspec [OF IH(1) that] pn_follows_trans by (auto split: if_splits)
      with accepted(1,3) IH True show ?thesis by auto
    qed
  qed
qed simp

section \<open>Looking up the table\<close>

lemma frag_scan_less:
  "frag_scan active t s i ina old es = Some k \<Longrightarrow> (\<And>j. ina = Some j \<Longrightarrow> j < i) \<Longrightarrow>
     (\<And>j st. old = Some (j, st) \<Longrightarrow> j < i) \<Longrightarrow> k < i + length es"
proof (induction active t s i ina old es rule: frag_scan.induct)
  case (1 active t s i ina old)
  then show ?case by (auto split: if_splits option.splits)
next
  case (2 active t s i ina old e es)
  have mono: "\<And>j. ina = Some j \<Longrightarrow> j < Suc i" "\<And>j st. old = Some (j, st) \<Longrightarrow> j < Suc i"
    using 2 by (auto simp: less_SucI)
  show ?case
    using "2.prems"(1) mono "2.IH"
    by (auto split: if_splits option.splits simp: less_SucI)
qed

lemma frag_scan_some:
  "ina \<noteq> None \<or> old \<noteq> None \<or> es \<noteq> [] \<Longrightarrow> frag_scan False t s i ina old es \<noteq> None"
  by (induction es arbitrary: i ina old) (auto split: option.splits)

lemma frag_scan_step:
  assumes "\<not> frag_match t s e"
  shows "\<exists>ina' old'. frag_scan active t s i ina old (e # es) = frag_scan active t s (Suc i) ina' old' es"
  using assms by (cases old; cases active) (auto split: if_splits)

lemma frag_scan_before:
  "frag_scan active t s i ina old es = Some k \<Longrightarrow> j < length es \<Longrightarrow> i + j < k \<Longrightarrow>
     \<not> frag_match t s (es ! j)"
proof (induction es arbitrary: i ina old j)
  case (Cons e es)
  have ne: "\<not> frag_match t s e" using Cons.prems by (auto split: if_splits)
  then obtain ina' old' where
    "frag_scan active t s i ina old (e # es) = frag_scan active t s (Suc i) ina' old' es"
    using frag_scan_step by blast
  then show ?case using Cons.IH [of "Suc i" ina' old' "j - 1"] Cons.prems ne by (cases j) auto
qed simp

lemma frag_scan_match:
  "k < length es \<Longrightarrow> frag_match t s (es ! k) \<Longrightarrow> \<forall>j < k. \<not> frag_match t s (es ! j) \<Longrightarrow>
     frag_scan active t s i ina old es = Some (i + k)"
proof (induction es arbitrary: i ina old k)
  case (Cons e es)
  show ?case
  proof (cases k)
    case (Suc k')
    then have "\<not> frag_match t s e" using Cons.prems(3) by force
    then obtain ina' old' where
      "frag_scan active t s i ina old (e # es) = frag_scan active t s (Suc i) ina' old' es"
      using frag_scan_step by blast
    moreover have "\<forall>j < k'. \<not> frag_match t s (es ! j)" using Cons.prems(3) Suc by force
    ultimately show ?thesis using Cons.IH [of k' "Suc i" ina' old'] Cons.prems Suc by simp
  qed (use Cons.prems in simp)
qed simp

lemma frag_scan_found:
  "frag_scan True t s i ina old es = Some k \<Longrightarrow> i \<le> k \<and> k < i + length es \<and> frag_match t s (es ! (k - i))"
proof (induction es arbitrary: i)
  case (Cons e es)
  show ?case
  proof (cases "frag_match t s e")
    case False
    then have "frag_scan True t s (Suc i) ina old es = Some k" using Cons.prems by (auto split: if_splits)
    then show ?thesis using Cons.IH [of "Suc i"] by (auto simp: nth_Cons')
  qed (use Cons.prems in simp)
qed simp

lemma get_entry_less: "skw_frag_get_entry T t s active = Some k \<Longrightarrow> k < length T"
  unfolding skw_frag_get_entry_def using frag_scan_less [of active t s 0 None None T k] by simp

lemma get_entry_found: "skw_frag_get_entry T t s True = Some k \<Longrightarrow> frag_match t s (T ! k)"
  unfolding skw_frag_get_entry_def using frag_scan_found [of t s 0 None None T k] by simp

lemma get_entry_some: "T \<noteq> [] \<Longrightarrow> \<exists>k. skw_frag_get_entry T t s False = Some k"
  unfolding skw_frag_get_entry_def using frag_scan_some [of None None T t s 0] by blast

text \<open>The entry a first fragment takes is the one its successors find.\<close>

lemma get_entry_after:
  assumes "skw_frag_get_entry T t s a = Some k" and "frag_match t s e"
  shows "skw_frag_get_entry (T[k := e]) t s True = Some k"
proof -
  have k: "k < length T" using assms(1) by (rule get_entry_less)
  have "\<not> frag_match t s (T[k := e] ! j)" if "j < k" for j
    using frag_scan_before [of a t s 0 None None T k j] assms(1) that k
    by (simp add: skw_frag_get_entry_def)
  then show ?thesis
    unfolding skw_frag_get_entry_def
    using frag_scan_match [where k = k and es = "T[k := e]" and t = t and s = s and i = 0] k assms(2) by simp
qed

section \<open>Conservation of fragments\<close>

definition frag_load :: "frag_ctx \<Rightarrow> nat multiset" where
  "frag_load c = image_mset skb_id (mset (fx_out c) + mset (fx_freed c)
                                    + mset (concat (map fe_skbs (fx_frag c))))"

lemma skb_id_keep [simp]:
  "skb_id (skb_pull n b) = skb_id b" "skb_id (skb_trim_tail n b) = skb_id b"
  "skb_id (frag_join v b rest) = skb_id b"
  by (simp_all add: skb_pull_def skb_trim_tail_def frag_join_def Let_def)

lemma frag_append_skbs [simp]: "fe_skbs (frag_append b e) = fe_skbs e @ [skb_pull 12 b]"
  by (simp add: frag_append_def Let_def)

lemma frag_init_skbs [simp]: "fe_skbs (frag_init_at now cipher b e) = [b]"
  by (simp add: frag_init_at_def Let_def)

lemma load_entry:
  "k < length T \<Longrightarrow> mset (concat (map fe_skbs (T[k := e]))) + mset (fe_skbs (T ! k)) =
     mset (concat (map fe_skbs T)) + mset (fe_skbs e)"
  using mset_concat_upd [of k "map fe_skbs T" "fe_skbs e"] by (simp add: map_update)

lemma load_replaced:
  assumes "k < length T" and "fe_skbs (T ! k) = xs"
  shows "image_mset skb_id (mset (concat (map fe_skbs T))) + image_mset skb_id (mset (fe_skbs e)) =
    image_mset skb_id (mset (concat (map fe_skbs (T[k := e])))) + image_mset skb_id (mset xs)"
  using arg_cong [OF load_entry [OF assms(1), of e], of "image_mset skb_id"] assms(2) by simp

lemma frag_load_finish:
  assumes "k < length (fx_frag c)"
  shows "frag_load (frag_finish v k c) = frag_load c"
proof (cases "fe_skbs (fx_frag c ! k)")
  case (Cons p rest)
  let ?e = "(fx_frag c ! k)\<lparr>fe_skbs := [], fe_status := 0, fe_tid := 0xff\<rparr>"
  show ?thesis
    using load_replaced [OF assms Cons, of ?e] Cons
    by (simp add: frag_load_def frag_finish_def Let_def)
qed (simp add: frag_finish_def Let_def)

lemma frag_load_defragment:
  assumes "fx_frag c \<noteq> []"
  shows "frag_load (skw_rx_defragment v b c) = frag_load c + {#skb_id b#}"
proof -
  let ?d = "skb_desc b"
  let ?b = "b\<lparr>skb_desc := ?d\<lparr>csum_valid := False, csum := 0\<rparr>\<rparr>"
  let ?get = "skw_frag_get_entry (fx_frag c) (ucast (tid ?d)) (skb_sn b)"
  obtain k where k: "?get False = Some k" using get_entry_some [OF assms] by blast
  then have kl: "k < length (fx_frag c)" by (rule get_entry_less)
  have init: "frag_load (skw_frag_init_entry now cip ?b c) = frag_load c + {#skb_id b#}" for now cip
    using load_replaced [OF kl refl, of "frag_init_at now cip ?b (fx_frag c ! k)"] k
    by (simp add: frag_load_def skw_frag_init_entry_def)
  have app: "frag_load (c\<lparr>fx_frag := (fx_frag c)[j := frag_append b (fx_frag c ! j)]\<rparr>) =
      frag_load c + {#skb_id b#}" if "j < length (fx_frag c)" for j
    using load_replaced [OF that refl, of "frag_append b (fx_frag c ! j)"]
    by (simp add: frag_load_def)
  show ?thesis
    using init app get_entry_less
    by (auto simp: skw_rx_defragment_def Let_def frag_load_finish split: option.splits)
       (simp_all add: frag_load_def)
qed

lemma defragment_table: "fx_frag c \<noteq> [] \<Longrightarrow> fx_frag (skw_rx_defragment v b c) \<noteq> []"
  by (auto simp: skw_rx_defragment_def skw_frag_init_entry_def frag_finish_def Let_def
      split: option.splits list.splits)

definition frag_event :: "frag_env \<times> sk_buff \<Rightarrow> frag_ctx \<Rightarrow> frag_ctx" where
  "frag_event e c = skw_rx_defragment (fst e) (snd e) c"

interpretation defrag: conserving_machine frag_event "\<lambda>c. fx_frag c \<noteq> []" "\<lambda>e c. True"
  frag_load "\<lambda>e. {#skb_id (snd e)#}"
  by unfold_locales (simp_all add: frag_event_def defragment_table frag_load_defragment)

section \<open>Chains of fragments\<close>

text \<open>
  A chain: fragments numbered from zero, all with the given traffic identifier and sequence
  number, and with consecutive packet numbers where they are checked.
\<close>

definition frag_chain :: "bool \<Rightarrow> bool \<Rightarrow> u8 \<Rightarrow> u16 \<Rightarrow> sk_buff list \<Rightarrow> bool" where
  "frag_chain reuse chk t s frs \<longleftrightarrow> frs \<noteq> [] \<and>
     (\<forall>i < length frs. unat (frag_num (skb_desc (frs ! i))) = i \<and>
        ucast (tid (skb_desc (frs ! i))) = t \<and> skb_sn (frs ! i) = s) \<and>
     (chk \<longrightarrow> (\<forall>i. Suc i < length frs \<longrightarrow> fr_pn reuse (frs ! i) + 1 = fr_pn reuse (frs ! Suc i)))"

lemma frag_chain_snoc:
  assumes "frag_chain reuse chk t s frs" and "unat (frag_num (skb_desc b)) = length frs"
    and "ucast (tid (skb_desc b)) = t" and "skb_sn b = s"
    and "chk \<Longrightarrow> fr_pn reuse (last frs) + 1 = fr_pn reuse b"
  shows "frag_chain reuse chk t s (frs @ [b])"
proof -
  have "frs \<noteq> []" using assms(1) by (simp add: frag_chain_def)
  then have "last frs = frs ! i" if "Suc i = length frs" for i
    using that by (simp add: last_conv_nth flip: that)
  then show ?thesis using assms by (auto simp: frag_chain_def nth_append less_Suc_eq)
qed

definition entry_ok :: "bool \<Rightarrow> skw_frag_entry \<Rightarrow> bool" where
  "entry_ok reuse e \<longleftrightarrow>
     (if fe_skbs e = [] then fe_tid e = 0xff
      else frag_chain reuse (chk_pn e) (fe_tid e) (fe_sn e) (fe_skbs e) \<and>
           unat (fe_frag_num e) + 1 = length (fe_skbs e) \<and>
           (chk_pn e \<longrightarrow> pn_of reuse (last_pn e) = fr_pn reuse (last (fe_skbs e))))"

definition table_ok :: "bool \<Rightarrow> skw_frag_entry list \<Rightarrow> bool" where
  "table_ok reuse T \<longleftrightarrow> T \<noteq> [] \<and> (\<forall>e \<in> set T. entry_ok reuse e)"

lemma pn_of_take [simp]: "pn_of reuse (take 6 x) = pn_of reuse x"
  by (simp add: pn_of_def SKW_PN_U32_def SKW_PN_U48_def)

lemma tid_not_invalid: "(ucast (x :: 4 word) :: u8) \<noteq> 0xff"
proof
  assume "(ucast x :: u8) = 0xff"
  then have "unat (ucast x :: u8) = 255" by simp
  moreover have "unat x < 16" using unsigned_less [of x] by simp
  then have "unat (ucast x :: u8) < 16"
    using take_bit_nat_less_eq_self [of 8 "unat x"]
    by (simp add: unsigned_ucast_eq del: take_bit_nat_less_eq_self)
  ultimately show False by simp
qed

lemma skb_pull_desc [simp]: "skb_desc (skb_pull n b) = skb_desc b"
  by (simp add: skb_pull_def)

lemma frag_append_keep [simp]:
  "chk_pn (frag_append b e) = chk_pn e" "fe_tid (frag_append b e) = fe_tid e"
  "fe_sn (frag_append b e) = fe_sn e" "fe_frag_num (frag_append b e) = fe_frag_num e + 1"
  "chk_pn e \<Longrightarrow> last_pn (frag_append b e) = take 6 (pn (skb_desc b))"
  by (simp_all add: frag_append_def Let_def chk_pn_def)

lemma frag_init_keep [simp]:
  "chk_pn (frag_init_at now cip b e) = chk_pn_cipher cip"
  "fe_tid (frag_init_at now cip b e) = ucast (tid (skb_desc b))"
  "fe_sn (frag_init_at now cip b e) = skb_sn b"
  "fe_frag_num (frag_init_at now cip b e) = 0"
  "chk_pn_cipher cip \<Longrightarrow> last_pn (frag_init_at now cip b e) = take 6 (pn (skb_desc b))"
  by (simp_all add: frag_init_at_def Let_def chk_pn_def SKW_FRAG_STATUS_ACTIVE_def
      SKW_FRAG_STATUS_CHK_PN_def BIT_def)

lemma frag_continues_num:
  assumes "frag_continues reuse (skb_desc b) e"
  shows "unat (fe_frag_num e + 1) = unat (fe_frag_num e) + 1"
proof -
  have "unat (frag_num (skb_desc b)) < 16" using unsigned_less [of "frag_num (skb_desc b)"] by simp
  then have "unat (fe_frag_num e) < 15" using assms by (simp add: frag_continues_def)
  then show ?thesis by (simp add: unat_word_ariths)
qed

lemma entry_ok_append:
  assumes "entry_ok reuse e" and "frag_match (ucast (tid (skb_desc b))) (skb_sn b) e"
    and "frag_continues reuse (skb_desc b) e"
  shows "entry_ok reuse (frag_append b e)"
    and "frag_chain reuse (chk_pn e) (fe_tid e) (fe_sn e) (fe_skbs e @ [skb_pull 12 b])"
proof -
  have ne: "fe_skbs e \<noteq> []"
    using assms(1,2) tid_not_invalid [of "tid (skb_desc b)"] by (auto simp: entry_ok_def split: if_splits)
  then have ok: "frag_chain reuse (chk_pn e) (fe_tid e) (fe_sn e) (fe_skbs e)"
    "unat (fe_frag_num e) + 1 = length (fe_skbs e)"
    "chk_pn e \<Longrightarrow> pn_of reuse (last_pn e) = fr_pn reuse (last (fe_skbs e))"
    using assms(1) by (auto simp: entry_ok_def)
  show "frag_chain reuse (chk_pn e) (fe_tid e) (fe_sn e) (fe_skbs e @ [skb_pull 12 b])"
    using ok assms(2,3) by (intro frag_chain_snoc) (simp_all add: frag_continues_def)
  with ok(2) frag_continues_num [OF assms(3)] show "entry_ok reuse (frag_append b e)"
    by (simp add: entry_ok_def)
qed

lemma entry_ok_init:
  "frag_num (skb_desc b) = 0 \<Longrightarrow> entry_ok reuse (frag_init_at now cip b e)"
  by (simp add: entry_ok_def frag_chain_def)

lemma table_ok_upd: "table_ok reuse T \<Longrightarrow> entry_ok reuse e \<Longrightarrow> table_ok reuse (T[k := e])"
  using set_update_subset_insert [of T k e] by (auto simp: table_ok_def)

lemma table_ok_nth: "table_ok reuse T \<Longrightarrow> k < length T \<Longrightarrow> entry_ok reuse (T ! k)"
  by (simp add: table_ok_def)

lemma table_ok_finish:
  "table_ok reuse (fx_frag c) \<Longrightarrow> table_ok reuse (fx_frag (frag_finish v k c))"
  by (auto simp: frag_finish_def Let_def entry_ok_def intro!: table_ok_upd split: list.splits)

lemma table_ok_defragment:
  assumes "table_ok (fv_reuse v) (fx_frag c)"
  shows "table_ok (fv_reuse v) (fx_frag (skw_rx_defragment v b c))"
proof -
  let ?b = "b\<lparr>skb_desc := (skb_desc b)\<lparr>csum_valid := False, csum := 0\<rparr>\<rparr>"
  have init: "table_ok (fv_reuse v) (fx_frag (skw_frag_init_entry now cip ?b c))"
    if "frag_num (skb_desc b) = 0" for now cip
    using assms that by (auto simp: skw_frag_init_entry_def intro!: table_ok_upd entry_ok_init split: option.splits)
  have app: "table_ok (fv_reuse v) ((fx_frag c)[k := frag_append b (fx_frag c ! k)])"
    if "skw_frag_get_entry (fx_frag c) (ucast (tid (skb_desc b))) (skb_sn b) True = Some k"
      "frag_continues (fv_reuse v) (skb_desc b) (fx_frag c ! k)" for k
    using assms that get_entry_less [OF that(1)] get_entry_found [OF that(1)]
    by (intro table_ok_upd entry_ok_append) (simp_all add: table_ok_nth)
  show ?thesis
    using assms init app
    by (auto simp: skw_rx_defragment_def Let_def intro!: table_ok_finish split: option.splits)
qed

section \<open>A chain in order is delivered\<close>

text \<open>
  The fragments after the first: numbered on from \<open>n\<close>, packet numbers on from
  \<open>p\<close>, each but the last announcing another.
\<close>

fun frag_tail :: "bool \<Rightarrow> u8 \<Rightarrow> u16 \<Rightarrow> nat \<Rightarrow> u64 \<Rightarrow> sk_buff list \<Rightarrow> bool" where
  "frag_tail reuse t s n p [] = False"
| "frag_tail reuse t s n p (b # bs) =
     (ucast (tid (skb_desc b)) = t \<and> skb_sn b = s \<and> unat (frag_num (skb_desc b)) = Suc n \<and>
      fr_pn reuse b = p + 1 \<and>
      (if bs = [] then \<not> more_frag (skb_desc b)
       else more_frag (skb_desc b) \<and> frag_tail reuse t s (Suc n) (p + 1) bs))"

lemma defragment_tail:
  assumes "frag_tail (fv_reuse v) t s n p bs" and "skw_frag_get_entry (fx_frag c) t s True = Some k"
    and "unat (fe_frag_num (fx_frag c ! k)) = n"
    and "chk_pn (fx_frag c ! k) \<Longrightarrow> pn_of (fv_reuse v) (last_pn (fx_frag c ! k)) = p"
    and "fe_skbs (fx_frag c ! k) = f # fs" and "fv_room_ok v"
  shows "fx_out (fold (skw_rx_defragment v) bs c) = fx_out c @ [frag_join v f (fs @ map (skb_pull 12) bs)]"
  using assms
proof (induction bs arbitrary: n p c fs)
  case (Cons b bs)
  let ?T = "fx_frag c"
  let ?e = "frag_append b (?T ! k)"
  let ?c = "c\<lparr>fx_frag := ?T[k := ?e]\<rparr>"
  have b: "ucast (tid (skb_desc b)) = t" "skb_sn b = s" "unat (frag_num (skb_desc b)) = Suc n"
    "fr_pn (fv_reuse v) b = p + 1" using Cons.prems(1) by simp_all
  have k: "k < length ?T" using Cons.prems(2) by (rule get_entry_less)
  have nz: "frag_num (skb_desc b) \<noteq> 0" using b(3) by (metis nat.simps(3) unsigned_0)
  have cont: "frag_continues (fv_reuse v) (skb_desc b) (?T ! k)"
    using b Cons.prems(3,4) by (simp add: frag_continues_def)
  have step: "skw_rx_defragment v b c = (if more_frag (skb_desc b) then ?c else frag_finish v k ?c)"
    using nz cont Cons.prems(2) b by (simp add: skw_rx_defragment_def Let_def)
  have mt: "frag_match t s ?e" using get_entry_found [OF Cons.prems(2)] by simp
  show ?case
  proof (cases "bs = []")
    case True
    then show ?thesis using Cons.prems(1,5,6) k step by (simp add: frag_finish_def Let_def)
  next
    case False
    then have "fx_out (fold (skw_rx_defragment v) bs ?c) =
        fx_out ?c @ [frag_join v f ((fs @ [skb_pull 12 b]) @ map (skb_pull 12) bs)]"
      using Cons.prems k b mt frag_continues_num [OF cont] get_entry_after [OF Cons.prems(2) mt]
      by (intro Cons.IH [of "Suc n" "p + 1"]) simp_all
    with False Cons.prems(1) show ?thesis using step by simp
  qed
qed simp

section \<open>Properties\<close>

definition ex_key :: skw_key where
  "ex_key = \<lparr>key_len = 16, key_data = [], rx_pn = replicate 16 (replicate 6 0)\<rparr>"

definition ex_key_conf :: skw_key_conf where
  "ex_key_conf = \<lparr>skw_cipher = SKW_CIPHER_TYPE_CCMP, installed_bitmap = 1, key_flags = 0, wep_idx = 0,
     key_of = [Some ex_key, None, None, None, None, None]\<rparr>"

definition ex_frag_frame :: "nat \<Rightarrow> 4 word \<Rightarrow> bool \<Rightarrow> u8 \<Rightarrow> 5 word \<Rightarrow> u8 list \<Rightarrow> sk_buff" where
  "ex_frag_frame n num mf p peer dat =
     \<lparr>skb_id = n, skb_desc = \<lparr>msdu_len = 0, csum_valid = False, snap_match = True, is_amsdu = False,
        is_qos_data = True, amsdu_first_idx = False, amsdu_last_idx = False, csum = 0,
        msdu_filter = 0, sn = 9, frag_num = num, inst_id = 0, more_frag = mf, peer_idx = peer,
        is_mc_addr = False, tid = 0, pn = [p, 0, 0, 0, 0, 0], msdu_offset = 0, amsdu_idx = 0,
        need_forward = False, mac_drop_frag = False\<rparr>,
      skb_cb = \<lparr>rx_time = 0, rx_desc_offset = 0, amsdu_bitmap = 0, amsdu_mask = 0, amsdu_flags = 0,
        skw_created = False, lmac_id = 0, skip_replay_detect = False\<rparr>, skb_data = dat\<rparr>"

definition ex_frag_env :: frag_env where
  "ex_frag_env = \<lparr>fv_jiffies = 5, fv_reuse = False, fv_cipher = SKW_CIPHER_TYPE_CCMP, fv_room_ok = True\<rparr>"

definition ex_frag_ctx :: frag_ctx where
  "ex_frag_ctx = \<lparr>fx_frag = frag_table_init, fx_out = [], fx_freed = []\<rparr>"

lemma table_ok_empty: "table_ok reuse frag_table_init"
  by (simp add: table_ok_def frag_table_init_def entry_ok_def)

text \<open>
  C4. No replays. The check applies to unicast frames that the reorder buffer did not exempt; while one
  pairwise key of a data cipher stays installed, and whatever sequence of frames of the peer arrives:
  among the checked frames that are accepted, packet numbers never decrease within a traffic
  class, and a frame that is outside an A-MSDU and whose number is not zero (number zero is let through by the
  code) has a number strictly above that of every checked frame of its class accepted before it. The frames that
  the check does not apply to are all accepted, and change nothing for the others.
\<close>

theorem replay_protection:
  assumes "replay_armed cf"
  shows "sorted_wrt (\<lambda>a b. fr_tid a = fr_tid b \<longrightarrow> pn_follows reuse (fr_pn reuse a) b)
           (filter checked_frame (replay_run reuse (Some cf) bs)) \<and>
         filter (\<lambda>b. \<not> checked_frame b) (replay_run reuse (Some cf) bs) = filter (\<lambda>b. \<not> checked_frame b) bs"
  using replay_run_follows [OF assms] by blast

theorem replay_protection_witness:
  "sorted_wrt (\<lambda>a b. fr_tid a = fr_tid b \<longrightarrow> pn_follows False (fr_pn False a) b)
     (filter checked_frame (replay_run False (Some ex_key_conf)
       [ex_frag_frame 1 0 False 5 0 [], ex_frag_frame 2 0 False 5 0 [], ex_frag_frame 3 0 False 6 0 []])) \<and>
   map skb_id (replay_run False (Some ex_key_conf)
     [ex_frag_frame 1 0 False 5 0 [], ex_frag_frame 2 0 False 5 0 [], ex_frag_frame 3 0 False 6 0 []]) = [1, 3]"
proof -
  have "replay_armed ex_key_conf"
    by (simp add: replay_armed_def ex_key_conf_def ex_key_def data_cipher_def skw_key_idx_def key_idx_tbl_def SKW_INVALID_ID_def)
  from replay_protection [OF this] show ?thesis by (intro conjI) (blast, code_simp)
qed

text \<open>
  Reassembly conserves buffers: over any sequence of frames, the buffers handed on, freed and
  waiting in the table are those there before plus those that arrived.
\<close>

theorem defragment_conserves:
  assumes "fx_frag c \<noteq> []"
  shows "frag_load (fold frag_event es c) = frag_load c + (\<Sum>e \<leftarrow> es. {#skb_id (snd e)#})"
  by (rule defrag.run_load) (simp_all add: assms)

theorem defragment_conserves_witness:
  "frag_load (fold frag_event [(ex_frag_env, ex_frag_frame 4 0 True 1 0 [])] ex_frag_ctx) = {#4#}"
  using defragment_conserves [of ex_frag_ctx "[(ex_frag_env, ex_frag_frame 4 0 True 1 0 [])]"]
  by (simp add: ex_frag_ctx_def frag_table_init_def frag_load_def ex_frag_frame_def)

text \<open>
  C5. Reassembly is sound: on a table in order, a fragment makes a frame come out only as the join
  of a chain held in one entry with that fragment at its end: numbers 0, 1, 2 ..., one
  sequence number and traffic identifier, and consecutive packet numbers where the cipher
  asks for it.
\<close>

theorem defragment_sound:
  assumes "table_ok (fv_reuse v) (fx_frag c)" and "more_frag (skb_desc b) \<or> frag_num (skb_desc b) \<noteq> 0"
    and "fx_out (skw_rx_defragment v b c) \<noteq> fx_out c"
  shows "\<exists>e \<in> set (fx_frag c). \<exists>p rest. fe_skbs e = p # rest \<and>
    frag_chain (fv_reuse v) (chk_pn e) (ucast (tid (skb_desc b))) (skb_sn b) (p # rest @ [skb_pull 12 b]) \<and>
    fx_out (skw_rx_defragment v b c) = fx_out c @ [frag_join v p (rest @ [skb_pull 12 b])]"
proof -
  let ?d = "skb_desc b"
  have nz: "frag_num ?d \<noteq> 0"
    using assms(2,3) by (auto simp: skw_rx_defragment_def skw_frag_init_entry_def Let_def split: option.splits)
  obtain k where k: "skw_frag_get_entry (fx_frag c) (ucast (tid ?d)) (skb_sn b) True = Some k"
    and cont: "frag_continues (fv_reuse v) ?d (fx_frag c ! k)" and last: "\<not> more_frag ?d"
    using assms(3) nz by (auto simp: skw_rx_defragment_def Let_def split: option.splits if_splits)
  let ?e = "fx_frag c ! k"
  have kl: "k < length (fx_frag c)" using k by (rule get_entry_less)
  have mt: "frag_match (ucast (tid ?d)) (skb_sn b) ?e" using k by (rule get_entry_found)
  have ok: "entry_ok (fv_reuse v) ?e" using assms(1) kl by (rule table_ok_nth)
  then obtain p rest where pr: "fe_skbs ?e = p # rest"
    using mt tid_not_invalid [of "tid ?d"] by (cases "fe_skbs ?e") (auto simp: entry_ok_def)
  have "fx_out (skw_rx_defragment v b c) = fx_out c @ [frag_join v p (rest @ [skb_pull 12 b])]"
    using assms(3) k cont last nz kl pr
    by (auto simp: skw_rx_defragment_def Let_def frag_finish_def split: if_splits)
  then show ?thesis
    using entry_ok_append(2) [OF ok mt cont] mt pr nth_mem [OF kl] by auto
qed

theorem defragment_sound_witness:
  "\<exists>e \<in> set (fx_frag (skw_rx_defragment ex_frag_env (ex_frag_frame 4 0 True 1 0 [1, 2]) ex_frag_ctx)).
     \<exists>p rest. fe_skbs e = p # rest"
proof -
  let ?c = "skw_rx_defragment ex_frag_env (ex_frag_frame 4 0 True 1 0 [1, 2]) ex_frag_ctx"
  let ?b = "ex_frag_frame 5 1 False 2 0 (replicate 12 0 @ [3])"
  have "table_ok (fv_reuse ex_frag_env) (fx_frag ?c)"
    using table_ok_empty by (intro table_ok_defragment) (simp add: ex_frag_ctx_def)
  moreover have "fx_out (skw_rx_defragment ex_frag_env ?b ?c) \<noteq> fx_out ?c" by code_simp
  ultimately show ?thesis
    using defragment_sound [of ex_frag_env ?c ?b] by (auto simp: ex_frag_frame_def)
qed

text \<open>
  C27. Reassembly is complete: a first fragment followed by its successors in order, with
  consecutive packet numbers and memory available, yields the whole frame, whatever else
  the table holds: the first fragment's data followed by that of the others without their
  leading addresses.
\<close>

theorem defragment_complete:
  assumes "fx_frag c \<noteq> []" and "fv_room_ok v"
    and "more_frag (skb_desc f)" and "frag_num (skb_desc f) = 0"
    and "frag_tail (fv_reuse v) (ucast (tid (skb_desc f))) (skb_sn f) 0 (fr_pn (fv_reuse v) f) bs"
  shows "fx_out (fold (skw_rx_defragment v) (f # bs) c) =
    fx_out c @ [frag_join v (f\<lparr>skb_desc := (skb_desc f)\<lparr>csum_valid := False, csum := 0\<rparr>\<rparr>)
                 (map (skb_pull 12) bs)]"
proof -
  let ?t = "ucast (tid (skb_desc f)) :: u8" and ?s = "skb_sn f"
  let ?f = "f\<lparr>skb_desc := (skb_desc f)\<lparr>csum_valid := False, csum := 0\<rparr>\<rparr>"
  obtain k where k: "skw_frag_get_entry (fx_frag c) ?t ?s False = Some k"
    using get_entry_some [OF assms(1)] by blast
  let ?e = "frag_init_at (fv_jiffies v) (fv_cipher v) ?f (fx_frag c ! k)"
  let ?c = "c\<lparr>fx_frag := (fx_frag c)[k := ?e], fx_freed := fx_freed c @ fe_skbs (fx_frag c ! k)\<rparr>"
  have "skw_rx_defragment v f c = ?c"
    using assms(3,4) k by (simp add: skw_rx_defragment_def skw_frag_init_entry_def Let_def)
  moreover have "fx_out (fold (skw_rx_defragment v) bs ?c) =
      fx_out ?c @ [frag_join v ?f ([] @ map (skb_pull 12) bs)]"
    using assms(2,5) get_entry_less [OF k] get_entry_after [OF k, of ?e]
    by (intro defragment_tail [where p = "fr_pn (fv_reuse v) f" and k = k and n = 0]) simp_all
  ultimately show ?thesis by simp
qed

theorem defragment_complete_witness:
  "map skb_data (fx_out (fold (skw_rx_defragment ex_frag_env)
     [ex_frag_frame 4 0 True 1 0 [1, 2], ex_frag_frame 5 1 True 2 0 (replicate 12 0 @ [3]),
      ex_frag_frame 6 2 False 3 0 (replicate 12 0 @ [4, 5])] ex_frag_ctx)) = [[1, 2, 3, 4, 5]]"
  using defragment_complete [of ex_frag_ctx ex_frag_env "ex_frag_frame 4 0 True 1 0 [1, 2]"
     "[ex_frag_frame 5 1 True 2 0 (replicate 12 0 @ [3]), ex_frag_frame 6 2 False 3 0 (replicate 12 0 @ [4, 5])]"]
  by (simp add: ex_frag_ctx_def ex_frag_env_def frag_table_init_def ex_frag_frame_def pn_of_def
      SKW_PN_U48_def frag_join_def skb_pull_def cipher_defs Let_def)

text \<open>
  The table does not look at the sender: fragments of two peers with the same sequence number
  and traffic identifier are joined into one frame.
\<close>

theorem fragments_of_two_peers_joined:
  "map skb_data (fx_out (fold (skw_rx_defragment ex_frag_env)
     [ex_frag_frame 4 0 True 1 0 [1, 2], ex_frag_frame 5 1 False 2 7 (replicate 12 0 @ [3])]
     ex_frag_ctx)) = [[1, 2, 3]]"
  by code_simp

end
