(* ===== verification/Rx_Session_Props.thy ===== *)
theory Rx_Session_Props
  imports Rx_Session Rx_Reorder_Live Rx_Frag_Props
begin

text \<open>
  Properties of the receive path as a whole: no operation loses, duplicates or invents a
  buffer, the data structures stay well formed, and each session operation does what its
  callers rely on.
\<close>

section \<open>Well-formed states\<close>

definition sess_ok :: "skw_reorder_rx \<Rightarrow> bool" where
  "sess_ok x \<longleftrightarrow> (case tid_rx x of None \<Rightarrow> True | Some t \<Rightarrow> buf_ok t)"

definition peer_ok :: "skw_peer \<Rightarrow> bool" where
  "peer_ok p \<longleftrightarrow> length (reorder p) = SKW_NR_TID \<and> (\<forall>x \<in> set (reorder p). sess_ok x)"

definition valid_ref :: "skw_core \<Rightarrow> rref \<Rightarrow> bool" where
  "valid_ref core r \<longleftrightarrow> fst r < length (peers core) \<and> snd r < SKW_NR_TID"

definition addr_ok :: "nat \<Rightarrow> nat option \<Rightarrow> bool" where
  "addr_ok n a \<longleftrightarrow> (case a of None \<Rightarrow> True | Some p \<Rightarrow> p < n)"

definition iface_ok :: "skw_iface option \<Rightarrow> bool" where
  "iface_ok i \<longleftrightarrow> (case i of None \<Rightarrow> True | Some x \<Rightarrow> if_frag x \<noteq> [] \<and> if_lmac_id x < 2)"

definition ctxs_ok :: "nat \<Rightarrow> skw_peer_ctx list list \<Rightarrow> bool" where
  "ctxs_ok n cs \<longleftrightarrow> length cs = 2 \<and> (\<forall>l \<in> set cs. length l = 32 \<and>
     (\<forall>x \<in> set l. addr_ok n (ctx_peer x) \<and> addr_ok n (ctx_entry x)))"

definition wf_core :: "skw_core \<Rightarrow> bool" where
  "wf_core core \<longleftrightarrow> (\<forall>p \<in> set (peers core). peer_ok p) \<and> ctxs_ok (length (peers core)) (peer_ctx core) \<and>
     length (ifaces core) = 4 \<and> (\<forall>i \<in> set (ifaces core). iface_ok i) \<and>
     (\<forall>x \<in> set (rcu_q core). valid_ref core (fst x) \<and> buf_ok (snd x)) \<and>
     (\<forall>r \<in> set (items (rx_todo_list core)). valid_ref core r) \<and>
     (\<forall>l \<in> set (lmac_todo_list core). \<forall>r \<in> set (items l). valid_ref core r)"

lemma set_upd_ball: "\<forall>x \<in> set xs. P x \<Longrightarrow> P y \<Longrightarrow> \<forall>x \<in> set (xs[i := y]). P x"
  using set_update_subset_insert [of xs i y] by auto

lemma wf_get_reorder:
  assumes "wf_core core" "valid_ref core r"
  shows "sess_ok (get_reorder core r)" "snd r < length (reorder (peers core ! fst r))"
proof -
  have "peer_ok (peers core ! fst r)" using assms by (simp add: wf_core_def valid_ref_def)
  then show "sess_ok (get_reorder core r)" "snd r < length (reorder (peers core ! fst r))"
    using assms(2) by (simp_all add: peer_ok_def get_reorder_def valid_ref_def)
qed

lemma valid_ref_len: "length (peers core') = length (peers core) \<Longrightarrow> valid_ref core' r = valid_ref core r"
  by (simp add: valid_ref_def)

lemma wf_set_peer:
  assumes "wf_core core" "peer_ok p"
  shows "wf_core (core\<lparr>peers := (peers core)[i := p]\<rparr>)"
  using assms set_upd_ball [of "peers core" peer_ok p i]
  by (simp add: wf_core_def valid_ref_def)

lemma wf_put_reorder:
  assumes "wf_core core" "valid_ref core r" "sess_ok x"
  shows "wf_core (put_reorder core r x)"
proof -
  have "peer_ok (peers core ! fst r)" using assms by (simp add: wf_core_def valid_ref_def)
  then have "peer_ok ((peers core ! fst r)\<lparr>reorder := (reorder (peers core ! fst r))[snd r := x]\<rparr>)"
    using assms(3) set_upd_ball [of "reorder (peers core ! fst r)" sess_ok x "snd r"]
    by (simp add: peer_ok_def)
  then show ?thesis using assms(1) by (simp add: put_reorder_def wf_set_peer)
qed

lemma get_put_reorder:
  "wf_core core \<Longrightarrow> valid_ref core r \<Longrightarrow> get_reorder (put_reorder core r x) r = x"
  using wf_get_reorder(2) [of core r] by (simp add: get_reorder_def put_reorder_def valid_ref_def)

lemma wf_free_skbs [simp]: "wf_core (free_skbs bs core) = wf_core core"
  by (simp add: wf_core_def free_skbs_def valid_ref_def)

lemma valid_ref_simps [simp]:
  "valid_ref (put_reorder core r x) r' = valid_ref core r'"
  "valid_ref (free_skbs bs core) r' = valid_ref core r'"
  "valid_ref (todo_add r core) r' = valid_ref core r'"
  by (simp_all add: valid_ref_def put_reorder_def free_skbs_def todo_add_def Let_def)

lemma lmac_list_simps [simp]:
  "length (lmac_todo_list (todo_add r core)) = length (lmac_todo_list core)"
  "lmac_todo_list (put_reorder core r x) = lmac_todo_list core"
  "lmac_todo_list (free_skbs bs core) = lmac_todo_list core"
  by (simp_all add: todo_add_def put_reorder_def free_skbs_def Let_def)

lemma wf_todo_add:
  assumes "wf_core core" "valid_ref core r"
  shows "wf_core (todo_add r core)"
proof -
  let ?l = "pr_lmac (peers core ! fst r)"
  have "\<forall>l \<in> set ((lmac_todo_list core)[?l := skw_list_add r (lmac_todo_list core ! ?l)]).
      \<forall>r \<in> set (items l). valid_ref core r"
  proof (cases "?l < length (lmac_todo_list core)")
    case True
    then show ?thesis using assms by (intro set_upd_ball) (auto simp: wf_core_def skw_list_add_def)
  qed (use assms in \<open>simp add: wf_core_def list_update_beyond\<close>)
  then show ?thesis using assms
    by (auto simp: todo_add_def Let_def wf_core_def valid_ref_def skw_list_add_def)
qed

section \<open>Where the buffers are\<close>

definition reorder_skbs :: "skw_reorder_rx \<Rightarrow> sk_buff list" where
  "reorder_skbs x = (case tid_rx x of None \<Rightarrow> [] | Some t \<Rightarrow> concat (reorder_buf t))"

definition peer_skbs :: "skw_peer \<Rightarrow> sk_buff list" where
  "peer_skbs p = concat (map reorder_skbs (reorder p))"

definition iface_skbs :: "skw_iface option \<Rightarrow> sk_buff list" where
  "iface_skbs i = (case i of None \<Rightarrow> [] | Some x \<Rightarrow> concat (map fe_skbs (if_frag x)))"

definition core_skbs :: "skw_core \<Rightarrow> sk_buff list" where
  "core_skbs core = map snd (delivered core) @ monitored core @ core_freed core @ leaked core @
     concat (map peer_skbs (peers core)) @ concat (map iface_skbs (ifaces core)) @
     concat (map (concat \<circ> reorder_buf \<circ> snd) (rcu_q core))"

definition core_load :: "skw_core \<Rightarrow> nat multiset" where
  "core_load core = image_mset skb_id (mset (core_skbs core))"

abbreviation ids :: "sk_buff list \<Rightarrow> nat multiset" where
  "ids bs \<equiv> image_mset skb_id (mset bs)"

lemma mset_concat_map_upd:
  "i < length xs \<Longrightarrow> mset (concat (map f (xs[i := y]))) + mset (f (xs ! i)) =
     mset (concat (map f xs)) + mset (f y)"
  using mset_concat_upd [of i "map f xs" "f y"] by (simp add: map_update)

lemma mset_cancel_mid:
  assumes "a + p = c + p'" "p' + q = p + n"
  shows "a + q = c + (n :: 'a multiset)"
proof -
  have "a + q + p = (a + p) + q" by (simp add: ac_simps)
  also have "\<dots> = c + (p' + q)" by (simp only: assms(1) add.assoc)
  also have "\<dots> = c + n + p" by (simp only: assms(2) ac_simps)
  finally show ?thesis by simp
qed

lemma load_set_peer:
  assumes "i < length (peers core)"
  shows "core_load (core\<lparr>peers := (peers core)[i := p]\<rparr>) + ids (peer_skbs (peers core ! i)) =
         core_load core + ids (peer_skbs p)"
  using arg_cong [OF mset_concat_map_upd [OF assms, of peer_skbs p], of "image_mset skb_id"]
  by (simp add: core_load_def core_skbs_def ac_simps)

lemma load_put_reorder:
  assumes "wf_core core" "valid_ref core r"
  shows "core_load (put_reorder core r x) + ids (reorder_skbs (get_reorder core r)) =
         core_load core + ids (reorder_skbs x)"
proof -
  let ?p = "peers core ! fst r"
  let ?p' = "?p\<lparr>reorder := (reorder ?p)[snd r := x]\<rparr>"
  have "ids (peer_skbs ?p') + ids (reorder_skbs (get_reorder core r)) = ids (peer_skbs ?p) + ids (reorder_skbs x)"
    using arg_cong [OF mset_concat_map_upd [OF wf_get_reorder(2) [OF assms], of reorder_skbs x],
        of "image_mset skb_id"] by (simp add: peer_skbs_def get_reorder_def)
  moreover have "core_load (put_reorder core r x) + ids (peer_skbs ?p) = core_load core + ids (peer_skbs ?p')"
    using load_set_peer [of "fst r" core ?p'] assms(2) by (simp add: put_reorder_def valid_ref_def)
  ultimately show ?thesis by (rule mset_cancel_mid [rotated])
qed

lemma load_free_skbs [simp]: "core_load (free_skbs bs core) = core_load core + ids bs"
  by (simp add: core_load_def core_skbs_def free_skbs_def)

lemma load_todo_add [simp]: "core_load (todo_add r core) = core_load core"
  by (simp add: core_load_def core_skbs_def todo_add_def Let_def)

section \<open>Every operation keeps the state well formed and conserves buffers\<close>

text \<open>
  From one state and release list to another: the new state is well formed, has the same peers,
  and holds the same buffers plus those that came in.
\<close>

definition moves :: "skw_core \<times> sk_buff list \<Rightarrow> skw_core \<times> sk_buff list \<Rightarrow> nat multiset \<Rightarrow> bool" where
  "moves s s' n \<longleftrightarrow> wf_core (fst s') \<and> length (peers (fst s')) = length (peers (fst s)) \<and>
     length (lmac_todo_list (fst s')) = length (lmac_todo_list (fst s)) \<and>
     core_load (fst s') + ids (snd s') = core_load (fst s) + ids (snd s) + n"

lemma moves_trans: "moves a b m \<Longrightarrow> moves b c n \<Longrightarrow> moves a c (m + n)"
  by (simp add: moves_def ac_simps)

lemma moves_trans0: "moves a b {#} \<Longrightarrow> moves b c n \<Longrightarrow> moves a c n" "moves a b n \<Longrightarrow> moves b c {#} \<Longrightarrow> moves a c n"
  using moves_trans [of a b "{#}" c n] moves_trans [of a b n c "{#}"] by simp_all

lemma moves_queue: "moves (core, rel) (core', rel) n \<Longrightarrow> moves (core, rel) (core', rel @ [b]) (n + {#skb_id b#})"
  by (simp add: moves_def)

lemma moves_refl: "wf_core (fst s) \<Longrightarrow> moves s s {#}"
  by (simp add: moves_def)

definition conserves :: "(reorder_ctx \<Rightarrow> reorder_ctx) \<Rightarrow> nat multiset \<Rightarrow> bool" where
  "conserves f n \<longleftrightarrow> (\<forall>c. buf_ok (cx_t c) \<longrightarrow> buf_ok (cx_t (f c)) \<and> ctx_load (f c) = ctx_load c + n)"

lemma on_session_moves:
  assumes "wf_core core" "valid_ref core r" "conserves f n"
    and some: "tid_rx (get_reorder core r) = Some t"
  shows "moves (core, rel) (on_session r f (core, rel)) n"
proof -
  let ?x = "get_reorder core r"
  define c where "c = f \<lparr>cx_r = ?x, cx_t = t, cx_rel = rel, cx_freed = [], cx_kick = False\<rparr>"
  have "buf_ok t" using wf_get_reorder(1) [OF assms(1,2)] some by (simp add: sess_ok_def)
  then have c: "buf_ok (cx_t c)" "ids (cx_rel c) + ids (cx_freed c) + ids (concat (reorder_buf (cx_t c))) =
      ids rel + ids (concat (reorder_buf t)) + n"
    using assms(3) by (auto simp: conserves_def c_def ctx_load_def)
  let ?x' = "(cx_r c)\<lparr>tid_rx := Some (cx_t c)\<rparr>"
  define core1 where "core1 = free_skbs (cx_freed c) (put_reorder core r ?x')"
  have wf1: "wf_core core1"
    using assms(1,2) c(1) by (simp add: core1_def wf_put_reorder sess_ok_def)
  have "core_load (put_reorder core r ?x') + ids (concat (reorder_buf t)) =
      core_load core + ids (concat (reorder_buf (cx_t c)))"
    using load_put_reorder [OF assms(1,2), of ?x'] some by (simp add: reorder_skbs_def)
  then have "core_load core1 + ids (cx_rel c) + ids (concat (reorder_buf t)) =
      core_load core + (ids (cx_rel c) + ids (cx_freed c) + ids (concat (reorder_buf (cx_t c))))"
    by (simp add: core1_def ac_simps)
  then have load: "core_load core1 + ids (cx_rel c) = core_load core + ids rel + n"
    unfolding c(2) by (simp add: ac_simps)
  have peers: "length (peers core1) = length (peers core)"
    by (simp add: core1_def free_skbs_def put_reorder_def)
  have lists: "lmac_todo_list core1 = lmac_todo_list core" by (simp add: core1_def)
  have "valid_ref core1 r" using assms(2) by (simp add: core1_def)
  moreover have "on_session r f (core, rel) = (if cx_kick c then todo_add r core1 else core1, cx_rel c)"
    using some by (simp add: on_session_def c_def core1_def Let_def)
  moreover have "length (peers (todo_add r core1)) = length (peers core)"
    using peers by (simp add: todo_add_def Let_def)
  ultimately show ?thesis
    using wf1 load peers lists by (simp add: moves_def wf_todo_add)
qed

lemma on_session_moves0:
  assumes "wf_core core" "valid_ref core r" "conserves f {#}"
  shows "moves (core, rel) (on_session r f (core, rel)) {#}"
  using assms on_session_moves [of core r f "{#}" _ rel]
  by (cases "tid_rx (get_reorder core r)") (simp_all add: on_session_def moves_refl)

lemma conserves_ops:
  "conserves (ampdu_reorder_window env b) {#skb_id b#}" "conserves (skw_reorder_force_release s) {#}"
  "conserves (skw_reorder_release env) {#}"
  by (simp_all add: conserves_def window_safe force_release_safe reorder_release_safe)

lemma wf_ctx:
  assumes "wf_core core" "l < 2"
  shows "addr_ok (length (peers core)) (ctx_entry (peer_ctx core ! l ! unat (i :: 5 word)))"
    and "addr_ok (length (peers core)) (ctx_peer (peer_ctx core ! l ! unat i))"
proof -
  have "ctxs_ok (length (peers core)) (peer_ctx core)" using assms(1) by (simp add: wf_core_def)
  then have l: "length (peer_ctx core ! l) = 32" "\<forall>x \<in> set (peer_ctx core ! l).
      addr_ok (length (peers core)) (ctx_peer x) \<and> addr_ok (length (peers core)) (ctx_entry x)"
    using nth_mem [of l "peer_ctx core"] assms(2) by (auto simp: ctxs_ok_def)
  have "unat i < 32" using unsigned_less [of i] by simp
  then have "peer_ctx core ! l ! unat i \<in> set (peer_ctx core ! l)" using l(1) by simp
  with l(2) show "addr_ok (length (peers core)) (ctx_entry (peer_ctx core ! l ! unat i))"
    "addr_ok (length (peers core)) (ctx_peer (peer_ctx core ! l ! unat i))" by blast+
qed

lemma set_peer_moves:
  assumes "wf_core core" "p < length (peers core)" "reorder q = reorder (peers core ! p)"
  shows "moves (core, rel) (core\<lparr>peers := (peers core)[p := q]\<rparr>, rel) {#}"
proof -
  have "peer_ok (peers core ! p)" using assms(1,2) by (simp add: wf_core_def)
  then have "peer_ok q" using assms(3) by (simp add: peer_ok_def)
  moreover have "core_load (core\<lparr>peers := (peers core)[p := q]\<rparr>) = core_load core"
    using load_set_peer [OF assms(2), of q] assms(3) by (simp add: peer_skbs_def)
  ultimately show ?thesis using assms(1) by (simp add: moves_def wf_set_peer)
qed

lemma free_moves: "wf_core core \<Longrightarrow> moves (core, rel) (free_skbs bs core, rel) (ids bs)"
  by (simp add: moves_def ac_simps) (simp add: free_skbs_def)

lemma fault_moves: "wf_core core \<Longrightarrow> moves (core, rel) (core\<lparr>fault := True\<rparr>, rel) {#}"
  by (simp add: moves_def wf_core_def valid_ref_def core_load_def core_skbs_def)

lemma ampdu_reorder_moves:
  assumes "wf_core core" "unat (lmac_id (skb_cb b)) < 2"
  shows "moves (core, rel) (skw_ampdu_reorder env b (core, rel)) {#skb_id b#}"
proof (cases "ctx_entry (peer_ctx core ! unat (lmac_id (skb_cb b)) ! unat (peer_idx (skb_desc b)))")
  case None
  then show ?thesis using moves_queue [OF moves_refl, of core rel b] assms(1)
    by (simp add: skw_ampdu_reorder_def Let_def)
next
  case (Some p)
  let ?core1 = "count_rx p b core" and ?r = "(p, unat (tid (skb_desc b)))"
  have p: "p < length (peers core)" using wf_ctx(1) [OF assms, of "peer_idx (skb_desc b)"] Some by (simp add: addr_ok_def)
  have m1: "moves (core, rel) (?core1, rel) {#}"
    using set_peer_moves [OF assms(1) p, of "(peers core ! p)\<lparr>rx_bytes := _, rx_pkts := _\<rparr>" rel]
    by (simp add: count_rx_def)
  then have wf1: "wf_core ?core1" "length (peers ?core1) = length (peers core)" by (simp_all add: moves_def)
  note queue = moves_queue [OF m1, of b, simplified]
  have flt: "moves (core, rel) (?core1\<lparr>fault := True\<rparr>, rel @ [b]) {#skb_id b#}"
    using moves_queue [OF moves_trans0(1) [OF m1 fault_moves [OF wf1(1)]], of b] by simp
  have sess: "moves (core, rel) (on_session ?r (ampdu_reorder_window env b) (?core1, rel)) {#skb_id b#}"
    if "tid_rx (get_reorder ?core1 ?r) \<noteq> None" "unat (tid (skb_desc b)) < SKW_NR_TID"
    using that p wf1 by (intro moves_trans0(1) [OF m1]) (auto intro!: on_session_moves conserves_ops simp: valid_ref_def)
  show ?thesis
    using Some queue flt sess free_moves [OF assms(1), of rel "[b]"] moves_queue [OF moves_refl, of core rel b] assms(1)
    by (auto simp: skw_ampdu_reorder_def Let_def not_le)
qed

lemma handler_replay_moves:
  assumes "wf_core core" "if_lmac_id i < 2" "handler_replay i b core = (ret, core1)"
  shows "moves (core, rel) (core1, rel) {#}" "ifaces core1 = ifaces core"
proof -
  let ?a = "ctx_peer (peer_ctx core ! if_lmac_id i ! unat (peer_idx (skb_desc b)))"
  have "moves (core, rel) (core1, rel) {#} \<and> ifaces core1 = ifaces core"
  proof (cases ?a)
    case None
    then show ?thesis using assms by (auto simp: handler_replay_def moves_refl)
  next
    case (Some p)
    then have p: "p < length (peers core)"
      using wf_ctx(2) [OF assms(1,2), of "peer_idx (skb_desc b)"] by (simp add: addr_ok_def)
    have "\<exists>cf. core1 = core\<lparr>peers := (peers core)[p := (peers core ! p)\<lparr>ptk_conf := cf\<rparr>]\<rparr>"
      using assms(3) Some by (auto simp: handler_replay_def Let_def split: prod.splits)
    then show ?thesis using set_peer_moves [OF assms(1) p] by auto
  qed
  then show "moves (core, rel) (core1, rel) {#}" "ifaces core1 = ifaces core" by simp_all
qed

lemma handler_defrag_moves:
  assumes "wf_core core" "inst < 4" "ifaces core ! inst = Some i"
  shows "moves (core, rel) (handler_defrag env room inst i b core, rel) {#skb_id b#}"
proof -
  let ?v = "handler_frag_env env room core i b"
  let ?c0 = "\<lparr>fx_frag = if_frag i, fx_out = [], fx_freed = []\<rparr> :: frag_ctx"
  define c where "c = skw_rx_defragment ?v b ?c0"
  have i: "inst < length (ifaces core)" "if_frag i \<noteq> []" "if_lmac_id i < 2"
    using assms nth_mem [of inst "ifaces core"] by (auto simp: wf_core_def iface_ok_def)
  have c: "fx_frag c \<noteq> []" "ids (fx_out c) + ids (fx_freed c) + ids (concat (map fe_skbs (fx_frag c))) =
      ids (concat (map fe_skbs (if_frag i))) + {#skb_id b#}"
    using defragment_table [of ?c0 ?v b] frag_load_defragment [of ?c0 ?v b] i(2)
    by (simp_all add: c_def frag_load_def)
  let ?n = "Some (i\<lparr>if_frag := fx_frag c\<rparr>)"
  have ld: "ids (concat (map iface_skbs ((ifaces core)[inst := ?n]))) + ids (concat (map fe_skbs (if_frag i))) =
      ids (concat (map iface_skbs (ifaces core))) + ids (concat (map fe_skbs (fx_frag c)))"
    using arg_cong [OF mset_concat_map_upd [OF i(1), of iface_skbs ?n], of "image_mset skb_id"] assms(3)
    by (simp add: iface_skbs_def)
  have "ids (concat (map iface_skbs ((ifaces core)[inst := ?n]))) + (ids (fx_out c) + ids (fx_freed c)) =
      ids (concat (map iface_skbs (ifaces core))) + {#skb_id b#}"
    using ld c(2) by (intro mset_cancel_mid [OF ld]) (simp add: ac_simps)
  moreover have "\<forall>x \<in> set ((ifaces core)[inst := ?n]). iface_ok x"
    using assms(1) c(1) i by (intro set_upd_ball) (auto simp: wf_core_def iface_ok_def)
  ultimately show ?thesis
    using assms(1)
    by (simp add: handler_defrag_def c_def [symmetric] Let_def moves_def)
       (simp add: wf_core_def valid_ref_def core_load_def core_skbs_def comp_def ac_simps)
qed

lemma handler_one_moves:
  assumes "wf_core core"
  shows "moves (core, []) (handler_one env room b core, []) {#skb_id b#}"
proof (cases "skw_created (skb_cb b)")
  case False
  let ?inst = "unat (inst_id (skb_desc b))"
  have inst: "?inst < 4" using unsigned_less [of "inst_id (skb_desc b)"] by simp
  show ?thesis
  proof (cases "ifaces core ! ?inst")
    case None
    then show ?thesis using False free_moves [OF assms, of "[]" "[b]"] by (simp add: handler_one_def)
  next
    case (Some i)
    obtain ret core1 where rp: "handler_replay i b core = (ret, core1)" by force
    have lm: "if_lmac_id i < 2"
      using assms Some inst nth_mem [of ?inst "ifaces core"] by (auto simp: wf_core_def iface_ok_def)
    note m1 = handler_replay_moves(1) [OF assms lm rp, of "[]"] handler_replay_moves(2) [OF assms lm rp]
    have wf1: "wf_core core1" using m1(1) by (simp add: moves_def)
    have "moves (core1, []) (free_skbs [b] core1, []) {#skb_id b#}"
      using free_moves [OF wf1, of "[]" "[b]"] by simp
    moreover have "moves (core1, []) (handler_defrag env room ?inst i b core1, []) {#skb_id b#}"
      using handler_defrag_moves [OF wf1 inst] Some m1(2) by simp
    ultimately show ?thesis
      using False Some rp moves_trans0(1) [OF m1(1)] by (simp add: handler_one_def)
  qed
qed (use free_moves [OF assms, of "[]" "[b]"] in \<open>simp add: handler_one_def\<close>)

lemma handler_moves:
  assumes "wf_core core"
  shows "moves (core, rel) (skw_rx_handler env room (core, rel), []) {#}"
proof -
  have "moves (core, []) (fold (handler_one env room) rel core, []) (ids rel)"
    using assms
  proof (induction rel arbitrary: core)
    case (Cons b rel)
    have m: "moves (core, []) (handler_one env room b core, []) {#skb_id b#}"
      by (rule handler_one_moves [OF Cons.prems])
    then have "wf_core (handler_one env room b core)" by (simp add: moves_def)
    from moves_trans [OF m Cons.IH [OF this]] show ?case by simp
  qed (simp add: moves_refl)
  then show ?thesis by (simp add: moves_def skw_rx_handler_def)
qed

lemma put_same_moves:
  assumes "wf_core core" "valid_ref core r" "tid_rx x = tid_rx (get_reorder core r)"
  shows "moves (core, rel) (put_reorder core r x, rel) {#}"
proof -
  have "sess_ok x" using wf_get_reorder(1) [OF assms(1,2)] assms(3) by (simp add: sess_ok_def)
  moreover have "core_load (put_reorder core r x) = core_load core"
    using load_put_reorder [OF assms(1,2), of x] assms(3) by (simp add: reorder_skbs_def)
  ultimately show ?thesis using assms(1,2)
    by (simp add: moves_def wf_put_reorder) (simp add: put_reorder_def)
qed

lemma moves_ref: "moves s s' n \<Longrightarrow> valid_ref (fst s) r \<Longrightarrow> valid_ref (fst s') r"
  by (simp add: moves_def valid_ref_def)

lemma todo_one_moves:
  assumes "wf_core core" "valid_ref core r"
  shows "moves (core, []) (todo_one env room r core, []) {#}"
proof -
  obtain core1 rel1 where s1: "on_session r (skw_reorder_force_release (todo_seq (get_reorder core r))) (core, [])
      = (core1, rel1)" by force
  have m1: "moves (core, []) (core1, rel1) {#}"
    using on_session_moves0 [OF assms conserves_ops(2)] s1 by metis
  then have c1: "wf_core core1" "valid_ref core1 r" using assms(2) by (simp_all add: moves_def valid_ref_def)
  let ?core2 = "put_reorder core1 r ((get_reorder core1 r)\<lparr>todo_actived := False\<rparr>)"
  have m2: "moves (core1, rel1) (?core2, rel1) {#}" using c1 by (intro put_same_moves) simp_all
  then have c2: "wf_core ?core2" "valid_ref ?core2 r" using c1(2) by (simp_all add: moves_def)
  obtain core3 rel3 where s3: "on_session r (skw_reorder_release env) (?core2, rel1) = (core3, rel3)" by force
  have m3: "moves (?core2, rel1) (core3, rel3) {#}"
    using on_session_moves0 [OF c2 conserves_ops(3)] s3 by metis
  then have "moves (core3, rel3) (skw_rx_handler env room (core3, rel3), []) {#}"
    by (intro handler_moves) (simp add: moves_def)
  from moves_trans0(1) [OF m1 moves_trans0(1) [OF m2 moves_trans0(1) [OF m3 this]]]
  show ?thesis by (simp add: todo_one_def s1 s3 Let_def)
qed

lemma fold_todo_moves:
  "wf_core core \<Longrightarrow> \<forall>r \<in> set rs. valid_ref core r \<Longrightarrow>
     moves (core, []) (fold (todo_one env room) rs core, []) {#}"
proof (induction rs arbitrary: core)
  case (Cons r rs)
  have m: "moves (core, []) (todo_one env room r core, []) {#}" using Cons.prems by (intro todo_one_moves) simp_all
  then have "wf_core (todo_one env room r core)" "\<forall>q \<in> set rs. valid_ref (todo_one env room r core) q"
    using Cons.prems(2) by (auto simp: moves_def valid_ref_def)
  from moves_trans0(1) [OF m Cons.IH [OF this]] show ?case by simp
qed (simp add: moves_refl)

lemma wf_lists:
  assumes "wf_core core"
  shows "\<forall>r \<in> set (items l). valid_ref core r \<Longrightarrow> wf_core (core\<lparr>rx_todo_list := l\<rparr>)"
    and "\<forall>l \<in> set ls. \<forall>r \<in> set (items l). valid_ref core r \<Longrightarrow> wf_core (core\<lparr>lmac_todo_list := ls\<rparr>)"
  using assms by (simp_all add: wf_core_def valid_ref_def)

lemma load_lists [simp]:
  "core_load (core\<lparr>rx_todo_list := l\<rparr>) = core_load core"
  "core_load (core\<lparr>lmac_todo_list := ls\<rparr>) = core_load core"
  by (simp_all add: core_load_def core_skbs_def)

lemma rx_todo_moves:
  assumes "wf_core core" "case sel of None \<Rightarrow> True | Some i \<Rightarrow> i < length (lmac_todo_list core)"
  shows "moves (core, []) (skw_rx_todo env room sel core, []) {#}"
proof -
  define l where "l = (case sel of None \<Rightarrow> rx_todo_list core | Some i \<Rightarrow> lmac_todo_list core ! i)"
  define core1 where "core1 = (case sel of None \<Rightarrow> core\<lparr>rx_todo_list := \<lparr>items = [], count = 0\<rparr>\<rparr>
     | Some i \<Rightarrow> core\<lparr>lmac_todo_list := (lmac_todo_list core)[i := \<lparr>items = [], count = 0\<rparr>]\<rparr>)"
  have valid: "\<forall>r \<in> set (items l). valid_ref core r"
    using assms nth_mem by (auto simp: l_def wf_core_def split: option.splits)
  have "\<forall>l \<in> set (lmac_todo_list core). \<forall>r \<in> set (items l). valid_ref core r"
    using assms(1) by (simp add: wf_core_def)
  then have "wf_core (core\<lparr>lmac_todo_list := (lmac_todo_list core)[i := \<lparr>items = [], count = 0\<rparr>]\<rparr>)" for i
    by (intro wf_lists(2) [OF assms(1)] set_upd_ball) simp_all
  then have wf1: "wf_core core1"
    using wf_lists(1) [OF assms(1)] by (simp add: core1_def split: option.split)
  have same: "length (peers core1) = length (peers core)" "core_load core1 = core_load core"
    "length (lmac_todo_list core1) = length (lmac_todo_list core)"
    by (simp_all add: core1_def split: option.splits)
  then have "moves (core1, []) (fold (todo_one env room) (items l) core1, []) {#}"
    using valid wf1 by (intro fold_todo_moves) (auto simp: valid_ref_def)
  then have "moves (core, []) (fold (todo_one env room) (items l) core1, []) {#}"
    using same by (simp add: moves_def)
  then show ?thesis
    using moves_refl [of "(core, [])"] assms(1)
    by (simp add: skw_rx_todo_def Let_def l_def [symmetric] core1_def [symmetric])
qed

lemma timeout_moves:
  assumes "wf_core core" "valid_ref core r"
  shows "moves (core, []) (skw_reorder_timeout r core, []) {#}"
proof -
  have put: "moves (core, []) (put_reorder core r x, []) {#}"
    if "tid_rx x = tid_rx (get_reorder core r)" for x
    using put_same_moves [OF assms that] .
  have add: "moves (core, []) ((put_reorder core r x)\<lparr>rx_todo_list := skw_list_add r (rx_todo_list (put_reorder core r x))\<rparr>, []) {#}"
    if "tid_rx x = tid_rx (get_reorder core r)" for x
  proof -
    let ?c = "put_reorder core r x"
    have c: "wf_core ?c" "valid_ref ?c r" using put [OF that] assms(2) by (simp_all add: moves_def)
    then have "wf_core (?c\<lparr>rx_todo_list := skw_list_add r (rx_todo_list ?c)\<rparr>)"
      by (intro wf_lists) (auto simp: skw_list_add_def wf_core_def)
    then show ?thesis using put [OF that] by (simp add: moves_def)
  qed
  show ?thesis by (simp add: skw_reorder_timeout_def Let_def put add)
qed

lemma todo_add_moves:
  "wf_core core \<Longrightarrow> valid_ref core r \<Longrightarrow> moves (core, rel) (todo_add r core, rel) {#}"
  by (simp add: moves_def wf_todo_add) (simp add: todo_add_def Let_def)

lemma update_tid_moves:
  assumes "wf_core core" "valid_ref core r"
  shows "moves (core, []) (snd (skw_update_tid_rx r ssn core), []) {#}"
proof -
  have put: "moves (core, []) (put_reorder core r x, []) {#}"
    if "tid_rx x = tid_rx (get_reorder core r)" for x
    using put_same_moves [OF assms that] .
  have add: "moves (core, []) (todo_add r (put_reorder core r x), []) {#}"
    if "tid_rx x = tid_rx (get_reorder core r)" for x
    using put [OF that] assms(2) by (intro moves_trans0(1) [OF put [OF that]] todo_add_moves) (simp_all add: moves_def)
  show ?thesis
    using moves_refl [of "(core, [])"] assms(1)
    by (simp add: skw_update_tid_rx_def Let_def put add)
qed

text \<open>A block-ack size whose doubled window fits the 16-bit field.\<close>

definition ba_size_fits :: "u16 \<Rightarrow> bool" where
  "ba_size_fits n \<longleftrightarrow> unat n < 32768"

lemma new_tid_buf_ok:
  assumes "ba_size_fits n"
  shows "buf_ok (new_tid_rx ssn n ref)"
proof -
  define m where "m = (if 64 < n then ucast n else 64 :: u32)"
  have m: "0 < unat m" "unat m < 32768"
    using assms by (auto simp: m_def ba_size_fits_def unsigned_ucast_eq take_bit_nat_eq_self word_less_nat_alt)
  have w: "unat (rx_win_sz n) = 2 * unat m"
    using m by (simp add: rx_win_sz_def m_def [symmetric] push_bit_eq_mult unat_word_ariths)
  have "unat (ucast (rx_win_sz n) :: u16) = unat (rx_win_sz n)"
    using m w by (simp add: unsigned_ucast_eq take_bit_nat_eq_self)
  then show ?thesis using m w by (simp add: buf_ok_def new_tid_rx_def)
qed

lemma add_tid_moves:
  assumes "wf_core core" "valid_ref core r" "ba_size_fits n"
  shows "moves (core, []) (snd (skw_add_tid_rx ok1 ok2 r ssn n core), []) {#}"
proof -
  have new: "moves (core, []) (put_reorder core r x, []) {#}"
    if "tid_rx (get_reorder core r) = None" "tid_rx x = Some (new_tid_rx ssn n (ref_cnt (get_reorder core r)))" for x
  proof -
    have "sess_ok x" using new_tid_buf_ok [OF assms(3)] that by (simp add: sess_ok_def)
    moreover have "core_load (put_reorder core r x) = core_load core"
      using load_put_reorder [OF assms(1,2), of x] that by (simp add: reorder_skbs_def new_tid_rx_def)
    ultimately show ?thesis using assms(1,2)
      by (simp add: moves_def wf_put_reorder) (simp add: put_reorder_def)
  qed
  show ?thesis
    using moves_refl [of "(core, [])"] update_tid_moves [OF assms(1,2)] assms(1)
    by (auto simp: skw_add_tid_rx_def Let_def intro!: new)
qed

lemma todo_del_moves:
  assumes "wf_core core"
  shows "moves (core, []) (todo_del r core, []) {#}" "peers (todo_del r core) = peers core"
proof -
  let ?l1 = "unlink r (rx_todo_list core)" and ?ls = "map (unlink r) (lmac_todo_list core)"
  let ?k = "pr_lmac (peers core ! fst r)"
  let ?core1 = "core\<lparr>rx_todo_list := ?l1, lmac_todo_list := ?ls\<rparr>"
  have items: "items (skw_list_del l) = items l" "items (unlink r l) = filter (\<lambda>x. x \<noteq> r) (items l)" for l
    by (simp_all add: skw_list_del_def unlink_def)
  have "wf_core (core\<lparr>rx_todo_list := ?l1\<rparr>)"
    using assms by (intro wf_lists) (auto simp: wf_core_def items)
  moreover have "\<forall>l \<in> set ?ls. \<forall>r \<in> set (items l). valid_ref core r"
    using assms by (auto simp: wf_core_def items)
  ultimately have wf1: "wf_core ?core1" by (simp add: wf_core_def valid_ref_def)
  have ok: "\<forall>l \<in> set ?ls. \<forall>r \<in> set (items l). valid_ref ?core1 r" "\<forall>r \<in> set (items ?l1). valid_ref ?core1 r"
    using wf1 by (simp_all add: wf_core_def)
  have "\<forall>l \<in> set (?ls[?k := skw_list_del (?ls ! ?k)]). \<forall>r \<in> set (items l). valid_ref ?core1 r"
  proof (cases "?k < length ?ls")
    case True
    have "\<forall>r \<in> set (items (?ls ! ?k)). valid_ref ?core1 r" using bspec [OF ok(1) nth_mem [OF True]] .
    then have "\<forall>r \<in> set (items (skw_list_del (?ls ! ?k))). valid_ref ?core1 r" by (simp only: items(1))
    then show ?thesis by (rule set_upd_ball [OF ok(1)])
  qed (use ok(1) in \<open>simp add: list_update_beyond\<close>)
  from wf_lists(2) [OF wf1 this] wf_lists(1) [OF wf1, of "skw_list_del ?l1"] ok(2)
  show "moves (core, []) (todo_del r core, []) {#}"
    by (auto simp: todo_del_def Let_def moves_def items core_load_def core_skbs_def)
  show "peers (todo_del r core) = peers core" by (simp add: todo_del_def Let_def)
qed

lemma wf_rcu:
  "wf_core core \<Longrightarrow> \<forall>x \<in> set q. valid_ref core (fst x) \<and> buf_ok (snd x) \<Longrightarrow> wf_core (core\<lparr>rcu_q := q\<rparr>)"
  by (simp add: wf_core_def valid_ref_def)

lemma del_tid_moves:
  assumes "wf_core core" "valid_ref core r"
  shows "moves (core, []) (snd (skw_del_tid_rx r core), []) {#}"
proof -
  let ?x = "get_reorder core r"
  define core1 where "core1 = (if tid_rx ?x \<noteq> None \<and> queued r core then todo_del r core else core)"
  have m1: "moves (core, []) (core1, []) {#}" "peers core1 = peers core"
    using assms(1) moves_refl [of "(core, [])"] by (simp_all add: core1_def todo_del_moves)
  then have c1: "wf_core core1" "valid_ref core1 r" "get_reorder core1 r = ?x"
    using assms(2) by (simp_all add: moves_def valid_ref_def get_reorder_def)
  let ?x' = "?x\<lparr>tid_rx := None, ref_cnt := ref_cnt ?x + 1, timer := None\<rparr>"
  let ?core2 = "put_reorder core1 r ?x'"
  have wf2: "wf_core ?core2" using c1(1,2) by (intro wf_put_reorder) (simp_all add: sess_ok_def)
  have ld2: "core_load ?core2 + ids (reorder_skbs ?x) = core_load core1"
    using load_put_reorder [OF c1(1,2), of ?x'] c1(3) by (simp add: reorder_skbs_def)
  have len: "length (peers ?core2) = length (peers core1)" by (simp add: put_reorder_def)
  have "moves (core1, []) (case tid_rx ?x of None \<Rightarrow> ?core2
      | Some t \<Rightarrow> ?core2\<lparr>rcu_q := rcu_q ?core2 @ [(r, t)]\<rparr>, []) {#}"
  proof (cases "tid_rx ?x")
    case None
    then show ?thesis using wf2 ld2 len by (simp add: moves_def reorder_skbs_def)
  next
    case (Some t)
    have "buf_ok t" using wf_get_reorder(1) [OF assms] Some by (simp add: sess_ok_def)
    then have "wf_core (?core2\<lparr>rcu_q := rcu_q ?core2 @ [(r, t)]\<rparr>)"
      using wf2 c1(2) by (intro wf_rcu) (auto simp: wf_core_def)
    moreover have "core_load (?core2\<lparr>rcu_q := rcu_q ?core2 @ [(r, t)]\<rparr>) = core_load core1"
      using ld2 Some by (simp add: core_load_def core_skbs_def reorder_skbs_def ac_simps)
    ultimately show ?thesis using Some len by (simp add: moves_def)
  qed
  from moves_trans0(1) [OF m1(1) this] show ?thesis
    by (simp only: skw_del_tid_rx_def Let_def snd_conv core1_def [symmetric])
qed

lemma force_loop_r [simp]: "cx_r (force_release_loop to_sn target c) = cx_r c"
  by (induction to_sn target c rule: force_release_loop.induct)
     (subst force_release_loop.simps, simp)

lemma force_release_tid: "tid_rx (cx_r (skw_reorder_force_release s c)) = tid_rx (cx_r c)"
  by (simp add: skw_reorder_force_release_def Let_def del_timer_def)

lemma free_tid_moves:
  assumes "wf_core core"
  shows "moves (core, []) (skw_free_tid_rx env room core, []) {#}"
proof (cases "rcu_q core")
  case (Cons e q)
  obtain r t where e: "e = (r, t)" by (cases e) blast
  have rt: "valid_ref core r" "buf_ok t" using assms Cons e by (simp_all add: wf_core_def)
  let ?x = "get_reorder core r"
  let ?c0 = "\<lparr>cx_r = ?x, cx_t = t, cx_rel = [], cx_freed = [], cx_kick = False\<rparr> :: reorder_ctx"
  define c where "c = skw_reorder_force_release (ieee80211_sn_add (win_start t) (win_size t - 1)) ?c0"
  have ldc: "ids (cx_rel c) + ids (cx_freed c) + ids (concat (reorder_buf (cx_t c))) = ids (concat (reorder_buf t))"
    using force_release_safe(2) [of ?c0] rt(2) by (simp add: c_def ctx_load_def)
  let ?core0 = "core\<lparr>rcu_q := q\<rparr>"
  have c0: "wf_core ?core0" "valid_ref ?core0 r" "tid_rx (cx_r c) = tid_rx (get_reorder ?core0 r)"
    using assms rt(1) Cons
    by (auto simp: wf_core_def valid_ref_def c_def force_release_tid get_reorder_def)
  have ld0: "core_load ?core0 + ids (concat (reorder_buf t)) = core_load core"
    using Cons e by (simp add: core_load_def core_skbs_def ac_simps)
  let ?core1 = "free_skbs (cx_freed c) (put_reorder ?core0 r (cx_r c))"
  have m1: "moves (?core0, cx_rel c) (put_reorder ?core0 r (cx_r c), cx_rel c) {#}"
    by (rule put_same_moves [OF c0])
  then have m2: "moves (?core0, cx_rel c) (?core1, cx_rel c) (ids (cx_freed c))"
    by (intro moves_trans0(1) [OF m1] free_moves) (simp add: moves_def)
  let ?core2 = "skw_rx_handler env room (?core1, cx_rel c)"
  have "moves (?core0, cx_rel c) (?core2, []) (ids (cx_freed c))"
    using m2 by (intro moves_trans0(2) [OF m2] handler_moves) (simp add: moves_def)
  then have m3: "wf_core ?core2" "length (peers ?core2) = length (peers core) \<and>
      length (lmac_todo_list ?core2) = length (lmac_todo_list core)"
    "core_load ?core2 = core_load ?core0 + (ids (cx_rel c) + ids (cx_freed c))" by (simp_all add: moves_def ac_simps)
  have "wf_core (?core2\<lparr>leaked := leaked ?core2 @ concat (reorder_buf (cx_t c))\<rparr>)"
    using m3(1) by (simp add: wf_core_def valid_ref_def)
  moreover have "core_load (?core2\<lparr>leaked := leaked ?core2 @ concat (reorder_buf (cx_t c))\<rparr>) = core_load core"
    using m3(3) ldc ld0 [symmetric] by (simp add: core_load_def core_skbs_def ac_simps)
  ultimately show ?thesis using Cons e m3(2)
    by (simp add: skw_free_tid_rx_def c_def [symmetric] Let_def moves_def)
qed (simp add: skw_free_tid_rx_def moves_refl assms)

text \<open>Moves in which the driver may add buffers of its own, with identities from \<open>A\<close>.\<close>

definition moves_new :: "skw_core \<Rightarrow> skw_core \<Rightarrow> nat multiset \<Rightarrow> nat set \<Rightarrow> bool" where
  "moves_new core core' n A \<longleftrightarrow> (\<exists>m. set_mset m \<subseteq> A \<and> moves (core, []) (core', []) (n + m))"

lemma moves_newI: "moves (core, []) (core', []) n \<Longrightarrow> moves_new core core' n A"
  by (auto simp: moves_new_def intro!: exI [of _ "{#}"])

lemma moves_new_trans:
  assumes "moves_new a b m A" "moves_new b c n B"
  shows "moves_new a c (m + n) (A \<union> B)"
proof -
  from assms obtain k l where "set_mset k \<subseteq> A" "moves (a, []) (b, []) (m + k)"
    "set_mset l \<subseteq> B" "moves (b, []) (c, []) (n + l)" by (auto simp: moves_new_def)
  moreover from moves_trans [OF this(2,4)] have "moves (a, []) (c, []) (m + n + (k + l))"
    by (simp add: ac_simps)
  ultimately show ?thesis unfolding moves_new_def by (intro exI [of _ "k + l"]) auto
qed

lemma moves_new_wf: "moves_new a b m A \<Longrightarrow> wf_core b"
  by (auto simp: moves_new_def moves_def)

lemma moves_new_len: "moves_new a b m A \<Longrightarrow> length (lmac_todo_list b) = length (lmac_todo_list a)"
  by (auto simp: moves_new_def moves_def)

lemma moves_new_add:
  "moves_new a b {#} A \<Longrightarrow> moves (b, []) (c, []) n \<Longrightarrow> moves_new a c n A"
  using moves_new_trans [of a b "{#}" A c n "{}"] by (simp add: moves_newI)

text \<open>A frame through reorder buffer and handler.\<close>

lemma reorder_handler_moves:
  assumes "wf_core core" "unat (lmac_id (skb_cb b)) < 2"
  shows "moves (core, []) (skw_rx_handler env room (skw_ampdu_reorder env b (core, [])), []) {#skb_id b#}"
proof -
  obtain core1 rel1 where s: "skw_ampdu_reorder env b (core, []) = (core1, rel1)" by force
  have m: "moves (core, []) (core1, rel1) {#skb_id b#}" using ampdu_reorder_moves [OF assms, of "[]" env] s by simp
  then have "moves (core1, rel1) (skw_rx_handler env room (core1, rel1), []) {#}"
    by (intro handler_moves) (simp add: moves_def)
  from moves_trans0(2) [OF m this] show ?thesis by (simp add: s)
qed

lemma drop_loop_moves:
  "wf_core core \<Longrightarrow> moves_new core (drop_info_loop env room alloc i n bs core) {#} {k. \<exists>j. alloc j = Some k}"
proof (induction n arbitrary: i bs core)
  case (Suc n)
  let ?A = "{k. \<exists>j. alloc j = Some k}"
  let ?di = "drop_sn_info_of bs"
  define core1 where "core1 = (if \<not> di_qos ?di then core else case alloc i of None \<Rightarrow> core
     | Some k \<Rightarrow> skw_rx_handler env room (skw_ampdu_reorder env (drop_placeholder env k ?di) (core, [])))"
  have m1: "moves_new core core1 {#} ?A"
  proof (cases "di_qos ?di \<and> alloc i \<noteq> None")
    case True
    then obtain k where k: "alloc i = Some k" by auto
    have "moves (core, []) (core1, []) {#k#}"
      using reorder_handler_moves [OF Suc.prems, of "drop_placeholder env k ?di" env room] True k
      by (simp add: core1_def drop_placeholder_def)
    then show ?thesis using k unfolding moves_new_def by (intro exI [of _ "{#k#}"]) auto
  next
    case False
    then have "core1 = core" by (auto simp: core1_def)
    then show ?thesis using Suc.prems by (simp add: moves_newI moves_refl)
  qed
  from moves_new_trans [OF m1 Suc.IH [OF moves_new_wf [OF m1]]] show ?case
    by (simp add: core1_def Let_def)
qed (simp add: moves_newI moves_refl)

lemma drop_info_moves:
  assumes "wf_core core"
  shows "moves_new core (skw_rx_handler_drop_info env room alloc b off core) {#} {k. \<exists>j. alloc j = Some k}"
  using assms drop_loop_moves fault_moves [of core "[]"] moves_refl [of "(core, [])"]
  by (simp add: skw_rx_handler_drop_info_def Let_def moves_newI)

lemma skb_trim_keep [simp]:
  "skb_id (skb_trim n b) = skb_id b" "skb_cb (skb_trim n b) = skb_cb b"
  by (simp_all add: skb_trim_def)

lemma skb_pull_cb [simp]: "skb_cb (skb_pull n b) = skb_cb b"
  by (simp add: skb_pull_def)

section \<open>Runs of the receive path\<close>

text \<open>
  The operations that reach the receive path: a buffer from the bus, the to-do list, the timer,
  the three session commands, and the callback of a closed session.
\<close>

datatype rx_op =
    Rx_Data rx_env "sk_buff \<Rightarrow> bool" rx_desc_offsets "nat option" "sk_buff \<Rightarrow> bool" "nat \<Rightarrow> nat option" sk_buff
  | Rx_Todo rx_env "sk_buff \<Rightarrow> bool" "nat option"
  | Rx_Timeout rref
  | Rx_Add bool bool rref u16 u16
  | Rx_Update rref u16
  | Rx_Del rref
  | Rx_Free rx_env "sk_buff \<Rightarrow> bool"

fun rx_step :: "rx_op \<Rightarrow> skw_core \<Rightarrow> skw_core" where
  "rx_step (Rx_Data env room off sel sniff alloc b) core = data_one env room off sel sniff alloc b core"
| "rx_step (Rx_Todo env room sel) core = skw_rx_todo env room sel core"
| "rx_step (Rx_Timeout r) core = skw_reorder_timeout r core"
| "rx_step (Rx_Add ok1 ok2 r ssn n) core = snd (skw_add_tid_rx ok1 ok2 r ssn n core)"
| "rx_step (Rx_Update r ssn) core = snd (skw_update_tid_rx r ssn core)"
| "rx_step (Rx_Del r) core = snd (skw_del_tid_rx r core)"
| "rx_step (Rx_Free env room) core = skw_free_tid_rx env room core"

definition sel_ok :: "nat option \<Rightarrow> skw_core \<Rightarrow> bool" where
  "sel_ok sel core \<longleftrightarrow> (case sel of None \<Rightarrow> True | Some i \<Rightarrow> i < length (lmac_todo_list core))"

text \<open>
  What the callers guarantee: lower MAC and session numbers in range, and a block-ack size that
  fits the window field.
\<close>

fun op_ok :: "rx_op \<Rightarrow> skw_core \<Rightarrow> bool" where
  "op_ok (Rx_Data env room off sel sniff alloc b) core = (unat (lmac_id (skb_cb b)) < 2 \<and> sel_ok sel core)"
| "op_ok (Rx_Todo env room sel) core = sel_ok sel core"
| "op_ok (Rx_Timeout r) core = valid_ref core r"
| "op_ok (Rx_Add ok1 ok2 r ssn n) core = (valid_ref core r \<and> ba_size_fits n)"
| "op_ok (Rx_Update r ssn) core = valid_ref core r"
| "op_ok (Rx_Del r) core = valid_ref core r"
| "op_ok (Rx_Free env room) core = True"

fun op_in :: "rx_op \<Rightarrow> nat multiset" where
  "op_in (Rx_Data env room off sel sniff alloc b) = {#skb_id b#}"
| "op_in _ = {#}"

fun op_new :: "rx_op \<Rightarrow> nat set" where
  "op_new (Rx_Data env room off sel sniff alloc b) = {k. \<exists>j. alloc j = Some k}"
| "op_new _ = {}"

lemma data_one_moves:
  assumes "wf_core core" "unat (lmac_id (skb_cb b)) < 2" "sel_ok sel core"
  shows "moves_new core (data_one env room off sel sniff alloc b core) {#skb_id b#} {k. \<exists>j. alloc j = Some k}"
proof -
  let ?A = "{k. \<exists>j. alloc j = Some k}"
  let ?d = "skb_desc b" and ?b1 = "skb_pull (hdr_offset off) b"
  define mo where "mo = int (unat (msdu_offset ?d)) - int (desc_msdu_offset off) - int (hdr_offset off)"
  define b2 where "b2 = (if mo < 0 then ?b1 else skb_pull (nat mo) ?b1)"
  define b3 where "b3 = b2\<lparr>skb_cb := (skb_cb b2)\<lparr>rx_desc_offset := word_of_int mo, rx_time := jiffies env\<rparr>\<rparr>"
  define len where "len = data_msdu_len core ?d"
  define core1 where "core1 = (if mac_drop_frag ?d then skw_rx_handler_drop_info env room alloc b3
     ((len + unat (msdu_offset ?d) + 3) div 4 * 4 - unat (msdu_offset ?d)) core else core)"
  have id3: "skb_id b3 = skb_id b" "lmac_id (skb_cb b3) = lmac_id (skb_cb b)"
    by (simp_all add: b3_def b2_def)
  have m1: "moves_new core core1 {#} ?A"
    using drop_info_moves [OF assms(1)] moves_refl [of "(core, [])"] assms(1)
    by (simp add: core1_def moves_newI)
  let ?core2 = "skw_rx_handler env room (skw_ampdu_reorder env (skb_trim len b3) (core1, []))"
  have m2: "moves (core1, []) (?core2, []) {#skb_id b#}"
    using reorder_handler_moves [OF moves_new_wf [OF m1], of "skb_trim len b3"] assms(2) id3 by simp
  have "moves (?core2, []) (skw_rx_todo env room sel ?core2, []) {#}"
    using m2 moves_new_len [OF m1] assms(3)
    by (intro rx_todo_moves) (auto simp: moves_def sel_ok_def split: option.splits)
  from moves_new_add [OF m1 moves_trans0(2) [OF m2 this]]
  have normal: "moves_new core (skw_rx_todo env room sel ?core2) {#skb_id b#} ?A" .
  have free: "moves_new core (free_skbs [?b1] core) {#skb_id b#} ?A"
    using free_moves [OF assms(1), of "[]" "[?b1]"] by (simp add: moves_newI)
  have mon: "moves_new core (core\<lparr>monitored := monitored core @ [b]\<rparr>) {#skb_id b#} ?A"
    using assms(1) by (intro moves_newI) (simp add: moves_def wf_core_def valid_ref_def core_load_def core_skbs_def)
  have "data_one env room off sel sniff alloc b core =
      (if is_skw_monitor_data (bus core) (sniff b) then core\<lparr>monitored := monitored core @ [b]\<rparr>
       else if SKW_NR_TID \<le> unat (tid ?d) then free_skbs [?b1] core
       else skw_rx_todo env room sel ?core2)"
    by (simp only: data_one_def Let_def mo_def b2_def b3_def len_def core1_def)
  with normal free mon show ?thesis by simp
qed

lemma rx_step_moves:
  assumes "wf_core core" "op_ok op core"
  shows "moves_new core (rx_step op core) (op_in op) (op_new op)"
  using assms
  by (cases op) (auto simp: sel_ok_def data_one_moves intro!: moves_newI rx_todo_moves timeout_moves
      add_tid_moves update_tid_moves del_tid_moves free_tid_moves)

interpretation rx_path: inv_machine rx_step wf_core op_ok
  by unfold_locales (rule moves_new_wf [OF rx_step_moves])

lemma rx_run_moves:
  "wf_core core \<Longrightarrow> guarded_run op_ok rx_step ops core \<Longrightarrow>
     moves_new core (fold rx_step ops core) (\<Sum>op \<leftarrow> ops. op_in op) (\<Union> (op_new ` set ops))"
proof (induction ops arbitrary: core)
  case (Cons op ops)
  have m: "moves_new core (rx_step op core) (op_in op) (op_new op)"
    using Cons.prems by (intro rx_step_moves) simp_all
  from moves_new_trans [OF m Cons.IH [OF moves_new_wf [OF m]]] Cons.prems(2) show ?case by simp
qed (simp add: moves_newI moves_refl)

section \<open>Properties\<close>

definition ex_reorder :: skw_reorder_rx where
  "ex_reorder = \<lparr>ref_cnt = 0, timer = None, expired_sn = 0, expired_ref_cnt = 0, todo_seq = 0,
     todo_reason = SKW_RELEASE_INVALID, todo_actived = False, tid_rx = None\<rparr>"

definition ex_peer :: skw_peer where
  "ex_peer = \<lparr>pr_idx = 0, pr_lmac = 0, rx_filter = 0, rx_bytes = 0, rx_pkts = 0,
     ptk_conf = ex_key_conf, reorder = replicate 8 ex_reorder\<rparr>"

definition ex_peer_ctxs :: "skw_peer_ctx list" where
  "ex_peer_ctxs = \<lparr>ctx_peer = Some 0, ctx_entry = Some 0\<rparr> # replicate 31 \<lparr>ctx_peer = None, ctx_entry = None\<rparr>"

definition ex_core :: "skw_bus \<Rightarrow> skw_core" where
  "ex_core bs = \<lparr>bus = bs, fw_pn_reuse = False, rx_reorder_flag = True,
     ifaces = [Some \<lparr>if_lmac_id = 0, if_cipher = SKW_CIPHER_TYPE_CCMP, if_frag = frag_table_init\<rparr>,
               None, None, None],
     peer_ctx = [ex_peer_ctxs, ex_peer_ctxs], peers = [ex_peer],
     rx_todo_list = \<lparr>items = [], count = 0\<rparr>, lmac_todo_list = replicate 2 \<lparr>items = [], count = 0\<rparr>,
     rcu_q = [], delivered = [], monitored = [], core_freed = [], leaked = [], fault = False\<rparr>"

lemma ex_core_wf: "wf_core (ex_core bs)"
  by (simp add: wf_core_def ex_core_def peer_ok_def ex_peer_def ex_reorder_def sess_ok_def ctxs_ok_def
      ex_peer_ctxs_def addr_ok_def iface_ok_def frag_table_init_def SKW_NR_TID_def)

text \<open>
  C1. The receive path neither loses nor duplicates a buffer: over any sequence of bus buffers,
  to-do runs, timer expiries, session commands and session callbacks, every buffer that came
  in is afterwards in exactly one place (delivered, handed to the monitor, freed, leaked,
  stored in a reorder buffer or a fragment table, or waiting in a closed session); the only
  additions are the placeholders the driver allocates for reported drops.
\<close>

theorem rx_path_conserves:
  assumes "wf_core core" and "guarded_run op_ok rx_step ops core"
  shows "\<exists>m. set_mset m \<subseteq> (\<Union>op \<in> set ops. op_new op) \<and>
    core_load (fold rx_step ops core) = core_load core + (\<Sum>op \<leftarrow> ops. op_in op) + m"
proof -
  obtain m where "set_mset m \<subseteq> (\<Union>op \<in> set ops. op_new op)"
    "moves (core, []) (fold rx_step ops core, []) ((\<Sum>op \<leftarrow> ops. op_in op) + m)"
    using rx_run_moves [OF assms] by (auto simp: moves_new_def)
  then show ?thesis by (intro exI [of _ m]) (simp add: moves_def ac_simps)
qed

theorem rx_path_conserves_witness:
  "\<exists>m. set_mset m \<subseteq> (\<Union>op \<in> set [Rx_Add True True (0, 3) 300 64, Rx_Del (0, 3)]. op_new op) \<and>
     core_load (fold rx_step [Rx_Add True True (0, 3) 300 64, Rx_Del (0, 3)] (ex_core SKW_BUS_SDIO)) =
     core_load (ex_core SKW_BUS_SDIO) + (\<Sum>op \<leftarrow> [Rx_Add True True (0, 3) 300 64, Rx_Del (0, 3)]. op_in op) + m"
  by (rule rx_path_conserves [OF ex_core_wf])
     (simp add: valid_ref_def ex_core_def ba_size_fits_def SKW_NR_TID_def skw_add_tid_rx_def
       get_reorder_def put_reorder_def Let_def ex_peer_def ex_reorder_def)

text \<open>
  C35. The data structures of the receive path stay well formed over any such sequence: every
  session's array matches its window, every address points at a peer, and every entry of a
  to-do list names an existing session slot.
\<close>

theorem rx_path_well_formed:
  assumes "wf_core core" and "guarded_run op_ok rx_step ops core"
  shows "wf_core (fold rx_step ops core)"
  by (rule rx_path.run_invar [OF assms])

theorem rx_path_well_formed_witness:
  "wf_core (fold rx_step [Rx_Add True True (0, 3) 300 64, Rx_Timeout (0, 3)] (ex_core SKW_BUS_PCIE))"
  by (rule rx_path_well_formed [OF ex_core_wf])
     (simp add: valid_ref_def ex_core_def ba_size_fits_def SKW_NR_TID_def skw_add_tid_rx_def
       get_reorder_def put_reorder_def Let_def ex_peer_def ex_reorder_def)

lemma handler_one_leaked [simp]: "leaked (handler_one env room b core) = leaked core"
  by (auto simp: handler_one_def handler_replay_def handler_defrag_def free_skbs_def Let_def
      split: option.splits prod.splits)

lemma handler_leaked [simp]: "leaked (skw_rx_handler env room (core, rel)) = leaked core"
  unfolding skw_rx_handler_def by (induction rel arbitrary: core) simp_all

text \<open>
  Ending a closed session leaks nothing: when the session satisfies the window invariant, the
  callback releases or frees every frame before the array goes.
\<close>

theorem session_end_leaks_nothing:
  assumes "rcu_q core = (r, t) # q" and "reorder_inv t"
  shows "leaked (skw_free_tid_rx env room core) = leaked core"
proof -
  let ?c0 = "\<lparr>cx_r = get_reorder core r, cx_t = t, cx_rel = [], cx_freed = [], cx_kick = False\<rparr> :: reorder_ctx"
  have "concat (reorder_buf (cx_t (skw_reorder_force_release
      (ieee80211_sn_add (win_start t) (win_size t - 1)) ?c0))) = []"
    using flush_empties [of ?c0] assms(2) by (simp only: concat_eq_Nil_conv) simp
  then show ?thesis
    using assms(1) by (simp add: skw_free_tid_rx_def Let_def free_skbs_def put_reorder_def)
qed

theorem session_end_leaks_nothing_witness:
  "leaked (skw_free_tid_rx \<lparr>jiffies = 0, reorder_timeout = 100\<rparr> (\<lambda>b. True)
     ((ex_core SKW_BUS_SDIO)\<lparr>rcu_q := [((0, 1), new_tid_rx 4090 64 0)]\<rparr>)) = []"
proof -
  have "reorder_inv (new_tid_rx 4090 64 0)" by (rule new_tid_rx_inv) (simp_all add: ba_size_ok_def)
  from session_end_leaks_nothing [OF _ this, of "(ex_core SKW_BUS_SDIO)\<lparr>rcu_q := [((0, 1), new_tid_rx 4090 64 0)]\<rparr>"]
  show ?thesis by (simp add: ex_core_def)
qed

text \<open>
  A session command answers every case: with a session open it asks for a forced release up to
  the new start and reports success; without one it opens a session at the given start with
  an empty window, or reports lack of memory and changes nothing.
\<close>

theorem add_session_cases:
  assumes "wf_core core" and "valid_ref core r"
  shows "(case tid_rx (get_reorder core r) of
      Some t \<Rightarrow> skw_add_tid_rx ok1 ok2 r ssn n core = skw_update_tid_rx r ssn core \<and>
        tid_rx (get_reorder (snd (skw_update_tid_rx r ssn core)) r) = Some t \<and>
        todo_seq (get_reorder (snd (skw_update_tid_rx r ssn core)) r) = ssn \<and>
        todo_actived (get_reorder (snd (skw_update_tid_rx r ssn core)) r)
    | None \<Rightarrow>
        if ok1 \<and> ok2
        then fst (skw_add_tid_rx ok1 ok2 r ssn n core) = 0 \<and>
             tid_rx (get_reorder (snd (skw_add_tid_rx ok1 ok2 r ssn n core)) r) =
               Some (new_tid_rx ssn n (ref_cnt (get_reorder core r)))
        else skw_add_tid_rx ok1 ok2 r ssn n core = (- ENOMEM, core))"
proof -
  have todo: "get_reorder (todo_add r core') r = get_reorder core' r" for core'
    by (simp add: get_reorder_def todo_add_def Let_def)
  show ?thesis
    using assms
    by (simp add: skw_add_tid_rx_def skw_update_tid_rx_def Let_def todo get_put_reorder split: option.split)
qed

theorem add_session_cases_witness:
  "tid_rx (get_reorder (snd (skw_add_tid_rx True True (0, 3) 300 64 (ex_core SKW_BUS_USB))) (0, 3)) =
     Some (new_tid_rx 300 64 0)"
  using add_session_cases [OF ex_core_wf, of SKW_BUS_USB "(0, 3)" True True 300 64]
  by (simp add: valid_ref_def ex_core_def SKW_NR_TID_def get_reorder_def ex_peer_def ex_reorder_def)

section \<open>Where the receive path does not do what it is meant to\<close>

text \<open>
  On PCIe an expired reorder timer queues the session on the list of the core, while the poll
  routine works on the list of its lower MAC: that list is unchanged, and a poll finds
  nothing to do.
\<close>

theorem pcie_timeout_unseen:
  assumes "count (lmac_todo_list core ! l) = 0"
  shows "skw_rx_todo env room (Some l) (skw_reorder_timeout r core) = skw_reorder_timeout r core"
proof -
  have "lmac_todo_list (skw_reorder_timeout r core) = lmac_todo_list core"
    by (simp add: skw_reorder_timeout_def Let_def put_reorder_def)
  then show ?thesis using assms by (simp add: skw_rx_todo_def Let_def)
qed

text \<open>On the second-generation SDIO and USB buses every frame is taken for monitor data.\<close>

theorem new_buses_all_monitor:
  "bus core \<in> {SKW_BUS_SDIO2, SKW_BUS_USB2} \<Longrightarrow>
     data_one env room off sel sniff alloc b core = core\<lparr>monitored := monitored core @ [b]\<rparr>"
  by (auto simp: data_one_def is_skw_monitor_data_def)

text \<open>
  The guard on a drop report forgets the four bytes of the count: a report of eight bytes that
  announces one entry is read four bytes past its end.
\<close>

theorem drop_report_overread:
  "skb_data b = [1, 0, 0, 0, 5, 6, 7, 8] \<Longrightarrow> fault (skw_rx_handler_drop_info env room alloc b 0 core)"
  by (simp add: skw_rx_handler_drop_info_def Let_def)

text \<open>
  The traffic identifier of a drop report is not checked: an entry with identifier 15 indexes
  the array of eight sessions out of bounds.
\<close>

theorem drop_report_tid_overrun:
  "fault (skw_rx_handler_drop_info \<lparr>jiffies = 0, reorder_timeout = 100\<rparr> (\<lambda>b. True) (\<lambda>i. Some 9)
     (ex_frag_frame 1 0 False 1 0 [1, 0, 0, 0, 5, 0, 0, 0xF8, 0, 0, 0, 0]) 0 (ex_core SKW_BUS_SDIO))"
  by code_simp

end
