(* ===== verification/Skw_Ba.thy ===== *)
theory Skw_Ba
  imports Skw_Work Rx_Session_Props
begin

text \<open>
  Block-ack sessions: the request of a session for outgoing frames (\<open>skw_setup_txba\<close> of \<^verbatim>\<open>skw_core.c\<close>) and the
  firmware's reports (\<open>skw_event_ba_action\<close> of \<^verbatim>\<open>skw_msg.c\<close>), which open, move and close the sessions of the
  receive path. The state is that of the receive path, with the maps of each peer by its address.
\<close>

section \<open>State and operations\<close>

record skw_txba_ctrl =
  tb_bitmap :: u16
  tb_blacklist :: u16
  tb_try :: "u8 list"

record ba_peer =
  bp_txba :: skw_txba_ctrl
  bp_rx_tid_map :: u16

record ba_core =
  ba_rx :: skw_core
  ba_peers :: "ba_peer list"
  ba_work :: skw_work_data

record skw_ba_action =
  bx_action :: nat
  bx_lmac_id :: nat
  bx_peer_idx :: nat
  bx_tid :: nat
  bx_status_code :: u8
  bx_ssn :: u16
  bx_win_size :: u16

definition SKW_ADD_TX_BA :: nat where "SKW_ADD_TX_BA = 0"
definition SKW_DEL_TX_BA :: nat where "SKW_DEL_TX_BA = 1"
definition SKW_ADD_RX_BA :: nat where "SKW_ADD_RX_BA = 2"
definition SKW_DEL_RX_BA :: nat where "SKW_DEL_RX_BA = 3"
definition SKW_REQ_RX_BA :: nat where "SKW_REQ_RX_BA = 4"

lemmas ba_action_defs = SKW_ADD_TX_BA_def SKW_DEL_TX_BA_def SKW_ADD_RX_BA_def SKW_DEL_RX_BA_def SKW_REQ_RX_BA_def

declare ba_action_defs [skw_simps]

definition ba_action_of :: "u8 list \<Rightarrow> skw_ba_action" where
  "ba_action_of d = \<lparr>bx_action = unat (d ! 0), bx_lmac_id = unat (d ! 1), bx_peer_idx = unat (d ! 2), bx_tid = unat (d ! 3),
     bx_status_code = d ! 4, bx_ssn = get16 (drop 8 d), bx_win_size = get16 (drop 10 d)\<rparr>"

definition ba_request :: "nat \<Rightarrow> nat \<Rightarrow> nat \<Rightarrow> u8 list" where
  "ba_request lmac peer k = [of_nat SKW_ADD_TX_BA, of_nat lmac, of_nat peer, of_nat k, 0, 0, 0, 0, 0, 0] @ le16 64"

text \<open>\<open>ok\<close> tells whether the work could be queued; \<open>i\<close> is the interface with radio \<open>lmac\<close>, \<open>a\<close> the address of the peer.\<close>

definition skw_setup_txba :: "bool \<Rightarrow> nat \<Rightarrow> nat \<Rightarrow> nat \<Rightarrow> nat \<Rightarrow> ba_core \<Rightarrow> ba_core" where
  "skw_setup_txba ok i lmac a k c =
     (let p = ba_peers c ! a; t = bp_txba p in
      if SKW_NR_TID \<le> k then c
      else if bit (tb_bitmap t OR tb_blacklist t) k then c
      else
        (case queue_work ok \<lparr>wc_iface = Some i, wc_id = SKW_WORK_SETUP_TXBA, wc_data = ba_request lmac (unat (pr_idx (peers (ba_rx c) ! a))) k\<rparr> (ba_work c) of
           (ret, w) \<Rightarrow>
             if ret = 0
             then c\<lparr>ba_work := w, ba_peers := (ba_peers c)[a := p\<lparr>bp_txba := t\<lparr>tb_bitmap := set_bit k (tb_bitmap t)\<rparr>\<rparr>]\<rparr>
             else c\<lparr>ba_work := w\<rparr>))"

definition upd_peer :: "nat \<Rightarrow> (ba_peer \<Rightarrow> ba_peer) \<Rightarrow> ba_core \<Rightarrow> ba_core" where
  "upd_peer a f c = c\<lparr>ba_peers := (ba_peers c)[a := f (ba_peers c ! a)]\<rparr>"

text \<open>The reports on sessions for outgoing frames.\<close>

definition txba_refused :: "nat \<Rightarrow> ba_peer \<Rightarrow> ba_peer" where
  "txba_refused k p =
     (let t = bp_txba p; n = tb_try t ! k + 1 in
      p\<lparr>bp_txba := t\<lparr>tb_try := (tb_try t)[k := n],
                    tb_blacklist := (if 5 < n then set_bit k (tb_blacklist t) else tb_blacklist t),
                    tb_bitmap := unset_bit k (tb_bitmap t)\<rparr>\<rparr>)"

definition txba_deleted :: "nat \<Rightarrow> ba_peer \<Rightarrow> ba_peer" where
  "txba_deleted k p =
     (let t = bp_txba p in
      if k \<noteq> 255 then p\<lparr>bp_txba := t\<lparr>tb_bitmap := unset_bit k (tb_bitmap t), tb_try := (tb_try t)[k := 0]\<rparr>\<rparr>
      else p\<lparr>bp_txba := \<lparr>tb_bitmap = 0, tb_blacklist = 0, tb_try = replicate 8 0\<rparr>\<rparr>)"

text \<open>
  The report of the firmware. \<open>iface\<close> tells whether it came with an interface; \<open>ok1\<close>, \<open>ok2\<close> are the allocations of a new
  session. A radio out of range makes the code read beyond its table of radios, which sets \<open>fault\<close>.
\<close>

definition skw_event_ba_action :: "bool \<Rightarrow> bool \<Rightarrow> bool \<Rightarrow> skw_ba_action \<Rightarrow> ba_core \<Rightarrow> ba_core" where
  "skw_event_ba_action iface ok1 ok2 x c =
     (let k = bx_tid x; rx = ba_rx c in
      if \<not> iface then c
      else if SKW_NR_TID \<le> k \<or> 32 \<le> bx_peer_idx x then c
      else if 2 \<le> bx_lmac_id x then c\<lparr>ba_rx := rx\<lparr>fault := True\<rparr>\<rparr>
      else
        (case ctx_peer (peer_ctx rx ! bx_lmac_id x ! bx_peer_idx x) of
           None \<Rightarrow> c
         | Some a \<Rightarrow>
             if bx_action x = SKW_ADD_TX_BA then (if bx_status_code x \<noteq> 0 then upd_peer a (txba_refused k) c else c)
             else if bx_action x = SKW_DEL_TX_BA then upd_peer a (txba_deleted k) c
             else if bx_action x = SKW_REQ_RX_BA then c\<lparr>ba_rx := snd (skw_update_tid_rx (a, k) (bx_ssn x) rx)\<rparr>
             else if bx_action x = SKW_ADD_RX_BA then
               (case skw_add_tid_rx ok1 ok2 (a, k) (bx_ssn x) (bx_win_size x) rx of
                  (ret, rx1) \<Rightarrow>
                    if ret < 0 then c\<lparr>ba_rx := rx1\<rparr>
                    else upd_peer a (\<lambda>p. p\<lparr>bp_rx_tid_map := set_bit k (bp_rx_tid_map p)\<rparr>) (c\<lparr>ba_rx := rx1\<rparr>))
             else if bx_action x = SKW_DEL_RX_BA then
               upd_peer a (\<lambda>p. p\<lparr>bp_rx_tid_map := unset_bit k (bp_rx_tid_map p)\<rparr>) (c\<lparr>ba_rx := snd (skw_del_tid_rx (a, k) rx)\<rparr>)
             else c))"

text \<open>The end of a request that the firmware refused to take.\<close>

definition txba_command_failed :: "nat \<Rightarrow> nat \<Rightarrow> ba_core \<Rightarrow> ba_core" where
  "txba_command_failed a k c =
     upd_peer a (\<lambda>p. p\<lparr>bp_txba := (bp_txba p)\<lparr>tb_bitmap := unset_bit k (tb_bitmap (bp_txba p))\<rparr>\<rparr>) c"

section \<open>The machine\<close>

datatype ba_op = BaSetup bool nat nat nat nat | BaReport bool bool bool skw_ba_action | BaFailed nat nat

primrec ba_step :: "ba_op \<Rightarrow> ba_core \<Rightarrow> ba_core" where
  "ba_step (BaSetup ok i lmac a k) c = skw_setup_txba ok i lmac a k c"
| "ba_step (BaReport iface ok1 ok2 x) c = skw_event_ba_action iface ok1 ok2 x c"
| "ba_step (BaFailed a k) c = txba_command_failed a k c"

text \<open>Windows of a session have a size the receive path can index; peers are those that exist.\<close>

primrec ba_guard :: "ba_op \<Rightarrow> ba_core \<Rightarrow> bool" where
  "ba_guard (BaSetup ok i lmac a k) c \<longleftrightarrow> a < length (ba_peers c)"
| "ba_guard (BaReport iface ok1 ok2 x) c \<longleftrightarrow> ba_size_fits (bx_win_size x)"
| "ba_guard (BaFailed a k) c \<longleftrightarrow> a < length (ba_peers c)"

definition class_ok :: "skw_txba_ctrl \<Rightarrow> bool" where
  "class_ok t \<longleftrightarrow> length (tb_try t) = 8 \<and> (\<forall>k < 8. bit (tb_blacklist t) k \<or> unat (tb_try t ! k) \<le> 5)"

definition ba_ok :: "ba_core \<Rightarrow> bool" where
  "ba_ok c \<longleftrightarrow> wf_core (ba_rx c) \<and> length (ba_peers c) = length (peers (ba_rx c)) \<and> (\<forall>p \<in> set (ba_peers c). class_ok (bp_txba p))"

lemma upd_peer_fields [simp]:
  "ba_rx (upd_peer a f c) = ba_rx c" "ba_work (upd_peer a f c) = ba_work c" "length (ba_peers (upd_peer a f c)) = length (ba_peers c)"
  by (simp_all add: upd_peer_def)

lemma upd_peer_nth: "a < length (ba_peers c) \<Longrightarrow> ba_peers (upd_peer a f c) ! b = (if b = a then f (ba_peers c ! a) else ba_peers c ! b)"
  by (simp add: upd_peer_def)

lemma upd_peer_ok:
  assumes "ba_ok c" "\<And>p. class_ok (bp_txba p) \<Longrightarrow> class_ok (bp_txba (f p))"
  shows "ba_ok (upd_peer a f c)"
proof (cases "a < length (ba_peers c)")
  case True
  then have "class_ok (bp_txba (f (ba_peers c ! a)))" using assms by (simp add: ba_ok_def)
  then show ?thesis using assms(1) by (auto simp: ba_ok_def upd_peer_def dest!: set_update_subset_insert [THEN subsetD])
next
  case False
  then show ?thesis using assms(1) by (simp add: ba_ok_def upd_peer_def list_update_beyond not_less)
qed

lemma unat_inc_u8: "unat (x :: u8) \<le> 5 \<Longrightarrow> unat (x + 1) = unat x + 1"
  by (simp add: unat_word_ariths)

lemma refused_ok: "k < 8 \<Longrightarrow> class_ok (bp_txba p) \<Longrightarrow> class_ok (bp_txba (txba_refused k p))"
proof -
  assume k: "k < 8" and ok: "class_ok (bp_txba p)"
  have "bit (tb_blacklist (bp_txba (txba_refused k p))) j \<or> unat (tb_try (bp_txba (txba_refused k p)) ! j) \<le> 5" if j: "j < 8" for j
  proof (cases "j = k")
    case True
    let ?n = "tb_try (bp_txba p) ! k"
    have "bit (tb_blacklist (bp_txba p)) k \<or> unat ?n \<le> 5" "length (tb_try (bp_txba p)) = 8" using ok k by (auto simp: class_ok_def)
    then show ?thesis using k True
      by (auto simp: txba_refused_def Let_def bit_set_bit_iff word_less_nat_alt not_less)
  next
    case False
    then show ?thesis using ok j by (auto simp: class_ok_def txba_refused_def Let_def bit_set_bit_iff)
  qed
  then show ?thesis using ok by (simp add: class_ok_def txba_refused_def Let_def)
qed

lemma deleted_ok: "class_ok (bp_txba p) \<Longrightarrow> class_ok (bp_txba (txba_deleted k p))"
  by (cases "k < 8") (auto simp: class_ok_def txba_deleted_def Let_def nth_list_update list_update_beyond not_less)

lemma setup_ok: "ba_ok c \<Longrightarrow> a < length (ba_peers c) \<Longrightarrow> ba_ok (skw_setup_txba ok i lmac a k c)"
proof -
  assume ok: "ba_ok c" and a: "a < length (ba_peers c)"
  have "class_ok (bp_txba (ba_peers c ! a))" using ok a by (simp add: ba_ok_def)
  then show ?thesis using ok
    by (auto simp: skw_setup_txba_def queue_work_def ba_ok_def class_ok_def Let_def ENOMEM_def dest!: set_update_subset_insert [THEN subsetD])
qed

lemma ctx_peer_valid:
  assumes "wf_core rx" "l < 2" "i < 32" "ctx_peer (peer_ctx rx ! l ! i) = Some a"
  shows "a < length (peers rx)"
proof -
  have l: "peer_ctx rx ! l \<in> set (peer_ctx rx)" "length (peer_ctx rx ! l) = 32" using assms(1,2) by (auto simp: wf_core_def ctxs_ok_def)
  then have "peer_ctx rx ! l ! i \<in> set (peer_ctx rx ! l)" using assms(3) by simp
  then show ?thesis using assms(1,4) l(1) by (fastforce simp: wf_core_def ctxs_ok_def addr_ok_def)
qed

lemma rx_moves_ok:
  assumes "ba_ok c" "moves (ba_rx c, []) (rx, []) {#}"
  shows "ba_ok (c\<lparr>ba_rx := rx\<rparr>) \<and> core_load rx = core_load (ba_rx c)"
  using assms by (simp add: ba_ok_def moves_def)

text \<open>A report does one of these things.\<close>

lemma report_cases:
  assumes "ba_ok c" "ba_size_fits (bx_win_size x)"
  obtains (rx) rx1 where "moves (ba_rx c, []) (rx1, []) {#}" "peer_ctx rx1 = peer_ctx (ba_rx c)" "skw_event_ba_action iface ok1 ok2 x c = c\<lparr>ba_rx := rx1\<rparr>"
  | (rxmap) rx1 a f where "moves (ba_rx c, []) (rx1, []) {#}" "peer_ctx rx1 = peer_ctx (ba_rx c)" "\<And>p. bp_txba (f p) = bp_txba p"
      "skw_event_ba_action iface ok1 ok2 x c = upd_peer a f (c\<lparr>ba_rx := rx1\<rparr>)"
  | (refused) a where "iface" "bx_tid x < 8" "bx_peer_idx x < 32" "bx_lmac_id x < 2" "bx_action x = SKW_ADD_TX_BA" "bx_status_code x \<noteq> 0"
      "ctx_peer (peer_ctx (ba_rx c) ! bx_lmac_id x ! bx_peer_idx x) = Some a"
      "skw_event_ba_action iface ok1 ok2 x c = upd_peer a (txba_refused (bx_tid x)) c"
  | (deleted) a where "iface" "bx_tid x < 8" "bx_peer_idx x < 32" "bx_lmac_id x < 2" "bx_action x = SKW_DEL_TX_BA"
      "ctx_peer (peer_ctx (ba_rx c) ! bx_lmac_id x ! bx_peer_idx x) = Some a"
      "skw_event_ba_action iface ok1 ok2 x c = upd_peer a (txba_deleted (bx_tid x)) c"
proof -
  let ?rx = "ba_rx c"
  have wf: "wf_core ?rx" using assms(1) by (simp add: ba_ok_def)
  have same: "moves (?rx, []) (?rx, []) {#}" "c = c\<lparr>ba_rx := ?rx\<rparr>" using wf by (simp_all add: moves_refl)
  show thesis
  proof (cases "iface \<and> bx_tid x < 8 \<and> bx_peer_idx x < 32 \<and> bx_lmac_id x < 2")
    case False
    then consider "\<not> iface" | "iface" "8 \<le> bx_tid x \<or> 32 \<le> bx_peer_idx x" | "iface" "\<not> (8 \<le> bx_tid x \<or> 32 \<le> bx_peer_idx x)" "2 \<le> bx_lmac_id x"
      by linarith
    then show thesis
    proof cases
      case 1
      then show thesis using same by (intro rx [of ?rx]) (simp_all add: skw_event_ba_action_def)
    next
      case 2
      then show thesis using same by (intro rx [of ?rx]) (simp_all add: skw_event_ba_action_def SKW_NR_TID_def)
    next
      case 3
      then have "skw_event_ba_action iface ok1 ok2 x c = c\<lparr>ba_rx := ?rx\<lparr>fault := True\<rparr>\<rparr>"
        by (simp only: skw_event_ba_action_def SKW_NR_TID_def Let_def not_True_eq_False if_True if_False)
      then show thesis using fault_moves [OF wf] by (intro rx) simp_all
    qed
  next
    case True
    show thesis
    proof (cases "ctx_peer (peer_ctx ?rx ! bx_lmac_id x ! bx_peer_idx x)")
      case None
      then have "skw_event_ba_action iface ok1 ok2 x c = c" using True by (simp add: skw_event_ba_action_def SKW_NR_TID_def)
      then show thesis using same by (auto intro: rx)
    next
      case (Some a)
      have ref: "valid_ref ?rx (a, bx_tid x)" using ctx_peer_valid [OF wf _ _ Some] True by (simp add: valid_ref_def SKW_NR_TID_def)
      have upd: "moves (?rx, []) (snd (skw_update_tid_rx (a, bx_tid x) (bx_ssn x) ?rx), []) {#}"
        "peer_ctx (snd (skw_update_tid_rx (a, bx_tid x) (bx_ssn x) ?rx)) = peer_ctx ?rx"
        using update_tid_moves [OF wf ref] by (auto simp: skw_update_tid_rx_def todo_add_def put_reorder_def Let_def)
      have add: "moves (?rx, []) (snd (skw_add_tid_rx ok1 ok2 (a, bx_tid x) (bx_ssn x) (bx_win_size x) ?rx), []) {#}"
        "peer_ctx (snd (skw_add_tid_rx ok1 ok2 (a, bx_tid x) (bx_ssn x) (bx_win_size x) ?rx)) = peer_ctx ?rx"
        using add_tid_moves [OF wf ref assms(2)] upd(2) by (auto simp: skw_add_tid_rx_def put_reorder_def Let_def)
      have del: "moves (?rx, []) (snd (skw_del_tid_rx (a, bx_tid x) ?rx), []) {#}"
        "peer_ctx (snd (skw_del_tid_rx (a, bx_tid x) ?rx)) = peer_ctx ?rx"
        using del_tid_moves [OF wf ref] by (auto simp: skw_del_tid_rx_def todo_del_def put_reorder_def Let_def split: option.splits)
      note E = skw_event_ba_action_def SKW_NR_TID_def Some
      obtain ret rx1 where add1: "skw_add_tid_rx ok1 ok2 (a, bx_tid x) (bx_ssn x) (bx_win_size x) ?rx = (ret, rx1)" by force
      consider "bx_action x = SKW_ADD_TX_BA" "bx_status_code x \<noteq> 0" | "bx_action x = SKW_ADD_TX_BA" "bx_status_code x = 0"
        | "bx_action x = SKW_DEL_TX_BA" | "bx_action x = SKW_REQ_RX_BA" | "bx_action x = SKW_ADD_RX_BA" "ret < 0" | "bx_action x = SKW_ADD_RX_BA" "\<not> ret < 0"
        | "bx_action x = SKW_DEL_RX_BA" | "bx_action x \<notin> {SKW_ADD_TX_BA, SKW_DEL_TX_BA, SKW_REQ_RX_BA, SKW_ADD_RX_BA, SKW_DEL_RX_BA}" by blast
      then show thesis
      proof cases
        case 1
        with True Some show thesis by (intro refused) (simp_all add: E)
      next
        case 2
        with True same show thesis by (intro rx [of ?rx]) (simp_all add: E)
      next
        case 3
        with True Some show thesis by (intro deleted) (simp_all add: E skw_simps)
      next
        case 4
        with True upd show thesis by (intro rx) (simp_all add: E skw_simps)
      next
        case 5
        with True add add1 show thesis by (intro rx [of rx1]) (simp_all add: E skw_simps)
      next
        case 6
        with True add add1 show thesis
          by (intro rxmap [of rx1 "\<lambda>p. p\<lparr>bp_rx_tid_map := set_bit (bx_tid x) (bp_rx_tid_map p)\<rparr>" a]) (simp_all add: E skw_simps)
      next
        case 7
        with True del show thesis
          by (intro rxmap [of "snd (skw_del_tid_rx (a, bx_tid x) ?rx)" "\<lambda>p. p\<lparr>bp_rx_tid_map := unset_bit (bx_tid x) (bp_rx_tid_map p)\<rparr>" a])
            (simp_all add: E skw_simps Let_def)
      next
        case 8
        with True same show thesis by (intro rx [of ?rx]) (simp_all add: E)
      qed
    qed
  qed
qed

text \<open>A step keeps the invariant and the frames, and the peers stay where the table has them.\<close>

abbreviation ba_load :: "ba_core \<Rightarrow> nat multiset" where
  "ba_load c \<equiv> core_load (ba_rx c)"

lemma setup_rx [simp]: "ba_rx (skw_setup_txba ok i lmac a k c) = ba_rx c"
  by (simp add: skw_setup_txba_def Let_def split: prod.split)

lemma setup_peers_len [simp]: "length (ba_peers (skw_setup_txba ok i lmac a k c)) = length (ba_peers c)"
  by (simp add: skw_setup_txba_def Let_def split: prod.split)

lemma ba_step_keeps:
  assumes "ba_ok c" "ba_guard e c"
  shows "ba_ok (ba_step e c) \<and> ba_load (ba_step e c) = ba_load c \<and> peer_ctx (ba_rx (ba_step e c)) = peer_ctx (ba_rx c)"
proof (cases e)
  case (BaSetup ok i lmac a k)
  then show ?thesis using setup_ok assms by simp
next
  case (BaReport iface ok1 ok2 x)
  then have fits: "ba_size_fits (bx_win_size x)" using assms(2) by simp
  from assms(1) fits show ?thesis
  proof (cases rule: report_cases [where iface = iface and ?ok1.0 = ok1 and ?ok2.0 = ok2])
    case (rx rx1)
    then show ?thesis using rx_moves_ok [OF assms(1)] BaReport by simp
  next
    case (rxmap rx1 a f)
    have "ba_ok (c\<lparr>ba_rx := rx1\<rparr>)" "core_load rx1 = ba_load c" using rx_moves_ok [OF assms(1) rxmap(1)] by simp_all
    then show ?thesis using rxmap(2-4) BaReport upd_peer_ok [of "c\<lparr>ba_rx := rx1\<rparr>" f a] by simp
  next
    case (refused a)
    then show ?thesis using BaReport upd_peer_ok [OF assms(1) refused_ok] by simp
  next
    case (deleted a)
    then show ?thesis using BaReport upd_peer_ok [OF assms(1) deleted_ok] by simp
  qed
next
  case (BaFailed a k)
  have "ba_ok (txba_command_failed a k c)" unfolding txba_command_failed_def
    by (rule upd_peer_ok [OF assms(1)]) (simp add: class_ok_def)
  then show ?thesis using BaFailed by (simp add: txba_command_failed_def)
qed

interpretation ba_path: conserving_machine ba_step ba_ok ba_guard ba_load "\<lambda>_. {#}"
  by unfold_locales (simp_all add: ba_step_keeps)

lemma sum_empty [simp]: "(\<Sum>e \<leftarrow> es. ({#} :: 'a multiset)) = {#}"
  by (induction es) simp_all

text \<open>
  C22. Over any sequence of requests and firmware reports, whose windows fit: every peer, table and session of the
  receive path stays well formed, and not one frame that waits in a session is lost or invented while sessions
  open, move and close.
\<close>

theorem ba_reports_conserve:
  assumes "ba_ok c" "guarded_run ba_guard ba_step es c"
  shows "ba_ok (fold ba_step es c) \<and> ba_load (fold ba_step es c) = ba_load c"
  using ba_path.run_invar [OF assms] ba_path.run_load [OF assms] by simp

definition demo_ba :: ba_core where
  "demo_ba = \<lparr>ba_rx = ex_core SKW_BUS_SDIO,
     ba_peers = [\<lparr>bp_txba = \<lparr>tb_bitmap = 0, tb_blacklist = 0, tb_try = replicate 8 0\<rparr>, bp_rx_tid_map = 0\<rparr>], ba_work = skw_work_init\<rparr>"

definition demo_report :: "nat \<Rightarrow> u8 \<Rightarrow> ba_op" where
  "demo_report act st = BaReport True True True
     \<lparr>bx_action = act, bx_lmac_id = 0, bx_peer_idx = 0, bx_tid = 3, bx_status_code = st, bx_ssn = 300, bx_win_size = 64\<rparr>"

lemma demo_ba_ok: "ba_ok demo_ba"
  by (simp add: ba_ok_def demo_ba_def ex_core_wf class_ok_def) (simp add: ex_core_def)

theorem ba_reports_conserve_witness:
  "ba_ok (fold ba_step [demo_report SKW_ADD_RX_BA 0, demo_report SKW_DEL_RX_BA 0] demo_ba) \<and>
   ba_load (fold ba_step [demo_report SKW_ADD_RX_BA 0, demo_report SKW_DEL_RX_BA 0] demo_ba) = ba_load demo_ba"
  by (rule ba_reports_conserve [OF demo_ba_ok]) (simp add: demo_report_def ba_size_fits_def)

section \<open>Refused sessions\<close>

text \<open>A report that peer \<open>a\<close> refused a session for class \<open>k\<close>, and one that such a session ended.\<close>

primrec reports_tx :: "(skw_ba_action \<Rightarrow> bool) \<Rightarrow> skw_peer_ctx list list \<Rightarrow> nat \<Rightarrow> nat \<Rightarrow> ba_op \<Rightarrow> bool" where
  "reports_tx P ctx a k (BaReport iface ok1 ok2 x) \<longleftrightarrow> iface \<and> bx_tid x = k \<and> bx_peer_idx x < 32 \<and> bx_lmac_id x < 2 \<and> P x \<and>
     ctx_peer (ctx ! bx_lmac_id x ! bx_peer_idx x) = Some a"
| "reports_tx P ctx a k (BaSetup ok i lmac b j) \<longleftrightarrow> False"
| "reports_tx P ctx a k (BaFailed b j) \<longleftrightarrow> False"

abbreviation refusal :: "skw_peer_ctx list list \<Rightarrow> nat \<Rightarrow> nat \<Rightarrow> ba_op \<Rightarrow> bool" where
  "refusal \<equiv> reports_tx (\<lambda>x. bx_action x = SKW_ADD_TX_BA \<and> bx_status_code x \<noteq> 0)"

abbreviation removal :: "skw_peer_ctx list list \<Rightarrow> nat \<Rightarrow> nat \<Rightarrow> ba_op \<Rightarrow> bool" where
  "removal \<equiv> reports_tx (\<lambda>x. bx_action x = SKW_DEL_TX_BA)"

abbreviation txba_at :: "ba_core \<Rightarrow> nat \<Rightarrow> skw_txba_ctrl" where
  "txba_at c a \<equiv> bp_txba (ba_peers c ! a)"

definition refused_times :: "nat \<Rightarrow> nat \<Rightarrow> nat \<Rightarrow> ba_core \<Rightarrow> bool" where
  "refused_times n a k c \<longleftrightarrow> bit (tb_blacklist (txba_at c a)) k \<or> n \<le> unat (tb_try (txba_at c a) ! k)"

lemma txba_at_upd: "b < length (ba_peers c) \<Longrightarrow> txba_at (upd_peer b f c) a = bp_txba (if a = b then f (ba_peers c ! b) else ba_peers c ! a)"
  by (auto simp: upd_peer_def)

text \<open>What one step does to the count and to the blacklist of a class.\<close>

lemma step_txba:
  assumes ok: "ba_ok c" and g: "ba_guard e c" and a: "a < length (ba_peers c)" and k: "k < 8"
  defines "t \<equiv> txba_at c a" and "t1 \<equiv> txba_at (ba_step e c) a" and "R \<equiv> refusal (peer_ctx (ba_rx c)) a k e"
    and "D \<equiv> removal (peer_ctx (ba_rx c)) a k e"
  shows "tb_try t1 ! k = (if R then tb_try t ! k + 1 else if D then 0 else tb_try t ! k)"
    "bit (tb_blacklist t1) k \<longleftrightarrow> bit (tb_blacklist t) k \<or> R \<and> 5 < tb_try t ! k + 1"
proof -
  have len: "length (tb_try t) = 8" using ok a by (simp add: ba_ok_def class_ok_def t_def)
  have "(tb_try t1 ! k = (if R then tb_try t ! k + 1 else if D then 0 else tb_try t ! k)) \<and>
    (bit (tb_blacklist t1) k \<longleftrightarrow> bit (tb_blacklist t) k \<or> R \<and> 5 < tb_try t ! k + 1)"
  proof (cases e)
    case (BaSetup ok1 i lmac b j)
    then have "tb_try t1 = tb_try t" "tb_blacklist t1 = tb_blacklist t" using g
      by (auto simp: t1_def t_def skw_setup_txba_def Let_def nth_list_update split: prod.split)
    then show ?thesis using BaSetup by (simp add: R_def D_def)
  next
    case (BaFailed b j)
    then have "tb_try t1 = tb_try t" "tb_blacklist t1 = tb_blacklist t" using g
      by (auto simp: t1_def t_def txba_command_failed_def txba_at_upd)
    then show ?thesis using BaFailed by (simp add: R_def D_def)
  next
    case (BaReport iface ok1 ok2 x)
    then have fits: "ba_size_fits (bx_win_size x)" using g by simp
    have wf: "wf_core (ba_rx c)" and lens: "length (ba_peers c) = length (peers (ba_rx c))" using ok by (simp_all add: ba_ok_def)
    consider (R) R | (D) D | (other) "\<not> R" "\<not> D" by blast
    then show ?thesis
    proof cases
      case R
      then have "ba_step e c = upd_peer a (txba_refused k) c" using BaReport k by (simp add: R_def skw_event_ba_action_def SKW_NR_TID_def)
      then show ?thesis using R a k len by (simp add: t1_def t_def txba_at_upd txba_refused_def Let_def bit_set_bit_iff)
    next
      case D
      then have e: "ba_step e c = upd_peer a (txba_deleted k) c"
        using BaReport k by (simp add: D_def skw_event_ba_action_def SKW_NR_TID_def skw_simps)
      have "\<not> R" using D BaReport by (auto simp: D_def R_def skw_simps)
      then show ?thesis using D e a k len by (simp add: t1_def t_def txba_at_upd txba_deleted_def Let_def)
    next
      case other
      from ok fits have "tb_try t1 ! k = tb_try t ! k \<and> bit (tb_blacklist t1) k = bit (tb_blacklist t) k"
      proof (cases rule: report_cases [where iface = iface and ?ok1.0 = ok1 and ?ok2.0 = ok2])
        case (rx rx1)
        then show ?thesis using BaReport by (simp add: t1_def t_def)
      next
        case (rxmap rx1 b f)
        then show ?thesis using BaReport a by (cases "b = a") (simp_all add: t1_def t_def upd_peer_def)
      next
        case (refused b)
        then have "b < length (ba_peers c)" "b \<noteq> a \<or> bx_tid x \<noteq> k"
          using ctx_peer_valid [OF wf] lens other BaReport by (auto simp: R_def)
        then show ?thesis using BaReport refused
          by (auto simp: t1_def t_def txba_at_upd txba_refused_def Let_def bit_set_bit_iff)
      next
        case (deleted b)
        then have "b < length (ba_peers c)" "b \<noteq> a \<or> bx_tid x \<noteq> k"
          using ctx_peer_valid [OF wf] lens other BaReport by (auto simp: D_def)
        then show ?thesis using BaReport deleted by (auto simp: t1_def t_def txba_at_upd txba_deleted_def Let_def)
      qed
      then show ?thesis using other by simp
    qed
  qed
  then show "tb_try t1 ! k = (if R then tb_try t ! k + 1 else if D then 0 else tb_try t ! k)"
    "bit (tb_blacklist t1) k \<longleftrightarrow> bit (tb_blacklist t) k \<or> R \<and> 5 < tb_try t ! k + 1" by simp_all
qed

lemma refused_step:
  assumes "ba_ok c" "ba_guard e c" "a < length (ba_peers c)" "k < 8" "refused_times n a k c"
  shows "\<not> removal (peer_ctx (ba_rx c)) a k e \<Longrightarrow> refused_times (n + (if refusal (peer_ctx (ba_rx c)) a k e then 1 else 0)) a k (ba_step e c)"
    "bit (tb_blacklist (txba_at c a)) k \<Longrightarrow> bit (tb_blacklist (txba_at (ba_step e c) a)) k"
proof -
  have t: "bit (tb_blacklist (txba_at c a)) k \<or> unat (tb_try (txba_at c a) ! k) \<le> 5"
    using assms(1,3,4) by (simp add: ba_ok_def class_ok_def)
  note S = step_txba [OF assms(1-4)]
  show "bit (tb_blacklist (txba_at c a)) k \<Longrightarrow> bit (tb_blacklist (txba_at (ba_step e c) a)) k" using S(2) by simp
  show "\<not> removal (peer_ctx (ba_rx c)) a k e \<Longrightarrow> refused_times (n + (if refusal (peer_ctx (ba_rx c)) a k e then 1 else 0)) a k (ba_step e c)"
    using t S assms(5) by (auto simp: refused_times_def unat_inc_u8)
qed

lemma ba_step_peers [simp]: "length (ba_peers (ba_step e c)) = length (ba_peers c)"
  by (cases e) (simp_all add: txba_command_failed_def skw_event_ba_action_def Let_def split: option.split prod.split)

lemma refused_run:
  assumes "ba_ok c" "guarded_run ba_guard ba_step es c" "a < length (ba_peers c)" "k < 8" "refused_times n a k c"
    "\<forall>e \<in> set es. \<not> removal (peer_ctx (ba_rx c)) a k e"
  shows "refused_times (n + length (filter (refusal (peer_ctx (ba_rx c)) a k) es)) a k (fold ba_step es c)"
  using assms
proof (induction es arbitrary: c n)
  case (Cons e es)
  then have g: "ba_guard e c" and ctx: "peer_ctx (ba_rx (ba_step e c)) = peer_ctx (ba_rx c)" and ok: "ba_ok (ba_step e c)"
    using ba_step_keeps [of c e] by simp_all
  have "refused_times (n + (if refusal (peer_ctx (ba_rx c)) a k e then 1 else 0)) a k (ba_step e c)"
    using refused_step(1) [OF _ g] Cons.prems by simp
  from Cons.IH [OF ok _ _ _ this] show ?case using Cons.prems ctx by (simp split: if_splits)
qed simp

lemma blacklist_run:
  assumes "ba_ok c" "guarded_run ba_guard ba_step es c" "a < length (ba_peers c)" "k < 8" "bit (tb_blacklist (txba_at c a)) k"
  shows "bit (tb_blacklist (txba_at (fold ba_step es c) a)) k"
  using assms
proof (induction es arbitrary: c)
  case (Cons e es)
  then have g: "ba_guard e c" and ok: "ba_ok (ba_step e c)" using ba_step_keeps [of c e] by simp_all
  have "bit (tb_blacklist (txba_at (ba_step e c) a)) k" using step_txba(2) [OF _ g] Cons.prems by simp
  then show ?case using Cons.IH [OF ok] Cons.prems by simp
qed simp

lemma ba_run_peers [simp]: "length (ba_peers (fold ba_step es c)) = length (ba_peers c)"
  by (induction es arbitrary: c) simp_all

text \<open>
  C23. A peer that refuses a session for a traffic class six times, with no report in between that a session of
  the class ended, is never asked again as long as it is known: whatever requests and reports follow,
  the class stays on the peer's blacklist and the request of a session does nothing. A report in between
  starts the count anew, see \<open>deleted_restarts_count\<close> below.
\<close>

theorem txba_six_refusals:
  assumes "ba_ok c" "guarded_run ba_guard ba_step (es @ fs) c" "a < length (ba_peers c)" "k < 8"
    "\<forall>e \<in> set es. \<not> removal (peer_ctx (ba_rx c)) a k e" "6 \<le> length (filter (refusal (peer_ctx (ba_rx c)) a k) es)"
  shows "skw_setup_txba ok i lmac a k (fold ba_step (es @ fs) c) = fold ba_step (es @ fs) c"
proof -
  let ?c1 = "fold ba_step es c"
  have g: "guarded_run ba_guard ba_step es c" "guarded_run ba_guard ba_step fs ?c1" using assms(2) by (simp_all add: guarded_run_append)
  have ok1: "ba_ok ?c1" by (rule ba_path.run_invar [OF assms(1) g(1)])
  have a1: "a < length (ba_peers ?c1)" using assms(3) by simp
  have "refused_times 6 a k ?c1"
    using refused_run [OF assms(1) g(1) assms(3,4) _ assms(5), of 0] assms(6) by (auto simp: refused_times_def)
  moreover have "class_ok (txba_at ?c1 a)" using ok1 a1 nth_mem [OF a1] by (simp add: ba_ok_def del: nth_mem)
  ultimately have "bit (tb_blacklist (txba_at ?c1 a)) k" using assms(4) by (auto simp: refused_times_def class_ok_def)
  from blacklist_run [OF ok1 g(2) a1 assms(4) this]
  show ?thesis by (simp add: skw_setup_txba_def Let_def bit_or_iff)
qed

theorem txba_six_refusals_witness:
  "skw_setup_txba True 0 0 0 3 (fold ba_step (replicate 6 (demo_report SKW_ADD_TX_BA 1) @ [demo_report SKW_DEL_TX_BA 0]) demo_ba) =
   fold ba_step (replicate 6 (demo_report SKW_ADD_TX_BA 1) @ [demo_report SKW_DEL_TX_BA 0]) demo_ba"
proof (rule txba_six_refusals [OF demo_ba_ok])
  have ctx: "ctx_peer (peer_ctx (ba_rx demo_ba) ! 0 ! 0) = Some 0" by (simp add: demo_ba_def ex_core_def ex_peer_ctxs_def)
  show "guarded_run ba_guard ba_step (replicate 6 (demo_report SKW_ADD_TX_BA 1) @ [demo_report SKW_DEL_TX_BA 0]) demo_ba"
    by (rule guarded_run_always) (auto simp: demo_report_def ba_size_fits_def)
  show "\<forall>e \<in> set (replicate 6 (demo_report SKW_ADD_TX_BA 1)). \<not> removal (peer_ctx (ba_rx demo_ba)) 0 3 e"
    by (simp add: demo_report_def skw_simps)
  show "6 \<le> length (filter (refusal (peer_ctx (ba_rx demo_ba)) 0 3) (replicate 6 (demo_report SKW_ADD_TX_BA 1)))"
    using ctx by (simp add: demo_report_def)
qed (simp_all add: demo_ba_def)

text \<open>Five refusals, the report that a session of the class ended, and one more refusal do not reach the limit.\<close>

lemma deleted_restarts_count:
  assumes "length (tb_try (bp_txba p)) = 8" "k < 8" "\<not> bit (tb_blacklist (bp_txba p)) k"
  shows "\<not> bit (tb_blacklist (bp_txba (txba_refused k (txba_deleted k p)))) k"
  using assms by (simp add: txba_refused_def txba_deleted_def Let_def)

text \<open>
  Behaviour worth knowing: a report that ends every session of a peer carries the class 255, which the check of the class
  refuses first; the branch that clears the peer's whole table, its blacklist included, is never reached. A class on the
  blacklist stays there as long as the peer does.
\<close>

lemma reset_all_refused:
  "bx_tid x = 255 \<Longrightarrow> skw_event_ba_action iface ok1 ok2 x c = c"
  by (simp add: skw_event_ba_action_def SKW_NR_TID_def Let_def)

text \<open>The radio of a report is compared with the interface's, a difference is only logged, and the index is used unchecked.\<close>

lemma report_lmac_out_of_range:
  assumes "bx_tid x < 8" "bx_peer_idx x < 32" "2 \<le> bx_lmac_id x"
  shows "fault (ba_rx (skw_event_ba_action True ok1 ok2 x c))"
  using assms by (simp add: skw_event_ba_action_def SKW_NR_TID_def Let_def)

end
