(* ===== verification/Skw_Mlme.thy ===== *)
theory Skw_Mlme
  imports Skw_Work Skw_Util
begin

text \<open>
  Stations of an access point: the state machine of authentication and association of \<^verbatim>\<open>skw_mlme.c\<close>, with the table of
  peers it drives (\<^verbatim>\<open>skw_iface.c\<close>, \<^verbatim>\<open>skw_cfg80211.c\<close>) and the entry points of the events (\<^verbatim>\<open>skw_msg.c\<close>).
  A frame is the memory from its first byte on, so that fields beyond its end are what lies there.
\<close>

section \<open>States and frames\<close>

datatype SKW_STATES = SKW_STATE_NONE | SKW_STATE_AUTHING | SKW_STATE_AUTHED | SKW_STATE_ASSOCING | SKW_STATE_ASSOCED | SKW_STATE_COMPLETED

primrec state_num :: "SKW_STATES \<Rightarrow> nat" where
  "state_num SKW_STATE_NONE = 0"
| "state_num SKW_STATE_AUTHING = 1"
| "state_num SKW_STATE_AUTHED = 2"
| "state_num SKW_STATE_ASSOCING = 3"
| "state_num SKW_STATE_ASSOCED = 4"
| "state_num SKW_STATE_COMPLETED = 5"

lemma state_num_inject: "state_num x = state_num y \<longleftrightarrow> x = y"
  by (cases x; cases y) simp_all

text \<open>The states are ordered as the numbers of the enumeration.\<close>

instantiation SKW_STATES :: linorder
begin

definition less_eq_SKW_STATES :: "SKW_STATES \<Rightarrow> SKW_STATES \<Rightarrow> bool" where
  "x \<le> y \<longleftrightarrow> state_num x \<le> state_num y"

definition less_SKW_STATES :: "SKW_STATES \<Rightarrow> SKW_STATES \<Rightarrow> bool" where
  "x < y \<longleftrightarrow> state_num x < state_num y"

instance
  by standard (auto simp: less_eq_SKW_STATES_def less_SKW_STATES_def state_num_inject)

end

lemmas state_order = less_eq_SKW_STATES_def less_SKW_STATES_def

type_synonym mem = "nat \<Rightarrow> u8"

definition IEEE80211_STYPE_ASSOC_REQ :: u16 where "IEEE80211_STYPE_ASSOC_REQ = 0x00"
definition IEEE80211_STYPE_ASSOC_RESP :: u16 where "IEEE80211_STYPE_ASSOC_RESP = 0x10"
definition IEEE80211_STYPE_REASSOC_REQ :: u16 where "IEEE80211_STYPE_REASSOC_REQ = 0x20"
definition IEEE80211_STYPE_REASSOC_RESP :: u16 where "IEEE80211_STYPE_REASSOC_RESP = 0x30"
definition IEEE80211_STYPE_PROBE_REQ :: u16 where "IEEE80211_STYPE_PROBE_REQ = 0x40"
definition IEEE80211_STYPE_PROBE_RESP :: u16 where "IEEE80211_STYPE_PROBE_RESP = 0x50"
definition IEEE80211_STYPE_DISASSOC :: u16 where "IEEE80211_STYPE_DISASSOC = 0xA0"
definition IEEE80211_STYPE_AUTH :: u16 where "IEEE80211_STYPE_AUTH = 0xB0"
definition IEEE80211_STYPE_DEAUTH :: u16 where "IEEE80211_STYPE_DEAUTH = 0xC0"
definition IEEE80211_STYPE_ACTION :: u16 where "IEEE80211_STYPE_ACTION = 0xD0"

lemmas stype_defs = IEEE80211_STYPE_ASSOC_REQ_def IEEE80211_STYPE_ASSOC_RESP_def IEEE80211_STYPE_REASSOC_REQ_def
  IEEE80211_STYPE_REASSOC_RESP_def IEEE80211_STYPE_PROBE_REQ_def IEEE80211_STYPE_PROBE_RESP_def IEEE80211_STYPE_DISASSOC_def
  IEEE80211_STYPE_AUTH_def IEEE80211_STYPE_DEAUTH_def IEEE80211_STYPE_ACTION_def

definition WLAN_AUTH_OPEN :: u16 where "WLAN_AUTH_OPEN = 0"
definition WLAN_AUTH_SHARED_KEY :: u16 where "WLAN_AUTH_SHARED_KEY = 1"
definition WLAN_AUTH_SAE :: u16 where "WLAN_AUTH_SAE = 3"
definition WLAN_STATUS_SUCCESS :: u16 where "WLAN_STATUS_SUCCESS = 0"
definition WLAN_STATUS_UNSPECIFIED_FAILURE :: u16 where "WLAN_STATUS_UNSPECIFIED_FAILURE = 1"
definition WLAN_STATUS_NOT_SUPPORTED_AUTH_ALG :: u16 where "WLAN_STATUS_NOT_SUPPORTED_AUTH_ALG = 13"
definition WLAN_STATUS_UNKNOWN_AUTH_TRANSACTION :: u16 where "WLAN_STATUS_UNKNOWN_AUTH_TRANSACTION = 14"
definition WLAN_STATUS_CHALLENGE_FAIL :: u16 where "WLAN_STATUS_CHALLENGE_FAIL = 15"
definition WLAN_REASON_CLASS2_FRAME_FROM_NONAUTH_STA :: u16 where "WLAN_REASON_CLASS2_FRAME_FROM_NONAUTH_STA = 6"

lemmas wlan_defs = WLAN_AUTH_OPEN_def WLAN_AUTH_SHARED_KEY_def WLAN_AUTH_SAE_def WLAN_STATUS_SUCCESS_def
  WLAN_STATUS_UNSPECIFIED_FAILURE_def WLAN_STATUS_NOT_SUPPORTED_AUTH_ALG_def WLAN_STATUS_UNKNOWN_AUTH_TRANSACTION_def
  WLAN_STATUS_CHALLENGE_FAIL_def WLAN_REASON_CLASS2_FRAME_FROM_NONAUTH_STA_def

definition m16 :: "mem \<Rightarrow> nat \<Rightarrow> u16" where
  "m16 m i = get16 [m i, m (i + 1)]"

definition m_bytes :: "mem \<Rightarrow> nat \<Rightarrow> nat \<Rightarrow> u8 list" where
  "m_bytes m i n = map (\<lambda>k. m (i + k)) [0..<n]"

text \<open>The fields of a management frame.\<close>

abbreviation mg_fc :: "mem \<Rightarrow> u16" where "mg_fc m \<equiv> m16 m 0"
abbreviation mg_da :: "mem \<Rightarrow> u8 list" where "mg_da m \<equiv> m_bytes m 4 6"
abbreviation mg_sa :: "mem \<Rightarrow> u8 list" where "mg_sa m \<equiv> m_bytes m 10 6"
abbreviation mg_bssid :: "mem \<Rightarrow> u8 list" where "mg_bssid m \<equiv> m_bytes m 16 6"
abbreviation mg_seq :: "mem \<Rightarrow> u16" where "mg_seq m \<equiv> m16 m 22"

definition SKW_MGMT_SFC :: "u16 \<Rightarrow> u16" where
  "SKW_MGMT_SFC fc = fc AND 0xF0"

definition has_retry :: "u16 \<Rightarrow> bool" where
  "has_retry fc \<longleftrightarrow> fc AND 0x0800 \<noteq> 0"

definition mgmt_hdr :: "u16 \<Rightarrow> u8 list \<Rightarrow> u8 list \<Rightarrow> u8 list \<Rightarrow> u8 list" where
  "mgmt_hdr stype da sa bssid = le16 stype @ [0, 0] @ da @ sa @ bssid @ [0, 0]"

section \<open>State\<close>

record skw_client =
  cl_id :: nat
  cl_state :: SKW_STATES
  cl_capa :: u16
  cl_aid :: nat
  cl_addr :: "u8 list"
  cl_challenge :: "u8 list option"
  cl_cookie :: u64
  cl_idle :: u64
  cl_assoc_req_ie :: "u8 list option"
  cl_last_seq_ctrl :: u16

record sta_peer =
  sp_id :: nat
  sp_addr :: "u8 list"
  sp_state :: SKW_STATES
  sp_flags :: u8

text \<open>The context of a peer; \<open>sc_entry\<close> is the peer that data is sent to.\<close>

record sta_ctx =
  sc_peer :: "sta_peer option"
  sc_entry :: "nat option"

definition SKW_PEER_FLAG_ACTIVE :: u8 where "SKW_PEER_FLAG_ACTIVE = 8"
definition SKW_PEER_FLAG_DEAUTHED :: u8 where "SKW_PEER_FLAG_DEAUTHED = 16"

lemmas peer_flag_defs = SKW_PEER_FLAG_ACTIVE_def SKW_PEER_FLAG_DEAUTHED_def

text \<open>
  The configuration of the access point, which the operations here only read. \<open>ac_auth_timeout\<close> is
  \<open>msecs_to_jiffies(SKW_AP_AUTH_TIMEOUT)\<close>, \<open>ac_mgmt_size\<close> is \<open>sizeof(struct ieee80211_mgmt)\<close>, \<open>ac_rates\<close> the bit rates of the band.
\<close>

record ap_cfg =
  ac_addr :: "u8 list"
  ac_bssid :: "u8 list"
  ac_chan :: "u8 option"
  ac_n_akm :: nat
  ac_wep_share :: bool
  ac_sme_external :: bool
  ac_max_sta :: nat
  ac_acl :: "acl_data option"
  ac_probe_resp :: "u8 list"
  ac_ht_cap :: "u8 list option"
  ac_rates :: "nat list"
  ac_ht_required :: bool
  ac_vht_required :: bool
  ac_auth_timeout :: u64
  ac_mgmt_size :: nat

datatype ap_cmd = Cmd_add_sta "u8 list" | Cmd_del_sta "u8 list" u16 bool | Cmd_tx_mgmt u64 "u8 list" | Cmd_wep_key "u8 list"

datatype ap_note = New_sta "u8 list" "u8 list" | Gone_sta "u8 list" | Rx_frame mem nat | Tx_report u64 mem bool | Deauth_sta "u8 list"

text \<open>\<open>ap_fault\<close> is set by an access beyond a table; \<open>ap_lost\<close> counts challenges that were overwritten without being freed.\<close>

record ap_state =
  ap_clients :: "skw_client list"
  ap_count :: int
  ap_aid_map :: u64
  ap_ctx :: "sta_ctx list"
  ap_peer_map :: u32
  ap_actived :: int
  ap_timers :: "nat list"
  ap_local :: "skw_client list"
  ap_cookie :: u64
  ap_next :: nat
  ap_sent :: "(u64 \<times> u8 list) list"
  ap_cmds :: "ap_cmd list"
  ap_up :: "ap_note list"
  ap_lost :: nat
  ap_fault :: bool

text \<open>What the kernel and the firmware answer during one operation.\<close>

record ap_env =
  en_send :: "ap_cmd \<Rightarrow> int"
  en_idx :: u8
  en_client_ok :: bool
  en_peer_ok :: bool
  en_reply_ok :: bool
  en_param_ok :: bool
  en_chal :: "u8 list option"
  en_ie_ok :: bool
  en_timer_ok :: bool
  en_event_ok :: bool
  en_jiffies :: u64

section \<open>Clients\<close>

definition upd_client :: "nat \<Rightarrow> (skw_client \<Rightarrow> skw_client) \<Rightarrow> ap_state \<Rightarrow> ap_state" where
  "upd_client n f s = s\<lparr>ap_clients := map (\<lambda>c. if cl_id c = n then f c else c) (ap_clients s)\<rparr>"

definition skw_mlme_ap_get_client :: "u8 list \<Rightarrow> ap_state \<Rightarrow> skw_client option" where
  "skw_mlme_ap_get_client addr s = List.find (\<lambda>c. cl_addr c = addr) (ap_clients s)"

definition skw_mlme_ap_add_client :: "ap_env \<Rightarrow> u8 list \<Rightarrow> ap_state \<Rightarrow> skw_client option \<times> ap_state" where
  "skw_mlme_ap_add_client en addr s =
     (if \<not> en_client_ok en then (None, s)
      else
        (let c = \<lparr>cl_id = ap_next s, cl_state = SKW_STATE_NONE, cl_capa = 0, cl_aid = 0, cl_addr = addr, cl_challenge = None, cl_cookie = 0,
                  cl_idle = en_jiffies en, cl_assoc_req_ie = None, cl_last_seq_ctrl = 0xFFFF\<rparr> in
         (Some c, s\<lparr>ap_clients := ap_clients s @ [c], ap_count := ap_count s + 1, ap_next := ap_next s + 1\<rparr>)))"

text \<open>The map of association identifiers has 64 bits; clearing bit 64 writes behind it.\<close>

definition skw_mlme_ap_del_client :: "skw_client \<Rightarrow> ap_state \<Rightarrow> ap_state" where
  "skw_mlme_ap_del_client c s =
     s\<lparr>ap_timers := filter (\<lambda>n. n \<noteq> cl_id c) (ap_timers s),
       ap_clients := filter (\<lambda>x. cl_id x \<noteq> cl_id c) (ap_clients s),
       ap_count := ap_count s - 1,
       ap_aid_map := (if cl_aid c \<noteq> 0 \<and> cl_aid c < 64 then unset_bit (cl_aid c) (ap_aid_map s) else ap_aid_map s),
       ap_fault := (ap_fault s \<or> 64 \<le> cl_aid c)\<rparr>"

definition skw_mlme_ap_remove_client :: "ap_cfg \<Rightarrow> u8 list \<Rightarrow> ap_state \<Rightarrow> ap_state" where
  "skw_mlme_ap_remove_client cfg addr s =
     (if ac_sme_external cfg then s
      else case skw_mlme_ap_get_client addr s of None \<Rightarrow> s | Some c \<Rightarrow> skw_mlme_ap_del_client c s)"

definition skw_mlme_ap_new_aid :: "u64 \<Rightarrow> nat \<times> u64" where
  "skw_mlme_ap_new_aid m = (case List.find (\<lambda>a. \<not> bit m a) [1..<64] of None \<Rightarrow> (64, m) | Some a \<Rightarrow> (a, set_bit a m))"

section \<open>Peers\<close>

definition upd_ctx :: "nat \<Rightarrow> (sta_ctx \<Rightarrow> sta_ctx) \<Rightarrow> ap_state \<Rightarrow> ap_state" where
  "upd_ctx i f s = s\<lparr>ap_ctx := (ap_ctx s)[i := f (ap_ctx s ! i)]\<rparr>"

definition on_peer :: "(sta_peer \<Rightarrow> sta_peer) \<Rightarrow> sta_ctx \<Rightarrow> sta_ctx" where
  "on_peer f x = x\<lparr>sc_peer := map_option f (sc_peer x)\<rparr>"

definition do_cmd :: "ap_cmd \<Rightarrow> ap_state \<Rightarrow> ap_state" where
  "do_cmd cmd s = s\<lparr>ap_cmds := ap_cmds s @ [cmd]\<rparr>"

definition notify :: "ap_note \<Rightarrow> ap_state \<Rightarrow> ap_state" where
  "notify x s = s\<lparr>ap_up := ap_up s @ [x]\<rparr>"

definition skw_peer_ctx :: "u8 list \<Rightarrow> ap_state \<Rightarrow> nat option" where
  "skw_peer_ctx mac s = List.find (\<lambda>i. case sc_peer (ap_ctx s ! i) of None \<Rightarrow> False | Some p \<Rightarrow> sp_addr p = mac) (map_bits (ap_peer_map s))"

definition peer_ctx_transmit :: "nat \<Rightarrow> bool \<Rightarrow> ap_state \<Rightarrow> ap_state" where
  "peer_ctx_transmit i enable s =
     (if enable then
        (case sc_peer (ap_ctx s ! i) of
           None \<Rightarrow> s
         | Some p \<Rightarrow>
             if sp_flags p \<noteq> 0 then s
             else (upd_ctx i (\<lambda>x. x\<lparr>sc_peer := Some (p\<lparr>sp_flags := sp_flags p OR SKW_PEER_FLAG_ACTIVE\<rparr>), sc_entry := Some (sp_id p)\<rparr>) s)
                    \<lparr>ap_actived := ap_actived s + 1\<rparr>)
      else
        (case sc_entry (ap_ctx s ! i) of
           None \<Rightarrow> s
         | Some e \<Rightarrow>
             (upd_ctx i (\<lambda>x. (on_peer (\<lambda>p. if sp_id p = e then p\<lparr>sp_flags := sp_flags p AND NOT SKW_PEER_FLAG_ACTIVE\<rparr> else p) x)
                              \<lparr>sc_entry := None\<rparr>) s)\<lparr>ap_actived := ap_actived s - 1\<rparr>))"

definition skw_set_state :: "nat \<Rightarrow> SKW_STATES \<Rightarrow> ap_state \<Rightarrow> ap_state" where
  "skw_set_state i st = upd_ctx i (on_peer (\<lambda>p. p\<lparr>sp_state := st\<rparr>))"

definition set_ctx_flags :: "u8 \<Rightarrow> nat \<Rightarrow> ap_state \<Rightarrow> ap_state" where
  "set_ctx_flags fl i = upd_ctx i (on_peer (\<lambda>p. p\<lparr>sp_flags := sp_flags p OR fl\<rparr>))"

definition is_unicast_ether_addr :: "u8 list \<Rightarrow> bool" where
  "is_unicast_ether_addr a \<longleftrightarrow> \<not> bit (a ! 0) 0"

definition skw_set_peer_flags :: "u8 list \<Rightarrow> u8 \<Rightarrow> ap_state \<Rightarrow> ap_state" where
  "skw_set_peer_flags addr fl s =
     (if is_unicast_ether_addr addr then (case skw_peer_ctx addr s of None \<Rightarrow> s | Some i \<Rightarrow> set_ctx_flags fl i s)
      else fold (set_ctx_flags fl) (map_bits (ap_peer_map s)) s)"

definition peer_ctx_bind :: "nat \<Rightarrow> sta_peer option \<Rightarrow> ap_state \<Rightarrow> ap_state" where
  "peer_ctx_bind i p s =
     (upd_ctx i (\<lambda>x. x\<lparr>sc_peer := p\<rparr>) s)
       \<lparr>ap_peer_map := (if p = None then unset_bit i (ap_peer_map s) else set_bit i (ap_peer_map s))\<rparr>"

definition add_station_end :: "ap_cfg \<Rightarrow> u8 list \<Rightarrow> nat \<Rightarrow> ap_state \<Rightarrow> ap_state" where
  "add_station_end cfg mac i s =
     (let s1 = skw_set_state i SKW_STATE_AUTHED (peer_ctx_transmit i False s) in
      if ac_wep_share cfg then do_cmd (Cmd_wep_key mac) s1 else s1)"

definition skw_add_station :: "ap_cfg \<Rightarrow> ap_env \<Rightarrow> u8 list \<Rightarrow> ap_state \<Rightarrow> int \<times> ap_state" where
  "skw_add_station cfg en mac s =
     (case skw_peer_ctx mac s of
        Some i \<Rightarrow> (0, add_station_end cfg mac i s)
      | None \<Rightarrow>
          if \<not> en_peer_ok en then (- ENOMEM, s)
          else
            (let s1 = do_cmd (Cmd_add_sta mac) s; ret = en_send en (Cmd_add_sta mac); idx = unat (en_idx en) in
             if ret \<noteq> 0 then (ret, s1)
             else if 32 \<le> idx then (- EINVAL, do_cmd (Cmd_del_sta mac 3 False) s1)
             else
               (let p = \<lparr>sp_id = ap_next s, sp_addr = mac, sp_state = SKW_STATE_NONE, sp_flags = 0\<rparr> in
                (0, add_station_end cfg mac idx (peer_ctx_bind idx (Some p) (s1\<lparr>ap_next := ap_next s + 1\<rparr>))))))"

definition skw_sap_del_sta :: "ap_cfg \<Rightarrow> ap_env \<Rightarrow> nat \<Rightarrow> u16 \<Rightarrow> ap_state \<Rightarrow> int \<times> ap_state" where
  "skw_sap_del_sta cfg en i reason s =
     (case sc_peer (ap_ctx s ! i) of
        None \<Rightarrow> (0, s)
      | Some p \<Rightarrow>
          (let mac = sp_addr p; tx = (sp_flags p AND SKW_PEER_FLAG_DEAUTHED = 0);
               s1 = set_ctx_flags SKW_PEER_FLAG_DEAUTHED i (skw_set_state i SKW_STATE_NONE (peer_ctx_transmit i False s));
               s2 = do_cmd (Cmd_del_sta mac reason tx) (skw_mlme_ap_remove_client cfg mac s1);
               ret = en_send en (Cmd_del_sta mac reason tx) in
           (ret, if ret = 0 then peer_ctx_bind i None s2 else s2)))"

definition skw_sap_flush_sta :: "ap_cfg \<Rightarrow> ap_env \<Rightarrow> u16 \<Rightarrow> ap_state \<Rightarrow> ap_state" where
  "skw_sap_flush_sta cfg en reason s = fold (\<lambda>i s. snd (skw_sap_del_sta cfg en i reason s)) (map_bits (ap_peer_map s)) s"

definition skw_del_station :: "ap_cfg \<Rightarrow> ap_env \<Rightarrow> u8 list \<Rightarrow> u16 \<Rightarrow> ap_state \<Rightarrow> int \<times> ap_state" where
  "skw_del_station cfg en mac reason s =
     (if mac = replicate 6 0xFF then (0, skw_sap_flush_sta cfg en reason s)
      else case skw_peer_ctx mac s of None \<Rightarrow> (- ENOENT, s) | Some i \<Rightarrow> skw_sap_del_sta cfg en i reason s)"

text \<open>The bits of \<open>sta_flags_set\<close>; the interface is an access point.\<close>

definition NL80211_STA_FLAG_AUTHORIZED :: nat where "NL80211_STA_FLAG_AUTHORIZED = 1"
definition NL80211_STA_FLAG_ASSOCIATED :: nat where "NL80211_STA_FLAG_ASSOCIATED = 7"

definition skw_change_station :: "ap_cfg \<Rightarrow> u8 list \<Rightarrow> u32 \<Rightarrow> ap_state \<Rightarrow> int \<times> ap_state" where
  "skw_change_station cfg mac flags s =
     (case skw_peer_ctx mac s of
        None \<Rightarrow> (- EINVAL, s)
      | Some i \<Rightarrow>
          (let assoc = bit flags NL80211_STA_FLAG_ASSOCIATED;
               s1 = (if assoc then skw_set_state i SKW_STATE_ASSOCED (peer_ctx_transmit i True s) else s);
               authorized = (bit flags NL80211_STA_FLAG_AUTHORIZED \<or> assoc \<and> ac_n_akm cfg = 0) in
           (0, if authorized then skw_set_state i SKW_STATE_COMPLETED s1 else s1)))"

definition skw_mlme_ap_del_sta :: "ap_cfg \<Rightarrow> ap_env \<Rightarrow> u8 list \<Rightarrow> ap_state \<Rightarrow> ap_state" where
  "skw_mlme_ap_del_sta cfg en addr s = snd (skw_del_station cfg en addr 3 s)"

section \<open>Frames sent\<close>

definition skw_tx_cookie :: "u64 \<Rightarrow> u64" where
  "skw_tx_cookie k = (if k + 1 = 0 then 1 else k + 1)"

text \<open>The result of a transmission, the cookie if it was assigned, and the state.\<close>

definition skw_mgmt_tx :: "ap_cfg \<Rightarrow> ap_env \<Rightarrow> u8 list \<Rightarrow> ap_state \<Rightarrow> int \<times> u64 option \<times> ap_state" where
  "skw_mgmt_tx cfg en frame s =
     (let ck = skw_tx_cookie (ap_cookie s); s1 = s\<lparr>ap_cookie := ck\<rparr>; fc = SKW_MGMT_SFC (get16 frame); da = take 6 (drop 4 frame) in
      if ac_chan cfg = None then (- EINVAL, None, s1)
      else if \<not> en_param_ok en then (- ENOMEM, None, s1)
      else
        (let ret = en_send en (Cmd_tx_mgmt ck frame); s2 = do_cmd (Cmd_tx_mgmt ck frame) s1 in
         if ret \<noteq> 0 then (ret, Some ck, s2)
         else
           (let s3 = s2\<lparr>ap_sent := ap_sent s2 @ [(ck, frame)]\<rparr> in
            (0, Some ck, if is_unicast_ether_addr da \<and> (fc = IEEE80211_STYPE_DEAUTH \<or> fc = IEEE80211_STYPE_DISASSOC)
                         then skw_set_peer_flags da SKW_PEER_FLAG_DEAUTHED s3 else s3))))"

text \<open>The same for a client, whose cookie is then that of the frame.\<close>

definition client_tx :: "ap_cfg \<Rightarrow> ap_env \<Rightarrow> nat \<Rightarrow> u8 list \<Rightarrow> ap_state \<Rightarrow> int \<times> ap_state" where
  "client_tx cfg en n frame s =
     (case skw_mgmt_tx cfg en frame s of
        (ret, None, s1) \<Rightarrow> (ret, s1)
      | (ret, Some ck, s1) \<Rightarrow> (ret, upd_client n (\<lambda>c. c\<lparr>cl_cookie := ck\<rparr>) s1))"

definition skw_ap_send_disassoc :: "ap_cfg \<Rightarrow> ap_env \<Rightarrow> skw_client \<Rightarrow> u16 \<Rightarrow> ap_state \<Rightarrow> ap_state" where
  "skw_ap_send_disassoc cfg en c reason s =
     snd (client_tx cfg en (cl_id c) (mgmt_hdr IEEE80211_STYPE_DISASSOC (cl_addr c) (ac_addr cfg) (ac_bssid cfg) @ le16 reason) s)"

definition skw_mlme_ap_auth_reply ::
  "ap_cfg \<Rightarrow> ap_env \<Rightarrow> skw_client \<Rightarrow> u8 list \<Rightarrow> u16 \<Rightarrow> u16 \<Rightarrow> u16 \<Rightarrow> u8 list \<Rightarrow> ap_state \<Rightarrow> int \<times> ap_state" where
  "skw_mlme_ap_auth_reply cfg en c bssid alg tr status ies s =
     (if \<not> en_reply_ok en then (- ENOMEM, s)
      else client_tx cfg en (cl_id c)
        (mgmt_hdr IEEE80211_STYPE_AUTH (cl_addr c) (ac_addr cfg) bssid @ le16 alg @ le16 tr @ le16 status @ ies) s)"

text \<open>The elements of the probe response that go into the association response.\<close>

record skw_element_info =
  ei_ssid :: "u8 list option"
  ei_support_rate :: "u8 list option"
  ei_ext_rate :: "u8 list option"
  ei_ht_capa :: "u8 list option"
  ei_ht_oper :: "u8 list option"
  ei_vht_capa :: "u8 list option"
  ei_vht_oper :: "u8 list option"
  ei_ext_capa :: "u8 list option"
  ei_vendor_vht :: "u8 list option"
  ei_overrun :: bool

definition no_elements :: skw_element_info where
  "no_elements = \<lparr>ei_ssid = None, ei_support_rate = None, ei_ext_rate = None, ei_ht_capa = None, ei_ht_oper = None, ei_vht_capa = None,
     ei_vht_oper = None, ei_ext_capa = None, ei_vendor_vht = None, ei_overrun = False\<rparr>"

text \<open>The name of the network is copied into 32 bytes whatever its length.\<close>

definition parse_element :: "u8 \<times> u8 list \<Rightarrow> skw_element_info \<Rightarrow> skw_element_info" where
  "parse_element x e =
     (let d = snd x in
      if fst x = 0 then e\<lparr>ei_ssid := Some d, ei_overrun := (ei_overrun e \<or> 32 < length d)\<rparr>
      else if fst x = 1 then e\<lparr>ei_support_rate := Some d\<rparr>
      else if fst x = 50 then e\<lparr>ei_ext_rate := Some d\<rparr>
      else if fst x = 45 then e\<lparr>ei_ht_capa := Some d\<rparr>
      else if fst x = 61 then e\<lparr>ei_ht_oper := Some d\<rparr>
      else if fst x = 191 then e\<lparr>ei_vht_capa := Some d\<rparr>
      else if fst x = 192 then e\<lparr>ei_vht_oper := Some d\<rparr>
      else if fst x = 127 then e\<lparr>ei_ext_capa := Some d\<rparr>
      else if fst x = 221 then e\<lparr>ei_vendor_vht := Some d\<rparr>
      else e)"

definition skw_mlme_ap_parse_ies :: "u8 list \<Rightarrow> skw_element_info" where
  "skw_mlme_ap_parse_ies bs = fold parse_element (skw_foreach_element bs) no_elements"

definition ie_copy :: "u8 \<Rightarrow> u8 list \<Rightarrow> u8 list" where
  "ie_copy eid d = eid # of_nat (length d) # d"

definition skw_mlme_ap_add_rate :: "ap_cfg \<Rightarrow> u8 list" where
  "skw_mlme_ap_add_rate cfg =
     (let rates = map (\<lambda>r. of_nat (r div 5)) (ac_rates cfg); nr = length rates - 8;
          sel = (if ac_ht_required cfg then [0x80 OR 127] else []) @ (if ac_vht_required cfg then [0x80 OR 126] else []) in
      [1, 8] @ take 8 rates @ [50, of_nat (nr + length sel)] @ drop 8 rates @ sel)"

definition skw_mlme_ap_add_ht_cap :: "ap_cfg \<Rightarrow> u8 list" where
  "skw_mlme_ap_add_ht_cap cfg = (case ac_ht_cap cfg of None \<Rightarrow> [] | Some d \<Rightarrow> [45, 26] @ d)"

definition skw_mlme_ap_add_ht_oper :: "ap_cfg \<Rightarrow> u8 list" where
  "skw_mlme_ap_add_ht_oper cfg = [61, 22, (case ac_chan cfg of None \<Rightarrow> 0 | Some ch \<Rightarrow> ch)] @ replicate 21 0"

definition assoc_reply_ies :: "ap_cfg \<Rightarrow> skw_element_info \<Rightarrow> u8 list" where
  "assoc_reply_ies cfg e =
     (case ei_support_rate e of
        Some d \<Rightarrow> ie_copy 1 d @ (case ei_ext_rate e of None \<Rightarrow> [] | Some x \<Rightarrow> ie_copy 50 x)
      | None \<Rightarrow> skw_mlme_ap_add_rate cfg) @
     (case (ei_ht_capa e, ei_ht_oper e) of
        (Some a, Some b) \<Rightarrow> ie_copy 45 a @ ie_copy 61 b
      | _ \<Rightarrow> skw_mlme_ap_add_ht_cap cfg @ skw_mlme_ap_add_ht_oper cfg) @
     (case ei_vendor_vht e of None \<Rightarrow> [] | Some d \<Rightarrow> ie_copy 221 d)"

definition skw_mlme_ap_assoc_reply :: "ap_cfg \<Rightarrow> ap_env \<Rightarrow> skw_client \<Rightarrow> u16 \<Rightarrow> bool \<Rightarrow> ap_state \<Rightarrow> int \<times> ap_state" where
  "skw_mlme_ap_assoc_reply cfg en c status reassoc s =
     (if \<not> en_reply_ok en then (- ENOMEM, s)
      else
        (let e = skw_mlme_ap_parse_ies (drop 36 (ac_probe_resp cfg)); ies = assoc_reply_ies cfg e;
             frame = mgmt_hdr (if reassoc then IEEE80211_STYPE_REASSOC_RESP else IEEE80211_STYPE_ASSOC_RESP) (cl_addr c) (ac_addr cfg) (ac_bssid cfg) @
               le16 (cl_capa c) @ le16 status @ le16 (of_nat (cl_aid c)) @ ies in
         client_tx cfg en (cl_id c) frame
           (s\<lparr>ap_fault := (ap_fault s \<or> ei_overrun e \<or> ac_mgmt_size cfg + 1024 < 30 + length ies)\<rparr>)))"

section \<open>Frames received\<close>

definition auth_client :: "ap_cfg \<Rightarrow> ap_env \<Rightarrow> u8 list \<Rightarrow> ap_state \<Rightarrow> skw_client option \<times> ap_state" where
  "auth_client cfg en sa s =
     (case skw_mlme_ap_get_client sa s of
        Some c \<Rightarrow> (Some c, s)
      | None \<Rightarrow>
          (case skw_mlme_ap_add_client en sa s of
             (None, s1) \<Rightarrow> (None, s1)
           | (Some c, s1) \<Rightarrow> (Some c, snd (skw_add_station cfg en sa s1))))"

definition auth_end ::
  "ap_cfg \<Rightarrow> ap_env \<Rightarrow> mem \<Rightarrow> skw_client \<Rightarrow> u16 \<Rightarrow> u8 list \<Rightarrow> ap_state \<Rightarrow> ap_state" where
  "auth_end cfg en m c status ies s =
     (case skw_mlme_ap_auth_reply cfg en c (mg_bssid m) (m16 m 24) (m16 m 26 + 1) status ies s of
        (ret, s1) \<Rightarrow>
          if ret \<noteq> 0 \<or> status \<noteq> WLAN_STATUS_SUCCESS
          then skw_mlme_ap_del_sta cfg en (mg_sa m) (upd_client (cl_id c) (\<lambda>c. c\<lparr>cl_state := SKW_STATE_NONE\<rparr>) s1)
          else s1)"

text \<open>A challenge that is overwritten is lost; 16 is the identifier of a challenge, which has 128 bytes.\<close>

definition auth_shared_key :: "ap_cfg \<Rightarrow> ap_env \<Rightarrow> mem \<Rightarrow> skw_client \<Rightarrow> ap_state \<Rightarrow> ap_state" where
  "auth_shared_key cfg en m c s =
     (if m16 m 26 = 1 then
        (let s1 = (upd_client (cl_id c) (\<lambda>c. c\<lparr>cl_challenge := en_chal en\<rparr>) s)
                    \<lparr>ap_lost := ap_lost s + (if cl_challenge c = None then 0 else 1)\<rparr> in
         case en_chal en of
           None \<Rightarrow> auth_end cfg en m c WLAN_STATUS_UNSPECIFIED_FAILURE [] s1
         | Some ch \<Rightarrow> auth_end cfg en m c WLAN_STATUS_SUCCESS ([16, 128] @ ch) s1)
      else if m16 m 26 = 3 then
        auth_end cfg en m c (if cl_challenge c = Some (m_bytes m 32 128) then WLAN_STATUS_SUCCESS else WLAN_STATUS_CHALLENGE_FAIL) [] s
      else auth_end cfg en m c WLAN_STATUS_UNKNOWN_AUTH_TRANSACTION [] s)"

definition skw_mlme_ap_auth_handler :: "ap_cfg \<Rightarrow> ap_env \<Rightarrow> mem \<Rightarrow> nat \<Rightarrow> ap_state \<Rightarrow> ap_state" where
  "skw_mlme_ap_auth_handler cfg en m len s =
     (case auth_client cfg en (mg_sa m) s of
        (None, s1) \<Rightarrow> s1
      | (Some c, s1) \<Rightarrow>
          if has_retry (mg_fc m) \<and> cl_last_seq_ctrl c = mg_seq m then s1
          else
            (let s2 = upd_client (cl_id c) (\<lambda>c. c\<lparr>cl_last_seq_ctrl := mg_seq m, cl_state := SKW_STATE_AUTHED\<rparr>) s1; alg = m16 m 24 in
             if mg_bssid m \<noteq> ac_bssid cfg then auth_end cfg en m c WLAN_STATUS_UNSPECIFIED_FAILURE [] s2
             else if alg = WLAN_AUTH_OPEN then
               if m16 m 26 \<noteq> 1 then auth_end cfg en m c WLAN_STATUS_UNKNOWN_AUTH_TRANSACTION [] s2
               else if m16 m 28 \<noteq> WLAN_STATUS_SUCCESS then s2
               else auth_end cfg en m c WLAN_STATUS_SUCCESS [] s2
             else if alg = WLAN_AUTH_SAE then notify (Rx_frame m len) s2
             else if alg = WLAN_AUTH_SHARED_KEY then auth_shared_key cfg en m c s2
             else auth_end cfg en m c WLAN_STATUS_NOT_SUPPORTED_AUTH_ALG [] s2))"

text \<open>The elements of a request start behind its fixed fields: 4 bytes, or 10 in a reassociation.\<close>

definition assoc_ies :: "mem \<Rightarrow> nat \<Rightarrow> bool \<Rightarrow> u8 list" where
  "assoc_ies m len reassoc = (let off = (if reassoc then 34 else 28) in m_bytes m off (len - off))"

definition skw_mlme_ap_assoc_handler :: "ap_cfg \<Rightarrow> ap_env \<Rightarrow> mem \<Rightarrow> nat \<Rightarrow> bool \<Rightarrow> ap_state \<Rightarrow> int \<times> ap_state" where
  "skw_mlme_ap_assoc_handler cfg en m len reassoc s =
     (case skw_mlme_ap_get_client (mg_sa m) s of
        None \<Rightarrow> (0, s)
      | Some c \<Rightarrow>
          if cl_state c = SKW_STATE_NONE then (0, skw_ap_send_disassoc cfg en c WLAN_REASON_CLASS2_FRAME_FROM_NONAUTH_STA s)
          else if has_retry (mg_fc m) \<and> cl_last_seq_ctrl c = mg_seq m then (0, s)
          else
            (case skw_mlme_ap_new_aid (ap_aid_map s) of
               (aid, amap) \<Rightarrow>
                 (let f = (\<lambda>c. c\<lparr>cl_last_seq_ctrl := mg_seq m, cl_capa := m16 m 24, cl_aid := aid\<rparr>);
                      s1 = (upd_client (cl_id c) f s)\<lparr>ap_aid_map := amap\<rparr> in
                  case skw_mlme_ap_assoc_reply cfg en (f c) WLAN_STATUS_SUCCESS reassoc s1 of
                    (ret, s2) \<Rightarrow>
                      if ret \<noteq> 0 then (ret, s2)
                      else (0, upd_client (cl_id c)
                                 (\<lambda>c. if cl_assoc_req_ie c = None \<and> en_ie_ok en \<and> (if reassoc then 34 else 28) \<le> len
                                      then c\<lparr>cl_assoc_req_ie := Some (assoc_ies m len reassoc)\<rparr> else c) s2))))"

definition skw_mlme_ap_rx_mgmt :: "ap_cfg \<Rightarrow> ap_env \<Rightarrow> u16 \<Rightarrow> mem \<Rightarrow> nat \<Rightarrow> ap_state \<Rightarrow> ap_state" where
  "skw_mlme_ap_rx_mgmt cfg en fc m len s =
     (if fc = IEEE80211_STYPE_AUTH then skw_mlme_ap_auth_handler cfg en m len s
      else if fc = IEEE80211_STYPE_DEAUTH \<or> fc = IEEE80211_STYPE_DISASSOC then
        (case skw_mlme_ap_get_client (mg_sa m) s of
           None \<Rightarrow> s
         | Some c \<Rightarrow>
             if SKW_STATE_ASSOCED \<le> cl_state c then notify (Gone_sta (cl_addr c)) s
             else if SKW_STATE_AUTHED \<le> cl_state c then skw_mlme_ap_del_sta cfg en (cl_addr c) s
             else s)
      else if fc = IEEE80211_STYPE_REASSOC_REQ then snd (skw_mlme_ap_assoc_handler cfg en m len True s)
      else if fc = IEEE80211_STYPE_ASSOC_REQ then snd (skw_mlme_ap_assoc_handler cfg en m len False s)
      else if fc = IEEE80211_STYPE_PROBE_REQ \<or> fc = IEEE80211_STYPE_PROBE_RESP \<or> fc = IEEE80211_STYPE_ACTION then notify (Rx_frame m len) s
      else s)"

definition peer_addrs :: "ap_state \<Rightarrow> u8 list option list" where
  "peer_addrs s = map (\<lambda>x. map_option sp_addr (sc_peer x)) (ap_ctx s)"

text \<open>An associated station that authenticates again is marked; with an external state machine it is told to leave first.\<close>

definition mark_reauth :: "u8 list \<Rightarrow> ap_state \<Rightarrow> bool \<times> ap_state" where
  "mark_reauth sa s =
     (case skw_peer_ctx sa s of
        None \<Rightarrow> (False, s)
      | Some i \<Rightarrow>
          (case sc_peer (ap_ctx s ! i) of
             None \<Rightarrow> (False, s)
           | Some p \<Rightarrow> if SKW_STATE_ASSOCED \<le> sp_state p then (True, set_ctx_flags SKW_PEER_FLAG_DEAUTHED i s) else (False, s)))"

definition sap_rx_pass :: "ap_cfg \<Rightarrow> ap_env \<Rightarrow> u16 \<Rightarrow> mem \<Rightarrow> nat \<Rightarrow> bool \<times> ap_state \<Rightarrow> ap_state" where
  "sap_rx_pass cfg en fc m len x =
     (case x of (force, s) \<Rightarrow>
        if ac_sme_external cfg
        then notify (Rx_frame m len) (if force then notify (Deauth_sta (mg_sa m)) s else s)
        else skw_mlme_ap_rx_mgmt cfg en fc m len s)"

definition skw_sap_rx_mgmt :: "ap_cfg \<Rightarrow> ap_env \<Rightarrow> u16 \<Rightarrow> mem \<Rightarrow> nat \<Rightarrow> ap_state \<Rightarrow> ap_state" where
  "skw_sap_rx_mgmt cfg en fc m len s =
     (if fc = IEEE80211_STYPE_AUTH then
        if \<not> skw_sta_access_allowed (ac_acl cfg) (peer_addrs s) (ap_peer_map s) (ac_max_sta cfg) (mg_sa m)
        then do_cmd (Cmd_del_sta (mg_sa m) 5 True) s
        else sap_rx_pass cfg en fc m len (mark_reauth (mg_sa m) s)
      else if fc = IEEE80211_STYPE_DISASSOC then sap_rx_pass cfg en fc (m(0 := 0xC0, 1 := 0)) len (False, s)
      else sap_rx_pass cfg en fc m len (False, s))"

text \<open>
  The event of a frame. \<open>early\<close> is the answer of the test against the start of an authentication, which reads a field of the station's
  half of a union that holds the access point's data here.
\<close>

definition skw_event_rx_mgmt :: "ap_cfg \<Rightarrow> ap_env \<Rightarrow> bool \<Rightarrow> mem \<Rightarrow> nat \<Rightarrow> ap_state \<Rightarrow> ap_state" where
  "skw_event_rx_mgmt cfg en early m len s =
     (let fc = SKW_MGMT_SFC (mg_fc m); leave = (fc = IEEE80211_STYPE_DEAUTH \<or> fc = IEEE80211_STYPE_DISASSOC) in
      if leave \<and> early then s
      else skw_sap_rx_mgmt cfg en fc m len
        (if leave then (case skw_peer_ctx (mg_sa m) s of None \<Rightarrow> s | Some i \<Rightarrow> set_ctx_flags SKW_PEER_FLAG_DEAUTHED i s) else s))"

section \<open>Reports of the firmware and timers\<close>

definition skw_mlme_ap_auth_cb :: "ap_cfg \<Rightarrow> ap_env \<Rightarrow> skw_client \<Rightarrow> mem \<Rightarrow> bool \<Rightarrow> ap_state \<Rightarrow> ap_state" where
  "skw_mlme_ap_auth_cb cfg en c m ack s =
     (if ack \<and> m16 m 28 = WLAN_STATUS_SUCCESS
      then s\<lparr>ap_timers := filter (\<lambda>n. n \<noteq> cl_id c) (ap_timers s) @ (if en_timer_ok en then [cl_id c] else [])\<rparr>
      else skw_mlme_ap_del_sta cfg en (cl_addr c) (upd_client (cl_id c) (\<lambda>c. c\<lparr>cl_state := SKW_STATE_NONE\<rparr>) s))"

definition skw_mlme_ap_assoc_cb :: "ap_cfg \<Rightarrow> ap_env \<Rightarrow> skw_client \<Rightarrow> mem \<Rightarrow> bool \<Rightarrow> ap_state \<Rightarrow> ap_state" where
  "skw_mlme_ap_assoc_cb cfg en c m ack s =
     (if ack \<and> m16 m 26 = WLAN_STATUS_SUCCESS
      then
        (let s1 = s\<lparr>ap_timers := filter (\<lambda>n. n \<noteq> cl_id c) (ap_timers s)\<rparr>;
             s2 = snd (skw_change_station cfg (cl_addr c) (set_bit NL80211_STA_FLAG_ASSOCIATED 0) s1) in
         upd_client (cl_id c) (\<lambda>c. c\<lparr>cl_assoc_req_ie := None, cl_state := SKW_STATE_ASSOCED\<rparr>)
           (notify (New_sta (cl_addr c) (case cl_assoc_req_ie c of None \<Rightarrow> [] | Some ies \<Rightarrow> ies)) s2))
      else skw_mlme_ap_del_sta cfg en (cl_addr c) (upd_client (cl_id c) (\<lambda>c. c\<lparr>cl_state := SKW_STATE_NONE\<rparr>) s))"

definition skw_mlme_ap_tx_status :: "ap_cfg \<Rightarrow> ap_env \<Rightarrow> u64 \<Rightarrow> mem \<Rightarrow> bool \<Rightarrow> ap_state \<Rightarrow> ap_state" where
  "skw_mlme_ap_tx_status cfg en cookie m ack s =
     (if ac_sme_external cfg then notify (Tx_report cookie m ack) s
      else
        (case skw_mlme_ap_get_client (mg_da m) s of
           None \<Rightarrow> notify (Tx_report cookie m ack) s
         | Some c \<Rightarrow>
             if cl_cookie c \<noteq> cookie then notify (Tx_report cookie m ack) s
             else
               (let fc = SKW_MGMT_SFC (mg_fc m) in
                if fc = IEEE80211_STYPE_AUTH then skw_mlme_ap_auth_cb cfg en c m ack s
                else if fc = IEEE80211_STYPE_REASSOC_RESP \<or> fc = IEEE80211_STYPE_ASSOC_RESP then skw_mlme_ap_assoc_cb cfg en c m ack s
                else s)))"

text \<open>The timer of client \<open>n\<close> fires: it is off the list; without the client, its callback would read freed memory.\<close>

definition skw_mlme_ap_auth_timeout :: "ap_cfg \<Rightarrow> ap_env \<Rightarrow> nat \<Rightarrow> ap_state \<Rightarrow> ap_state" where
  "skw_mlme_ap_auth_timeout cfg en n s =
     (let s1 = s\<lparr>ap_timers := filter (\<lambda>k. k \<noteq> n) (ap_timers s)\<rparr> in
      case List.find (\<lambda>c. cl_id c = n) (ap_clients s) of
        None \<Rightarrow> s1\<lparr>ap_fault := True\<rparr>
      | Some c \<Rightarrow>
          if cl_state c = SKW_STATE_ASSOCED then s1
          else if time_after (en_jiffies en) (cl_idle c + ac_auth_timeout cfg) \<and> en_event_ok en then s1\<lparr>ap_local := ap_local s @ [c]\<rparr>
          else s1)"

text \<open>The event of the driver itself, which carries a copy of the client.\<close>

definition skw_local_ap_auth_timeout :: "ap_cfg \<Rightarrow> ap_env \<Rightarrow> ap_state \<Rightarrow> ap_state" where
  "skw_local_ap_auth_timeout cfg en s =
     (case ap_local s of [] \<Rightarrow> s | c # cs \<Rightarrow> skw_mlme_ap_del_sta cfg en (cl_addr c) (s\<lparr>ap_local := cs\<rparr>))"

section \<open>The machine\<close>

datatype ap_op =
    ApRx ap_env bool mem nat
  | ApTxStatus ap_env u64 mem bool
  | ApTimer ap_env nat
  | ApLocal ap_env
  | ApAdd ap_env "u8 list"
  | ApChange "u8 list" u32
  | ApDel ap_env "u8 list" u16

primrec ap_step :: "ap_cfg \<Rightarrow> ap_op \<Rightarrow> ap_state \<Rightarrow> ap_state" where
  "ap_step cfg (ApRx en early m len) s = skw_event_rx_mgmt cfg en early m len s"
| "ap_step cfg (ApTxStatus en cookie m ack) s = skw_mlme_ap_tx_status cfg en cookie m ack s"
| "ap_step cfg (ApTimer en n) s = skw_mlme_ap_auth_timeout cfg en n s"
| "ap_step cfg (ApLocal en) s = skw_local_ap_auth_timeout cfg en s"
| "ap_step cfg (ApAdd en mac) s = snd (skw_add_station cfg en mac s)"
| "ap_step cfg (ApChange mac fl) s = snd (skw_change_station cfg mac fl s)"
| "ap_step cfg (ApDel en mac reason) s = snd (skw_del_station cfg en mac reason s)"

text \<open>A timer fires only when it is armed, and the firmware reports on frames it was given, with their bytes.\<close>

primrec ap_guard :: "ap_op \<Rightarrow> ap_state \<Rightarrow> bool" where
  "ap_guard (ApRx en early m len) s \<longleftrightarrow> True"
| "ap_guard (ApTxStatus en cookie m ack) s \<longleftrightarrow> list_ex (\<lambda>(k, f). k = cookie \<and> m_bytes m 0 (length f) = f) (ap_sent s)"
| "ap_guard (ApTimer en n) s \<longleftrightarrow> n \<in> set (ap_timers s)"
| "ap_guard (ApLocal en) s \<longleftrightarrow> True"
| "ap_guard (ApAdd en mac) s \<longleftrightarrow> True"
| "ap_guard (ApChange mac fl) s \<longleftrightarrow> True"
| "ap_guard (ApDel en mac reason) s \<longleftrightarrow> True"

definition ap_init :: ap_state where
  "ap_init = \<lparr>ap_clients = [], ap_count = 0, ap_aid_map = 0, ap_ctx = replicate 32 \<lparr>sc_peer = None, sc_entry = None\<rparr>, ap_peer_map = 0,
     ap_actived = 0, ap_timers = [], ap_local = [], ap_cookie = 0, ap_next = 0, ap_sent = [], ap_cmds = [], ap_up = [], ap_lost = 0,
     ap_fault = False\<rparr>"

section \<open>A station that connects\<close>

text \<open>The part of \<open>struct skw_connect_param\<close> that the responses change.\<close>

record skw_connect_param =
  cn_state :: SKW_STATES
  cn_auth_type :: nat
  cn_auth_auto :: bool
  cn_key_len :: nat

definition NL80211_AUTHTYPE_OPEN_SYSTEM :: nat where "NL80211_AUTHTYPE_OPEN_SYSTEM = 0"
definition NL80211_AUTHTYPE_SHARED_KEY :: nat where "NL80211_AUTHTYPE_SHARED_KEY = 1"
definition NL80211_AUTHTYPE_FT :: nat where "NL80211_AUTHTYPE_FT = 2"
definition NL80211_AUTHTYPE_SAE :: nat where "NL80211_AUTHTYPE_SAE = 4"

lemmas authtype_defs = NL80211_AUTHTYPE_OPEN_SYSTEM_def NL80211_AUTHTYPE_SHARED_KEY_def NL80211_AUTHTYPE_FT_def NL80211_AUTHTYPE_SAE_def

text \<open>What a response makes the driver do: hand the frame on, report a fast transition, associate, try again, or report the outcome.\<close>

datatype sta_act = Sta_rx_mgmt mem nat | Sta_ft_event "u8 list" int | Sta_assoc | Sta_retry | Sta_connected u16 "u8 list" int | Sta_disconnected u16 "u8 list" int

definition skw_mlme_sta_ft_event :: "mem \<Rightarrow> nat \<Rightarrow> sta_act" where
  "skw_mlme_sta_ft_event m len = Sta_ft_event (m_bytes m 16 6) (int len - 30)"

definition next_auth_type :: "skw_connect_param \<Rightarrow> skw_connect_param" where
  "next_auth_type c =
     (if cn_auth_type c = NL80211_AUTHTYPE_OPEN_SYSTEM
      then c\<lparr>cn_auth_type := (if cn_key_len c \<noteq> 0 then NL80211_AUTHTYPE_SHARED_KEY else NL80211_AUTHTYPE_FT)\<rparr>
      else if cn_auth_type c = NL80211_AUTHTYPE_SHARED_KEY then c\<lparr>cn_auth_type := NL80211_AUTHTYPE_FT\<rparr>
      else c\<lparr>cn_auth_auto := False\<rparr>)"

definition skw_mlme_sta_rx_auth :: "mem \<Rightarrow> nat \<Rightarrow> skw_connect_param \<Rightarrow> sta_act option \<times> skw_connect_param" where
  "skw_mlme_sta_rx_auth m len c =
     (let c1 = c\<lparr>cn_state := SKW_STATE_AUTHED\<rparr>; status = m16 m 28 in
      if cn_auth_type c = NL80211_AUTHTYPE_SAE then (Some (Sta_rx_mgmt m len), c1)
      else if cn_auth_type c = NL80211_AUTHTYPE_FT then (Some (skw_mlme_sta_ft_event m len), c1)
      else if status = WLAN_STATUS_SUCCESS then (Some Sta_assoc, c1)
      else if cn_auth_auto c \<and> status = WLAN_STATUS_NOT_SUPPORTED_AUTH_ALG then
        (let c2 = next_auth_type c1 in
         if cn_auth_auto c2 then (Some Sta_retry, c2) else (None, c2\<lparr>cn_state := SKW_STATE_NONE\<rparr>))
      else (None, c1\<lparr>cn_state := SKW_STATE_NONE\<rparr>))"

definition skw_mlme_sta_rx_assoc :: "mem \<Rightarrow> nat \<Rightarrow> skw_connect_param \<Rightarrow> sta_act \<times> skw_connect_param" where
  "skw_mlme_sta_rx_assoc m len c =
     (let n = int len - 30; ies = m_bytes m 30 (len - 30); status = m16 m 26 in
      if status = WLAN_STATUS_SUCCESS then (Sta_connected status ies n, c\<lparr>cn_state := SKW_STATE_ASSOCED\<rparr>)
      else (Sta_disconnected status ies n, c\<lparr>cn_state := SKW_STATE_NONE\<rparr>))"

end
