(* ===== verification/Skw_Mlme_Props.thy ===== *)
theory Skw_Mlme_Props
  imports Skw_Mlme
begin

text \<open>
  Properties of the access point's state machine: its tables stay consistent over any sequence of frames, reports,
  timers and commands, and a station is associated only after the whole exchange.
\<close>

section \<open>What the operations on peers leave alone\<close>

text \<open>The part of the state that belongs to the clients.\<close>

definition client_view :: "ap_state \<Rightarrow> skw_client list \<times> int \<times> u64 \<times> nat list \<times> skw_client list" where
  "client_view s = (ap_clients s, ap_count s, ap_aid_map s, ap_timers s, ap_local s)"

lemma client_viewD:
  assumes "client_view s = client_view t"
  shows "ap_clients s = ap_clients t" "ap_count s = ap_count t" "ap_aid_map s = ap_aid_map t" "ap_timers s = ap_timers t" "ap_local s = ap_local t"
  using assms by (simp_all add: client_view_def)

lemma view_upd_ctx [simp]:
  "client_view (upd_ctx i f s) = client_view s" "ap_sent (upd_ctx i f s) = ap_sent s" "ap_next (upd_ctx i f s) = ap_next s"
  "length (ap_ctx (upd_ctx i f s)) = length (ap_ctx s)"
  by (simp_all add: client_view_def upd_ctx_def)

lemma view_updates [simp]:
  "client_view (s\<lparr>ap_actived := n\<rparr>) = client_view s" "client_view (s\<lparr>ap_peer_map := pm\<rparr>) = client_view s"
  "client_view (s\<lparr>ap_cookie := ck\<rparr>) = client_view s" "client_view (s\<lparr>ap_sent := se\<rparr>) = client_view s"
  "client_view (s\<lparr>ap_fault := b\<rparr>) = client_view s" "client_view (s\<lparr>ap_next := k\<rparr>) = client_view s"
  "client_view (s\<lparr>ap_lost := l\<rparr>) = client_view s"
  "client_view (do_cmd cmd s) = client_view s" "client_view (notify x s) = client_view s"
  by (simp_all add: client_view_def do_cmd_def notify_def)

lemma sent_updates [simp]:
  "ap_sent (do_cmd cmd s) = ap_sent s" "ap_sent (notify x s) = ap_sent s" "ap_next (do_cmd cmd s) = ap_next s" "ap_next (notify x s) = ap_next s"
  "length (ap_ctx (do_cmd cmd s)) = length (ap_ctx s)" "length (ap_ctx (notify x s)) = length (ap_ctx s)"
  by (simp_all add: do_cmd_def notify_def)

text \<open>Operations that change peers, commands and notices only.\<close>

definition peers_only :: "ap_state \<Rightarrow> ap_state \<Rightarrow> bool" where
  "peers_only s t \<longleftrightarrow> client_view t = client_view s \<and> ap_sent t = ap_sent s \<and> ap_next s \<le> ap_next t \<and> length (ap_ctx t) = length (ap_ctx s)"

lemma peers_only_refl [simp]: "peers_only s s"
  by (simp add: peers_only_def)

lemma peers_only_trans [trans]: "peers_only s t \<Longrightarrow> peers_only t u \<Longrightarrow> peers_only s u"
  by (auto simp: peers_only_def)

lemma transmit_only [simp]: "peers_only s (peer_ctx_transmit i b s)"
  by (auto simp: peers_only_def peer_ctx_transmit_def split: option.splits)

lemma set_state_only [simp]: "peers_only s (skw_set_state i st s)"
  by (simp add: peers_only_def skw_set_state_def)

lemma flags_only [simp]: "peers_only s (set_ctx_flags fl i s)"
  by (simp add: peers_only_def set_ctx_flags_def)

lemma do_cmd_only [simp]: "peers_only s (do_cmd cmd s)"
  by (simp add: peers_only_def)

lemma notify_only [simp]: "peers_only s (notify x s)"
  by (simp add: peers_only_def)

lemma bind_only [simp]: "peers_only s (peer_ctx_bind i p s)"
  by (simp add: peers_only_def peer_ctx_bind_def)

lemma fold_only: "(\<And>i s. peers_only s (f i s)) \<Longrightarrow> peers_only s (fold f is s)"
  by (induction "is" arbitrary: s) (auto intro: peers_only_trans)

lemma peer_flags_only [simp]: "peers_only s (skw_set_peer_flags a fl s)"
  by (auto simp: skw_set_peer_flags_def intro: fold_only split: option.split)

lemma add_end_only [simp]: "peers_only s (add_station_end cfg mac i s)"
proof -
  have "peers_only s (skw_set_state i SKW_STATE_AUTHED (peer_ctx_transmit i False s))"
    by (rule peers_only_trans [OF transmit_only set_state_only])
  then show ?thesis by (auto simp: add_station_end_def Let_def intro: peers_only_trans)
qed

lemma add_station_only [simp]: "peers_only s (snd (skw_add_station cfg en mac s))"
proof (cases "skw_peer_ctx mac s")
  case None
  let ?s1 = "do_cmd (Cmd_add_sta mac) s"
  have bump: "peers_only s (?s1\<lparr>ap_next := ap_next s + 1\<rparr>)" by (simp add: peers_only_def do_cmd_def client_view_def)
  then have "peers_only s (add_station_end cfg mac i (peer_ctx_bind i p (?s1\<lparr>ap_next := ap_next s + 1\<rparr>)))" for i p
    by (meson peers_only_trans bind_only add_end_only)
  moreover have "peers_only s (do_cmd c ?s1)" for c by (meson peers_only_trans do_cmd_only)
  ultimately show ?thesis using None by (simp add: skw_add_station_def Let_def)
qed (simp add: skw_add_station_def)

lemma change_station_only [simp]: "peers_only s (snd (skw_change_station cfg mac fl s))"
proof (cases "skw_peer_ctx mac s")
  case (Some i)
  have 1: "peers_only s (skw_set_state i st (peer_ctx_transmit i True s))" for st by (rule peers_only_trans [OF transmit_only set_state_only])
  then have "peers_only s (skw_set_state i st1 (skw_set_state i st (peer_ctx_transmit i True s)))" for st st1
    by (rule peers_only_trans [OF _ set_state_only])
  with 1 Some show ?thesis by (simp add: skw_change_station_def Let_def)
qed (simp add: skw_change_station_def)

lemma mark_reauth_only [simp]: "peers_only s (snd (mark_reauth a s))"
  by (simp add: mark_reauth_def split: option.split)

section \<open>The tables stay consistent\<close>

definition aids_ok :: "u64 \<Rightarrow> skw_client list \<Rightarrow> bool" where
  "aids_ok m cs \<longleftrightarrow> (\<forall>c \<in> set cs. cl_aid c \<le> 64 \<and> (cl_aid c \<noteq> 0 \<and> cl_aid c < 64 \<longrightarrow> bit m (cl_aid c))) \<and>
     inj_on cl_aid {c \<in> set cs. cl_aid c \<noteq> 0 \<and> cl_aid c < 64}"

definition ap_ok :: "ap_state \<Rightarrow> bool" where
  "ap_ok s \<longleftrightarrow> distinct (map cl_id (ap_clients s)) \<and> distinct (map cl_addr (ap_clients s)) \<and> (\<forall>c \<in> set (ap_clients s). cl_id c < ap_next s) \<and>
     ap_count s = int (length (ap_clients s)) \<and> set (ap_timers s) \<subseteq> cl_id ` set (ap_clients s) \<and> aids_ok (ap_aid_map s) (ap_clients s) \<and>
     (\<forall>x \<in> set (ap_sent s). 26 \<le> length (snd x))"

lemma ap_ok_only: "peers_only s t \<Longrightarrow> ap_ok s \<Longrightarrow> ap_ok t"
  by (auto simp: ap_ok_def peers_only_def client_view_def)

lemma upd_client_fields [simp]:
  "ap_count (upd_client n f s) = ap_count s" "ap_aid_map (upd_client n f s) = ap_aid_map s" "ap_timers (upd_client n f s) = ap_timers s"
  "ap_local (upd_client n f s) = ap_local s" "ap_next (upd_client n f s) = ap_next s" "ap_sent (upd_client n f s) = ap_sent s"
  "ap_ctx (upd_client n f s) = ap_ctx s" "length (ap_clients (upd_client n f s)) = length (ap_clients s)"
  by (simp_all add: upd_client_def)

lemma upd_client_map:
  assumes "\<And>c. g (f c) = g c"
  shows "map g (ap_clients (upd_client n f s)) = map g (ap_clients s)"
  using assms by (simp add: upd_client_def comp_def if_distrib)

text \<open>An update that keeps identity, address and association identifier.\<close>

definition keeps_keys :: "(skw_client \<Rightarrow> skw_client) \<Rightarrow> bool" where
  "keeps_keys f \<longleftrightarrow> (\<forall>c. cl_id (f c) = cl_id c \<and> cl_addr (f c) = cl_addr c \<and> cl_aid (f c) = cl_aid c)"

lemma set_map_image: "map g xs = map g ys \<Longrightarrow> g ` set xs = g ` set ys"
  by (metis list.set_map)

lemma aids_ok_map:
  assumes "aids_ok m cs" "\<And>c. cl_aid (g c) = cl_aid c"
  shows "aids_ok m (map g cs)"
proof -
  have "inj_on cl_aid {c \<in> set (map g cs). cl_aid c \<noteq> 0 \<and> cl_aid c < 64}"
  proof (rule inj_onI)
    fix x y assume x: "x \<in> {c \<in> set (map g cs). cl_aid c \<noteq> 0 \<and> cl_aid c < 64}" and y: "y \<in> {c \<in> set (map g cs). cl_aid c \<noteq> 0 \<and> cl_aid c < 64}"
      and e: "cl_aid x = cl_aid y"
    from x y obtain c d where cd: "c \<in> set cs" "x = g c" "d \<in> set cs" "y = g d" by auto
    then have "c = d" using assms x y e by (intro inj_onD [of cl_aid "{c \<in> set cs. cl_aid c \<noteq> 0 \<and> cl_aid c < 64}"]) (simp_all add: aids_ok_def)
    then show "x = y" using cd by simp
  qed
  then show ?thesis using assms by (simp add: aids_ok_def)
qed

lemma ap_ok_upd:
  assumes "ap_ok s" "keeps_keys f"
  shows "ap_ok (upd_client n f s)"
proof -
  let ?t = "upd_client n f s"
  have m: "map cl_id (ap_clients ?t) = map cl_id (ap_clients s)" "map cl_addr (ap_clients ?t) = map cl_addr (ap_clients s)"
    using assms(2) by (auto simp: keeps_keys_def intro!: upd_client_map)
  have ids: "cl_id ` set (ap_clients ?t) = cl_id ` set (ap_clients s)" by (rule set_map_image [OF m(1)])
  have "\<forall>c \<in> set (ap_clients ?t). cl_id c < ap_next s" using assms(1) ids by (metis (mono_tags, lifting) ap_ok_def image_iff)
  moreover have "aids_ok (ap_aid_map s) (ap_clients ?t)"
    using assms unfolding upd_client_def by (auto simp: ap_ok_def keeps_keys_def intro!: aids_ok_map)
  ultimately show ?thesis using assms(1) m ids by (simp add: ap_ok_def)
qed

lemma get_client_mem: "skw_mlme_ap_get_client a s = Some c \<Longrightarrow> c \<in> set (ap_clients s) \<and> cl_addr c = a"
  by (auto simp: skw_mlme_ap_get_client_def find_Some_iff)

lemma get_client_none: "skw_mlme_ap_get_client a s = None \<Longrightarrow> a \<notin> cl_addr ` set (ap_clients s)"
  by (auto simp: skw_mlme_ap_get_client_def find_None_iff)

lemma ap_ok_add:
  assumes "ap_ok s" "skw_mlme_ap_get_client a s = None"
  shows "ap_ok (snd (skw_mlme_ap_add_client en a s))"
proof -
  have new: "ap_next s \<notin> cl_id ` set (ap_clients s)" "a \<notin> cl_addr ` set (ap_clients s)"
    using assms get_client_none by (auto simp: ap_ok_def)
  have "aids_ok (ap_aid_map s) (ap_clients s @ [c])" if "cl_aid c = 0" for c
  proof -
    have "{x \<in> set (ap_clients s @ [c]). cl_aid x \<noteq> 0 \<and> cl_aid x < 64} = {x \<in> set (ap_clients s). cl_aid x \<noteq> 0 \<and> cl_aid x < 64}" using that by auto
    then show ?thesis using assms(1) that by (simp add: ap_ok_def aids_ok_def)
  qed
  moreover have "\<forall>c \<in> set (ap_clients s). cl_id c < Suc (ap_next s)" using assms(1) by (auto simp: ap_ok_def less_Suc_eq)
  moreover have "set (ap_timers s) \<subseteq> insert (ap_next s) (cl_id ` set (ap_clients s))" using assms(1) by (auto simp: ap_ok_def)
  moreover have "distinct (map cl_id (ap_clients s))" "distinct (map cl_addr (ap_clients s))" "ap_count s = int (length (ap_clients s))"
    using assms(1) by (simp_all add: ap_ok_def)
  ultimately show ?thesis using assms(1) new unfolding skw_mlme_ap_add_client_def Let_def
    by (cases "en_client_ok en") (simp_all add: ap_ok_def)
qed

lemma ap_ok_del: "ap_ok s \<Longrightarrow> c \<in> set (ap_clients s) \<Longrightarrow> ap_ok (skw_mlme_ap_del_client c s)"
proof -
  assume ok: "ap_ok s" and c: "c \<in> set (ap_clients s)"
  let ?cs = "filter (\<lambda>x. cl_id x \<noteq> cl_id c) (ap_clients s)"
  have inj: "inj_on cl_id (set (ap_clients s))" "distinct (ap_clients s)" using ok by (auto simp: ap_ok_def distinct_map)
  then have "?cs = filter (\<lambda>x. c \<noteq> x) (ap_clients s)" using c by (intro filter_cong) (auto dest: inj_onD)
  then have "?cs = remove1 c (ap_clients s)" using inj(2) by (simp add: distinct_remove1_removeAll removeAll_filter_not_eq)
  then have len: "length (ap_clients s) = Suc (length ?cs)" using c
    by (simp add: length_remove1) (metis Suc_pred length_pos_if_in_set)
  have aids: "aids_ok (if cl_aid c \<noteq> 0 \<and> cl_aid c < 64 then unset_bit (cl_aid c) (ap_aid_map s) else ap_aid_map s) ?cs"
  proof -
    have inj: "inj_on cl_aid {x \<in> set (ap_clients s). cl_aid x \<noteq> 0 \<and> cl_aid x < 64}" using ok by (simp add: ap_ok_def aids_ok_def)
    then have ne: "cl_aid x \<noteq> cl_aid c" if "x \<in> set ?cs" "cl_aid x \<noteq> 0" "cl_aid x < 64" for x
      using that c by (auto dest: inj_onD)
    have "cl_aid x \<le> 64" "bit (ap_aid_map s) (cl_aid x)" if "x \<in> set ?cs" "cl_aid x \<noteq> 0" "cl_aid x < 64" for x
      using that ok by (simp_all add: ap_ok_def aids_ok_def)
    then have "bit (if cl_aid c \<noteq> 0 \<and> cl_aid c < 64 then unset_bit (cl_aid c) (ap_aid_map s) else ap_aid_map s) (cl_aid x)"
      if "x \<in> set ?cs" "cl_aid x \<noteq> 0" "cl_aid x < 64" for x using that ne [OF that] by (simp add: bit_unset_bit_iff)
    moreover have "cl_aid x \<le> 64" if "x \<in> set ?cs" for x using that ok by (simp add: ap_ok_def aids_ok_def)
    moreover have "inj_on cl_aid {x \<in> set ?cs. cl_aid x \<noteq> 0 \<and> cl_aid x < 64}" by (rule inj_on_subset [OF inj]) auto
    ultimately show ?thesis unfolding aids_ok_def by blast
  qed
  have "distinct (map cl_id ?cs)" "distinct (map cl_addr ?cs)" using ok by (simp_all add: ap_ok_def distinct_map_filter)
  then show "ap_ok (skw_mlme_ap_del_client c s)" using ok len aids by (auto simp: ap_ok_def skw_mlme_ap_del_client_def)
qed

lemma new_aid_cases:
  obtains (full) "skw_mlme_ap_new_aid m = (64, m)" | (free) a where "skw_mlme_ap_new_aid m = (a, set_bit a m)" "a \<noteq> 0" "a < 64" "\<not> bit m a"
proof (cases "List.find (\<lambda>a. \<not> bit m a) [1..<64]")
  case None
  then show thesis by (intro full) (simp add: skw_mlme_ap_new_aid_def)
next
  case (Some a)
  then have "a \<in> set [1..<64]" "\<not> bit m a" by (auto simp: find_Some_iff)
  then show thesis using Some by (intro free [of a]) (simp_all add: skw_mlme_ap_new_aid_def)
qed

lemma ap_ok_aid:
  assumes ok: "ap_ok s" and c: "c \<in> set (ap_clients s)" and new: "skw_mlme_ap_new_aid (ap_aid_map s) = (aid, m)"
    and f: "\<And>c. cl_id (f c) = cl_id c \<and> cl_addr (f c) = cl_addr c \<and> cl_aid (f c) = aid"
  shows "ap_ok ((upd_client (cl_id c) f s)\<lparr>ap_aid_map := m\<rparr>)"
proof -
  let ?cs = "ap_clients (upd_client (cl_id c) f s)"
  let ?V = "\<lambda>cs. {x \<in> set cs. cl_aid x \<noteq> 0 \<and> cl_aid x < 64}"
  have m: "map cl_id ?cs = map cl_id (ap_clients s)" "map cl_addr ?cs = map cl_addr (ap_clients s)" using f by (auto intro!: upd_client_map)
  have mem: "x = f c \<or> x \<in> set (ap_clients s)" if "x \<in> set ?cs" for x
    using that ok c by (auto simp: upd_client_def ap_ok_def distinct_map dest: inj_onD split: if_splits)
  have old: "cl_aid x \<le> 64" "cl_aid x \<noteq> 0 \<Longrightarrow> cl_aid x < 64 \<Longrightarrow> bit (ap_aid_map s) (cl_aid x)" if "x \<in> set (ap_clients s)" for x
    using that ok by (simp_all add: ap_ok_def aids_ok_def)
  have inj: "inj_on cl_aid (?V (ap_clients s))" using ok by (simp add: ap_ok_def aids_ok_def)
  have "aids_ok m ?cs"
  proof (cases rule: new_aid_cases [of "ap_aid_map s"])
    case full
    then have "aid = 64" "m = ap_aid_map s" using new by simp_all
    moreover have "?V ?cs \<subseteq> ?V (ap_clients s)" using mem f \<open>aid = 64\<close> by fastforce
    moreover have "cl_aid x \<le> 64" if "x \<in> set ?cs" for x using mem [OF that] old(1) f \<open>aid = 64\<close> by auto
    ultimately show ?thesis using old(2) inj_on_subset [OF inj] unfolding aids_ok_def by blast
  next
    case (free a)
    then have a: "aid = a" "m = set_bit a (ap_aid_map s)" using new by simp_all
    have "cl_aid x \<noteq> a" if "x \<in> ?V (ap_clients s)" for x using that old free(4) by auto
    then have i: "inj_on cl_aid (insert (f c) (?V (ap_clients s)))" using inj f a by (auto simp: inj_on_insert)
    have "inj_on cl_aid (?V ?cs)" by (rule inj_on_subset [OF i]) (use mem in auto)
    moreover have "cl_aid x \<le> 64 \<and> (cl_aid x \<noteq> 0 \<and> cl_aid x < 64 \<longrightarrow> bit m (cl_aid x))" if "x \<in> set ?cs" for x
      using mem [OF that] old [of x] f a free by (auto simp: bit_set_bit_iff)
    ultimately show ?thesis unfolding aids_ok_def by blast
  qed
  moreover have "cl_id ` set ?cs = cl_id ` set (ap_clients s)" by (rule set_map_image [OF m(1)])
  moreover from this have "\<forall>c \<in> set ?cs. cl_id c < ap_next s" using ok by (metis (mono_tags, lifting) ap_ok_def image_iff)
  ultimately show ?thesis using ok m by (simp add: ap_ok_def)
qed

section \<open>Elementary steps\<close>

text \<open>The events of an exchange with the station at address \<open>a\<close>.\<close>

primrec op_auth :: "u8 list \<Rightarrow> ap_op \<Rightarrow> bool" where
  "op_auth a (ApRx en early m len) \<longleftrightarrow> SKW_MGMT_SFC (mg_fc m) = IEEE80211_STYPE_AUTH \<and> mg_sa m = a"
| "op_auth a (ApTxStatus en cookie m ack) \<longleftrightarrow> False"
| "op_auth a (ApTimer en n) \<longleftrightarrow> False"
| "op_auth a (ApLocal en) \<longleftrightarrow> False"
| "op_auth a (ApAdd en mac) \<longleftrightarrow> False"
| "op_auth a (ApChange mac fl) \<longleftrightarrow> False"
| "op_auth a (ApDel en mac reason) \<longleftrightarrow> False"

primrec op_assoc :: "u8 list \<Rightarrow> ap_op \<Rightarrow> bool" where
  "op_assoc a (ApRx en early m len) \<longleftrightarrow> SKW_MGMT_SFC (mg_fc m) \<in> {IEEE80211_STYPE_ASSOC_REQ, IEEE80211_STYPE_REASSOC_REQ} \<and> mg_sa m = a"
| "op_assoc a (ApTxStatus en cookie m ack) \<longleftrightarrow> False"
| "op_assoc a (ApTimer en n) \<longleftrightarrow> False"
| "op_assoc a (ApLocal en) \<longleftrightarrow> False"
| "op_assoc a (ApAdd en mac) \<longleftrightarrow> False"
| "op_assoc a (ApChange mac fl) \<longleftrightarrow> False"
| "op_assoc a (ApDel en mac reason) \<longleftrightarrow> False"

primrec op_acked :: "u8 list \<Rightarrow> ap_op \<Rightarrow> bool" where
  "op_acked a (ApTxStatus en cookie m ack) \<longleftrightarrow>
     SKW_MGMT_SFC (mg_fc m) \<in> {IEEE80211_STYPE_ASSOC_RESP, IEEE80211_STYPE_REASSOC_RESP} \<and> mg_da m = a \<and> ack \<and> m16 m 26 = WLAN_STATUS_SUCCESS"
| "op_acked a (ApRx en early m len) \<longleftrightarrow> False"
| "op_acked a (ApTimer en n) \<longleftrightarrow> False"
| "op_acked a (ApLocal en) \<longleftrightarrow> False"
| "op_acked a (ApAdd en mac) \<longleftrightarrow> False"
| "op_acked a (ApChange mac fl) \<longleftrightarrow> False"
| "op_acked a (ApDel en mac reason) \<longleftrightarrow> False"

definition is_resp :: "u8 list \<Rightarrow> bool" where
  "is_resp f \<longleftrightarrow> SKW_MGMT_SFC (get16 f) \<in> {IEEE80211_STYPE_ASSOC_RESP, IEEE80211_STYPE_REASSOC_RESP}"

definition frame_da :: "u8 list \<Rightarrow> u8 list" where
  "frame_da f = take 6 (drop 4 f)"

definition state_move :: "ap_op \<Rightarrow> ap_state \<Rightarrow> u8 list \<Rightarrow> SKW_STATES \<Rightarrow> SKW_STATES \<Rightarrow> bool" where
  "state_move op s a x y \<longleftrightarrow> y = x \<or> y = SKW_STATE_NONE \<or> y = SKW_STATE_AUTHED \<and> op_auth a op \<or>
     y = SKW_STATE_ASSOCED \<and> op_acked a op \<and> (\<exists>x \<in> set (ap_sent s). is_resp (snd x) \<and> frame_da (snd x) = a)"

text \<open>Every operation is a sequence of these steps.\<close>

inductive estep :: "ap_cfg \<Rightarrow> ap_op \<Rightarrow> ap_state \<Rightarrow> ap_state \<Rightarrow> bool" for cfg op where
  only: "peers_only s t \<Longrightarrow> estep cfg op s t"
| timers: "set ts \<subseteq> set (ap_timers s) \<union> cl_id ` set (ap_clients s) \<Longrightarrow> estep cfg op s (s\<lparr>ap_timers := ts\<rparr>)"
| deferred: "estep cfg op s (s\<lparr>ap_local := l\<rparr>)"
| sent: "26 \<le> length f \<Longrightarrow> is_resp f \<longrightarrow> op_assoc (frame_da f) op \<and> frame_da f \<in> cl_addr ` set (ap_clients s) \<Longrightarrow>
    estep cfg op s (s\<lparr>ap_sent := ap_sent s @ [(ck, f)]\<rparr>)"
| upd: "keeps_keys f \<Longrightarrow> \<forall>c \<in> set (ap_clients s). cl_id c = n \<longrightarrow> state_move op s (cl_addr c) (cl_state c) (cl_state (f c)) \<Longrightarrow>
    estep cfg op s (upd_client n f s)"
| aid: "c \<in> set (ap_clients s) \<Longrightarrow> skw_mlme_ap_new_aid (ap_aid_map s) = (a, m) \<Longrightarrow>
    \<forall>c. cl_id (f c) = cl_id c \<and> cl_addr (f c) = cl_addr c \<and> cl_aid (f c) = a \<and> cl_state (f c) = cl_state c \<Longrightarrow>
    estep cfg op s ((upd_client (cl_id c) f s)\<lparr>ap_aid_map := m\<rparr>)"
| add: "skw_mlme_ap_get_client a s = None \<Longrightarrow> op_auth a op \<Longrightarrow> skw_acl_allowed (ac_acl cfg) a \<Longrightarrow>
    estep cfg op s (snd (skw_mlme_ap_add_client en a s))"
| del: "c \<in> set (ap_clients s) \<Longrightarrow> estep cfg op s (skw_mlme_ap_del_client c s)"

abbreviation esteps :: "ap_cfg \<Rightarrow> ap_op \<Rightarrow> ap_state \<Rightarrow> ap_state \<Rightarrow> bool" where
  "esteps cfg op \<equiv> (estep cfg op)\<^sup>*\<^sup>*"

lemma estep_ok: "estep cfg op s t \<Longrightarrow> ap_ok s \<Longrightarrow> ap_ok t"
proof (induction rule: estep.induct)
  case (only s t)
  then show ?case by (blast intro: ap_ok_only)
next
  case (timers ts s)
  then show ?case by (auto simp: ap_ok_def)
next
  case (upd f s n)
  then show ?case by (simp add: ap_ok_upd)
next
  case (aid c s a m f)
  then show ?case by (intro ap_ok_aid) auto
next
  case (add a s en)
  then show ?case by (simp add: ap_ok_add)
next
  case (del c s)
  then show ?case by (simp add: ap_ok_del)
qed (simp_all add: ap_ok_def)

lemma esteps_ok: "esteps cfg op s t \<Longrightarrow> ap_ok s \<Longrightarrow> ap_ok t"
  by (induction rule: rtranclp_induct) (auto intro: estep_ok)

lemma esteps_only: "peers_only s t \<Longrightarrow> esteps cfg op s t"
  by (blast intro: estep.only)

lemma esteps_then [trans]: "esteps cfg op s t \<Longrightarrow> peers_only t u \<Longrightarrow> esteps cfg op s u"
  by (blast intro: estep.only rtranclp.rtrancl_into_rtrancl)

section \<open>The operations as steps\<close>

lemma remove_client_steps: "esteps cfg op s (skw_mlme_ap_remove_client cfg a s)"
  by (auto simp: skw_mlme_ap_remove_client_def split: option.split dest!: get_client_mem intro: estep.del)

lemma sap_del_steps: "esteps cfg op s (snd (skw_sap_del_sta cfg en i reason s))"
proof (cases "sc_peer (ap_ctx s ! i)")
  case (Some p)
  let ?s1 = "set_ctx_flags SKW_PEER_FLAG_DEAUTHED i (skw_set_state i SKW_STATE_NONE (peer_ctx_transmit i False s))"
  let ?cmd = "Cmd_del_sta (sp_addr p) reason (sp_flags p AND SKW_PEER_FLAG_DEAUTHED = 0)"
  have "peers_only s ?s1" by (meson peers_only_trans transmit_only set_state_only flags_only)
  then have "esteps cfg op s ?s1" by (rule esteps_only)
  also have "esteps cfg op ?s1 (skw_mlme_ap_remove_client cfg (sp_addr p) ?s1)" by (rule remove_client_steps)
  finally have "esteps cfg op s (do_cmd ?cmd (skw_mlme_ap_remove_client cfg (sp_addr p) ?s1))" by (rule esteps_then) simp
  moreover from this have "esteps cfg op s (peer_ctx_bind i None (do_cmd ?cmd (skw_mlme_ap_remove_client cfg (sp_addr p) ?s1)))"
    by (rule esteps_then) simp
  ultimately show ?thesis using Some by (simp add: skw_sap_del_sta_def Let_def)
qed (simp add: skw_sap_del_sta_def)

lemma flush_steps: "esteps cfg op s (fold (\<lambda>i s. snd (skw_sap_del_sta cfg en i reason s)) is s)"
  by (induction "is" arbitrary: s) (auto intro: rtranclp_trans sap_del_steps)

lemma del_station_steps: "esteps cfg op s (snd (skw_del_station cfg en mac reason s))"
  by (simp add: skw_del_station_def skw_sap_flush_sta_def flush_steps sap_del_steps split: option.split)

lemma ap_del_sta_steps: "esteps cfg op s (skw_mlme_ap_del_sta cfg en a s)"
  by (simp add: skw_mlme_ap_del_sta_def del_station_steps)

text \<open>A client falls back to no state and its station is deleted.\<close>

lemma fail_client_steps:
  "esteps cfg op s (skw_mlme_ap_del_sta cfg en a (upd_client n (\<lambda>c. c\<lparr>cl_state := SKW_STATE_NONE\<rparr>) s))"
proof -
  have "estep cfg op s (upd_client n (\<lambda>c. c\<lparr>cl_state := SKW_STATE_NONE\<rparr>) s)" by (rule estep.upd) (simp_all add: keeps_keys_def state_move_def)
  then show ?thesis by (meson converse_rtranclp_into_rtranclp ap_del_sta_steps)
qed

text \<open>A frame for the client: any frame but an association response, or one that answers a request.\<close>

lemma client_tx_steps:
  assumes "26 \<le> length f" "is_resp f \<longrightarrow> op_assoc (frame_da f) op \<and> frame_da f \<in> cl_addr ` set (ap_clients s)"
  shows "esteps cfg op s (snd (client_tx cfg en n f s))"
proof -
  let ?ck = "skw_tx_cookie (ap_cookie s)"
  let ?s1 = "s\<lparr>ap_cookie := ?ck\<rparr>" and ?s2 = "do_cmd (Cmd_tx_mgmt ?ck f) (s\<lparr>ap_cookie := ?ck\<rparr>)"
  have o1: "peers_only s ?s1" by (simp add: peers_only_def)
  then have o2: "peers_only s ?s2" by (rule peers_only_trans) simp
  have ck: "esteps cfg op t (upd_client n (\<lambda>c. c\<lparr>cl_cookie := ?ck\<rparr>) t)" for t
    by (rule r_into_rtranclp, rule estep.upd) (simp_all add: keeps_keys_def state_move_def)
  have "ap_clients ?s2 = ap_clients s" using o2 by (simp add: peers_only_def client_view_def)
  then have "estep cfg op ?s2 (?s2\<lparr>ap_sent := ap_sent ?s2 @ [(?ck, f)]\<rparr>)" using assms by (intro estep.sent) simp_all
  then have s3: "esteps cfg op s (?s2\<lparr>ap_sent := ap_sent ?s2 @ [(?ck, f)]\<rparr>)"
    using esteps_only [OF o2] by (rule rtranclp.rtrancl_into_rtrancl [rotated])
  then have s4: "esteps cfg op s (skw_set_peer_flags a fl (?s2\<lparr>ap_sent := ap_sent ?s2 @ [(?ck, f)]\<rparr>))" for a fl
    by (rule esteps_then) simp
  show ?thesis
    using esteps_only [OF o1] rtranclp_trans [OF esteps_only [OF o2] ck] rtranclp_trans [OF s3 ck] rtranclp_trans [OF s4 ck]
    by (simp add: client_tx_def skw_mgmt_tx_def Let_def)
qed

lemma hdr_length: "length da = 6 \<Longrightarrow> length sa = 6 \<Longrightarrow> length b = 6 \<Longrightarrow> length (mgmt_hdr st da sa b) = 24"
  by (simp add: mgmt_hdr_def)

definition cfg_ok :: "ap_cfg \<Rightarrow> bool" where
  "cfg_ok cfg \<longleftrightarrow> length (ac_addr cfg) = 6 \<and> length (ac_bssid cfg) = 6"

lemma length_m_bytes [simp]: "length (m_bytes m i n) = n"
  by (simp add: m_bytes_def)

lemma hdr_frame:
  assumes "length da = 6"
  shows "get16 (mgmt_hdr st da sa b @ r) = st" "frame_da (mgmt_hdr st da sa b @ r) = da"
  using assms by (simp_all add: mgmt_hdr_def frame_da_def)

lemma stype_sfc [simp]:
  "SKW_MGMT_SFC IEEE80211_STYPE_AUTH = IEEE80211_STYPE_AUTH" "SKW_MGMT_SFC IEEE80211_STYPE_DISASSOC = IEEE80211_STYPE_DISASSOC"
  "SKW_MGMT_SFC IEEE80211_STYPE_ASSOC_RESP = IEEE80211_STYPE_ASSOC_RESP" "SKW_MGMT_SFC IEEE80211_STYPE_REASSOC_RESP = IEEE80211_STYPE_REASSOC_RESP"
  by (simp_all add: SKW_MGMT_SFC_def stype_defs)

lemma disassoc_steps: "cfg_ok cfg \<Longrightarrow> length (cl_addr c) = 6 \<Longrightarrow> esteps cfg op s (skw_ap_send_disassoc cfg en c reason s)"
  unfolding skw_ap_send_disassoc_def
  by (rule client_tx_steps) (simp_all add: cfg_ok_def hdr_length is_resp_def hdr_frame, simp add: stype_defs)

lemma auth_reply_steps:
  "cfg_ok cfg \<Longrightarrow> length (cl_addr c) = 6 \<Longrightarrow> length b = 6 \<Longrightarrow> esteps cfg op s (snd (skw_mlme_ap_auth_reply cfg en c b alg tr st ies s))"
  unfolding skw_mlme_ap_auth_reply_def
  by (auto simp: cfg_ok_def hdr_length is_resp_def hdr_frame intro!: client_tx_steps) (simp_all add: stype_defs)

lemma auth_end_steps:
  assumes "cfg_ok cfg" "length (cl_addr c) = 6"
  shows "esteps cfg op s (auth_end cfg en m c st ies s)"
proof -
  let ?r = "skw_mlme_ap_auth_reply cfg en c (mg_bssid m) (m16 m 24) (m16 m 26 + 1) st ies s"
  have 1: "esteps cfg op s (snd ?r)" by (rule auth_reply_steps) (simp_all add: assms)
  then have "esteps cfg op s (skw_mlme_ap_del_sta cfg en a (upd_client n (\<lambda>c. c\<lparr>cl_state := SKW_STATE_NONE\<rparr>) (snd ?r)))" for a n
    by (rule rtranclp_trans) (rule fail_client_steps)
  moreover obtain ret s1 where "?r = (ret, s1)" by force
  ultimately show ?thesis using 1 by (simp add: auth_end_def)
qed

lemma auth_client_steps:
  assumes "ap_ok s" "op_auth (mg_sa m) op" "skw_acl_allowed (ac_acl cfg) (mg_sa m)" "auth_client cfg en (mg_sa m) s = (r, s1)"
  shows "esteps cfg op s s1" "r = Some c \<Longrightarrow> c \<in> set (ap_clients s1) \<and> cl_addr c = mg_sa m"
proof -
  have "esteps cfg op s s1 \<and> (r = Some c \<longrightarrow> c \<in> set (ap_clients s1) \<and> cl_addr c = mg_sa m)"
  proof (cases "skw_mlme_ap_get_client (mg_sa m) s")
    case (Some d)
    then show ?thesis using assms(4) get_client_mem [OF Some] by (auto simp: auth_client_def)
  next
    case None
    obtain d s2 where a: "skw_mlme_ap_add_client en (mg_sa m) s = (d, s2)" by force
    have 1: "estep cfg op s s2" using estep.add [OF None assms(2,3), of en] a by simp
    have 2: "peers_only s2 (snd (skw_add_station cfg en (mg_sa m) s2))" by simp
    then have cl: "ap_clients (snd (skw_add_station cfg en (mg_sa m) s2)) = ap_clients s2" by (simp add: peers_only_def client_view_def)
    have "d = Some e \<Longrightarrow> e \<in> set (ap_clients s2) \<and> cl_addr e = mg_sa m" for e
      using a by (auto simp: skw_mlme_ap_add_client_def Let_def split: if_splits)
    moreover have "esteps cfg op s (snd (skw_add_station cfg en (mg_sa m) s2))" using 1 2 by (blast intro: esteps_then)
    ultimately show ?thesis using assms(4) None a cl 1 by (auto simp: auth_client_def split: option.splits)
  qed
  then show "esteps cfg op s s1" "r = Some c \<Longrightarrow> c \<in> set (ap_clients s1) \<and> cl_addr c = mg_sa m" by simp_all
qed

lemma ids_unique: "ap_ok s \<Longrightarrow> c \<in> set (ap_clients s) \<Longrightarrow> d \<in> set (ap_clients s) \<Longrightarrow> cl_id c = cl_id d \<Longrightarrow> c = d"
  by (auto simp: ap_ok_def distinct_map dest: inj_onD)

lemma shared_key_steps:
  assumes "cfg_ok cfg" "length (cl_addr c) = 6"
  shows "esteps cfg op s (auth_shared_key cfg en m c s)"
proof -
  let ?s1 = "upd_client (cl_id c) (\<lambda>c. c\<lparr>cl_challenge := en_chal en\<rparr>) s"
  have "estep cfg op s ?s1" by (rule estep.upd) (simp_all add: keeps_keys_def state_move_def)
  then have "esteps cfg op s (?s1\<lparr>ap_lost := k\<rparr>)" for k by (rule esteps_then [OF r_into_rtranclp]) (simp add: peers_only_def)
  then have "esteps cfg op s (auth_end cfg en m c st ies (?s1\<lparr>ap_lost := k\<rparr>))" for st ies k
    by (rule rtranclp_trans) (rule auth_end_steps [OF assms])
  then show ?thesis using auth_end_steps [OF assms] by (cases "en_chal en") (simp_all add: auth_shared_key_def Let_def)
qed

lemma auth_handler_steps:
  assumes ok: "ap_ok s" and cfg: "cfg_ok cfg" and a: "op_auth (mg_sa m) op" "skw_acl_allowed (ac_acl cfg) (mg_sa m)"
  shows "esteps cfg op s (skw_mlme_ap_auth_handler cfg en m len s)"
proof -
  obtain r s1 where r: "auth_client cfg en (mg_sa m) s = (r, s1)" by force
  note st = auth_client_steps [OF ok a r]
  show ?thesis
  proof (cases r)
    case None
    then show ?thesis using r st(1) by (simp add: skw_mlme_ap_auth_handler_def)
  next
    case (Some c)
    let ?s2 = "upd_client (cl_id c) (\<lambda>c. c\<lparr>cl_last_seq_ctrl := mg_seq m, cl_state := SKW_STATE_AUTHED\<rparr>) s1"
    have c: "c \<in> set (ap_clients s1)" "cl_addr c = mg_sa m" "length (cl_addr c) = 6" using st(2) [OF Some] by simp_all
    have ok1: "ap_ok s1" by (rule esteps_ok [OF st(1) ok])
    have "cl_addr d = mg_sa m" if "d \<in> set (ap_clients s1)" "cl_id d = cl_id c" for d
      using ids_unique [OF ok1 that(1) c(1) that(2)] c(2) by simp
    then have "estep cfg op s1 ?s2" using a(1) by (intro estep.upd) (simp_all add: keeps_keys_def state_move_def)
    then have s2: "esteps cfg op s ?s2" using st(1) by (meson rtranclp.rtrancl_into_rtrancl)
    then have "esteps cfg op s (auth_end cfg en m c x ies ?s2)" "esteps cfg op s (auth_shared_key cfg en m c ?s2)"
      "esteps cfg op s (notify (Rx_frame m len) ?s2)" for x ies
      by (meson rtranclp_trans auth_end_steps [OF cfg c(3)], meson rtranclp_trans shared_key_steps [OF cfg c(3)], meson esteps_then notify_only)
    with s2 st(1) show ?thesis using r Some by (simp add: skw_mlme_ap_auth_handler_def Let_def)
  qed
qed

lemma assoc_reply_steps:
  assumes "cfg_ok cfg" "length (cl_addr c) = 6" "op_assoc (cl_addr c) op" "cl_addr c \<in> cl_addr ` set (ap_clients s)"
  shows "esteps cfg op s (snd (skw_mlme_ap_assoc_reply cfg en c st reassoc s))"
proof -
  let ?h = "\<lambda>ies. mgmt_hdr (if reassoc then IEEE80211_STYPE_REASSOC_RESP else IEEE80211_STYPE_ASSOC_RESP) (cl_addr c) (ac_addr cfg) (ac_bssid cfg) @
    le16 (cl_capa c) @ le16 st @ le16 (of_nat (cl_aid c)) @ ies"
  have "esteps cfg op s (s\<lparr>ap_fault := b\<rparr>)" for b by (rule esteps_only) (simp add: peers_only_def)
  moreover have "esteps cfg op (s\<lparr>ap_fault := b\<rparr>) (snd (client_tx cfg en (cl_id c) (?h ies) (s\<lparr>ap_fault := b\<rparr>)))" for b ies
    using assms by (intro client_tx_steps) (simp_all add: cfg_ok_def hdr_length hdr_frame)
  ultimately have "esteps cfg op s (snd (client_tx cfg en (cl_id c) (?h ies) (s\<lparr>ap_fault := b\<rparr>)))" for b ies by (rule rtranclp_trans)
  then show ?thesis by (simp add: skw_mlme_ap_assoc_reply_def Let_def)
qed

lemma assoc_handler_steps:
  assumes ok: "ap_ok s" and cfg: "cfg_ok cfg" and a: "op_assoc (mg_sa m) op"
  shows "esteps cfg op s (snd (skw_mlme_ap_assoc_handler cfg en m len reassoc s))"
proof (cases "skw_mlme_ap_get_client (mg_sa m) s")
  case None
  then show ?thesis by (simp add: skw_mlme_ap_assoc_handler_def)
next
  case (Some c)
  obtain aid amap where n: "skw_mlme_ap_new_aid (ap_aid_map s) = (aid, amap)" by force
  let ?f = "\<lambda>c. c\<lparr>cl_last_seq_ctrl := mg_seq m, cl_capa := m16 m 24, cl_aid := aid\<rparr>"
  let ?s1 = "(upd_client (cl_id c) ?f s)\<lparr>ap_aid_map := amap\<rparr>"
  let ?r = "skw_mlme_ap_assoc_reply cfg en (?f c) WLAN_STATUS_SUCCESS reassoc ?s1"
  let ?g = "\<lambda>c. if cl_assoc_req_ie c = None \<and> en_ie_ok en \<and> (if reassoc then 34 else 28) \<le> len
    then c\<lparr>cl_assoc_req_ie := Some (assoc_ies m len reassoc)\<rparr> else c"
  have c: "c \<in> set (ap_clients s)" "cl_addr c = mg_sa m" "length (cl_addr c) = 6" using get_client_mem [OF Some] by simp_all
  have s1: "esteps cfg op s ?s1" by (rule r_into_rtranclp, rule estep.aid [OF c(1) n]) simp
  have "esteps cfg op ?s1 (snd ?r)"
  proof (rule assoc_reply_steps [OF cfg])
    have "cl_addr ` set (ap_clients (upd_client (cl_id c) ?f s)) = cl_addr ` set (ap_clients s)"
      by (rule set_map_image, rule upd_client_map) simp
    then show "cl_addr (?f c) \<in> cl_addr ` set (ap_clients ?s1)" using c(1) by simp
  qed (use c a in simp_all)
  with s1 have r: "esteps cfg op s (snd ?r)" by (rule rtranclp_trans)
  moreover have "estep cfg op t (upd_client (cl_id c) ?g t)" for t by (rule estep.upd) (simp_all add: keeps_keys_def state_move_def)
  ultimately have "esteps cfg op s (upd_client (cl_id c) ?g (snd ?r))" by (meson rtranclp.rtrancl_into_rtrancl)
  moreover obtain ret s2 where "?r = (ret, s2)" by force
  moreover have "esteps cfg op s (skw_ap_send_disassoc cfg en c x s)" for x by (rule disassoc_steps [OF cfg c(3)])
  ultimately show ?thesis using r Some n by (simp add: skw_mlme_ap_assoc_handler_def Let_def)
qed

lemma ap_rx_mgmt_steps:
  assumes "ap_ok s" "cfg_ok cfg" "fc = IEEE80211_STYPE_AUTH \<Longrightarrow> op_auth (mg_sa m) op \<and> skw_acl_allowed (ac_acl cfg) (mg_sa m)"
    "fc = IEEE80211_STYPE_ASSOC_REQ \<or> fc = IEEE80211_STYPE_REASSOC_REQ \<Longrightarrow> op_assoc (mg_sa m) op"
  shows "esteps cfg op s (skw_mlme_ap_rx_mgmt cfg en fc m len s)"
proof -
  have n: "esteps cfg op s (notify x s)" for x by (rule esteps_only) simp
  consider (auth) "fc = IEEE80211_STYPE_AUTH"
    | (leave) "fc = IEEE80211_STYPE_DEAUTH \<or> fc = IEEE80211_STYPE_DISASSOC" "fc \<noteq> IEEE80211_STYPE_AUTH"
    | (re) "fc = IEEE80211_STYPE_REASSOC_REQ" "fc \<noteq> IEEE80211_STYPE_AUTH" "\<not> (fc = IEEE80211_STYPE_DEAUTH \<or> fc = IEEE80211_STYPE_DISASSOC)"
    | (assoc) "fc = IEEE80211_STYPE_ASSOC_REQ" "fc \<noteq> IEEE80211_STYPE_AUTH" "\<not> (fc = IEEE80211_STYPE_DEAUTH \<or> fc = IEEE80211_STYPE_DISASSOC)"
        "fc \<noteq> IEEE80211_STYPE_REASSOC_REQ"
    | (other) "fc \<notin> {IEEE80211_STYPE_AUTH, IEEE80211_STYPE_DEAUTH, IEEE80211_STYPE_DISASSOC, IEEE80211_STYPE_REASSOC_REQ, IEEE80211_STYPE_ASSOC_REQ}"
    by blast
  then show ?thesis
  proof cases
    case auth
    then show ?thesis using auth_handler_steps assms by (simp add: skw_mlme_ap_rx_mgmt_def)
  next
    case leave
    then show ?thesis using n by (simp add: skw_mlme_ap_rx_mgmt_def ap_del_sta_steps split: option.split)
  next
    case re
    then show ?thesis using assoc_handler_steps [OF assms(1,2)] assms(4) by (simp add: skw_mlme_ap_rx_mgmt_def)
  next
    case assoc
    then show ?thesis using assoc_handler_steps [OF assms(1,2)] assms(4) by (simp add: skw_mlme_ap_rx_mgmt_def)
  next
    case other
    then show ?thesis using n by (simp add: skw_mlme_ap_rx_mgmt_def)
  qed
qed

lemma sap_pass_steps:
  assumes "ap_ok s" "cfg_ok cfg" "peers_only s (snd x)" "fc = IEEE80211_STYPE_AUTH \<Longrightarrow> op_auth (mg_sa m) op \<and> skw_acl_allowed (ac_acl cfg) (mg_sa m)"
    "fc = IEEE80211_STYPE_ASSOC_REQ \<or> fc = IEEE80211_STYPE_REASSOC_REQ \<Longrightarrow> op_assoc (mg_sa m) op"
  shows "esteps cfg op s (sap_rx_pass cfg en fc m len x)"
proof (cases "ac_sme_external cfg")
  case True
  obtain b s1 where x: "x = (b, s1)" by force
  then have "peers_only s (notify (Rx_frame m len) (if b then notify (Deauth_sta (mg_sa m)) s1 else s1))"
    using assms(3) by (auto intro: peers_only_trans [OF _ notify_only])
  from esteps_only [OF this] show ?thesis using True x by (simp add: sap_rx_pass_def)
next
  case False
  have "esteps cfg op (snd x) (skw_mlme_ap_rx_mgmt cfg en fc m len (snd x))"
    by (rule ap_rx_mgmt_steps [OF ap_ok_only [OF assms(3,1)] assms(2)]) (use assms(4,5) in blast)+
  then have "esteps cfg op (snd x) (sap_rx_pass cfg en fc m len x)" using False by (cases x) (simp add: sap_rx_pass_def)
  with esteps_only [OF assms(3)] show ?thesis by (rule rtranclp_trans)
qed

lemma event_rx_steps:
  assumes "ap_ok s" "cfg_ok cfg"
  shows "esteps cfg (ApRx en early m len) s (skw_event_rx_mgmt cfg en early m len s)"
proof -
  let ?fc = "SKW_MGMT_SFC (mg_fc m)"
  define s1 where "s1 = (if ?fc = IEEE80211_STYPE_DEAUTH \<or> ?fc = IEEE80211_STYPE_DISASSOC
    then (case skw_peer_ctx (mg_sa m) s of None \<Rightarrow> s | Some i \<Rightarrow> set_ctx_flags SKW_PEER_FLAG_DEAUTHED i s) else s)"
  have o: "peers_only s s1" by (simp add: s1_def split: option.split)
  have ok: "ap_ok s1" by (rule ap_ok_only [OF o assms(1)])
  have "esteps cfg (ApRx en early m len) s1 (skw_sap_rx_mgmt cfg en ?fc m len s1)"
  proof (cases "?fc = IEEE80211_STYPE_AUTH")
    case True
    have "skw_sta_access_allowed acl ps mp n a \<Longrightarrow> skw_acl_allowed acl a" for acl ps mp n a
      by (simp add: skw_sta_access_allowed_def)
    then show ?thesis using True sap_pass_steps [OF ok assms(2) mark_reauth_only, of ?fc m "ApRx en early m len"]
      by (auto simp: skw_sap_rx_mgmt_def esteps_only stype_defs)
  next
    case False
    then show ?thesis
    proof (cases "?fc = IEEE80211_STYPE_DISASSOC")
      case True
      then show ?thesis using False by (auto simp: skw_sap_rx_mgmt_def stype_defs intro!: sap_pass_steps [OF ok assms(2)])
    next
      case False2: False
      then show ?thesis using False by (auto simp: skw_sap_rx_mgmt_def intro!: sap_pass_steps [OF ok assms(2)])
    qed
  qed
  with esteps_only [OF o] have "esteps cfg (ApRx en early m len) s (skw_sap_rx_mgmt cfg en ?fc m len s1)" by (rule rtranclp_trans)
  then show ?thesis by (simp add: skw_event_rx_mgmt_def s1_def Let_def)
qed

lemma m_bytes_frame:
  assumes "m_bytes m 0 (length f) = f" "26 \<le> length f"
  shows "mg_fc m = get16 f" "mg_da m = frame_da f"
proof -
  have nth: "m k = f ! k" if "k < length f" for k
  proof -
    have "m_bytes m 0 (length f) ! k = m k" using that by (simp add: m_bytes_def)
    then show ?thesis by (simp only: assms(1))
  qed
  obtain x y r where f: "f = x # y # r" using assms(2) by (cases f; cases "tl f") auto
  then show "mg_fc m = get16 f" using nth [of 0] nth [of 1] by (simp add: m16_def get16_def)
  show "mg_da m = frame_da f" using assms(2) nth by (intro nth_equalityI) (simp_all add: m_bytes_def frame_da_def)
qed

lemma tx_status_steps:
  assumes ok: "ap_ok s" and g: "ap_guard (ApTxStatus en cookie m ack) s"
  shows "esteps cfg (ApTxStatus en cookie m ack) s (skw_mlme_ap_tx_status cfg en cookie m ack s)"
proof -
  let ?op = "ApTxStatus en cookie m ack"
  have n: "esteps cfg ?op s (notify x s)" for x by (rule esteps_only) simp
  have auth: "esteps cfg ?op s (skw_mlme_ap_auth_cb cfg en c m ack s)" if "c \<in> set (ap_clients s)" for c
    using that by (auto simp: skw_mlme_ap_auth_cb_def fail_client_steps intro!: r_into_rtranclp estep.timers)
  have assoc: "esteps cfg ?op s (skw_mlme_ap_assoc_cb cfg en c m ack s)"
    if c: "c \<in> set (ap_clients s)" "cl_addr c = mg_da m" and fc: "SKW_MGMT_SFC (mg_fc m) \<in> {IEEE80211_STYPE_ASSOC_RESP, IEEE80211_STYPE_REASSOC_RESP}" for c
  proof (cases "ack \<and> m16 m 26 = WLAN_STATUS_SUCCESS")
    case False
    show ?thesis unfolding skw_mlme_ap_assoc_cb_def if_not_P [OF False] by (rule fail_client_steps)
  next
    case True
    let ?s1 = "s\<lparr>ap_timers := filter (\<lambda>n. n \<noteq> cl_id c) (ap_timers s)\<rparr>"
    define s3 where "s3 = notify (New_sta (cl_addr c) (case cl_assoc_req_ie c of None \<Rightarrow> [] | Some ies \<Rightarrow> ies))
      (snd (skw_change_station cfg (cl_addr c) (set_bit NL80211_STA_FLAG_ASSOCIATED 0) ?s1))"
    have o: "peers_only ?s1 s3" unfolding s3_def by (rule peers_only_trans [OF change_station_only notify_only])
    then have cl: "ap_clients s3 = ap_clients s" "ap_sent s3 = ap_sent s" by (simp_all add: peers_only_def client_view_def)
    from g obtain f where f: "(cookie, f) \<in> set (ap_sent s)" "m_bytes m 0 (length f) = f" by (auto simp: list_ex_iff)
    then have "26 \<le> length f" using ok by (auto simp: ap_ok_def)
    with f fc have f1: "(cookie, f) \<in> set (ap_sent s3)" "is_resp f" "frame_da f = mg_da m"
      using m_bytes_frame [OF f(2)] cl(2) by (auto simp: is_resp_def)
    have "cl_addr d = mg_da m" if "d \<in> set (ap_clients s3)" "cl_id d = cl_id c" for d
      using ids_unique [OF ok _ c(1) that(2)] that(1) c(2) cl(1) by simp
    then have "estep cfg ?op s3 (upd_client (cl_id c) (\<lambda>c. c\<lparr>cl_assoc_req_ie := None, cl_state := SKW_STATE_ASSOCED\<rparr>) s3)"
      using True fc f1 by (intro estep.upd) (auto simp: keeps_keys_def state_move_def intro!: bexI [of _ "(cookie, f)"])
    moreover have "esteps cfg ?op s ?s1" by (rule r_into_rtranclp, rule estep.timers) auto
    ultimately have "esteps cfg ?op s (upd_client (cl_id c) (\<lambda>c. c\<lparr>cl_assoc_req_ie := None, cl_state := SKW_STATE_ASSOCED\<rparr>) s3)"
      using o by (meson esteps_then rtranclp.rtrancl_into_rtrancl)
    then show ?thesis using True by (simp add: skw_mlme_ap_assoc_cb_def s3_def Let_def)
  qed
  show ?thesis
  proof (cases "skw_mlme_ap_get_client (mg_da m) s")
    case (Some c)
    then show ?thesis using n get_client_mem [OF Some] auth [of c] assoc [of c] by (simp add: skw_mlme_ap_tx_status_def Let_def)
  qed (simp add: skw_mlme_ap_tx_status_def n)
qed

lemma timeout_steps: "esteps cfg op s (skw_mlme_ap_auth_timeout cfg en n s)"
proof -
  let ?s1 = "s\<lparr>ap_timers := filter (\<lambda>k. k \<noteq> n) (ap_timers s)\<rparr>"
  have 1: "esteps cfg op s ?s1" by (rule r_into_rtranclp, rule estep.timers) auto
  then have "esteps cfg op s (?s1\<lparr>ap_fault := True\<rparr>)" by (rule esteps_then) (simp add: peers_only_def)
  moreover have "esteps cfg op s (?s1\<lparr>ap_local := l\<rparr>)" for l using 1 estep.deferred by (rule rtranclp.rtrancl_into_rtrancl)
  ultimately show ?thesis using 1 by (simp add: skw_mlme_ap_auth_timeout_def Let_def split: option.split)
qed

lemma local_timeout_steps: "esteps cfg op s (skw_local_ap_auth_timeout cfg en s)"
proof (cases "ap_local s")
  case (Cons c cs)
  have "esteps cfg op s (s\<lparr>ap_local := cs\<rparr>)" by (rule r_into_rtranclp, rule estep.deferred)
  then show ?thesis using Cons by (simp add: skw_local_ap_auth_timeout_def) (rule rtranclp_trans, assumption, rule ap_del_sta_steps)
qed (simp add: skw_local_ap_auth_timeout_def)

lemma ap_step_steps:
  assumes "ap_ok s" "cfg_ok cfg" "ap_guard op s"
  shows "esteps cfg op s (ap_step cfg op s)"
proof (cases op)
  case (ApRx en early m len)
  then show ?thesis using event_rx_steps assms by simp
next
  case (ApTxStatus en cookie m ack)
  then show ?thesis using tx_status_steps [OF assms(1)] assms(3) by simp
qed (simp_all add: timeout_steps local_timeout_steps del_station_steps esteps_only)

section \<open>A run\<close>

text \<open>A station sends the first message of a shared-key exchange, asks for association, and acknowledges the response.\<close>

definition mem_of :: "u8 list \<Rightarrow> mem" where
  "mem_of bs k = (if k < length bs then bs ! k else 0)"

definition demo_cfg :: ap_cfg where
  "demo_cfg = \<lparr>ac_addr = [2, 0, 0, 0, 0, 9], ac_bssid = [2, 0, 0, 0, 0, 9], ac_chan = Some 6, ac_n_akm = 1, ac_wep_share = False, ac_sme_external = False,
     ac_max_sta = 8, ac_acl = None, ac_probe_resp = [], ac_ht_cap = None, ac_rates = [10, 20, 55, 110, 60, 90, 120, 180, 240, 360, 480, 540],
     ac_ht_required = False, ac_vht_required = False, ac_auth_timeout = 5000, ac_mgmt_size = 64\<rparr>"

definition demo_en :: ap_env where
  "demo_en = \<lparr>en_send = (\<lambda>_. 0), en_idx = 3, en_client_ok = True, en_peer_ok = True, en_reply_ok = True, en_param_ok = True,
     en_chal = Some (replicate 128 7), en_ie_ok = True, en_timer_ok = True, en_event_ok = True, en_jiffies = 100\<rparr>"

definition demo_hdr :: "u8 \<Rightarrow> u8 \<Rightarrow> u8 list" where
  "demo_hdr fc sq = [fc, 0, 0, 0, 2, 0, 0, 0, 0, 9, 2, 0, 0, 0, 0, 1, 2, 0, 0, 0, 0, 9, sq, 0]"

definition demo_run2 :: "ap_op list" where
  "demo_run2 = [ApRx demo_en False (mem_of (demo_hdr 0xB0 16 @ [1, 0, 1, 0, 0, 0])) 30, ApRx demo_en False (mem_of (demo_hdr 0 32 @ [0x31, 4, 10, 0])) 28]"

definition demo_run :: "ap_op list" where
  "demo_run = demo_run2 @ [ApTxStatus demo_en 2 (mem_of (snd (last (ap_sent (fold (ap_step demo_cfg) demo_run2 ap_init))))) True]"

lemma demo_cfg_ok: "cfg_ok demo_cfg"
  by (simp add: cfg_ok_def demo_cfg_def)

lemma demo_guarded: "guarded_run ap_guard (ap_step demo_cfg) demo_run ap_init"
  by code_simp

lemma demo_clients:
  "map (\<lambda>c. (cl_addr c, cl_state c, cl_aid c)) (ap_clients (fold (ap_step demo_cfg) demo_run ap_init)) = [([2, 0, 0, 0, 0, 1], SKW_STATE_ASSOCED, 1)]"
  by code_simp

section \<open>Consistent tables\<close>

lemma ap_init_ok: "ap_ok ap_init"
  by (simp add: ap_ok_def ap_init_def aids_ok_def)

interpretation ap_tables: inv_machine "ap_step cfg" "\<lambda>s. cfg_ok cfg \<and> ap_ok s" ap_guard
  by unfold_locales (auto intro: esteps_ok ap_step_steps)

text \<open>
  C21. Over any sequence of received frames, transmission reports, timers, deferred events and commands of the user: no two
  clients of the access point have the same address or the same association identifier below 64, every such identifier
  is marked in the map, the count is that of the list, and every armed timer belongs to a client that exists, so that no timer
  reads a freed client.
\<close>

theorem ap_tables_consistent:
  assumes "cfg_ok cfg" "guarded_run ap_guard (ap_step cfg) ops ap_init"
  defines "s \<equiv> fold (ap_step cfg) ops ap_init"
  shows "distinct (map cl_addr (ap_clients s)) \<and> ap_count s = int (length (ap_clients s)) \<and>
    (\<forall>n \<in> set (ap_timers s). \<exists>c \<in> set (ap_clients s). cl_id c = n) \<and>
    (\<forall>c \<in> set (ap_clients s). \<forall>d \<in> set (ap_clients s).
       cl_aid c \<noteq> 0 \<and> cl_aid c < 64 \<longrightarrow> bit (ap_aid_map s) (cl_aid c) \<and> (cl_aid d = cl_aid c \<longrightarrow> d = c))"
proof -
  have ok: "ap_ok s" unfolding s_def using ap_tables.run_invar [OF _ assms(2)] assms(1) ap_init_ok by simp
  have "d = c" if "c \<in> set (ap_clients s)" "d \<in> set (ap_clients s)" "cl_aid c \<noteq> 0" "cl_aid c < 64" "cl_aid d = cl_aid c" for c d
    using ok that by (auto simp: ap_ok_def aids_ok_def dest: inj_onD)
  moreover have "\<forall>c \<in> set (ap_clients s). cl_aid c \<noteq> 0 \<and> cl_aid c < 64 \<longrightarrow> bit (ap_aid_map s) (cl_aid c)"
    using ok by (simp add: ap_ok_def aids_ok_def)
  moreover have "\<forall>n \<in> set (ap_timers s). \<exists>c \<in> set (ap_clients s). cl_id c = n" using ok by (auto simp: ap_ok_def)
  ultimately show ?thesis using ok by (auto simp: ap_ok_def)
qed

theorem ap_tables_consistent_witness:
  "ap_clients (fold (ap_step demo_cfg) demo_run ap_init) \<noteq> [] \<and> ap_count (fold (ap_step demo_cfg) demo_run ap_init) = 1"
proof -
  have "length (ap_clients (fold (ap_step demo_cfg) demo_run ap_init)) = 1" using arg_cong [OF demo_clients, of length] by simp
  then show ?thesis using ap_tables_consistent [OF demo_cfg_ok demo_guarded] by auto
qed

section \<open>The order of an association\<close>

text \<open>Whether events that satisfy the predicates occur in this order.\<close>

fun occurs :: "('a \<Rightarrow> bool) list \<Rightarrow> 'a list \<Rightarrow> bool" where
  "occurs [] xs = True"
| "occurs (P # Ps) [] = False"
| "occurs (P # Ps) (x # xs) = (if P x then occurs Ps xs else occurs (P # Ps) xs)"

lemma occurs_append: "occurs Ps xs \<Longrightarrow> occurs Ps (xs @ ys)"
  by (induction Ps xs rule: occurs.induct) auto

lemma occurs_snoc: "occurs Ps xs \<Longrightarrow> P x \<Longrightarrow> occurs (Ps @ [P]) (xs @ [x])"
proof (induction Ps xs rule: occurs.induct)
  case (1 xs)
  then show ?case by (induction xs) auto
qed (auto split: if_splits)

lemma occurs_before: "occurs (Ps @ [P]) (xs @ [x]) \<Longrightarrow> \<not> P x \<Longrightarrow> occurs (Ps @ [P]) xs"
proof (induction xs arbitrary: Ps)
  case Nil
  then show ?case by (cases Ps) (auto split: if_splits, metis Nil_is_append_conv list.exhaust occurs.simps(2) not_Cons_self2)
next
  case (Cons y xs)
  then show ?case
  proof (cases Ps)
    case Nil
    then show ?thesis using Cons.prems Cons.IH [of "[]"] by (auto split: if_splits)
  next
    case (Cons Q Qs)
    then show ?thesis using Cons.prems Cons.IH [of Qs] Cons.IH [of Ps] by (auto split: if_splits)
  qed
qed

definition ap_trace :: "ap_cfg \<Rightarrow> ap_op list \<Rightarrow> ap_state \<Rightarrow> bool" where
  "ap_trace cfg H s \<longleftrightarrow>
     (\<forall>c \<in> set (ap_clients s). skw_acl_allowed (ac_acl cfg) (cl_addr c) \<and> occurs [op_auth (cl_addr c)] H \<and>
        cl_state c \<in> {SKW_STATE_NONE, SKW_STATE_AUTHED, SKW_STATE_ASSOCED} \<and>
        (cl_state c = SKW_STATE_ASSOCED \<longrightarrow> occurs [op_auth (cl_addr c), op_assoc (cl_addr c), op_acked (cl_addr c)] H)) \<and>
     (\<forall>x \<in> set (ap_sent s). is_resp (snd x) \<longrightarrow> occurs [op_auth (frame_da (snd x)), op_assoc (frame_da (snd x))] H)"

lemma auth_not_assoc: "op_assoc a op \<Longrightarrow> \<not> op_auth a op"
  by (cases op) (auto simp: stype_defs)

lemma acked_not_assoc: "op_acked a op \<Longrightarrow> \<not> op_assoc a op"
  by (cases op) simp_all

lemma assoc_order: "occurs [op_auth a] (h @ [op]) \<Longrightarrow> op_assoc a op \<Longrightarrow> occurs [op_auth a, op_assoc a] (h @ [op])"
  using occurs_before [of "[]" "op_auth a"] occurs_snoc [of "[op_auth a]" h "op_assoc a" op] auth_not_assoc by simp

lemma acked_order:
  "occurs [op_auth a, op_assoc a] (h @ [op]) \<Longrightarrow> op_acked a op \<Longrightarrow> occurs [op_auth a, op_assoc a, op_acked a] (h @ [op])"
  using occurs_before [of "[op_auth a]" "op_assoc a"] occurs_snoc [of "[op_auth a, op_assoc a]" h "op_acked a" op] acked_not_assoc by simp

text \<open>What the invariant says of one client.\<close>

definition client_trace :: "ap_cfg \<Rightarrow> ap_op list \<Rightarrow> u8 list \<Rightarrow> SKW_STATES \<Rightarrow> bool" where
  "client_trace cfg H a st \<longleftrightarrow> skw_acl_allowed (ac_acl cfg) a \<and> occurs [op_auth a] H \<and>
     st \<in> {SKW_STATE_NONE, SKW_STATE_AUTHED, SKW_STATE_ASSOCED} \<and> (st = SKW_STATE_ASSOCED \<longrightarrow> occurs [op_auth a, op_assoc a, op_acked a] H)"

lemma ap_trace_alt:
  "ap_trace cfg H s \<longleftrightarrow> (\<forall>c \<in> set (ap_clients s). client_trace cfg H (cl_addr c) (cl_state c)) \<and>
     (\<forall>x \<in> set (ap_sent s). is_resp (snd x) \<longrightarrow> occurs [op_auth (frame_da (snd x)), op_assoc (frame_da (snd x))] H)"
  by (simp add: ap_trace_def client_trace_def)

lemma move_trace:
  assumes "ap_trace cfg (h @ [op]) s" "client_trace cfg (h @ [op]) a x" "state_move op s a x y"
  shows "client_trace cfg (h @ [op]) a y"
proof -
  consider "y = x" | "y = SKW_STATE_NONE" | "y = SKW_STATE_AUTHED"
    | f where "y = SKW_STATE_ASSOCED" "op_acked a op" "f \<in> set (ap_sent s)" "is_resp (snd f)" "frame_da (snd f) = a"
    using assms(3) by (auto simp: state_move_def)
  then show ?thesis
  proof cases
    case 4
    then have "occurs [op_auth a, op_assoc a] (h @ [op])" using assms(1) by (auto simp: ap_trace_alt)
    then show ?thesis using assms(2) 4 acked_order by (simp add: client_trace_def)
  qed (use assms(2) in \<open>simp_all add: client_trace_def\<close>)
qed

lemma estep_trace: "estep cfg op s t \<Longrightarrow> ap_trace cfg (h @ [op]) s \<Longrightarrow> ap_trace cfg (h @ [op]) t"
proof (induction rule: estep.induct)
  case (only s t)
  then show ?case by (simp add: ap_trace_def peers_only_def client_view_def)
next
  case (sent f s ck)
  then have "is_resp f \<longrightarrow> occurs [op_auth (frame_da f), op_assoc (frame_da f)] (h @ [op])"
    by (auto simp: ap_trace_def intro: assoc_order)
  then show ?case using sent by (auto simp: ap_trace_alt)
next
  case (upd f s n)
  have "client_trace cfg (h @ [op]) (cl_addr c) (cl_state (f c))" if "c \<in> set (ap_clients s)" "cl_id c = n" for c
    using move_trace [OF upd.prems] upd.prems upd.hyps(2) that by (auto simp: ap_trace_alt)
  then show ?case using upd by (auto simp: ap_trace_alt upd_client_def keeps_keys_def)
next
  case (aid c s a m f)
  then show ?case by (auto simp: ap_trace_alt upd_client_def)
next
  case (add a s en)
  have "occurs [op_auth a] (h @ [op])" using occurs_snoc [of "[]" h "op_auth a" op] add.hyps(2) by simp
  then show ?case using add by (auto simp: ap_trace_alt client_trace_def skw_mlme_ap_add_client_def Let_def)
next
  case (del c s)
  then show ?case by (auto simp: ap_trace_alt skw_mlme_ap_del_client_def)
qed (simp_all add: ap_trace_def)

lemma trace_append: "ap_trace cfg H s \<Longrightarrow> ap_trace cfg (H @ [op]) s"
  by (auto simp: ap_trace_def intro: occurs_append)

lemma esteps_trace: "esteps cfg op s t \<Longrightarrow> ap_trace cfg (h @ [op]) s \<Longrightarrow> ap_trace cfg (h @ [op]) t"
  by (induction rule: rtranclp_induct) (auto intro: estep_trace)

lemma ap_run_trace:
  assumes "cfg_ok cfg" "ap_ok s" "ap_trace cfg h s" "guarded_run ap_guard (ap_step cfg) ops s"
  shows "ap_trace cfg (h @ ops) (fold (ap_step cfg) ops s)"
  using assms
proof (induction ops arbitrary: s h)
  case (Cons op ops)
  then have st: "esteps cfg op s (ap_step cfg op s)" by (simp add: ap_step_steps)
  have "ap_trace cfg (h @ [op]) (ap_step cfg op s)" by (rule esteps_trace [OF st trace_append [OF Cons.prems(3)]])
  from Cons.IH [OF Cons.prems(1) esteps_ok [OF st Cons.prems(2)] this] show ?case using Cons.prems(4) by simp
qed simp

text \<open>
  C20. A station is associated only after the whole exchange, in its order: it sent an authentication frame, then a
  request for association, and then the firmware reported that the station acknowledged a successful response; and
  the access control list lets it in. (What the authentication frame contained is another matter: see below.)
\<close>

theorem association_order:
  assumes "cfg_ok cfg" "guarded_run ap_guard (ap_step cfg) ops ap_init"
    "c \<in> set (ap_clients (fold (ap_step cfg) ops ap_init))" "cl_state c = SKW_STATE_ASSOCED"
  shows "occurs [op_auth (cl_addr c), op_assoc (cl_addr c), op_acked (cl_addr c)] ops \<and> skw_acl_allowed (ac_acl cfg) (cl_addr c)"
proof -
  have "ap_trace cfg ops (fold (ap_step cfg) ops ap_init)"
    using ap_run_trace [OF assms(1) ap_init_ok _ assms(2), of "[]"] by (simp add: ap_trace_def ap_init_def)
  then show ?thesis using assms(3,4) by (auto simp: ap_trace_def)
qed

theorem association_order_witness:
  "occurs [op_auth [2, 0, 0, 0, 0, 1], op_assoc [2, 0, 0, 0, 0, 1], op_acked [2, 0, 0, 0, 0, 1]] demo_run"
proof -
  obtain c where "c \<in> set (ap_clients (fold (ap_step demo_cfg) demo_run ap_init))" "cl_addr c = [2, 0, 0, 0, 0, 1]" "cl_state c = SKW_STATE_ASSOCED"
    using demo_clients by (auto simp: map_eq_Cons_conv)
  then show ?thesis using association_order [OF demo_cfg_ok demo_guarded, of c] by simp
qed

section \<open>The search for a way to authenticate\<close>

text \<open>How often a station tries again, for the responses \<open>ms\<close>.\<close>

primrec sta_retries :: "mem list \<Rightarrow> skw_connect_param \<Rightarrow> nat" where
  "sta_retries [] c = 0"
| "sta_retries (m # ms) c =
     (case skw_mlme_sta_rx_auth m 30 c of (act, c1) \<Rightarrow> (if act = Some Sta_retry then 1 else 0) + sta_retries ms c1)"

text \<open>Whatever the access point answers, the station tries at most two other ways: the open system, a shared key, a fast transition.\<close>

lemma sta_retries_bounded: "sta_retries ms c \<le> 2 - cn_auth_type c"
proof (induction ms arbitrary: c)
  case (Cons m ms)
  obtain act c1 where r: "skw_mlme_sta_rx_auth m 30 c = (act, c1)" by force
  then have "cn_auth_type c \<le> cn_auth_type c1" "act = Some Sta_retry \<Longrightarrow> cn_auth_type c < cn_auth_type c1 \<and> cn_auth_type c < 2"
    by (auto simp: skw_mlme_sta_rx_auth_def next_auth_type_def authtype_defs skw_mlme_sta_ft_event_def Let_def split: if_splits)
  then show ?case using Cons.IH [of c1] r by auto
qed simp

section \<open>Behaviour worth knowing\<close>

text \<open>
  The client counts as authenticated as soon as an authentication frame arrives, before the exchange is complete: in the run
  above the station never answers the challenge of the shared-key exchange and is associated all the same. The same holds for the
  first frame of SAE, which is only handed on.
\<close>

lemma challenge_unanswered:
  "map cl_state (ap_clients (fold (ap_step demo_cfg) demo_run ap_init)) = [SKW_STATE_ASSOCED] \<and>
   \<not> list_ex (\<lambda>op. case op of ApRx en early m len \<Rightarrow> SKW_MGMT_SFC (mg_fc m) = IEEE80211_STYPE_AUTH \<and> m16 m 26 = 3 | _ \<Rightarrow> False) demo_run"
  by code_simp

text \<open>
  The search for an association identifier ends with 64, not 0, when none is free, so that the test for 0 never refuses a station; clearing
  the bit of identifier 64 writes behind the map. A station that associates again gets a new identifier and the bit of its old
  one stays set.
\<close>

lemma aid_never_refused: "fst (skw_mlme_ap_new_aid m) \<noteq> 0" "fst (skw_mlme_ap_new_aid (- 1)) = 64"
proof -
  show "fst (skw_mlme_ap_new_aid m) \<noteq> 0" by (cases rule: new_aid_cases [of m]) simp_all
  show "fst (skw_mlme_ap_new_aid (- 1)) = 64" by (cases rule: new_aid_cases [of "- 1"]) (simp_all add: bit_minus_1_iff)
qed

lemma aid_64_overruns: "cl_aid c = 64 \<Longrightarrow> ap_fault (skw_mlme_ap_del_client c s)"
  by (simp add: skw_mlme_ap_del_client_def)

lemma aid_leaks: "bit m a \<Longrightarrow> a < 64 \<Longrightarrow> skw_mlme_ap_new_aid m = (b, m1) \<Longrightarrow> b \<noteq> a \<and> bit m1 a"
  by (cases rule: new_aid_cases [of m]) (auto simp: bit_set_bit_iff)

text \<open>
  An associated station that authenticates again is marked as leaving; nothing clears the mark when it associates again, and the transmit
  path drops the frames of a marked station.
\<close>

definition demo_again :: "ap_op list" where
  "demo_again = demo_run @ [ApRx demo_en False (mem_of (demo_hdr 0xB0 48 @ [0, 0, 1, 0, 0, 0])) 30, ApRx demo_en False (mem_of (demo_hdr 0 64 @ [0x31, 4, 10, 0])) 28]"

lemma reauthenticated_stays_marked:
  "let s = fold (ap_step demo_cfg) demo_again ap_init;
       s1 = ap_step demo_cfg (ApTxStatus demo_en 4 (mem_of (snd (last (ap_sent s)))) True) s in
   map cl_state (ap_clients s1) = [SKW_STATE_ASSOCED] \<and>
   map_option (\<lambda>p. (sp_state p, sp_flags p AND SKW_PEER_FLAG_DEAUTHED)) (sc_peer (ap_ctx s1 ! 3)) = Some (SKW_STATE_ASSOCED, SKW_PEER_FLAG_DEAUTHED)"
  by code_simp

text \<open>
  The timer of an authentication queues an event that deletes the station when it is handled, whatever happened since: a station
  that completes its association in between is removed.
\<close>

definition demo_late :: "ap_op list" where
  "demo_late = [ApRx demo_en False (mem_of (demo_hdr 0xB0 16 @ [0, 0, 1, 0, 0, 0])) 30,
     ApTxStatus demo_en 1 (mem_of ([0xB0, 0, 0, 0, 2, 0, 0, 0, 0, 1, 2, 0, 0, 0, 0, 9, 2, 0, 0, 0, 0, 9, 0, 0, 0, 0, 2, 0, 0, 0])) True,
     ApTimer (demo_en\<lparr>en_jiffies := 6000\<rparr>) 0, ApRx demo_en False (mem_of (demo_hdr 0 32 @ [0x31, 4, 10, 0])) 28]"

lemma late_timeout_removes_associated:
  "let s = fold (ap_step demo_cfg) demo_late ap_init;
       s1 = ap_step demo_cfg (ApTxStatus demo_en 2 (mem_of (snd (last (ap_sent s)))) True) s in
   guarded_run ap_guard (ap_step demo_cfg) demo_late ap_init \<and> map cl_state (ap_clients s1) = [SKW_STATE_ASSOCED] \<and>
   ap_clients (ap_step demo_cfg (ApLocal demo_en) s1) = []"
  by code_simp

end
