(* ===== verification/Skw_Sdio.thy ===== *)
theory Skw_Sdio
  imports Skw_Prelude
begin

text \<open>
  The receive side of the SDIO transport (\<^verbatim>\<open>seekwaveplatform_lite/sdio/skw_sdio_rx.c\<close>) for both generations of the chip: headers of
  packets, the ports with their buffers, the handling of one packet, the parsers of a transfer, the buffers of a transfer and
  the loop of the receive thread. A packet is the memory of its slot with an identity, so that buffers can be counted.
\<close>

section \<open>Packet headers\<close>

datatype sdio_ver = SKW_SDIO_V10 | SKW_SDIO_V20

record packet_header =
  ph_len :: nat
  ph_eof :: bool
  ph_channel :: nat

definition word_le :: "u8 list \<Rightarrow> u32" where
  "word_le bs = ucast (le_val (take 4 bs))"

text \<open>\<open>struct skw_packet_header\<close> has seven bits in front of the length, \<open>struct skw_packet2_header\<close> behind it.\<close>

definition header_of :: "sdio_ver \<Rightarrow> u32 \<Rightarrow> packet_header" where
  "header_of v w = \<lparr>ph_len = unat (take_bit 16 (drop_bit (case v of SKW_SDIO_V10 \<Rightarrow> 7 | SKW_SDIO_V20 \<Rightarrow> 0) w)), ph_eof = bit w 23,
     ph_channel = unat (drop_bit 24 w)\<rparr>"

definition header_word :: "sdio_ver \<Rightarrow> packet_header \<Rightarrow> u32" where
  "header_word v h = push_bit (case v of SKW_SDIO_V10 \<Rightarrow> 7 | SKW_SDIO_V20 \<Rightarrow> 0) (take_bit 16 (of_nat (ph_len h))) OR
     push_bit 23 (of_bool (ph_eof h)) OR push_bit 24 (of_nat (ph_channel h))"

definition word_bytes :: "u32 \<Rightarrow> u8 list" where
  "word_bytes w = map (\<lambda>k. ucast (drop_bit (8 * k) w)) [0..<4]"

text \<open>The packet a port sends: a header, the message, and a header that ends the transfer.\<close>

definition setup_sdio_packet :: "sdio_ver \<Rightarrow> nat \<Rightarrow> u8 list \<Rightarrow> u8 list" where
  "setup_sdio_packet v channel msg =
     word_bytes (header_word v \<lparr>ph_len = length msg, ph_eof = False, ph_channel = channel\<rparr>) @ msg @
     word_bytes (header_word v \<lparr>ph_len = 0, ph_eof = True, ph_channel = 0\<rparr>)"

section \<open>Ports\<close>

definition MAX_SG_COUNT :: nat where "MAX_SG_COUNT = 100"
definition MAX_PAC_COUNT :: nat where "MAX_PAC_COUNT = 72"
definition PORT_STATE_IDLE :: nat where "PORT_STATE_IDLE = 0"
definition PORT_STATE_OPEN :: nat where "PORT_STATE_OPEN = 1"
definition PORT_STATE_CLSE :: nat where "PORT_STATE_CLSE = 2"
definition PORT_STATE_ASST :: nat where "PORT_STATE_ASST = 3"
definition DEVICE_ASSERT_EVENT :: nat where "DEVICE_ASSERT_EVENT = 0"
definition DEVICE_DUMPDONE_EVENT :: nat where "DEVICE_DUMPDONE_EVENT = 2"
definition DEVICE_BLOCKED_EVENT :: nat where "DEVICE_BLOCKED_EVENT = 3"

lemmas port_state_defs = PORT_STATE_IDLE_def PORT_STATE_OPEN_def PORT_STATE_CLSE_def PORT_STATE_ASST_def

definition max_ch_num :: "sdio_ver \<Rightarrow> nat" where
  "max_ch_num v = (case v of SKW_SDIO_V10 \<Rightarrow> 8 | SKW_SDIO_V20 \<Rightarrow> 12)"

definition max_pac_size :: "sdio_ver \<Rightarrow> nat" where
  "max_pac_size v = (case v of SKW_SDIO_V10 \<Rightarrow> 0x700 | SKW_SDIO_V20 \<Rightarrow> 0x600)"

definition loop_port :: "sdio_ver \<Rightarrow> nat" where
  "loop_port v = (case v of SKW_SDIO_V10 \<Rightarrow> 7 | SKW_SDIO_V20 \<Rightarrow> 1)"

definition skw_log_port :: "sdio_ver \<Rightarrow> nat" where
  "skw_log_port v = (case v of SKW_SDIO_V10 \<Rightarrow> 1 | SKW_SDIO_V20 \<Rightarrow> 9)"

record packet =
  pk_id :: nat
  pk_bytes :: "u8 list"

text \<open>
  \<open>struct sdio_port\<close>. \<open>po_sg_rx\<close> tells whether the port collects packets in a list, \<open>po_sg\<close>, in which \<open>None\<close> is an entry that was
  zeroed since; \<open>po_buf\<close> is its byte buffer,
  of \<open>po_length\<close> bytes, with a read and a write position.
\<close>

record sdio_port =
  po_state :: nat
  po_submit :: bool
  po_rx_data :: bool
  po_pdev :: bool
  po_sg_rx :: bool
  po_sg :: "packet option list"
  po_buf :: "u8 list option"
  po_length :: nat
  po_rp :: nat
  po_wp :: nat
  po_next_seqno :: u16
  po_rx_packet :: int
  po_rx_count :: int
  po_tx_flow :: int
  po_rx_flow :: bool
  po_tx_done :: bool
  po_rx_done :: bool

datatype sdio_note = Nt_assert | Nt_dumpdone | Nt_bspready | Nt_blocked | Nt_download_done | Nt_except_work nat | Nt_cancel_except | Nt_recovery | Nt_read_version
  | Nt_pin_config | Nt_gpio_irq | Nt_flow nat bool | Nt_bytes nat "u8 list" | Nt_log bool

text \<open>
  The chip and the build: scatter-gather mode, \<open>CONFIG_SEEKWAVE_PLD_RELEASE\<close>, \<open>CONFIG_BT_SEEKWAVE\<close>, whether the chip's name and the
  debug switch allow a recovery, whether the firmware was loaded before, whether there is a table of pins.
\<close>

record sdio_hw =
  sh_ver :: sdio_ver
  sh_adma :: bool
  sh_release :: bool
  sh_bt_seekwave :: bool
  sh_recover :: bool
  sh_first_dl :: bool
  sh_pin_cfg :: bool

record sdio_data =
  sd_ports :: "sdio_port list"
  sd_cp_state :: nat
  sd_service :: u32
  sd_device_active :: bool
  sd_sleep_mode :: int
  sd_version :: "u8 list"
  sd_assert_ctx :: "u8 list"
  sd_assert_print :: nat
  sd_remain_packet :: nat
  sd_rx_packer_cnt :: nat
  sd_calls :: "(nat \<times> packet option list) list"
  sd_notes :: "sdio_note list"
  sd_freed :: "nat list"
  sd_next :: nat
  sd_nsize :: u32
  sd_leaked :: "nat list"
  sd_fault :: bool

definition sg_ids :: "packet option list \<Rightarrow> nat list" where
  "sg_ids sg = map pk_id (concat (map (case_option [] (\<lambda>f. [f])) sg))"

definition note_up :: "sdio_note list \<Rightarrow> sdio_data \<Rightarrow> sdio_data" where
  "note_up ns s = s\<lparr>sd_notes := sd_notes s @ ns\<rparr>"

definition upd_port :: "nat \<Rightarrow> (sdio_port \<Rightarrow> sdio_port) \<Rightarrow> sdio_data \<Rightarrow> sdio_data" where
  "upd_port k f s = s\<lparr>sd_ports := (sd_ports s)[k := f (sd_ports s ! k)]\<rparr>"

text \<open>\<open>skw_page_frag_free(header)\<close>, which only the scatter-gather mode calls.\<close>

definition frag_free :: "sdio_hw \<Rightarrow> packet \<Rightarrow> sdio_data \<Rightarrow> sdio_data" where
  "frag_free hw f s = (if sh_adma hw then s\<lparr>sd_freed := sd_freed s @ [pk_id f]\<rparr> else s)"

section \<open>The byte buffer of a port\<close>

definition po_used :: "sdio_port \<Rightarrow> nat" where
  "po_used p = (po_length p + po_wp p - po_rp p) mod po_length p"

definition po_room :: "sdio_port \<Rightarrow> nat" where
  "po_room p = po_length p - 1 - po_used p"

text \<open>Copying \<open>bs\<close> to position \<open>i\<close>, as \<open>memcpy\<close> does.\<close>

definition put_bytes :: "nat \<Rightarrow> u8 list \<Rightarrow> u8 list \<Rightarrow> u8 list" where
  "put_bytes i bs buf = take i buf @ bs @ drop (i + length bs) buf"

definition ring_write :: "u8 list \<Rightarrow> u8 list \<Rightarrow> sdio_port \<Rightarrow> sdio_port" where
  "ring_write buf bs p =
     (let n = length bs; tail_room = po_length p - po_wp p in
      if n < tail_room then p\<lparr>po_buf := Some (put_bytes (po_wp p) bs buf), po_wp := po_wp p + n\<rparr>
      else p\<lparr>po_buf := Some (put_bytes 0 (drop tail_room bs) (put_bytes (po_wp p) (take tail_room bs) buf)), po_wp := n - tail_room\<rparr>)"

text \<open>The copy of at most \<open>sz\<close> bytes out of the buffer, which is not empty.\<close>

definition ring_read :: "u8 list \<Rightarrow> nat \<Rightarrow> sdio_port \<Rightarrow> u8 list \<times> sdio_port" where
  "ring_read buf sz p =
     (let n = min sz (po_used p); tail_room = po_length p - po_rp p;
          out = (if tail_room < n then drop (po_rp p) (take (po_length p) buf) @ take (n - tail_room) buf else take n (drop (po_rp p) buf));
          rp = (if tail_room < n then n - tail_room else po_rp p + n);
          rp1 = (if rp = po_length p then 0 else rp) in
      (out, if rp1 = po_wp p then p\<lparr>po_rp := 0, po_wp := 0\<rparr> else p\<lparr>po_rp := rp1\<rparr>))"

section \<open>Commands of the firmware\<close>

definition str_bytes :: "string \<Rightarrow> u8 list" where
  "str_bytes cs = map of_char cs"

definition starts :: "string \<Rightarrow> u8 list \<Rightarrow> bool" where
  "starts cs bs \<longleftrightarrow> take (length cs) bs = str_bytes cs"

text \<open>The text of a packet: the bytes from offset 16, ended by the zero the driver writes behind the packet.\<close>

definition loop_text :: "nat \<Rightarrow> u8 list \<Rightarrow> u8 list" where
  "loop_text len bs = takeWhile (\<lambda>b. b \<noteq> 0) (drop 16 (bs[4 + len := 0]))"

text \<open>\<open>strstr(version, "slp=")\<close>: the character behind the first occurrence.\<close>

fun slp_char :: "u8 list \<Rightarrow> int option" where
  "slp_char [] = None"
| "slp_char (b # bs) = (if starts ''slp='' (b # bs) then Some (case drop 3 bs of [] \<Rightarrow> 0 | c # cs \<Rightarrow> uint c) else slp_char bs)"

definition loop_ready :: "u32 \<Rightarrow> sdio_data \<Rightarrow> sdio_data" where
  "loop_ready m s = note_up [Nt_download_done] (s\<lparr>sd_service := sd_service s OR m, sd_device_active := True\<rparr>)"

definition loop_assert :: "sdio_hw \<Rightarrow> u8 list \<Rightarrow> sdio_data \<Rightarrow> sdio_data" where
  "loop_assert hw txt s =
     (let ver = sd_version s @ str_bytes '':'' @ txt @ [10];
          s1 = s\<lparr>sd_version := ver, sd_fault := (sd_fault s \<or> 128 \<le> length ver)\<rparr>;
          log = po_state (sd_ports s ! skw_log_port (sh_ver hw));
          delay = (if sh_release hw then if log = PORT_STATE_OPEN then 8000 else 800 else 12000);
          s2 = (if sd_cp_state s = 0 then note_up [Nt_except_work delay] s1 else s1) in
      if sd_cp_state s = DEVICE_BLOCKED_EVENT then s2
      else note_up [Nt_assert] (s2\<lparr>sd_cp_state := 1, sd_service := 0, sd_assert_ctx := []\<rparr>))"

text \<open>The loop over the first five ports after a dump, and in the work that handles an exception.\<close>

definition port_asserted :: "(nat \<Rightarrow> bool) \<Rightarrow> nat \<Rightarrow> sdio_port \<Rightarrow> sdio_port" where
  "port_asserted seq1 k p =
     (if po_state p = PORT_STATE_IDLE \<or> po_state p = PORT_STATE_CLSE then p
      else p\<lparr>po_state := PORT_STATE_ASST, po_rx_done := True, po_tx_done := (po_tx_done p \<or> k \<noteq> 1),
             po_next_seqno := (if seq1 k then 1 else po_next_seqno p)\<rparr>)"

definition assert_ports :: "(nat \<Rightarrow> bool) \<Rightarrow> sdio_data \<Rightarrow> sdio_data" where
  "assert_ports seq1 s = fold (\<lambda>k. upd_port k (port_asserted seq1 k)) [0..<5] s"

definition loop_dumpdone :: "sdio_hw \<Rightarrow> sdio_data \<Rightarrow> sdio_data" where
  "loop_dumpdone hw s =
     (if sd_cp_state s = DEVICE_BLOCKED_EVENT then s
      else
        (let log = po_state (sd_ports s ! skw_log_port (sh_ver hw));
             s1 = note_up (Nt_cancel_except # (if log = PORT_STATE_OPEN then [Nt_dumpdone] else [])) (s\<lparr>sd_cp_state := DEVICE_DUMPDONE_EVENT\<rparr>);
             s2 = assert_ports (\<lambda>k. case sh_ver hw of SKW_SDIO_V10 \<Rightarrow> k = 0 \<or> k = 1 | SKW_SDIO_V20 \<Rightarrow> k = 1) s1 in
         if sh_release hw \<or> sh_recover hw then note_up [Nt_recovery] s2 else s2))"

definition loop_version :: "sdio_hw \<Rightarrow> u8 list \<Rightarrow> sdio_data \<Rightarrow> sdio_data" where
  "loop_version hw txt s =
     (let ver = take 127 txt;
          s1 = s\<lparr>sd_version := ver, sd_sleep_mode := (case slp_char ver of Some c \<Rightarrow> c - 0x30 | None \<Rightarrow> 4)\<rparr>;
          s2 = (if sh_first_dl hw then s1 else note_up [Nt_gpio_irq] s1);
          s3 = (if sd_cp_state s = 0 then note_up [Nt_download_done] s2
                else note_up [Nt_bspready]
                  (upd_port 0 (\<lambda>p. if po_state p = PORT_STATE_ASST then p\<lparr>po_state := PORT_STATE_OPEN\<rparr> else p) (s2\<lparr>sd_assert_print := 0\<rparr>)));
          s4 = s3\<lparr>sd_cp_state := 0\<rparr> in
      if sh_pin_cfg hw then note_up [Nt_pin_config] s4 else s4)"

definition loop_command :: "sdio_hw \<Rightarrow> nat \<Rightarrow> u8 list \<Rightarrow> sdio_data \<Rightarrow> sdio_data" where
  "loop_command hw len bs s =
     (let s1 = s\<lparr>sd_fault := (sd_fault s \<or> length bs \<le> 4 + len)\<rparr>; txt = loop_text len bs in
      if len = 19 \<and> starts ''BTREADY'' txt then loop_ready 2 s1
      else if len = 21 \<and> starts ''WIFIREADY'' txt then loop_ready 1 s1
      else if starts ''BSPASSERT'' txt then loop_assert hw txt s1
      else if len = 20 \<and> starts ''DUMPDONE'' txt then loop_dumpdone hw s1
      else if starts ''trunk_W'' txt then loop_version hw txt s1
      else if starts ''BSPREADY'' txt then note_up [Nt_read_version] s1
      else s1)"

definition skw_sdio_exception_work :: "sdio_hw \<Rightarrow> sdio_data \<Rightarrow> sdio_data" where
  "skw_sdio_exception_work hw s =
     (if sd_cp_state s \<noteq> 1 then s
      else
        (let s1 = note_up [Nt_blocked] (s\<lparr>sd_cp_state := DEVICE_BLOCKED_EVENT\<rparr>);
             s2 = assert_ports (\<lambda>k. k = 0 \<or> k = skw_log_port (sh_ver hw)) s1 in
         note_up [Nt_recovery] (s2\<lparr>sd_service := 0\<rparr>)))"

section \<open>One packet\<close>

text \<open>
  The sequence number of a packet is in its fourth word. The older chip drops a packet with an unexpected number, except on
  the port of the log; the newer one goes on from it.
\<close>

definition lost_packet :: "sdio_hw \<Rightarrow> nat \<Rightarrow> nat \<Rightarrow> u16 \<Rightarrow> sdio_port \<Rightarrow> bool" where
  "lost_packet hw k len seq p \<longleftrightarrow> sh_ver hw = SKW_SDIO_V10 \<and> seq \<noteq> po_next_seqno p \<and> 12 < len \<and> k \<noteq> 1"

definition resync :: "sdio_hw \<Rightarrow> nat \<Rightarrow> u16 \<Rightarrow> sdio_port \<Rightarrow> sdio_port" where
  "resync hw len seq p = (if sh_ver hw = SKW_SDIO_V20 \<and> 12 < len then p\<lparr>po_next_seqno := seq\<rparr> else p)"

text \<open>The link header comes off: what is left of the packet, and the port.\<close>

definition strip_link :: "nat \<Rightarrow> u8 list \<Rightarrow> sdio_port \<Rightarrow> u8 list \<times> sdio_port" where
  "strip_link len bs p =
     (if 12 < len then (take (len - 12) (drop 16 bs), p\<lparr>po_next_seqno := po_next_seqno p + 1\<rparr>)
      else if len = 12 then ([], p\<lparr>po_tx_flow := po_tx_flow p - 1, po_tx_done := True\<rparr>)
      else (take len (drop 4 bs), p))"

definition assert_info :: "sdio_hw \<Rightarrow> u8 list \<Rightarrow> u8 list \<Rightarrow> nat \<Rightarrow> sdio_data \<Rightarrow> sdio_data" where
  "assert_info hw mem dat free s =
     (if sh_ver hw = SKW_SDIO_V10 \<and> sd_cp_state s \<noteq> 0 \<and> (length dat \<noteq> 245 \<or> free < 2048)
      then s\<lparr>sd_assert_print := sd_assert_print s + 1,
             sd_assert_ctx := (if sd_assert_print s < 28 \<and> \<not> starts ''+LOG'' mem \<and> length (sd_assert_ctx s) + length dat < 1024
                               then sd_assert_ctx s @ dat else sd_assert_ctx s)\<rparr>
      else s)"

definition port_store :: "sdio_hw \<Rightarrow> u8 list \<Rightarrow> sdio_port \<Rightarrow> sdio_port option" where
  "port_store hw dat p =
     (case po_buf p of
        Some buf \<Rightarrow> Some (ring_write buf dat p)
      | None \<Rightarrow> if sh_ver hw = SKW_SDIO_V10 then None else Some p)"

definition flow_stop :: "nat \<Rightarrow> nat \<Rightarrow> nat \<Rightarrow> sdio_port \<Rightarrow> sdio_port \<times> sdio_note list" where
  "flow_stop k free n p =
     (if \<not> po_rx_flow p \<and> free - n < po_length p div 3 then (p\<lparr>po_rx_flow := True\<rparr>, [Nt_flow k True]) else (p, []))"

definition port_data :: "sdio_hw \<Rightarrow> nat \<Rightarrow> u8 list \<Rightarrow> nat \<Rightarrow> sdio_data \<Rightarrow> sdio_data" where
  "port_data hw k dat free s =
     (let p = sd_ports s ! k; n = length dat in
      if po_submit p \<and> \<not> po_sg_rx p
      then if n \<noteq> 0 \<and> (po_pdev p \<or> sh_ver hw = SKW_SDIO_V20 \<and> sh_bt_seekwave hw) then note_up [Nt_bytes k dat] s else s
      else if free < n then s
      else if po_state p \<noteq> PORT_STATE_IDLE \<and> n \<noteq> 0
      then (case port_store hw dat p of
              None \<Rightarrow> s\<lparr>sd_fault := True\<rparr>
            | Some p1 \<Rightarrow> let (p2, ns) = flow_stop k free n p1 in note_up ns (upd_port k (\<lambda>_. p2\<lparr>po_rx_done := True\<rparr>) s))
      else s)"

definition port_packet :: "sdio_hw \<Rightarrow> nat \<Rightarrow> nat \<Rightarrow> u8 list \<Rightarrow> sdio_data \<Rightarrow> sdio_data" where
  "port_packet hw k len bs s =
     (let p = sd_ports s ! k; seq = ucast (word_le (drop 12 bs)) in
      if po_length p = 0 then s\<lparr>sd_fault := True\<rparr>
      else if lost_packet hw k len seq p then s
      else
        (let (dat, p1) = strip_link len bs (resync hw len seq p); free = po_room p in
         port_data hw k dat free (assert_info hw (drop (if 12 < len then 16 else 4) bs) dat free (upd_port k (\<lambda>_. p1) s))))"

definition skw_sdio_handle_packet :: "sdio_hw \<Rightarrow> packet \<Rightarrow> nat \<Rightarrow> nat \<Rightarrow> sdio_data \<Rightarrow> sdio_data" where
  "skw_sdio_handle_packet hw f len k s =
     (if max_ch_num (sh_ver hw) \<le> k then s
      else
        (let s1 = upd_port k (\<lambda>p. p\<lparr>po_rx_packet := po_rx_packet p + 1, po_rx_count := po_rx_count p + int len\<rparr>) s; p = sd_ports s1 ! k in
         if k = loop_port (sh_ver hw) then frag_free hw f (loop_command hw len (pk_bytes f) s1)
         else if po_state p = PORT_STATE_IDLE \<and> sh_adma hw then frag_free hw f s1
         else if po_sg_rx p \<and> (sh_ver hw = SKW_SDIO_V10 \<longrightarrow> po_rx_data p)
         then if MAX_SG_COUNT \<le> length (po_sg p) then (if sh_adma hw then s1\<lparr>sd_leaked := sd_leaked s1 @ [pk_id f]\<rparr> else s1)
              else upd_port k (\<lambda>p. p\<lparr>po_sg := po_sg p @ [Some f]\<rparr>) s1
         else frag_free hw f (port_packet hw k len (pk_bytes f) s1)))"

section \<open>A transfer\<close>

definition valid_header :: "sdio_hw \<Rightarrow> packet_header \<Rightarrow> bool" where
  "valid_header hw h \<longleftrightarrow> \<not> ph_eof h \<and> ph_channel h < max_ch_num (sh_ver hw) \<and> ph_len h \<noteq> 0 \<and> ph_len h \<le> max_pac_size (sh_ver hw) - 4"

definition packet_head :: "sdio_hw \<Rightarrow> packet \<Rightarrow> packet_header" where
  "packet_head hw f = header_of (sh_ver hw) (word_le (pk_bytes f))"

definition accept_packet :: "sdio_hw \<Rightarrow> packet \<Rightarrow> sdio_data \<Rightarrow> sdio_data" where
  "accept_packet hw f s =
     (let h = packet_head hw f in
      skw_sdio_handle_packet hw f (ph_len h) (ph_channel h) (s\<lparr>sd_rx_packer_cnt := sd_rx_packer_cnt s + 1\<rparr>))"

primrec skw_sdio_adma_parser :: "sdio_hw \<Rightarrow> packet list \<Rightarrow> sdio_data \<Rightarrow> sdio_data" where
  "skw_sdio_adma_parser hw [] s = s"
| "skw_sdio_adma_parser hw (f # fs) s =
     skw_sdio_adma_parser hw fs (if valid_header hw (packet_head hw f) then accept_packet hw f s else s\<lparr>sd_freed := sd_freed s @ [pk_id f]\<rparr>)"

text \<open>A plain transfer is cut into slots of the packet size; the first that is not valid ends it.\<close>

primrec skw_sdio_sdma_parser :: "sdio_hw \<Rightarrow> packet list \<Rightarrow> sdio_data \<Rightarrow> sdio_data" where
  "skw_sdio_sdma_parser hw [] s = s"
| "skw_sdio_sdma_parser hw (f # fs) s =
     (if valid_header hw (packet_head hw f) then skw_sdio_sdma_parser hw fs (accept_packet hw f s) else s)"

definition dispatch_port :: "nat \<Rightarrow> sdio_data \<Rightarrow> sdio_data" where
  "dispatch_port k s =
     (let p = sd_ports s ! k in
      if po_state p \<noteq> PORT_STATE_IDLE \<and> po_submit p \<and> po_sg p \<noteq> []
      then upd_port k (\<lambda>p. p\<lparr>po_sg := []\<rparr>) (s\<lparr>sd_calls := sd_calls s @ [(k, po_sg p)]\<rparr>)
      else s)"

definition skw_sdio_dispatch_packets :: "sdio_hw \<Rightarrow> sdio_data \<Rightarrow> sdio_data" where
  "skw_sdio_dispatch_packets hw s = fold dispatch_port [0..<max_ch_num (sh_ver hw)] s"

definition skw_sdio_adma_set_packet_num :: "u32 \<Rightarrow> sdio_data \<Rightarrow> sdio_data" where
  "skw_sdio_adma_set_packet_num num s =
     s\<lparr>sd_remain_packet := (if num = 0 then 1 else if MAX_SG_COUNT \<le> unat num then MAX_SG_COUNT else unat num)\<rparr>"

section \<open>The receive thread\<close>

definition skw_sdio_blk_size :: "sdio_ver \<Rightarrow> nat" where
  "skw_sdio_blk_size v = (case v of SKW_SDIO_V10 \<Rightarrow> 256 | SKW_SDIO_V20 \<Rightarrow> 512)"

definition FRAGSZ_SIZE :: nat where "FRAGSZ_SIZE = 3 * 1024"

definition skw_sdio_align_blk :: "sdio_ver \<Rightarrow> nat \<Rightarrow> nat" where
  "skw_sdio_align_blk v a = (let b = skw_sdio_blk_size v in if a mod b \<noteq> 0 then (a div b + 1) * b else a)"

text \<open>The bytes of the last entry of a scatter-gather list behind \<open>n\<close> packets, at the end of which the chip writes two words.\<close>

definition nsize_offset :: "sdio_ver \<Rightarrow> nat \<Rightarrow> nat" where
  "nsize_offset v n =
     (let b = skw_sdio_blk_size v; off = b - max_pac_size v * n mod b in (if off < 8 then b + off else off) + b)"

text \<open>
  What happens during one transfer: whether the list can be allocated, how many fragments can be, the result of the read, the contents
  of the slots and the number of packets that the chip announces next; and whether the power is off.
\<close>

record sdio_xfer =
  xf_list_ok :: bool
  xf_allocs :: nat
  xf_ret :: int
  xf_slots :: "u8 list list"
  xf_nsize :: u32
  xf_power_off :: bool

text \<open>\<open>skw_sdio_prepare_adma_buffer\<close>: the fragments that it gets, as many as asked for or fewer, and none at all on failure.\<close>

definition skw_sdio_prepare_adma_buffer :: "sdio_xfer \<Rightarrow> nat \<Rightarrow> nat" where
  "skw_sdio_prepare_adma_buffer x n = (if xf_list_ok x then min (xf_allocs x) n else 0)"

definition take_packets :: "nat \<Rightarrow> nat \<Rightarrow> u8 list list \<Rightarrow> packet list" where
  "take_packets base n slots = map (\<lambda>j. \<lparr>pk_id = base + j, pk_bytes = slots ! j\<rparr>) [0..<n]"

definition adma_receive :: "sdio_hw \<Rightarrow> sdio_xfer \<Rightarrow> sdio_data \<Rightarrow> sdio_data" where
  "adma_receive hw x s =
     (let n = skw_sdio_prepare_adma_buffer x (min (sd_remain_packet s) MAX_PAC_COUNT);
          s1 = s\<lparr>sd_next := sd_next s + n\<rparr> in
      if n = 0 then s
      else if xf_power_off x then s1\<lparr>sd_leaked := sd_leaked s @ [sd_next s..<sd_next s + n], sd_nsize := 0\<rparr>
      else if xf_ret x \<noteq> 0 then s1\<lparr>sd_leaked := sd_leaked s @ [sd_next s..<sd_next s + n]\<rparr>
      else skw_sdio_adma_parser hw (take_packets (sd_next s) n (xf_slots x)) (s1\<lparr>sd_nsize := xf_nsize x\<rparr>))"

definition sdma_receive :: "sdio_hw \<Rightarrow> sdio_xfer \<Rightarrow> sdio_data \<Rightarrow> sdio_data" where
  "sdma_receive hw x s =
     (if \<not> xf_list_ok x then s
      else if xf_ret x \<noteq> 0 then s\<lparr>sd_nsize := 0\<rparr>
      else skw_sdio_sdma_parser hw (take_packets 0 (min (sd_remain_packet s) MAX_PAC_COUNT) (xf_slots x)) (s\<lparr>sd_nsize := xf_nsize x\<rparr>))"

definition rx_round :: "sdio_hw \<Rightarrow> sdio_xfer \<Rightarrow> sdio_data \<Rightarrow> sdio_data" where
  "rx_round hw x s =
     (let s1 = (if sh_adma hw then adma_receive hw x s else sdma_receive hw x s);
          s2 = skw_sdio_dispatch_packets hw s1;
          s3 = skw_sdio_adma_set_packet_num (sd_nsize s2) s2 in
      if xf_power_off x then s3\<lparr>sd_nsize := 0\<rparr> else s3)"

text \<open>
  The loop of the thread for one interrupt: it transfers as long as the chip announces packets. The result is \<open>None\<close> when the given transfers are used up
  and it still goes on.
\<close>

fun rx_again :: "sdio_hw \<Rightarrow> sdio_xfer list \<Rightarrow> sdio_data \<Rightarrow> sdio_data option" where
  "rx_again hw [] s = None"
| "rx_again hw (x # xs) s = (let s1 = rx_round hw x s in if sd_nsize s1 = 0 then Some s1 else rx_again hw xs s1)"

section \<open>The operations of a port\<close>

definition ENODEV :: int where "ENODEV = 19"
definition EAGAIN :: int where "EAGAIN = 11"
definition ENOTCONN :: int where "ENOTCONN = 107"

definition open_sdio_port :: "sdio_hw \<Rightarrow> nat \<Rightarrow> bool \<Rightarrow> bool \<Rightarrow> sdio_data \<Rightarrow> int \<times> sdio_data" where
  "open_sdio_port hw k cb dat s =
     (if max_ch_num (sh_ver hw) \<le> k then (- EINVAL, s)
      else
        (let p = sd_ports s ! k; log = skw_log_port (sh_ver hw) in
         if po_state p = PORT_STATE_OPEN \<or> po_submit p then (- EBUSY, s)
         else
           (let p1 = p\<lparr>po_submit := cb, po_rx_data := dat, po_rx_done := False, po_tx_done := False, po_state := PORT_STATE_OPEN,
                       po_tx_flow := 0, po_rx_flow := False\<rparr>;
                p2 = (if k \<noteq> 0 \<and> k \<noteq> log then p1\<lparr>po_next_seqno := 1, po_wp := 0, po_rp := 0\<rparr> else p1);
                s1 = upd_port k (\<lambda>_. p2) s in
            (0, if k = log then note_up [Nt_log True] s1 else s1))))"

definition close_sdio_port :: "sdio_hw \<Rightarrow> nat \<Rightarrow> sdio_data \<Rightarrow> int \<times> sdio_data" where
  "close_sdio_port hw k s =
     (if max_ch_num (sh_ver hw) \<le> k then (- EINVAL, s)
      else if po_state (sd_ports s ! k) = PORT_STATE_IDLE then (- ENODEV, s)
      else
        (let s1 = upd_port k (\<lambda>p. p\<lparr>po_state := PORT_STATE_CLSE, po_submit := False, po_rx_done := True\<rparr>) s in
         (0, if k = skw_log_port (sh_ver hw) then note_up [Nt_log False] s1 else s1)))"

definition kill_BT_rx_transfer :: "sdio_hw \<Rightarrow> sdio_data \<Rightarrow> sdio_data" where
  "kill_BT_rx_transfer hw s = fold (\<lambda>k s. snd (close_sdio_port hw k s)) [2..<6] s"

text \<open>Taking the callback away frees the list of a port, with the packets it holds, but not their count.\<close>

definition register_rx_callback :: "sdio_hw \<Rightarrow> nat \<Rightarrow> bool \<Rightarrow> bool \<Rightarrow> bool \<Rightarrow> sdio_data \<Rightarrow> int \<times> sdio_data" where
  "register_rx_callback hw k func para alloc s =
     (if max_ch_num (sh_ver hw) \<le> k then (- EINVAL, s)
      else
        (let p = sd_ports s ! k; p1 = p\<lparr>po_submit := func, po_rx_data := para\<rparr>;
             gone = sg_ids (po_sg p) in
         if po_state p \<noteq> PORT_STATE_IDLE \<and> func then (- EBUSY, s)
         else if func
         then if alloc then (0, upd_port k (\<lambda>_. p1\<lparr>po_sg_rx := True, po_sg := map (\<lambda>_. None) (po_sg p), po_state := PORT_STATE_OPEN\<rparr>)
                                  (s\<lparr>sd_leaked := sd_leaked s @ gone\<rparr>))
              else (- ENOMEM, upd_port k (\<lambda>_. p1\<lparr>po_sg_rx := False, po_sg := map (\<lambda>_. None) (po_sg p)\<rparr>) (s\<lparr>sd_leaked := sd_leaked s @ gone\<rparr>))
         else (0, upd_port k (\<lambda>_. p1\<lparr>po_sg_rx := False, po_sg := map (\<lambda>_. None) (po_sg p), po_state := PORT_STATE_IDLE\<rparr>)
                    (s\<lparr>sd_leaked := sd_leaked s @ gone\<rparr>))))"

text \<open>
  Reading from a port: \<open>waits\<close> are the results of waiting for data (with a time limit, 0 when it is over), during each of which \<open>news\<close> is
  what the rest of the driver makes of the state. The result is \<open>None\<close> when the reader is still waiting at the end of the list.
\<close>

definition read_assert :: "sdio_hw \<Rightarrow> nat \<Rightarrow> sdio_data \<Rightarrow> (int \<times> sdio_data) option" where
  "read_assert hw k s =
     (if po_state (sd_ports s ! k) = PORT_STATE_ASST \<and> sd_cp_state s \<noteq> 0
      then Some (- ENOTCONN, if k = skw_log_port (sh_ver hw) then upd_port k (\<lambda>p. p\<lparr>po_state := PORT_STATE_OPEN\<rparr>) s else s)
      else None)"

definition flow_go :: "nat \<Rightarrow> sdio_port \<Rightarrow> sdio_port \<times> sdio_note list" where
  "flow_go k p = (if po_rx_flow p \<and> po_length p * 2 div 3 < po_room p then (p\<lparr>po_rx_flow := False\<rparr>, [Nt_flow k False]) else (p, []))"

definition read_copy :: "nat \<Rightarrow> nat \<Rightarrow> sdio_data \<Rightarrow> u8 list \<times> sdio_data" where
  "read_copy k sz s =
     (case po_buf (sd_ports s ! k) of
        None \<Rightarrow> ([], s\<lparr>sd_fault := True\<rparr>)
      | Some buf \<Rightarrow>
          (let (out, p1) = ring_read buf sz (sd_ports s ! k); (p2, ns) = flow_go k p1 in
           (out, note_up ns (upd_port k (\<lambda>_. p2) s))))"

definition may_wait :: "sdio_hw \<Rightarrow> nat \<Rightarrow> sdio_data \<Rightarrow> bool" where
  "may_wait hw k s \<longleftrightarrow> po_state (sd_ports s ! k) \<noteq> PORT_STATE_CLSE \<and> (0 < k \<and> k \<noteq> skw_log_port (sh_ver hw) \<longrightarrow> bit (sd_service s) 1)"

text \<open>A read up to the wait, and from the end of a wait; \<open>None\<close> means that it waits, or waits again.\<close>

definition read_start :: "sdio_hw \<Rightarrow> nat \<Rightarrow> nat \<Rightarrow> sdio_data \<Rightarrow> (int \<times> u8 list) option \<times> sdio_data" where
  "read_start hw k sz s =
     (let s0 = upd_port k (\<lambda>p. p\<lparr>po_rx_done := False\<rparr>) s; p = sd_ports s0 ! k in
      if po_wp p = po_rp p then (if may_wait hw k s0 then None else Some (- EIO, []), s0)
      else (let (out, s2) = read_copy k sz s0 in (Some (int (length out), out), s2)))"

definition read_woken :: "sdio_hw \<Rightarrow> nat \<Rightarrow> bool \<Rightarrow> nat \<Rightarrow> int \<Rightarrow> sdio_data \<Rightarrow> (int \<times> u8 list) option \<times> sdio_data" where
  "read_woken hw k limit sz r s =
     (if (if limit then r = 0 else r \<noteq> 0) then (Some (r, []), s)
      else if po_state (sd_ports s ! k) = PORT_STATE_CLSE then (Some (- EAGAIN, []), upd_port k (\<lambda>p. p\<lparr>po_state := PORT_STATE_IDLE\<rparr>) s)
      else
        (case read_assert hw k s of
           Some (e, s2) \<Rightarrow> (Some (e, []), s2)
         | None \<Rightarrow>
             if po_used (sd_ports s ! k) = 0 then (None, s)
             else (let (out, s2) = read_copy k sz s in (Some (int (length out), out), s2))))"

text \<open>The whole call, given what happens during each wait.\<close>

fun sdio_read :: "sdio_hw \<Rightarrow> nat \<Rightarrow> bool \<Rightarrow> nat \<Rightarrow> (int \<times> (sdio_data \<Rightarrow> sdio_data)) list \<Rightarrow> sdio_data \<Rightarrow> (int \<times> u8 list) option \<times> sdio_data" where
  "sdio_read hw k limit sz ws s =
     (case read_start hw k sz s of
        (Some r, s1) \<Rightarrow> (Some r, s1)
      | (None, s1) \<Rightarrow>
          (case ws of
             [] \<Rightarrow> (None, s1)
           | (r, news) # ws1 \<Rightarrow>
               (case read_woken hw k limit sz r (news s1) of
                  (Some x, s2) \<Rightarrow> (Some x, s2)
                | (None, s2) \<Rightarrow> sdio_read hw k limit sz ws1 s2)))"

definition recv_guard :: "sdio_hw \<Rightarrow> nat \<Rightarrow> nat \<Rightarrow> sdio_data \<Rightarrow> int option \<times> sdio_data" where
  "recv_guard hw k sz s =
     (if sz = 0 then (Some 0, s)
      else if max_ch_num (sh_ver hw) \<le> k then (Some (- EINVAL), s)
      else if po_state (sd_ports s ! k) = PORT_STATE_IDLE then (Some (- EIO), s)
      else if po_state (sd_ports s ! k) = PORT_STATE_CLSE then (Some (- EIO), upd_port k (\<lambda>p. p\<lparr>po_state := PORT_STATE_IDLE\<rparr>) s)
      else (case read_assert hw k s of Some (e, s1) \<Rightarrow> (Some e, s1) | None \<Rightarrow> (None, s)))"

definition recv_data :: "sdio_hw \<Rightarrow> nat \<Rightarrow> bool \<Rightarrow> nat \<Rightarrow> (int \<times> (sdio_data \<Rightarrow> sdio_data)) list \<Rightarrow> sdio_data \<Rightarrow> (int \<times> u8 list) option \<times> sdio_data" where
  "recv_data hw k limit sz ws s =
     (case recv_guard hw k sz s of
        (Some r, s1) \<Rightarrow> (Some (r, []), s1)
      | (None, s1) \<Rightarrow> sdio_read hw k limit sz ws s1)"

section \<open>Sending\<close>

text \<open>
  One attempt: the result of the write and, after a write, of the wait for the acknowledgement; the state seen after waking up the chip and after the wait.
\<close>

record sdio_try =
  ty_ret :: int
  ty_wait :: int
  ty_wake :: "sdio_data \<Rightarrow> sdio_data"
  ty_news :: "sdio_data \<Rightarrow> sdio_data"

definition pad4 :: "nat \<Rightarrow> nat" where
  "pad4 n = (n + 3) div 4 * 4"

text \<open>
  Attempts to send a packet with a header, for which the firmware sends an acknowledgement. After a failed write both branches of the
  source go on to the next attempt.
\<close>

fun send_packet :: "nat \<Rightarrow> nat \<Rightarrow> int \<Rightarrow> sdio_try list \<Rightarrow> sdio_data \<Rightarrow> int \<times> sdio_data" where
  "send_packet k sz ret [] s = (ret, s)"
| "send_packet k sz ret (t # ts) s =
     (let s1 = ty_wake t s in
      if sd_cp_state s1 \<noteq> 0 then (- EIO, s1)
      else if ty_ret t \<noteq> 0 then send_packet k sz (ty_ret t) ts s1
      else
        (let s2 = upd_port k (\<lambda>p. p\<lparr>po_tx_flow := po_tx_flow p + 1\<rparr>) s1 in
         if po_state (sd_ports s2 ! k) = PORT_STATE_ASST then (int sz, s2)
         else
           (let s3 = ty_news t s2 in
            if ty_wait t = 0 \<and> po_tx_flow (sd_ports s3 ! k) \<noteq> 0
            then send_packet k sz 0 ts (upd_port k (\<lambda>p. p\<lparr>po_tx_flow := po_tx_flow p - 1\<rparr>) s3)
            else (int sz, s3))))"

fun send_plain :: "nat \<Rightarrow> int \<Rightarrow> sdio_try list \<Rightarrow> sdio_data \<Rightarrow> int \<times> sdio_data" where
  "send_plain sz ret [] s = (ret, s)"
| "send_plain sz ret (t # ts) s = (let s1 = ty_wake t s in if ty_ret t = 0 then (int sz, s1) else send_plain sz (ty_ret t) ts s1)"

definition send_data :: "sdio_hw \<Rightarrow> nat \<Rightarrow> nat \<Rightarrow> sdio_try \<times> sdio_try \<Rightarrow> sdio_data \<Rightarrow> int \<times> sdio_data" where
  "send_data hw k sz tries s =
     (if sz = 0 then (0, s)
      else if max_ch_num (sh_ver hw) \<le> k then (- EINVAL, s)
      else if po_state (sd_ports s ! k) = PORT_STATE_IDLE \<or> sd_cp_state s \<noteq> 0 then (- EIO, s)
      else if po_state (sd_ports s ! k) = PORT_STATE_CLSE then (- EIO, upd_port k (\<lambda>p. p\<lparr>po_state := PORT_STATE_IDLE\<rparr>) s)
      else if pad4 sz + 8 < po_length (sd_ports s ! k)
      then send_packet k sz 0 [fst tries, snd tries] (upd_port k (\<lambda>p. p\<lparr>po_tx_done := False\<rparr>) s)
      else send_plain sz 0 [fst tries, snd tries] s)"

section \<open>Runs\<close>

text \<open>
  The operations that change the ports. A read is cut at its waits, so that anything can happen in between: \<open>SdRecv\<close> is a call up to its first wait,
  \<open>SdWoken\<close> the part from the end of a wait, after which the reader may wait again.
\<close>

datatype sdio_op =
    SdRx sdio_xfer
  | SdOpen nat bool bool
  | SdClose nat
  | SdKillBt
  | SdRegister nat bool bool bool
  | SdRecv nat nat
  | SdWoken nat bool nat int
  | SdSend nat nat "sdio_try \<times> sdio_try"
  | SdExcept

primrec sdio_step :: "sdio_hw \<Rightarrow> sdio_op \<Rightarrow> sdio_data \<Rightarrow> sdio_data" where
  "sdio_step hw (SdRx x) s = rx_round hw x s"
| "sdio_step hw (SdOpen k cb dat) s = snd (open_sdio_port hw k cb dat s)"
| "sdio_step hw (SdClose k) s = snd (close_sdio_port hw k s)"
| "sdio_step hw SdKillBt s = kill_BT_rx_transfer hw s"
| "sdio_step hw (SdRegister k func para alloc) s = snd (register_rx_callback hw k func para alloc s)"
| "sdio_step hw (SdRecv k sz) s = snd (recv_data hw k False sz [] s)"
| "sdio_step hw (SdWoken k limit sz r) s = snd (read_woken hw k limit sz r s)"
| "sdio_step hw (SdSend k sz ts) s = snd (send_data hw k sz ts s)"
| "sdio_step hw SdExcept s = skw_sdio_exception_work hw s"

text \<open>A reader that wakes up is one that has called; what happens in between two attempts to send are operations of their own.\<close>

primrec sdio_guard :: "sdio_hw \<Rightarrow> sdio_op \<Rightarrow> sdio_data \<Rightarrow> bool" where
  "sdio_guard hw (SdRx x) s \<longleftrightarrow> length (xf_slots x) = MAX_PAC_COUNT"
| "sdio_guard hw (SdOpen k cb dat) s \<longleftrightarrow> True"
| "sdio_guard hw (SdClose k) s \<longleftrightarrow> True"
| "sdio_guard hw SdKillBt s \<longleftrightarrow> True"
| "sdio_guard hw (SdRegister k func para alloc) s \<longleftrightarrow> True"
| "sdio_guard hw (SdRecv k sz) s \<longleftrightarrow> True"
| "sdio_guard hw (SdWoken k limit sz r) s \<longleftrightarrow> k < max_ch_num (sh_ver hw)"
| "sdio_guard hw (SdSend k sz ts) s \<longleftrightarrow> (\<forall>t \<in> {fst ts, snd ts}. ty_wake t = (\<lambda>s. s) \<and> ty_news t = (\<lambda>s. s))"
| "sdio_guard hw SdExcept s \<longleftrightarrow> True"

definition idle_port :: "nat \<Rightarrow> sdio_port" where
  "idle_port n = \<lparr>po_state = PORT_STATE_IDLE, po_submit = False, po_rx_data = False, po_pdev = 0 < n, po_sg_rx = False, po_sg = [],
     po_buf = (if n = 0 then None else Some (replicate n 0)), po_length = n, po_rp = 0, po_wp = 0, po_next_seqno = 1, po_rx_packet = 0,
     po_rx_count = 0, po_tx_flow = 0, po_rx_flow = False, po_tx_done = False, po_rx_done = False\<rparr>"

text \<open>All ports when the platform devices have been bound for the ports in \<open>ks\<close>, each with a buffer of \<open>n\<close> bytes, which is 4096 in the driver.\<close>

definition sdio_init :: "nat \<Rightarrow> nat set \<Rightarrow> sdio_data" where
  "sdio_init n ks = \<lparr>sd_ports = map (\<lambda>k. idle_port (if k \<in> ks then n else 0)) [0..<12], sd_cp_state = 0, sd_service = 0, sd_device_active = False,
     sd_sleep_mode = 0, sd_version = [], sd_assert_ctx = [], sd_assert_print = 0, sd_remain_packet = 1, sd_rx_packer_cnt = 0, sd_calls = [], sd_notes = [],
     sd_freed = [], sd_next = 0, sd_nsize = 0, sd_leaked = [], sd_fault = False\<rparr>"

end
