(* ===== verification/Skw_Sdio_Props.thy ===== *)
theory Skw_Sdio_Props
  imports Skw_Sdio "HOL-Library.Multiset"
begin

text \<open>
  Correctness of the SDIO receive side: headers read back, the buffer of a port is a queue of bytes that reads return in the order
  of arrival, and every fragment is in exactly one place.
\<close>

section \<open>Headers\<close>

lemma le_val_Cons_or: "le_val (b # bs) = ucast b OR push_bit 8 (le_val bs)"
proof -
  have "ucast b + push_bit 8 (le_val bs) = ucast b OR push_bit 8 (le_val bs)"
    by (rule disjunctive_add) (auto simp: bit_simps dest: bit_imp_le_length)
  then show ?thesis by (simp add: push_bit_eq_mult mult.commute)
qed

lemma bit_le_val: "bit (le_val bs) n \<longleftrightarrow> n < 64 \<and> n div 8 < length bs \<and> bit (bs ! (n div 8)) (n mod 8)"
proof (induction bs arbitrary: n)
  case (Cons b bs)
  show ?case
  proof (cases "n < 8")
    case True
    then show ?thesis by (simp add: le_val_Cons_or bit_simps del: le_val.simps)
  next
    case False
    then have "n div 8 = Suc ((n - 8) div 8)" "n mod 8 = (n - 8) mod 8" by (simp_all add: le_div_geq le_mod_geq)
    then show ?thesis using False Cons.IH [of "n - 8"] by (auto simp: le_val_Cons_or bit_simps simp del: le_val.simps dest: bit_imp_le_length)
  qed
qed simp

lemma length_word_bytes [simp]: "length (word_bytes w) = 4"
  by (simp add: word_bytes_def)

lemma word_le_bytes [simp]: "word_le (word_bytes w @ bs) = w"
proof (rule bit_word_eqI)
  fix n assume n: "n < LENGTH(32)"
  then have d: "n div 8 < 4" by simp
  then have "word_bytes w ! (n div 8) = ucast (drop_bit (8 * (n div 8)) w)" by (simp add: word_bytes_def)
  moreover have "8 * (n div 8) + n mod 8 = n" by simp
  ultimately show "bit (word_le (word_bytes w @ bs)) n = bit w n"
    using n d by (simp add: word_le_def bit_le_val bit_simps)
qed

lemma header_word_of:
  assumes "ph_len h < 2 ^ 16" "ph_channel h < 2 ^ 8"
  shows "header_of v (header_word v h) = h"
proof -
  let ?len = "take_bit 16 (word_of_nat (ph_len h)) :: u32" and ?w = "header_word v h"
  have small: "\<not> bit (ph_channel h) n" if "8 \<le> n" for n
  proof -
    have "take_bit 8 (ph_channel h) = ph_channel h" using assms(2) by (simp add: take_bit_nat_eq_self)
    then show ?thesis using that by (metis bit_take_bit_iff not_less)
  qed
  have len: "take_bit 16 (drop_bit (case v of SKW_SDIO_V10 \<Rightarrow> 7 | SKW_SDIO_V20 \<Rightarrow> 0) ?w) = ?len"
    by (rule bit_word_eqI) (cases v; auto simp: header_word_def bit_simps)
  have eof: "bit ?w 23 = ph_eof h" by (cases v) (simp_all add: header_word_def bit_simps)
  have ch: "drop_bit 24 ?w = word_of_nat (ph_channel h)"
  proof (rule bit_word_eqI)
    fix n assume n: "n < LENGTH(32)"
    show "bit (drop_bit 24 ?w) n = bit (word_of_nat (ph_channel h) :: u32) n"
      using n small [of n] by (cases v; cases "n < 8") (auto simp: header_word_def bit_simps not_less)
  qed
  have "unat ?len = ph_len h" using assms(1) by (simp add: unsigned_take_bit_eq unat_of_nat take_bit_nat_eq_self)
  moreover have "unat (word_of_nat (ph_channel h) :: u32) = ph_channel h" using assms(2) by (simp add: unat_of_nat)
  ultimately show ?thesis by (simp add: header_of_def len eof ch)
qed

text \<open>
  A packet that a port sends is read back by the parser of either generation: its header gives the length and the channel, the message
  follows, and then a header that ends the transfer.
\<close>

theorem sdio_packet_roundtrip:
  fixes v :: sdio_ver
  assumes "length msg < 2 ^ 16" "channel < 2 ^ 8"
  defines "bs \<equiv> setup_sdio_packet v channel msg"
  shows "header_of v (word_le bs) = \<lparr>ph_len = length msg, ph_eof = False, ph_channel = channel\<rparr> \<and> take (length msg) (drop 4 bs) = msg \<and>
    header_of v (word_le (drop (4 + length msg) bs)) = \<lparr>ph_len = 0, ph_eof = True, ph_channel = 0\<rparr>"
proof -
  have "word_le (word_bytes w) = w" for w using word_le_bytes [of w "[]"] by simp
  then show ?thesis using assms by (simp add: setup_sdio_packet_def header_word_of)
qed

theorem sdio_packet_roundtrip_witness:
  "header_of SKW_SDIO_V20 (word_le (setup_sdio_packet SKW_SDIO_V20 3 [1, 2, 3, 4])) = \<lparr>ph_len = 4, ph_eof = False, ph_channel = 3\<rparr>"
  using sdio_packet_roundtrip [of "[1, 2, 3, 4]" 3 SKW_SDIO_V20] by simp

section \<open>The buffer of a port\<close>

definition queue :: "sdio_port \<Rightarrow> u8 list" where
  "queue p =
     (case po_buf p of
        None \<Rightarrow> []
      | Some buf \<Rightarrow> if po_rp p \<le> po_wp p then drop (po_rp p) (take (po_wp p) buf) else drop (po_rp p) buf @ take (po_wp p) buf)"

definition ring_ok :: "sdio_port \<Rightarrow> bool" where
  "ring_ok p \<longleftrightarrow> po_rp p < po_length p \<and> po_wp p < po_length p \<and> (\<exists>buf. po_buf p = Some buf \<and> length buf = po_length p)"

lemma ring_okE:
  assumes "ring_ok p"
  obtains buf where "po_buf p = Some buf" "length buf = po_length p" "po_rp p < po_length p" "po_wp p < po_length p"
  using assms by (auto simp: ring_ok_def)

lemma used_alt: "ring_ok p \<Longrightarrow> po_used p = (if po_rp p \<le> po_wp p then po_wp p - po_rp p else po_length p + po_wp p - po_rp p)"
  by (auto simp: ring_ok_def po_used_def mod_if)

lemma length_queue: "ring_ok p \<Longrightarrow> length (queue p) = po_used p"
  by (auto simp: used_alt elim!: ring_okE) (auto simp: queue_def)

lemma queue_empty: "ring_ok p \<Longrightarrow> queue p = [] \<longleftrightarrow> po_wp p = po_rp p"
  by (auto simp flip: length_0_conv simp: length_queue used_alt ring_ok_def)

lemma put_bytes_length: "i + length bs \<le> length buf \<Longrightarrow> length (put_bytes i bs buf) = length buf"
  by (simp add: put_bytes_def)

lemma take_put: "n \<le> i \<Longrightarrow> i \<le> length buf \<Longrightarrow> take n (put_bytes i bs buf) = take n buf"
  by (simp add: put_bytes_def)

lemma take_put_end: "i \<le> length buf \<Longrightarrow> take (i + length bs) (put_bytes i bs buf) = take i buf @ bs"
  by (simp add: put_bytes_def)

lemma drop_put: "i + length bs \<le> n \<Longrightarrow> i \<le> length buf \<Longrightarrow> drop n (put_bytes i bs buf) = drop n buf"
  by (simp add: put_bytes_def min_def)

lemma ring_write_queue:
  assumes ok: "ring_ok p" and buf: "po_buf p = Some buf" and room: "length bs \<le> po_room p"
  shows "ring_ok (ring_write buf bs p)" "queue (ring_write buf bs p) = queue p @ bs"
proof -
  have len: "length buf = po_length p" and r: "po_rp p < po_length p" and w: "po_wp p < po_length p"
    using ok buf by (auto simp: ring_ok_def)
  define n where "n = length bs"
  have fit: "n + po_used p < po_length p" using room r used_alt [OF ok] w by (auto simp: po_room_def n_def split: if_splits)
  have u: "po_used p = (if po_rp p \<le> po_wp p then po_wp p - po_rp p else po_length p + po_wp p - po_rp p)" using used_alt [OF ok] .
  have "ring_ok (ring_write buf bs p) \<and> queue (ring_write buf bs p) = queue p @ bs"
  proof (cases "n < po_length p - po_wp p")
    case True
    then have e: "ring_write buf bs p = p\<lparr>po_buf := Some (put_bytes (po_wp p) bs buf), po_wp := po_wp p + n\<rparr>"
      by (simp add: ring_write_def Let_def n_def)
    have l: "length (put_bytes (po_wp p) bs buf) = po_length p" using True len by (simp add: put_bytes_length n_def)
    have tk: "take (po_wp p + n) (put_bytes (po_wp p) bs buf) = take (po_wp p) buf @ bs"
      using w len by (simp add: n_def take_put_end)
    show ?thesis
    proof (cases "po_rp p \<le> po_wp p")
      case le: True
      then show ?thesis using True l tk r len w buf by (auto simp: e ring_ok_def queue_def n_def)
    next
      case gt: False
      have "po_wp p + n < po_rp p" using fit u gt r by (simp split: if_splits)
      then show ?thesis using True l tk r len w buf gt by (auto simp: e ring_ok_def queue_def n_def drop_put)
    qed
  next
    case False
    let ?t = "po_length p - po_wp p"
    have le: "po_rp p \<le> po_wp p" using fit u False w r by (auto split: if_splits)
    have t: "length (take ?t bs) = ?t" using False by (simp add: n_def)
    have e: "ring_write buf bs p = p\<lparr>po_buf := Some (put_bytes 0 (drop ?t bs) (put_bytes (po_wp p) (take ?t bs) buf)), po_wp := n - ?t\<rparr>"
      using False by (simp add: ring_write_def Let_def n_def)
    define b1 where "b1 = put_bytes (po_wp p) (take ?t bs) buf"
    have b1: "b1 = take (po_wp p) buf @ take ?t bs" using w len t by (simp add: b1_def put_bytes_def)
    have lb1: "length b1 = po_length p" using b1 t w len by simp
    have lt: "n - ?t < po_rp p" using fit u le False w by simp
    have d: "drop (po_rp p) (put_bytes 0 (drop ?t bs) b1) = drop (po_rp p) b1"
      using lt by (simp add: put_bytes_def n_def)
    have tk: "take (n - ?t) (put_bytes 0 (drop ?t bs) b1) = drop ?t bs" by (simp add: put_bytes_def n_def)
    have lp: "length (put_bytes 0 (drop ?t bs) b1) = po_length p" using lb1 lt r by (simp add: put_bytes_def n_def)
    have "drop (po_rp p) b1 = drop (po_rp p) (take (po_wp p) buf) @ take ?t bs" using b1 le w len by simp
    then show ?thesis using e lt lp d tk r w le buf b1_def by (simp add: ring_ok_def queue_def)
  qed
  then show "ring_ok (ring_write buf bs p)" "queue (ring_write buf bs p) = queue p @ bs" by auto
qed

lemma ring_read_queue:
  assumes ok: "ring_ok p" and buf: "po_buf p = Some buf"
  shows "ring_ok (snd (ring_read buf sz p))" "fst (ring_read buf sz p) = take sz (queue p)" "queue (snd (ring_read buf sz p)) = drop sz (queue p)"
proof -
  have len: "length buf = po_length p" and r: "po_rp p < po_length p" and w: "po_wp p < po_length p"
    using ok buf by (auto simp: ring_ok_def)
  have u: "po_used p = (if po_rp p \<le> po_wp p then po_wp p - po_rp p else po_length p + po_wp p - po_rp p)" using used_alt [OF ok] .
  define n where "n = min sz (po_used p)"
  have tq: "take sz (queue p) = take n (queue p)" "drop sz (queue p) = drop n (queue p)"
    using length_queue [OF ok] by (simp_all add: n_def min_def)
  have nu: "n \<le> po_used p" by (simp add: n_def)
  define rp where "rp = (if po_length p - po_rp p < n then n - (po_length p - po_rp p) else po_rp p + n)"
  define rp1 where "rp1 = (if rp = po_length p then 0 else rp)"
  have e: "ring_read buf sz p = (if po_length p - po_rp p < n then drop (po_rp p) buf @ take (n - (po_length p - po_rp p)) buf else take n (drop (po_rp p) buf),
      if rp1 = po_wp p then p\<lparr>po_rp := 0, po_wp := 0\<rparr> else p\<lparr>po_rp := rp1\<rparr>)"
    using len by (simp add: ring_read_def Let_def n_def rp_def rp1_def)
  have rp1: "rp1 < po_length p" using u nu r w by (auto simp: rp1_def rp_def split: if_splits)
  have out: "fst (ring_read buf sz p) = take n (queue p)"
    using u nu r w len buf by (auto simp: e queue_def drop_take min_absorb1 split: if_splits)
  have rest: "queue (p\<lparr>po_rp := rp1\<rparr>) = drop n (queue p)"
    using u nu r w len buf by (auto simp: queue_def rp1_def rp_def min_def add.commute split: if_splits)
  have read_n: "ring_ok (snd (ring_read buf sz p)) \<and> fst (ring_read buf sz p) = take n (queue p) \<and> queue (snd (ring_read buf sz p)) = drop n (queue p)"
    using rp1 out rest ok by (auto simp: e ring_ok_def queue_def)
  show "ring_ok (snd (ring_read buf sz p))" "fst (ring_read buf sz p) = take sz (queue p)" "queue (snd (ring_read buf sz p)) = drop sz (queue p)"
    unfolding tq using read_n by simp_all
qed

definition live :: "sdio_port \<Rightarrow> bool" where
  "live p \<longleftrightarrow> po_state p \<noteq> PORT_STATE_IDLE \<and> po_state p \<noteq> PORT_STATE_CLSE"

text \<open>What the account of the fragments depends on.\<close>

definition port_view :: "sdio_port \<Rightarrow> packet option list \<times> bool \<times> bool \<times> bool" where
  "port_view p = (po_sg p, po_sg_rx p, po_submit p, live p)"

lemma port_view_same [simp]:
  "port_view (p\<lparr>po_rx_flow := b\<rparr>) = port_view p" "port_view (p\<lparr>po_rx_done := b\<rparr>) = port_view p" "port_view (p\<lparr>po_tx_done := b\<rparr>) = port_view p"
  "port_view (p\<lparr>po_next_seqno := w\<rparr>) = port_view p" "port_view (p\<lparr>po_rx_packet := i\<rparr>) = port_view p" "port_view (p\<lparr>po_rx_count := i\<rparr>) = port_view p"
  "port_view (p\<lparr>po_tx_flow := i\<rparr>) = port_view p" "port_view (p\<lparr>po_rx_data := b\<rparr>) = port_view p" "port_view (p\<lparr>po_rp := n\<rparr>) = port_view p"
  "port_view (p\<lparr>po_wp := n\<rparr>) = port_view p" "port_view (p\<lparr>po_buf := x\<rparr>) = port_view p"
  by (simp_all add: port_view_def live_def)

lemma ring_write_fields [simp]:
  "po_length (ring_write buf bs p) = po_length p" "po_sg (ring_write buf bs p) = po_sg p" "po_rx_flow (ring_write buf bs p) = po_rx_flow p"
  "port_view (ring_write buf bs p) = port_view p"
  by (simp_all add: ring_write_def Let_def port_view_def live_def)

lemma used_write:
  assumes "ring_ok p" "po_buf p = Some buf" "length bs \<le> po_room p"
  shows "po_room (ring_write buf bs p) = po_room p - length bs"
proof -
  have "po_used (ring_write buf bs p) = po_used p + length bs"
    using ring_write_queue [OF assms] length_queue [OF assms(1)] length_queue [of "ring_write buf bs p"] by simp
  moreover have "po_length (ring_write buf bs p) = po_length p" by (simp add: ring_write_def Let_def)
  ultimately show ?thesis by (simp add: po_room_def)
qed

section \<open>Ports stay well formed\<close>

text \<open>
  A port has its buffer or none; the list is not longer than the table; and the flow of a port is stopped only while the
  reader still has data to take, whose reading starts it again.
\<close>

definition port_ok :: "sdio_port \<Rightarrow> bool" where
  "port_ok p \<longleftrightarrow> (ring_ok p \<and> 4 \<le> po_length p \<or> po_length p = 0 \<and> po_buf p = None \<and> po_rp p = 0 \<and> po_wp p = 0 \<and> \<not> po_rx_flow p) \<and>
     length (po_sg p) \<le> MAX_SG_COUNT \<and> (po_rx_flow p \<longrightarrow> po_room p * 3 \<le> po_length p * 2)"

definition ports_ok :: "sdio_data \<Rightarrow> bool" where
  "ports_ok s \<longleftrightarrow> length (sd_ports s) = 12 \<and> (\<forall>p \<in> set (sd_ports s). port_ok p)"

definition frag_view :: "sdio_data \<Rightarrow> (packet option list \<times> bool \<times> bool \<times> bool) list \<times> (nat \<times> packet option list) list \<times> nat list \<times> nat list \<times> nat" where
  "frag_view s = (map port_view (sd_ports s), sd_calls s, sd_freed s, sd_leaked s, sd_next s)"

definition quiet :: "sdio_data \<Rightarrow> sdio_data \<Rightarrow> bool" where
  "quiet s t \<longleftrightarrow> frag_view t = frag_view s \<and> (ports_ok s \<longrightarrow> ports_ok t)"

lemma quiet_refl [simp]: "quiet s s"
  by (simp add: quiet_def)

lemma quiet_trans [trans]: "quiet s t \<Longrightarrow> quiet t u \<Longrightarrow> quiet s u"
  by (simp add: quiet_def)

lemma quiet_fields [simp]:
  "quiet s (t\<lparr>sd_cp_state := a\<rparr>) = quiet s t" "quiet s (t\<lparr>sd_service := b\<rparr>) = quiet s t" "quiet s (t\<lparr>sd_device_active := c\<rparr>) = quiet s t"
  "quiet s (t\<lparr>sd_sleep_mode := d\<rparr>) = quiet s t" "quiet s (t\<lparr>sd_version := e\<rparr>) = quiet s t" "quiet s (t\<lparr>sd_assert_ctx := e\<rparr>) = quiet s t"
  "quiet s (t\<lparr>sd_assert_print := g\<rparr>) = quiet s t" "quiet s (t\<lparr>sd_remain_packet := g\<rparr>) = quiet s t" "quiet s (t\<lparr>sd_rx_packer_cnt := g\<rparr>) = quiet s t"
  "quiet s (t\<lparr>sd_nsize := w\<rparr>) = quiet s t" "quiet s (t\<lparr>sd_fault := c\<rparr>) = quiet s t" "quiet s (note_up ns t) = quiet s t"
  by (simp_all add: quiet_def frag_view_def ports_ok_def note_up_def)

lemma quiet_set:
  assumes "port_view q = port_view (sd_ports s ! k)" "ports_ok s \<Longrightarrow> port_ok (sd_ports s ! k) \<Longrightarrow> port_ok q"
  shows "quiet s (upd_port k (\<lambda>_. q) s)"
proof (cases "k < length (sd_ports s)")
  case True
  have "(map port_view (sd_ports s)) [k := port_view (sd_ports s ! k)] = map port_view (sd_ports s)"
    using True by (metis list_update_id nth_map)
  then show ?thesis using assms True
    by (auto simp: quiet_def frag_view_def upd_port_def map_update ports_ok_def dest: subsetD [OF set_update_subset_insert])
qed (simp add: upd_port_def not_less list_update_beyond)

lemma upd_port_const: "upd_port k f s = upd_port k (\<lambda>_. f (sd_ports s ! k)) s"
  by (simp add: upd_port_def)

lemma quiet_upd: "(\<And>p. port_view (f p) = port_view p) \<Longrightarrow> (\<And>p. port_ok p \<Longrightarrow> port_ok (f p)) \<Longrightarrow> quiet s (upd_port k f s)"
  by (subst upd_port_const) (auto intro: quiet_set)

lemma quiet_fold: "(\<And>x s. quiet s (f x s)) \<Longrightarrow> quiet s (fold f xs s)"
  by (induction xs arbitrary: s) (auto intro: quiet_trans)

text \<open>Changes that leave the buffer, the list and the flow of a port alone.\<close>

lemma queue_same [simp]:
  "ring_ok (p\<lparr>po_state := a\<rparr>) = ring_ok p" "ring_ok (p\<lparr>po_rx_done := b\<rparr>) = ring_ok p" "ring_ok (p\<lparr>po_tx_done := b\<rparr>) = ring_ok p"
  "ring_ok (p\<lparr>po_next_seqno := w\<rparr>) = ring_ok p" "ring_ok (p\<lparr>po_rx_packet := i\<rparr>) = ring_ok p" "ring_ok (p\<lparr>po_rx_count := i\<rparr>) = ring_ok p"
  "ring_ok (p\<lparr>po_tx_flow := i\<rparr>) = ring_ok p" "ring_ok (p\<lparr>po_submit := b\<rparr>) = ring_ok p" "ring_ok (p\<lparr>po_rx_data := b\<rparr>) = ring_ok p"
  "ring_ok (p\<lparr>po_sg_rx := b\<rparr>) = ring_ok p" "ring_ok (p\<lparr>po_sg := l\<rparr>) = ring_ok p" "ring_ok (p\<lparr>po_rx_flow := b\<rparr>) = ring_ok p"
  "po_room (p\<lparr>po_state := a\<rparr>) = po_room p" "po_room (p\<lparr>po_rx_done := b\<rparr>) = po_room p" "po_room (p\<lparr>po_tx_done := b\<rparr>) = po_room p"
  "po_room (p\<lparr>po_next_seqno := w\<rparr>) = po_room p" "po_room (p\<lparr>po_rx_packet := i\<rparr>) = po_room p" "po_room (p\<lparr>po_rx_count := i\<rparr>) = po_room p"
  "po_room (p\<lparr>po_tx_flow := i\<rparr>) = po_room p" "po_room (p\<lparr>po_submit := b\<rparr>) = po_room p" "po_room (p\<lparr>po_rx_data := b\<rparr>) = po_room p"
  "po_room (p\<lparr>po_sg_rx := b\<rparr>) = po_room p" "po_room (p\<lparr>po_sg := l\<rparr>) = po_room p" "po_room (p\<lparr>po_rx_flow := b\<rparr>) = po_room p"
  by (simp_all add: ring_ok_def po_room_def po_used_def)

lemma loop_ready_quiet [simp]: "quiet s (loop_ready m t) = quiet s t"
  by (simp add: loop_ready_def)

lemma loop_assert_quiet [simp]: "quiet s (loop_assert hw txt t) = quiet s t"
  by (simp add: loop_assert_def Let_def)

lemma asserted_port: "port_view (port_asserted q k p) = port_view p" "port_ok p \<Longrightarrow> port_ok (port_asserted q k p)"
  by (auto simp: port_asserted_def port_view_def live_def port_ok_def port_state_defs)

lemma assert_ports_quiet: "quiet s (assert_ports q s)"
  unfolding assert_ports_def by (intro quiet_fold quiet_upd asserted_port)

lemma assert_ports_after [simp]: "quiet s t \<Longrightarrow> quiet s (assert_ports q t)"
  using assert_ports_quiet quiet_trans by blast

lemma dumpdone_quiet [simp]: "quiet s t \<Longrightarrow> quiet s (loop_dumpdone hw t)"
  by (simp add: loop_dumpdone_def Let_def)

lemma reopened_quiet [simp]:
  "quiet s t \<Longrightarrow> quiet s (upd_port k (\<lambda>p. if po_state p = PORT_STATE_ASST then p\<lparr>po_state := PORT_STATE_OPEN\<rparr> else p) t)"
  by (rule quiet_trans [OF _ quiet_upd]) (auto simp: port_view_def live_def port_ok_def port_state_defs)

lemma version_quiet [simp]: "quiet s t \<Longrightarrow> quiet s (loop_version hw txt t)"
  by (simp add: loop_version_def Let_def)

lemma loop_command_quiet [simp]: "quiet s (loop_command hw len bs s)"
  by (simp add: loop_command_def Let_def)

lemma exception_quiet [simp]: "quiet s (skw_sdio_exception_work hw s)"
  by (simp add: skw_sdio_exception_work_def Let_def)

lemma flow_stop_port:
  assumes "port_ok p" "ring_ok p" "4 \<le> po_length p"
  shows "port_ok (fst (flow_stop k free n p)\<lparr>po_rx_done := True\<rparr>) \<or> po_room p \<noteq> free - n"
  using assms by (auto simp: flow_stop_def port_ok_def)

lemma port_data_quiet:
  assumes "free = po_room (sd_ports s ! k)"
  shows "quiet s (port_data hw k dat free s)"
proof -
  let ?p = "sd_ports s ! k"
  have "quiet s (upd_port k (\<lambda>_. fst (flow_stop k free (length dat) p1)\<lparr>po_rx_done := True\<rparr>) s)"
    if st: "port_store hw dat ?p = Some p1" and fit: "length dat \<le> free" for p1
  proof (rule quiet_set)
    show "port_view (fst (flow_stop k free (length dat) p1)\<lparr>po_rx_done := True\<rparr>) = port_view ?p"
      using st by (auto simp: port_store_def flow_stop_def split: option.splits if_splits)
    assume ok: "port_ok ?p"
    show "port_ok (fst (flow_stop k free (length dat) p1)\<lparr>po_rx_done := True\<rparr>)"
    proof (cases "po_buf ?p")
      case None
      then have "p1 = ?p" "po_length ?p = 0" using st ok by (auto simp: port_store_def port_ok_def ring_ok_def split: if_splits)
      then show ?thesis using ok by (simp add: flow_stop_def port_ok_def)
    next
      case (Some buf)
      then have r: "ring_ok ?p" "4 \<le> po_length ?p" and p1: "p1 = ring_write buf dat ?p" using st ok by (auto simp: port_store_def port_ok_def)
      have w: "ring_ok p1" "po_room p1 = free - length dat" "4 \<le> po_length p1"
        using ring_write_queue(1) [OF r(1) Some] used_write [OF r(1) Some] fit assms r(2) by (simp_all add: p1)
      moreover have "port_ok p1" using w ok assms by (auto simp: port_ok_def p1)
      ultimately show ?thesis using flow_stop_port [of p1 k free "length dat"] by blast
    qed
  qed
  then show ?thesis
    unfolding port_data_def Let_def by (auto simp: split_def split: option.split)
qed

lemma strip_link_port:
  assumes "(dat, q) = strip_link len bs (resync hw len seq p)"
  shows "port_view q = port_view p" "port_ok q = port_ok p" "po_room q = po_room p"
  using assms by (auto simp: strip_link_def resync_def port_ok_def split: if_splits)

lemma port_packet_quiet [simp]: "quiet s (port_packet hw k len bs s)"
proof -
  let ?p = "sd_ports s ! k"
  have "quiet s (port_data hw k dat (po_room ?p) (assert_info hw mem dat (po_room ?p) (upd_port k (\<lambda>_. q) s)))"
    if q: "(dat, q) = strip_link len bs (resync hw len seq ?p)" for dat q seq mem
  proof -
    let ?s1 = "assert_info hw mem dat (po_room ?p) (upd_port k (\<lambda>_. q) s)"
    have "quiet s (upd_port k (\<lambda>_. q) s)" using strip_link_port [OF q] by (intro quiet_set) simp_all
    then have 1: "quiet s ?s1" by (simp add: assert_info_def)
    have "sd_ports ?s1 = (sd_ports s)[k := q]" by (simp add: assert_info_def upd_port_def)
    then have "po_room ?p = po_room (sd_ports ?s1 ! k)"
      using strip_link_port(3) [OF q] by (cases "k < length (sd_ports s)") (simp_all add: list_update_beyond)
    then have "quiet ?s1 (port_data hw k dat (po_room ?p) ?s1)" by (rule port_data_quiet)
    with 1 show ?thesis by (rule quiet_trans)
  qed
  then show ?thesis unfolding port_packet_def Let_def by (auto simp: split_def)
qed

section \<open>Where the fragments are\<close>

definition held :: "sdio_data \<Rightarrow> nat multiset" where
  "held s = mset (sd_freed s) + mset (sd_leaked s) + mset (concat (map (sg_ids \<circ> snd) (sd_calls s))) + mset (concat (map (sg_ids \<circ> po_sg) (sd_ports s)))"

lemma sg_ids_simps [simp]: "sg_ids [] = []" "sg_ids (a @ b) = sg_ids a @ sg_ids b" "sg_ids [Some f] = [pk_id f]" "sg_ids (map (\<lambda>_. None) l) = []"
  by (simp_all add: sg_ids_def map_replicate_const)

lemma held_quiet: "quiet s t \<Longrightarrow> held t = held s"
proof -
  assume "quiet s t"
  then have "frag_view t = frag_view s" by (simp add: quiet_def)
  then have "map port_view (sd_ports t) = map port_view (sd_ports s)" "sd_calls t = sd_calls s" "sd_freed t = sd_freed s" "sd_leaked t = sd_leaked s"
    by (simp_all add: frag_view_def)
  moreover have "map (sg_ids \<circ> po_sg) (sd_ports u) = map (sg_ids \<circ> fst) (map port_view (sd_ports u))" for u by (simp add: port_view_def)
  ultimately have "map (sg_ids \<circ> po_sg) (sd_ports t) = map (sg_ids \<circ> po_sg) (sd_ports s)" by metis
  then show ?thesis using \<open>sd_calls t = _\<close> \<open>sd_freed t = _\<close> \<open>sd_leaked t = _\<close> by (simp only: held_def)
qed

lemma concat_update:
  "k < length xs \<Longrightarrow> mset (concat (map F (xs[k := y]))) + mset (F (xs ! k)) = mset (concat (map F xs)) + mset (F y)"
  by (induction xs arbitrary: k) (auto split: nat.splits simp: ac_simps)

lemma held_port:
  assumes "k < length (sd_ports s)"
  shows "held (upd_port k f s) + mset (sg_ids (po_sg (sd_ports s ! k))) = held s + mset (sg_ids (po_sg (f (sd_ports s ! k))))"
  using concat_update [OF assms, of "sg_ids \<circ> po_sg" "f (sd_ports s ! k)"] by (simp add: held_def upd_port_def ac_simps)

text \<open>
  In the ordinary course of events a port with a list has a callback and is in use, so that its list is handed on after each transfer;
  \<open>n\<close> bounds the lists meanwhile.
\<close>

definition view_ok :: "nat \<Rightarrow> packet option list \<times> bool \<times> bool \<times> bool \<Rightarrow> bool" where
  "view_ok n v = (case v of (sg, sg_rx, submit, lv) \<Rightarrow> (sg_rx \<longrightarrow> submit \<and> lv) \<and> (sg \<noteq> [] \<longrightarrow> sg_rx) \<and> length sg \<le> n)"

definition handed_on :: "sdio_hw \<Rightarrow> nat \<Rightarrow> nat \<Rightarrow> sdio_data \<Rightarrow> bool" where
  "handed_on hw m n s \<longleftrightarrow> (\<forall>k < length (sd_ports s). view_ok (if m \<le> k \<and> k < max_ch_num (sh_ver hw) then n else 0) (port_view (sd_ports s ! k)))"

lemma handed_on_view: "map port_view (sd_ports t) = map port_view (sd_ports s) \<Longrightarrow> handed_on hw m n t = handed_on hw m n s"
proof -
  assume e: "map port_view (sd_ports t) = map port_view (sd_ports s)"
  then have "length (sd_ports t) = length (sd_ports s)" by (rule map_eq_imp_length_eq)
  moreover from this e have "port_view (sd_ports t ! k) = port_view (sd_ports s ! k)" if "k < length (sd_ports s)" for k
    using that by (metis nth_map)
  ultimately show ?thesis by (simp add: handed_on_def)
qed

lemma handed_on_quiet: "quiet s t \<Longrightarrow> handed_on hw m n t = handed_on hw m n s"
  by (rule handed_on_view) (simp add: quiet_def frag_view_def)

lemma view_ok_mono: "view_ok n v \<Longrightarrow> n \<le> m \<Longrightarrow> view_ok m v"
  by (auto simp: view_ok_def)

lemma handed_on_mono: "handed_on hw m n s \<Longrightarrow> n \<le> n1 \<Longrightarrow> handed_on hw m n1 s"
  by (auto simp: handed_on_def intro: view_ok_mono)

lemma handed_on_port: "handed_on hw m n s \<Longrightarrow> k < length (sd_ports s) \<Longrightarrow> view_ok n (port_view (sd_ports s ! k))"
  by (auto simp: handed_on_def intro: view_ok_mono)

lemma handed_on_upd:
  assumes "handed_on hw m n s" "view_ok (if m \<le> k \<and> k < max_ch_num (sh_ver hw) then n else 0) (port_view (f (sd_ports s ! k)))"
  shows "handed_on hw m n (upd_port k f s)"
  unfolding handed_on_def
proof (intro allI impI)
  fix j assume j: "j < length (sd_ports (upd_port k f s))"
  show "view_ok (if m \<le> j \<and> j < max_ch_num (sh_ver hw) then n else 0) (port_view (sd_ports (upd_port k f s) ! j))"
    using assms j by (cases "j = k") (simp_all add: handed_on_def upd_port_def)
qed

lemma quiet_same: "quiet s t \<Longrightarrow> sd_freed t = sd_freed s \<and> sd_leaked t = sd_leaked s \<and> sd_calls t = sd_calls s \<and> sd_next t = sd_next s"
  by (simp add: quiet_def frag_view_def)

lemma ports_ok_upd: "ports_ok s \<Longrightarrow> (k < 12 \<Longrightarrow> port_ok (sd_ports s ! k) \<Longrightarrow> port_ok (f (sd_ports s ! k))) \<Longrightarrow> ports_ok (upd_port k f s)"
  by (cases "k < 12") (auto simp: ports_ok_def upd_port_def list_update_beyond dest!: subsetD [OF set_update_subset_insert])

text \<open>The effect of one packet: the fragment is in one more place, and in none of the wrong ones.\<close>

definition one_more :: "sdio_hw \<Rightarrow> packet \<Rightarrow> sdio_data \<Rightarrow> sdio_data \<Rightarrow> bool" where
  "one_more hw f s t \<longleftrightarrow> ports_ok t \<and> sd_next t = sd_next s \<and> sd_calls t = sd_calls s \<and> (sh_adma hw \<longrightarrow> held t = held s + {#pk_id f#}) \<and>
     (\<forall>n < MAX_SG_COUNT. handed_on hw 0 n s \<longrightarrow> handed_on hw 0 (Suc n) t \<and> sd_leaked t = sd_leaked s)"

lemma one_more_free:
  assumes "quiet s u" "ports_ok s"
  shows "one_more hw f s (frag_free hw f u)"
proof -
  have "ports_ok u" using assms by (simp add: quiet_def)
  moreover have "handed_on hw 0 (Suc n) u" if "handed_on hw 0 n s" for n using handed_on_quiet [OF assms(1)] that handed_on_mono by auto
  ultimately show ?thesis using quiet_same [OF assms(1)] held_quiet [OF assms(1)]
    by (auto simp: one_more_def frag_free_def ports_ok_def held_def handed_on_def)
qed

lemma max_ch_le: "max_ch_num v \<le> 12"
  by (cases v) (simp_all add: max_ch_num_def)

lemma handle_packet_one:
  assumes ok: "ports_ok s" and k: "k < max_ch_num (sh_ver hw)"
  shows "one_more hw f s (skw_sdio_handle_packet hw f len k s)"
proof -
  define s1 where "s1 = upd_port k (\<lambda>p. p\<lparr>po_rx_packet := po_rx_packet p + 1, po_rx_count := po_rx_count p + int len\<rparr>) s"
  let ?p = "sd_ports s1 ! k"
  have q: "quiet s s1" unfolding s1_def by (rule quiet_upd) (simp_all add: port_ok_def)
  then have ok1: "ports_ok s1" using ok by (simp add: quiet_def)
  have k12: "k < length (sd_ports s1)" using k max_ch_le [of "sh_ver hw"] ok1 by (simp add: ports_ok_def)
  have free: "one_more hw f s (frag_free hw f u)" if "quiet s1 u" for u using one_more_free [OF quiet_trans [OF q that] ok] .
  have leak: "one_more hw f s (if sh_adma hw then s1\<lparr>sd_leaked := sd_leaked s1 @ [pk_id f]\<rparr> else s1)" if full: "MAX_SG_COUNT \<le> length (po_sg ?p)"
  proof -
    have "\<not> handed_on hw 0 n s" if "n < MAX_SG_COUNT" for n
      using handed_on_port [OF _ k12, of hw 0 n] full that handed_on_quiet [OF q] by (auto simp: view_ok_def port_view_def)
    then show ?thesis using ok1 quiet_same [OF q] held_quiet [OF q] by (auto simp: one_more_def ports_ok_def held_def)
  qed
  have store: "one_more hw f s (upd_port k (\<lambda>p. p\<lparr>po_sg := po_sg p @ [Some f]\<rparr>) s1)" if rx: "po_sg_rx ?p" and fit: "\<not> MAX_SG_COUNT \<le> length (po_sg ?p)"
  proof -
    let ?t = "upd_port k (\<lambda>p. p\<lparr>po_sg := po_sg p @ [Some f]\<rparr>) s1"
    have "ports_ok ?t" using fit by (intro ports_ok_upd [OF ok1]) (simp add: port_ok_def)
    moreover have "held ?t = held s + {#pk_id f#}" using held_port [OF k12, of "\<lambda>p. p\<lparr>po_sg := po_sg p @ [Some f]\<rparr>"] held_quiet [OF q] by simp
    moreover have "handed_on hw 0 (Suc n) ?t" if "handed_on hw 0 n s" for n
    proof -
      have "handed_on hw 0 n s1" using that handed_on_quiet [OF q] by simp
      moreover have "view_ok (Suc n) (port_view (?p\<lparr>po_sg := po_sg ?p @ [Some f]\<rparr>))"
        using handed_on_port [OF calculation k12] rx by (auto simp: view_ok_def port_view_def live_def)
      ultimately show ?thesis using k by (intro handed_on_upd) (auto intro: handed_on_mono)
    qed
    ultimately show ?thesis using quiet_same [OF q] by (simp add: one_more_def upd_port_def)
  qed
  have nk: "(max_ch_num (sh_ver hw) \<le> k) = False" using k by simp
  have e: "skw_sdio_handle_packet hw f len k s =
      (if k = loop_port (sh_ver hw) then frag_free hw f (loop_command hw len (pk_bytes f) s1)
       else if po_state ?p = PORT_STATE_IDLE \<and> sh_adma hw then frag_free hw f s1
       else if po_sg_rx ?p \<and> (sh_ver hw = SKW_SDIO_V10 \<longrightarrow> po_rx_data ?p)
       then if MAX_SG_COUNT \<le> length (po_sg ?p) then (if sh_adma hw then s1\<lparr>sd_leaked := sd_leaked s1 @ [pk_id f]\<rparr> else s1)
            else upd_port k (\<lambda>p. p\<lparr>po_sg := po_sg p @ [Some f]\<rparr>) s1
       else frag_free hw f (port_packet hw k len (pk_bytes f) s1))"
    by (simp only: skw_sdio_handle_packet_def Let_def s1_def nk if_False)
  have "one_more hw f s (frag_free hw f s1)" "one_more hw f s (frag_free hw f (loop_command hw len (pk_bytes f) s1))"
    "one_more hw f s (frag_free hw f (port_packet hw k len (pk_bytes f) s1))"
    by (rule free, simp)+
  then show ?thesis unfolding e using leak store by simp
qed

lemma accept_packet_one:
  assumes "ports_ok s" "valid_header hw (packet_head hw f)"
  shows "one_more hw f s (accept_packet hw f s)"
proof -
  let ?s = "s\<lparr>sd_rx_packer_cnt := sd_rx_packer_cnt s + 1\<rparr>"
  have q: "quiet s ?s" by simp
  then have "one_more hw f ?s (accept_packet hw f s)"
    using assms handle_packet_one [of ?s _ hw f] by (simp add: accept_packet_def Let_def quiet_def valid_header_def)
  then show ?thesis using handed_on_quiet [OF q] held_quiet [OF q] by (simp add: one_more_def)
qed

text \<open>A transfer: all its fragments are somewhere, and with at most 100 of them none gets lost.\<close>

definition all_in :: "sdio_hw \<Rightarrow> packet list \<Rightarrow> sdio_data \<Rightarrow> sdio_data \<Rightarrow> bool" where
  "all_in hw fs s t \<longleftrightarrow> ports_ok t \<and> sd_next t = sd_next s \<and> sd_calls t = sd_calls s \<and> (sh_adma hw \<longrightarrow> held t = held s + mset (map pk_id fs)) \<and>
     (\<forall>n. handed_on hw 0 n s \<and> n + length fs \<le> MAX_SG_COUNT \<longrightarrow> handed_on hw 0 (n + length fs) t \<and> sd_leaked t = sd_leaked s)"

lemma all_in_Nil: "ports_ok s \<Longrightarrow> all_in hw [] s s"
  by (simp add: all_in_def)

lemma all_in_kept:
  assumes "all_in hw fs s t" "handed_on hw 0 0 s" "length fs \<le> MAX_PAC_COUNT"
  shows "handed_on hw 0 (length fs) t \<and> sd_leaked t = sd_leaked s"
proof -
  have "0 + length fs \<le> MAX_SG_COUNT" using assms(3) by (simp add: MAX_SG_COUNT_def MAX_PAC_COUNT_def)
  then show ?thesis using assms(1,2) unfolding all_in_def by (metis add_0)
qed

lemma all_in_Cons:
  assumes "one_more hw f s t" "all_in hw fs t u"
  shows "all_in hw (f # fs) s u"
proof -
  have "handed_on hw 0 (n + length (f # fs)) u \<and> sd_leaked u = sd_leaked s" if "handed_on hw 0 n s" "n + length (f # fs) \<le> MAX_SG_COUNT" for n
  proof -
    have "n < MAX_SG_COUNT" using that(2) by simp
    then have "handed_on hw 0 (Suc n) t" "sd_leaked t = sd_leaked s" using assms(1) that(1) unfolding one_more_def by blast+
    moreover have "handed_on hw 0 (Suc n + length fs) u" "sd_leaked u = sd_leaked t"
      using assms(2) that(2) calculation(1) unfolding all_in_def by (metis add_Suc add_Suc_right list.size(4) One_nat_def add.right_neutral)+
    ultimately show ?thesis by simp
  qed
  moreover have "ports_ok u" "sd_next u = sd_next s" "sd_calls u = sd_calls s" "sh_adma hw \<longrightarrow> held u = held s + mset (map pk_id (f # fs))"
    using assms by (simp_all add: one_more_def all_in_def)
  ultimately show ?thesis unfolding all_in_def by blast
qed

lemma adma_parser_in: "ports_ok s \<Longrightarrow> sh_adma hw \<Longrightarrow> all_in hw fs s (skw_sdio_adma_parser hw fs s)"
proof (induction fs arbitrary: s)
  case (Cons f fs)
  let ?t = "if valid_header hw (packet_head hw f) then accept_packet hw f s else s\<lparr>sd_freed := sd_freed s @ [pk_id f]\<rparr>"
  have "one_more hw f s ?t"
    using accept_packet_one [OF Cons.prems(1)] one_more_free [of s s hw f] Cons.prems by (auto simp: frag_free_def)
  then show ?case using Cons by (simp add: one_more_def all_in_Cons)
qed (simp add: all_in_Nil)

lemma all_in_stop: "ports_ok s \<Longrightarrow> \<not> sh_adma hw \<Longrightarrow> all_in hw fs s s"
  by (auto simp: all_in_def elim: handed_on_mono)

lemma sdma_parser_in: "ports_ok s \<Longrightarrow> \<not> sh_adma hw \<Longrightarrow> all_in hw fs s (skw_sdio_sdma_parser hw fs s)"
proof (induction fs arbitrary: s)
  case (Cons f fs)
  show ?case
  proof (cases "valid_header hw (packet_head hw f)")
    case True
    then have "one_more hw f s (accept_packet hw f s)" using accept_packet_one Cons.prems by blast
    then show ?thesis using Cons True by (simp add: one_more_def all_in_Cons)
  qed (simp add: all_in_stop Cons.prems)
qed (simp add: all_in_Nil)

text \<open>The dispatch: the lists of the ports go to their callbacks.\<close>

lemma dispatch_port_ok: "ports_ok s \<Longrightarrow> ports_ok (dispatch_port k s)"
  unfolding dispatch_port_def Let_def
  by (auto intro!: ports_ok_upd simp: port_ok_def) (simp_all add: ports_ok_def)

lemma dispatch_port_held: "ports_ok s \<Longrightarrow> k < 12 \<Longrightarrow> held (dispatch_port k s) = held s"
proof -
  assume ok: "ports_ok s" and k: "k < 12"
  let ?p = "sd_ports s ! k" and ?s = "s\<lparr>sd_calls := sd_calls s @ [(k, po_sg (sd_ports s ! k))]\<rparr>"
  have "held ?s = held s + mset (sg_ids (po_sg ?p))" by (simp add: held_def)
  moreover have "held (upd_port k (\<lambda>p. p\<lparr>po_sg := []\<rparr>) ?s) + mset (sg_ids (po_sg ?p)) = held ?s"
    using held_port [of k ?s "\<lambda>p. p\<lparr>po_sg := []\<rparr>"] ok k by (simp add: ports_ok_def)
  ultimately show ?thesis by (simp add: dispatch_port_def Let_def)
qed

lemma drained_view: "view_ok n (port_view p) \<Longrightarrow> \<not> (po_state p \<noteq> PORT_STATE_IDLE \<and> po_submit p \<and> po_sg p \<noteq> []) \<Longrightarrow> view_ok 0 (port_view p)"
  by (auto simp: view_ok_def port_view_def live_def)

lemma emptied_view: "view_ok n (port_view p) \<Longrightarrow> view_ok 0 (port_view (p\<lparr>po_sg := []\<rparr>))"
  by (auto simp: view_ok_def port_view_def live_def)

lemma dispatch_port_on:
  assumes on: "handed_on hw k n s" and k: "k < max_ch_num (sh_ver hw)"
  shows "handed_on hw (Suc k) n (dispatch_port k s)"
  unfolding handed_on_def
proof (intro allI impI)
  let ?t = "dispatch_port k s"
  fix j assume "j < length (sd_ports ?t)"
  then have j: "j < length (sd_ports s)" by (simp add: dispatch_port_def Let_def upd_port_def split: if_splits)
  show "view_ok (if Suc k \<le> j \<and> j < max_ch_num (sh_ver hw) then n else 0) (port_view (sd_ports ?t ! j))"
  proof (cases "j = k")
    case True
    then have "view_ok n (port_view (sd_ports s ! k))" using handed_on_port [OF on] j by simp
    from drained_view [OF this] emptied_view [OF this] show ?thesis
      using True j by (simp add: dispatch_port_def Let_def upd_port_def)
  next
    case False
    then have "sd_ports ?t ! j = sd_ports s ! j" by (simp add: dispatch_port_def Let_def upd_port_def)
    moreover have "Suc k \<le> j \<longleftrightarrow> k \<le> j" using False by auto
    ultimately show ?thesis using on j by (simp add: handed_on_def)
  qed
qed

lemma dispatch_same: "sd_leaked (dispatch_port k s) = sd_leaked s" "sd_next (dispatch_port k s) = sd_next s" "sd_nsize (dispatch_port k s) = sd_nsize s"
  by (simp_all add: dispatch_port_def Let_def upd_port_def)

lemma dispatch_all:
  assumes "ports_ok s"
  shows "m \<le> max_ch_num (sh_ver hw) \<Longrightarrow> (let t = fold dispatch_port [0..<m] s in
    ports_ok t \<and> held t = held s \<and> sd_leaked t = sd_leaked s \<and> sd_next t = sd_next s \<and> (handed_on hw 0 n s \<longrightarrow> handed_on hw m n t))"
proof (induction m)
  case (Suc m)
  then show ?case using max_ch_le [of "sh_ver hw"]
    by (simp add: Let_def dispatch_port_ok dispatch_port_held dispatch_same dispatch_port_on)
qed (simp add: assms)

lemma dispatch_packets:
  fixes hw :: sdio_hw
  assumes "ports_ok s"
  defines "t \<equiv> skw_sdio_dispatch_packets hw s"
  shows "ports_ok t" "held t = held s" "sd_leaked t = sd_leaked s" "sd_next t = sd_next s" "handed_on hw 0 n s \<Longrightarrow> handed_on hw 0 0 t"
proof -
  have *: "ports_ok t \<and> held t = held s \<and> sd_leaked t = sd_leaked s \<and> sd_next t = sd_next s \<and> (handed_on hw 0 n s \<longrightarrow> handed_on hw (max_ch_num (sh_ver hw)) n t)" for n
    using dispatch_all [OF assms(1), of "max_ch_num (sh_ver hw)" hw n] by (simp add: t_def skw_sdio_dispatch_packets_def Let_def)
  have "handed_on hw 0 0 u" if "handed_on hw (max_ch_num (sh_ver hw)) n u" for u
    using that unfolding handed_on_def by (metis not_less)
  with * show "ports_ok t" "held t = held s" "sd_leaked t = sd_leaked s" "sd_next t = sd_next s" "handed_on hw 0 n s \<Longrightarrow> handed_on hw 0 0 t" by blast+
qed

section \<open>Runs\<close>

definition sdio_inv :: "sdio_hw \<Rightarrow> sdio_data \<Rightarrow> bool" where
  "sdio_inv hw s \<longleftrightarrow> ports_ok s \<and> (sh_adma hw \<longrightarrow> held s = mset [0..<sd_next s])"

lemma sdio_inv_quiet: "quiet s t \<Longrightarrow> sdio_inv hw s \<Longrightarrow> sdio_inv hw t"
  using quiet_same [of s t] held_quiet [of s t] by (simp add: sdio_inv_def quiet_def)

text \<open>The operations after which nothing is lost: no transfer fails, and no port with a list is closed.\<close>

primrec smooth :: "sdio_hw \<Rightarrow> sdio_op \<Rightarrow> sdio_data \<Rightarrow> bool" where
  "smooth hw (SdRx x) s \<longleftrightarrow> xf_ret x = 0 \<and> \<not> xf_power_off x"
| "smooth hw (SdOpen k cb dat) s \<longleftrightarrow> True"
| "smooth hw (SdClose k) s \<longleftrightarrow> k < 12 \<longrightarrow> \<not> po_sg_rx (sd_ports s ! k)"
| "smooth hw SdKillBt s \<longleftrightarrow> (\<forall>k \<in> set [2..<6]. \<not> po_sg_rx (sd_ports s ! k))"
| "smooth hw (SdRegister k func para alloc) s \<longleftrightarrow> True"
| "smooth hw (SdRecv k sz) s \<longleftrightarrow> True"
| "smooth hw (SdWoken k limit sz r) s \<longleftrightarrow> True"
| "smooth hw (SdSend k sz ts) s \<longleftrightarrow> True"
| "smooth hw SdExcept s \<longleftrightarrow> True"

text \<open>An operation that keeps the account of fragments and, if it is smooth, loses none.\<close>

definition keeps :: "sdio_hw \<Rightarrow> bool \<Rightarrow> sdio_data \<Rightarrow> sdio_data \<Rightarrow> bool" where
  "keeps hw nice s t \<longleftrightarrow> sdio_inv hw t \<and> (nice \<and> handed_on hw 0 0 s \<longrightarrow> handed_on hw 0 0 t \<and> sd_leaked t = sd_leaked s)"

lemma keeps_quiet: "quiet s t \<Longrightarrow> sdio_inv hw s \<Longrightarrow> keeps hw nice s t"
  using sdio_inv_quiet handed_on_quiet quiet_same unfolding keeps_def by blast

lemma take_packets_ids [simp]: "map pk_id (take_packets base n slots) = [base..<base + n]" "length (take_packets base n slots) = n"
  by (simp_all add: take_packets_def comp_def map_add_upt add.commute)

lemma held_leak: "held (s\<lparr>sd_leaked := sd_leaked s @ l, sd_next := n, sd_nsize := z\<rparr>) = held s + mset l"
  by (simp add: held_def)

lemma mset_more: "mset [0..<n] + mset [n..<n + m] = mset [0..<n + (m::nat)]"
  by (metis mset_append upt_add_eq_append zero_le)

lemma adma_receive_keeps:
  fixes x :: sdio_xfer
  assumes inv: "sdio_inv hw s" and adma: "sh_adma hw"
  defines "t \<equiv> adma_receive hw x s"
  shows "sdio_inv hw t" "xf_ret x = 0 \<Longrightarrow> \<not> xf_power_off x \<Longrightarrow> handed_on hw 0 0 s \<Longrightarrow> handed_on hw 0 MAX_PAC_COUNT t \<and> sd_leaked t = sd_leaked s"
proof -
  define n where "n = skw_sdio_prepare_adma_buffer x (min (sd_remain_packet s) MAX_PAC_COUNT)"
  define fs where "fs = take_packets (sd_next s) n (xf_slots x)"
  define s1 where "s1 = s\<lparr>sd_next := sd_next s + n, sd_nsize := xf_nsize x\<rparr>"
  have n: "n \<le> MAX_PAC_COUNT" by (simp add: n_def skw_sdio_prepare_adma_buffer_def min.coboundedI2)
  have t: "t = (if n = 0 then s
      else if xf_power_off x then s\<lparr>sd_leaked := sd_leaked s @ [sd_next s..<sd_next s + n], sd_next := sd_next s + n, sd_nsize := 0\<rparr>
      else if xf_ret x \<noteq> 0 then s\<lparr>sd_leaked := sd_leaked s @ [sd_next s..<sd_next s + n], sd_next := sd_next s + n, sd_nsize := sd_nsize s\<rparr>
      else skw_sdio_adma_parser hw fs s1)"
    by (simp add: t_def adma_receive_def Let_def n_def [symmetric] fs_def s1_def)
  have ok1: "ports_ok s1" using inv by (simp add: s1_def sdio_inv_def ports_ok_def)
  have p: "all_in hw fs s1 (skw_sdio_adma_parser hw fs s1)" using adma_parser_in [OF ok1 adma] .
  have h1: "held s1 = held s" by (simp add: s1_def held_def)
  have on1: "handed_on hw 0 m s1 = handed_on hw 0 m s" for m by (simp add: s1_def handed_on_def)
  have leak: "sdio_inv hw (s\<lparr>sd_leaked := sd_leaked s @ [sd_next s..<sd_next s + n], sd_next := sd_next s + n, sd_nsize := z\<rparr>)" for z
    using inv by (simp add: sdio_inv_def held_leak mset_more ports_ok_def del: mset_upt)
  have n1: "sd_next s1 = sd_next s + n" by (simp add: s1_def)
  have "sdio_inv hw (skw_sdio_adma_parser hw fs s1)"
    using p inv by (simp add: all_in_def sdio_inv_def h1 n1 fs_def mset_more del: mset_upt)
  then show "sdio_inv hw t" using inv leak [of 0] leak [of "sd_nsize s"] by (simp add: t)
  assume "xf_ret x = 0" "\<not> xf_power_off x" and on: "handed_on hw 0 0 s"
  moreover have "handed_on hw 0 n (skw_sdio_adma_parser hw fs s1) \<and> sd_leaked (skw_sdio_adma_parser hw fs s1) = sd_leaked s"
    using all_in_kept [OF p] on n by (simp add: on1 fs_def) (simp add: s1_def)
  ultimately show "handed_on hw 0 MAX_PAC_COUNT t \<and> sd_leaked t = sd_leaked s" using n by (auto simp: t elim: handed_on_mono)
qed

lemma sdma_receive_keeps:
  fixes x :: sdio_xfer
  assumes inv: "sdio_inv hw s" and adma: "\<not> sh_adma hw"
  defines "t \<equiv> sdma_receive hw x s"
  shows "sdio_inv hw t" "handed_on hw 0 0 s \<Longrightarrow> handed_on hw 0 MAX_PAC_COUNT t \<and> sd_leaked t = sd_leaked s"
proof -
  define fs where "fs = take_packets 0 (min (sd_remain_packet s) MAX_PAC_COUNT) (xf_slots x)"
  define s1 where "s1 = s\<lparr>sd_nsize := xf_nsize x\<rparr>"
  have ok1: "ports_ok s1" using inv by (simp add: s1_def sdio_inv_def ports_ok_def)
  have p: "all_in hw fs s1 (skw_sdio_sdma_parser hw fs s1)" using sdma_parser_in [OF ok1 adma] .
  have t: "t = (if \<not> xf_list_ok x then s else if xf_ret x \<noteq> 0 then s\<lparr>sd_nsize := 0\<rparr> else skw_sdio_sdma_parser hw fs s1)"
    by (simp add: t_def sdma_receive_def fs_def s1_def)
  show "sdio_inv hw t" using p inv adma by (simp add: t all_in_def sdio_inv_def) (simp add: ports_ok_def)
  assume on: "handed_on hw 0 0 s"
  have "handed_on hw 0 m s1 = handed_on hw 0 m s" for m by (simp add: s1_def handed_on_def)
  then have "handed_on hw 0 (length fs) (skw_sdio_sdma_parser hw fs s1) \<and> sd_leaked (skw_sdio_sdma_parser hw fs s1) = sd_leaked s"
    using all_in_kept [OF p] on by (simp add: fs_def) (simp add: s1_def)
  moreover have "handed_on hw 0 0 (s\<lparr>sd_nsize := 0\<rparr>)" using on by (simp add: handed_on_def)
  ultimately show "handed_on hw 0 MAX_PAC_COUNT t \<and> sd_leaked t = sd_leaked s" using on by (auto simp: t fs_def elim: handed_on_mono)
qed

lemma rx_round_keeps:
  assumes "sdio_inv hw s"
  shows "keeps hw (xf_ret x = 0 \<and> \<not> xf_power_off x) s (rx_round hw x s)"
proof -
  define s1 where "s1 = (if sh_adma hw then adma_receive hw x s else sdma_receive hw x s)"
  define s2 where "s2 = skw_sdio_dispatch_packets hw s1"
  have 1: "sdio_inv hw s1" using adma_receive_keeps(1) sdma_receive_keeps(1) assms by (simp add: s1_def)
  then have ok1: "ports_ok s1" by (simp add: sdio_inv_def)
  have 2: "sdio_inv hw s2" using dispatch_packets [OF ok1, of hw] 1 by (simp add: sdio_inv_def s2_def)
  have q: "quiet s2 (rx_round hw x s)" by (simp add: rx_round_def Let_def s1_def s2_def skw_sdio_adma_set_packet_num_def)
  have "handed_on hw 0 0 s2 \<and> sd_leaked s2 = sd_leaked s" if "xf_ret x = 0" "\<not> xf_power_off x" "handed_on hw 0 0 s"
  proof -
    have "handed_on hw 0 MAX_PAC_COUNT s1 \<and> sd_leaked s1 = sd_leaked s"
      using adma_receive_keeps(2) sdma_receive_keeps(2) assms that by (simp add: s1_def)
    then show ?thesis using dispatch_packets(3,5) [OF ok1, where hw = hw] by (auto simp: s2_def)
  qed
  then show ?thesis using keeps_quiet [OF q 2, of True] by (auto simp: keeps_def)
qed

lemma keeps_note [simp]: "keeps hw nice s (note_up ns t) = keeps hw nice s t"
  by (simp add: keeps_def sdio_inv_def ports_ok_def held_def handed_on_def note_up_def)

lemma keeps_refl: "sdio_inv hw s \<Longrightarrow> keeps hw nice s s"
  by (simp add: keeps_def)

lemma keeps_upd:
  assumes inv: "sdio_inv hw s" and ok: "port_ok (sd_ports s ! k) \<Longrightarrow> port_ok (f (sd_ports s ! k))"
    and sg: "sg_ids (po_sg (f (sd_ports s ! k))) = sg_ids (po_sg (sd_ports s ! k))"
    and view: "k < 12 \<Longrightarrow> nice \<Longrightarrow> view_ok 0 (port_view (sd_ports s ! k)) \<Longrightarrow> view_ok 0 (port_view (f (sd_ports s ! k)))"
  shows "keeps hw nice s (upd_port k f s)"
proof (cases "k < 12")
  case True
  have len: "length (sd_ports s) = 12" using inv by (simp add: sdio_inv_def ports_ok_def)
  have "ports_ok (upd_port k f s)" using inv ok by (intro ports_ok_upd) (simp_all add: sdio_inv_def)
  moreover have "held (upd_port k f s) = held s" using held_port [of k s f] True len sg by simp
  moreover have "handed_on hw 0 0 (upd_port k f s)" if "nice" "handed_on hw 0 0 s"
    using that view [OF True] handed_on_port [OF that(2), of k] True len by (intro handed_on_upd) simp_all
  ultimately show ?thesis using inv by (simp add: keeps_def sdio_inv_def upd_port_def)
next
  case False
  then have "upd_port k f s = s" using inv by (simp add: upd_port_def sdio_inv_def ports_ok_def list_update_beyond)
  then show ?thesis using inv by (simp add: keeps_refl)
qed

lemma open_keeps: "sdio_inv hw s \<Longrightarrow> keeps hw nice s (snd (open_sdio_port hw k cb dat s))"
proof -
  assume inv: "sdio_inv hw s"
  let ?p = "sd_ports s ! k"
  define q where "q = (let p1 = ?p\<lparr>po_submit := cb, po_rx_data := dat, po_rx_done := False, po_tx_done := False, po_state := PORT_STATE_OPEN,
      po_tx_flow := 0, po_rx_flow := False\<rparr> in if k \<noteq> 0 \<and> k \<noteq> skw_log_port (sh_ver hw) then p1\<lparr>po_next_seqno := 1, po_wp := 0, po_rp := 0\<rparr> else p1)"
  have "keeps hw nice s (upd_port k (\<lambda>_. q) s)" if "\<not> po_submit ?p"
    using inv that by (rule_tac keeps_upd) (auto simp: q_def Let_def port_ok_def ring_ok_def view_ok_def port_view_def)
  then show ?thesis using inv unfolding open_sdio_port_def Let_def q_def by (auto simp: keeps_refl)
qed

lemma close_keeps: "sdio_inv hw s \<Longrightarrow> keeps hw (k < 12 \<longrightarrow> \<not> po_sg_rx (sd_ports s ! k)) s (snd (close_sdio_port hw k s))"
proof -
  assume inv: "sdio_inv hw s"
  have "keeps hw (k < 12 \<longrightarrow> \<not> po_sg_rx (sd_ports s ! k)) s (upd_port k (\<lambda>p. p\<lparr>po_state := PORT_STATE_CLSE, po_submit := False, po_rx_done := True\<rparr>) s)"
    using inv by (rule keeps_upd) (auto simp: port_ok_def view_ok_def port_view_def)
  then show ?thesis using inv by (auto simp: close_sdio_port_def Let_def keeps_refl)
qed

lemma close_sg_rx: "po_sg_rx (sd_ports (snd (close_sdio_port hw j s)) ! k) = po_sg_rx (sd_ports s ! k)"
  by (cases "j = k"; cases "k < length (sd_ports s)") (simp_all add: close_sdio_port_def Let_def upd_port_def note_up_def list_update_beyond)

lemma kill_keeps: "sdio_inv hw s \<Longrightarrow> keeps hw (\<forall>k \<in> set ks. \<not> po_sg_rx (sd_ports s ! k)) s (fold (\<lambda>k s. snd (close_sdio_port hw k s)) ks s)"
proof (induction ks arbitrary: s)
  case (Cons k ks)
  let ?t = "snd (close_sdio_port hw k s)"
  have 1: "keeps hw (k < 12 \<longrightarrow> \<not> po_sg_rx (sd_ports s ! k)) s ?t" using Cons.prems by (rule close_keeps)
  then have "sdio_inv hw ?t" by (simp add: keeps_def)
  from Cons.IH [OF this] show ?case using 1 by (auto simp: keeps_def close_sg_rx)
qed (simp add: keeps_refl)

lemma register_keeps: "sdio_inv hw s \<Longrightarrow> keeps hw nice s (snd (register_rx_callback hw k func para alloc s))"
proof -
  assume inv: "sdio_inv hw s"
  let ?p = "sd_ports s ! k" and ?s = "s\<lparr>sd_leaked := sd_leaked s @ sg_ids (po_sg (sd_ports s ! k))\<rparr>"
  have *: "keeps hw nice s (upd_port k (\<lambda>_. q) ?s)"
    if k: "k < max_ch_num (sh_ver hw)" and q: "port_ok ?p \<Longrightarrow> port_ok q" "po_sg q = map (\<lambda>_. None) (po_sg ?p)" "po_sg_rx q \<longrightarrow> po_submit q \<and> live q" for q
  proof -
    have k12: "k < length (sd_ports s)" using k max_ch_le [of "sh_ver hw"] inv by (simp add: sdio_inv_def ports_ok_def)
    have "ports_ok ?s" using inv by (simp add: sdio_inv_def ports_ok_def)
    then have "ports_ok (upd_port k (\<lambda>_. q) ?s)" using q(1) by (rule ports_ok_upd) simp
    moreover have "held ?s = held s + mset (sg_ids (po_sg ?p))" by (simp add: held_def)
    then have "held (upd_port k (\<lambda>_. q) ?s) = held s" using held_port [of k ?s "\<lambda>_. q"] k12 q(2) by simp
    moreover have "handed_on hw 0 0 (upd_port k (\<lambda>_. q) ?s) \<and> sd_leaked ?s = sd_leaked s" if "handed_on hw 0 0 s"
    proof -
      have "po_sg ?p = []" using handed_on_port [OF that k12] by (auto simp: view_ok_def port_view_def)
      moreover from this have "view_ok 0 (port_view q)" using q by (auto simp: view_ok_def port_view_def)
      ultimately show ?thesis using that by (auto intro!: handed_on_upd)
    qed
    moreover have "sd_next (upd_port k (\<lambda>_. q) ?s) = sd_next s" "sd_leaked (upd_port k (\<lambda>_. q) ?s) = sd_leaked ?s" by (simp_all add: upd_port_def)
    ultimately show ?thesis using inv by (simp only: keeps_def sdio_inv_def) blast
  qed
  show ?thesis unfolding register_rx_callback_def Let_def
    using inv by (auto simp: keeps_refl port_ok_def live_def port_state_defs intro!: *)
qed

lemma read_assert_quiet: "read_assert hw k s = Some (e, t) \<Longrightarrow> quiet s t"
  by (auto simp: read_assert_def port_state_defs port_view_def live_def port_ok_def intro!: quiet_set [unfolded upd_port_def] split: if_splits simp: upd_port_def)

lemma read_copy_quiet: "quiet s (snd (read_copy k sz s))"
proof (cases "po_buf (sd_ports s ! k)")
  case (Some buf)
  let ?p = "sd_ports s ! k"
  let ?q = "snd (ring_read buf sz ?p)"
  have same: "port_view ?q = port_view ?p" "po_length ?q = po_length ?p" "po_sg ?q = po_sg ?p" "po_rx_flow ?q = po_rx_flow ?p"
    by (simp_all add: ring_read_def Let_def)
  have "quiet s (upd_port k (\<lambda>_. fst (flow_go k ?q)) s)"
  proof (rule quiet_set)
    show "port_view (fst (flow_go k ?q)) = port_view ?p" using same(1) by (simp add: flow_go_def)
    assume ok: "port_ok ?p"
    then have "ring_ok ?p" "4 \<le> po_length ?p" using Some by (auto simp: port_ok_def)
    then show "port_ok (fst (flow_go k ?q))" using ok ring_read_queue(1) [OF _ Some] same by (auto simp: port_ok_def flow_go_def)
  qed
  then show ?thesis using Some by (simp add: read_copy_def split_def Let_def)
qed (simp add: read_copy_def)

lemma read_start_quiet: "quiet s (snd (read_start hw k sz s))"
proof -
  let ?s = "upd_port k (\<lambda>p. p\<lparr>po_rx_done := False\<rparr>) s"
  have "quiet s ?s" by (rule quiet_upd) (simp_all add: port_ok_def)
  then show ?thesis using quiet_trans [OF _ read_copy_quiet] by (simp add: read_start_def Let_def split_def)
qed

lemma closed_quiet: "po_state (sd_ports s ! k) = PORT_STATE_CLSE \<Longrightarrow> quiet s (upd_port k (\<lambda>p. p\<lparr>po_state := PORT_STATE_IDLE\<rparr>) s)"
  by (subst upd_port_const) (auto intro!: quiet_set simp: port_view_def live_def port_ok_def)

lemma read_woken_quiet: "quiet s (snd (read_woken hw k limit sz r s))"
  using read_copy_quiet read_assert_quiet closed_quiet
  by (auto simp: read_woken_def Let_def split_def split: option.split)

lemma recv_data_quiet: "quiet s (snd (recv_data hw k limit sz [] s))"
proof -
  have 1: "quiet s (snd (recv_guard hw k sz s))"
    using read_assert_quiet closed_quiet by (auto simp: recv_guard_def split: option.split)
  have 2: "quiet t (snd (sdio_read hw k limit sz [] t))" for t
    using read_start_quiet [of t hw k sz] by (auto split: option.split prod.split)
  show ?thesis using quiet_trans [OF 1 2] 1 by (auto simp: recv_data_def split: option.split prod.split)
qed

lemma send_packet_quiet:
  "\<forall>t \<in> set ts. ty_wake t = (\<lambda>s. s) \<and> ty_news t = (\<lambda>s. s) \<Longrightarrow> quiet s (snd (send_packet k sz ret ts s))"
proof (induction ts arbitrary: ret s)
  case (Cons t ts)
  let ?s = "upd_port k (\<lambda>p. p\<lparr>po_tx_flow := po_tx_flow p + 1\<rparr>) s" and ?dec = "upd_port k (\<lambda>p. p\<lparr>po_tx_flow := po_tx_flow p - 1\<rparr>)"
  have 1: "quiet s ?s" and 2: "quiet u (?dec u)" for u by (rule quiet_upd; simp add: port_ok_def)+
  show ?case using Cons 1 quiet_trans [OF quiet_trans [OF 1 2] Cons.IH] by (simp add: Let_def)
qed simp

lemma send_plain_quiet: "\<forall>t \<in> set ts. ty_wake t = (\<lambda>s. s) \<Longrightarrow> quiet s (snd (send_plain sz ret ts s))"
  by (induction ts arbitrary: ret s) (simp_all add: Let_def)

lemma send_data_quiet: "sdio_guard hw (SdSend k sz ts) s \<Longrightarrow> quiet s (snd (send_data hw k sz ts s))"
proof -
  assume g: "sdio_guard hw (SdSend k sz ts) s"
  let ?s = "upd_port k (\<lambda>p. p\<lparr>po_tx_done := False\<rparr>) s"
  have "quiet s ?s" by (rule quiet_upd) (simp_all add: port_ok_def)
  moreover have "quiet ?s (snd (send_packet k sz 0 [fst ts, snd ts] ?s))" using g by (intro send_packet_quiet) simp
  ultimately have "quiet s (snd (send_packet k sz 0 [fst ts, snd ts] ?s))" by (rule quiet_trans)
  moreover have "quiet s (snd (send_plain sz 0 [fst ts, snd ts] s))" using g by (intro send_plain_quiet) simp
  ultimately show ?thesis using closed_quiet [of s k] unfolding send_data_def by (simp del: send_packet.simps send_plain.simps)
qed

lemma sdio_step_keeps: "sdio_inv hw s \<Longrightarrow> sdio_guard hw op s \<Longrightarrow> keeps hw (smooth hw op s) s (sdio_step hw op s)"
proof (cases op)
  case (SdRx x)
  assume "sdio_inv hw s"
  then show ?thesis using rx_round_keeps SdRx by simp
next
  case (SdSend k sz ts)
  assume "sdio_inv hw s" "sdio_guard hw op s"
  then show ?thesis using keeps_quiet send_data_quiet SdSend by simp
qed (use open_keeps close_keeps kill_keeps [of hw s "[2..<6]"] register_keeps keeps_quiet recv_data_quiet read_woken_quiet in \<open>simp_all add: kill_BT_rx_transfer_def\<close>)

lemma idle_port_ok: "port_ok (idle_port 0)" "4 \<le> n \<Longrightarrow> port_ok (idle_port n)" "view_ok 0 (port_view (idle_port n))"
  by (simp_all add: idle_port_def port_ok_def ring_ok_def view_ok_def port_view_def)

lemma init_ok: "4 \<le> n \<Longrightarrow> sdio_inv hw (sdio_init n ks)" "handed_on hw 0 0 (sdio_init n ks)" "sd_leaked (sdio_init n ks) = []"
proof -
  have "ports_ok (sdio_init n ks)" if "4 \<le> n" using idle_port_ok that by (auto simp: sdio_init_def ports_ok_def)
  moreover have "held (sdio_init n ks) = {#}" by (simp add: held_def sdio_init_def idle_port_def comp_def)
  ultimately show "4 \<le> n \<Longrightarrow> sdio_inv hw (sdio_init n ks)" by (simp add: sdio_inv_def sdio_init_def)
  show "handed_on hw 0 0 (sdio_init n ks)" by (simp add: handed_on_def sdio_init_def idle_port_ok)
qed (simp add: sdio_init_def)

interpretation sdio: inv_machine "sdio_step hw" "sdio_inv hw" "sdio_guard hw"
  by unfold_locales (use sdio_step_keeps in \<open>auto simp: keeps_def\<close>)

interpretation sdio_smooth: inv_machine "sdio_step hw" "\<lambda>s. sdio_inv hw s \<and> handed_on hw 0 0 s \<and> sd_leaked s = []"
  "\<lambda>op s. sdio_guard hw op s \<and> smooth hw op s"
  by unfold_locales (use sdio_step_keeps in \<open>auto simp: keeps_def\<close>)

lemma stopped_has_data: "port_ok p \<Longrightarrow> po_rx_flow p \<Longrightarrow> queue p \<noteq> []"
  using length_queue by (fastforce simp: port_ok_def po_room_def)

text \<open>A port with a callback, a port with a buffer, a packet for each and a read.\<close>

definition demo_hw :: sdio_hw where
  "demo_hw = \<lparr>sh_ver = SKW_SDIO_V10, sh_adma = True, sh_release = False, sh_bt_seekwave = False, sh_recover = True, sh_first_dl = True, sh_pin_cfg = False\<rparr>"

definition demo_bytes :: "nat \<Rightarrow> u8 \<Rightarrow> u8 list \<Rightarrow> u8 list" where
  "demo_bytes k seq dat = word_bytes (header_word SKW_SDIO_V10 \<lparr>ph_len = 12 + length dat, ph_eof = False, ph_channel = k\<rparr>) @ replicate 8 0 @ [seq, 0, 0, 0] @ dat"

definition demo_xfer :: "u8 list \<Rightarrow> sdio_xfer" where
  "demo_xfer bs = \<lparr>xf_list_ok = True, xf_allocs = 100, xf_ret = 0, xf_slots = bs # replicate 71 [], xf_nsize = 0, xf_power_off = False\<rparr>"

definition demo_ops :: "sdio_op list" where
  "demo_ops = [SdRegister 5 True True True, SdOpen 0 False False, SdRx (demo_xfer (demo_bytes 5 1 [1, 2])), SdRx (demo_xfer (demo_bytes 0 1 [7, 8, 9])), SdRecv 0 2]"

definition demo_state :: sdio_data where
  "demo_state = fold (sdio_step demo_hw) demo_ops (sdio_init 16 {0, 1, 7})"

lemma demo_run: "guarded_run (sdio_guard demo_hw) (sdio_step demo_hw) demo_ops (sdio_init 16 {0, 1, 7})"
  "guarded_run (\<lambda>op s. sdio_guard demo_hw op s \<and> smooth demo_hw op s) (sdio_step demo_hw) demo_ops (sdio_init 16 {0, 1, 7})"
  unfolding demo_ops_def guarded_run.simps sdio_guard.simps smooth.simps by (simp_all add: demo_xfer_def MAX_PAC_COUNT_def del: sdio_step.simps)

lemma demo_size: "4 \<le> (16::nat)"
  by simp

lemma demo_hw_simps: "sh_adma demo_hw" "sh_ver demo_hw = SKW_SDIO_V10"
  by (simp_all add: demo_hw_def)

lemma demo_end: "sd_next demo_state = 2" "sd_freed demo_state = [1]"
  by code_simp+

text \<open>
  C13. In scatter-gather mode, over any sequence of transfers, good or bad, and of operations of the clients, every fragment that was allocated for a
  transfer is in exactly one place: freed, handed to a callback, in the list of a port, or lost. The buffer of a port never holds more than its size,
  and the flow of a port is stopped only while its reader has data to take.
\<close>

theorem sdio_fragments_conserved:
  assumes "sh_adma hw" "4 \<le> n" "guarded_run (sdio_guard hw) (sdio_step hw) ops (sdio_init n ks)"
  defines "s \<equiv> fold (sdio_step hw) ops (sdio_init n ks)"
  shows "mset (sd_freed s) + mset (concat (map (sg_ids \<circ> snd) (sd_calls s))) + mset (concat (map (sg_ids \<circ> po_sg) (sd_ports s))) + mset (sd_leaked s)
      = mset [0..<sd_next s] \<and>
    (\<forall>p \<in> set (sd_ports s). (queue p \<noteq> [] \<longrightarrow> length (queue p) < po_length p) \<and> length (po_sg p) \<le> MAX_SG_COUNT \<and> (po_rx_flow p \<longrightarrow> queue p \<noteq> []))"
proof -
  have inv: "sdio_inv hw s" using sdio.run_invar [OF init_ok(1) assms(3)] assms(2) by (simp add: s_def)
  then have "held s = mset [0..<sd_next s]" using assms(1) by (simp add: sdio_inv_def)
  moreover have "queue p \<noteq> [] \<longrightarrow> length (queue p) < po_length p" if "port_ok p" for p
    using that length_queue [of p] by (auto simp: port_ok_def queue_def po_used_def)
  ultimately show ?thesis using inv stopped_has_data by (auto simp: held_def ac_simps sdio_inv_def ports_ok_def port_ok_def)
qed

theorem sdio_fragments_conserved_witness:
  "{#1#} + mset (concat (map (sg_ids \<circ> snd) (sd_calls demo_state))) + mset (concat (map (sg_ids \<circ> po_sg) (sd_ports demo_state))) + mset (sd_leaked demo_state)
     = mset [0, 1]"
  using sdio_fragments_conserved [OF demo_hw_simps(1) demo_size demo_run(1), folded demo_state_def] by (simp add: demo_end upt_rec)

text \<open>
  C11. As long as no transfer fails and no port with a list is closed, nothing is lost and no list overflows: after each transfer every fragment has been
  freed, or handed to a callback, exactly once.
\<close>

theorem sdio_nothing_lost:
  assumes "sh_adma hw" "4 \<le> n" "guarded_run (\<lambda>op s. sdio_guard hw op s \<and> smooth hw op s) (sdio_step hw) ops (sdio_init n ks)"
  defines "s \<equiv> fold (sdio_step hw) ops (sdio_init n ks)"
  shows "mset (sd_freed s) + mset (concat (map (sg_ids \<circ> snd) (sd_calls s))) = mset [0..<sd_next s] \<and> sd_leaked s = [] \<and> (\<forall>p \<in> set (sd_ports s). po_sg p = [])"
proof -
  have inv: "sdio_inv hw s" "handed_on hw 0 0 s" "sd_leaked s = []"
    using sdio_smooth.run_invar [OF _ assms(3)] init_ok assms(2) by (simp_all add: s_def)
  then have lists: "\<forall>p \<in> set (sd_ports s). po_sg p = []" by (auto simp: handed_on_def in_set_conv_nth view_ok_def port_view_def)
  then have c: "concat (map (sg_ids \<circ> po_sg) (sd_ports s)) = []" by simp
  have "held s = mset (sd_freed s) + mset (concat (map (sg_ids \<circ> snd) (sd_calls s)))"
    by (simp only: held_def c inv(3) mset.simps(1) add_0_right)
  moreover have "held s = mset [0..<sd_next s]" using inv(1) assms(1) by (simp add: sdio_inv_def)
  ultimately show ?thesis using inv(3) lists by metis
qed

theorem sdio_nothing_lost_witness: "mset (concat (map (sg_ids \<circ> snd) (sd_calls demo_state))) = {#0#}"
  using sdio_nothing_lost [OF demo_hw_simps(1) demo_size demo_run(2), folded demo_state_def] by (simp add: demo_end upt_rec)

section \<open>A port delivers what it received\<close>

definition ring_view :: "sdio_port \<Rightarrow> u8 list option \<times> nat \<times> nat" where
  "ring_view p = (po_buf p, po_rp p, po_wp p)"

lemma queue_view: "ring_view q = ring_view p \<Longrightarrow> queue q = queue p"
  by (auto simp: ring_view_def queue_def split: option.split)

definition rings :: "sdio_data \<Rightarrow> (u8 list option \<times> nat \<times> nat) list" where
  "rings s = map ring_view (sd_ports s)"

lemma rings_queue: "rings t = rings s \<Longrightarrow> k < length (sd_ports s) \<Longrightarrow> queue (sd_ports t ! k) = queue (sd_ports s ! k)"
  unfolding rings_def by (metis queue_view map_eq_imp_length_eq nth_map)

lemma rings_fields [simp]:
  "rings (t\<lparr>sd_cp_state := a\<rparr>) = rings t" "rings (t\<lparr>sd_service := b\<rparr>) = rings t" "rings (t\<lparr>sd_device_active := c\<rparr>) = rings t"
  "rings (t\<lparr>sd_sleep_mode := d\<rparr>) = rings t" "rings (t\<lparr>sd_version := e\<rparr>) = rings t" "rings (t\<lparr>sd_assert_ctx := e\<rparr>) = rings t"
  "rings (t\<lparr>sd_assert_print := g\<rparr>) = rings t" "rings (t\<lparr>sd_rx_packer_cnt := g\<rparr>) = rings t" "rings (t\<lparr>sd_fault := c\<rparr>) = rings t"
  "rings (t\<lparr>sd_leaked := l\<rparr>) = rings t" "rings (t\<lparr>sd_freed := l\<rparr>) = rings t" "rings (note_up ns t) = rings t" "rings (frag_free hw f t) = rings t"
  by (simp_all add: rings_def note_up_def frag_free_def)

lemma rings_upd: "ring_view (f (sd_ports s ! k)) = ring_view (sd_ports s ! k) \<Longrightarrow> rings (upd_port k f s) = rings s"
  by (cases "k < length (sd_ports s)") (simp_all add: rings_def upd_port_def map_update list_update_beyond list_update_same_conv)

lemma loop_command_rings [simp]: "rings (loop_command hw len bs s) = rings s"
proof -
  have 1: "rings (fold (\<lambda>k. upd_port k (port_asserted q k)) ks t) = rings t" for q ks t
    by (induction ks arbitrary: t) (simp_all add: rings_upd port_asserted_def ring_view_def)
  have 2: "rings (upd_port k (\<lambda>p. if po_state p = PORT_STATE_ASST then p\<lparr>po_state := PORT_STATE_OPEN\<rparr> else p) t) = rings t" for k t
    by (simp add: rings_upd ring_view_def)
  show ?thesis by (simp add: loop_command_def loop_ready_def loop_assert_def loop_dumpdone_def loop_version_def assert_ports_def Let_def 1 2)
qed

text \<open>The bytes that a packet adds to the buffer of port \<open>k\<close>: what is behind its link header, if it is in sequence and there is room.\<close>

definition stored :: "sdio_hw \<Rightarrow> nat \<Rightarrow> packet \<Rightarrow> sdio_data \<Rightarrow> u8 list" where
  "stored hw k f s =
     (let h = packet_head hw f; p = sd_ports s ! k; dat = fst (strip_link (ph_len h) (pk_bytes f) p) in
      if valid_header hw h \<and> ph_channel h = k \<and> k \<noteq> loop_port (sh_ver hw) \<and> po_state p \<noteq> PORT_STATE_IDLE \<and> (po_submit p \<longrightarrow> po_sg_rx p) \<and>
         (po_sg_rx p \<longrightarrow> sh_ver hw = SKW_SDIO_V10 \<and> \<not> po_rx_data p) \<and>
         \<not> lost_packet hw k (ph_len h) (ucast (word_le (drop 12 (pk_bytes f)))) p \<and> length dat \<le> po_room p
      then dat else [])"

lemma port_data_queue:
  assumes ok: "port_ok (sd_ports s ! k)" and l: "po_length (sd_ports s ! k) \<noteq> 0"
  shows "rings (port_data hw k dat (po_room (sd_ports s ! k)) s) =
     (if (po_submit (sd_ports s ! k) \<longrightarrow> po_sg_rx (sd_ports s ! k)) \<and> length dat \<le> po_room (sd_ports s ! k) \<and> po_state (sd_ports s ! k) \<noteq> PORT_STATE_IDLE \<and> dat \<noteq> []
      then (rings s)[k := ring_view (ring_write (the (po_buf (sd_ports s ! k))) dat (sd_ports s ! k))] else rings s)"
proof -
  obtain buf where b: "po_buf (sd_ports s ! k) = Some buf" using ok l by (auto simp: port_ok_def ring_ok_def)
  have "ring_view (fst (flow_stop k free m p)\<lparr>po_rx_done := True\<rparr>) = ring_view p" for free m p by (simp add: flow_stop_def ring_view_def)
  then have "rings (note_up ns (upd_port k (\<lambda>_. fst (flow_stop k free m p)\<lparr>po_rx_done := True\<rparr>) s)) = (rings s)[k := ring_view p]" for ns free m p
    by (simp add: rings_def upd_port_def note_up_def map_update)
  then show ?thesis using b by (auto simp: port_data_def Let_def port_store_def split_def)
qed

lemma ring_write_nil: "ring_ok p \<Longrightarrow> po_buf p = Some buf \<Longrightarrow> queue (ring_write buf [] p) = queue p"
  using ring_write_queue(2) [of p buf "[]"] by simp

lemma port_data_other: "j \<noteq> k \<Longrightarrow> sd_ports (port_data hw j dat free s) ! k = sd_ports s ! k"
  by (auto simp: port_data_def Let_def upd_port_def note_up_def split_def split: option.split)

lemma port_data_stores:
  assumes ok: "port_ok (sd_ports s ! k)" and k: "k < length (sd_ports s)" and l: "po_length (sd_ports s ! k) \<noteq> 0"
  shows "queue (sd_ports (port_data hw k dat (po_room (sd_ports s ! k)) s) ! k) = queue (sd_ports s ! k) @
     (if (po_submit (sd_ports s ! k) \<longrightarrow> po_sg_rx (sd_ports s ! k)) \<and> length dat \<le> po_room (sd_ports s ! k) \<and> po_state (sd_ports s ! k) \<noteq> PORT_STATE_IDLE
      then dat else [])"
proof -
  let ?p = "sd_ports s ! k" and ?t = "port_data hw k dat (po_room (sd_ports s ! k)) s"
  obtain buf where b: "po_buf ?p = Some buf" "ring_ok ?p" using ok l by (auto simp: port_ok_def ring_ok_def)
  have len: "length (rings ?t) = length (sd_ports s)" using port_data_queue [OF ok l] by (simp add: rings_def split: if_splits)
  then have v: "ring_view (sd_ports ?t ! k) = rings ?t ! k" using k by (simp add: rings_def)
  have "rings s ! k = ring_view ?p" using k by (simp add: rings_def)
  then have "ring_view (sd_ports ?t ! k) = (if (po_submit ?p \<longrightarrow> po_sg_rx ?p) \<and> length dat \<le> po_room ?p \<and> po_state ?p \<noteq> PORT_STATE_IDLE \<and> dat \<noteq> []
      then ring_view (ring_write buf dat ?p) else ring_view ?p)"
    using port_data_queue [OF ok l, of hw dat] k b len by (auto simp: v rings_def)
  then have "queue (sd_ports ?t ! k) = (if (po_submit ?p \<longrightarrow> po_sg_rx ?p) \<and> length dat \<le> po_room ?p \<and> po_state ?p \<noteq> PORT_STATE_IDLE \<and> dat \<noteq> []
      then queue (ring_write buf dat ?p) else queue ?p)" by (auto dest: queue_view split: if_splits)
  then show ?thesis using ring_write_queue(2) [OF b(2,1), of dat] by (cases "dat = []") auto
qed

lemma strip_link_fields:
  assumes "(dat, q) = strip_link len bs (resync hw len seq p)"
  shows "ring_view q = ring_view p" "po_length q = po_length p" "po_submit q = po_submit p" "po_sg_rx q = po_sg_rx p" "po_state q = po_state p"
    "dat = fst (strip_link len bs p)"
  using assms by (auto simp: strip_link_def resync_def ring_view_def split: if_splits)

lemma port_packet_stores:
  assumes ok: "port_ok (sd_ports s ! k)" and k: "k < length (sd_ports s)"
  defines "p \<equiv> sd_ports s ! k"
  shows "queue (sd_ports (port_packet hw k len bs s) ! k) = queue p @
     (if (po_submit p \<longrightarrow> po_sg_rx p) \<and> \<not> lost_packet hw k len (ucast (word_le (drop 12 bs))) p \<and>
         length (fst (strip_link len bs p)) \<le> po_room p \<and> po_state p \<noteq> PORT_STATE_IDLE then fst (strip_link len bs p) else [])"
proof (cases "po_length p = 0 \<or> lost_packet hw k len (ucast (word_le (drop 12 bs))) p")
  case True
  have "po_length p = 0 \<Longrightarrow> po_room p = 0" by (simp add: po_room_def)
  then show ?thesis using True by (auto simp: port_packet_def Let_def p_def)
next
  case False
  let ?seq = "ucast (word_le (drop 12 bs)) :: u16"
  obtain dat q where q: "(dat, q) = strip_link len bs (resync hw len ?seq p)" by (metis surj_pair)
  note f = strip_link_fields [OF q]
  define u where "u = assert_info hw (drop (if 12 < len then 16 else 4) bs) dat (po_room p) (upd_port k (\<lambda>_. q) s)"
  have e: "port_packet hw k len bs s = port_data hw k dat (po_room p) u"
    using False q [symmetric] by (simp add: port_packet_def Let_def p_def u_def)
  have u: "sd_ports u ! k = q" "length (sd_ports u) = length (sd_ports s)" using k by (simp_all add: u_def assert_info_def upd_port_def)
  have room: "po_room p = po_room q" using strip_link_port(3) [OF q] by simp
  have "port_ok q" using strip_link_port(2) [OF q] ok by (simp add: p_def)
  from port_data_stores [of u k hw dat] this show ?thesis
    using k False f queue_view [OF f(1)] by (auto simp: u e room)
qed

lemma handle_stores:
  assumes ok: "ports_ok s" and k: "k < max_ch_num (sh_ver hw)" and valid: "valid_header hw (packet_head hw f)"
  shows "queue (sd_ports (accept_packet hw f s) ! k) = queue (sd_ports s ! k) @ stored hw k f s"
proof -
  let ?h = "packet_head hw f"
  define j where "j = ph_channel ?h"
  define len where "len = ph_len ?h"
  define s1 where "s1 = upd_port j (\<lambda>p. p\<lparr>po_rx_packet := po_rx_packet p + 1, po_rx_count := po_rx_count p + int len\<rparr>) (s\<lparr>sd_rx_packer_cnt := sd_rx_packer_cnt s + 1\<rparr>)"
  have j: "j < max_ch_num (sh_ver hw)" using valid by (simp add: j_def valid_header_def)
  have len12: "length (sd_ports s) = 12" using ok by (simp add: ports_ok_def)
  have kj: "k < 12" "j < 12" using k j max_ch_le [of "sh_ver hw"] by simp_all
  have s1: "rings s1 = rings s" unfolding s1_def by (subst rings_upd) (simp_all add: ring_view_def)
  let ?p = "sd_ports s ! k"
  have p1: "sd_ports s1 ! j = (sd_ports s ! j)\<lparr>po_rx_packet := po_rx_packet (sd_ports s ! j) + 1, po_rx_count := po_rx_count (sd_ports s ! j) + int len\<rparr>"
    using kj len12 by (simp add: s1_def upd_port_def)
  have q1: "queue (sd_ports s1 ! k) = queue ?p" using rings_queue [OF s1] kj len12 by simp
  have same: "queue (sd_ports t ! k) = queue ?p" if "rings t = rings s" for t using rings_queue [OF that] kj len12 by simp
  have e: "accept_packet hw f s =
      (if j = loop_port (sh_ver hw) then frag_free hw f (loop_command hw len (pk_bytes f) s1)
       else if po_state (sd_ports s1 ! j) = PORT_STATE_IDLE \<and> sh_adma hw then frag_free hw f s1
       else if po_sg_rx (sd_ports s1 ! j) \<and> (sh_ver hw = SKW_SDIO_V10 \<longrightarrow> po_rx_data (sd_ports s1 ! j))
       then if MAX_SG_COUNT \<le> length (po_sg (sd_ports s1 ! j)) then (if sh_adma hw then s1\<lparr>sd_leaked := sd_leaked s1 @ [pk_id f]\<rparr> else s1)
            else upd_port j (\<lambda>p. p\<lparr>po_sg := po_sg p @ [Some f]\<rparr>) s1
       else frag_free hw f (port_packet hw j len (pk_bytes f) s1))"
  proof -
    have nk: "(max_ch_num (sh_ver hw) \<le> j) = False" using j by simp
    show ?thesis by (simp only: accept_packet_def skw_sdio_handle_packet_def Let_def s1_def j_def [symmetric] len_def [symmetric] nk if_False)
  qed
  have sg: "rings (upd_port i (\<lambda>p. p\<lparr>po_sg := po_sg p @ [Some f]\<rparr>) s1) = rings s1" for i by (rule rings_upd) (simp add: ring_view_def)
  have free: "sd_ports (frag_free hw f t) = sd_ports t" for t by (simp add: frag_free_def)
  show ?thesis
  proof (cases "j = k \<and> k \<noteq> loop_port (sh_ver hw) \<and> \<not> (po_state ?p = PORT_STATE_IDLE \<and> sh_adma hw) \<and> \<not> (po_sg_rx ?p \<and> (sh_ver hw = SKW_SDIO_V10 \<longrightarrow> po_rx_data ?p))")
    case True
    then have "accept_packet hw f s = frag_free hw f (port_packet hw k len (pk_bytes f) s1)" using e p1 by auto
    moreover have "port_ok (sd_ports s1 ! k)" using ok kj len12 p1 True by (simp add: ports_ok_def port_ok_def)
    moreover have "lost_packet hw k len w (sd_ports s1 ! k) = lost_packet hw k len w ?p" "fst (strip_link len bs (sd_ports s1 ! k)) = fst (strip_link len bs ?p)" for w bs
      using p1 True by (auto simp: lost_packet_def strip_link_def)
    ultimately show ?thesis using port_packet_stores [of s1 k hw len "pk_bytes f"] True kj len12 valid p1 q1
      by (auto simp: free stored_def Let_def j_def [symmetric] len_def [symmetric] s1_def [symmetric]) (simp_all add: s1_def upd_port_def)
  next
    case False
    have st: "po_state (sd_ports s1 ! j) = po_state (sd_ports s ! j)" "po_sg_rx (sd_ports s1 ! j) = po_sg_rx (sd_ports s ! j)"
      "po_rx_data (sd_ports s1 ! j) = po_rx_data (sd_ports s ! j)" by (simp_all add: p1)
    have "rings (accept_packet hw f s) = rings s \<or> j \<noteq> k \<and> accept_packet hw f s = frag_free hw f (port_packet hw j len (pk_bytes f) s1)"
      using False unfolding e st by (cases "j = k") (auto simp: s1 sg if_distrib [of rings])
    moreover have "queue (sd_ports (port_packet hw j len (pk_bytes f) s1) ! k) = queue ?p" if "j \<noteq> k"
      using that q1 by (simp add: port_packet_def Let_def split_def port_data_other assert_info_def upd_port_def)
    ultimately have "queue (sd_ports (accept_packet hw f s) ! k) = queue ?p" using same by (metis free)
    moreover have "stored hw k f s = []" using False by (auto simp: stored_def Let_def j_def)
    ultimately show ?thesis by simp
  qed
qed

text \<open>Packets and reads, in any order; what port \<open>k\<close> was given and what its readers took.\<close>

datatype port_io = Io_packet packet | Io_recv nat nat

primrec io_step :: "sdio_hw \<Rightarrow> port_io \<Rightarrow> sdio_data \<Rightarrow> sdio_data" where
  "io_step hw (Io_packet f) s = (if valid_header hw (packet_head hw f) then accept_packet hw f s else s)"
| "io_step hw (Io_recv j sz) s = snd (recv_data hw j False sz [] s)"

primrec io_given :: "sdio_hw \<Rightarrow> nat \<Rightarrow> port_io list \<Rightarrow> sdio_data \<Rightarrow> u8 list" where
  "io_given hw k [] s = []"
| "io_given hw k (x # xs) s = (case x of Io_packet f \<Rightarrow> stored hw k f s | Io_recv j sz \<Rightarrow> []) @ io_given hw k xs (io_step hw x s)"

primrec io_taken :: "sdio_hw \<Rightarrow> nat \<Rightarrow> port_io list \<Rightarrow> sdio_data \<Rightarrow> u8 list" where
  "io_taken hw k [] s = []"
| "io_taken hw k (x # xs) s =
     (case x of Io_packet f \<Rightarrow> []
      | Io_recv j sz \<Rightarrow> if j = k then (case fst (recv_data hw j False sz [] s) of None \<Rightarrow> [] | Some (r, bs) \<Rightarrow> bs) else []) @
     io_taken hw k xs (io_step hw x s)"

lemma read_copy_takes:
  assumes "ports_ok s" "k < 12" "queue (sd_ports s ! k) \<noteq> []"
  shows "fst (read_copy k sz s) @ queue (sd_ports (snd (read_copy k sz s)) ! k) = queue (sd_ports s ! k)"
    "j \<noteq> k \<Longrightarrow> sd_ports (snd (read_copy k sz s)) ! j = sd_ports s ! j"
proof -
  let ?p = "sd_ports s ! k"
  have len: "length (sd_ports s) = 12" using assms(1) by (simp add: ports_ok_def)
  obtain buf where b: "po_buf ?p = Some buf" using assms(3) by (cases "po_buf ?p") (auto simp: queue_def)
  then have "ring_ok ?p" using assms(1,2) len by (auto simp: ports_ok_def port_ok_def)
  note r = ring_read_queue [OF this b, of sz]
  have "queue (fst (flow_go k q)) = queue q" for q by (rule queue_view) (simp add: flow_go_def ring_view_def)
  then show "fst (read_copy k sz s) @ queue (sd_ports (snd (read_copy k sz s)) ! k) = queue ?p"
    using r b assms(2) len by (simp add: read_copy_def split_def Let_def upd_port_def note_up_def)
  show "j \<noteq> k \<Longrightarrow> sd_ports (snd (read_copy k sz s)) ! j = sd_ports s ! j"
    using b by (simp add: read_copy_def split_def Let_def upd_port_def note_up_def)
qed

lemma recv_takes:
  fixes hw :: sdio_hw and j sz :: nat
  assumes ok: "ports_ok s"
  defines "r \<equiv> recv_data hw j False sz [] s"
  shows "j = k \<Longrightarrow> k < 12 \<Longrightarrow> (case fst r of None \<Rightarrow> [] | Some (e, bs) \<Rightarrow> bs) @ queue (sd_ports (snd r) ! k) = queue (sd_ports s ! k)"
    "j \<noteq> k \<Longrightarrow> sd_ports (snd r) ! k = sd_ports s ! k"
proof -
  have len: "length (sd_ports s) = 12" using ok by (simp add: ports_ok_def)
  define g where "g = recv_guard hw j sz s"
  have ra: "rings t = rings s" "j \<noteq> k \<Longrightarrow> sd_ports t ! k = sd_ports s ! k" if "read_assert hw j s = Some (e, t)" for e t k
    using that rings_upd [of "\<lambda>p. p\<lparr>po_state := PORT_STATE_OPEN\<rparr>" s j]
    by (auto simp: read_assert_def ring_view_def upd_port_def split: if_splits)
  have gs: "rings (snd g) = rings s \<and> (j \<noteq> k \<longrightarrow> sd_ports (snd g) ! k = sd_ports s ! k)" for k
  proof (cases "read_assert hw j s")
    case None
    then show ?thesis by (simp add: g_def recv_guard_def rings_upd ring_view_def) (simp add: upd_port_def)
  next
    case (Some x)
    then have "read_assert hw j s = Some (fst x, snd x)" by simp
    note x = ra [OF this]
    show ?thesis using x(2) [of k] Some by (simp add: g_def recv_guard_def rings_upd ring_view_def x(1) split_def) (simp add: upd_port_def)
  qed
  then have g: "queue (sd_ports (snd g) ! k) = queue (sd_ports s ! k)" if "k < 12" for k using rings_queue [of "snd g" s k] that len by simp
  have g2: "sd_ports (snd g) ! k = sd_ports s ! k" if "j \<noteq> k" for k using gs that by blast
  have gNone: "snd g = s" if "fst g = None" using that by (auto simp: g_def recv_guard_def split: option.splits if_splits)
  define u where "u = upd_port j (\<lambda>p. p\<lparr>po_rx_done := False\<rparr>) s"
  have okq: "quiet s u" unfolding u_def by (rule quiet_upd) (simp_all add: port_ok_def)
  then have u: "ports_ok u" using ok by (simp add: quiet_def)
  have uk: "queue (sd_ports u ! k) = queue (sd_ports s ! k)" if "k < 12" for k
    using rings_queue [OF rings_upd, of "\<lambda>p. p\<lparr>po_rx_done := False\<rparr>" s j k] that len by (simp add: u_def ring_view_def)
  have u2: "j \<noteq> k \<Longrightarrow> sd_ports u ! k = sd_ports s ! k" by (simp add: u_def upd_port_def)
  have ne: "queue (sd_ports u ! k) \<noteq> []" if "po_wp (sd_ports u ! k) \<noteq> po_rp (sd_ports u ! k)" "k < 12" for k
  proof -
    have "port_ok (sd_ports u ! k)" using u that(2) by (simp add: ports_ok_def)
    then show ?thesis using that(1) queue_empty by (auto simp: port_ok_def)
  qed
  have r: "r = (case fst g of Some e \<Rightarrow> (Some (e, []), snd g) | None \<Rightarrow> read_start hw j sz s)"
    using gNone by (auto simp: r_def recv_data_def g_def split: option.splits prod.splits)
  have rs: "read_start hw j sz s = (if po_wp (sd_ports u ! j) = po_rp (sd_ports u ! j) then (if may_wait hw j u then None else Some (- EIO, []), u)
      else (Some (int (length (fst (read_copy j sz u))), fst (read_copy j sz u)), snd (read_copy j sz u)))"
    by (simp add: read_start_def Let_def u_def split_def)
  have "(case fst r of None \<Rightarrow> [] | Some (e, bs) \<Rightarrow> bs) @ queue (sd_ports (snd r) ! j) = queue (sd_ports s ! j)" if "j < 12"
    using g [OF that] uk [OF that] read_copy_takes(1) [OF u that] ne [OF _ that] by (simp add: r rs split: option.split)
  then show "j = k \<Longrightarrow> k < 12 \<Longrightarrow> (case fst r of None \<Rightarrow> [] | Some (e, bs) \<Rightarrow> bs) @ queue (sd_ports (snd r) ! k) = queue (sd_ports s ! k)"
    by blast
  show "j \<noteq> k \<Longrightarrow> sd_ports (snd r) ! k = sd_ports s ! k"
    using g2 u2 by (auto simp: r rs read_copy_def split_def Let_def upd_port_def note_up_def split: option.split)
qed

lemma io_queue:
  assumes "ports_ok s" "k < max_ch_num (sh_ver hw)"
  shows "io_taken hw k xs s @ queue (sd_ports (fold (io_step hw) xs s) ! k) = queue (sd_ports s ! k) @ io_given hw k xs s"
  using assms(1)
proof (induction xs arbitrary: s)
  case (Cons x xs)
  have k12: "k < 12" using assms(2) max_ch_le [of "sh_ver hw"] by simp
  show ?case
  proof (cases x)
    case (Io_packet f)
    show ?thesis
    proof (cases "valid_header hw (packet_head hw f)")
      case True
      then have "ports_ok (accept_packet hw f s)" using accept_packet_one [OF Cons.prems] by (simp add: one_more_def)
      from Cons.IH [OF this] show ?thesis using handle_stores [OF Cons.prems assms(2) True] True Io_packet by simp
    next
      case False
      then show ?thesis using Cons.IH [OF Cons.prems] Io_packet by (simp add: stored_def Let_def)
    qed
  next
    case (Io_recv j sz)
    have "ports_ok (io_step hw x s)" using recv_data_quiet [of s hw j False sz] Cons.prems Io_recv by (simp add: quiet_def)
    note IH = Cons.IH [OF this]
    show ?thesis using IH recv_takes [OF Cons.prems, of j k hw sz] k12 Io_recv by (cases "j = k") (auto split: option.split)
  qed
qed simp

text \<open>
  C12. A port is a queue of bytes: from any state that a run of the driver reaches, for any sequence of packets on all ports and of reads, what the reads of
  a port returned, followed by what its buffer still holds, is what the buffer held before followed by what the packets of the port
  carried behind their link headers, in the order of arrival. (A packet out of sequence, or one for which there is no room, carries nothing.)
\<close>

theorem port_is_byte_queue:
  assumes "4 \<le> n" "guarded_run (sdio_guard hw) (sdio_step hw) ops (sdio_init n ks)" "k < max_ch_num (sh_ver hw)"
  defines "s \<equiv> fold (sdio_step hw) ops (sdio_init n ks)"
  shows "io_taken hw k xs s @ queue (sd_ports (fold (io_step hw) xs s) ! k) = queue (sd_ports s ! k) @ io_given hw k xs s"
proof -
  have "ports_ok s" using sdio.run_invar [OF init_ok(1) assms(2)] assms(1) by (simp add: s_def sdio_inv_def)
  then show ?thesis using io_queue assms(3) by simp
qed

definition demo_io :: "port_io list" where
  "demo_io = [Io_packet \<lparr>pk_id = 2, pk_bytes = demo_bytes 0 2 [5, 6]\<rparr>, Io_recv 0 2]"

lemma demo_given: "queue (sd_ports demo_state ! 0) = [9]" "io_given demo_hw 0 demo_io demo_state = [5, 6]"
  by code_simp+

theorem port_is_byte_queue_witness:
  "io_taken demo_hw 0 demo_io demo_state @ queue (sd_ports (fold (io_step demo_hw) demo_io demo_state) ! 0) = [9, 5, 6]"
  using port_is_byte_queue [OF demo_size demo_run(1), of 0 demo_io, folded demo_state_def] by (simp add: demo_hw_simps max_ch_num_def demo_given)

section \<open>The size of a transfer\<close>

text \<open>A scatter-gather transfer is a whole number of blocks, and the two words of the chip are inside the last entry, which fits the buffer of 2048 bytes.\<close>

lemma nsize_offset_ok:
  "8 \<le> nsize_offset v n \<and> nsize_offset v n \<le> 2048 \<and> skw_sdio_blk_size v dvd max_pac_size v * n + nsize_offset v n"
proof -
  have "max_pac_size v = skw_sdio_blk_size v * (case v of SKW_SDIO_V10 \<Rightarrow> 7 | SKW_SDIO_V20 \<Rightarrow> 3)"
    by (cases v) (simp_all add: max_pac_size_def skw_sdio_blk_size_def)
  then have "max_pac_size v * n mod skw_sdio_blk_size v = 0" "skw_sdio_blk_size v dvd max_pac_size v * n" by (simp_all add: mult.assoc)
  then show ?thesis by (cases v) (simp_all add: nsize_offset_def skw_sdio_blk_size_def Let_def)
qed

section \<open>Behaviour worth knowing\<close>

text \<open>
  The older chip's driver drops a packet out of sequence without moving its expected number: once a packet is lost, the port drops everything until the number
  comes round again.
\<close>

lemma deaf_port:
  assumes "sh_ver hw = SKW_SDIO_V10" "k \<noteq> 1" "\<forall>(len, bs) \<in> set ps. 12 < len \<and> ucast (word_le (drop 12 bs)) \<noteq> po_next_seqno (sd_ports s ! k)"
    "po_length (sd_ports s ! k) \<noteq> 0"
  shows "fold (\<lambda>(len, bs). port_packet hw k len bs) ps s = s"
  using assms(3) by (induction ps) (use assms(1,2,4) in \<open>auto simp: port_packet_def lost_packet_def Let_def\<close>)

text \<open>
  A scatter-gather transfer that fails loses its fragments and leaves the count of packets that were announced before, so that the thread transfers again at
  once, as long as the transfers fail.
\<close>

lemma failed_transfer_leaks:
  assumes "sh_adma hw" "xf_ret x \<noteq> 0" "\<not> xf_power_off x"
  shows "\<exists>l. sd_leaked (adma_receive hw x s) = sd_leaked s @ l \<and> length l = skw_sdio_prepare_adma_buffer x (min (sd_remain_packet s) MAX_PAC_COUNT)"
  using assms by (simp add: adma_receive_def Let_def)

lemma dispatch_nsize: "sd_nsize (skw_sdio_dispatch_packets hw s) = sd_nsize s"
proof -
  have "sd_nsize (fold dispatch_port ks s) = sd_nsize s" for ks by (induction ks arbitrary: s) (simp_all add: dispatch_same)
  then show ?thesis by (simp add: skw_sdio_dispatch_packets_def)
qed

lemma failing_bus_spins:
  "sh_adma hw \<Longrightarrow> \<forall>x \<in> set xs. xf_ret x \<noteq> 0 \<and> \<not> xf_power_off x \<Longrightarrow> sd_nsize s \<noteq> 0 \<Longrightarrow> rx_again hw xs s = None"
proof (induction xs arbitrary: s)
  case (Cons x xs)
  have "sd_nsize (rx_round hw x s) = sd_nsize s"
    using Cons.prems by (simp add: rx_round_def Let_def skw_sdio_adma_set_packet_num_def dispatch_nsize adma_receive_def)
  then show ?case using Cons by (simp add: Let_def)
qed simp

text \<open>In the plain mode a packet for a port that was never bound makes the driver divide by the size of its buffer, which is 0.\<close>

lemma unbound_port_faults:
  assumes "\<not> sh_adma hw" "k < max_ch_num (sh_ver hw)" "k < length (sd_ports s)" "k \<noteq> loop_port (sh_ver hw)" "\<not> po_sg_rx (sd_ports s ! k)" "po_length (sd_ports s ! k) = 0"
  shows "sd_fault (skw_sdio_handle_packet hw f len k s)"
  using assms by (simp add: skw_sdio_handle_packet_def Let_def upd_port_def frag_free_def port_packet_def)

text \<open>A reader with a time limit that a signal interrupts waits again instead of returning.\<close>

lemma signal_ignored:
  assumes "r < 0" "po_state (sd_ports s ! k) = PORT_STATE_OPEN" "po_used (sd_ports s ! k) = 0"
  shows "read_woken hw k True sz r s = (None, s)"
  using assms by (simp add: read_woken_def read_assert_def port_state_defs)

text \<open>
  An acknowledgement that arrives after the time-out makes the count of outstanding packets negative; the next packet is then taken to be sent
  although it is never acknowledged.
\<close>

lemma lost_ack_unseen:
  assumes "sd_cp_state s = 0" "k < length (sd_ports s)" "po_tx_flow (sd_ports s ! k) = - 1" "po_state (sd_ports s ! k) = PORT_STATE_OPEN"
    "ty_wake t = (\<lambda>s. s)" "ty_news t = (\<lambda>s. s)" "ty_ret t = 0" "ty_wait t = 0"
  shows "fst (send_packet k sz ret (t # ts) s) = int sz"
  using assms by (simp add: Let_def upd_port_def port_state_defs)

text \<open>
  A callback that is taken away and given back finds in its list the entries that were there before, zeroed: the count is not reset. Here the port
  was closed while it had a callback.
\<close>

definition demo_stale :: "sdio_op list" where
  "demo_stale = [SdRegister 5 True True True, SdClose 5, SdRx (demo_xfer (demo_bytes 5 1 [1, 2])), SdRegister 5 False False False, SdRegister 5 True True True,
     SdRx (demo_xfer (demo_bytes 8 1 []))]"

lemma stale_entries: "sd_calls (fold (sdio_step demo_hw) demo_stale (sdio_init 16 {})) = [(5, [None])]"
  by code_simp

text \<open>The text of an assertion is appended to the version without regard to its size, which is 128 bytes.\<close>

lemma version_overruns: "128 \<le> length (sd_version s) + length txt + 2 \<Longrightarrow> sd_fault (loop_assert hw txt s)"
  by (simp add: loop_assert_def Let_def note_up_def str_bytes_def)

end
