(* ===== verification/Skw_Edma.thy ===== *)
theory Skw_Edma
  imports Skw_Prelude "HOL-Library.Multiset"
begin

text \<open>
  The DMA rings of the PCIe bus (\<^verbatim>\<open>skw_edma.c\<close>): a ring of nodes that the driver fills for the chip, a ring of descriptors that the
  chip completes and the driver takes off, and the buffers that the driver lends to the chip for received frames. The chip itself is part of the model: it
  works on the descriptors it was given, in order.
\<close>

section \<open>A ring for the chip to read\<close>

text \<open>
  \<open>struct skw_edma_chn\<close> with its nodes: the bytes and the fill level of each, the length in its descriptor, the current node, the nodes filled since the
  last submission. \<open>et_bug\<close>: a node was filled past its size, or the \<open>BUG_ON\<close> was met. \<open>et_hw\<close> is the node that the chip reads next, of \<open>et_pending\<close> that it was given; \<open>et_wire\<close> is what it read.
\<close>

record edma_tx =
  et_buf :: "u8 list list"
  et_used :: "nat list"
  et_len :: "nat list"
  et_buffer_len :: nat
  et_cur :: nat
  et_tx_node_count :: nat
  et_nr_node :: int
  et_hw :: nat
  et_pending :: nat
  et_wire :: "u8 list list"
  et_bug :: bool

definition edma_store :: "u8 list \<Rightarrow> u8 list \<Rightarrow> nat \<Rightarrow> u8 list" where
  "edma_store buf bs i = take i buf @ bs @ drop (i + length bs) buf"

definition skw_edma_next_node :: "edma_tx \<Rightarrow> edma_tx" where
  "skw_edma_next_node c =
     (let cur = (if Suc (et_cur c) = length (et_buf c) then 0 else Suc (et_cur c)) in
      c\<lparr>et_cur := cur, et_used := (et_used c)[cur := 0], et_tx_node_count := et_tx_node_count c + 1, et_nr_node := et_nr_node c - 1\<rparr>)"

definition skw_edma_set_data :: "u8 list \<Rightarrow> edma_tx \<Rightarrow> edma_tx" where
  "skw_edma_set_data dat c =
     (let i = et_cur c; n = length dat; used = et_used c ! i + n;
          c1 = c\<lparr>et_buf := (et_buf c)[i := edma_store (et_buf c ! i) dat (et_used c ! i)], et_used := (et_used c)[i := used], et_len := (et_len c)[i := used],
                 et_bug := (et_bug c \<or> et_buffer_len c < used \<or> et_buffer_len c < n)\<rparr> in
      if et_buffer_len c < used + n then skw_edma_next_node c1 else c1)"

text \<open>\<open>hw_adma_tx\<close> gives the chip the nodes filled since the last call.\<close>

definition skw_edma_tx :: "edma_tx \<Rightarrow> edma_tx" where
  "skw_edma_tx c =
     (let c1 = (if et_used c ! et_cur c \<noteq> 0 then skw_edma_next_node c else c) in
      c1\<lparr>et_tx_node_count := 0, et_pending := et_pending c1 + et_tx_node_count c1\<rparr>)"

text \<open>The chip reads a node; the interrupt reports nodes that were read.\<close>

definition edma_chip_read :: "edma_tx \<Rightarrow> edma_tx" where
  "edma_chip_read c =
     c\<lparr>et_wire := et_wire c @ [take (et_len c ! et_hw c) (et_buf c ! et_hw c)], et_hw := Suc (et_hw c) mod length (et_buf c), et_pending := et_pending c - 1\<rparr>"

definition skw_edma_tx_node_isr :: "nat \<Rightarrow> edma_tx \<Rightarrow> edma_tx" where
  "skw_edma_tx_node_isr cnt c = c\<lparr>et_nr_node := et_nr_node c + int cnt\<rparr>"

definition skw_edma_chn_init_tx :: "nat \<Rightarrow> nat \<Rightarrow> edma_tx" where
  "skw_edma_chn_init_tx max_node node_buff_len =
     \<lparr>et_buf = replicate max_node (replicate node_buff_len 0x5a), et_used = replicate max_node 0, et_len = replicate max_node 0x6a6a, et_buffer_len = node_buff_len,
      et_cur = 0, et_tx_node_count = 0, et_nr_node = int max_node, et_hw = 0, et_pending = 0, et_wire = [], et_bug = False\<rparr>"

datatype edma_tx_op = Et_set "u8 list" | Et_tx | Et_read | Et_isr nat

primrec edma_tx_step :: "edma_tx_op \<Rightarrow> edma_tx \<Rightarrow> edma_tx" where
  "edma_tx_step (Et_set dat) c = skw_edma_set_data dat c"
| "edma_tx_step Et_tx c = skw_edma_tx c"
| "edma_tx_step Et_read c = edma_chip_read c"
| "edma_tx_step (Et_isr n) c = skw_edma_tx_node_isr n c"

text \<open>
  All elements of a channel have the same size \<open>l\<close> (a command channel: one per submission). The driver does not look whether a node is free: that
  one is, is left to the credits that the firmware grants.
\<close>

primrec edma_tx_guard :: "nat \<Rightarrow> edma_tx_op \<Rightarrow> edma_tx \<Rightarrow> bool" where
  "edma_tx_guard l (Et_set dat) c \<longleftrightarrow> length dat = l \<and> et_pending c + et_tx_node_count c < length (et_buf c)"
| "edma_tx_guard l Et_tx c \<longleftrightarrow> True"
| "edma_tx_guard l Et_read c \<longleftrightarrow> 0 < et_pending c"
| "edma_tx_guard l (Et_isr n) c \<longleftrightarrow> True"

section \<open>A ring for the chip to write\<close>

record edma_hdr =
  eh_pcie_addr :: nat
  eh_data_len :: nat
  eh_done :: bool

text \<open>
  \<open>er_cur\<close> is the index of the current node, \<open>er_buffer\<close> and \<open>er_mapped\<close> are the buffers of the nodes and whether they are mapped for DMA. \<open>er_locked\<close>: the
  lock of the channel is left locked. The chip completes descriptor \<open>er_hw\<close> next and has \<open>er_credit\<close> of them. Logs: what the chip completed and what
  was handed on.
\<close>

record edma_rx =
  er_hdr :: "edma_hdr list"
  er_swtail :: nat
  er_cur :: nat
  er_buffer :: "nat list"
  er_mapped :: "bool list"
  er_rx_node_count :: nat
  er_locked :: bool
  er_hw :: nat
  er_credit :: nat
  er_completed :: "(nat \<times> nat) list"
  er_handled :: "(nat \<times> nat) list"

definition skw_edma_hdr_tail :: "edma_rx \<Rightarrow> nat" where
  "skw_edma_hdr_tail c = (er_swtail c + 1) mod length (er_hdr c)"

text \<open>The chip completes its next descriptor with \<open>n\<close> bytes.\<close>

definition edma_chip_write :: "nat \<Rightarrow> edma_rx \<Rightarrow> edma_rx" where
  "edma_chip_write n c =
     (let h = er_hdr c ! er_hw c in
      c\<lparr>er_hdr := (er_hdr c)[er_hw c := h\<lparr>eh_data_len := n, eh_done := True\<rparr>], er_hw := Suc (er_hw c) mod length (er_hdr c), er_credit := er_credit c - 1,
        er_completed := er_completed c @ [(eh_pcie_addr h, n)]\<rparr>)"

definition edma_resubmit :: "edma_rx \<Rightarrow> edma_rx" where
  "edma_resubmit c =
     (if er_rx_node_count c = length (er_hdr c) then c\<lparr>er_rx_node_count := 0, er_credit := er_credit c + length (er_hdr c)\<rparr> else c)"

definition edma_advance :: "edma_rx \<Rightarrow> edma_rx" where
  "edma_advance c = c\<lparr>er_mapped := (er_mapped c)[er_cur c := True], er_cur := (if Suc (er_cur c) = length (er_buffer c) then 0 else Suc (er_cur c))\<rparr>"

text \<open>
  One descriptor: it is handed on, its buffer is replaced when the channel gives its buffers away (\<open>fresh\<close>, which may be out of memory), and when
  all descriptors have been taken off they are given back to the chip. \<open>None\<close> is the return in the middle.
\<close>

definition edma_take :: "nat option option \<Rightarrow> nat \<Rightarrow> edma_rx \<Rightarrow> bool \<times> edma_rx" where
  "edma_take fresh i c =
     (let h = er_hdr c ! i;
          c1 = c\<lparr>er_swtail := skw_edma_hdr_tail c, er_mapped := (er_mapped c)[er_cur c := False], er_handled := er_handled c @ [(eh_pcie_addr h, eh_data_len h)],
                 er_rx_node_count := er_rx_node_count c + 1\<rparr> in
      case fresh of
        Some None \<Rightarrow> (False, c1\<lparr>er_locked := True\<rparr>)
      | Some (Some b) \<Rightarrow>
          (let c2 = edma_resubmit (c1\<lparr>er_mapped := (er_mapped c1)[er_cur c := True], er_hdr := (er_hdr c1)[i := h\<lparr>eh_pcie_addr := b\<rparr>], er_buffer := (er_buffer c1)[er_cur c := b]\<rparr>) in
           (True, edma_advance (c2\<lparr>er_hdr := (er_hdr c2)[i := (er_hdr c2 ! i)\<lparr>eh_done := False\<rparr>]\<rparr>)))
      | None \<Rightarrow>
          (let c2 = edma_resubmit c1 in (True, edma_advance (c2\<lparr>er_hdr := (er_hdr c2)[i := (er_hdr c2 ! i)\<lparr>eh_done := False\<rparr>]\<rparr>))))"

lemma edma_take_length [simp]: "length (er_hdr (snd (edma_take fresh i c))) = length (er_hdr c)"
  by (simp add: edma_take_def Let_def edma_resubmit_def edma_advance_def split: option.split)

text \<open>
  The loop runs over the descriptors without wrapping round; behind the last one it finds the pattern the table was filled with, in which the done bit is clear.
  \<open>allocs\<close> gives the fresh buffer for each round, or \<open>None\<close> for channels that keep theirs.
\<close>

function edma_poll_loop :: "(nat \<Rightarrow> nat option option) \<Rightarrow> nat \<Rightarrow> nat \<Rightarrow> nat \<Rightarrow> edma_rx \<Rightarrow> nat \<times> nat \<times> edma_rx" where
  "edma_poll_loop allocs i quota cnt c =
     (if i < length (er_hdr c) \<and> eh_done (er_hdr c ! i) \<and> 0 < quota
      then
        (let cnt1 = cnt + eh_data_len (er_hdr c ! i) div 8; quota1 = (if cnt1 \<le> quota then quota - cnt1 else 0); (ok, c1) = edma_take (allocs i) i c in
         if ok then edma_poll_loop allocs (Suc i) quota1 cnt1 c1 else (cnt1, quota1, c1))
      else (cnt, quota, c))"
  by pat_completeness auto

termination
  by (relation "measure (\<lambda>(allocs, i, quota, cnt, c). length (er_hdr c) - i)") (auto dest: arg_cong [where f = snd] simp: Let_def)

declare edma_poll_loop.simps [simp del]

definition skw_edma_napi_txrx_compl_task :: "(nat \<Rightarrow> nat option option) \<Rightarrow> nat \<Rightarrow> edma_rx \<Rightarrow> nat \<times> nat \<times> edma_rx" where
  "skw_edma_napi_txrx_compl_task allocs quota c = edma_poll_loop allocs (er_swtail c) quota 0 c"

definition skw_edma_chn_init_rx :: "nat list \<Rightarrow> edma_rx" where
  "skw_edma_chn_init_rx bufs =
     \<lparr>er_hdr = map (\<lambda>b. \<lparr>eh_pcie_addr = b, eh_data_len = 0x6a6a, eh_done = False\<rparr>) bufs, er_swtail = 0, er_cur = 0, er_buffer = bufs,
      er_mapped = replicate (length bufs) True, er_rx_node_count = 0, er_locked = False, er_hw = 0, er_credit = length bufs, er_completed = [], er_handled = []\<rparr>"

text \<open>The first interface comes up: the descriptors that the driver keeps are given back before the others.\<close>

definition edma_reopen :: "edma_rx \<Rightarrow> edma_rx" where
  "edma_reopen c = c\<lparr>er_rx_node_count := 0, er_credit := er_credit c + er_rx_node_count c\<rparr>"

datatype edma_rx_op = Er_write nat | Er_poll "nat \<Rightarrow> nat option option" nat | Er_reopen

primrec edma_rx_step :: "edma_rx_op \<Rightarrow> edma_rx \<Rightarrow> edma_rx" where
  "edma_rx_step (Er_write n) c = edma_chip_write n c"
| "edma_rx_step (Er_poll allocs quota) c = snd (snd (skw_edma_napi_txrx_compl_task allocs quota c))"
| "edma_rx_step Er_reopen c = edma_reopen c"

primrec edma_rx_guard :: "edma_rx_op \<Rightarrow> edma_rx \<Rightarrow> bool" where
  "edma_rx_guard (Er_write n) c \<longleftrightarrow> 0 < er_credit c"
| "edma_rx_guard (Er_poll allocs quota) c \<longleftrightarrow> \<not> er_locked c \<and> (\<forall>i < length (er_hdr c). allocs i \<noteq> Some None)"
| "edma_rx_guard Er_reopen c \<longleftrightarrow> \<not> er_locked c"

section \<open>Buffers lent to the chip\<close>

definition RX_FREE_BUF_ADDR_CNT :: nat where "RX_FREE_BUF_ADDR_CNT = 32"
definition SKW_EDMA_RX_FREE_CHN_NODE_NUM :: nat where "SKW_EDMA_RX_FREE_CHN_NODE_NUM = 24"

lemmas edma_defs = RX_FREE_BUF_ADDR_CNT_def SKW_EDMA_RX_FREE_CHN_NODE_NUM_def

text \<open>
  The queues of a \<open>struct skw_lmac\<close>, each a list of the addresses of its buffers, and the counters; \<open>lm_up\<close> is what went to the receive path, \<open>lm_lost\<close> what is in
  no queue and never freed. The address of a buffer is the number of its allocation.
\<close>

record edma_lmac =
  lm_avail :: "nat list"
  lm_avail_num :: int
  lm_refill :: int
  lm_rx_dat :: "nat list"
  lm_up :: "nat list"
  lm_freed :: "nat list"
  lm_lost :: "nat list"
  lm_asserts :: nat
  lm_next :: nat

text \<open>\<open>got\<close> is the number of buffers that can be allocated, \<open>ok\<close> whether the bus takes the list.\<close>

definition skw_edma_alloc_skb :: "int \<Rightarrow> nat \<Rightarrow> bool \<Rightarrow> edma_lmac \<Rightarrow> int \<times> edma_lmac" where
  "skw_edma_alloc_skb num got ok s =
     (let n = min got (nat num); s1 = s\<lparr>lm_avail := lm_avail s @ [lm_next s..<lm_next s + n], lm_next := lm_next s + n\<rparr> in
      if n < nat num then (- ENOMEM, s1) else (0, if ok then s1\<lparr>lm_avail_num := lm_avail_num s1 + num\<rparr> else s1))"

definition skw_edma_inc_refill :: "edma_lmac \<Rightarrow> edma_lmac" where
  "skw_edma_inc_refill s = s\<lparr>lm_refill := lm_refill s + 1\<rparr>"

definition skw_edma_dec_refill :: "edma_lmac \<Rightarrow> edma_lmac" where
  "skw_edma_dec_refill s = (if 0 < lm_refill s then s\<lparr>lm_refill := lm_refill s - 1\<rparr> else s)"

definition skw_edma_init_data_chan :: "nat \<Rightarrow> bool \<Rightarrow> edma_lmac \<Rightarrow> edma_lmac" where
  "skw_edma_init_data_chan got ok s =
     skw_edma_inc_refill (snd (skw_edma_alloc_skb (int (RX_FREE_BUF_ADDR_CNT * SKW_EDMA_RX_FREE_CHN_NODE_NUM)) got ok s))"

text \<open>An interface comes up (an access point, or a station that is associated): the first one fills the channels.\<close>

definition edma_ap_start :: "nat \<Rightarrow> bool \<Rightarrow> edma_lmac \<Rightarrow> edma_lmac" where
  "edma_ap_start got ok s = (if lm_refill s = 0 then skw_edma_init_data_chan got ok s else skw_edma_inc_refill s)"

text \<open>The difference is computed in 32 bits without a sign from a count of 16 bits, and passed as an \<open>int\<close>.\<close>

definition skw_edma_refill_skb :: "nat \<Rightarrow> bool \<Rightarrow> edma_lmac \<Rightarrow> edma_lmac" where
  "skw_edma_refill_skb got ok s =
     (let room = of_nat (RX_FREE_BUF_ADDR_CNT * SKW_EDMA_RX_FREE_CHN_NODE_NUM) - ucast (of_int (lm_avail_num s) :: u16) :: u32 in
      if of_nat RX_FREE_BUF_ADDR_CNT \<le> room \<and> 0 < lm_refill s
      then snd (skw_edma_alloc_skb (sint (room AND NOT 31)) got ok s) else s)"

text \<open>
  The addresses that the chip reports, 40 bits of each word of eight bytes (it reports whole words), and for each buffer the length and the flag that the chip wrote into it. \<open>limit\<close> is \<open>SKW_ADMA_BUFF_LEN\<close>.
\<close>

fun edma_addresses :: "u8 list \<Rightarrow> nat list" where
  "edma_addresses [] = []"
| "edma_addresses (b # bs) = unat (le_val (take 5 (b # bs))) # edma_addresses (drop 7 bs)"

definition rx_buffer :: "nat \<Rightarrow> (nat \<Rightarrow> nat \<times> bool) \<Rightarrow> nat \<Rightarrow> edma_lmac \<Rightarrow> edma_lmac" where
  "rx_buffer limit desc a s =
     (if a \<notin> set (lm_avail s) then s\<lparr>lm_asserts := lm_asserts s + 1\<rparr>
      else
        (let (msdu_len, snap) = desc a; s1 = s\<lparr>lm_avail := remove1 a (lm_avail s), lm_avail_num := lm_avail_num s - 1\<rparr> in
         if msdu_len = 0 then s1\<lparr>lm_freed := lm_freed s1 @ [a]\<rparr>
         else if limit < msdu_len + (if snap then 80 else 88) then s1\<lparr>lm_lost := lm_lost s1 @ [a], lm_asserts := lm_asserts s1 + 1\<rparr>
         else s1\<lparr>lm_rx_dat := lm_rx_dat s1 @ [a]\<rparr>))"

definition skw_pci_edma_rx_data :: "nat \<Rightarrow> (nat \<Rightarrow> nat \<times> bool) \<Rightarrow> u8 list \<Rightarrow> edma_lmac \<Rightarrow> edma_lmac" where
  "skw_pci_edma_rx_data limit desc dat s = fold (rx_buffer limit desc) (edma_addresses dat) s"

definition edma_rx_process :: "edma_lmac \<Rightarrow> edma_lmac" where
  "edma_rx_process s = s\<lparr>lm_up := lm_up s @ lm_rx_dat s, lm_rx_dat := []\<rparr>"

definition edma_lmac_init :: edma_lmac where
  "edma_lmac_init = \<lparr>lm_avail = [], lm_avail_num = 0, lm_refill = 0, lm_rx_dat = [], lm_up = [], lm_freed = [], lm_lost = [], lm_asserts = 0, lm_next = 0\<rparr>"

text \<open>The callback of a receive channel: the reported buffers, and new ones for the chip.\<close>

datatype edma_lmac_op = El_start nat bool | El_stop | El_data "nat \<Rightarrow> nat \<times> bool" "u8 list" nat bool | El_poll

primrec edma_lmac_step :: "nat \<Rightarrow> edma_lmac_op \<Rightarrow> edma_lmac \<Rightarrow> edma_lmac" where
  "edma_lmac_step limit (El_start got ok) s = edma_ap_start got ok s"
| "edma_lmac_step limit El_stop s = skw_edma_dec_refill s"
| "edma_lmac_step limit (El_data desc dat got ok) s = skw_edma_refill_skb got ok (skw_pci_edma_rx_data limit desc dat s)"
| "edma_lmac_step limit El_poll s = edma_rx_process s"

text \<open>Memory and the bus do not fail, and the channels are filled only when the chip has no buffers.\<close>

primrec edma_lmac_guard :: "edma_lmac_op \<Rightarrow> edma_lmac \<Rightarrow> bool" where
  "edma_lmac_guard (El_start got ok) s \<longleftrightarrow> ok \<and> 768 \<le> got \<and> (lm_refill s = 0 \<longrightarrow> lm_avail s = [])"
| "edma_lmac_guard El_stop s \<longleftrightarrow> True"
| "edma_lmac_guard (El_data desc dat got ok) s \<longleftrightarrow> ok \<and> 768 \<le> got"
| "edma_lmac_guard El_poll s \<longleftrightarrow> True"

end
