(* ===== verification/Skw_Edma_Props.thy ===== *)
theory Skw_Edma_Props
  imports Skw_Edma
begin

text \<open>
  Correctness of the DMA rings: the chip reads what the driver wrote, in order; the driver takes off each descriptor once, in order; the count of buffers
  that the chip has is right; calibration results are found again.
\<close>

section \<open>What the driver writes is what the chip reads\<close>

definition node_at :: "edma_tx \<Rightarrow> nat \<Rightarrow> nat" where
  "node_at c j = (et_hw c + j) mod length (et_buf c)"

definition node_data :: "edma_tx \<Rightarrow> nat \<Rightarrow> u8 list" where
  "node_data c j = take (et_len c ! node_at c j) (et_buf c ! node_at c j)"

text \<open>The bytes that the chip has not read yet: those of the filled nodes, and those of the current node.\<close>

definition edma_backlog :: "edma_tx \<Rightarrow> u8 list" where
  "edma_backlog c = concat (map (node_data c) [0..<et_pending c + et_tx_node_count c]) @ take (et_used c ! et_cur c) (et_buf c ! et_cur c)"

definition tx_ok :: "nat \<Rightarrow> edma_tx \<Rightarrow> bool" where
  "tx_ok l c \<longleftrightarrow> 0 < length (et_buf c) \<and> length (et_used c) = length (et_buf c) \<and> length (et_len c) = length (et_buf c) \<and>
     (\<forall>b \<in> set (et_buf c). length b = et_buffer_len c) \<and> et_hw c < length (et_buf c) \<and>
     et_cur c = node_at c (et_pending c + et_tx_node_count c) \<and> et_pending c + et_tx_node_count c \<le> length (et_buf c) \<and>
     (et_pending c + et_tx_node_count c = length (et_buf c) \<longrightarrow> et_used c ! et_cur c = 0) \<and>
     et_used c ! et_cur c + l \<le> et_buffer_len c \<and> (et_used c ! et_cur c \<noteq> 0 \<longrightarrow> et_len c ! et_cur c = et_used c ! et_cur c) \<and> \<not> et_bug c"

lemma node_at_less [simp]: "0 < length (et_buf c) \<Longrightarrow> node_at c j < length (et_buf c)"
  by (simp add: node_at_def)

lemma node_at_inj: "j < k \<Longrightarrow> k < j + length (et_buf c) \<Longrightarrow> node_at c j \<noteq> node_at c k"
proof
  assume a: "j < k" "k < j + length (et_buf c)" and "node_at c j = node_at c k"
  then have "(et_hw c + k) mod length (et_buf c) = (et_hw c + j) mod length (et_buf c)" by (simp add: node_at_def)
  then have "length (et_buf c) dvd (et_hw c + k) - (et_hw c + j)" using mod_eq_dvd_iff_nat [of "et_hw c + j" "et_hw c + k"] a(1) by simp
  then show False using dvd_imp_le [of "length (et_buf c)" "(et_hw c + k) - (et_hw c + j)"] a by simp
qed

lemma node_at_Suc: "node_at c (Suc j) = (if Suc (node_at c j) = length (et_buf c) then 0 else Suc (node_at c j))"
  by (simp add: node_at_def mod_Suc)

text \<open>Going to the next node only changes where new data goes.\<close>

lemma next_node_ok:
  assumes ok: "tx_ok m c" and l: "l \<le> et_buffer_len c" and fill: "et_used c ! et_cur c \<noteq> 0"
  shows "tx_ok l (skw_edma_next_node c)" "edma_backlog (skw_edma_next_node c) = edma_backlog c"
    "et_pending (skw_edma_next_node c) = et_pending c" "et_tx_node_count (skw_edma_next_node c) = Suc (et_tx_node_count c)"
proof -
  define p where "p = et_pending c + et_tx_node_count c"
  let ?d = "skw_edma_next_node c"
  have cur: "et_cur c = node_at c p" and n: "0 < length (et_buf c)" and p: "p < length (et_buf c)"
    using ok fill by (auto simp: tx_ok_def p_def)
  have same: "et_buf ?d = et_buf c" "et_len ?d = et_len c" "et_hw ?d = et_hw c" "et_buffer_len ?d = et_buffer_len c" "et_bug ?d = et_bug c"
    and pend: "et_pending ?d = et_pending c" "et_tx_node_count ?d = Suc (et_tx_node_count c)"
    by (simp_all add: skw_edma_next_node_def Let_def)
  have at: "node_at ?d j = node_at c j" for j by (simp add: node_at_def same)
  have dat: "node_data ?d = node_data c" by (rule ext) (simp add: at node_data_def same)
  have cur1: "et_cur ?d = node_at c (Suc p)" by (simp add: skw_edma_next_node_def Let_def node_at_Suc cur)
  have used: "et_used ?d = (et_used c)[node_at c (Suc p) := 0]" by (simp add: skw_edma_next_node_def Let_def node_at_Suc cur)
  then have used0: "et_used ?d ! et_cur ?d = 0" using ok n by (simp add: cur1 tx_ok_def)
  have len: "et_len c ! et_cur c = et_used c ! et_cur c" using ok fill unfolding tx_ok_def by blast
  show "tx_ok l ?d" unfolding tx_ok_def
    using ok p l used0 cur1 at used by (simp add: same pend tx_ok_def p_def)
  have "edma_backlog ?d = concat (map (node_data c) [0..<Suc p])"
    using used0 by (simp add: edma_backlog_def pend dat p_def)
  also have "\<dots> = edma_backlog c" by (simp add: edma_backlog_def flip: p_def) (simp only: node_data_def cur [symmetric] len)
  finally show "edma_backlog ?d = edma_backlog c" .
qed (simp_all add: skw_edma_next_node_def Let_def)

lemma set_data_ok:
  assumes ok: "tx_ok l c" and l: "0 < l" "l \<le> et_buffer_len c" and dat: "length dat = l" and room: "et_pending c + et_tx_node_count c < length (et_buf c)"
  shows "tx_ok l (skw_edma_set_data dat c)" "edma_backlog (skw_edma_set_data dat c) = edma_backlog c @ dat"
proof -
  define p where "p = et_pending c + et_tx_node_count c"
  define i where "i = et_cur c"
  define u where "u = et_used c ! i"
  have i: "i = node_at c p" "i < length (et_buf c)" and n: "0 < length (et_buf c)" and p: "p < length (et_buf c)" and fit: "u + l \<le> et_buffer_len c"
    using ok room by (auto simp: tx_ok_def p_def i_def u_def)
  have bl: "length (et_buf c ! i) = et_buffer_len c" using ok i(2) by (simp add: tx_ok_def)
  define c1 where "c1 = c\<lparr>et_buf := (et_buf c)[i := edma_store (et_buf c ! i) dat u], et_used := (et_used c)[i := u + l], et_len := (et_len c)[i := u + l],
      et_bug := (et_bug c \<or> et_buffer_len c < u + l \<or> et_buffer_len c < l)\<rparr>"
  have st: "length (edma_store (et_buf c ! i) dat u) = et_buffer_len c" "take (u + l) (edma_store (et_buf c ! i) dat u) = take u (et_buf c ! i) @ dat"
    using fit bl dat by (simp_all add: edma_store_def)
  have f: "et_buf c1 = (et_buf c)[i := edma_store (et_buf c ! i) dat u]" "et_used c1 = (et_used c)[i := u + l]" "et_len c1 = (et_len c)[i := u + l]"
    "et_cur c1 = i" "et_pending c1 = et_pending c" "et_tx_node_count c1 = et_tx_node_count c" "et_hw c1 = et_hw c" "et_buffer_len c1 = et_buffer_len c"
    "et_bug c1 = (et_bug c \<or> et_buffer_len c < u + l \<or> et_buffer_len c < l)" by (simp_all add: c1_def i_def)
  have at: "node_at c1 j = node_at c j" for j by (simp add: f node_at_def)
  have nd: "node_data c1 j = node_data c j" if "j < p" for j
    using node_at_inj [of j p c] that p i by (simp add: node_data_def at f)
  have bk: "edma_backlog c1 = edma_backlog c @ dat"
  proof -
    have "map (node_data c1) [0..<p] = map (node_data c) [0..<p]" using nd by simp
    then have "concat (map (node_data c1) [0..<p]) = concat (map (node_data c) [0..<p])" by (rule arg_cong [where f = concat])
    moreover have "take (et_used c1 ! et_cur c1) (et_buf c1 ! et_cur c1) = take u (et_buf c ! i) @ dat"
      using st ok i(2) by (simp add: f tx_ok_def)
    ultimately show ?thesis by (simp add: edma_backlog_def f(5,6) p_def [symmetric] u_def [symmetric] i_def [symmetric])
  qed
  have e: "skw_edma_set_data dat c = (if et_buffer_len c < u + l + l then skw_edma_next_node c1 else c1)"
    using dat by (simp add: skw_edma_set_data_def Let_def i_def u_def c1_def)
  have used: "et_used c1 ! et_cur c1 = u + l" "et_len c1 ! et_cur c1 = u + l" using ok i(2) by (simp_all add: f tx_ok_def)
  have ok0: "tx_ok 0 c1"
    using ok st(1) fit i p used dat unfolding tx_ok_def at
    by (auto simp: f p_def dest!: subsetD [OF set_update_subset_insert])
  have "tx_ok l c1" if "u + l + l \<le> et_buffer_len c" using ok0 that room unfolding tx_ok_def used f(5,6,8) by (simp add: f(1))
  then show "tx_ok l (skw_edma_set_data dat c)" "edma_backlog (skw_edma_set_data dat c) = edma_backlog c @ dat"
    using bk next_node_ok(1,2) [OF ok0, of l] used l by (simp_all add: e f(8))
qed

lemma tx_submit_ok:
  assumes ok: "tx_ok l c" and l: "l \<le> et_buffer_len c"
  shows "tx_ok l (skw_edma_tx c)" "edma_backlog (skw_edma_tx c) = edma_backlog c"
proof -
  define d where "d = (if et_used c ! et_cur c \<noteq> 0 then skw_edma_next_node c else c)"
  have d: "tx_ok l d" "edma_backlog d = edma_backlog c" using next_node_ok(1,2) [OF ok l] ok by (simp_all add: d_def)
  have e: "skw_edma_tx c = d\<lparr>et_tx_node_count := 0, et_pending := et_pending d + et_tx_node_count d\<rparr>" by (simp add: skw_edma_tx_def d_def Let_def)
  have at: "node_at (skw_edma_tx c) = node_at d" by (rule ext) (simp add: e node_at_def)
  have f: "et_buf (skw_edma_tx c) = et_buf d" "et_used (skw_edma_tx c) = et_used d" "et_len (skw_edma_tx c) = et_len d" "et_cur (skw_edma_tx c) = et_cur d"
    "et_hw (skw_edma_tx c) = et_hw d" "et_buffer_len (skw_edma_tx c) = et_buffer_len d" "et_bug (skw_edma_tx c) = et_bug d"
    "et_pending (skw_edma_tx c) + et_tx_node_count (skw_edma_tx c) = et_pending d + et_tx_node_count d" by (simp_all add: e)
  have nd: "node_data (skw_edma_tx c) = node_data d" by (rule ext) (simp add: node_data_def at f)
  show "tx_ok l (skw_edma_tx c)" using d(1) unfolding tx_ok_def f at .
  show "edma_backlog (skw_edma_tx c) = edma_backlog c" using d(2) unfolding edma_backlog_def f nd .
qed

lemma chip_read_ok:
  assumes ok: "tx_ok l c" and p: "0 < et_pending c"
  shows "tx_ok l (edma_chip_read c)" "concat (et_wire (edma_chip_read c)) @ edma_backlog (edma_chip_read c) = concat (et_wire c) @ edma_backlog c"
proof -
  let ?d = "edma_chip_read c"
  have n: "0 < length (et_buf c)" and hw: "et_hw c < length (et_buf c)" using ok by (auto simp: tx_ok_def)
  have at: "node_at ?d j = node_at c (Suc j)" for j using n by (simp add: node_at_def edma_chip_read_def mod_simps)
  have nd: "node_data ?d j = node_data c (Suc j)" for j by (simp add: node_data_def at) (simp add: edma_chip_read_def)
  have f: "et_pending ?d = et_pending c - 1" "et_tx_node_count ?d = et_tx_node_count c" "et_cur ?d = et_cur c" "et_used ?d = et_used c" "et_buf ?d = et_buf c"
    "et_len ?d = et_len c" "et_buffer_len ?d = et_buffer_len c" "et_bug ?d = et_bug c" "et_hw ?d = Suc (et_hw c) mod length (et_buf c)" by (simp_all add: edma_chip_read_def)
  have s: "Suc (et_pending c - 1 + et_tx_node_count c) = et_pending c + et_tx_node_count c" using p by simp
  show "tx_ok l ?d" using ok n p unfolding tx_ok_def at f s by auto
  have "map (node_data c) [0..<et_pending c + et_tx_node_count c] = node_data c 0 # map (node_data ?d) [0..<et_pending c - 1 + et_tx_node_count c]"
    unfolding s [symmetric] nd by (simp add: upt_conv_Cons map_Suc_upt [symmetric] comp_def del: upt_Suc)
  moreover have "et_wire ?d = et_wire c @ [node_data c 0]" using hw by (simp add: edma_chip_read_def node_data_def node_at_def)
  ultimately show "concat (et_wire ?d) @ edma_backlog ?d = concat (et_wire c) @ edma_backlog c" by (simp add: edma_backlog_def f)
qed


text \<open>A step sets data or not; what is on the wire with what is waiting grows by exactly that.\<close>

primrec edma_tx_data :: "edma_tx_op \<Rightarrow> u8 list" where
  "edma_tx_data (Et_set dat) = dat"
| "edma_tx_data Et_tx = []"
| "edma_tx_data Et_read = []"
| "edma_tx_data (Et_isr n) = []"

fun edma_tx_run :: "nat \<Rightarrow> edma_tx_op list \<Rightarrow> edma_tx \<Rightarrow> bool \<times> edma_tx" where
  "edma_tx_run l [] c = (True, c)"
| "edma_tx_run l (x # xs) c = (if edma_tx_guard l x c then edma_tx_run l xs (edma_tx_step x c) else (False, c))"

definition edma_stream :: "edma_tx \<Rightarrow> u8 list" where
  "edma_stream c = concat (et_wire c) @ edma_backlog c"

lemma next_node_misc [simp]:
  "et_wire (skw_edma_next_node c) = et_wire c" "et_buffer_len (skw_edma_next_node c) = et_buffer_len c"
  by (simp_all add: skw_edma_next_node_def Let_def)

lemma tx_step_misc [simp]: "et_buffer_len (edma_tx_step x c) = et_buffer_len c"
  by (cases x) (simp_all add: skw_edma_set_data_def skw_edma_tx_def edma_chip_read_def skw_edma_tx_node_isr_def Let_def)

lemma tx_step_length [simp]: "length (et_buf (edma_tx_step x c)) = length (et_buf c)"
  by (cases x) (simp_all add: skw_edma_set_data_def skw_edma_tx_def edma_chip_read_def skw_edma_tx_node_isr_def skw_edma_next_node_def Let_def)

lemma tx_run_length: "edma_tx_run l xs c = (ok, d) \<Longrightarrow> length (et_buf d) = length (et_buf c)"
  by (induction l xs c rule: edma_tx_run.induct) (auto split: if_splits)

lemma tx_step_ok:
  assumes ok: "tx_ok l c" and l: "0 < l" "l \<le> et_buffer_len c" and g: "edma_tx_guard l x c"
  shows "tx_ok l (edma_tx_step x c) \<and> edma_stream (edma_tx_step x c) = edma_stream c @ edma_tx_data x"
proof (cases x)
  case (Et_set dat)
  have w: "et_wire (skw_edma_set_data dat c) = et_wire c" by (simp add: skw_edma_set_data_def Let_def)
  show ?thesis using set_data_ok [OF ok l, of dat] g by (simp add: Et_set edma_stream_def w)
next
  case Et_tx
  have w: "et_wire (skw_edma_tx c) = et_wire c" by (simp add: skw_edma_tx_def Let_def)
  show ?thesis using tx_submit_ok [OF ok l(2)] by (simp add: Et_tx edma_stream_def w)
next
  case Et_read
  show ?thesis using chip_read_ok [OF ok] g by (simp add: Et_read edma_stream_def)
next
  case (Et_isr n)
  have "edma_backlog (skw_edma_tx_node_isr n c) = edma_backlog c"
  proof -
    have "node_data (skw_edma_tx_node_isr n c) = node_data c" by (rule ext) (simp add: node_data_def node_at_def skw_edma_tx_node_isr_def)
    then show ?thesis by (simp add: edma_backlog_def) (simp add: skw_edma_tx_node_isr_def)
  qed
  moreover have "tx_ok l (skw_edma_tx_node_isr n c)"
  proof -
    have f: "et_buf (skw_edma_tx_node_isr n c) = et_buf c" "et_used (skw_edma_tx_node_isr n c) = et_used c" "et_len (skw_edma_tx_node_isr n c) = et_len c"
      "et_cur (skw_edma_tx_node_isr n c) = et_cur c" "et_hw (skw_edma_tx_node_isr n c) = et_hw c" "et_bug (skw_edma_tx_node_isr n c) = et_bug c"
      "et_pending (skw_edma_tx_node_isr n c) = et_pending c" "et_tx_node_count (skw_edma_tx_node_isr n c) = et_tx_node_count c"
      "et_buffer_len (skw_edma_tx_node_isr n c) = et_buffer_len c" by (simp_all add: skw_edma_tx_node_isr_def)
    show ?thesis using ok unfolding tx_ok_def node_at_def f .
  qed
  ultimately show ?thesis by (simp add: Et_isr edma_stream_def) (simp add: skw_edma_tx_node_isr_def)
qed

lemma tx_run_ok:
  assumes "tx_ok l c" "0 < l" "l \<le> et_buffer_len c" "edma_tx_run l xs c = (True, d)"
  shows "tx_ok l d \<and> edma_stream d = edma_stream c @ concat (map edma_tx_data xs)"
  using assms
proof (induction xs arbitrary: c)
  case Nil
  then show ?case by simp
next
  case (Cons x xs)
  then have g: "edma_tx_guard l x c" and r: "edma_tx_run l xs (edma_tx_step x c) = (True, d)" by (auto split: if_splits)
  show ?case using tx_step_ok [OF Cons.prems(1-3) g] Cons.IH [OF _ Cons.prems(2) _ r] Cons.prems(3) by simp
qed

lemma tx_init_ok: "0 < n \<Longrightarrow> l \<le> m \<Longrightarrow> tx_ok l (skw_edma_chn_init_tx n m) \<and> edma_stream (skw_edma_chn_init_tx n m) = []"
  by (simp add: tx_ok_def skw_edma_chn_init_tx_def edma_stream_def edma_backlog_def node_at_def)

text \<open>
  C14. The nodes of a transmit channel are a queue of bytes. Starting from an initialised channel with \<open>n\<close> nodes of \<open>m\<close> bytes, and as long as
  a node is free when an element of the fixed size \<open>l\<close> is set (the credits of the firmware), in every order of setting data, submitting, reads of the chip
  and interrupts: what the chip has read, followed by what still waits in the nodes, is all the data that was set, each byte once and in order, and
  no \<open>BUG_ON\<close> of the node's size is met.
\<close>

theorem edma_tx_in_order:
  assumes "0 < n" "0 < l" "l \<le> m" "edma_tx_run l xs (skw_edma_chn_init_tx n m) = (True, c)"
  shows "concat (et_wire c) @ edma_backlog c = concat (map edma_tx_data xs) \<and> \<not> et_bug c \<and> et_pending c + et_tx_node_count c \<le> n"
proof -
  have "et_buffer_len (skw_edma_chn_init_tx n m) = m" by (simp add: skw_edma_chn_init_tx_def)
  then have ok: "tx_ok l c" and s: "edma_stream c = concat (map edma_tx_data xs)"
    using tx_run_ok [OF conjunct1 [OF tx_init_ok [OF assms(1,3)]] assms(2) _ assms(4)] tx_init_ok [OF assms(1,3)] assms(3) by auto
  have "length (et_buf c) = n" using tx_run_length [OF assms(4)] by (simp add: skw_edma_chn_init_tx_def)
  then show ?thesis using ok s by (simp add: edma_stream_def tx_ok_def)
qed

lemmas edma_tx_ops = skw_edma_set_data_def skw_edma_next_node_def skw_edma_tx_def edma_chip_read_def skw_edma_tx_node_isr_def edma_store_def Let_def

lemma edma_tx_in_order_witness:
  "concat (et_wire (snd (edma_tx_run 2 [Et_set [1, 2], Et_tx, Et_read, Et_set [3, 4], Et_isr 1, Et_set [5, 6]] (skw_edma_chn_init_tx 2 2)))) @ [3, 4, 5, 6] = [1, 2, 3, 4, 5, 6]"
proof -
  let ?xs = "[Et_set [1, 2], Et_tx, Et_read, Et_set [3, 4], Et_isr 1, Et_set [5, 6]]"
  let ?r = "edma_tx_run 2 ?xs (skw_edma_chn_init_tx 2 2)"
  have start: "skw_edma_chn_init_tx 2 2 = \<lparr>et_buf = [[0x5a, 0x5a], [0x5a, 0x5a]], et_used = [0, 0], et_len = [0x6a6a, 0x6a6a], et_buffer_len = 2,
      et_cur = 0, et_tx_node_count = 0, et_nr_node = 2, et_hw = 0, et_pending = 0, et_wire = [], et_bug = False\<rparr>"
    by (simp add: skw_edma_chn_init_tx_def numeral_2_eq_2)
  have "fst ?r" unfolding start by (simp add: edma_tx_ops)
  then have run: "?r = (True, snd ?r)" by (simp add: prod_eq_iff)
  have "edma_backlog (snd ?r) = [3, 4, 5, 6]" unfolding start by (simp add: edma_tx_ops edma_backlog_def node_data_def node_at_def)
  moreover have "concat (map edma_tx_data ?xs) = [1, 2, 3, 4, 5, 6]" by simp
  ultimately show ?thesis using edma_tx_in_order [OF _ _ _ run] by simp
qed

section \<open>The driver takes off what the chip completed\<close>

definition edma_entry :: "edma_hdr \<Rightarrow> nat \<times> nat" where
  "edma_entry h = (eh_pcie_addr h, eh_data_len h)"

definition edma_waiting :: "edma_rx \<Rightarrow> (nat \<times> nat) list" where
  "edma_waiting c = map edma_entry (filter eh_done (rotate (er_swtail c) (er_hdr c)))"

text \<open>The descriptor \<open>j\<close> places after the one that the driver takes next.\<close>

definition rx_at :: "edma_rx \<Rightarrow> nat \<Rightarrow> edma_hdr" where
  "rx_at c j = er_hdr c ! ((er_swtail c + j) mod length (er_hdr c))"

text \<open>\<open>d\<close> descriptors are completed and not taken off: those from the one that the driver takes next, around the ring.\<close>

definition rx_ok :: "nat \<Rightarrow> edma_rx \<Rightarrow> bool" where
  "rx_ok d c \<longleftrightarrow> er_swtail c < length (er_hdr c) \<and> er_rx_node_count c < length (er_hdr c) \<and> er_cur c = er_swtail c \<and>
     er_buffer c = map eh_pcie_addr (er_hdr c) \<and> er_mapped c = replicate (length (er_hdr c)) True \<and> er_credit c + d + er_rx_node_count c = length (er_hdr c) \<and>
     er_hw c = (er_swtail c + d) mod length (er_hdr c) \<and> (\<forall>j < length (er_hdr c). eh_done (rx_at c j) \<longleftrightarrow> j < d) \<and>
     er_completed c = er_handled c @ map (\<lambda>j. edma_entry (rx_at c j)) [0..<d] \<and> \<not> er_locked c"

lemma ring_inj:
  assumes "j < n" "k < n" "(t + j) mod n = (t + k) mod (n :: nat)"
  shows "j = k"
proof (rule ccontr)
  assume "j \<noteq> k"
  then have "\<exists>a b. a < b \<and> b < n \<and> (t + a) mod n = (t + b) mod n" using assms by (metis linorder_neqE_nat)
  then obtain a b where ab: "a < b" "b < n" "(t + a) mod n = (t + b) mod n" by blast
  then have "n dvd (t + b) - (t + a)" using mod_eq_dvd_iff_nat [of "t + a" "t + b" n] by simp
  then show False using dvd_imp_le [of n "(t + b) - (t + a)"] ab by simp
qed

lemma ring_start: "t < n \<Longrightarrow> j < n \<Longrightarrow> (t + j) mod n = t \<longleftrightarrow> j = (0 :: nat)"
  using ring_inj [of j n 0 t] by auto

lemma filter_upt_less: "d \<le> n \<Longrightarrow> filter (\<lambda>j. j < d) [0..<n] = [0..<d]"
  by (induction n) (auto simp: le_Suc_eq)

lemma rx_ok_waiting:
  assumes ok: "rx_ok d c"
  shows "edma_waiting c = map (\<lambda>j. edma_entry (rx_at c j)) [0..<d]" "length (edma_waiting c) = d"
proof -
  let ?n = "length (er_hdr c)"
  have le: "d \<le> ?n" and dn: "\<And>j. j < ?n \<Longrightarrow> eh_done (rx_at c j) \<longleftrightarrow> j < d" using ok by (auto simp: rx_ok_def)
  have "rotate (er_swtail c) (er_hdr c) = map (rx_at c) [0..<?n]"
    by (rule nth_equalityI) (simp_all add: nth_rotate rx_at_def)
  then have "filter eh_done (rotate (er_swtail c) (er_hdr c)) = map (rx_at c) (filter (\<lambda>j. eh_done (rx_at c j)) [0..<?n])"
    by (simp add: filter_map comp_def)
  also have "filter (\<lambda>j. eh_done (rx_at c j)) [0..<?n] = filter (\<lambda>j. j < d) [0..<?n]" using dn by (intro filter_cong) auto
  finally show "edma_waiting c = map (\<lambda>j. edma_entry (rx_at c j)) [0..<d]" by (simp add: edma_waiting_def filter_upt_less [OF le])
  then show "length (edma_waiting c) = d" by simp
qed

lemma chip_write_ok:
  assumes ok: "rx_ok d c" and cr: "0 < er_credit c"
  shows "rx_ok (Suc d) (edma_chip_write n c)" "\<not> eh_done (er_hdr c ! er_hw c)"
proof -
  let ?h = "er_hdr c" and ?t = "er_swtail c" and ?c = "edma_chip_write n c"
  have lt: "d < length ?h" and hw: "er_hw c = (?t + d) mod length ?h" and t: "?t < length ?h" using ok cr by (auto simp: rx_ok_def)
  then show nd: "\<not> eh_done (?h ! er_hw c)" using ok by (auto simp: rx_ok_def rx_at_def)
  have i: "er_hw c < length ?h" using hw t by (metis less_nat_zero_code mod_less_divisor neq0_conv)
  have h: "er_hdr ?c = ?h[er_hw c := (?h ! er_hw c)\<lparr>eh_data_len := n, eh_done := True\<rparr>]" by (simp add: edma_chip_write_def Let_def)
  have at: "rx_at ?c j = (if j = d then (?h ! er_hw c)\<lparr>eh_data_len := n, eh_done := True\<rparr> else rx_at c j)" if "j < length ?h" for j
    using ring_inj [OF that lt, of ?t] i hw by (auto simp: rx_at_def edma_chip_write_def Let_def nth_list_update)
  have "map eh_pcie_addr (er_hdr ?c) = map eh_pcie_addr ?h"
    using i by (simp add: h map_update) (metis list_update_id nth_map)
  moreover have "map (\<lambda>j. edma_entry (rx_at ?c j)) [0..<d] = map (\<lambda>j. edma_entry (rx_at c j)) [0..<d]" using at lt by simp
  moreover have "edma_entry (rx_at ?c d) = (eh_pcie_addr (?h ! er_hw c), n)" using at [OF lt] by (simp add: edma_entry_def)
  moreover have "length (er_hdr ?c) = length ?h" by (simp add: h)
  ultimately show "rx_ok (Suc d) ?c"
    using ok cr at lt by (auto simp: rx_ok_def edma_chip_write_def Let_def hw mod_Suc_eq)
qed

definition edma_next_addr :: "nat option option \<Rightarrow> edma_hdr \<Rightarrow> nat" where
  "edma_next_addr fresh h = (case fresh of Some (Some b) \<Rightarrow> b | _ \<Rightarrow> eh_pcie_addr h)"

lemma take_fields:
  assumes ok: "rx_ok (Suc d) c" and fr: "fresh \<noteq> Some None"
  defines "t \<equiv> er_swtail c" and "r \<equiv> er_rx_node_count c" and "n \<equiv> length (er_hdr c)"
  shows "\<exists>c'. edma_take fresh t c = (True, c') \<and>
    er_hdr c' = (er_hdr c)[t := (er_hdr c ! t)\<lparr>eh_pcie_addr := edma_next_addr fresh (er_hdr c ! t), eh_done := False\<rparr>] \<and>
    er_buffer c' = map eh_pcie_addr (er_hdr c') \<and> er_mapped c' = replicate n True \<and>
    er_swtail c' = Suc t mod n \<and> er_cur c' = Suc t mod n \<and> er_rx_node_count c' = Suc r mod n \<and>
    er_credit c' = er_credit c + (if Suc r = n then n else 0) \<and> er_hw c' = er_hw c \<and>
    er_completed c' = er_completed c \<and> er_handled c' = er_handled c @ [edma_entry (er_hdr c ! t)] \<and> \<not> er_locked c'"
proof -
  have lt: "t < n" "r < n" and f: "er_swtail c = t" "er_cur c = t" "er_rx_node_count c = r" "er_buffer c = map eh_pcie_addr (er_hdr c)"
      "er_mapped c = replicate n True" "\<not> er_locked c"
    using ok by (auto simp: rx_ok_def t_def r_def n_def)
  have m: "(replicate n True)[t := False, t := True] = replicate n True" "(replicate n True)[t := True] = replicate n True"
    using list_update_id [of "replicate n True" t] lt by simp_all
  have b: "map eh_pcie_addr (er_hdr c) = map eh_pcie_addr ((er_hdr c)[t := (er_hdr c ! t)\<lparr>eh_done := False\<rparr>])"
    using lt by (simp add: map_update n_def) (metis list_update_id nth_map)
  have md: "Suc t mod n = (if Suc t = n then 0 else Suc t)" "Suc r mod n = (if Suc r = n then 0 else Suc r)" using lt by simp_all
  consider "fresh = None" | a where "fresh = Some (Some a)" using fr by (cases fresh) auto
  then show ?thesis
  proof cases
    case 1
    then show ?thesis using f lt m b
      by (simp add: edma_take_def edma_resubmit_def edma_advance_def skw_edma_hdr_tail_def edma_entry_def edma_next_addr_def Let_def md flip: n_def)
  next
    case 2
    then show ?thesis using f lt m
      by (simp add: edma_take_def edma_resubmit_def edma_advance_def skw_edma_hdr_tail_def edma_entry_def edma_next_addr_def Let_def md map_update flip: n_def)
  qed
qed

text \<open>The position in the table and the count of the descriptors that the driver keeps agree until the channel is opened again.\<close>

definition rx_even :: "edma_rx \<Rightarrow> bool" where
  "rx_even c \<longleftrightarrow> er_rx_node_count c = er_swtail c"

lemma rx_even_room: "rx_ok d c \<Longrightarrow> rx_even c \<Longrightarrow> er_swtail c + d \<le> length (er_hdr c)"
  by (simp add: rx_ok_def rx_even_def)

lemma take_ok:
  assumes ok: "rx_ok (Suc d) c" and fr: "fresh \<noteq> Some None"
  shows "\<exists>c'. edma_take fresh (er_swtail c) c = (True, c') \<and> rx_ok d c' \<and> er_completed c' = er_completed c \<and> length (er_hdr c') = length (er_hdr c) \<and>
    er_swtail c' = Suc (er_swtail c) mod length (er_hdr c) \<and> (rx_even c \<longrightarrow> rx_even c')"
proof -
  define t where "t = er_swtail c"
  define r where "r = er_rx_node_count c"
  define n where "n = length (er_hdr c)"
  from take_fields [OF assms] obtain c' where tk: "edma_take fresh t c = (True, c')"
    and h: "er_hdr c' = (er_hdr c)[t := (er_hdr c ! t)\<lparr>eh_pcie_addr := edma_next_addr fresh (er_hdr c ! t), eh_done := False\<rparr>]"
    and f: "er_buffer c' = map eh_pcie_addr (er_hdr c')" "er_mapped c' = replicate n True" "er_swtail c' = Suc t mod n" "er_cur c' = Suc t mod n"
      "er_rx_node_count c' = Suc r mod n" "er_credit c' = er_credit c + (if Suc r = n then n else 0)" "er_hw c' = er_hw c"
      "er_completed c' = er_completed c" "er_handled c' = er_handled c @ [edma_entry (er_hdr c ! t)]" "\<not> er_locked c'"
    by (auto simp: t_def r_def n_def)
  have lt: "t < n" "r < n" and o: "er_credit c + Suc d + r = n" "er_hw c = (t + Suc d) mod n" "\<And>j. j < n \<Longrightarrow> eh_done (rx_at c j) \<longleftrightarrow> j < Suc d"
      "er_completed c = er_handled c @ map (\<lambda>j. edma_entry (rx_at c j)) [0..<Suc d]"
    using ok unfolding rx_ok_def t_def r_def n_def by auto
  have len: "length (er_hdr c') = n" by (simp add: h n_def)
  have at: "rx_at c' j = rx_at c (Suc j)" if "Suc j < n" for j
  proof -
    have "(Suc t mod n + j) mod n = (t + Suc j) mod n" by (simp add: mod_simps)
    then show ?thesis using ring_start [OF lt(1) that] by (simp add: rx_at_def len f(3)) (simp add: h n_def t_def)
  qed
  have last: "\<not> eh_done (rx_at c' j)" if "Suc j = n" for j
  proof -
    have "(Suc t mod n + j) mod n = t" using that lt by (simp add: mod_simps) (metis add_Suc_right mod_add_self2 mod_less)
    then show ?thesis using lt by (simp add: rx_at_def len f(3)) (simp add: h n_def)
  qed
  have done1: "eh_done (rx_at c' j) \<longleftrightarrow> j < d" if "j < n" for j
    using o(1) o(3) [of "Suc j"] at [of j] last [of j] that by (cases "Suc j = n") auto
  have "map (\<lambda>j. edma_entry (rx_at c j)) [0..<Suc d] = edma_entry (er_hdr c ! t) # map (\<lambda>j. edma_entry (rx_at c (Suc j))) [0..<d]"
    using lt by (simp add: upt_conv_Cons map_Suc_upt [symmetric] comp_def rx_at_def n_def t_def del: upt_Suc)
  also have "map (\<lambda>j. edma_entry (rx_at c (Suc j))) [0..<d] = map (\<lambda>j. edma_entry (rx_at c' j)) [0..<d]" using at o(1) by simp
  finally have comp: "er_completed c' = er_handled c' @ map (\<lambda>j. edma_entry (rx_at c' j)) [0..<d]" using o(4) f by simp
  have cr: "er_credit c' + d + er_rx_node_count c' = n" using o(1) lt f by (cases "Suc r = n") auto
  have hw: "er_hw c' = (er_swtail c' + d) mod n" using o(2) f by (simp add: mod_simps)
  have rng: "er_swtail c' < n" "er_rx_node_count c' < n" using lt f by auto
  have "rx_ok d c'" using rng cr hw done1 comp f unfolding rx_ok_def len by simp
  then show ?thesis using tk f len by (auto simp: t_def r_def n_def rx_even_def)
qed

lemma poll_loop_go:
  "i < length (er_hdr c) \<and> eh_done (er_hdr c ! i) \<and> 0 < quota \<Longrightarrow> edma_take (allocs i) i c = (True, c2) \<Longrightarrow>
    edma_poll_loop allocs i quota cnt c =
      edma_poll_loop allocs (Suc i) (if cnt + eh_data_len (er_hdr c ! i) div 8 \<le> quota then quota - (cnt + eh_data_len (er_hdr c ! i) div 8) else 0)
        (cnt + eh_data_len (er_hdr c ! i) div 8) c2"
  by (subst edma_poll_loop.simps) (simp only: if_True Let_def prod.case simp_thms)

lemma poll_loop_stop: "\<not> (i < length (er_hdr c) \<and> eh_done (er_hdr c ! i) \<and> 0 < quota) \<Longrightarrow> edma_poll_loop allocs i quota cnt c = (cnt, quota, c)"
  by (simp only: edma_poll_loop.simps [of allocs i quota cnt c] if_False)

lemma poll_loop_ok:
  assumes "rx_ok d c" "\<forall>i < length (er_hdr c). allocs i \<noteq> Some None" "i = er_swtail c \<or> i = length (er_hdr c) \<and> er_swtail c = 0"
    "edma_poll_loop allocs i quota cnt c = (cnt1, quota1, c1)"
  shows "\<exists>d1. rx_ok d1 c1 \<and> er_completed c1 = er_completed c \<and> length (er_hdr c1) = length (er_hdr c) \<and> (rx_even c \<longrightarrow> rx_even c1) \<and>
    (0 < quota1 \<longrightarrow> d1 = 0 \<or> er_swtail c1 = 0 \<and> length (er_hdr c) < i + d)"
  using assms
proof (induction allocs i quota cnt c arbitrary: d rule: edma_poll_loop.induct)
  case (1 allocs i quota cnt c)
  have lt: "er_swtail c < length (er_hdr c)" and dn: "eh_done (er_hdr c ! er_swtail c) \<longleftrightarrow> 0 < d"
    using "1.prems"(1) by (auto simp: rx_ok_def rx_at_def dest: spec [of _ 0])
  let ?go = "i < length (er_hdr c) \<and> eh_done (er_hdr c ! i) \<and> 0 < quota"
  show ?case
  proof (cases ?go)
    case False
    then have r: "cnt1 = cnt" "quota1 = quota" "c1 = c" using "1.prems"(4) by (simp_all add: poll_loop_stop)
    then have "d = 0 \<or> er_swtail c1 = 0 \<and> length (er_hdr c) < i + d" if "0 < quota1" using False that "1.prems"(3) dn lt by auto
    then show ?thesis using "1.prems"(1) r by auto
  next
    case True
    then have i: "i = er_swtail c" and "d \<noteq> 0" using "1.prems"(3) dn by auto
    then obtain e where d: "d = Suc e" by (cases d) auto
    from take_ok [OF "1.prems"(1) [unfolded d], of "allocs i"] "1.prems"(2) True obtain c2 where t: "edma_take (allocs i) i c = (True, c2)"
      and ok: "rx_ok e c2" and f: "er_completed c2 = er_completed c" "length (er_hdr c2) = length (er_hdr c)"
      and nxt: "er_swtail c2 = Suc i mod length (er_hdr c)" and ev: "rx_even c \<longrightarrow> rx_even c2" unfolding i by blast
    let ?cnt = "cnt + eh_data_len (er_hdr c ! i) div 8"
    let ?quota = "if ?cnt \<le> quota then quota - ?cnt else 0"
    have l: "edma_poll_loop allocs (Suc i) ?quota ?cnt c2 = (cnt1, quota1, c1)"
      using "1.prems"(4) poll_loop_go [of i c quota allocs c2, OF True t] by simp
    have at: "Suc i = er_swtail c2 \<or> Suc i = length (er_hdr c2) \<and> er_swtail c2 = 0" using nxt f lt i by (cases "Suc i = length (er_hdr c)") auto
    have "\<exists>d1. rx_ok d1 c1 \<and> er_completed c1 = er_completed c2 \<and> length (er_hdr c1) = length (er_hdr c2) \<and> (rx_even c2 \<longrightarrow> rx_even c1) \<and>
        (0 < quota1 \<longrightarrow> d1 = 0 \<or> er_swtail c1 = 0 \<and> length (er_hdr c2) < Suc i + e)"
      by (rule "1.IH" [OF True refl refl t [symmetric] refl TrueI ok _ at l]) (use f "1.prems"(2) in auto)
    then show ?thesis using f ev d by auto
  qed
qed

lemma poll_ok:
  assumes "rx_ok d c" "\<forall>i < length (er_hdr c). allocs i \<noteq> Some None" "skw_edma_napi_txrx_compl_task allocs quota c = (cnt1, quota1, c1)"
  shows "\<exists>d1. rx_ok d1 c1 \<and> er_completed c1 = er_completed c \<and> length (er_hdr c1) = length (er_hdr c) \<and> (rx_even c \<longrightarrow> rx_even c1) \<and>
    (0 < quota1 \<longrightarrow> d1 = 0 \<or> er_swtail c1 = 0 \<and> length (er_hdr c) < er_swtail c + d)"
  using poll_loop_ok [OF assms(1,2) disjI1 [OF refl] assms(3) [unfolded skw_edma_napi_txrx_compl_task_def]] .

fun edma_rx_run :: "edma_rx_op list \<Rightarrow> edma_rx \<Rightarrow> bool \<times> edma_rx" where
  "edma_rx_run [] c = (True, c)"
| "edma_rx_run (x # xs) c = (if edma_rx_guard x c then edma_rx_run xs (edma_rx_step x c) else (False, c))"

lemma reopen_ok: "rx_ok d c \<Longrightarrow> rx_ok d (edma_reopen c)"
  by (auto simp: rx_ok_def rx_at_def edma_reopen_def)

lemma rx_step_ok:
  assumes ok: "rx_ok d c" and g: "edma_rx_guard x c"
  shows "\<exists>d1. rx_ok d1 (edma_rx_step x c) \<and> length (er_hdr (edma_rx_step x c)) = length (er_hdr c) \<and> (x \<noteq> Er_reopen \<longrightarrow> rx_even c \<longrightarrow> rx_even (edma_rx_step x c))"
proof (cases x)
  case (Er_write n)
  then show ?thesis using chip_write_ok(1) [OF ok, of n] g by (auto simp: edma_chip_write_def Let_def rx_even_def)
next
  case (Er_poll allocs quota)
  obtain cnt1 quota1 c1 where p: "skw_edma_napi_txrx_compl_task allocs quota c = (cnt1, quota1, c1)" by (metis prod_cases3)
  then show ?thesis using poll_ok [OF ok _ p] g by (auto simp: Er_poll)
next
  case Er_reopen
  then show ?thesis using reopen_ok [OF ok] by (auto simp: edma_reopen_def)
qed

lemma rx_run_ok:
  "rx_ok d c \<Longrightarrow> edma_rx_run xs c = (True, c1) \<Longrightarrow>
    \<exists>d1. rx_ok d1 c1 \<and> length (er_hdr c1) = length (er_hdr c) \<and> (Er_reopen \<notin> set xs \<longrightarrow> rx_even c \<longrightarrow> rx_even c1)"
proof (induction xs arbitrary: c d)
  case (Cons x xs)
  then have g: "edma_rx_guard x c" and r: "edma_rx_run xs (edma_rx_step x c) = (True, c1)" by (auto split: if_splits)
  from rx_step_ok [OF Cons.prems(1) g] obtain e where e: "rx_ok e (edma_rx_step x c)" "length (er_hdr (edma_rx_step x c)) = length (er_hdr c)"
    "x \<noteq> Er_reopen \<longrightarrow> rx_even c \<longrightarrow> rx_even (edma_rx_step x c)" by auto
  from Cons.IH [OF e(1) r] obtain d1 where "rx_ok d1 c1" "length (er_hdr c1) = length (er_hdr (edma_rx_step x c))"
    "Er_reopen \<notin> set xs \<longrightarrow> rx_even (edma_rx_step x c) \<longrightarrow> rx_even c1" by blast
  then show ?case using e by auto
qed auto

lemma rx_init_ok: "bufs \<noteq> [] \<Longrightarrow> rx_ok 0 (skw_edma_chn_init_rx bufs) \<and> rx_even (skw_edma_chn_init_rx bufs)"
  by (simp add: rx_ok_def rx_at_def rx_even_def skw_edma_chn_init_rx_def comp_def)

text \<open>
  C15. The descriptors of a receive channel are a queue between the chip and the driver. Take any run, from an initialised channel, of completions of the chip, polls
  with any quota, and openings of the data channels, as long as no allocation of a buffer fails. Then what the chip completed is what the driver handed on followed
  by what the completed descriptors hold, in order; a descriptor that the chip may write next is never one that waits for the driver;
  the descriptors that the chip has, the completed ones and those that the driver keeps for the next submission are all of them; every
  buffer is mapped again, the lock is free, and the address in each descriptor is that of its node's buffer. A next poll that leaves some of its quota has handed
  on everything, except when the channels were opened again and the poll started in the middle of the table: then it may have stopped at the end of the table.
\<close>

theorem edma_rx_in_order:
  assumes "bufs \<noteq> []" "edma_rx_run xs (skw_edma_chn_init_rx bufs) = (True, c)"
  shows "er_completed c = er_handled c @ edma_waiting c \<and> (0 < er_credit c \<longrightarrow> \<not> eh_done (er_hdr c ! er_hw c)) \<and>
    er_credit c + length (edma_waiting c) + er_rx_node_count c = length bufs \<and> (\<forall>b \<in> set (er_mapped c). b) \<and> \<not> er_locked c \<and> er_buffer c = map eh_pcie_addr (er_hdr c) \<and>
    ((\<forall>i < length (er_hdr c). allocs i \<noteq> Some None) \<longrightarrow> skw_edma_napi_txrx_compl_task allocs quota c = (cnt, quota1, c1) \<longrightarrow> 0 < quota1 \<longrightarrow>
      er_handled c1 = er_completed c \<and> edma_waiting c1 = [] \<or> Er_reopen \<in> set xs \<and> 0 < er_swtail c \<and> er_swtail c1 = 0)"
proof -
  have "length (er_hdr (skw_edma_chn_init_rx bufs)) = length bufs" by (simp add: skw_edma_chn_init_rx_def)
  with rx_run_ok [OF conjunct1 [OF rx_init_ok [OF assms(1)]] assms(2)] rx_init_ok [OF assms(1)] obtain d where ok: "rx_ok d c" and n: "length (er_hdr c) = length bufs"
    and ev: "Er_reopen \<notin> set xs \<longrightarrow> rx_even c" by auto
  have "er_handled c1 = er_completed c \<and> edma_waiting c1 = [] \<or> Er_reopen \<in> set xs \<and> 0 < er_swtail c \<and> er_swtail c1 = 0"
    if al: "\<forall>i < length (er_hdr c). allocs i \<noteq> Some None" and p: "skw_edma_napi_txrx_compl_task allocs quota c = (cnt, quota1, c1)" and q: "0 < quota1"
  proof -
    from poll_ok [OF ok al p] q obtain d1 where ok1: "rx_ok d1 c1" and e: "er_completed c1 = er_completed c"
      and dd: "d1 = 0 \<or> er_swtail c1 = 0 \<and> length (er_hdr c) < er_swtail c + d" by auto
    from dd show ?thesis
    proof
      assume "d1 = 0"
      then have "edma_waiting c1 = []" "er_completed c1 = er_handled c1" using rx_ok_waiting(1) [OF ok1] ok1 by (simp_all add: rx_ok_def)
      then show ?thesis using e by simp
    next
      assume a: "er_swtail c1 = 0 \<and> length (er_hdr c) < er_swtail c + d"
      have "d \<le> length (er_hdr c)" using ok by (simp add: rx_ok_def)
      then have "0 < er_swtail c" using a by (cases "er_swtail c") auto
      moreover have "Er_reopen \<in> set xs" using ev rx_even_room [OF ok] a by (metis linorder_not_less)
      ultimately show ?thesis using a by simp
    qed
  qed
  moreover have "0 < er_credit c \<longrightarrow> \<not> eh_done (er_hdr c ! er_hw c)" using chip_write_ok(2) [OF ok] by blast
  moreover have "er_completed c = er_handled c @ edma_waiting c" using ok unfolding rx_ok_waiting(1) [OF ok] by (simp add: rx_ok_def)
  ultimately show ?thesis using ok n by (auto simp: rx_ok_def rx_ok_waiting(2) [OF ok])
qed

lemma edma_rx_in_order_witness:
  "er_completed (snd (edma_rx_run [Er_write 24, Er_write 8, Er_poll (\<lambda>i. Some (Some (50 + i))) 5, Er_reopen, Er_write 16] (skw_edma_chn_init_rx [1, 2, 3]))) = [(1, 24), (2, 8), (3, 16)]"
proof -
  let ?xs = "[Er_write 24, Er_write 8, Er_poll (\<lambda>i. Some (Some (50 + i))) 5, Er_reopen, Er_write 16]"
  let ?r = "edma_rx_run ?xs (skw_edma_chn_init_rx [1, 2, 3])"
  let ?a = "\<lparr>er_hdr = [\<lparr>eh_pcie_addr = 1, eh_data_len = 24, eh_done = True\<rparr>, \<lparr>eh_pcie_addr = 2, eh_data_len = 8, eh_done = True\<rparr>, \<lparr>eh_pcie_addr = 3, eh_data_len = 0x6a6a, eh_done = False\<rparr>],
      er_swtail = 0, er_cur = 0, er_buffer = [1, 2, 3], er_mapped = [True, True, True], er_rx_node_count = 0, er_locked = False, er_hw = 2, er_credit = 1,
      er_completed = [(1, 24), (2, 8)], er_handled = []\<rparr>"
  let ?b = "\<lparr>er_hdr = [\<lparr>eh_pcie_addr = 50, eh_data_len = 24, eh_done = False\<rparr>, \<lparr>eh_pcie_addr = 51, eh_data_len = 8, eh_done = False\<rparr>, \<lparr>eh_pcie_addr = 3, eh_data_len = 0x6a6a, eh_done = False\<rparr>],
      er_swtail = 2, er_cur = 2, er_buffer = [50, 51, 3], er_mapped = [True, True, True], er_rx_node_count = 2, er_locked = False, er_hw = 2, er_credit = 1,
      er_completed = [(1, 24), (2, 8)], er_handled = [(1, 24), (2, 8)]\<rparr>"
  have wr: "edma_chip_write 8 (edma_chip_write 24 (skw_edma_chn_init_rx [1, 2, 3])) = ?a" by (simp add: skw_edma_chn_init_rx_def edma_chip_write_def)
  have poll: "skw_edma_napi_txrx_compl_task (\<lambda>i. Some (Some (50 + i))) 5 ?a = (4, 0, ?b)"
    by (simp add: skw_edma_napi_txrx_compl_task_def poll_loop_go poll_loop_stop edma_take_def edma_resubmit_def edma_advance_def skw_edma_hdr_tail_def edma_entry_def Let_def)
  have "edma_rx_run ?xs (skw_edma_chn_init_rx [1, 2, 3]) = (True, edma_chip_write 16 (edma_reopen ?b))"
    using wr poll by (simp add: All_less_Suc edma_reopen_def) (simp add: skw_edma_chn_init_rx_def edma_chip_write_def)
  moreover have "edma_waiting (edma_chip_write 16 (edma_reopen ?b)) = [(3, 16)]" "er_handled (edma_chip_write 16 (edma_reopen ?b)) = [(1, 24), (2, 8)]"
    by (simp_all add: edma_chip_write_def edma_reopen_def edma_waiting_def edma_entry_def numeral_2_eq_2)
  ultimately have "fst ?r \<and> er_handled (snd ?r) = [(1, 24), (2, 8)] \<and> edma_waiting (snd ?r) = [(3, 16)]" by simp
  then have run: "?r = (True, snd ?r)" and h: "er_handled (snd ?r) = [(1, 24), (2, 8)]" "edma_waiting (snd ?r) = [(3, 16)]" by (simp_all add: prod_eq_iff)
  show ?thesis using edma_rx_in_order [OF _ run] h by simp
qed

section \<open>Every buffer is in one place\<close>

definition edma_places :: "edma_lmac \<Rightarrow> nat multiset" where
  "edma_places s = mset (lm_avail s @ lm_rx_dat s @ lm_up s @ lm_freed s @ lm_lost s)"

definition lmac_ok :: "edma_lmac \<Rightarrow> bool" where
  "lmac_ok s \<longleftrightarrow> edma_places s = mset [0..<lm_next s] \<and> lm_avail_num s = int (length (lm_avail s)) \<and> length (lm_avail s) \<le> 768 \<and> 0 \<le> lm_refill s"

text \<open>The places account for every buffer whatever fails.\<close>

lemma alloc_skb_places: "edma_places s = mset [0..<lm_next s] \<Longrightarrow>
    edma_places (snd (skw_edma_alloc_skb num got ok s)) = mset [0..<lm_next (snd (skw_edma_alloc_skb num got ok s))]"
proof -
  define k where "k = min got (nat num)"
  assume p: "edma_places s = mset [0..<lm_next s]"
  have "mset [0..<lm_next s + k] = mset [0..<lm_next s] + mset [lm_next s..<lm_next s + k]"
    by (simp only: upt_add_eq_append [OF le0] mset_append)
  then show ?thesis using p by (simp add: skw_edma_alloc_skb_def Let_def edma_places_def del: mset_upt flip: k_def)
qed

lemma refill_places:
  "edma_places s = mset [0..<lm_next s] \<Longrightarrow> edma_places (skw_edma_refill_skb got ok s) = mset [0..<lm_next (skw_edma_refill_skb got ok s)]"
  using alloc_skb_places by (simp add: skw_edma_refill_skb_def Let_def del: mset_upt)

lemma rx_buffer_places: "edma_places (rx_buffer limit desc a s) = edma_places s \<and> lm_next (rx_buffer limit desc a s) = lm_next s"
proof (cases "a \<in> set (lm_avail s)")
  case True
  then obtain xs ys where "lm_avail s = xs @ a # ys" "remove1 a (lm_avail s) = xs @ ys" by (metis remove1_split)
  then show ?thesis by (auto simp: rx_buffer_def edma_places_def Let_def add.assoc split: prod.split)
qed (simp add: rx_buffer_def edma_places_def)

lemma rx_data_places: "edma_places (skw_pci_edma_rx_data limit desc dat s) = edma_places s \<and> lm_next (skw_pci_edma_rx_data limit desc dat s) = lm_next s"
proof -
  have "edma_places (fold (rx_buffer limit desc) as s) = edma_places s \<and> lm_next (fold (rx_buffer limit desc) as s) = lm_next s" for as
    by (induction as arbitrary: s) (simp_all add: rx_buffer_places)
  then show ?thesis by (simp add: skw_pci_edma_rx_data_def)
qed

lemma lmac_step_places: "edma_places s = mset [0..<lm_next s] \<Longrightarrow> edma_places (edma_lmac_step limit x s) = mset [0..<lm_next (edma_lmac_step limit x s)]"
proof (cases x)
  case (El_start got up)
  have inc: "edma_places (skw_edma_inc_refill t) = edma_places t" "lm_next (skw_edma_inc_refill t) = lm_next t" for t
    by (simp_all add: skw_edma_inc_refill_def edma_places_def)
  assume "edma_places s = mset [0..<lm_next s]"
  then show ?thesis using alloc_skb_places by (simp add: El_start edma_ap_start_def skw_edma_init_data_chan_def inc del: mset_upt)
next
  case (El_data desc dat got up)
  assume "edma_places s = mset [0..<lm_next s]"
  then show ?thesis using refill_places rx_data_places by (simp add: El_data del: mset_upt)
qed (simp_all add: skw_edma_dec_refill_def edma_rx_process_def edma_places_def add.left_commute)

lemma lmac_fold_places: "edma_places s = mset [0..<lm_next s] \<Longrightarrow>
    edma_places (fold (edma_lmac_step limit) xs s) = mset [0..<lm_next (fold (edma_lmac_step limit) xs s)]"
  by (induction xs arbitrary: s) (simp_all add: lmac_step_places del: mset_upt)

lemma alloc_skb_ok:
  assumes ok: "lmac_ok s" and n: "0 \<le> num" "num + lm_avail_num s \<le> 768" "768 \<le> got"
  shows "lmac_ok (snd (skw_edma_alloc_skb num got True s))"
proof -
  define k where "k = nat num"
  have k: "num = int k" "min got k = k" "length (lm_avail s) + k \<le> 768" using n ok by (auto simp: lmac_ok_def k_def)
  have e: "snd (skw_edma_alloc_skb num got True s) =
      s\<lparr>lm_avail := lm_avail s @ [lm_next s..<lm_next s + k], lm_next := lm_next s + k, lm_avail_num := lm_avail_num s + int k\<rparr>"
    using k(2) by (simp add: skw_edma_alloc_skb_def k(1))
  have "mset [0..<lm_next s + k] = mset [0..<lm_next s] + mset [lm_next s..<lm_next s + k]"
    by (simp only: upt_add_eq_append [OF le0] mset_append)
  then have "edma_places (snd (skw_edma_alloc_skb num got True s)) = mset [0..<lm_next s + k]"
    using ok by (simp add: e edma_places_def lmac_ok_def del: mset_upt)
  then show ?thesis using ok k(3) unfolding lmac_ok_def by (simp add: e del: mset_upt)
qed

lemma refill_amount:
  assumes "n \<le> 768"
  defines "room \<equiv> of_nat 768 - ucast (of_nat n :: u16) :: u32"
  shows "room = of_nat (768 - n)" "0 \<le> sint (room AND NOT 31)" "sint (room AND NOT 31) \<le> 768 - int n"
proof -
  have "take_bit 16 (int n) = int n" using assms(1) by (simp add: take_bit_int_eq_self)
  then have "ucast (of_nat n :: u16) = (of_nat n :: u32)" by transfer simp
  then show r: "room = of_nat (768 - n)" using assms(1) by (simp add: room_def of_nat_diff)
  have "room AND NOT 31 \<le> room" by (rule word_and_le2)
  moreover have small: "unat (of_nat m :: u32) = m" if "m \<le> 768" for m using that by (simp add: unsigned_of_nat take_bit_nat_eq_self)
  have "unat room = 768 - n" unfolding r by (rule small) simp
  ultimately have u: "unat (room AND NOT 31) \<le> 768 - n" by (simp add: word_le_nat_alt)
  have "sint w = int (unat w)" if "unat w \<le> 768" for w :: u32
  proof -
    have "uint w \<le> 768" using of_nat_mono [OF that, where 'a = int] by (simp only: uint_nat of_nat_numeral)
    moreover have "0 \<le> uint w" by simp
    ultimately have "- (2 ^ 31) \<le> uint w" "uint w < 2 ^ 31" by (auto intro: order_trans [where y = 0])
    then show ?thesis by (simp add: sint_uint signed_take_bit_int_eq_self)
  qed
  then have "sint (room AND NOT 31) = int (unat (room AND NOT 31))" using u by (meson diff_le_self order_trans)
  moreover have "int (unat (room AND NOT 31)) \<le> 768 - int n" using of_nat_mono [OF u, where 'a = int] assms(1) by (simp only: of_nat_diff of_nat_numeral)
  ultimately show "0 \<le> sint (room AND NOT 31)" "sint (room AND NOT 31) \<le> 768 - int n" by (simp_all only: of_nat_0_le_iff)
qed

lemma refill_ok:
  assumes ok: "lmac_ok s" and got: "768 \<le> got"
  shows "lmac_ok (skw_edma_refill_skb got True s)"
proof -
  have n: "length (lm_avail s) \<le> 768" and a: "lm_avail_num s = int (length (lm_avail s))" using ok by (simp_all add: lmac_ok_def)
  note r = refill_amount [OF n]
  show ?thesis using alloc_skb_ok [OF ok r(2) _ got] r(3) ok
    by (simp add: skw_edma_refill_skb_def edma_defs a Let_def)
qed

lemma rx_buffer_ok: "lmac_ok s \<Longrightarrow> lmac_ok (rx_buffer limit desc a s)"
proof (cases "a \<in> set (lm_avail s)")
  case True
  assume ok: "lmac_ok s"
  from True obtain xs ys where "lm_avail s = xs @ a # ys" "remove1 a (lm_avail s) = xs @ ys" by (metis remove1_split)
  with ok show ?thesis by (auto simp: rx_buffer_def lmac_ok_def edma_places_def Let_def add.assoc split: prod.split)
qed (simp add: rx_buffer_def lmac_ok_def edma_places_def)

lemma rx_data_ok: "lmac_ok s \<Longrightarrow> lmac_ok (skw_pci_edma_rx_data limit desc dat s)"
proof -
  have "lmac_ok s \<Longrightarrow> lmac_ok (fold (rx_buffer limit desc) as s)" for as
    by (induction as arbitrary: s) (simp_all add: rx_buffer_ok)
  then show "lmac_ok s \<Longrightarrow> ?thesis" by (simp add: skw_pci_edma_rx_data_def)
qed

lemma lmac_step_ok:
  assumes ok: "lmac_ok s" and g: "edma_lmac_guard x s"
  shows "lmac_ok (edma_lmac_step limit x s)"
proof (cases x)
  case (El_start got up)
  have r: "lmac_ok (skw_edma_inc_refill t)" if "lmac_ok t" for t using that by (simp add: lmac_ok_def skw_edma_inc_refill_def edma_places_def)
  show ?thesis
  proof (cases "lm_refill s = 0")
    case True
    then have "lm_avail_num s = 0" "up" "768 \<le> got" using ok g by (simp_all add: El_start lmac_ok_def)
    then show ?thesis using r alloc_skb_ok [OF ok, of 768 got] True by (simp add: El_start edma_ap_start_def skw_edma_init_data_chan_def edma_defs)
  qed (use r ok in \<open>simp add: El_start edma_ap_start_def\<close>)
next
  case El_stop
  then show ?thesis using ok by (simp add: skw_edma_dec_refill_def lmac_ok_def edma_places_def)
next
  case (El_data desc dat got up)
  then show ?thesis using refill_ok [OF rx_data_ok [OF ok]] g by simp
next
  case El_poll
  then show ?thesis using ok by (simp add: edma_rx_process_def lmac_ok_def edma_places_def add.left_commute)
qed

fun edma_lmac_run :: "nat \<Rightarrow> edma_lmac_op list \<Rightarrow> edma_lmac \<Rightarrow> bool \<times> edma_lmac" where
  "edma_lmac_run limit [] s = (True, s)"
| "edma_lmac_run limit (x # xs) s = (if edma_lmac_guard x s then edma_lmac_run limit xs (edma_lmac_step limit x s) else (False, s))"

lemma lmac_run_fold: "edma_lmac_run limit xs s = (True, t) \<Longrightarrow> t = fold (edma_lmac_step limit) xs s"
  by (induction limit xs s rule: edma_lmac_run.induct) (auto split: if_splits)

lemma lmac_run_ok: "lmac_ok s \<Longrightarrow> edma_lmac_run limit xs s = (True, t) \<Longrightarrow> lmac_ok t"
  by (induction limit xs s rule: edma_lmac_run.induct) (auto split: if_splits intro: lmac_step_ok)

text \<open>
  C16. Every buffer that was ever allocated for received frames is in exactly one place: in the list of those lent to the chip, in the queue of the poll, handed to
  the receive path, freed, or (only when the chip reports a length that does not fit) lost. This holds after every sequence of interfaces coming up and down, reports, also of wrong
  addresses, and polls, whatever allocation or submission fails. If in addition none of them fails and the channels are only filled by the first interface while
  no buffer is lent, then the atomic counter is the number of buffers lent, and it is at most the 768 that the channels hold, so that
  the refill after each report, computed in words of 16 and 32 bits, never overfills them. (The last section shows what happens to the counter otherwise.)
\<close>

theorem edma_buffers_conserved:
  "let e = fold (edma_lmac_step limit) xs edma_lmac_init in
    mset (lm_avail e @ lm_rx_dat e @ lm_up e @ lm_freed e @ lm_lost e) = mset [0..<lm_next e] \<and>
    (edma_lmac_run limit xs edma_lmac_init = (True, s) \<longrightarrow> s = e \<and> lm_avail_num s = int (length (lm_avail s)) \<and>
      length (lm_avail s) \<le> RX_FREE_BUF_ADDR_CNT * SKW_EDMA_RX_FREE_CHN_NODE_NUM)"
proof -
  let ?e = "fold (edma_lmac_step limit) xs edma_lmac_init"
  have i: "lmac_ok edma_lmac_init" by (simp add: lmac_ok_def edma_lmac_init_def edma_places_def)
  then have "edma_places ?e = mset [0..<lm_next ?e]" by (intro lmac_fold_places) (simp add: lmac_ok_def)
  moreover have "lmac_ok s \<and> s = ?e" if "edma_lmac_run limit xs edma_lmac_init = (True, s)"
    using lmac_run_ok [OF i that] lmac_run_fold [OF that] by simp
  ultimately show ?thesis by (simp add: Let_def edma_places_def lmac_ok_def edma_defs del: mset_upt)
qed

lemma edma_buffers_conserved_witness:
  "length (lm_avail (snd (edma_lmac_run 1600 [El_start 768 True, El_data (\<lambda>a. (100, True)) [5, 0, 0, 0, 0, 0, 0, 0] 768 True] edma_lmac_init))) = 767"
proof -
  let ?xs = "[El_start 768 True, El_data (\<lambda>a. (100, True)) [5, 0, 0, 0, 0, 0, 0, 0] 768 True]"
  let ?a = "\<lparr>lm_avail = [0..<768], lm_avail_num = 768, lm_refill = 1, lm_rx_dat = [], lm_up = [], lm_freed = [], lm_lost = [], lm_asserts = 0, lm_next = 768\<rparr>"
  let ?b = "\<lparr>lm_avail = remove1 5 [0..<768], lm_avail_num = 767, lm_refill = 1, lm_rx_dat = [5], lm_up = [], lm_freed = [], lm_lost = [], lm_asserts = 0, lm_next = 768\<rparr>"
  have start: "edma_ap_start 768 True edma_lmac_init = ?a"
    by (simp add: edma_ap_start_def edma_lmac_init_def skw_edma_init_data_chan_def skw_edma_alloc_skb_def skw_edma_inc_refill_def edma_defs Let_def del: upt_rec_numeral)
  have "edma_addresses [5, 0, 0, 0, 0, 0, 0, 0] = [5]" by code_simp
  moreover have "rx_buffer 1600 (\<lambda>a. (100, True)) 5 ?a = ?b" by (simp add: rx_buffer_def del: upt_rec_numeral)
  ultimately have report: "skw_pci_edma_rx_data 1600 (\<lambda>a. (100, True)) [5, 0, 0, 0, 0, 0, 0, 0] ?a = ?b" by (simp add: skw_pci_edma_rx_data_def del: upt_rec_numeral)
  have "skw_edma_refill_skb 768 True ?b = ?b" by (simp add: skw_edma_refill_skb_def edma_defs word_le_nat_alt del: upt_rec_numeral)
  then have run: "edma_lmac_run 1600 ?xs edma_lmac_init = (True, ?b)" using start report by (simp add: edma_lmac_init_def del: upt_rec_numeral)
  then have "lm_avail_num ?b = int (length (lm_avail ?b))" using edma_buffers_conserved [of 1600 ?xs ?b] unfolding Let_def by blast
  then have "length (lm_avail ?b) = 767" by (simp del: upt_rec_numeral)
  then show ?thesis unfolding run snd_conv .
qed

section \<open>Behaviour worth knowing\<close>

text \<open>When no memory is left for a new buffer, the poll returns with the lock of the channel taken.\<close>

lemma alloc_failure_keeps_lock: "edma_take (Some None) i c = (ok, c1) \<Longrightarrow> \<not> ok \<and> er_locked c1"
  by (auto simp: edma_take_def Let_def)

text \<open>
  After the first interface came up again, the position in the table and the count of the descriptors that the driver keeps differ. The poll then stops
  behind the last descriptor with most of its quota left, while the first descriptor is completed.
\<close>

lemma poll_stops_at_end:
  "let c = edma_chip_write 8 (edma_chip_write 8 (edma_reopen (snd (edma_rx_run [Er_write 8, Er_poll (\<lambda>i. None) 64] (skw_edma_chn_init_rx [1, 2])))));
       (cnt, quota, d) = skw_edma_napi_txrx_compl_task (\<lambda>i. None) 64 c
   in quota = 63 \<and> edma_waiting d = [(1, 8)]"
proof -
  let ?r = "\<lambda>x y sw cn ct hw cr co ha. \<lparr>er_hdr = [\<lparr>eh_pcie_addr = 1, eh_data_len = 8, eh_done = x\<rparr>, y], er_swtail = sw, er_cur = sw, er_buffer = [1, 2], er_mapped = [True, True],
      er_rx_node_count = ct, er_locked = False, er_hw = hw, er_credit = cr, er_completed = co, er_handled = ha\<rparr>"
  note defs = skw_edma_napi_txrx_compl_task_def poll_loop_go poll_loop_stop edma_take_def edma_resubmit_def edma_advance_def skw_edma_hdr_tail_def edma_entry_def Let_def
  let ?n = "\<lparr>eh_pcie_addr = 2, eh_data_len = 0x6a6a, eh_done = False\<rparr>" and ?d = "\<lambda>b. \<lparr>eh_pcie_addr = 2, eh_data_len = 8, eh_done = b\<rparr>"
  let ?a = "?r True ?n 0 0 0 1 1 [(1, 8)] []" and ?b = "?r False ?n 1 1 1 1 1 [(1, 8)] [(1, 8)]"
  let ?c = "?r True (?d True) 1 1 0 1 0 [(1, 8), (2, 8), (1, 8)] [(1, 8)]" and ?e = "?r True (?d False) 0 0 1 1 0 [(1, 8), (2, 8), (1, 8)] [(1, 8), (2, 8)]"
  have wr: "edma_chip_write 8 (skw_edma_chn_init_rx [1, 2]) = ?a" by (simp add: skw_edma_chn_init_rx_def edma_chip_write_def)
  have p1: "skw_edma_napi_txrx_compl_task (\<lambda>i. None) 64 ?a = (1, 63, ?b)" by (simp add: defs)
  have run: "snd (edma_rx_run [Er_write 8, Er_poll (\<lambda>i. None) 64] (skw_edma_chn_init_rx [1, 2])) = ?b"
    using wr p1 by simp (simp add: skw_edma_chn_init_rx_def)
  have w: "edma_chip_write 8 (edma_chip_write 8 (edma_reopen ?b)) = ?c" by (simp add: edma_reopen_def edma_chip_write_def)
  have p2: "skw_edma_napi_txrx_compl_task (\<lambda>i. None) 64 ?c = (1, 63, ?e)" by (simp add: defs)
  have "edma_waiting ?e = [(1, 8)]" by (simp add: edma_waiting_def edma_entry_def)
  then show ?thesis unfolding run w Let_def p2 prod.case by simp
qed

text \<open>
  When the last interface goes down its buffers stay with the chip, and the next one adds 768 to them; and as the difference is computed without a sign, the next
  report takes 768 from the count without a buffer having left.
\<close>

lemma reopened_ap_overfills:
  assumes "lm_refill s = 0" "lm_avail_num s = 768"
  shows "lm_avail_num (edma_ap_start 768 True s) = 1536"
    "lm_avail_num (skw_edma_refill_skb 768 True (edma_ap_start 768 True s)) = 768"
    "lm_avail (skw_edma_refill_skb 768 True (edma_ap_start 768 True s)) = lm_avail (edma_ap_start 768 True s)"
proof -
  let ?t = "edma_ap_start 768 True s"
  have t: "lm_avail_num ?t = 1536" "lm_refill ?t = 1"
    using assms by (simp_all add: edma_ap_start_def skw_edma_init_data_chan_def skw_edma_alloc_skb_def skw_edma_inc_refill_def edma_defs Let_def)
  show "lm_avail_num ?t = 1536" by (rule t)
  have "skw_edma_refill_skb 768 True ?t = snd (skw_edma_alloc_skb (- 768) 768 True ?t)"
    by (simp add: skw_edma_refill_skb_def edma_defs t word_le_nat_alt)
  then show "lm_avail_num (skw_edma_refill_skb 768 True ?t) = 768" "lm_avail (skw_edma_refill_skb 768 True ?t) = lm_avail ?t"
    by (simp_all add: skw_edma_alloc_skb_def t Let_def)
qed

end
