(* ===== verification/Skw_Calib.thy ===== *)
theory Skw_Calib
  imports Skw_Prelude
begin

text \<open>
  The table of calibration results (\<^verbatim>\<open>skw_calib.c\<close>): results of the firmware are kept by channel group and radio, and sent back when the channel is used. Shown: the
  table keeps the first result for each entry.
\<close>

section \<open>The table and its operations\<close>

definition DPD_CHAN_CNT :: nat where "DPD_CHAN_CNT = 70"
definition DPD_RF_CNT :: nat where "DPD_RF_CNT = 2"

lemmas dpd_defs = DPD_CHAN_CNT_def DPD_RF_CNT_def

text \<open>\<open>struct skw_rf_rxdpd_train\<close>; \<open>dt_coeff\<close> stands for the fields that the driver only copies.\<close>

record dpd_train =
  dt_chan :: nat
  dt_rf_idx :: nat
  dt_cbw :: nat
  dt_coeff :: "u8 list"

definition skw_dpd_chn_to_index :: "nat \<Rightarrow> nat \<Rightarrow> int" where
  "skw_dpd_chn_to_index chn bw =
     (if 1 \<le> chn \<and> chn \<le> 5 then (if bw = 0 then 2 else 67)
      else if 6 \<le> chn \<and> chn \<le> 9 then (if bw = 0 then 6 else 68)
      else if 10 \<le> chn \<and> chn \<le> 14 then (if bw = 0 then 10 else 69)
      else if 36 \<le> chn \<and> chn \<le> 48 then int ((chn - 36) div 2) + 14
      else if 52 \<le> chn \<and> chn \<le> 64 then int ((chn - 52) div 2) + 21
      else if 100 \<le> chn \<and> chn \<le> 144 then int ((chn - 100) div 2) + 28
      else if 149 \<le> chn \<and> chn \<le> 177 then int ((chn - 149) div 2) + 51
      else - 1)"

definition dpd_zero_train :: dpd_train where
  "dpd_zero_train = \<lparr>dt_chan = 0, dt_rf_idx = 0, dt_cbw = 0, dt_coeff = []\<rparr>"

definition skw_dpd_zero :: "dpd_train list list" where
  "skw_dpd_zero = replicate DPD_CHAN_CNT (replicate DPD_RF_CNT dpd_zero_train)"

definition skw_dpd_result_handler :: "dpd_train \<Rightarrow> dpd_train list list option \<Rightarrow> int \<times> dpd_train list list option" where
  "skw_dpd_result_handler res para =
     (let index = skw_dpd_chn_to_index (dt_chan res) (dt_cbw res) in
      if DPD_RF_CNT - 1 < dt_rf_idx res then (- ERANGE, para)
      else if index < 0 \<or> int DPD_CHAN_CNT - 1 < index then (- ERANGE, para)
      else
        (case para of
           None \<Rightarrow> (- EINVAL, para)
         | Some dat \<Rightarrow>
             let old = dat ! nat index ! dt_rf_idx res in
             if dt_chan old \<noteq> 0 \<or> dt_cbw old \<noteq> 0 then (- EBUSY, para)
             else (0, Some (dat[nat index := (dat ! nat index)[dt_rf_idx res := res]]))))"

text \<open>\<open>send\<close> is the answer of the firmware to the command with the two results.\<close>

definition skw_dpd_set_coeff_params :: "(dpd_train list \<Rightarrow> int) \<Rightarrow> nat \<Rightarrow> nat \<Rightarrow> dpd_train list list option \<Rightarrow> int \<times> dpd_train list option" where
  "skw_dpd_set_coeff_params send center_chan bandwidth para =
     (case para of
        None \<Rightarrow> (- EINVAL, None)
      | Some dat \<Rightarrow>
          (let index = skw_dpd_chn_to_index center_chan bandwidth in
           if index < 0 \<or> int DPD_CHAN_CNT - 1 < index then (- ERANGE, None)
           else
             (let train = take 2 (dat ! nat index); param = (if center_chan \<le> 14 then map (\<lambda>r. r\<lparr>dt_chan := center_chan\<rparr>) train else train) in
              (send param, Some param))))"

section \<open>Calibration results are found again\<close>

definition dpd_store :: "dpd_train list \<Rightarrow> dpd_train list list" where
  "dpd_store rs = the (fold (\<lambda>r para. snd (skw_dpd_result_handler r para)) rs (Some skw_dpd_zero))"

definition dpd_here :: "nat \<Rightarrow> nat \<Rightarrow> dpd_train \<Rightarrow> bool" where
  "dpd_here i k r \<longleftrightarrow> dt_rf_idx r = k \<and> skw_dpd_chn_to_index (dt_chan r) (dt_cbw r) = int i"

definition dpd_table :: "dpd_train list list \<Rightarrow> bool" where
  "dpd_table dat \<longleftrightarrow> length dat = DPD_CHAN_CNT \<and> (\<forall>row \<in> set dat. length row = DPD_RF_CNT)"

lemma dpd_index_chan: "0 \<le> skw_dpd_chn_to_index chn bw \<Longrightarrow> chn \<noteq> 0"
  by (rule notI) (simp add: skw_dpd_chn_to_index_def)

lemma dpd_handler_entry:
  assumes t: "dpd_table dat" and i: "i < DPD_CHAN_CNT" "k < DPD_RF_CNT"
  shows "\<exists>dat1. snd (skw_dpd_result_handler r (Some dat)) = Some dat1 \<and> dpd_table dat1 \<and>
    dat1 ! i ! k = (if dpd_here i k r \<and> dt_chan (dat ! i ! k) = 0 \<and> dt_cbw (dat ! i ! k) = 0 then r else dat ! i ! k)"
proof -
  let ?x = "skw_dpd_chn_to_index (dt_chan r) (dt_cbw r)" and ?k = "dt_rf_idx r"
  show ?thesis
  proof (cases "DPD_RF_CNT - 1 < ?k \<or> ?x < 0 \<or> int DPD_CHAN_CNT - 1 < ?x")
    case True
    then have "snd (skw_dpd_result_handler r (Some dat)) = Some dat" by (auto simp: skw_dpd_result_handler_def Let_def)
    moreover have "\<not> dpd_here i k r" using True i by (auto simp: dpd_here_def)
    ultimately show ?thesis using t by simp
  next
    case False
    then obtain j where j: "?x = int j" "j < DPD_CHAN_CNT" "?k < DPD_RF_CNT" using i(2) by (cases ?x) auto
    have "length (dat ! j) = DPD_RF_CNT" using t j(2) by (simp add: dpd_table_def)
    then show ?thesis using False t i j
      by (auto simp: skw_dpd_result_handler_def Let_def dpd_here_def dpd_table_def nth_list_update dest!: subsetD [OF set_update_subset_insert])
  qed
qed

text \<open>
  C39. The table of calibration results keeps the first result for each entry: after any sequence of results of the firmware, valid or not, the entry of
  an index and a radio is the first result of the sequence with that index and radio, or zero when there is none; no result is lost to another entry.
\<close>

theorem dpd_first_result_kept:
  assumes "i < DPD_CHAN_CNT" "k < DPD_RF_CNT"
  shows "dpd_store rs ! i ! k = (case List.find (dpd_here i k) rs of None \<Rightarrow> dpd_zero_train | Some r \<Rightarrow> r)"
proof -
  let ?step = "\<lambda>r para. snd (skw_dpd_result_handler r para)"
  have gen: "dpd_table dat \<Longrightarrow> \<exists>dat1. fold ?step rs (Some dat) = Some dat1 \<and>
      dat1 ! i ! k = (if dt_chan (dat ! i ! k) = 0 \<and> dt_cbw (dat ! i ! k) = 0
        then (case List.find (dpd_here i k) rs of None \<Rightarrow> dat ! i ! k | Some r \<Rightarrow> r) else dat ! i ! k)" for dat
  proof (induction rs arbitrary: dat)
    case (Cons r rs)
    from dpd_handler_entry [OF Cons.prems assms, of r] obtain dat1 where d: "?step r (Some dat) = Some dat1" "dpd_table dat1"
      "dat1 ! i ! k = (if dpd_here i k r \<and> dt_chan (dat ! i ! k) = 0 \<and> dt_cbw (dat ! i ! k) = 0 then r else dat ! i ! k)" by blast
    have "dpd_here i k r \<Longrightarrow> dt_chan r \<noteq> 0" using dpd_index_chan [of "dt_chan r" "dt_cbw r"] by (simp add: dpd_here_def)
    then show ?case using Cons.IH [OF d(2)] d by (auto split: option.split)
  qed simp
  have "dpd_table skw_dpd_zero" by (simp add: dpd_table_def skw_dpd_zero_def)
  moreover have "skw_dpd_zero ! i ! k = dpd_zero_train" using assms by (simp add: skw_dpd_zero_def)
  ultimately show ?thesis using gen [of skw_dpd_zero] by (auto simp: dpd_store_def dpd_zero_train_def split: option.split)
qed

lemma dpd_first_result_kept_witness:
  "dt_coeff (dpd_store [\<lparr>dt_chan = 36, dt_rf_idx = 1, dt_cbw = 0, dt_coeff = [7]\<rparr>, \<lparr>dt_chan = 0, dt_rf_idx = 1, dt_cbw = 0, dt_coeff = [8]\<rparr>,
     \<lparr>dt_chan = 37, dt_rf_idx = 1, dt_cbw = 0, dt_coeff = [9]\<rparr>] ! 14 ! 1) = [7]"
  by (subst dpd_first_result_kept) (simp_all add: dpd_defs dpd_here_def skw_dpd_chn_to_index_def)

end
