(* ===== verification/Skw_Regd.thy ===== *)
theory Skw_Regd
  imports Skw_Prelude
begin

text \<open>
  Regulatory domains, \<^verbatim>\<open>skw_regd.c\<close>: which rule of a domain governs a frequency, whether a
  domain's rules are valid, and the rule table sent to the firmware. Country codes are byte
  strings. What the kernel's regulatory core answers (\<open>freq_reg_info\<close>, \<open>regulatory_hint\<close>,
  applying a domain) and whether the firmware accepts a table are parameters.
\<close>

section \<open>Data\<close>

text \<open>\<open>struct ieee80211_reg_rule\<close> and \<open>struct ieee80211_regdomain\<close> of the kernel headers.\<close>

record ieee80211_reg_rule =
  start_freq_khz :: u32
  end_freq_khz :: u32
  max_bandwidth_khz :: u32
  max_antenna_gain :: u32
  max_eirp :: u32
  dfs_cac_ms :: u32
  rr_flags :: u32

datatype dfs_region = NL80211_DFS_UNSET | NL80211_DFS_FCC | NL80211_DFS_ETSI | NL80211_DFS_JP

record ieee80211_regdomain =
  alpha2 :: "u8 list"
  dfs_region :: dfs_region
  reg_rules :: "ieee80211_reg_rule list"

definition MHZ_TO_KHZ :: "u32 \<Rightarrow> u32" where
  "MHZ_TO_KHZ f = f * 1000"

text \<open>\<open>MHZ_TO_KHZ\<close> of an integer constant, stored in a 32-bit field.\<close>

definition khz :: "int \<Rightarrow> u32" where
  "khz f = word_of_int (f * 1000)"

text \<open>
  \<open>REG_RULE_EXT\<close>: frequencies in MHz, gain and power in dB, integer constants that are scaled
  and stored in 32-bit fields.
\<close>

definition REG_RULE_EXT :: "int \<Rightarrow> int \<Rightarrow> int \<Rightarrow> int \<Rightarrow> int \<Rightarrow> int \<Rightarrow> u32 \<Rightarrow> ieee80211_reg_rule" where
  "REG_RULE_EXT s e bw gain eirp dfs_cac flags =
     \<lparr>start_freq_khz = khz s, end_freq_khz = khz e, max_bandwidth_khz = khz bw,
      max_antenna_gain = word_of_int (gain * 100),
      max_eirp = word_of_int (eirp * 100), dfs_cac_ms = word_of_int dfs_cac, rr_flags = flags\<rparr>"

definition SKW_RRF_NO_OFDM :: u32 where "SKW_RRF_NO_OFDM = BIT 0"
definition SKW_RRF_NO_OUTDOOR :: u32 where "SKW_RRF_NO_OUTDOOR = BIT 3"
definition SKW_RRF_DFS :: u32 where "SKW_RRF_DFS = BIT 4"
definition SKW_RRF_NO_IR :: u32 where "SKW_RRF_NO_IR = BIT 7"
definition SKW_RRF_AUTO_BW :: u32 where "SKW_RRF_AUTO_BW = BIT 11"

text \<open>The table the firmware takes: at most eight rules.\<close>

record skw_reg_rule =
  start_channel :: u8
  nr_channel :: u8
  max_power :: "8 word"
  max_gain :: "8 word"
  sr_flags :: u32

record skw_regdom =
  country :: "u8 list"
  rules :: "skw_reg_rule list"

record ieee80211_channel =
  center_freq :: u32
  hw_value :: u16

section \<open>Country codes\<close>

text \<open>\<open>isalpha\<close> of the kernel: ASCII letters and the Latin-1 letters.\<close>

definition isalpha :: "u8 \<Rightarrow> bool" where
  "isalpha c \<longleftrightarrow> (0x41 \<le> c \<and> c \<le> 0x5A) \<or> (0x61 \<le> c \<and> c \<le> 0x7A) \<or>
     (0xC0 \<le> c \<and> c \<noteq> 0xD7 \<and> c \<noteq> 0xF7)"

definition is_skw_valid_reg_code :: "u8 list \<Rightarrow> bool" where
  "is_skw_valid_reg_code a =
     (if a ! 0 = 0x30 \<and> a ! 1 = 0x30 then True else isalpha (a ! 0) \<and> isalpha (a ! 1))"

definition skw_alpha2_equal :: "u8 list \<Rightarrow> u8 list \<Rightarrow> bool" where
  "skw_alpha2_equal x y \<longleftrightarrow> x ! 0 = y ! 0 \<and> x ! 1 = y ! 1"

definition skw_get_regd :: "ieee80211_regdomain list \<Rightarrow> u8 list \<Rightarrow> ieee80211_regdomain option" where
  "skw_get_regd db a =
     (if \<not> is_skw_valid_reg_code a then None
      else List.find (\<lambda>rd. skw_alpha2_equal a (alpha2 rd)) db)"

section \<open>Rules\<close>

text \<open>\<open>abs\<close> of an unsigned difference is taken of the value read as signed.\<close>

definition abs_diff :: "u32 \<Rightarrow> u32 \<Rightarrow> u32" where
  "abs_diff a b = (if sint (a - b) < 0 then - (a - b) else a - b)"

definition skw_freq_in_rule_band :: "ieee80211_reg_rule \<Rightarrow> u32 \<Rightarrow> bool" where
  "skw_freq_in_rule_band fr freq_khz =
     (let limit = (if 45 * 1000000 < freq_khz then 20 * 1000000 else 2 * 1000000) in
      abs_diff freq_khz (start_freq_khz fr) \<le> limit \<or> abs_diff freq_khz (end_freq_khz fr) \<le> limit)"

definition skw_does_bw_fit_range :: "ieee80211_reg_rule \<Rightarrow> u32 \<Rightarrow> u32 \<Rightarrow> bool" where
  "skw_does_bw_fit_range fr center_freq_khz bw_khz \<longleftrightarrow>
     start_freq_khz fr \<le> center_freq_khz - bw_khz div 2 \<and>
     center_freq_khz + bw_khz div 2 \<le> end_freq_khz fr"

definition is_skw_valid_reg_rule :: "ieee80211_reg_rule \<Rightarrow> bool" where
  "is_skw_valid_reg_rule r =
     (if start_freq_khz r \<le> 0 \<or> end_freq_khz r \<le> 0 then False
      else if end_freq_khz r < start_freq_khz r then False
      else let freq_diff = end_freq_khz r - start_freq_khz r in
        \<not> (end_freq_khz r \<le> start_freq_khz r \<or> freq_diff < max_bandwidth_khz r))"

definition is_skw_valid_rd :: "ieee80211_regdomain \<Rightarrow> bool" where
  "is_skw_valid_rd rd = list_all is_skw_valid_reg_rule (reg_rules rd)"

text \<open>
  The loop of \<open>skw_freq_reg_info\<close> from rule \<open>i\<close> on. A rule is returned with its index,
  which stands for its address; an error as a negative number.
\<close>

fun freq_reg_loop ::
  "u32 \<Rightarrow> nat \<Rightarrow> bool \<Rightarrow> ieee80211_reg_rule list \<Rightarrow> int + (nat \<times> ieee80211_reg_rule)" where
  "freq_reg_loop freq i found [] = Inl (if found then - EINVAL else - ERANGE)"
| "freq_reg_loop freq i found (rr # rrs) =
     (let found1 = (if found then True else skw_freq_in_rule_band rr freq) in
      if found1 \<and> skw_does_bw_fit_range rr freq (MHZ_TO_KHZ 20) then Inr (i, rr)
      else freq_reg_loop freq (Suc i) found1 rrs)"

definition skw_freq_reg_info ::
  "ieee80211_regdomain option \<Rightarrow> u32 \<Rightarrow> int + (nat \<times> ieee80211_reg_rule)" where
  "skw_freq_reg_info regd freq =
     (case regd of None \<Rightarrow> Inl (- EINVAL) | Some rd \<Rightarrow> freq_reg_loop freq 0 False (reg_rules rd))"

section \<open>The regulatory state\<close>

text \<open>
  The part of the core and of the wiphy that regulation uses: the current country, the domain
  in force, whether the driver manages regulation itself, the beacon-hint flag, and the
  channels of each band (in band order, \<open>None\<close> for a band that is not there).
\<close>

record regd_state =
  rg_country :: "u8 list"
  rg_regd :: "ieee80211_regdomain option"
  rg_self_managed :: bool
  rg_no_beacon_hints :: bool
  rg_bands :: "ieee80211_channel list option list"

text \<open>\<open>kern\<close> is the kernel's \<open>freq_reg_info\<close>.\<close>

definition skw_regd_rule ::
  "(u32 \<Rightarrow> int + (nat \<times> ieee80211_reg_rule)) \<Rightarrow> regd_state \<Rightarrow> u32 \<Rightarrow> int + (nat \<times> ieee80211_reg_rule)" where
  "skw_regd_rule kern st freq =
     (let freq_khz = MHZ_TO_KHZ freq in
      if rg_regd st \<noteq> None \<or> rg_self_managed st then skw_freq_reg_info (rg_regd st) freq_khz
      else kern freq_khz)"

text \<open>
  Building the table: the rules written so far (the last is the one \<open>rule\<close> points at) and the
  address of the rule last used. The table in the message has room for eight; a ninth is
  written past its end.
\<close>

definition new_rule :: "u16 \<Rightarrow> ieee80211_reg_rule \<Rightarrow> skw_reg_rule" where
  "new_rule hw rr =
     \<lparr>start_channel = ucast hw, nr_channel = 0, max_power = ucast (max_eirp rr div 100),
      max_gain = ucast (max_antenna_gain rr div 100), sr_flags = rr_flags rr\<rparr>"

definition extend_last :: "u16 \<Rightarrow> skw_reg_rule list \<Rightarrow> skw_reg_rule list" where
  "extend_last hw rs =
     (if rs = [] then []
      else butlast rs @ [(last rs)\<lparr>nr_channel := ucast hw - start_channel (last rs) + 1\<rparr>])"

definition regd_chan_step ::
  "(u32 \<Rightarrow> int + (nat \<times> ieee80211_reg_rule)) \<Rightarrow> ieee80211_channel \<Rightarrow>
   skw_reg_rule list \<times> nat option \<Rightarrow> skw_reg_rule list \<times> nat option" where
  "regd_chan_step rule_of chn s =
     (case rule_of (center_freq chn) of
        Inl e \<Rightarrow> s
      | Inr (k, rr) \<Rightarrow>
          if rr_flags rr AND SKW_RRF_NO_IR \<noteq> 0 then s
          else
            (let s1 = (if snd s \<noteq> Some k then (fst s @ [new_rule (hw_value chn) rr], Some k) else s) in
             (extend_last (hw_value chn) (fst s1), snd s1)))"

definition regd_table ::
  "(u32 \<Rightarrow> int + (nat \<times> ieee80211_reg_rule)) \<Rightarrow> ieee80211_channel list option list \<Rightarrow> skw_reg_rule list" where
  "regd_table rule_of bands =
     fst (fold (\<lambda>sband s. case sband of None \<Rightarrow> s | Some chans \<Rightarrow> fold (regd_chan_step rule_of) chans s)
            bands ([], None))"

text \<open>\<open>xmit\<close> is the answer of the firmware to the table.\<close>

definition skw_cmd_set_regdom ::
  "(u32 \<Rightarrow> int + (nat \<times> ieee80211_reg_rule)) \<Rightarrow> (skw_regdom \<Rightarrow> int) \<Rightarrow> u8 list \<Rightarrow> regd_state \<Rightarrow> int \<times> regd_state" where
  "skw_cmd_set_regdom kern xmit a st =
     (let tbl = regd_table (skw_regd_rule kern st) (rg_bands st) in
      if tbl = [] then (0, st)
      else
        (let ret = xmit \<lparr>country = [a ! 0, a ! 1, 0], rules = tbl\<rparr> in
         (ret, if ret = 0 then st\<lparr>rg_country := [a ! 0, a ! 1]\<rparr> else st)))"

text \<open>\<open>apply_rd\<close> is the answer of the kernel when the domain is put in force.\<close>

definition skw_set_wiphy_regd ::
  "ieee80211_regdomain list \<Rightarrow> (ieee80211_regdomain \<Rightarrow> int) \<Rightarrow> u8 list \<Rightarrow> regd_state \<Rightarrow> int \<times> regd_state" where
  "skw_set_wiphy_regd db apply_rd a st =
     (if \<not> rg_self_managed st then (0, st)
      else case skw_get_regd db a of
        None \<Rightarrow> (- EINVAL, st)
      | Some rd \<Rightarrow>
          if \<not> is_skw_valid_rd rd then (- EINVAL, st)
          else (apply_rd rd, st\<lparr>rg_no_beacon_hints := \<not> (a ! 0 = 0x30 \<and> a ! 1 = 0x30), rg_regd := Some rd\<rparr>))"

text \<open>\<open>hint\<close> is the answer of \<open>regulatory_hint\<close>.\<close>

definition skw_set_regdom ::
  "ieee80211_regdomain list \<Rightarrow> (ieee80211_regdomain \<Rightarrow> int) \<Rightarrow> (u32 \<Rightarrow> int + (nat \<times> ieee80211_reg_rule)) \<Rightarrow>
   (skw_regdom \<Rightarrow> int) \<Rightarrow> (u8 list \<Rightarrow> int) \<Rightarrow> u8 list \<Rightarrow> regd_state \<Rightarrow> int \<times> regd_state" where
  "skw_set_regdom db apply_rd kern xmit hint a st =
     (if \<not> is_skw_valid_reg_code a then (- EINVAL, st)
      else if rg_self_managed st then
        (let (ret, st1) = skw_set_wiphy_regd db apply_rd a st in
         if ret = 0 then skw_cmd_set_regdom kern xmit a st1 else (ret, st1))
      else (hint a, st))"

section \<open>The driver's channels\<close>

definition SKW_CHAN2G :: "u16 \<Rightarrow> u32 \<Rightarrow> ieee80211_channel" where
  "SKW_CHAN2G ch freq = \<lparr>center_freq = freq, hw_value = ch\<rparr>"

definition SKW_CHAN5G :: "u16 \<Rightarrow> ieee80211_channel" where
  "SKW_CHAN5G ch = \<lparr>center_freq = 5000 + 5 * ucast ch, hw_value = ch\<rparr>"

definition SKW_CHAN6G :: "u16 \<Rightarrow> ieee80211_channel" where
  "SKW_CHAN6G ch = \<lparr>center_freq = 5950 + 5 * ucast ch, hw_value = ch\<rparr>"

definition skw_2ghz_chan :: "ieee80211_channel list" where
  "skw_2ghz_chan =
     [SKW_CHAN2G 1 2412, SKW_CHAN2G 2 2417, SKW_CHAN2G 3 2422, SKW_CHAN2G 4 2427, SKW_CHAN2G 5 2432,
      SKW_CHAN2G 6 2437, SKW_CHAN2G 7 2442, SKW_CHAN2G 8 2447, SKW_CHAN2G 9 2452, SKW_CHAN2G 10 2457,
      SKW_CHAN2G 11 2462, SKW_CHAN2G 12 2467, SKW_CHAN2G 13 2472, SKW_CHAN2G 14 2484]"

definition skw_5ghz_chan :: "ieee80211_channel list" where
  "skw_5ghz_chan = map SKW_CHAN5G
     [36, 40, 44, 48, 52, 56, 60, 64, 100, 104, 108, 112, 116, 120, 124, 128, 132, 136, 140, 144,
      149, 153, 157, 161, 165, 169, 173, 177, 181]"

definition skw_6ghz_chan :: "ieee80211_channel list" where
  "skw_6ghz_chan = map SKW_CHAN6G
     [1, 2, 5, 9, 13, 17, 21, 25, 29, 33, 37, 41, 45, 49, 53, 57, 61, 65, 69, 73, 77, 81, 85, 89, 93,
      97, 101, 105, 109, 113, 117, 121, 125, 129, 133, 137, 141, 145, 149, 153, 157, 161, 165, 169,
      173, 177, 181, 185, 189, 193, 197, 201, 205, 209, 213, 217, 221, 225, 229, 233]"

text \<open>The bands in the order of their numbers: 2.4 GHz, 5 GHz, 60 GHz (absent), 6 GHz.\<close>

definition skw_bands :: "bool \<Rightarrow> bool \<Rightarrow> ieee80211_channel list option list" where
  "skw_bands with5 with6 =
     [Some skw_2ghz_chan, if with5 then Some skw_5ghz_chan else None, None,
      if with6 then Some skw_6ghz_chan else None]"

end
