(* ===== verification/Skw_Db.thy ===== *)
theory Skw_Db
  imports Skw_Regd
begin

text \<open>
  The regulatory database \<^verbatim>\<open>skw_db.c\<close>: one domain per country, with its rules in the order of
  the source, and the array of all domains.
\<close>

definition code :: "string \<Rightarrow> u8 list" where
  "code s = map of_char s"

definition regdom_XW :: ieee80211_regdomain where
  "regdom_XW = \<lparr>alpha2 = code ''XW'', dfs_region = NL80211_DFS_UNSET, reg_rules =
     [REG_RULE_EXT 2402 2472 40 0 20 0 0,
      REG_RULE_EXT 2457 2482 20 0 20 0 SKW_RRF_AUTO_BW,
      REG_RULE_EXT 2474 2494 20 0 20 0 SKW_RRF_NO_OFDM,
      REG_RULE_EXT 5170 5250 80 0 20 0 SKW_RRF_AUTO_BW,
      REG_RULE_EXT 5250 5330 80 0 20 0 SKW_RRF_AUTO_BW,
      REG_RULE_EXT 5490 5730 160 0 20 0 SKW_RRF_AUTO_BW,
      REG_RULE_EXT 5735 5835 80 0 20 0 SKW_RRF_AUTO_BW,
      REG_RULE_EXT 57240 63720 2160 0 0 0 0]\<rparr>"

definition regdom_00 :: ieee80211_regdomain where
  "regdom_00 = \<lparr>alpha2 = code ''00'', dfs_region = NL80211_DFS_UNSET, reg_rules =
     [REG_RULE_EXT 755 928 2 0 20 0 SKW_RRF_NO_IR,
      REG_RULE_EXT 2402 2472 40 0 20 0 0,
      REG_RULE_EXT 2457 2482 20 0 20 0 (SKW_RRF_NO_IR OR SKW_RRF_AUTO_BW),
      REG_RULE_EXT 2474 2494 20 0 20 0 (SKW_RRF_NO_IR OR SKW_RRF_NO_OFDM),
      REG_RULE_EXT 5170 5250 80 0 20 0 (SKW_RRF_NO_IR OR SKW_RRF_AUTO_BW),
      REG_RULE_EXT 5250 5330 80 0 20 0 (SKW_RRF_NO_IR OR SKW_RRF_DFS OR SKW_RRF_AUTO_BW),
      REG_RULE_EXT 5490 5730 160 0 20 0 (SKW_RRF_NO_IR OR SKW_RRF_DFS),
      REG_RULE_EXT 5735 5835 80 0 20 0 SKW_RRF_NO_IR,
      REG_RULE_EXT 57240 63720 2160 0 0 0 0]\<rparr>"

definition regdom_AD :: ieee80211_regdomain where
  "regdom_AD = \<lparr>alpha2 = code ''AD'', dfs_region = NL80211_DFS_ETSI, reg_rules =
     [REG_RULE_EXT 2400 2483 40 0 20 0 0,
      REG_RULE_EXT 5150 5250 80 0 23 0 (SKW_RRF_NO_OUTDOOR OR SKW_RRF_AUTO_BW),
      REG_RULE_EXT 5250 5350 80 0 20 0 (SKW_RRF_NO_OUTDOOR OR SKW_RRF_DFS OR SKW_RRF_AUTO_BW),
      REG_RULE_EXT 5470 5725 160 0 27 0 SKW_RRF_DFS,
      REG_RULE_EXT 5725 5875 80 0 14 0 0,
      REG_RULE_EXT 57000 66000 2160 0 40 0 0]\<rparr>"

definition regdom_AE :: ieee80211_regdomain where
  "regdom_AE = \<lparr>alpha2 = code ''AE'', dfs_region = NL80211_DFS_FCC, reg_rules =
     [REG_RULE_EXT 2402 2482 40 0 20 0 0,
      REG_RULE_EXT 5170 5250 80 0 17 0 SKW_RRF_AUTO_BW,
      REG_RULE_EXT 5250 5330 80 0 24 0 (SKW_RRF_DFS OR SKW_RRF_AUTO_BW),
      REG_RULE_EXT 5490 5730 160 0 24 0 SKW_RRF_DFS,
      REG_RULE_EXT 5735 5835 80 0 30 0 0,
      REG_RULE_EXT 5925 6425 320 0 24 0 SKW_RRF_NO_OUTDOOR]\<rparr>"

definition regdom_AF :: ieee80211_regdomain where
  "regdom_AF = \<lparr>alpha2 = code ''AF'', dfs_region = NL80211_DFS_ETSI, reg_rules =
     [REG_RULE_EXT 2402 2482 40 0 20 0 0,
      REG_RULE_EXT 5170 5250 80 0 20 0 SKW_RRF_AUTO_BW,
      REG_RULE_EXT 5250 5330 80 0 20 0 (SKW_RRF_DFS OR SKW_RRF_AUTO_BW),
      REG_RULE_EXT 5490 5710 160 0 27 0 SKW_RRF_DFS]\<rparr>"

definition regdom_AI :: ieee80211_regdomain where
  "regdom_AI = \<lparr>alpha2 = code ''AI'', dfs_region = NL80211_DFS_ETSI, reg_rules =
     [REG_RULE_EXT 2402 2482 40 0 20 0 0,
      REG_RULE_EXT 5170 5250 80 0 20 0 SKW_RRF_AUTO_BW,
      REG_RULE_EXT 5250 5330 80 0 20 0 (SKW_RRF_DFS OR SKW_RRF_AUTO_BW),
      REG_RULE_EXT 5490 5710 160 0 27 0 SKW_RRF_DFS]\<rparr>"

definition regdom_AL :: ieee80211_regdomain where
  "regdom_AL = \<lparr>alpha2 = code ''AL'', dfs_region = NL80211_DFS_ETSI, reg_rules =
     [REG_RULE_EXT 2400 2483 40 0 20 0 0,
      REG_RULE_EXT 5150 5250 80 0 23 0 (SKW_RRF_NO_OUTDOOR OR SKW_RRF_AUTO_BW),
      REG_RULE_EXT 5250 5350 80 0 20 0 (SKW_RRF_NO_OUTDOOR OR SKW_RRF_DFS OR SKW_RRF_AUTO_BW),
      REG_RULE_EXT 5470 5725 160 0 27 0 SKW_RRF_DFS,
      REG_RULE_EXT 5725 5875 80 0 14 0 0]\<rparr>"

definition regdom_AM :: ieee80211_regdomain where
  "regdom_AM = \<lparr>alpha2 = code ''AM'', dfs_region = NL80211_DFS_ETSI, reg_rules =
     [REG_RULE_EXT 2402 2482 40 0 20 0 0,
      REG_RULE_EXT 5170 5250 20 0 18 0 0,
      REG_RULE_EXT 5250 5330 20 0 18 0 SKW_RRF_DFS]\<rparr>"

definition regdom_AN :: ieee80211_regdomain where
  "regdom_AN = \<lparr>alpha2 = code ''AN'', dfs_region = NL80211_DFS_ETSI, reg_rules =
     [REG_RULE_EXT 2402 2482 40 0 20 0 0,
      REG_RULE_EXT 5170 5250 80 0 20 0 SKW_RRF_AUTO_BW,
      REG_RULE_EXT 5250 5330 80 0 20 0 (SKW_RRF_DFS OR SKW_RRF_AUTO_BW),
      REG_RULE_EXT 5490 5710 160 0 27 0 SKW_RRF_DFS]\<rparr>"

definition regdom_AR :: ieee80211_regdomain where
  "regdom_AR = \<lparr>alpha2 = code ''AR'', dfs_region = NL80211_DFS_FCC, reg_rules =
     [REG_RULE_EXT 2402 2482 40 0 20 0 0,
      REG_RULE_EXT 5170 5250 80 0 17 0 SKW_RRF_AUTO_BW,
      REG_RULE_EXT 5250 5330 80 0 24 0 (SKW_RRF_DFS OR SKW_RRF_AUTO_BW),
      REG_RULE_EXT 5490 5730 160 0 24 0 SKW_RRF_DFS,
      REG_RULE_EXT 5735 5835 80 0 30 0 0,
      REG_RULE_EXT 5925 7125 320 0 12 0 SKW_RRF_NO_OUTDOOR]\<rparr>"

definition regdom_AS :: ieee80211_regdomain where
  "regdom_AS = \<lparr>alpha2 = code ''AS'', dfs_region = NL80211_DFS_FCC, reg_rules =
     [REG_RULE_EXT 2402 2472 40 0 30 0 0,
      REG_RULE_EXT 5170 5250 80 0 24 0 SKW_RRF_AUTO_BW,
      REG_RULE_EXT 5250 5330 80 0 24 0 (SKW_RRF_DFS OR SKW_RRF_AUTO_BW),
      REG_RULE_EXT 5490 5730 160 0 24 0 SKW_RRF_DFS,
      REG_RULE_EXT 5735 5835 80 0 30 0 0]\<rparr>"

definition regdom_AT :: ieee80211_regdomain where
  "regdom_AT = \<lparr>alpha2 = code ''AT'', dfs_region = NL80211_DFS_ETSI, reg_rules =
     [REG_RULE_EXT 2400 2483 40 0 20 0 0,
      REG_RULE_EXT 5150 5250 80 0 23 0 (SKW_RRF_NO_OUTDOOR OR SKW_RRF_AUTO_BW),
      REG_RULE_EXT 5250 5350 80 0 20 0 (SKW_RRF_NO_OUTDOOR OR SKW_RRF_DFS OR SKW_RRF_AUTO_BW),
      REG_RULE_EXT 5470 5725 160 0 27 0 SKW_RRF_DFS,
      REG_RULE_EXT 5725 5875 80 0 14 0 0,
      REG_RULE_EXT 5945 6425 160 0 23 0 SKW_RRF_NO_OUTDOOR,
      REG_RULE_EXT 57000 66000 2160 0 40 0 0]\<rparr>"

definition regdom_AU :: ieee80211_regdomain where
  "regdom_AU = \<lparr>alpha2 = code ''AU'', dfs_region = NL80211_DFS_ETSI, reg_rules =
     [REG_RULE_EXT 915 920 4 0 30 0 0,
      REG_RULE_EXT 920 928 8 0 30 0 0,
      REG_RULE_EXT 2400 2483 40 0 36 0 0,
      REG_RULE_EXT 5150 5250 80 0 23 0 (SKW_RRF_NO_OUTDOOR OR SKW_RRF_AUTO_BW),
      REG_RULE_EXT 5250 5350 80 0 20 0 (SKW_RRF_NO_OUTDOOR OR SKW_RRF_AUTO_BW OR SKW_RRF_DFS),
      REG_RULE_EXT 5470 5600 80 0 27 0 SKW_RRF_DFS,
      REG_RULE_EXT 5650 5730 80 0 27 0 SKW_RRF_DFS,
      REG_RULE_EXT 5730 5850 80 0 36 0 SKW_RRF_AUTO_BW,
      REG_RULE_EXT 5850 5875 20 0 14 0 SKW_RRF_AUTO_BW,
      REG_RULE_EXT 5925 6425 160 0 24 0 SKW_RRF_NO_OUTDOOR,
      REG_RULE_EXT 57000 71000 2160 0 43 0 SKW_RRF_NO_OUTDOOR]\<rparr>"

definition regdom_AW :: ieee80211_regdomain where
  "regdom_AW = \<lparr>alpha2 = code ''AW'', dfs_region = NL80211_DFS_ETSI, reg_rules =
     [REG_RULE_EXT 2402 2482 40 0 20 0 0,
      REG_RULE_EXT 5170 5250 80 0 20 0 SKW_RRF_AUTO_BW,
      REG_RULE_EXT 5250 5330 80 0 20 0 (SKW_RRF_DFS OR SKW_RRF_AUTO_BW),
      REG_RULE_EXT 5490 5710 160 0 27 0 SKW_RRF_DFS]\<rparr>"

definition regdom_AZ :: ieee80211_regdomain where
  "regdom_AZ = \<lparr>alpha2 = code ''AZ'', dfs_region = NL80211_DFS_ETSI, reg_rules =
     [REG_RULE_EXT 2402 2482 40 0 20 0 0,
      REG_RULE_EXT 5170 5250 80 0 18 0 SKW_RRF_AUTO_BW,
      REG_RULE_EXT 5250 5330 80 0 18 0 (SKW_RRF_DFS OR SKW_RRF_AUTO_BW)]\<rparr>"

definition regdom_BA :: ieee80211_regdomain where
  "regdom_BA = \<lparr>alpha2 = code ''BA'', dfs_region = NL80211_DFS_ETSI, reg_rules =
     [REG_RULE_EXT 2400 2483 40 0 20 0 0,
      REG_RULE_EXT 5150 5250 80 0 23 0 (SKW_RRF_NO_OUTDOOR OR SKW_RRF_AUTO_BW),
      REG_RULE_EXT 5250 5350 80 0 20 0 (SKW_RRF_NO_OUTDOOR OR SKW_RRF_DFS OR SKW_RRF_AUTO_BW),
      REG_RULE_EXT 5470 5725 160 0 27 0 SKW_RRF_DFS,
      REG_RULE_EXT 5725 5875 80 0 14 0 0,
      REG_RULE_EXT 57000 66000 2160 0 40 0 0]\<rparr>"

definition regdom_BB :: ieee80211_regdomain where
  "regdom_BB = \<lparr>alpha2 = code ''BB'', dfs_region = NL80211_DFS_FCC, reg_rules =
     [REG_RULE_EXT 2402 2482 40 0 20 0 0,
      REG_RULE_EXT 5170 5250 80 0 23 0 SKW_RRF_AUTO_BW,
      REG_RULE_EXT 5250 5330 80 0 23 0 (SKW_RRF_DFS OR SKW_RRF_AUTO_BW),
      REG_RULE_EXT 5735 5835 80 0 30 0 0]\<rparr>"

definition regdom_BD :: ieee80211_regdomain where
  "regdom_BD = \<lparr>alpha2 = code ''BD'', dfs_region = NL80211_DFS_JP, reg_rules =
     [REG_RULE_EXT 2402 2482 40 0 20 0 0,
      REG_RULE_EXT 5735 5835 80 0 30 0 0]\<rparr>"

definition regdom_BE :: ieee80211_regdomain where
  "regdom_BE = \<lparr>alpha2 = code ''BE'', dfs_region = NL80211_DFS_ETSI, reg_rules =
     [REG_RULE_EXT 2400 2483 40 0 20 0 0,
      REG_RULE_EXT 5150 5250 80 0 23 0 (SKW_RRF_NO_OUTDOOR OR SKW_RRF_AUTO_BW),
      REG_RULE_EXT 5250 5350 80 0 20 0 (SKW_RRF_NO_OUTDOOR OR SKW_RRF_DFS OR SKW_RRF_AUTO_BW),
      REG_RULE_EXT 5470 5725 160 0 27 0 SKW_RRF_DFS,
      REG_RULE_EXT 5725 5875 80 0 14 0 0,
      REG_RULE_EXT 5945 6425 160 0 23 0 SKW_RRF_NO_OUTDOOR,
      REG_RULE_EXT 57000 66000 2160 0 40 0 0]\<rparr>"

definition regdom_BF :: ieee80211_regdomain where
  "regdom_BF = \<lparr>alpha2 = code ''BF'', dfs_region = NL80211_DFS_FCC, reg_rules =
     [REG_RULE_EXT 2402 2482 40 0 20 0 0,
      REG_RULE_EXT 5170 5250 80 0 17 0 SKW_RRF_AUTO_BW,
      REG_RULE_EXT 5250 5330 80 0 24 0 (SKW_RRF_DFS OR SKW_RRF_AUTO_BW),
      REG_RULE_EXT 5490 5730 160 0 24 0 SKW_RRF_DFS,
      REG_RULE_EXT 5735 5835 80 0 30 0 0]\<rparr>"

definition regdom_BG :: ieee80211_regdomain where
  "regdom_BG = \<lparr>alpha2 = code ''BG'', dfs_region = NL80211_DFS_ETSI, reg_rules =
     [REG_RULE_EXT 2400 2483 40 0 20 0 0,
      REG_RULE_EXT 5150 5250 80 0 23 0 (SKW_RRF_NO_OUTDOOR OR SKW_RRF_AUTO_BW),
      REG_RULE_EXT 5250 5350 80 0 20 0 (SKW_RRF_NO_OUTDOOR OR SKW_RRF_DFS OR SKW_RRF_AUTO_BW),
      REG_RULE_EXT 5470 5725 160 0 27 0 SKW_RRF_DFS,
      REG_RULE_EXT 5725 5875 80 0 14 0 0,
      REG_RULE_EXT 5945 6425 160 0 23 0 SKW_RRF_NO_OUTDOOR,
      REG_RULE_EXT 57000 66000 2160 0 40 0 0]\<rparr>"

definition regdom_BH :: ieee80211_regdomain where
  "regdom_BH = \<lparr>alpha2 = code ''BH'', dfs_region = NL80211_DFS_ETSI, reg_rules =
     [REG_RULE_EXT 2400 2483 40 0 20 0 0,
      REG_RULE_EXT 5150 5350 80 0 23 0 (SKW_RRF_DFS OR SKW_RRF_NO_OUTDOOR),
      REG_RULE_EXT 5470 5725 80 0 27 0 SKW_RRF_DFS,
      REG_RULE_EXT 5725 5875 80 0 24 0 SKW_RRF_DFS,
      REG_RULE_EXT 5925 6425 320 0 23 0 SKW_RRF_NO_OUTDOOR,
      REG_RULE_EXT 57000 66000 2160 0 40 0 SKW_RRF_NO_OUTDOOR]\<rparr>"

definition regdom_BL :: ieee80211_regdomain where
  "regdom_BL = \<lparr>alpha2 = code ''BL'', dfs_region = NL80211_DFS_ETSI, reg_rules =
     [REG_RULE_EXT 2402 2482 40 0 20 0 0,
      REG_RULE_EXT 5170 5250 80 0 20 0 SKW_RRF_AUTO_BW,
      REG_RULE_EXT 5250 5330 80 0 20 0 (SKW_RRF_DFS OR SKW_RRF_AUTO_BW),
      REG_RULE_EXT 5490 5710 160 0 27 0 SKW_RRF_DFS]\<rparr>"

definition regdom_BM :: ieee80211_regdomain where
  "regdom_BM = \<lparr>alpha2 = code ''BM'', dfs_region = NL80211_DFS_FCC, reg_rules =
     [REG_RULE_EXT 2402 2472 40 0 30 0 0,
      REG_RULE_EXT 5170 5250 80 0 24 0 SKW_RRF_AUTO_BW,
      REG_RULE_EXT 5250 5330 80 0 24 0 (SKW_RRF_DFS OR SKW_RRF_AUTO_BW),
      REG_RULE_EXT 5490 5730 160 0 24 0 SKW_RRF_DFS,
      REG_RULE_EXT 5735 5835 80 0 30 0 0]\<rparr>"

definition regdom_BN :: ieee80211_regdomain where
  "regdom_BN = \<lparr>alpha2 = code ''BN'', dfs_region = NL80211_DFS_JP, reg_rules =
     [REG_RULE_EXT 2402 2482 40 0 20 0 0,
      REG_RULE_EXT 5170 5250 80 0 20 0 SKW_RRF_AUTO_BW,
      REG_RULE_EXT 5250 5330 80 0 20 0 (SKW_RRF_DFS OR SKW_RRF_AUTO_BW),
      REG_RULE_EXT 5735 5835 80 0 20 0 0]\<rparr>"

definition regdom_BO :: ieee80211_regdomain where
  "regdom_BO = \<lparr>alpha2 = code ''BO'', dfs_region = NL80211_DFS_JP, reg_rules =
     [REG_RULE_EXT 2402 2482 40 0 20 0 0,
      REG_RULE_EXT 5250 5330 80 0 30 0 SKW_RRF_DFS,
      REG_RULE_EXT 5735 5835 80 0 30 0 0]\<rparr>"

definition regdom_BR :: ieee80211_regdomain where
  "regdom_BR = \<lparr>alpha2 = code ''BR'', dfs_region = NL80211_DFS_FCC, reg_rules =
     [REG_RULE_EXT 2400 2483 40 0 30 0 0,
      REG_RULE_EXT 5150 5250 80 0 27 0 (SKW_RRF_NO_OUTDOOR OR SKW_RRF_AUTO_BW),
      REG_RULE_EXT 5250 5350 80 0 27 0 (SKW_RRF_NO_OUTDOOR OR SKW_RRF_DFS OR SKW_RRF_AUTO_BW),
      REG_RULE_EXT 5470 5725 160 0 27 0 (SKW_RRF_DFS OR SKW_RRF_AUTO_BW),
      REG_RULE_EXT 5725 5850 80 0 30 0 SKW_RRF_AUTO_BW,
      REG_RULE_EXT 5925 7125 320 0 12 0 (SKW_RRF_NO_OUTDOOR OR SKW_RRF_NO_IR),
      REG_RULE_EXT 57000 71000 2160 0 40 0 0]\<rparr>"

definition regdom_BS :: ieee80211_regdomain where
  "regdom_BS = \<lparr>alpha2 = code ''BS'', dfs_region = NL80211_DFS_FCC, reg_rules =
     [REG_RULE_EXT 2402 2482 40 0 20 0 0,
      REG_RULE_EXT 5170 5250 80 0 24 0 SKW_RRF_AUTO_BW,
      REG_RULE_EXT 5250 5330 80 0 24 0 (SKW_RRF_DFS OR SKW_RRF_AUTO_BW),
      REG_RULE_EXT 5490 5730 160 0 24 0 SKW_RRF_DFS,
      REG_RULE_EXT 5735 5835 80 0 30 0 0]\<rparr>"

definition regdom_BT :: ieee80211_regdomain where
  "regdom_BT = \<lparr>alpha2 = code ''BT'', dfs_region = NL80211_DFS_ETSI, reg_rules =
     [REG_RULE_EXT 2402 2482 40 0 20 0 0,
      REG_RULE_EXT 5170 5250 80 0 20 0 SKW_RRF_AUTO_BW,
      REG_RULE_EXT 5250 5330 80 0 20 0 (SKW_RRF_DFS OR SKW_RRF_AUTO_BW),
      REG_RULE_EXT 5490 5710 160 0 27 0 SKW_RRF_DFS]\<rparr>"

definition regdom_BY :: ieee80211_regdomain where
  "regdom_BY = \<lparr>alpha2 = code ''BY'', dfs_region = NL80211_DFS_ETSI, reg_rules =
     [REG_RULE_EXT 2402 2482 40 0 20 0 0,
      REG_RULE_EXT 5170 5250 80 0 20 0 SKW_RRF_AUTO_BW,
      REG_RULE_EXT 5250 5330 80 0 20 0 (SKW_RRF_DFS OR SKW_RRF_AUTO_BW),
      REG_RULE_EXT 5490 5710 160 0 27 0 SKW_RRF_DFS]\<rparr>"

definition regdom_BZ :: ieee80211_regdomain where
  "regdom_BZ = \<lparr>alpha2 = code ''BZ'', dfs_region = NL80211_DFS_JP, reg_rules =
     [REG_RULE_EXT 2402 2482 40 0 30 0 0,
      REG_RULE_EXT 5735 5835 80 0 30 0 0]\<rparr>"

definition regdom_CA :: ieee80211_regdomain where
  "regdom_CA = \<lparr>alpha2 = code ''CA'', dfs_region = NL80211_DFS_FCC, reg_rules =
     [REG_RULE_EXT 2402 2472 40 0 30 0 0,
      REG_RULE_EXT 5150 5250 80 0 23 0 (SKW_RRF_NO_OUTDOOR OR SKW_RRF_AUTO_BW),
      REG_RULE_EXT 5250 5350 80 0 24 0 (SKW_RRF_DFS OR SKW_RRF_AUTO_BW),
      REG_RULE_EXT 5470 5600 80 0 24 0 SKW_RRF_DFS,
      REG_RULE_EXT 5650 5730 80 0 24 0 SKW_RRF_DFS,
      REG_RULE_EXT 5735 5835 80 0 30 0 0,
      REG_RULE_EXT 5925 7125 320 0 12 0 SKW_RRF_NO_OUTDOOR]\<rparr>"

definition regdom_CF :: ieee80211_regdomain where
  "regdom_CF = \<lparr>alpha2 = code ''CF'', dfs_region = NL80211_DFS_FCC, reg_rules =
     [REG_RULE_EXT 2402 2482 40 0 20 0 0,
      REG_RULE_EXT 5170 5250 40 0 17 0 0,
      REG_RULE_EXT 5250 5330 40 0 24 0 SKW_RRF_DFS,
      REG_RULE_EXT 5490 5730 40 0 24 0 SKW_RRF_DFS,
      REG_RULE_EXT 5735 5835 40 0 30 0 0]\<rparr>"

definition regdom_CH :: ieee80211_regdomain where
  "regdom_CH = \<lparr>alpha2 = code ''CH'', dfs_region = NL80211_DFS_ETSI, reg_rules =
     [REG_RULE_EXT 2400 2483 40 0 20 0 0,
      REG_RULE_EXT 5150 5250 80 0 23 0 (SKW_RRF_NO_OUTDOOR OR SKW_RRF_AUTO_BW),
      REG_RULE_EXT 5250 5350 80 0 20 0 (SKW_RRF_NO_OUTDOOR OR SKW_RRF_DFS OR SKW_RRF_AUTO_BW),
      REG_RULE_EXT 5470 5725 160 0 27 0 SKW_RRF_DFS,
      REG_RULE_EXT 5725 5875 80 0 14 0 0,
      REG_RULE_EXT 5945 6425 160 0 23 0 SKW_RRF_NO_OUTDOOR,
      REG_RULE_EXT 57000 71000 2160 0 40 0 0]\<rparr>"

definition regdom_CI :: ieee80211_regdomain where
  "regdom_CI = \<lparr>alpha2 = code ''CI'', dfs_region = NL80211_DFS_FCC, reg_rules =
     [REG_RULE_EXT 2402 2482 40 0 20 0 0,
      REG_RULE_EXT 5170 5250 80 0 17 0 SKW_RRF_AUTO_BW,
      REG_RULE_EXT 5250 5330 80 0 24 0 (SKW_RRF_DFS OR SKW_RRF_AUTO_BW),
      REG_RULE_EXT 5490 5730 160 0 24 0 SKW_RRF_DFS,
      REG_RULE_EXT 5735 5835 80 0 30 0 0]\<rparr>"

definition regdom_CL :: ieee80211_regdomain where
  "regdom_CL = \<lparr>alpha2 = code ''CL'', dfs_region = NL80211_DFS_JP, reg_rules =
     [REG_RULE_EXT 2402 2482 40 0 20 0 0,
      REG_RULE_EXT 5170 5250 80 0 20 0 SKW_RRF_AUTO_BW,
      REG_RULE_EXT 5250 5330 80 0 20 0 (SKW_RRF_DFS OR SKW_RRF_AUTO_BW),
      REG_RULE_EXT 5735 5835 80 0 20 0 0,
      REG_RULE_EXT 5925 6425 320 0 12 0 SKW_RRF_NO_OUTDOOR]\<rparr>"

definition regdom_CN :: ieee80211_regdomain where
  "regdom_CN = \<lparr>alpha2 = code ''CN'', dfs_region = NL80211_DFS_FCC, reg_rules =
     [REG_RULE_EXT 2400 2483 40 0 20 0 0,
      REG_RULE_EXT 5150 5250 80 0 23 0 (SKW_RRF_NO_OUTDOOR OR SKW_RRF_AUTO_BW),
      REG_RULE_EXT 5250 5350 80 0 20 0 (SKW_RRF_NO_OUTDOOR OR SKW_RRF_DFS OR SKW_RRF_AUTO_BW),
      REG_RULE_EXT 5725 5850 80 0 33 0 0,
      REG_RULE_EXT 57240 59400 2160 0 28 0 0,
      REG_RULE_EXT 59400 63720 2160 0 44 0 0,
      REG_RULE_EXT 63720 65880 2160 0 28 0 0]\<rparr>"

definition regdom_CO :: ieee80211_regdomain where
  "regdom_CO = \<lparr>alpha2 = code ''CO'', dfs_region = NL80211_DFS_FCC, reg_rules =
     [REG_RULE_EXT 2402 2482 40 0 20 0 0,
      REG_RULE_EXT 5170 5250 80 0 17 0 SKW_RRF_AUTO_BW,
      REG_RULE_EXT 5250 5330 80 0 24 0 (SKW_RRF_DFS OR SKW_RRF_AUTO_BW),
      REG_RULE_EXT 5490 5730 160 0 24 0 SKW_RRF_DFS,
      REG_RULE_EXT 5735 5835 80 0 30 0 0,
      REG_RULE_EXT 5925 7125 320 0 12 0 SKW_RRF_NO_OUTDOOR]\<rparr>"

definition regdom_CR :: ieee80211_regdomain where
  "regdom_CR = \<lparr>alpha2 = code ''CR'', dfs_region = NL80211_DFS_FCC, reg_rules =
     [REG_RULE_EXT 2402 2482 40 0 36 0 0,
      REG_RULE_EXT 5170 5250 20 0 30 0 0,
      REG_RULE_EXT 5250 5330 20 0 30 0 SKW_RRF_DFS,
      REG_RULE_EXT 5490 5730 20 0 30 0 SKW_RRF_DFS,
      REG_RULE_EXT 5735 5835 20 0 36 0 0,
      REG_RULE_EXT 5875 5925 20 0 30 0 0,
      REG_RULE_EXT 5925 7125 320 0 30 0 SKW_RRF_NO_OUTDOOR]\<rparr>"

definition regdom_CU :: ieee80211_regdomain where
  "regdom_CU = \<lparr>alpha2 = code ''CU'', dfs_region = NL80211_DFS_FCC, reg_rules =
     [REG_RULE_EXT 2400 2483 40 0 23 0 0,
      REG_RULE_EXT 5150 5350 80 0 23 0 (SKW_RRF_NO_IR OR SKW_RRF_NO_OUTDOOR),
      REG_RULE_EXT 5470 5725 80 0 24 0 SKW_RRF_NO_IR,
      REG_RULE_EXT 5725 5850 80 0 23 0 0]\<rparr>"

definition regdom_CX :: ieee80211_regdomain where
  "regdom_CX = \<lparr>alpha2 = code ''CX'', dfs_region = NL80211_DFS_FCC, reg_rules =
     [REG_RULE_EXT 2402 2482 40 0 20 0 0,
      REG_RULE_EXT 5170 5250 80 0 24 0 SKW_RRF_AUTO_BW,
      REG_RULE_EXT 5250 5330 80 0 24 0 (SKW_RRF_DFS OR SKW_RRF_AUTO_BW),
      REG_RULE_EXT 5490 5730 160 0 24 0 SKW_RRF_DFS,
      REG_RULE_EXT 5735 5835 80 0 30 0 0]\<rparr>"

definition regdom_CY :: ieee80211_regdomain where
  "regdom_CY = \<lparr>alpha2 = code ''CY'', dfs_region = NL80211_DFS_ETSI, reg_rules =
     [REG_RULE_EXT 2400 2483 40 0 20 0 0,
      REG_RULE_EXT 5150 5250 80 0 23 0 (SKW_RRF_NO_OUTDOOR OR SKW_RRF_AUTO_BW),
      REG_RULE_EXT 5250 5350 80 0 20 0 (SKW_RRF_NO_OUTDOOR OR SKW_RRF_DFS OR SKW_RRF_AUTO_BW),
      REG_RULE_EXT 5470 5725 160 0 27 0 SKW_RRF_DFS,
      REG_RULE_EXT 5725 5875 80 0 14 0 0,
      REG_RULE_EXT 5945 6425 160 0 23 0 SKW_RRF_NO_OUTDOOR,
      REG_RULE_EXT 57000 66000 2160 0 40 0 0]\<rparr>"

definition regdom_CZ :: ieee80211_regdomain where
  "regdom_CZ = \<lparr>alpha2 = code ''CZ'', dfs_region = NL80211_DFS_ETSI, reg_rules =
     [REG_RULE_EXT 2400 2483 40 0 20 0 0,
      REG_RULE_EXT 5150 5250 80 0 23 0 (SKW_RRF_NO_OUTDOOR OR SKW_RRF_AUTO_BW),
      REG_RULE_EXT 5250 5350 80 0 20 0 (SKW_RRF_NO_OUTDOOR OR SKW_RRF_DFS OR SKW_RRF_AUTO_BW),
      REG_RULE_EXT 5470 5725 160 0 27 0 SKW_RRF_DFS,
      REG_RULE_EXT 5725 5875 80 0 14 0 0,
      REG_RULE_EXT 5945 6425 160 0 23 0 SKW_RRF_NO_OUTDOOR,
      REG_RULE_EXT 57000 66000 2160 0 40 0 0]\<rparr>"

definition regdom_DE :: ieee80211_regdomain where
  "regdom_DE = \<lparr>alpha2 = code ''DE'', dfs_region = NL80211_DFS_ETSI, reg_rules =
     [REG_RULE_EXT 2400 2483 40 0 20 0 0,
      REG_RULE_EXT 5150 5250 80 0 23 0 (SKW_RRF_NO_OUTDOOR OR SKW_RRF_AUTO_BW),
      REG_RULE_EXT 5250 5350 80 0 20 0 (SKW_RRF_NO_OUTDOOR OR SKW_RRF_DFS OR SKW_RRF_AUTO_BW),
      REG_RULE_EXT 5470 5725 160 0 27 0 SKW_RRF_DFS,
      REG_RULE_EXT 5725 5875 80 0 14 0 0,
      REG_RULE_EXT 5945 6425 160 0 23 0 SKW_RRF_NO_OUTDOOR,
      REG_RULE_EXT 57000 66000 2160 0 40 0 0]\<rparr>"

definition regdom_DK :: ieee80211_regdomain where
  "regdom_DK = \<lparr>alpha2 = code ''DK'', dfs_region = NL80211_DFS_ETSI, reg_rules =
     [REG_RULE_EXT 2400 2483 40 0 20 0 0,
      REG_RULE_EXT 5150 5250 80 0 23 0 (SKW_RRF_NO_OUTDOOR OR SKW_RRF_AUTO_BW),
      REG_RULE_EXT 5250 5350 80 0 20 0 (SKW_RRF_NO_OUTDOOR OR SKW_RRF_DFS OR SKW_RRF_AUTO_BW),
      REG_RULE_EXT 5470 5725 160 0 27 0 SKW_RRF_DFS,
      REG_RULE_EXT 5725 5875 80 0 14 0 0,
      REG_RULE_EXT 5945 6425 160 0 23 0 SKW_RRF_NO_OUTDOOR,
      REG_RULE_EXT 57000 66000 2160 0 40 0 0]\<rparr>"

definition regdom_DM :: ieee80211_regdomain where
  "regdom_DM = \<lparr>alpha2 = code ''DM'', dfs_region = NL80211_DFS_FCC, reg_rules =
     [REG_RULE_EXT 2402 2472 40 0 30 0 0,
      REG_RULE_EXT 5170 5250 80 0 17 0 SKW_RRF_AUTO_BW,
      REG_RULE_EXT 5250 5330 80 0 23 0 (SKW_RRF_DFS OR SKW_RRF_AUTO_BW),
      REG_RULE_EXT 5735 5835 80 0 30 0 0]\<rparr>"

definition regdom_DO :: ieee80211_regdomain where
  "regdom_DO = \<lparr>alpha2 = code ''DO'', dfs_region = NL80211_DFS_FCC, reg_rules =
     [REG_RULE_EXT 2402 2472 40 0 30 0 0,
      REG_RULE_EXT 5170 5250 80 0 17 0 SKW_RRF_AUTO_BW,
      REG_RULE_EXT 5250 5330 80 0 23 0 (SKW_RRF_DFS OR SKW_RRF_AUTO_BW),
      REG_RULE_EXT 5735 5835 80 0 30 0 0,
      REG_RULE_EXT 5925 7125 320 0 15 0 SKW_RRF_NO_OUTDOOR]\<rparr>"

definition regdom_DZ :: ieee80211_regdomain where
  "regdom_DZ = \<lparr>alpha2 = code ''DZ'', dfs_region = NL80211_DFS_JP, reg_rules =
     [REG_RULE_EXT 2402 2482 40 0 20 0 0,
      REG_RULE_EXT 5170 5250 80 0 23 0 SKW_RRF_AUTO_BW,
      REG_RULE_EXT 5250 5330 80 0 23 0 (SKW_RRF_DFS OR SKW_RRF_AUTO_BW),
      REG_RULE_EXT 5490 5670 160 0 23 0 SKW_RRF_DFS]\<rparr>"

definition regdom_EC :: ieee80211_regdomain where
  "regdom_EC = \<lparr>alpha2 = code ''EC'', dfs_region = NL80211_DFS_FCC, reg_rules =
     [REG_RULE_EXT 2400 2483 40 0 30 0 0,
      REG_RULE_EXT 5150 5250 80 0 17 0 (SKW_RRF_AUTO_BW OR SKW_RRF_DFS),
      REG_RULE_EXT 5250 5350 80 0 21 0 (SKW_RRF_AUTO_BW OR SKW_RRF_DFS),
      REG_RULE_EXT 5470 5725 160 0 21 0 SKW_RRF_DFS,
      REG_RULE_EXT 5725 5850 80 0 30 0 0]\<rparr>"

definition regdom_EE :: ieee80211_regdomain where
  "regdom_EE = \<lparr>alpha2 = code ''EE'', dfs_region = NL80211_DFS_ETSI, reg_rules =
     [REG_RULE_EXT 2400 2483 40 0 20 0 0,
      REG_RULE_EXT 5150 5250 80 0 23 0 (SKW_RRF_NO_OUTDOOR OR SKW_RRF_AUTO_BW),
      REG_RULE_EXT 5250 5350 80 0 20 0 (SKW_RRF_NO_OUTDOOR OR SKW_RRF_DFS OR SKW_RRF_AUTO_BW),
      REG_RULE_EXT 5470 5725 160 0 27 0 SKW_RRF_DFS,
      REG_RULE_EXT 5725 5875 80 0 14 0 0,
      REG_RULE_EXT 5945 6425 160 0 23 0 SKW_RRF_NO_OUTDOOR,
      REG_RULE_EXT 57000 66000 2160 0 40 0 0]\<rparr>"

definition regdom_EG :: ieee80211_regdomain where
  "regdom_EG = \<lparr>alpha2 = code ''EG'', dfs_region = NL80211_DFS_ETSI, reg_rules =
     [REG_RULE_EXT 2402 2483 40 0 20 0 0,
      REG_RULE_EXT 5150 5250 80 0 23 0 SKW_RRF_AUTO_BW,
      REG_RULE_EXT 5250 5350 80 0 20 0 (SKW_RRF_DFS OR SKW_RRF_AUTO_BW),
      REG_RULE_EXT 57000 66000 2160 0 40 0 0]\<rparr>"

definition regdom_ES :: ieee80211_regdomain where
  "regdom_ES = \<lparr>alpha2 = code ''ES'', dfs_region = NL80211_DFS_ETSI, reg_rules =
     [REG_RULE_EXT 2400 2483 40 0 20 0 0,
      REG_RULE_EXT 5150 5250 80 0 23 0 (SKW_RRF_NO_OUTDOOR OR SKW_RRF_AUTO_BW),
      REG_RULE_EXT 5250 5350 80 0 20 0 (SKW_RRF_NO_OUTDOOR OR SKW_RRF_DFS OR SKW_RRF_AUTO_BW),
      REG_RULE_EXT 5470 5725 160 0 27 0 SKW_RRF_DFS,
      REG_RULE_EXT 5725 5875 80 0 14 0 0,
      REG_RULE_EXT 5945 6425 160 0 23 0 SKW_RRF_NO_OUTDOOR,
      REG_RULE_EXT 57000 66000 2160 0 40 0 0]\<rparr>"

definition regdom_ET :: ieee80211_regdomain where
  "regdom_ET = \<lparr>alpha2 = code ''ET'', dfs_region = NL80211_DFS_ETSI, reg_rules =
     [REG_RULE_EXT 2402 2482 40 0 20 0 0,
      REG_RULE_EXT 5170 5250 80 0 20 0 SKW_RRF_AUTO_BW,
      REG_RULE_EXT 5250 5330 80 0 20 0 (SKW_RRF_DFS OR SKW_RRF_AUTO_BW),
      REG_RULE_EXT 5490 5710 160 0 27 0 SKW_RRF_DFS]\<rparr>"

definition regdom_FI :: ieee80211_regdomain where
  "regdom_FI = \<lparr>alpha2 = code ''FI'', dfs_region = NL80211_DFS_ETSI, reg_rules =
     [REG_RULE_EXT 2400 2483 40 0 20 0 0,
      REG_RULE_EXT 5150 5250 80 0 23 0 (SKW_RRF_NO_OUTDOOR OR SKW_RRF_AUTO_BW),
      REG_RULE_EXT 5250 5350 80 0 20 0 (SKW_RRF_NO_OUTDOOR OR SKW_RRF_DFS OR SKW_RRF_AUTO_BW),
      REG_RULE_EXT 5470 5725 160 0 27 0 SKW_RRF_DFS,
      REG_RULE_EXT 5725 5875 80 0 14 0 0,
      REG_RULE_EXT 5945 6425 160 0 23 0 SKW_RRF_NO_OUTDOOR,
      REG_RULE_EXT 57000 66000 2160 0 40 0 0]\<rparr>"

definition regdom_FM :: ieee80211_regdomain where
  "regdom_FM = \<lparr>alpha2 = code ''FM'', dfs_region = NL80211_DFS_FCC, reg_rules =
     [REG_RULE_EXT 2402 2472 40 0 30 0 0,
      REG_RULE_EXT 5170 5250 80 0 24 0 SKW_RRF_AUTO_BW,
      REG_RULE_EXT 5250 5330 80 0 24 0 (SKW_RRF_DFS OR SKW_RRF_AUTO_BW),
      REG_RULE_EXT 5490 5730 160 0 24 0 SKW_RRF_DFS,
      REG_RULE_EXT 5735 5835 80 0 30 0 0]\<rparr>"

definition regdom_FR :: ieee80211_regdomain where
  "regdom_FR = \<lparr>alpha2 = code ''FR'', dfs_region = NL80211_DFS_ETSI, reg_rules =
     [REG_RULE_EXT 2400 2483 40 0 20 0 0,
      REG_RULE_EXT 5150 5250 80 0 23 0 (SKW_RRF_NO_OUTDOOR OR SKW_RRF_AUTO_BW),
      REG_RULE_EXT 5250 5350 80 0 20 0 (SKW_RRF_NO_OUTDOOR OR SKW_RRF_DFS OR SKW_RRF_AUTO_BW),
      REG_RULE_EXT 5470 5725 160 0 27 0 SKW_RRF_DFS,
      REG_RULE_EXT 5725 5875 80 0 14 0 0,
      REG_RULE_EXT 5945 6425 160 0 23 0 SKW_RRF_NO_OUTDOOR,
      REG_RULE_EXT 57000 71000 2160 0 40 0 0]\<rparr>"

definition regdom_GB :: ieee80211_regdomain where
  "regdom_GB = \<lparr>alpha2 = code ''GB'', dfs_region = NL80211_DFS_ETSI, reg_rules =
     [REG_RULE_EXT 2400 2483 40 0 20 0 0,
      REG_RULE_EXT 5150 5250 80 0 23 0 (SKW_RRF_NO_OUTDOOR OR SKW_RRF_AUTO_BW),
      REG_RULE_EXT 5250 5350 80 0 20 0 (SKW_RRF_NO_OUTDOOR OR SKW_RRF_DFS OR SKW_RRF_AUTO_BW),
      REG_RULE_EXT 5470 5730 160 0 27 0 SKW_RRF_DFS,
      REG_RULE_EXT 5725 5850 80 0 23 0 SKW_RRF_NO_OUTDOOR,
      REG_RULE_EXT 5925 6425 160 0 24 0 SKW_RRF_NO_OUTDOOR,
      REG_RULE_EXT 57000 71000 2160 0 40 0 0]\<rparr>"

definition regdom_GD :: ieee80211_regdomain where
  "regdom_GD = \<lparr>alpha2 = code ''GD'', dfs_region = NL80211_DFS_FCC, reg_rules =
     [REG_RULE_EXT 2402 2472 40 0 30 0 0,
      REG_RULE_EXT 5170 5250 80 0 17 0 SKW_RRF_AUTO_BW,
      REG_RULE_EXT 5250 5330 80 0 24 0 (SKW_RRF_DFS OR SKW_RRF_AUTO_BW),
      REG_RULE_EXT 5490 5730 160 0 24 0 SKW_RRF_DFS,
      REG_RULE_EXT 5735 5835 80 0 30 0 0]\<rparr>"

definition regdom_GE :: ieee80211_regdomain where
  "regdom_GE = \<lparr>alpha2 = code ''GE'', dfs_region = NL80211_DFS_ETSI, reg_rules =
     [REG_RULE_EXT 2402 2482 40 0 20 0 0,
      REG_RULE_EXT 5170 5250 80 0 18 0 SKW_RRF_AUTO_BW,
      REG_RULE_EXT 5250 5330 80 0 18 0 (SKW_RRF_DFS OR SKW_RRF_AUTO_BW),
      REG_RULE_EXT 57000 66000 2160 0 40 0 0]\<rparr>"

definition regdom_GF :: ieee80211_regdomain where
  "regdom_GF = \<lparr>alpha2 = code ''GF'', dfs_region = NL80211_DFS_ETSI, reg_rules =
     [REG_RULE_EXT 2402 2482 40 0 20 0 0,
      REG_RULE_EXT 5170 5250 80 0 20 0 SKW_RRF_AUTO_BW,
      REG_RULE_EXT 5250 5330 80 0 20 0 (SKW_RRF_DFS OR SKW_RRF_AUTO_BW),
      REG_RULE_EXT 5490 5710 160 0 27 0 SKW_RRF_DFS]\<rparr>"

definition regdom_GH :: ieee80211_regdomain where
  "regdom_GH = \<lparr>alpha2 = code ''GH'', dfs_region = NL80211_DFS_FCC, reg_rules =
     [REG_RULE_EXT 2402 2482 40 0 20 0 0,
      REG_RULE_EXT 5170 5250 80 0 17 0 SKW_RRF_AUTO_BW,
      REG_RULE_EXT 5250 5330 80 0 24 0 (SKW_RRF_DFS OR SKW_RRF_AUTO_BW),
      REG_RULE_EXT 5490 5730 160 0 24 0 SKW_RRF_DFS,
      REG_RULE_EXT 5735 5835 80 0 30 0 0]\<rparr>"

definition regdom_GL :: ieee80211_regdomain where
  "regdom_GL = \<lparr>alpha2 = code ''GL'', dfs_region = NL80211_DFS_ETSI, reg_rules =
     [REG_RULE_EXT 2402 2482 40 0 20 0 0,
      REG_RULE_EXT 5170 5250 80 0 20 0 SKW_RRF_AUTO_BW,
      REG_RULE_EXT 5250 5330 80 0 20 0 (SKW_RRF_DFS OR SKW_RRF_AUTO_BW),
      REG_RULE_EXT 5490 5710 160 0 27 0 SKW_RRF_DFS]\<rparr>"

definition regdom_GP :: ieee80211_regdomain where
  "regdom_GP = \<lparr>alpha2 = code ''GP'', dfs_region = NL80211_DFS_ETSI, reg_rules =
     [REG_RULE_EXT 2402 2482 40 0 20 0 0,
      REG_RULE_EXT 5170 5250 80 0 20 0 SKW_RRF_AUTO_BW,
      REG_RULE_EXT 5250 5330 80 0 20 0 (SKW_RRF_DFS OR SKW_RRF_AUTO_BW),
      REG_RULE_EXT 5490 5710 160 0 27 0 SKW_RRF_DFS]\<rparr>"

definition regdom_GR :: ieee80211_regdomain where
  "regdom_GR = \<lparr>alpha2 = code ''GR'', dfs_region = NL80211_DFS_ETSI, reg_rules =
     [REG_RULE_EXT 2400 2483 40 0 20 0 0,
      REG_RULE_EXT 5150 5250 80 0 23 0 (SKW_RRF_NO_OUTDOOR OR SKW_RRF_AUTO_BW),
      REG_RULE_EXT 5250 5350 80 0 20 0 (SKW_RRF_NO_OUTDOOR OR SKW_RRF_DFS OR SKW_RRF_AUTO_BW),
      REG_RULE_EXT 5470 5725 160 0 27 0 SKW_RRF_DFS,
      REG_RULE_EXT 5725 5875 80 0 14 0 0,
      REG_RULE_EXT 5945 6425 160 0 23 0 SKW_RRF_NO_OUTDOOR,
      REG_RULE_EXT 57000 66000 2160 0 40 0 0]\<rparr>"

definition regdom_GT :: ieee80211_regdomain where
  "regdom_GT = \<lparr>alpha2 = code ''GT'', dfs_region = NL80211_DFS_UNSET, reg_rules =
     [REG_RULE_EXT 2400 2483 40 0 27 0 0,
      REG_RULE_EXT 5150 5350 80 0 23 0 SKW_RRF_NO_OUTDOOR,
      REG_RULE_EXT 5470 5725 160 0 24 0 SKW_RRF_NO_OUTDOOR,
      REG_RULE_EXT 5725 5850 160 0 27 0 SKW_RRF_NO_OUTDOOR,
      REG_RULE_EXT 5925 6425 320 0 23 0 (SKW_RRF_NO_OUTDOOR OR SKW_RRF_AUTO_BW),
      REG_RULE_EXT 6425 6525 320 0 23 0 (SKW_RRF_NO_OUTDOOR OR SKW_RRF_AUTO_BW),
      REG_RULE_EXT 6525 6875 320 0 22 0 (SKW_RRF_NO_OUTDOOR OR SKW_RRF_AUTO_BW),
      REG_RULE_EXT 6875 7125 320 0 22 0 (SKW_RRF_NO_OUTDOOR OR SKW_RRF_AUTO_BW),
      REG_RULE_EXT 57000 66000 2160 0 13 0 SKW_RRF_NO_OUTDOOR]\<rparr>"

definition regdom_GU :: ieee80211_regdomain where
  "regdom_GU = \<lparr>alpha2 = code ''GU'', dfs_region = NL80211_DFS_FCC, reg_rules =
     [REG_RULE_EXT 2402 2472 40 0 30 0 0,
      REG_RULE_EXT 5170 5250 20 0 17 0 0,
      REG_RULE_EXT 5250 5330 20 0 24 0 SKW_RRF_DFS,
      REG_RULE_EXT 5490 5730 20 0 24 0 SKW_RRF_DFS,
      REG_RULE_EXT 5735 5835 20 0 30 0 0]\<rparr>"

definition regdom_GY :: ieee80211_regdomain where
  "regdom_GY = \<lparr>alpha2 = code ''GY'', dfs_region = NL80211_DFS_UNSET, reg_rules =
     [REG_RULE_EXT 2402 2482 40 0 30 0 0,
      REG_RULE_EXT 5170 5250 80 0 23 0 SKW_RRF_AUTO_BW,
      REG_RULE_EXT 5250 5330 80 0 23 0 (SKW_RRF_DFS OR SKW_RRF_AUTO_BW),
      REG_RULE_EXT 5490 5730 160 0 23 0 SKW_RRF_DFS,
      REG_RULE_EXT 5735 5835 80 0 30 0 0]\<rparr>"

definition regdom_HK :: ieee80211_regdomain where
  "regdom_HK = \<lparr>alpha2 = code ''HK'', dfs_region = NL80211_DFS_ETSI, reg_rules =
     [REG_RULE_EXT 2400 2483 40 0 36 0 0,
      REG_RULE_EXT 5150 5250 80 0 23 0 (SKW_RRF_AUTO_BW OR SKW_RRF_NO_OUTDOOR),
      REG_RULE_EXT 5250 5350 80 0 23 0 (SKW_RRF_DFS OR SKW_RRF_AUTO_BW OR SKW_RRF_NO_OUTDOOR),
      REG_RULE_EXT 5470 5730 160 0 27 0 SKW_RRF_DFS,
      REG_RULE_EXT 5730 5850 80 0 36 0 0,
      REG_RULE_EXT 5925 6425 160 0 14 0 0]\<rparr>"

definition regdom_HN :: ieee80211_regdomain where
  "regdom_HN = \<lparr>alpha2 = code ''HN'', dfs_region = NL80211_DFS_FCC, reg_rules =
     [REG_RULE_EXT 2402 2482 40 0 20 0 0,
      REG_RULE_EXT 5170 5250 80 0 17 0 SKW_RRF_AUTO_BW,
      REG_RULE_EXT 5250 5330 80 0 24 0 (SKW_RRF_DFS OR SKW_RRF_AUTO_BW),
      REG_RULE_EXT 5490 5730 160 0 24 0 SKW_RRF_DFS,
      REG_RULE_EXT 5735 5835 80 0 30 0 0,
      REG_RULE_EXT 5925 6425 320 0 12 0 (SKW_RRF_NO_OUTDOOR OR SKW_RRF_NO_IR),
      REG_RULE_EXT 57240 71000 2160 0 40 0 0]\<rparr>"

definition regdom_HR :: ieee80211_regdomain where
  "regdom_HR = \<lparr>alpha2 = code ''HR'', dfs_region = NL80211_DFS_ETSI, reg_rules =
     [REG_RULE_EXT 2400 2483 40 0 20 0 0,
      REG_RULE_EXT 5150 5250 80 0 23 0 SKW_RRF_AUTO_BW,
      REG_RULE_EXT 5250 5350 80 0 23 0 (SKW_RRF_DFS OR SKW_RRF_AUTO_BW),
      REG_RULE_EXT 5470 5725 160 0 27 0 SKW_RRF_DFS,
      REG_RULE_EXT 5725 5875 80 0 14 0 0,
      REG_RULE_EXT 5945 6425 160 0 23 0 SKW_RRF_NO_OUTDOOR,
      REG_RULE_EXT 57000 66000 2160 0 40 0 0]\<rparr>"

definition regdom_HT :: ieee80211_regdomain where
  "regdom_HT = \<lparr>alpha2 = code ''HT'', dfs_region = NL80211_DFS_FCC, reg_rules =
     [REG_RULE_EXT 2402 2472 40 0 30 0 0,
      REG_RULE_EXT 5170 5250 80 0 24 0 SKW_RRF_AUTO_BW,
      REG_RULE_EXT 5250 5330 80 0 24 0 (SKW_RRF_DFS OR SKW_RRF_AUTO_BW),
      REG_RULE_EXT 5490 5730 160 0 24 0 SKW_RRF_DFS,
      REG_RULE_EXT 5735 5835 80 0 30 0 0]\<rparr>"

definition regdom_HU :: ieee80211_regdomain where
  "regdom_HU = \<lparr>alpha2 = code ''HU'', dfs_region = NL80211_DFS_ETSI, reg_rules =
     [REG_RULE_EXT 2400 2483 40 0 20 0 0,
      REG_RULE_EXT 5150 5250 80 0 23 0 (SKW_RRF_NO_OUTDOOR OR SKW_RRF_AUTO_BW),
      REG_RULE_EXT 5250 5350 80 0 20 0 (SKW_RRF_NO_OUTDOOR OR SKW_RRF_DFS OR SKW_RRF_AUTO_BW),
      REG_RULE_EXT 5470 5725 160 0 27 0 SKW_RRF_DFS,
      REG_RULE_EXT 5725 5875 80 0 14 0 0,
      REG_RULE_EXT 5945 6425 160 0 23 0 SKW_RRF_NO_OUTDOOR,
      REG_RULE_EXT 57000 66000 2160 0 40 0 0]\<rparr>"

definition regdom_ID :: ieee80211_regdomain where
  "regdom_ID = \<lparr>alpha2 = code ''ID'', dfs_region = NL80211_DFS_JP, reg_rules =
     [REG_RULE_EXT 2400 2483 40 0 27 0 SKW_RRF_NO_OUTDOOR,
      REG_RULE_EXT 5150 5350 80 0 23 0 SKW_RRF_NO_OUTDOOR,
      REG_RULE_EXT 5725 5825 80 0 23 0 SKW_RRF_NO_OUTDOOR]\<rparr>"

definition regdom_IE :: ieee80211_regdomain where
  "regdom_IE = \<lparr>alpha2 = code ''IE'', dfs_region = NL80211_DFS_ETSI, reg_rules =
     [REG_RULE_EXT 2400 2483 40 0 20 0 0,
      REG_RULE_EXT 5150 5250 80 0 23 0 (SKW_RRF_NO_OUTDOOR OR SKW_RRF_AUTO_BW),
      REG_RULE_EXT 5250 5350 80 0 20 0 (SKW_RRF_NO_OUTDOOR OR SKW_RRF_DFS OR SKW_RRF_AUTO_BW),
      REG_RULE_EXT 5470 5725 160 0 27 0 SKW_RRF_DFS,
      REG_RULE_EXT 5725 5875 80 0 14 0 0,
      REG_RULE_EXT 5945 6425 160 0 23 0 SKW_RRF_NO_OUTDOOR,
      REG_RULE_EXT 57000 66000 2160 0 40 0 0]\<rparr>"

definition regdom_IL :: ieee80211_regdomain where
  "regdom_IL = \<lparr>alpha2 = code ''IL'', dfs_region = NL80211_DFS_ETSI, reg_rules =
     [REG_RULE_EXT 2400 2483 40 0 20 0 0,
      REG_RULE_EXT 5150 5250 80 0 23 0 (SKW_RRF_NO_OUTDOOR OR SKW_RRF_AUTO_BW),
      REG_RULE_EXT 5250 5350 80 0 20 0 (SKW_RRF_NO_OUTDOOR OR SKW_RRF_DFS OR SKW_RRF_AUTO_BW),
      REG_RULE_EXT 5470 5725 160 0 27 0 (SKW_RRF_NO_OUTDOOR OR SKW_RRF_DFS OR SKW_RRF_AUTO_BW),
      REG_RULE_EXT 5725 5875 80 0 14 0 SKW_RRF_AUTO_BW,
      REG_RULE_EXT 5945 6425 320 0 23 0 SKW_RRF_NO_OUTDOOR]\<rparr>"

definition regdom_IN :: ieee80211_regdomain where
  "regdom_IN = \<lparr>alpha2 = code ''IN'', dfs_region = NL80211_DFS_UNSET, reg_rules =
     [REG_RULE_EXT 2402 2482 40 0 30 0 0,
      REG_RULE_EXT 5150 5250 80 0 30 0 0,
      REG_RULE_EXT 5250 5350 80 0 24 0 SKW_RRF_DFS,
      REG_RULE_EXT 5470 5725 160 0 24 0 SKW_RRF_DFS,
      REG_RULE_EXT 5725 5875 80 0 30 0 0]\<rparr>"

definition regdom_IR :: ieee80211_regdomain where
  "regdom_IR = \<lparr>alpha2 = code ''IR'', dfs_region = NL80211_DFS_JP, reg_rules =
     [REG_RULE_EXT 2402 2482 40 0 20 0 0,
      REG_RULE_EXT 5735 5835 80 0 30 0 0]\<rparr>"

definition regdom_IS :: ieee80211_regdomain where
  "regdom_IS = \<lparr>alpha2 = code ''IS'', dfs_region = NL80211_DFS_ETSI, reg_rules =
     [REG_RULE_EXT 2400 2483 40 0 20 0 0,
      REG_RULE_EXT 5150 5250 80 0 23 0 (SKW_RRF_NO_OUTDOOR OR SKW_RRF_AUTO_BW),
      REG_RULE_EXT 5250 5350 80 0 20 0 (SKW_RRF_NO_OUTDOOR OR SKW_RRF_DFS OR SKW_RRF_AUTO_BW),
      REG_RULE_EXT 5470 5725 160 0 27 0 SKW_RRF_DFS,
      REG_RULE_EXT 5725 5875 80 0 14 0 0,
      REG_RULE_EXT 5945 6425 320 0 23 0 SKW_RRF_NO_OUTDOOR,
      REG_RULE_EXT 57000 66000 2160 0 40 0 0]\<rparr>"

definition regdom_IT :: ieee80211_regdomain where
  "regdom_IT = \<lparr>alpha2 = code ''IT'', dfs_region = NL80211_DFS_ETSI, reg_rules =
     [REG_RULE_EXT 2400 2483 40 0 20 0 0,
      REG_RULE_EXT 5150 5250 80 0 23 0 (SKW_RRF_NO_OUTDOOR OR SKW_RRF_AUTO_BW),
      REG_RULE_EXT 5250 5350 80 0 20 0 (SKW_RRF_NO_OUTDOOR OR SKW_RRF_DFS OR SKW_RRF_AUTO_BW),
      REG_RULE_EXT 5470 5725 160 0 27 0 SKW_RRF_DFS,
      REG_RULE_EXT 5725 5875 80 0 14 0 0,
      REG_RULE_EXT 5945 6425 160 0 23 0 SKW_RRF_NO_OUTDOOR,
      REG_RULE_EXT 57000 66000 2160 0 40 0 0]\<rparr>"

definition regdom_JM :: ieee80211_regdomain where
  "regdom_JM = \<lparr>alpha2 = code ''JM'', dfs_region = NL80211_DFS_FCC, reg_rules =
     [REG_RULE_EXT 2402 2482 40 0 20 0 0,
      REG_RULE_EXT 5170 5250 80 0 17 0 SKW_RRF_AUTO_BW,
      REG_RULE_EXT 5250 5330 80 0 24 0 (SKW_RRF_DFS OR SKW_RRF_AUTO_BW),
      REG_RULE_EXT 5490 5730 160 0 24 0 SKW_RRF_DFS,
      REG_RULE_EXT 5735 5835 80 0 30 0 0]\<rparr>"

definition regdom_JO :: ieee80211_regdomain where
  "regdom_JO = \<lparr>alpha2 = code ''JO'', dfs_region = NL80211_DFS_ETSI, reg_rules =
     [REG_RULE_EXT 2400 2483 40 0 20 0 0,
      REG_RULE_EXT 5150 5250 80 0 23 0 SKW_RRF_AUTO_BW,
      REG_RULE_EXT 5250 5350 80 0 23 0 (SKW_RRF_DFS OR SKW_RRF_AUTO_BW),
      REG_RULE_EXT 5470 5725 80 0 27 0 (SKW_RRF_DFS OR SKW_RRF_NO_OUTDOOR),
      REG_RULE_EXT 5725 5875 80 0 23 0 SKW_RRF_NO_OUTDOOR,
      REG_RULE_EXT 5925 6425 320 0 23 0 SKW_RRF_NO_OUTDOOR,
      REG_RULE_EXT 57000 71000 2160 0 40 0 0]\<rparr>"

definition regdom_JP :: ieee80211_regdomain where
  "regdom_JP = \<lparr>alpha2 = code ''JP'', dfs_region = NL80211_DFS_JP, reg_rules =
     [REG_RULE_EXT 2402 2482 40 0 20 0 0,
      REG_RULE_EXT 2474 2494 20 0 20 0 SKW_RRF_NO_OFDM,
      REG_RULE_EXT 4910 4990 40 0 23 0 0,
      REG_RULE_EXT 5170 5250 80 0 20 0 SKW_RRF_AUTO_BW,
      REG_RULE_EXT 5250 5330 80 0 20 0 (SKW_RRF_DFS OR SKW_RRF_AUTO_BW),
      REG_RULE_EXT 5490 5730 160 0 23 0 SKW_RRF_DFS,
      REG_RULE_EXT 5925 6425 320 0 23 0 SKW_RRF_NO_OUTDOOR,
      REG_RULE_EXT 57000 66000 2160 0 10 0 0]\<rparr>"

definition regdom_KE :: ieee80211_regdomain where
  "regdom_KE = \<lparr>alpha2 = code ''KE'', dfs_region = NL80211_DFS_ETSI, reg_rules =
     [REG_RULE_EXT 2400 2483 40 0 33 0 0,
      REG_RULE_EXT 5150 5250 80 0 17 0 SKW_RRF_AUTO_BW,
      REG_RULE_EXT 5250 5350 80 0 17 0 (SKW_RRF_DFS OR SKW_RRF_AUTO_BW),
      REG_RULE_EXT 5470 5725 80 0 24 0 SKW_RRF_DFS,
      REG_RULE_EXT 5725 5875 40 0 24 0 SKW_RRF_DFS,
      REG_RULE_EXT 5925 6425 320 0 23 0 SKW_RRF_NO_OUTDOOR]\<rparr>"

definition regdom_KH :: ieee80211_regdomain where
  "regdom_KH = \<lparr>alpha2 = code ''KH'', dfs_region = NL80211_DFS_ETSI, reg_rules =
     [REG_RULE_EXT 2402 2482 40 0 20 0 0,
      REG_RULE_EXT 5170 5250 80 0 20 0 SKW_RRF_AUTO_BW,
      REG_RULE_EXT 5250 5330 80 0 20 0 (SKW_RRF_DFS OR SKW_RRF_AUTO_BW),
      REG_RULE_EXT 5490 5710 160 0 27 0 SKW_RRF_DFS]\<rparr>"

definition regdom_KN :: ieee80211_regdomain where
  "regdom_KN = \<lparr>alpha2 = code ''KN'', dfs_region = NL80211_DFS_ETSI, reg_rules =
     [REG_RULE_EXT 2402 2482 40 0 20 0 0,
      REG_RULE_EXT 5170 5250 80 0 20 0 SKW_RRF_AUTO_BW,
      REG_RULE_EXT 5250 5330 80 0 20 0 (SKW_RRF_DFS OR SKW_RRF_AUTO_BW),
      REG_RULE_EXT 5490 5710 160 0 30 0 SKW_RRF_DFS,
      REG_RULE_EXT 5735 5815 80 0 30 0 0]\<rparr>"

definition regdom_KP :: ieee80211_regdomain where
  "regdom_KP = \<lparr>alpha2 = code ''KP'', dfs_region = NL80211_DFS_JP, reg_rules =
     [REG_RULE_EXT 2402 2482 20 0 20 0 0,
      REG_RULE_EXT 5170 5250 20 0 20 0 0,
      REG_RULE_EXT 5250 5330 20 0 20 0 SKW_RRF_DFS,
      REG_RULE_EXT 5490 5630 20 0 30 0 SKW_RRF_DFS,
      REG_RULE_EXT 5735 5815 20 0 30 0 0]\<rparr>"

definition regdom_KR :: ieee80211_regdomain where
  "regdom_KR = \<lparr>alpha2 = code ''KR'', dfs_region = NL80211_DFS_JP, reg_rules =
     [REG_RULE_EXT 2400 2483 40 0 23 0 0,
      REG_RULE_EXT 5150 5230 40 0 23 0 SKW_RRF_AUTO_BW,
      REG_RULE_EXT 5230 5250 20 0 17 0 SKW_RRF_AUTO_BW,
      REG_RULE_EXT 5250 5350 80 0 20 0 (SKW_RRF_DFS OR SKW_RRF_AUTO_BW),
      REG_RULE_EXT 5470 5725 160 0 20 0 SKW_RRF_DFS,
      REG_RULE_EXT 5725 5850 80 0 23 0 0,
      REG_RULE_EXT 5925 7125 160 0 15 0 SKW_RRF_NO_OUTDOOR,
      REG_RULE_EXT 57000 66000 2160 0 43 0 0]\<rparr>"

definition regdom_KW :: ieee80211_regdomain where
  "regdom_KW = \<lparr>alpha2 = code ''KW'', dfs_region = NL80211_DFS_ETSI, reg_rules =
     [REG_RULE_EXT 2400 2483 40 0 20 0 0,
      REG_RULE_EXT 5170 5250 80 0 23 0 SKW_RRF_AUTO_BW,
      REG_RULE_EXT 5250 5350 80 0 17 0 (SKW_RRF_DFS OR SKW_RRF_AUTO_BW),
      REG_RULE_EXT 5470 5825 160 0 24 0 SKW_RRF_DFS,
      REG_RULE_EXT 5925 6425 320 0 23 0 SKW_RRF_NO_OUTDOOR]\<rparr>"

definition regdom_KY :: ieee80211_regdomain where
  "regdom_KY = \<lparr>alpha2 = code ''KY'', dfs_region = NL80211_DFS_FCC, reg_rules =
     [REG_RULE_EXT 2402 2482 40 0 20 0 0,
      REG_RULE_EXT 5170 5250 80 0 24 0 SKW_RRF_AUTO_BW,
      REG_RULE_EXT 5250 5330 80 0 24 0 (SKW_RRF_DFS OR SKW_RRF_AUTO_BW),
      REG_RULE_EXT 5490 5730 160 0 24 0 SKW_RRF_DFS,
      REG_RULE_EXT 5735 5835 80 0 30 0 0]\<rparr>"

definition regdom_KZ :: ieee80211_regdomain where
  "regdom_KZ = \<lparr>alpha2 = code ''KZ'', dfs_region = NL80211_DFS_ETSI, reg_rules =
     [REG_RULE_EXT 2400 2483 40 0 20 0 0,
      REG_RULE_EXT 5150 5250 80 0 23 0 (SKW_RRF_NO_OUTDOOR OR SKW_RRF_AUTO_BW),
      REG_RULE_EXT 5250 5350 80 0 20 0 (SKW_RRF_NO_OUTDOOR OR SKW_RRF_DFS OR SKW_RRF_AUTO_BW),
      REG_RULE_EXT 5470 5725 160 0 20 0 (SKW_RRF_NO_OUTDOOR OR SKW_RRF_DFS),
      REG_RULE_EXT 5725 5850 80 0 20 0 SKW_RRF_NO_OUTDOOR,
      REG_RULE_EXT 57000 66000 2160 0 40 0 0]\<rparr>"

definition regdom_LB :: ieee80211_regdomain where
  "regdom_LB = \<lparr>alpha2 = code ''LB'', dfs_region = NL80211_DFS_FCC, reg_rules =
     [REG_RULE_EXT 2402 2482 40 0 20 0 0,
      REG_RULE_EXT 5170 5250 80 0 17 0 SKW_RRF_AUTO_BW,
      REG_RULE_EXT 5250 5330 80 0 24 0 (SKW_RRF_DFS OR SKW_RRF_AUTO_BW),
      REG_RULE_EXT 5490 5730 160 0 24 0 SKW_RRF_DFS,
      REG_RULE_EXT 5735 5835 80 0 30 0 0]\<rparr>"

definition regdom_LC :: ieee80211_regdomain where
  "regdom_LC = \<lparr>alpha2 = code ''LC'', dfs_region = NL80211_DFS_ETSI, reg_rules =
     [REG_RULE_EXT 2402 2482 40 0 20 0 0,
      REG_RULE_EXT 5170 5250 80 0 20 0 SKW_RRF_AUTO_BW,
      REG_RULE_EXT 5250 5330 80 0 20 0 (SKW_RRF_DFS OR SKW_RRF_AUTO_BW),
      REG_RULE_EXT 5490 5710 160 0 30 0 SKW_RRF_DFS,
      REG_RULE_EXT 5735 5815 80 0 30 0 0]\<rparr>"

definition regdom_LI :: ieee80211_regdomain where
  "regdom_LI = \<lparr>alpha2 = code ''LI'', dfs_region = NL80211_DFS_ETSI, reg_rules =
     [REG_RULE_EXT 2400 2483 40 0 20 0 0,
      REG_RULE_EXT 5150 5250 80 0 23 0 (SKW_RRF_NO_OUTDOOR OR SKW_RRF_AUTO_BW),
      REG_RULE_EXT 5250 5350 80 0 20 0 (SKW_RRF_NO_OUTDOOR OR SKW_RRF_DFS OR SKW_RRF_AUTO_BW),
      REG_RULE_EXT 5470 5725 160 0 27 0 SKW_RRF_DFS,
      REG_RULE_EXT 5725 5875 80 0 14 0 0,
      REG_RULE_EXT 5945 6425 320 0 23 0 SKW_RRF_NO_OUTDOOR,
      REG_RULE_EXT 57000 66000 2160 0 40 0 0]\<rparr>"

definition regdom_LK :: ieee80211_regdomain where
  "regdom_LK = \<lparr>alpha2 = code ''LK'', dfs_region = NL80211_DFS_FCC, reg_rules =
     [REG_RULE_EXT 2402 2482 40 0 20 0 0,
      REG_RULE_EXT 5170 5250 20 0 17 0 0,
      REG_RULE_EXT 5250 5330 20 0 24 0 SKW_RRF_DFS,
      REG_RULE_EXT 5490 5730 20 0 24 0 SKW_RRF_DFS,
      REG_RULE_EXT 5735 5835 20 0 30 0 0]\<rparr>"

definition regdom_LS :: ieee80211_regdomain where
  "regdom_LS = \<lparr>alpha2 = code ''LS'', dfs_region = NL80211_DFS_ETSI, reg_rules =
     [REG_RULE_EXT 2402 2482 40 0 20 0 0,
      REG_RULE_EXT 5170 5250 80 0 20 0 SKW_RRF_AUTO_BW,
      REG_RULE_EXT 5250 5330 80 0 20 0 (SKW_RRF_DFS OR SKW_RRF_AUTO_BW),
      REG_RULE_EXT 5490 5710 160 0 27 0 SKW_RRF_DFS]\<rparr>"

definition regdom_LT :: ieee80211_regdomain where
  "regdom_LT = \<lparr>alpha2 = code ''LT'', dfs_region = NL80211_DFS_ETSI, reg_rules =
     [REG_RULE_EXT 2400 2483 40 0 20 0 0,
      REG_RULE_EXT 5150 5250 80 0 23 0 (SKW_RRF_NO_OUTDOOR OR SKW_RRF_AUTO_BW),
      REG_RULE_EXT 5250 5350 80 0 20 0 (SKW_RRF_NO_OUTDOOR OR SKW_RRF_DFS OR SKW_RRF_AUTO_BW),
      REG_RULE_EXT 5470 5725 160 0 27 0 SKW_RRF_DFS,
      REG_RULE_EXT 5725 5875 80 0 14 0 0,
      REG_RULE_EXT 5945 6425 160 0 23 0 SKW_RRF_NO_OUTDOOR,
      REG_RULE_EXT 57000 66000 2160 0 40 0 0]\<rparr>"

definition regdom_LU :: ieee80211_regdomain where
  "regdom_LU = \<lparr>alpha2 = code ''LU'', dfs_region = NL80211_DFS_ETSI, reg_rules =
     [REG_RULE_EXT 2400 2483 40 0 20 0 0,
      REG_RULE_EXT 5150 5250 80 0 23 0 (SKW_RRF_NO_OUTDOOR OR SKW_RRF_AUTO_BW),
      REG_RULE_EXT 5250 5350 80 0 20 0 (SKW_RRF_NO_OUTDOOR OR SKW_RRF_DFS OR SKW_RRF_AUTO_BW),
      REG_RULE_EXT 5470 5725 160 0 27 0 SKW_RRF_DFS,
      REG_RULE_EXT 5725 5875 80 0 14 0 0,
      REG_RULE_EXT 5945 6425 160 0 23 0 SKW_RRF_NO_OUTDOOR,
      REG_RULE_EXT 57000 66000 2160 0 40 0 0]\<rparr>"

definition regdom_LV :: ieee80211_regdomain where
  "regdom_LV = \<lparr>alpha2 = code ''LV'', dfs_region = NL80211_DFS_ETSI, reg_rules =
     [REG_RULE_EXT 2400 2483 40 0 20 0 0,
      REG_RULE_EXT 5150 5250 80 0 23 0 (SKW_RRF_NO_OUTDOOR OR SKW_RRF_AUTO_BW),
      REG_RULE_EXT 5250 5350 80 0 20 0 (SKW_RRF_NO_OUTDOOR OR SKW_RRF_DFS OR SKW_RRF_AUTO_BW),
      REG_RULE_EXT 5470 5725 160 0 27 0 SKW_RRF_DFS,
      REG_RULE_EXT 5725 5875 80 0 14 0 0,
      REG_RULE_EXT 5945 6425 160 0 23 0 SKW_RRF_NO_OUTDOOR,
      REG_RULE_EXT 57000 66000 2160 0 40 0 0]\<rparr>"

definition regdom_MA :: ieee80211_regdomain where
  "regdom_MA = \<lparr>alpha2 = code ''MA'', dfs_region = NL80211_DFS_ETSI, reg_rules =
     [REG_RULE_EXT 2402 2482 40 0 20 0 0,
      REG_RULE_EXT 5170 5250 80 0 20 0 SKW_RRF_AUTO_BW,
      REG_RULE_EXT 5250 5330 80 0 20 0 (SKW_RRF_DFS OR SKW_RRF_AUTO_BW),
      REG_RULE_EXT 5925 6425 320 0 23 0 SKW_RRF_NO_OUTDOOR]\<rparr>"

definition regdom_MC :: ieee80211_regdomain where
  "regdom_MC = \<lparr>alpha2 = code ''MC'', dfs_region = NL80211_DFS_ETSI, reg_rules =
     [REG_RULE_EXT 2400 2483 40 0 20 0 0,
      REG_RULE_EXT 5150 5250 80 0 23 0 (SKW_RRF_NO_OUTDOOR OR SKW_RRF_AUTO_BW),
      REG_RULE_EXT 5250 5350 80 0 20 0 (SKW_RRF_NO_OUTDOOR OR SKW_RRF_DFS OR SKW_RRF_AUTO_BW),
      REG_RULE_EXT 5470 5725 160 0 27 0 SKW_RRF_DFS,
      REG_RULE_EXT 5725 5875 80 0 14 0 0]\<rparr>"

definition regdom_MD :: ieee80211_regdomain where
  "regdom_MD = \<lparr>alpha2 = code ''MD'', dfs_region = NL80211_DFS_ETSI, reg_rules =
     [REG_RULE_EXT 2400 2483 40 0 20 0 0,
      REG_RULE_EXT 5150 5250 80 0 23 0 (SKW_RRF_NO_OUTDOOR OR SKW_RRF_AUTO_BW),
      REG_RULE_EXT 5250 5350 80 0 20 0 (SKW_RRF_NO_OUTDOOR OR SKW_RRF_DFS OR SKW_RRF_AUTO_BW),
      REG_RULE_EXT 5470 5725 160 0 27 0 SKW_RRF_DFS,
      REG_RULE_EXT 5725 5875 80 0 14 0 0]\<rparr>"

definition regdom_ME :: ieee80211_regdomain where
  "regdom_ME = \<lparr>alpha2 = code ''ME'', dfs_region = NL80211_DFS_ETSI, reg_rules =
     [REG_RULE_EXT 2400 2483 40 0 20 0 0,
      REG_RULE_EXT 5150 5250 80 0 23 0 (SKW_RRF_NO_OUTDOOR OR SKW_RRF_AUTO_BW),
      REG_RULE_EXT 5250 5350 80 0 20 0 (SKW_RRF_NO_OUTDOOR OR SKW_RRF_DFS OR SKW_RRF_AUTO_BW),
      REG_RULE_EXT 5470 5725 160 0 27 0 SKW_RRF_DFS,
      REG_RULE_EXT 5725 5875 80 0 14 0 0]\<rparr>"

definition regdom_MF :: ieee80211_regdomain where
  "regdom_MF = \<lparr>alpha2 = code ''MF'', dfs_region = NL80211_DFS_ETSI, reg_rules =
     [REG_RULE_EXT 2402 2482 40 0 20 0 0,
      REG_RULE_EXT 5170 5250 80 0 20 0 SKW_RRF_AUTO_BW,
      REG_RULE_EXT 5250 5330 80 0 20 0 (SKW_RRF_DFS OR SKW_RRF_AUTO_BW),
      REG_RULE_EXT 5490 5710 160 0 27 0 SKW_RRF_DFS]\<rparr>"

definition regdom_MH :: ieee80211_regdomain where
  "regdom_MH = \<lparr>alpha2 = code ''MH'', dfs_region = NL80211_DFS_FCC, reg_rules =
     [REG_RULE_EXT 2402 2472 40 0 30 0 0,
      REG_RULE_EXT 5170 5250 80 0 24 0 SKW_RRF_AUTO_BW,
      REG_RULE_EXT 5250 5330 80 0 24 0 (SKW_RRF_DFS OR SKW_RRF_AUTO_BW),
      REG_RULE_EXT 5490 5730 160 0 24 0 SKW_RRF_DFS,
      REG_RULE_EXT 5735 5835 80 0 30 0 0]\<rparr>"

definition regdom_MK :: ieee80211_regdomain where
  "regdom_MK = \<lparr>alpha2 = code ''MK'', dfs_region = NL80211_DFS_ETSI, reg_rules =
     [REG_RULE_EXT 2400 2483 40 0 20 0 0,
      REG_RULE_EXT 5150 5250 80 0 23 0 (SKW_RRF_NO_OUTDOOR OR SKW_RRF_AUTO_BW),
      REG_RULE_EXT 5250 5350 80 0 20 0 (SKW_RRF_NO_OUTDOOR OR SKW_RRF_DFS OR SKW_RRF_AUTO_BW),
      REG_RULE_EXT 5470 5725 160 0 27 0 SKW_RRF_DFS,
      REG_RULE_EXT 5725 5875 80 0 14 0 0,
      REG_RULE_EXT 57000 66000 2160 0 40 0 0]\<rparr>"

definition regdom_MN :: ieee80211_regdomain where
  "regdom_MN = \<lparr>alpha2 = code ''MN'', dfs_region = NL80211_DFS_FCC, reg_rules =
     [REG_RULE_EXT 2402 2482 40 0 20 0 0,
      REG_RULE_EXT 5170 5250 80 0 24 0 SKW_RRF_AUTO_BW,
      REG_RULE_EXT 5250 5330 80 0 24 0 (SKW_RRF_DFS OR SKW_RRF_AUTO_BW),
      REG_RULE_EXT 5490 5730 160 0 24 0 SKW_RRF_DFS,
      REG_RULE_EXT 5735 5835 80 0 30 0 0,
      REG_RULE_EXT 5925 6425 320 0 100 0 0]\<rparr>"

definition regdom_MO :: ieee80211_regdomain where
  "regdom_MO = \<lparr>alpha2 = code ''MO'', dfs_region = NL80211_DFS_FCC, reg_rules =
     [REG_RULE_EXT 2400 2483 40 0 23 0 0,
      REG_RULE_EXT 5150 5250 80 0 23 0 SKW_RRF_AUTO_BW,
      REG_RULE_EXT 5250 5350 80 0 23 0 (SKW_RRF_DFS OR SKW_RRF_AUTO_BW),
      REG_RULE_EXT 5470 5730 160 0 30 0 SKW_RRF_DFS,
      REG_RULE_EXT 5725 5850 80 0 30 0 0,
      REG_RULE_EXT 5925 6425 320 0 24 0 SKW_RRF_NO_OUTDOOR,
      REG_RULE_EXT 57000 66000 2160 0 40 0 0]\<rparr>"

definition regdom_MP :: ieee80211_regdomain where
  "regdom_MP = \<lparr>alpha2 = code ''MP'', dfs_region = NL80211_DFS_FCC, reg_rules =
     [REG_RULE_EXT 2402 2472 40 0 30 0 0,
      REG_RULE_EXT 5170 5250 80 0 24 0 SKW_RRF_AUTO_BW,
      REG_RULE_EXT 5250 5330 80 0 24 0 (SKW_RRF_DFS OR SKW_RRF_AUTO_BW),
      REG_RULE_EXT 5490 5730 160 0 24 0 SKW_RRF_DFS,
      REG_RULE_EXT 5735 5835 80 0 30 0 0]\<rparr>"

definition regdom_MQ :: ieee80211_regdomain where
  "regdom_MQ = \<lparr>alpha2 = code ''MQ'', dfs_region = NL80211_DFS_ETSI, reg_rules =
     [REG_RULE_EXT 2402 2482 40 0 20 0 0,
      REG_RULE_EXT 5170 5250 80 0 20 0 SKW_RRF_AUTO_BW,
      REG_RULE_EXT 5250 5330 80 0 20 0 (SKW_RRF_DFS OR SKW_RRF_AUTO_BW),
      REG_RULE_EXT 5490 5710 160 0 27 0 SKW_RRF_DFS]\<rparr>"

definition regdom_MR :: ieee80211_regdomain where
  "regdom_MR = \<lparr>alpha2 = code ''MR'', dfs_region = NL80211_DFS_ETSI, reg_rules =
     [REG_RULE_EXT 2402 2482 40 0 20 0 0,
      REG_RULE_EXT 5170 5250 80 0 20 0 SKW_RRF_AUTO_BW,
      REG_RULE_EXT 5250 5330 80 0 20 0 (SKW_RRF_DFS OR SKW_RRF_AUTO_BW),
      REG_RULE_EXT 5490 5710 160 0 27 0 SKW_RRF_DFS]\<rparr>"

definition regdom_MT :: ieee80211_regdomain where
  "regdom_MT = \<lparr>alpha2 = code ''MT'', dfs_region = NL80211_DFS_ETSI, reg_rules =
     [REG_RULE_EXT 2400 2483 40 0 20 0 0,
      REG_RULE_EXT 5150 5250 80 0 23 0 (SKW_RRF_NO_OUTDOOR OR SKW_RRF_AUTO_BW),
      REG_RULE_EXT 5250 5350 80 0 20 0 (SKW_RRF_NO_OUTDOOR OR SKW_RRF_DFS OR SKW_RRF_AUTO_BW),
      REG_RULE_EXT 5470 5725 160 0 27 0 SKW_RRF_DFS,
      REG_RULE_EXT 5725 5875 80 0 14 0 0,
      REG_RULE_EXT 5945 6425 160 0 23 0 SKW_RRF_NO_OUTDOOR,
      REG_RULE_EXT 57000 66000 2160 0 40 0 0]\<rparr>"

definition regdom_MU :: ieee80211_regdomain where
  "regdom_MU = \<lparr>alpha2 = code ''MU'', dfs_region = NL80211_DFS_FCC, reg_rules =
     [REG_RULE_EXT 2402 2482 40 0 20 0 0,
      REG_RULE_EXT 5170 5250 80 0 24 0 SKW_RRF_AUTO_BW,
      REG_RULE_EXT 5250 5330 80 0 24 0 (SKW_RRF_DFS OR SKW_RRF_AUTO_BW),
      REG_RULE_EXT 5490 5730 160 0 24 0 SKW_RRF_DFS,
      REG_RULE_EXT 5735 5835 80 0 30 0 0,
      REG_RULE_EXT 5945 6425 320 0 23 0 SKW_RRF_NO_OUTDOOR]\<rparr>"

definition regdom_MV :: ieee80211_regdomain where
  "regdom_MV = \<lparr>alpha2 = code ''MV'', dfs_region = NL80211_DFS_ETSI, reg_rules =
     [REG_RULE_EXT 2400 2483 40 0 20 0 0,
      REG_RULE_EXT 5150 5250 80 0 23 0 SKW_RRF_AUTO_BW,
      REG_RULE_EXT 5250 5350 80 0 20 0 (SKW_RRF_DFS OR SKW_RRF_AUTO_BW),
      REG_RULE_EXT 5725 5850 80 0 20 0 0]\<rparr>"

definition regdom_MW :: ieee80211_regdomain where
  "regdom_MW = \<lparr>alpha2 = code ''MW'', dfs_region = NL80211_DFS_ETSI, reg_rules =
     [REG_RULE_EXT 2402 2482 40 0 20 0 0,
      REG_RULE_EXT 5170 5250 80 0 20 0 SKW_RRF_AUTO_BW,
      REG_RULE_EXT 5250 5330 80 0 20 0 (SKW_RRF_DFS OR SKW_RRF_AUTO_BW),
      REG_RULE_EXT 5490 5710 160 0 27 0 SKW_RRF_DFS]\<rparr>"

definition regdom_MX :: ieee80211_regdomain where
  "regdom_MX = \<lparr>alpha2 = code ''MX'', dfs_region = NL80211_DFS_FCC, reg_rules =
     [REG_RULE_EXT 2402 2482 40 0 20 0 0,
      REG_RULE_EXT 5170 5250 80 0 17 0 SKW_RRF_AUTO_BW,
      REG_RULE_EXT 5250 5330 80 0 24 0 (SKW_RRF_DFS OR SKW_RRF_AUTO_BW),
      REG_RULE_EXT 5490 5730 160 0 24 0 SKW_RRF_DFS,
      REG_RULE_EXT 5735 5835 80 0 30 0 0,
      REG_RULE_EXT 5925 6425 320 0 12 0 SKW_RRF_NO_OUTDOOR]\<rparr>"

definition regdom_MY :: ieee80211_regdomain where
  "regdom_MY = \<lparr>alpha2 = code ''MY'', dfs_region = NL80211_DFS_FCC, reg_rules =
     [REG_RULE_EXT 2402 2482 40 0 27 0 0,
      REG_RULE_EXT 5170 5250 80 0 30 0 SKW_RRF_AUTO_BW,
      REG_RULE_EXT 5250 5330 80 0 30 0 (SKW_RRF_DFS OR SKW_RRF_AUTO_BW),
      REG_RULE_EXT 5490 5650 160 0 30 0 SKW_RRF_DFS,
      REG_RULE_EXT 5735 5835 80 0 30 0 0,
      REG_RULE_EXT 5925 6425 320 0 23 0 SKW_RRF_NO_OUTDOOR]\<rparr>"

definition regdom_NA :: ieee80211_regdomain where
  "regdom_NA = \<lparr>alpha2 = code ''NA'', dfs_region = NL80211_DFS_ETSI, reg_rules =
     [REG_RULE_EXT 2400 2483 40 0 20 0 0,
      REG_RULE_EXT 5150 5250 80 0 20 0 (SKW_RRF_AUTO_BW OR SKW_RRF_NO_OUTDOOR),
      REG_RULE_EXT 5250 5350 80 0 20 0 (SKW_RRF_DFS OR SKW_RRF_AUTO_BW OR SKW_RRF_NO_OUTDOOR),
      REG_RULE_EXT 5470 5725 160 0 21 0 SKW_RRF_DFS,
      REG_RULE_EXT 5725 5875 80 0 24 0 SKW_RRF_DFS,
      REG_RULE_EXT 5925 6425 320 0 23 0 SKW_RRF_NO_OUTDOOR,
      REG_RULE_EXT 57000 66000 2160 0 40 0 SKW_RRF_NO_OUTDOOR]\<rparr>"

definition regdom_NG :: ieee80211_regdomain where
  "regdom_NG = \<lparr>alpha2 = code ''NG'', dfs_region = NL80211_DFS_ETSI, reg_rules =
     [REG_RULE_EXT 2402 2482 40 0 20 0 0,
      REG_RULE_EXT 5250 5330 80 0 30 0 SKW_RRF_DFS,
      REG_RULE_EXT 5735 5835 80 0 30 0 0]\<rparr>"

definition regdom_NI :: ieee80211_regdomain where
  "regdom_NI = \<lparr>alpha2 = code ''NI'', dfs_region = NL80211_DFS_FCC, reg_rules =
     [REG_RULE_EXT 2402 2472 40 0 30 0 0,
      REG_RULE_EXT 5170 5250 80 0 24 0 SKW_RRF_AUTO_BW,
      REG_RULE_EXT 5250 5330 80 0 24 0 (SKW_RRF_DFS OR SKW_RRF_AUTO_BW),
      REG_RULE_EXT 5490 5730 160 0 24 0 SKW_RRF_DFS,
      REG_RULE_EXT 5735 5835 80 0 30 0 0]\<rparr>"

definition regdom_NL :: ieee80211_regdomain where
  "regdom_NL = \<lparr>alpha2 = code ''NL'', dfs_region = NL80211_DFS_ETSI, reg_rules =
     [REG_RULE_EXT 2400 2483 40 0 20 0 0,
      REG_RULE_EXT 5150 5250 80 0 23 0 (SKW_RRF_NO_OUTDOOR OR SKW_RRF_AUTO_BW),
      REG_RULE_EXT 5250 5350 80 0 20 0 (SKW_RRF_NO_OUTDOOR OR SKW_RRF_DFS OR SKW_RRF_AUTO_BW),
      REG_RULE_EXT 5470 5725 160 0 27 0 SKW_RRF_DFS,
      REG_RULE_EXT 5725 5875 80 0 14 0 0,
      REG_RULE_EXT 5945 6425 160 0 23 0 SKW_RRF_NO_OUTDOOR,
      REG_RULE_EXT 57000 66000 2160 0 40 0 0]\<rparr>"

definition regdom_NO :: ieee80211_regdomain where
  "regdom_NO = \<lparr>alpha2 = code ''NO'', dfs_region = NL80211_DFS_ETSI, reg_rules =
     [REG_RULE_EXT 2400 2483 40 0 20 0 0,
      REG_RULE_EXT 5150 5250 80 0 23 0 (SKW_RRF_NO_OUTDOOR OR SKW_RRF_AUTO_BW),
      REG_RULE_EXT 5250 5350 80 0 20 0 (SKW_RRF_NO_OUTDOOR OR SKW_RRF_DFS OR SKW_RRF_AUTO_BW),
      REG_RULE_EXT 5470 5725 160 0 27 0 SKW_RRF_DFS,
      REG_RULE_EXT 5725 5875 80 0 14 0 0,
      REG_RULE_EXT 5945 6425 160 0 23 0 SKW_RRF_NO_OUTDOOR,
      REG_RULE_EXT 57000 71000 2160 0 40 0 0]\<rparr>"

definition regdom_NP :: ieee80211_regdomain where
  "regdom_NP = \<lparr>alpha2 = code ''NP'', dfs_region = NL80211_DFS_JP, reg_rules =
     [REG_RULE_EXT 2402 2482 40 0 20 0 0,
      REG_RULE_EXT 5170 5250 80 0 20 0 SKW_RRF_AUTO_BW,
      REG_RULE_EXT 5250 5330 80 0 20 0 (SKW_RRF_DFS OR SKW_RRF_AUTO_BW),
      REG_RULE_EXT 5735 5835 80 0 20 0 0]\<rparr>"

definition regdom_NZ :: ieee80211_regdomain where
  "regdom_NZ = \<lparr>alpha2 = code ''NZ'', dfs_region = NL80211_DFS_ETSI, reg_rules =
     [REG_RULE_EXT 2400 2483 40 0 36 0 0,
      REG_RULE_EXT 5150 5250 80 0 30 0 SKW_RRF_AUTO_BW,
      REG_RULE_EXT 5250 5350 80 0 27 0 (SKW_RRF_DFS OR SKW_RRF_AUTO_BW),
      REG_RULE_EXT 5470 5730 160 0 27 0 SKW_RRF_DFS,
      REG_RULE_EXT 5725 5875 80 0 36 0 0,
      REG_RULE_EXT 5925 6425 320 0 24 0 SKW_RRF_NO_OUTDOOR,
      REG_RULE_EXT 57000 71000 2160 0 40 0 0]\<rparr>"

definition regdom_OM :: ieee80211_regdomain where
  "regdom_OM = \<lparr>alpha2 = code ''OM'', dfs_region = NL80211_DFS_ETSI, reg_rules =
     [REG_RULE_EXT 2402 2482 40 0 20 0 0,
      REG_RULE_EXT 5170 5250 80 0 20 0 SKW_RRF_AUTO_BW,
      REG_RULE_EXT 5250 5330 80 0 20 0 (SKW_RRF_DFS OR SKW_RRF_AUTO_BW),
      REG_RULE_EXT 5490 5710 160 0 27 0 SKW_RRF_DFS]\<rparr>"

definition regdom_PA :: ieee80211_regdomain where
  "regdom_PA = \<lparr>alpha2 = code ''PA'', dfs_region = NL80211_DFS_FCC, reg_rules =
     [REG_RULE_EXT 2400 2483 40 0 36 0 0,
      REG_RULE_EXT 5150 5250 80 0 36 0 SKW_RRF_AUTO_BW,
      REG_RULE_EXT 5250 5350 80 0 30 0 SKW_RRF_AUTO_BW,
      REG_RULE_EXT 5470 5725 160 0 30 0 0,
      REG_RULE_EXT 5725 5850 80 0 36 0 0,
      REG_RULE_EXT 57000 64000 2160 0 43 0 0]\<rparr>"

definition regdom_PE :: ieee80211_regdomain where
  "regdom_PE = \<lparr>alpha2 = code ''PE'', dfs_region = NL80211_DFS_FCC, reg_rules =
     [REG_RULE_EXT 2402 2482 40 0 20 0 0,
      REG_RULE_EXT 5170 5250 80 0 17 0 SKW_RRF_AUTO_BW,
      REG_RULE_EXT 5250 5330 80 0 24 0 (SKW_RRF_DFS OR SKW_RRF_AUTO_BW),
      REG_RULE_EXT 5490 5730 160 0 24 0 SKW_RRF_DFS,
      REG_RULE_EXT 5735 5835 80 0 30 0 0,
      REG_RULE_EXT 5925 7125 320 0 12 0 SKW_RRF_NO_OUTDOOR]\<rparr>"

definition regdom_PF :: ieee80211_regdomain where
  "regdom_PF = \<lparr>alpha2 = code ''PF'', dfs_region = NL80211_DFS_ETSI, reg_rules =
     [REG_RULE_EXT 2402 2482 40 0 20 0 0,
      REG_RULE_EXT 5170 5250 80 0 20 0 SKW_RRF_AUTO_BW,
      REG_RULE_EXT 5250 5330 80 0 20 0 (SKW_RRF_DFS OR SKW_RRF_AUTO_BW),
      REG_RULE_EXT 5490 5710 160 0 27 0 SKW_RRF_DFS]\<rparr>"

definition regdom_PG :: ieee80211_regdomain where
  "regdom_PG = \<lparr>alpha2 = code ''PG'', dfs_region = NL80211_DFS_FCC, reg_rules =
     [REG_RULE_EXT 2402 2482 40 0 20 0 0,
      REG_RULE_EXT 5170 5250 80 0 17 0 SKW_RRF_AUTO_BW,
      REG_RULE_EXT 5250 5330 80 0 24 0 (SKW_RRF_DFS OR SKW_RRF_AUTO_BW),
      REG_RULE_EXT 5490 5730 160 0 24 0 SKW_RRF_DFS,
      REG_RULE_EXT 5735 5835 80 0 30 0 0]\<rparr>"

definition regdom_PH :: ieee80211_regdomain where
  "regdom_PH = \<lparr>alpha2 = code ''PH'', dfs_region = NL80211_DFS_FCC, reg_rules =
     [REG_RULE_EXT 2400 2483 40 0 20 0 0,
      REG_RULE_EXT 5150 5250 80 0 23 0 SKW_RRF_AUTO_BW,
      REG_RULE_EXT 5250 5350 80 0 23 0 (SKW_RRF_DFS OR SKW_RRF_AUTO_BW),
      REG_RULE_EXT 5470 5725 160 0 24 0 SKW_RRF_DFS,
      REG_RULE_EXT 5725 5850 80 0 24 0 0,
      REG_RULE_EXT 5925 6425 320 0 24 0 SKW_RRF_NO_OUTDOOR,
      REG_RULE_EXT 57000 66000 2160 0 24 0 0]\<rparr>"

definition regdom_PK :: ieee80211_regdomain where
  "regdom_PK = \<lparr>alpha2 = code ''PK'', dfs_region = NL80211_DFS_UNSET, reg_rules =
     [REG_RULE_EXT 2400 2500 40 0 30 0 0,
      REG_RULE_EXT 5725 5875 80 0 30 0 0,
      REG_RULE_EXT 5945 6425 320 0 23 0 SKW_RRF_NO_OUTDOOR]\<rparr>"

definition regdom_PL :: ieee80211_regdomain where
  "regdom_PL = \<lparr>alpha2 = code ''PL'', dfs_region = NL80211_DFS_ETSI, reg_rules =
     [REG_RULE_EXT 2400 2483 40 0 20 0 0,
      REG_RULE_EXT 5150 5250 80 0 23 0 (SKW_RRF_NO_OUTDOOR OR SKW_RRF_AUTO_BW),
      REG_RULE_EXT 5250 5350 80 0 20 0 (SKW_RRF_NO_OUTDOOR OR SKW_RRF_DFS OR SKW_RRF_AUTO_BW),
      REG_RULE_EXT 5470 5725 160 0 27 0 SKW_RRF_DFS,
      REG_RULE_EXT 5725 5875 80 0 14 0 0,
      REG_RULE_EXT 5945 6425 160 0 23 0 SKW_RRF_NO_OUTDOOR,
      REG_RULE_EXT 57000 66000 2160 0 40 0 0]\<rparr>"

definition regdom_PM :: ieee80211_regdomain where
  "regdom_PM = \<lparr>alpha2 = code ''PM'', dfs_region = NL80211_DFS_ETSI, reg_rules =
     [REG_RULE_EXT 2402 2482 40 0 20 0 0,
      REG_RULE_EXT 5170 5250 80 0 20 0 SKW_RRF_AUTO_BW,
      REG_RULE_EXT 5250 5330 80 0 20 0 (SKW_RRF_DFS OR SKW_RRF_AUTO_BW),
      REG_RULE_EXT 5490 5710 160 0 27 0 SKW_RRF_DFS]\<rparr>"

definition regdom_PR :: ieee80211_regdomain where
  "regdom_PR = \<lparr>alpha2 = code ''PR'', dfs_region = NL80211_DFS_FCC, reg_rules =
     [REG_RULE_EXT 2402 2472 40 0 30 0 0,
      REG_RULE_EXT 5170 5250 80 0 17 0 SKW_RRF_AUTO_BW,
      REG_RULE_EXT 5250 5330 80 0 24 0 (SKW_RRF_DFS OR SKW_RRF_AUTO_BW),
      REG_RULE_EXT 5490 5730 160 0 24 0 SKW_RRF_DFS,
      REG_RULE_EXT 5735 5835 80 0 30 0 0]\<rparr>"

definition regdom_PT :: ieee80211_regdomain where
  "regdom_PT = \<lparr>alpha2 = code ''PT'', dfs_region = NL80211_DFS_ETSI, reg_rules =
     [REG_RULE_EXT 2400 2483 40 0 20 0 0,
      REG_RULE_EXT 5150 5250 80 0 23 0 (SKW_RRF_NO_OUTDOOR OR SKW_RRF_AUTO_BW),
      REG_RULE_EXT 5250 5350 80 0 20 0 (SKW_RRF_NO_OUTDOOR OR SKW_RRF_DFS OR SKW_RRF_AUTO_BW),
      REG_RULE_EXT 5470 5725 160 0 27 0 SKW_RRF_DFS,
      REG_RULE_EXT 5725 5875 80 0 14 0 0,
      REG_RULE_EXT 5945 6425 160 0 23 0 SKW_RRF_NO_OUTDOOR,
      REG_RULE_EXT 57000 66000 2160 0 40 0 0]\<rparr>"

definition regdom_PW :: ieee80211_regdomain where
  "regdom_PW = \<lparr>alpha2 = code ''PW'', dfs_region = NL80211_DFS_FCC, reg_rules =
     [REG_RULE_EXT 2402 2472 40 0 30 0 0,
      REG_RULE_EXT 5170 5250 80 0 24 0 SKW_RRF_AUTO_BW,
      REG_RULE_EXT 5250 5330 80 0 24 0 (SKW_RRF_DFS OR SKW_RRF_AUTO_BW),
      REG_RULE_EXT 5490 5730 160 0 24 0 SKW_RRF_DFS,
      REG_RULE_EXT 5735 5835 80 0 30 0 0]\<rparr>"

definition regdom_PY :: ieee80211_regdomain where
  "regdom_PY = \<lparr>alpha2 = code ''PY'', dfs_region = NL80211_DFS_FCC, reg_rules =
     [REG_RULE_EXT 2402 2482 40 0 20 0 0,
      REG_RULE_EXT 5170 5250 80 0 24 0 SKW_RRF_AUTO_BW,
      REG_RULE_EXT 5250 5330 80 0 24 0 (SKW_RRF_DFS OR SKW_RRF_AUTO_BW),
      REG_RULE_EXT 5490 5730 160 0 24 0 SKW_RRF_DFS,
      REG_RULE_EXT 5735 5835 80 0 30 0 0]\<rparr>"

definition regdom_QA :: ieee80211_regdomain where
  "regdom_QA = \<lparr>alpha2 = code ''QA'', dfs_region = NL80211_DFS_ETSI, reg_rules =
     [REG_RULE_EXT 2400 2483 40 0 20 0 SKW_RRF_NO_OUTDOOR,
      REG_RULE_EXT 5150 5250 80 0 23 0 (SKW_RRF_NO_OUTDOOR OR SKW_RRF_AUTO_BW),
      REG_RULE_EXT 5250 5350 80 0 23 0 (SKW_RRF_NO_OUTDOOR OR SKW_RRF_DFS OR SKW_RRF_AUTO_BW),
      REG_RULE_EXT 5470 5725 160 0 20 0 (SKW_RRF_NO_OUTDOOR OR SKW_RRF_DFS),
      REG_RULE_EXT 5725 5875 80 0 20 0 (SKW_RRF_NO_OUTDOOR OR SKW_RRF_DFS),
      REG_RULE_EXT 5925 6425 320 0 23 0 SKW_RRF_NO_OUTDOOR,
      REG_RULE_EXT 57000 66000 2160 0 40 0 SKW_RRF_NO_OUTDOOR]\<rparr>"

definition regdom_RE :: ieee80211_regdomain where
  "regdom_RE = \<lparr>alpha2 = code ''RE'', dfs_region = NL80211_DFS_ETSI, reg_rules =
     [REG_RULE_EXT 2402 2482 40 0 20 0 0,
      REG_RULE_EXT 5170 5250 80 0 20 0 SKW_RRF_AUTO_BW,
      REG_RULE_EXT 5250 5330 80 0 20 0 (SKW_RRF_DFS OR SKW_RRF_AUTO_BW),
      REG_RULE_EXT 5490 5710 160 0 27 0 SKW_RRF_DFS]\<rparr>"

definition regdom_RO :: ieee80211_regdomain where
  "regdom_RO = \<lparr>alpha2 = code ''RO'', dfs_region = NL80211_DFS_ETSI, reg_rules =
     [REG_RULE_EXT 2400 2483 40 0 20 0 0,
      REG_RULE_EXT 5150 5250 80 0 23 0 (SKW_RRF_NO_OUTDOOR OR SKW_RRF_AUTO_BW),
      REG_RULE_EXT 5250 5350 80 0 20 0 (SKW_RRF_NO_OUTDOOR OR SKW_RRF_DFS OR SKW_RRF_AUTO_BW),
      REG_RULE_EXT 5470 5725 160 0 27 0 SKW_RRF_DFS,
      REG_RULE_EXT 5725 5875 80 0 14 0 0,
      REG_RULE_EXT 5945 6425 160 0 23 0 SKW_RRF_NO_OUTDOOR,
      REG_RULE_EXT 57000 66000 2160 0 40 0 0]\<rparr>"

definition regdom_RS :: ieee80211_regdomain where
  "regdom_RS = \<lparr>alpha2 = code ''RS'', dfs_region = NL80211_DFS_ETSI, reg_rules =
     [REG_RULE_EXT 2400 2483 40 0 20 0 0,
      REG_RULE_EXT 5150 5250 80 0 23 0 SKW_RRF_AUTO_BW,
      REG_RULE_EXT 5250 5350 80 0 23 0 (SKW_RRF_DFS OR SKW_RRF_AUTO_BW),
      REG_RULE_EXT 5470 5725 160 0 27 0 SKW_RRF_DFS,
      REG_RULE_EXT 5725 5850 80 0 24 0 (SKW_RRF_DFS OR SKW_RRF_AUTO_BW),
      REG_RULE_EXT 5850 5875 80 0 24 0 SKW_RRF_AUTO_BW,
      REG_RULE_EXT 5925 6425 320 0 23 0 SKW_RRF_NO_OUTDOOR,
      REG_RULE_EXT 57000 66000 2160 0 40 0 0]\<rparr>"

definition regdom_RU :: ieee80211_regdomain where
  "regdom_RU = \<lparr>alpha2 = code ''RU'', dfs_region = NL80211_DFS_UNSET, reg_rules =
     [REG_RULE_EXT 2400 2483 40 0 100 0 0,
      REG_RULE_EXT 5150 5350 160 0 20 0 SKW_RRF_NO_OUTDOOR,
      REG_RULE_EXT 5650 5850 160 0 20 0 SKW_RRF_NO_OUTDOOR,
      REG_RULE_EXT 5925 6425 160 0 20 0 SKW_RRF_NO_OUTDOOR,
      REG_RULE_EXT 57000 66000 2160 0 40 0 SKW_RRF_NO_OUTDOOR]\<rparr>"

definition regdom_RW :: ieee80211_regdomain where
  "regdom_RW = \<lparr>alpha2 = code ''RW'', dfs_region = NL80211_DFS_FCC, reg_rules =
     [REG_RULE_EXT 2402 2482 40 0 20 0 0,
      REG_RULE_EXT 5170 5250 80 0 17 0 SKW_RRF_AUTO_BW,
      REG_RULE_EXT 5250 5330 80 0 24 0 (SKW_RRF_DFS OR SKW_RRF_AUTO_BW),
      REG_RULE_EXT 5490 5730 160 0 24 0 SKW_RRF_DFS,
      REG_RULE_EXT 5735 5835 80 0 30 0 0]\<rparr>"

definition regdom_SA :: ieee80211_regdomain where
  "regdom_SA = \<lparr>alpha2 = code ''SA'', dfs_region = NL80211_DFS_ETSI, reg_rules =
     [REG_RULE_EXT 2402 2482 40 0 20 0 0,
      REG_RULE_EXT 5170 5250 80 0 20 0 SKW_RRF_AUTO_BW,
      REG_RULE_EXT 5250 5330 80 0 20 0 (SKW_RRF_DFS OR SKW_RRF_AUTO_BW),
      REG_RULE_EXT 5490 5710 160 0 27 0 SKW_RRF_DFS,
      REG_RULE_EXT 5925 7125 320 0 24 0 SKW_RRF_NO_OUTDOOR]\<rparr>"

definition regdom_SE :: ieee80211_regdomain where
  "regdom_SE = \<lparr>alpha2 = code ''SE'', dfs_region = NL80211_DFS_ETSI, reg_rules =
     [REG_RULE_EXT 2400 2483 40 0 20 0 0,
      REG_RULE_EXT 5150 5250 80 0 23 0 (SKW_RRF_NO_OUTDOOR OR SKW_RRF_AUTO_BW),
      REG_RULE_EXT 5250 5350 80 0 20 0 (SKW_RRF_NO_OUTDOOR OR SKW_RRF_DFS OR SKW_RRF_AUTO_BW),
      REG_RULE_EXT 5470 5725 160 0 27 0 SKW_RRF_DFS,
      REG_RULE_EXT 5725 5875 80 0 14 0 0,
      REG_RULE_EXT 5945 6425 160 0 23 0 SKW_RRF_NO_OUTDOOR,
      REG_RULE_EXT 57000 66000 2160 0 40 0 0]\<rparr>"

definition regdom_SG :: ieee80211_regdomain where
  "regdom_SG = \<lparr>alpha2 = code ''SG'', dfs_region = NL80211_DFS_FCC, reg_rules =
     [REG_RULE_EXT 2400 2483 40 0 23 0 0,
      REG_RULE_EXT 5150 5250 80 0 23 0 SKW_RRF_AUTO_BW,
      REG_RULE_EXT 5250 5350 80 0 20 0 (SKW_RRF_DFS OR SKW_RRF_AUTO_BW),
      REG_RULE_EXT 5470 5730 160 0 27 0 SKW_RRF_DFS,
      REG_RULE_EXT 5725 5850 80 0 30 0 0,
      REG_RULE_EXT 5945 6425 320 0 24 0 SKW_RRF_NO_OUTDOOR,
      REG_RULE_EXT 57000 66000 2160 0 40 0 0]\<rparr>"

definition regdom_SI :: ieee80211_regdomain where
  "regdom_SI = \<lparr>alpha2 = code ''SI'', dfs_region = NL80211_DFS_ETSI, reg_rules =
     [REG_RULE_EXT 2400 2483 40 0 20 0 0,
      REG_RULE_EXT 5150 5250 80 0 23 0 (SKW_RRF_NO_OUTDOOR OR SKW_RRF_AUTO_BW),
      REG_RULE_EXT 5250 5350 80 0 20 0 (SKW_RRF_NO_OUTDOOR OR SKW_RRF_DFS OR SKW_RRF_AUTO_BW),
      REG_RULE_EXT 5470 5725 160 0 27 0 SKW_RRF_DFS,
      REG_RULE_EXT 5725 5875 80 0 14 0 0,
      REG_RULE_EXT 5945 6425 160 0 23 0 SKW_RRF_NO_OUTDOOR,
      REG_RULE_EXT 57000 66000 2160 0 40 0 0]\<rparr>"

definition regdom_SK :: ieee80211_regdomain where
  "regdom_SK = \<lparr>alpha2 = code ''SK'', dfs_region = NL80211_DFS_ETSI, reg_rules =
     [REG_RULE_EXT 2400 2483 40 0 20 0 0,
      REG_RULE_EXT 5150 5250 80 0 23 0 (SKW_RRF_NO_OUTDOOR OR SKW_RRF_AUTO_BW),
      REG_RULE_EXT 5250 5350 80 0 20 0 (SKW_RRF_NO_OUTDOOR OR SKW_RRF_DFS OR SKW_RRF_AUTO_BW),
      REG_RULE_EXT 5470 5725 160 0 27 0 SKW_RRF_DFS,
      REG_RULE_EXT 5725 5875 80 0 14 0 0,
      REG_RULE_EXT 5945 6425 160 0 23 0 SKW_RRF_NO_OUTDOOR,
      REG_RULE_EXT 57000 66000 2160 0 40 0 0]\<rparr>"

definition regdom_SN :: ieee80211_regdomain where
  "regdom_SN = \<lparr>alpha2 = code ''SN'', dfs_region = NL80211_DFS_FCC, reg_rules =
     [REG_RULE_EXT 2402 2482 40 0 20 0 0,
      REG_RULE_EXT 5170 5250 80 0 17 0 SKW_RRF_AUTO_BW,
      REG_RULE_EXT 5250 5330 80 0 24 0 (SKW_RRF_DFS OR SKW_RRF_AUTO_BW),
      REG_RULE_EXT 5490 5730 160 0 24 0 SKW_RRF_DFS,
      REG_RULE_EXT 5735 5835 80 0 30 0 0]\<rparr>"

definition regdom_SR :: ieee80211_regdomain where
  "regdom_SR = \<lparr>alpha2 = code ''SR'', dfs_region = NL80211_DFS_ETSI, reg_rules =
     [REG_RULE_EXT 2402 2482 40 0 20 0 0,
      REG_RULE_EXT 5170 5250 80 0 20 0 SKW_RRF_AUTO_BW,
      REG_RULE_EXT 5250 5330 80 0 20 0 (SKW_RRF_DFS OR SKW_RRF_AUTO_BW),
      REG_RULE_EXT 5490 5710 160 0 27 0 SKW_RRF_DFS]\<rparr>"

definition regdom_SV :: ieee80211_regdomain where
  "regdom_SV = \<lparr>alpha2 = code ''SV'', dfs_region = NL80211_DFS_FCC, reg_rules =
     [REG_RULE_EXT 2402 2482 40 0 20 0 0,
      REG_RULE_EXT 5170 5250 20 0 17 0 0,
      REG_RULE_EXT 5250 5330 20 0 23 0 SKW_RRF_DFS,
      REG_RULE_EXT 5735 5835 20 0 30 0 0,
      REG_RULE_EXT 5925 7125 320 0 12 0 SKW_RRF_NO_OUTDOOR]\<rparr>"

definition regdom_SY :: ieee80211_regdomain where
  "regdom_SY = \<lparr>alpha2 = code ''SY'', dfs_region = NL80211_DFS_UNSET, reg_rules =
     [REG_RULE_EXT 2402 2482 40 0 20 0 0]\<rparr>"

definition regdom_TC :: ieee80211_regdomain where
  "regdom_TC = \<lparr>alpha2 = code ''TC'', dfs_region = NL80211_DFS_FCC, reg_rules =
     [REG_RULE_EXT 2402 2482 40 0 20 0 0,
      REG_RULE_EXT 5170 5250 80 0 24 0 SKW_RRF_AUTO_BW,
      REG_RULE_EXT 5250 5330 80 0 24 0 (SKW_RRF_DFS OR SKW_RRF_AUTO_BW),
      REG_RULE_EXT 5490 5730 160 0 24 0 SKW_RRF_DFS,
      REG_RULE_EXT 5735 5835 80 0 30 0 0]\<rparr>"

definition regdom_TD :: ieee80211_regdomain where
  "regdom_TD = \<lparr>alpha2 = code ''TD'', dfs_region = NL80211_DFS_ETSI, reg_rules =
     [REG_RULE_EXT 2402 2482 40 0 20 0 0,
      REG_RULE_EXT 5170 5250 80 0 20 0 SKW_RRF_AUTO_BW,
      REG_RULE_EXT 5250 5330 80 0 20 0 (SKW_RRF_DFS OR SKW_RRF_AUTO_BW),
      REG_RULE_EXT 5490 5710 160 0 27 0 SKW_RRF_DFS]\<rparr>"

definition regdom_TG :: ieee80211_regdomain where
  "regdom_TG = \<lparr>alpha2 = code ''TG'', dfs_region = NL80211_DFS_ETSI, reg_rules =
     [REG_RULE_EXT 2400 2483 40 0 20 0 SKW_RRF_DFS,
      REG_RULE_EXT 5150 5350 80 0 20 0 SKW_RRF_DFS,
      REG_RULE_EXT 5470 5850 160 0 27 0 SKW_RRF_DFS,
      REG_RULE_EXT 5925 6425 320 0 23 0 (SKW_RRF_DFS OR SKW_RRF_NO_OUTDOOR),
      REG_RULE_EXT 57000 66000 0 0 0 0 0]\<rparr>"

definition regdom_TH :: ieee80211_regdomain where
  "regdom_TH = \<lparr>alpha2 = code ''TH'', dfs_region = NL80211_DFS_FCC, reg_rules =
     [REG_RULE_EXT 2402 2482 40 0 20 0 0,
      REG_RULE_EXT 5170 5250 80 0 17 0 SKW_RRF_AUTO_BW,
      REG_RULE_EXT 5250 5330 80 0 24 0 (SKW_RRF_DFS OR SKW_RRF_AUTO_BW),
      REG_RULE_EXT 5490 5730 160 0 24 0 SKW_RRF_DFS,
      REG_RULE_EXT 5735 5835 80 0 30 0 0,
      REG_RULE_EXT 5925 6425 320 0 24 0 SKW_RRF_NO_OUTDOOR]\<rparr>"

definition regdom_TN :: ieee80211_regdomain where
  "regdom_TN = \<lparr>alpha2 = code ''TN'', dfs_region = NL80211_DFS_ETSI, reg_rules =
     [REG_RULE_EXT 2402 2482 40 0 20 0 0,
      REG_RULE_EXT 5170 5250 80 0 20 0 SKW_RRF_AUTO_BW,
      REG_RULE_EXT 5250 5330 80 0 20 0 (SKW_RRF_DFS OR SKW_RRF_AUTO_BW)]\<rparr>"

definition regdom_TR :: ieee80211_regdomain where
  "regdom_TR = \<lparr>alpha2 = code ''TR'', dfs_region = NL80211_DFS_ETSI, reg_rules =
     [REG_RULE_EXT 2400 2483 40 0 20 0 0,
      REG_RULE_EXT 5150 5250 80 0 23 0 (SKW_RRF_NO_OUTDOOR OR SKW_RRF_AUTO_BW),
      REG_RULE_EXT 5250 5330 80 0 20 0 (SKW_RRF_DFS OR SKW_RRF_NO_OUTDOOR OR SKW_RRF_AUTO_BW),
      REG_RULE_EXT 5470 5725 160 0 27 0 SKW_RRF_DFS,
      REG_RULE_EXT 5945 6425 160 0 23 0 SKW_RRF_NO_OUTDOOR,
      REG_RULE_EXT 57000 66000 2160 0 40 0 0]\<rparr>"

definition regdom_TT :: ieee80211_regdomain where
  "regdom_TT = \<lparr>alpha2 = code ''TT'', dfs_region = NL80211_DFS_FCC, reg_rules =
     [REG_RULE_EXT 2402 2482 40 0 20 0 0,
      REG_RULE_EXT 5170 5250 80 0 17 0 SKW_RRF_AUTO_BW,
      REG_RULE_EXT 5250 5330 80 0 24 0 (SKW_RRF_DFS OR SKW_RRF_AUTO_BW),
      REG_RULE_EXT 5490 5730 160 0 24 0 SKW_RRF_DFS,
      REG_RULE_EXT 5735 5835 80 0 30 0 0]\<rparr>"

definition regdom_TW :: ieee80211_regdomain where
  "regdom_TW = \<lparr>alpha2 = code ''TW'', dfs_region = NL80211_DFS_FCC, reg_rules =
     [REG_RULE_EXT 2400 2483 40 0 30 0 0,
      REG_RULE_EXT 5150 5250 80 0 23 0 SKW_RRF_AUTO_BW,
      REG_RULE_EXT 5250 5350 80 0 23 0 (SKW_RRF_DFS OR SKW_RRF_AUTO_BW),
      REG_RULE_EXT 5470 5730 160 0 23 0 SKW_RRF_DFS,
      REG_RULE_EXT 5725 5850 80 0 30 0 0,
      REG_RULE_EXT 5945 6425 320 0 23 0 SKW_RRF_NO_OUTDOOR,
      REG_RULE_EXT 57000 66000 2160 0 40 0 0]\<rparr>"

definition regdom_TZ :: ieee80211_regdomain where
  "regdom_TZ = \<lparr>alpha2 = code ''TZ'', dfs_region = NL80211_DFS_ETSI, reg_rules =
     [REG_RULE_EXT 2400 2483 40 0 20 0 0,
      REG_RULE_EXT 5150 5250 80 0 23 0 (SKW_RRF_AUTO_BW OR SKW_RRF_NO_OUTDOOR),
      REG_RULE_EXT 5250 5350 80 0 20 0 (SKW_RRF_DFS OR SKW_RRF_AUTO_BW OR SKW_RRF_NO_OUTDOOR),
      REG_RULE_EXT 5470 5725 160 0 24 0 SKW_RRF_DFS,
      REG_RULE_EXT 5725 5850 80 0 24 0 SKW_RRF_DFS,
      REG_RULE_EXT 5945 6425 320 0 23 0 SKW_RRF_NO_OUTDOOR]\<rparr>"

definition regdom_UA :: ieee80211_regdomain where
  "regdom_UA = \<lparr>alpha2 = code ''UA'', dfs_region = NL80211_DFS_ETSI, reg_rules =
     [REG_RULE_EXT 2400 2483 40 0 20 0 SKW_RRF_NO_OUTDOOR,
      REG_RULE_EXT 5150 5250 80 0 20 0 (SKW_RRF_NO_OUTDOOR OR SKW_RRF_AUTO_BW),
      REG_RULE_EXT 5250 5350 80 0 20 0 (SKW_RRF_DFS OR SKW_RRF_NO_OUTDOOR OR SKW_RRF_AUTO_BW),
      REG_RULE_EXT 5470 5725 160 0 20 0 (SKW_RRF_DFS OR SKW_RRF_NO_OUTDOOR),
      REG_RULE_EXT 5725 5850 80 0 20 0 SKW_RRF_NO_OUTDOOR,
      REG_RULE_EXT 57000 66000 2160 0 16 0 SKW_RRF_NO_OUTDOOR]\<rparr>"

definition regdom_UG :: ieee80211_regdomain where
  "regdom_UG = \<lparr>alpha2 = code ''UG'', dfs_region = NL80211_DFS_FCC, reg_rules =
     [REG_RULE_EXT 2402 2482 40 0 20 0 0,
      REG_RULE_EXT 5170 5250 80 0 24 0 SKW_RRF_AUTO_BW,
      REG_RULE_EXT 5250 5330 80 0 24 0 (SKW_RRF_DFS OR SKW_RRF_AUTO_BW),
      REG_RULE_EXT 5490 5730 160 0 24 0 SKW_RRF_DFS,
      REG_RULE_EXT 5735 5835 80 0 30 0 0]\<rparr>"

definition regdom_US :: ieee80211_regdomain where
  "regdom_US = \<lparr>alpha2 = code ''US'', dfs_region = NL80211_DFS_FCC, reg_rules =
     [REG_RULE_EXT 902 904 2 0 30 0 0,
      REG_RULE_EXT 904 920 16 0 30 0 0,
      REG_RULE_EXT 920 928 8 0 30 0 0,
      REG_RULE_EXT 2400 2472 40 0 30 0 0,
      REG_RULE_EXT 5150 5250 80 0 23 0 SKW_RRF_AUTO_BW,
      REG_RULE_EXT 5250 5350 80 0 24 0 (SKW_RRF_DFS OR SKW_RRF_AUTO_BW),
      REG_RULE_EXT 5470 5730 160 0 24 0 SKW_RRF_DFS,
      REG_RULE_EXT 5730 5850 80 0 30 0 SKW_RRF_AUTO_BW,
      REG_RULE_EXT 5850 5895 40 0 27 0 (SKW_RRF_NO_OUTDOOR OR SKW_RRF_AUTO_BW OR SKW_RRF_NO_IR),
      REG_RULE_EXT 5925 7125 320 0 12 0 (SKW_RRF_NO_OUTDOOR OR SKW_RRF_NO_IR),
      REG_RULE_EXT 57240 71000 2160 0 40 0 0]\<rparr>"

definition regdom_UY :: ieee80211_regdomain where
  "regdom_UY = \<lparr>alpha2 = code ''UY'', dfs_region = NL80211_DFS_FCC, reg_rules =
     [REG_RULE_EXT 2402 2482 40 0 20 0 0,
      REG_RULE_EXT 5170 5250 80 0 23 0 SKW_RRF_AUTO_BW,
      REG_RULE_EXT 5250 5330 80 0 23 0 (SKW_RRF_DFS OR SKW_RRF_AUTO_BW),
      REG_RULE_EXT 5735 5835 80 0 30 0 0]\<rparr>"

definition regdom_UZ :: ieee80211_regdomain where
  "regdom_UZ = \<lparr>alpha2 = code ''UZ'', dfs_region = NL80211_DFS_ETSI, reg_rules =
     [REG_RULE_EXT 2402 2482 40 0 20 0 0,
      REG_RULE_EXT 5170 5250 80 0 20 0 SKW_RRF_AUTO_BW,
      REG_RULE_EXT 5250 5330 80 0 20 0 (SKW_RRF_DFS OR SKW_RRF_AUTO_BW)]\<rparr>"

definition regdom_VC :: ieee80211_regdomain where
  "regdom_VC = \<lparr>alpha2 = code ''VC'', dfs_region = NL80211_DFS_ETSI, reg_rules =
     [REG_RULE_EXT 2402 2482 40 0 20 0 0,
      REG_RULE_EXT 5170 5250 80 0 20 0 SKW_RRF_AUTO_BW,
      REG_RULE_EXT 5250 5330 80 0 20 0 (SKW_RRF_DFS OR SKW_RRF_AUTO_BW),
      REG_RULE_EXT 5490 5710 160 0 27 0 SKW_RRF_DFS]\<rparr>"

definition regdom_VE :: ieee80211_regdomain where
  "regdom_VE = \<lparr>alpha2 = code ''VE'', dfs_region = NL80211_DFS_FCC, reg_rules =
     [REG_RULE_EXT 2402 2482 40 0 30 0 0,
      REG_RULE_EXT 5170 5250 80 0 23 0 SKW_RRF_AUTO_BW,
      REG_RULE_EXT 5250 5330 80 0 23 0 (SKW_RRF_DFS OR SKW_RRF_AUTO_BW),
      REG_RULE_EXT 5735 5835 80 0 30 0 0]\<rparr>"

definition regdom_VI :: ieee80211_regdomain where
  "regdom_VI = \<lparr>alpha2 = code ''VI'', dfs_region = NL80211_DFS_FCC, reg_rules =
     [REG_RULE_EXT 2402 2472 40 0 30 0 0,
      REG_RULE_EXT 5170 5250 80 0 24 0 SKW_RRF_AUTO_BW,
      REG_RULE_EXT 5250 5330 80 0 24 0 (SKW_RRF_DFS OR SKW_RRF_AUTO_BW),
      REG_RULE_EXT 5490 5730 160 0 24 0 SKW_RRF_DFS,
      REG_RULE_EXT 5735 5835 80 0 30 0 0]\<rparr>"

definition regdom_VN :: ieee80211_regdomain where
  "regdom_VN = \<lparr>alpha2 = code ''VN'', dfs_region = NL80211_DFS_FCC, reg_rules =
     [REG_RULE_EXT 2402 2482 40 0 20 0 0,
      REG_RULE_EXT 5170 5250 80 0 17 0 0,
      REG_RULE_EXT 5250 5330 80 0 24 0 SKW_RRF_DFS,
      REG_RULE_EXT 5490 5730 80 0 24 0 SKW_RRF_DFS,
      REG_RULE_EXT 5735 5835 80 0 30 0 0]\<rparr>"

definition regdom_VU :: ieee80211_regdomain where
  "regdom_VU = \<lparr>alpha2 = code ''VU'', dfs_region = NL80211_DFS_FCC, reg_rules =
     [REG_RULE_EXT 2402 2482 40 0 20 0 0,
      REG_RULE_EXT 5170 5250 80 0 17 0 SKW_RRF_AUTO_BW,
      REG_RULE_EXT 5250 5330 80 0 24 0 (SKW_RRF_DFS OR SKW_RRF_AUTO_BW),
      REG_RULE_EXT 5490 5730 160 0 24 0 SKW_RRF_DFS,
      REG_RULE_EXT 5735 5835 80 0 30 0 0]\<rparr>"

definition regdom_WF :: ieee80211_regdomain where
  "regdom_WF = \<lparr>alpha2 = code ''WF'', dfs_region = NL80211_DFS_ETSI, reg_rules =
     [REG_RULE_EXT 2402 2482 40 0 20 0 0,
      REG_RULE_EXT 5170 5250 80 0 20 0 SKW_RRF_AUTO_BW,
      REG_RULE_EXT 5250 5330 80 0 20 0 (SKW_RRF_DFS OR SKW_RRF_AUTO_BW),
      REG_RULE_EXT 5490 5710 160 0 27 0 SKW_RRF_DFS]\<rparr>"

definition regdom_WS :: ieee80211_regdomain where
  "regdom_WS = \<lparr>alpha2 = code ''WS'', dfs_region = NL80211_DFS_ETSI, reg_rules =
     [REG_RULE_EXT 2402 2482 40 0 20 0 0,
      REG_RULE_EXT 5170 5250 40 0 20 0 0,
      REG_RULE_EXT 5250 5330 40 0 20 0 SKW_RRF_DFS,
      REG_RULE_EXT 5490 5710 40 0 27 0 SKW_RRF_DFS]\<rparr>"

definition regdom_YE :: ieee80211_regdomain where
  "regdom_YE = \<lparr>alpha2 = code ''YE'', dfs_region = NL80211_DFS_UNSET, reg_rules =
     [REG_RULE_EXT 2402 2482 40 0 20 0 0]\<rparr>"

definition regdom_YT :: ieee80211_regdomain where
  "regdom_YT = \<lparr>alpha2 = code ''YT'', dfs_region = NL80211_DFS_ETSI, reg_rules =
     [REG_RULE_EXT 2402 2482 40 0 20 0 0,
      REG_RULE_EXT 5170 5250 80 0 20 0 SKW_RRF_AUTO_BW,
      REG_RULE_EXT 5250 5330 80 0 20 0 (SKW_RRF_DFS OR SKW_RRF_AUTO_BW),
      REG_RULE_EXT 5490 5710 160 0 27 0 SKW_RRF_DFS]\<rparr>"

definition regdom_ZA :: ieee80211_regdomain where
  "regdom_ZA = \<lparr>alpha2 = code ''ZA'', dfs_region = NL80211_DFS_ETSI, reg_rules =
     [REG_RULE_EXT 2402 2482 40 0 20 0 0,
      REG_RULE_EXT 5170 5250 80 0 20 0 SKW_RRF_AUTO_BW,
      REG_RULE_EXT 5250 5330 80 0 20 0 (SKW_RRF_DFS OR SKW_RRF_AUTO_BW),
      REG_RULE_EXT 5490 5710 160 0 30 0 0,
      REG_RULE_EXT 5925 6425 320 0 14 0 0]\<rparr>"

definition regdom_ZW :: ieee80211_regdomain where
  "regdom_ZW = \<lparr>alpha2 = code ''ZW'', dfs_region = NL80211_DFS_ETSI, reg_rules =
     [REG_RULE_EXT 2402 2482 40 0 20 0 0,
      REG_RULE_EXT 5170 5250 80 0 20 0 SKW_RRF_AUTO_BW,
      REG_RULE_EXT 5250 5330 80 0 20 0 (SKW_RRF_DFS OR SKW_RRF_AUTO_BW),
      REG_RULE_EXT 5490 5710 160 0 27 0 SKW_RRF_DFS]\<rparr>"

definition skw_regdb :: "ieee80211_regdomain list" where
  "skw_regdb =
     [regdom_XW, regdom_00, regdom_AD, regdom_AE, regdom_AF, regdom_AI, regdom_AL, regdom_AM,
      regdom_AN, regdom_AR, regdom_AS, regdom_AT, regdom_AU, regdom_AW, regdom_AZ, regdom_BA,
      regdom_BB, regdom_BD, regdom_BE, regdom_BF, regdom_BG, regdom_BH, regdom_BL, regdom_BM,
      regdom_BN, regdom_BO, regdom_BR, regdom_BS, regdom_BT, regdom_BY, regdom_BZ, regdom_CA,
      regdom_CF, regdom_CH, regdom_CI, regdom_CL, regdom_CN, regdom_CO, regdom_CR, regdom_CU,
      regdom_CX, regdom_CY, regdom_CZ, regdom_DE, regdom_DK, regdom_DM, regdom_DO, regdom_DZ,
      regdom_EC, regdom_EE, regdom_EG, regdom_ES, regdom_ET, regdom_FI, regdom_FM, regdom_FR,
      regdom_GB, regdom_GD, regdom_GE, regdom_GF, regdom_GH, regdom_GL, regdom_GP, regdom_GR,
      regdom_GT, regdom_GU, regdom_GY, regdom_HK, regdom_HN, regdom_HR, regdom_HT, regdom_HU,
      regdom_ID, regdom_IE, regdom_IL, regdom_IN, regdom_IR, regdom_IS, regdom_IT, regdom_JM,
      regdom_JO, regdom_JP, regdom_KE, regdom_KH, regdom_KN, regdom_KP, regdom_KR, regdom_KW,
      regdom_KY, regdom_KZ, regdom_LB, regdom_LC, regdom_LI, regdom_LK, regdom_LS, regdom_LT,
      regdom_LU, regdom_LV, regdom_MA, regdom_MC, regdom_MD, regdom_ME, regdom_MF, regdom_MH,
      regdom_MK, regdom_MN, regdom_MO, regdom_MP, regdom_MQ, regdom_MR, regdom_MT, regdom_MU,
      regdom_MV, regdom_MW, regdom_MX, regdom_MY, regdom_NA, regdom_NG, regdom_NI, regdom_NL,
      regdom_NO, regdom_NP, regdom_NZ, regdom_OM, regdom_PA, regdom_PE, regdom_PF, regdom_PG,
      regdom_PH, regdom_PK, regdom_PL, regdom_PM, regdom_PR, regdom_PT, regdom_PW, regdom_PY,
      regdom_QA, regdom_RE, regdom_RO, regdom_RS, regdom_RU, regdom_RW, regdom_SA, regdom_SE,
      regdom_SG, regdom_SI, regdom_SK, regdom_SN, regdom_SR, regdom_SV, regdom_SY, regdom_TC,
      regdom_TD, regdom_TG, regdom_TH, regdom_TN, regdom_TR, regdom_TT, regdom_TW, regdom_TZ,
      regdom_UA, regdom_UG, regdom_US, regdom_UY, regdom_UZ, regdom_VC, regdom_VE, regdom_VI,
      regdom_VN, regdom_VU, regdom_WF, regdom_WS, regdom_YE, regdom_YT, regdom_ZA, regdom_ZW]"

lemmas regdom_defs =
  regdom_XW_def regdom_00_def regdom_AD_def regdom_AE_def regdom_AF_def regdom_AI_def
  regdom_AL_def regdom_AM_def regdom_AN_def regdom_AR_def regdom_AS_def regdom_AT_def
  regdom_AU_def regdom_AW_def regdom_AZ_def regdom_BA_def regdom_BB_def regdom_BD_def
  regdom_BE_def regdom_BF_def regdom_BG_def regdom_BH_def regdom_BL_def regdom_BM_def
  regdom_BN_def regdom_BO_def regdom_BR_def regdom_BS_def regdom_BT_def regdom_BY_def
  regdom_BZ_def regdom_CA_def regdom_CF_def regdom_CH_def regdom_CI_def regdom_CL_def
  regdom_CN_def regdom_CO_def regdom_CR_def regdom_CU_def regdom_CX_def regdom_CY_def
  regdom_CZ_def regdom_DE_def regdom_DK_def regdom_DM_def regdom_DO_def regdom_DZ_def
  regdom_EC_def regdom_EE_def regdom_EG_def regdom_ES_def regdom_ET_def regdom_FI_def
  regdom_FM_def regdom_FR_def regdom_GB_def regdom_GD_def regdom_GE_def regdom_GF_def
  regdom_GH_def regdom_GL_def regdom_GP_def regdom_GR_def regdom_GT_def regdom_GU_def
  regdom_GY_def regdom_HK_def regdom_HN_def regdom_HR_def regdom_HT_def regdom_HU_def
  regdom_ID_def regdom_IE_def regdom_IL_def regdom_IN_def regdom_IR_def regdom_IS_def
  regdom_IT_def regdom_JM_def regdom_JO_def regdom_JP_def regdom_KE_def regdom_KH_def
  regdom_KN_def regdom_KP_def regdom_KR_def regdom_KW_def regdom_KY_def regdom_KZ_def
  regdom_LB_def regdom_LC_def regdom_LI_def regdom_LK_def regdom_LS_def regdom_LT_def
  regdom_LU_def regdom_LV_def regdom_MA_def regdom_MC_def regdom_MD_def regdom_ME_def
  regdom_MF_def regdom_MH_def regdom_MK_def regdom_MN_def regdom_MO_def regdom_MP_def
  regdom_MQ_def regdom_MR_def regdom_MT_def regdom_MU_def regdom_MV_def regdom_MW_def
  regdom_MX_def regdom_MY_def regdom_NA_def regdom_NG_def regdom_NI_def regdom_NL_def
  regdom_NO_def regdom_NP_def regdom_NZ_def regdom_OM_def regdom_PA_def regdom_PE_def
  regdom_PF_def regdom_PG_def regdom_PH_def regdom_PK_def regdom_PL_def regdom_PM_def
  regdom_PR_def regdom_PT_def regdom_PW_def regdom_PY_def regdom_QA_def regdom_RE_def
  regdom_RO_def regdom_RS_def regdom_RU_def regdom_RW_def regdom_SA_def regdom_SE_def
  regdom_SG_def regdom_SI_def regdom_SK_def regdom_SN_def regdom_SR_def regdom_SV_def
  regdom_SY_def regdom_TC_def regdom_TD_def regdom_TG_def regdom_TH_def regdom_TN_def
  regdom_TR_def regdom_TT_def regdom_TW_def regdom_TZ_def regdom_UA_def regdom_UG_def
  regdom_US_def regdom_UY_def regdom_UZ_def regdom_VC_def regdom_VE_def regdom_VI_def
  regdom_VN_def regdom_VU_def regdom_WF_def regdom_WS_def regdom_YE_def regdom_YT_def
  regdom_ZA_def regdom_ZW_def

end
