(* ===== verification/Skw_Regd_Props.thy ===== *)
theory Skw_Regd_Props
  imports Skw_Db
begin

text \<open>
  Correctness of the regulatory code on the database it ships with: which domains pass the
  driver's own validity check, which rule governs a channel, that no domain yields more
  rules than the firmware's table holds, and what a history of requests leaves behind.
\<close>

section \<open>Frequencies as integers\<close>

lemma uint_khz: "0 \<le> s \<Longrightarrow> s < 4000000 \<Longrightarrow> uint (khz s) = s * 1000"
  by (simp only: khz_def uint_word_of_int_eq) (simp add: take_bit_int_eq_self)

lemma uint_minus_small: "uint b \<le> uint a \<Longrightarrow> uint (a - b) = uint a - uint b" for a b :: u32
  by (simp add: uint_sub_if')

lemma uint_abs_diff:
  assumes "uint a < 2 ^ 31" "uint b < 2 ^ 31"
  shows "uint (abs_diff a b) = \<bar>uint a - uint b\<bar>"
proof -
  have "a - b = word_of_int (uint a - uint b)" by simp
  then have "sint (a - b) = signed_take_bit 31 (uint a - uint b)" by (simp only: signed_of_int) simp
  also have "\<dots> = uint a - uint b"
  proof (rule signed_take_bit_int_eq_self)
    have "0 \<le> uint a" "0 \<le> uint b" by simp_all
    then show "- (2 ^ 31) \<le> uint a - uint b" "uint a - uint b < 2 ^ 31" using assms by linarith+
  qed
  finally have "sint (a - b) = uint a - uint b" .
  then show ?thesis by (simp add: abs_diff_def uint_minus_small)
qed

abbreviation fits :: "ieee80211_reg_rule \<Rightarrow> u32 \<Rightarrow> bool" where
  "fits r f \<equiv> skw_does_bw_fit_range r f (MHZ_TO_KHZ 20)"

lemma fits_iff:
  assumes "10000 \<le> uint f" "uint f < 2 ^ 31"
  shows "fits r f \<longleftrightarrow> uint (start_freq_khz r) + 10000 \<le> uint f \<and> uint f + 10000 \<le> uint (end_freq_khz r)"
proof -
  have "uint (f - 10000) = uint f - 10000" using assms by (simp add: uint_minus_small)
  moreover have "uint (f + 10000) = uint f + 10000" using assms by (simp add: uint_word_ariths)
  ultimately show ?thesis by (auto simp: skw_does_bw_fit_range_def MHZ_TO_KHZ_def word_le_def)
qed

text \<open>
  A rule is in the reach of the driver's channels, and its range is narrow enough for the band
  test, unless it lies above them.
\<close>

definition usable_rule :: "ieee80211_reg_rule \<Rightarrow> bool" where
  "usable_rule r \<longleftrightarrow> uint (start_freq_khz r) \<le> 7105000 \<and> 2422000 \<le> uint (end_freq_khz r)"

definition narrow_rule :: "ieee80211_reg_rule \<Rightarrow> bool" where
  "narrow_rule r \<longleftrightarrow> 7125000 < uint (start_freq_khz r) \<or>
     (uint (start_freq_khz r) \<le> uint (end_freq_khz r) \<and> uint (end_freq_khz r) - uint (start_freq_khz r) \<le> 4000000)"

definition chan_khz :: "u32 \<Rightarrow> bool" where
  "chan_khz f \<longleftrightarrow> 2412000 \<le> uint f \<and> uint f \<le> 7115000"

lemma fits_usable: "chan_khz f \<Longrightarrow> fits r f \<Longrightarrow> usable_rule r"
  using fits_iff [of f r] by (auto simp: chan_khz_def usable_rule_def)

lemma fits_in_band:
  assumes "narrow_rule r" "chan_khz f" "fits r f"
  shows "skw_freq_in_rule_band r f"
proof -
  let ?S = "uint (start_freq_khz r)" and ?E = "uint (end_freq_khz r)" and ?F = "uint f"
  have f: "?S + 10000 \<le> ?F" "?F + 10000 \<le> ?E" "?F \<le> 7115000" "2412000 \<le> ?F"
    using fits_iff [of f r] assms(2,3) by (auto simp: chan_khz_def)
  then have w: "?E - ?S \<le> 4000000" using assms(1) by (auto simp: narrow_rule_def)
  then have lt: "?S < 2 ^ 31" "?E < 2 ^ 31" "?F < 2 ^ 31" using f by auto
  have "\<not> 45 * 1000000 < f" using f(3) by (simp add: word_less_def)
  moreover have "uint (abs_diff f (start_freq_khz r)) \<le> 2000000 \<or> uint (abs_diff f (end_freq_khz r)) \<le> 2000000"
    using f w uint_abs_diff [OF lt(3,1)] uint_abs_diff [OF lt(3,2)] by arith
  ultimately show ?thesis by (auto simp: skw_freq_in_rule_band_def Let_def word_le_def)
qed

section \<open>The governing rule is the first that fits\<close>

lemma freq_reg_loop_first:
  assumes "freq_reg_loop f i found rs = Inr (k, rr)"
    and "\<forall>r \<in> set rs. fits r f \<longrightarrow> skw_freq_in_rule_band r f"
  shows "i \<le> k \<and> k < i + length rs \<and> rs ! (k - i) = rr \<and> fits rr f \<and> (\<forall>j < k - i. \<not> fits (rs ! j) f)"
  using assms
proof (induction rs arbitrary: i found)
  case (Cons r rs)
  show ?case
  proof (cases "fits r f")
    case True
    with Cons.prems show ?thesis by (auto simp: Let_def split: if_splits)
  next
    case False
    then obtain fd where "freq_reg_loop f (Suc i) fd rs = Inr (k, rr)"
      using Cons.prems(1) by (auto simp: Let_def split: if_splits)
    from Cons.IH [OF this] Cons.prems(2) False show ?thesis
      by (auto simp: nth_Cons' less_Suc_eq_0_disj)
  qed
qed simp

lemma freq_reg_loop_found:
  assumes "j < length rs" "fits (rs ! j) f" "\<forall>r \<in> set rs. fits r f \<longrightarrow> skw_freq_in_rule_band r f"
  shows "\<exists>k rr. freq_reg_loop f i found rs = Inr (k, rr)"
  using assms
proof (induction rs arbitrary: i found j)
  case (Cons r rs)
  then show ?case by (cases j) (auto simp: Let_def)
qed simp

fun sorted_rules :: "ieee80211_reg_rule list \<Rightarrow> bool" where
  "sorted_rules (a # b # rs) = (uint (start_freq_khz a) \<le> uint (start_freq_khz b) \<and> sorted_rules (b # rs))"
| "sorted_rules _ = True"

lemma sorted_rules_Cons: "sorted_rules (a # rs) \<Longrightarrow> sorted_rules rs"
  by (cases rs) auto

lemma sorted_rules_hd: "sorted_rules (a # rs) \<Longrightarrow> r \<in> set rs \<Longrightarrow> uint (start_freq_khz a) \<le> uint (start_freq_khz r)"
proof (induction rs arbitrary: a)
  case (Cons b rs)
  then have "uint (start_freq_khz a) \<le> uint (start_freq_khz b)" by simp
  moreover have "uint (start_freq_khz b) \<le> uint (start_freq_khz r)" if "r \<in> set rs"
    using Cons.IH [of b] Cons.prems(1) that by simp
  ultimately show ?case using Cons.prems(2) by auto
qed simp

lemma sorted_rules_nth:
  "sorted_rules rs \<Longrightarrow> i \<le> j \<Longrightarrow> j < length rs \<Longrightarrow> uint (start_freq_khz (rs ! i)) \<le> uint (start_freq_khz (rs ! j))"
proof (induction rs arbitrary: i j)
  case (Cons a rs)
  show ?case
  proof (cases i)
    case 0
    then show ?thesis using Cons.prems sorted_rules_hd [of a rs "rs ! (j - 1)"] by (cases j) auto
  next
    case (Suc i')
    then show ?thesis using Cons.prems Cons.IH [of i' "j - 1"] sorted_rules_Cons [of a rs] by (cases j) auto
  qed
qed simp

text \<open>What the table of one domain relies on.\<close>

definition dom_ok :: "ieee80211_regdomain \<Rightarrow> bool" where
  "dom_ok rd \<longleftrightarrow> sorted_rules (reg_rules rd) \<and> list_all narrow_rule (reg_rules rd) \<and>
     length (filter usable_rule (reg_rules rd)) \<le> 8"

abbreviation info :: "ieee80211_regdomain \<Rightarrow> u32 \<Rightarrow> int + (nat \<times> ieee80211_reg_rule)" where
  "info rd f \<equiv> skw_freq_reg_info (Some rd) f"

lemma info_first:
  assumes "dom_ok rd" "chan_khz f" "info rd f = Inr (k, rr)"
  shows "k < length (reg_rules rd)" "reg_rules rd ! k = rr" "fits rr f" "\<forall>j < k. \<not> fits (reg_rules rd ! j) f"
proof -
  have "\<forall>r \<in> set (reg_rules rd). fits r f \<longrightarrow> skw_freq_in_rule_band r f"
    using assms(1,2) fits_in_band by (auto simp: dom_ok_def list_all_iff)
  from freq_reg_loop_first [OF _ this, of 0 False k rr] assms(3)
  show "k < length (reg_rules rd)" "reg_rules rd ! k = rr" "fits rr f" "\<forall>j < k. \<not> fits (reg_rules rd ! j) f"
    by (auto simp: skw_freq_reg_info_def)
qed

text \<open>Higher channels never fall back to an earlier rule.\<close>

lemma info_mono:
  assumes d: "dom_ok rd" and f: "chan_khz f" "chan_khz g" "uint f \<le> uint g"
    and i: "info rd f = Inr (k, rr)" "info rd g = Inr (l, rr')"
  shows "k \<le> l"
proof (rule ccontr)
  assume "\<not> k \<le> l"
  then have lk: "l < k" by simp
  note a = info_first [OF d f(1) i(1)] and b = info_first [OF d f(2) i(2)]
  have F: "10000 \<le> uint f" "uint f < 2 ^ 31" "10000 \<le> uint g" "uint g < 2 ^ 31"
    using f by (auto simp: chan_khz_def)
  have "\<not> fits rr' f" using a(4) b(2) lk by blast
  then have "uint f < uint (start_freq_khz rr') + 10000"
    using fits_iff [OF F(1,2)] fits_iff [OF F(3,4), of rr'] b(3) f(3) by auto
  moreover have "uint (start_freq_khz rr') \<le> uint (start_freq_khz rr)"
    using sorted_rules_nth [of "reg_rules rd" l k] d lk a b by (simp add: dom_ok_def)
  ultimately show False using fits_iff [OF F(1,2), of rr] a(3) by simp
qed

section \<open>The size of the table\<close>

lemma extend_last_length [simp]: "length (extend_last hw rs) = length rs"
  by (auto simp: extend_last_def)

lemma regd_table_flat:
  "regd_table rule_of bands =
     fst (fold (regd_chan_step rule_of) (concat (map (\<lambda>b. case b of None \<Rightarrow> [] | Some cs \<Rightarrow> cs) bands)) ([], None))"
proof -
  have "fold (\<lambda>sband s. case sband of None \<Rightarrow> s | Some chans \<Rightarrow> fold (regd_chan_step rule_of) chans s) bands s =
      fold (regd_chan_step rule_of) (concat (map (\<lambda>b. case b of None \<Rightarrow> [] | Some cs \<Rightarrow> cs) bands)) s" for s
    by (induction bands arbitrary: s) (auto split: option.splits)
  then show ?thesis by (simp add: regd_table_def)
qed

text \<open>
  When the rule indices of successive channels never decrease and come from \<open>U\<close>, the table has
  at most as many rules as \<open>U\<close> up to the last index has members.
\<close>

definition rules_upto :: "nat set \<Rightarrow> nat option \<Rightarrow> nat set" where
  "rules_upto U l = (case l of None \<Rightarrow> {} | Some k \<Rightarrow> {u \<in> U. u \<le> k})"

lemma table_step_bound:
  assumes "finite U" "length (fst s) \<le> card (rules_upto U (snd s))"
    and "\<And>k rr. rule_of (center_freq c) = Inr (k, rr) \<Longrightarrow> k \<in> U \<and> (\<forall>l. snd s = Some l \<longrightarrow> l \<le> k)"
  shows "length (fst (regd_chan_step rule_of c s)) \<le> card (rules_upto U (snd (regd_chan_step rule_of c s)))"
proof -
  have new: "Suc (length (fst s)) \<le> card (rules_upto U (Some k))" if "k \<in> U" "\<forall>l. snd s = Some l \<longrightarrow> l < k" for k
  proof -
    have "k \<notin> rules_upto U (snd s)" using that by (auto simp: rules_upto_def split: option.splits)
    then have "Suc (card (rules_upto U (snd s))) = card (insert k (rules_upto U (snd s)))"
      using assms(1) by (simp add: rules_upto_def split: option.splits)
    also have "\<dots> \<le> card (rules_upto U (Some k))"
      using that assms(1) by (intro card_mono) (auto simp: rules_upto_def split: option.splits)
    finally show ?thesis using assms(2) by simp
  qed
  show ?thesis
  proof (cases "rule_of (center_freq c)")
    case (Inr x)
    obtain k rr where x: "x = (k, rr)" by force
    note kU = assms(3) [OF Inr [unfolded x]]
    have "\<forall>l. snd s = Some l \<longrightarrow> l < k" if "snd s \<noteq> Some k" using kU that by (auto simp: le_less)
    then show ?thesis using Inr x kU new [of k] assms(2)
      by (auto simp: regd_chan_step_def Let_def)
  qed (use assms(2) in \<open>simp add: regd_chan_step_def\<close>)
qed

definition chans_ok :: "ieee80211_channel list \<Rightarrow> bool" where
  "chans_ok cs \<longleftrightarrow> list_all (\<lambda>c. chan_khz (MHZ_TO_KHZ (center_freq c))) cs \<and>
     sorted (map (\<lambda>c. uint (MHZ_TO_KHZ (center_freq c))) cs)"

lemma table_bound:
  assumes d: "dom_ok rd" and "chans_ok cs"
    and rule: "rule_of = (\<lambda>f. info rd (MHZ_TO_KHZ f))"
  shows "length (fst (fold (regd_chan_step rule_of) cs ([], None))) \<le> 8"
proof -
  let ?U = "{k. k < length (reg_rules rd) \<and> usable_rule (reg_rules rd ! k)}"
  define P where "P s cs \<longleftrightarrow> length (fst s) \<le> card (rules_upto ?U (snd s)) \<and>
     (\<forall>l. snd s = Some l \<longrightarrow> (\<forall>c \<in> set cs. \<forall>k rr. rule_of (center_freq c) = Inr (k, rr) \<longrightarrow> l \<le> k))"
    for s :: "skw_reg_rule list \<times> nat option" and cs :: "ieee80211_channel list"
  have "P s cs \<Longrightarrow> chans_ok cs \<Longrightarrow> P (fold (regd_chan_step rule_of) cs s) []" for s
  proof (induction cs arbitrary: s)
    case (Cons c cs)
    have ch: "chan_khz (MHZ_TO_KHZ (center_freq c))" "chans_ok cs"
      using Cons.prems(2) by (simp_all add: chans_ok_def)
    have inU: "k \<in> ?U" if "rule_of (center_freq c) = Inr (k, rr)" for k rr
      using info_first [OF d ch(1)] fits_usable [OF ch(1)] that by (auto simp: rule)
    have later: "k \<le> l" if "rule_of (center_freq c) = Inr (k, rr)" "c' \<in> set cs"
        "rule_of (center_freq c') = Inr (l, rr')" for k l rr rr' c'
      using info_mono [OF d ch(1)] that Cons.prems(2) by (auto simp: rule chans_ok_def list_all_iff)
    have last: "snd (regd_chan_step rule_of c s) = snd s \<or>
        (\<exists>k rr. rule_of (center_freq c) = Inr (k, rr) \<and> snd (regd_chan_step rule_of c s) = Some k)"
      by (auto simp: regd_chan_step_def Let_def split: sum.splits)
    have "P (regd_chan_step rule_of c s) cs"
      unfolding P_def
    proof
      show "length (fst (regd_chan_step rule_of c s)) \<le> card (rules_upto ?U (snd (regd_chan_step rule_of c s)))"
        using Cons.prems(1) inU by (intro table_step_bound) (auto simp: P_def)
      show "\<forall>l. snd (regd_chan_step rule_of c s) = Some l \<longrightarrow>
          (\<forall>c \<in> set cs. \<forall>k rr. rule_of (center_freq c) = Inr (k, rr) \<longrightarrow> l \<le> k)"
        using last later Cons.prems(1) by (auto simp: P_def)
    qed
    then show ?case using Cons.IH ch(2) by simp
  qed (simp add: P_def)
  then have "P (fold (regd_chan_step rule_of) cs ([], None)) []" using assms(2) by (simp add: P_def rules_upto_def)
  moreover have "card (rules_upto ?U l) \<le> card ?U" for l
    by (intro card_mono) (auto simp: rules_upto_def split: option.splits)
  ultimately have "length (fst (fold (regd_chan_step rule_of) cs ([], None))) \<le> card ?U"
    unfolding P_def using order.trans by blast
  also have "\<dots> \<le> 8" using d by (simp add: dom_ok_def length_filter_conv_card)
  finally show ?thesis .
qed

section \<open>The database\<close>

lemma ext_simps:
  assumes "0 \<le> s" "s < 4000000" "0 \<le> e" "e < 4000000"
  shows "usable_rule (REG_RULE_EXT s e bw g p d f) \<longleftrightarrow> s \<le> 7105 \<and> 2422 \<le> e"
    and "narrow_rule (REG_RULE_EXT s e bw g p d f) \<longleftrightarrow> 7125 < s \<or> (s \<le> e \<and> e - s \<le> 4000)"
  using assms by (auto simp: usable_rule_def narrow_rule_def REG_RULE_EXT_def uint_khz)

lemma ext_start [simp]:
  "0 \<le> s \<Longrightarrow> s < 4000000 \<Longrightarrow> uint (start_freq_khz (REG_RULE_EXT s e bw g p d f)) = s * 1000"
  by (simp add: REG_RULE_EXT_def uint_khz)

lemma ext_valid:
  assumes "0 \<le> s" "s < 4000000" "0 \<le> e" "e < 4000000" "0 \<le> bw" "bw < 4000000"
  shows "is_skw_valid_reg_rule (REG_RULE_EXT s e bw g p d f) \<longleftrightarrow> 0 < s \<and> s < e \<and> bw \<le> e - s"
proof -
  have u: "uint (khz s) = s * 1000" "uint (khz e) = e * 1000" "uint (khz bw) = bw * 1000"
    using assms by (simp_all add: uint_khz)
  have "uint (khz e - khz s) = e * 1000 - s * 1000" if "s \<le> e" using that u by (simp add: uint_minus_small)
  then show ?thesis using assms u
    by (cases "s \<le> e") (auto simp: is_skw_valid_reg_rule_def REG_RULE_EXT_def Let_def word_le_def word_less_def)
qed

lemma list_all_NilI: "list_all P []"
  by simp

lemma list_all_ConsI: "P x \<Longrightarrow> list_all P xs \<Longrightarrow> list_all P (x # xs)"
  by simp

lemma regdb_ok: "list_all dom_ok skw_regdb"
  unfolding skw_regdb_def
  by (intro list_all_ConsI list_all_NilI; simp add: dom_ok_def regdom_defs ext_simps)

lemma unat_of_char: "unat (of_char c :: u8) = of_char c"
proof -
  have "unat (of_nat (of_char c) :: u8) = of_char c mod 256"
    by (simp only: unsigned_of_nat take_bit_eq_mod len_of_numeral_defs) simp
  then show ?thesis by (simp only: of_nat_of_char of_char_mod_256)
qed

lemma of_char_inj: "(of_char c :: u8) = of_char d \<longleftrightarrow> c = d"
  by (metis unat_of_char of_char_eq_iff)

lemma code_inj: "code s = code t \<longleftrightarrow> s = t"
  unfolding code_def by (simp add: inj_map_eq_map inj_on_def of_char_inj)

definition valid_except :: "ieee80211_regdomain \<Rightarrow> bool" where
  "valid_except rd \<longleftrightarrow> (is_skw_valid_rd rd \<longleftrightarrow> alpha2 rd \<noteq> code ''GT'' \<and> alpha2 rd \<noteq> code ''RS'')"

lemma regdb_valid: "list_all valid_except skw_regdb"
  unfolding skw_regdb_def
  by (intro list_all_ConsI list_all_NilI;
      simp add: valid_except_def is_skw_valid_rd_def regdom_defs ext_valid code_inj)

text \<open>Two-letter codes as numbers: the database lists them in ascending order after the first.\<close>

definition code_key :: "u8 list \<Rightarrow> nat" where
  "code_key a = 256 * unat (a ! 0) + unat (a ! 1)"

fun ascending :: "'a::linorder list \<Rightarrow> bool" where
  "ascending (a # b # r) = (a < b \<and> ascending (b # r))"
| "ascending _ = True"

lemma ascending_distinct: "ascending xs \<Longrightarrow> distinct xs \<and> (\<forall>x \<in> set (tl xs). hd xs < x)"
  by (induction xs rule: ascending.induct) auto

lemma ascending_sorted: "ascending xs \<Longrightarrow> sorted xs"
  by (induction xs rule: ascending.induct) (auto intro: order.trans)

lemma regdb_keys:
  "ascending (map (\<lambda>rd. code_key (alpha2 rd)) (tl skw_regdb))"
  "list_all (\<lambda>rd. length (alpha2 rd) = 2 \<and> is_skw_valid_reg_code (alpha2 rd)) skw_regdb"
  "list_all (\<lambda>rd. code_key (alpha2 rd) \<noteq> code_key (alpha2 regdom_XW)) (tl skw_regdb)"
    apply (simp add: skw_regdb_def regdom_defs code_key_def code_def)
   apply (unfold skw_regdb_def, intro list_all_ConsI list_all_NilI; simp add: regdom_defs code_def is_skw_valid_reg_code_def isalpha_def)
  apply (unfold skw_regdb_def list.sel, intro list_all_ConsI list_all_NilI; simp add: regdom_defs code_def code_key_def)
  done


section \<open>Properties of the regulatory code\<close>

abbreviation chans_khz :: "ieee80211_channel list \<Rightarrow> int list" where
  "chans_khz \<equiv> map (\<lambda>c. uint (MHZ_TO_KHZ (center_freq c)))"

lemma chans_okI:
  "list_all (\<lambda>x. 2412000 \<le> x \<and> x \<le> 7115000) (chans_khz cs) \<Longrightarrow> ascending (chans_khz cs) \<Longrightarrow> chans_ok cs"
  by (auto simp: chans_ok_def chan_khz_def list_all_iff intro: ascending_sorted)

lemma skw_bands_ok:
  "chans_ok (concat (map (\<lambda>b. case b of None \<Rightarrow> [] | Some cs \<Rightarrow> cs) (skw_bands with5 with6)))"
  by (cases with5; cases with6; rule chans_okI;
      simp add: skw_bands_def skw_2ghz_chan_def skw_5ghz_chan_def
        skw_6ghz_chan_def SKW_CHAN2G_def SKW_CHAN5G_def SKW_CHAN6G_def MHZ_TO_KHZ_def)

lemma regdb_mem: "rd \<in> set skw_regdb \<Longrightarrow> dom_ok rd"
  using regdb_ok by (simp add: list_all_iff)

lemma regdb_distinct: "distinct (map (\<lambda>rd. code_key (alpha2 rd)) skw_regdb)"
proof -
  have "skw_regdb = regdom_XW # tl skw_regdb" by (simp add: skw_regdb_def)
  moreover have "distinct (map (\<lambda>rd. code_key (alpha2 rd)) (tl skw_regdb))"
    using ascending_distinct [OF regdb_keys(1)] by simp
  moreover have "code_key (alpha2 regdom_XW) \<notin> set (map (\<lambda>rd. code_key (alpha2 rd)) (tl skw_regdb))"
    using regdb_keys(3) by (auto simp: list_all_iff)
  ultimately show ?thesis by (metis distinct.simps(2) list.simps(9))
qed

lemma code_key_digits: "code_key a div 256 = unat (a ! 0)" "code_key a mod 256 = unat (a ! 1)"
proof -
  have "unat (a ! 1) < 2 ^ LENGTH(8)" by (rule unsigned_less)
  then show "code_key a div 256 = unat (a ! 0)" "code_key a mod 256 = unat (a ! 1)"
    by (simp_all add: code_key_def)
qed

lemma alpha2_equal_key: "skw_alpha2_equal a b \<longleftrightarrow> code_key a = code_key b"
proof
  assume "code_key a = code_key b"
  with code_key_digits [of a] code_key_digits [of b] show "skw_alpha2_equal a b"
    by (simp add: skw_alpha2_equal_def word_unat_eq_iff)
qed (simp add: skw_alpha2_equal_def code_key_def)

lemma find_distinct:
  "distinct (map f xs) \<Longrightarrow> x \<in> set xs \<Longrightarrow> List.find (\<lambda>y. f x = f y) xs = Some x"
  by (induction xs) (auto, metis image_eqI)

lemma get_regd_self:
  assumes "rd \<in> set skw_regdb"
  shows "skw_get_regd skw_regdb (alpha2 rd) = Some rd"
proof -
  have "is_skw_valid_reg_code (alpha2 rd)" using regdb_keys(2) assms by (simp add: list_all_iff)
  then show ?thesis
    using find_distinct [OF regdb_distinct assms] by (simp add: skw_get_regd_def alpha2_equal_key)
qed

text \<open>
  C29. Whatever country of the database is in force and whichever of the driver's bands the chip
  has, the rule table built for the firmware never has more than the eight rules that its
  message has room for, so the unchecked writes of \<^verbatim>\<open>skw_cmd_set_regdom\<close> stay inside it.
\<close>

theorem regd_table_fits:
  assumes "rd \<in> set skw_regdb" "rg_regd st = Some rd" "rg_bands st = skw_bands with5 with6"
  shows "length (regd_table (skw_regd_rule kern st) (rg_bands st)) \<le> 8"
proof -
  have "skw_regd_rule kern st = (\<lambda>f. info rd (MHZ_TO_KHZ f))"
    using assms(2) by (simp add: skw_regd_rule_def fun_eq_iff)
  from table_bound [OF regdb_mem [OF assms(1)] skw_bands_ok this] show ?thesis
    by (simp add: regd_table_flat assms(3))
qed

definition st_us :: regd_state where
  "st_us = \<lparr>rg_country = code ''00'', rg_regd = Some regdom_US, rg_self_managed = True,
     rg_no_beacon_hints = True, rg_bands = skw_bands True False\<rparr>"

theorem regd_table_fits_witness:
  "regdom_US \<in> set skw_regdb \<and> length (regd_table (skw_regd_rule (\<lambda>f. Inl (- EINVAL)) st_us) (rg_bands st_us)) \<le> 8"
proof -
  have "regdom_US \<in> set skw_regdb" by (simp add: skw_regdb_def)
  with regd_table_fits [of regdom_US st_us True False "\<lambda>f. Inl (- EINVAL)"] show ?thesis by (simp add: st_us_def)
qed

definition governing_rule :: "ieee80211_regdomain \<Rightarrow> int \<Rightarrow> nat option" where
  "governing_rule rd f = List.find
     (\<lambda>k. uint (start_freq_khz (reg_rules rd ! k)) + 10000 \<le> f \<and> f + 10000 \<le> uint (end_freq_khz (reg_rules rd ! k)))
     [0..<length (reg_rules rd)]"

text \<open>
  C34. On the shipped database the rule that governs a frequency of the driver's channels is the
  first rule whose range holds the whole 20 MHz channel, and there is none exactly when no rule
  does: the running test of the band in \<^verbatim>\<open>skw_freq_reg_info\<close> changes no answer.
\<close>

theorem governing_rule_first_fit:
  assumes "rd \<in> set skw_regdb" "2412000 \<le> uint f" "uint f \<le> 7115000"
  shows "(case skw_freq_reg_info (Some rd) f of Inl e \<Rightarrow> None | Inr (k, rr) \<Rightarrow> Some (k, rr)) =
     map_option (\<lambda>k. (k, reg_rules rd ! k)) (governing_rule rd (uint f))"
proof -
  note d = regdb_mem [OF assms(1)]
  have c: "chan_khz f" using assms by (simp add: chan_khz_def)
  have fit: "fits r f \<longleftrightarrow> uint (start_freq_khz r) + 10000 \<le> uint f \<and> uint f + 10000 \<le> uint (end_freq_khz r)" for r
    using fits_iff [of f r] assms by simp
  have g: "governing_rule rd (uint f) = List.find (\<lambda>k. fits (reg_rules rd ! k) f) [0..<length (reg_rules rd)]"
    unfolding governing_rule_def by (simp add: fit)
  show ?thesis
  proof (cases "info rd f")
    case (Inl e)
    have "\<not> fits (reg_rules rd ! k) f" if "k < length (reg_rules rd)" for k
      using freq_reg_loop_found [OF that, of f 0 False] fits_in_band [OF _ c] Inl d
      by (auto simp: skw_freq_reg_info_def dom_ok_def list_all_iff)
    then have "governing_rule rd (uint f) = None" unfolding g by (auto simp: find_None_iff)
    then show ?thesis using Inl by simp
  next
    case (Inr x)
    obtain k rr where x: "x = (k, rr)" by force
    note i = info_first [OF d c Inr [unfolded x]]
    have "governing_rule rd (uint f) = Some k"
      unfolding g find_Some_iff using i by (intro exI [of _ k]) auto
    then show ?thesis using Inr x i by simp
  qed
qed

theorem governing_rule_first_fit_witness:
  "(case skw_freq_reg_info (Some regdom_US) 5180000 of Inl e \<Rightarrow> None | Inr (k, rr) \<Rightarrow> Some (k, rr)) =
     map_option (\<lambda>k. (k, reg_rules regdom_US ! k)) (governing_rule regdom_US 5180000)"
proof -
  have "regdom_US \<in> set skw_regdb" by (simp add: skw_regdb_def)
  from governing_rule_first_fit [OF this, of 5180000] show ?thesis by simp
qed

text \<open>
  Of the countries in the database exactly Guatemala and Serbia fail the driver's own check
  of the rules (each has a rule whose range is narrower than the bandwidth it allows), so setting them is
  refused; every other country passes.
\<close>

theorem regdb_validity:
  assumes "rd \<in> set skw_regdb"
  shows "is_skw_valid_rd rd \<longleftrightarrow> alpha2 rd \<noteq> code ''GT'' \<and> alpha2 rd \<noteq> code ''RS''"
  using regdb_valid assms by (simp add: list_all_iff valid_except_def)

theorem regdb_validity_witness: "is_skw_valid_rd regdom_US \<and> \<not> is_skw_valid_rd regdom_GT"
proof -
  have "regdom_US \<in> set skw_regdb" "regdom_GT \<in> set skw_regdb" by (simp_all add: skw_regdb_def)
  from this [THEN regdb_validity] show ?thesis by (simp add: regdom_US_def regdom_GT_def code_inj)
qed

text \<open>
  Looking a country up by its own code returns that country: no code of the database is
  shadowed by an earlier entry, and every code passes the letter check.
\<close>

theorem country_lookup_roundtrip:
  assumes "rd \<in> set skw_regdb"
  shows "skw_get_regd skw_regdb (alpha2 rd) = Some rd"
  using get_regd_self [OF assms] .

theorem country_lookup_roundtrip_witness: "skw_get_regd skw_regdb (code ''US'') = Some regdom_US"
proof -
  have "regdom_US \<in> set skw_regdb" by (simp add: skw_regdb_def)
  from country_lookup_roundtrip [OF this] show ?thesis by (simp add: regdom_US_def)
qed

section \<open>Histories of country changes\<close>

text \<open>
  A request to change the country with the answers it gets: of the kernel to the domain, of the firmware to
  the table, and of \<open>regulatory_hint\<close>.
\<close>

record country_request =
  rq_code :: "u8 list"
  rq_kernel :: "ieee80211_regdomain \<Rightarrow> int"
  rq_firmware :: "skw_regdom \<Rightarrow> int"
  rq_hint :: "u8 list \<Rightarrow> int"

definition country_request_run ::
  "ieee80211_regdomain list \<Rightarrow> (u32 \<Rightarrow> int + (nat \<times> ieee80211_reg_rule)) \<Rightarrow> country_request \<Rightarrow> regd_state \<Rightarrow> int \<times> regd_state" where
  "country_request_run db kern r st =
     skw_set_regdom db (rq_kernel r) kern (rq_firmware r) (rq_hint r) (rq_code r) st"

definition country_history ::
  "ieee80211_regdomain list \<Rightarrow> (u32 \<Rightarrow> int + (nat \<times> ieee80211_reg_rule)) \<Rightarrow> country_request list \<Rightarrow> regd_state \<Rightarrow> regd_state" where
  "country_history db kern rs st = fold (\<lambda>r st. snd (country_request_run db kern r st)) rs st"

text \<open>
  What a request is worth by itself: the domain it names, if there is one with valid rules; the table
  that this domain gives; whether the firmware takes it over.
\<close>

definition named_domain :: "ieee80211_regdomain list \<Rightarrow> country_request \<Rightarrow> ieee80211_regdomain option" where
  "named_domain db r = List.find is_skw_valid_rd (case skw_get_regd db (rq_code r) of None \<Rightarrow> [] | Some rd \<Rightarrow> [rd])"

definition domain_table :: "ieee80211_channel list option list \<Rightarrow> ieee80211_regdomain \<Rightarrow> skw_reg_rule list" where
  "domain_table bands rd = regd_table (\<lambda>f. skw_freq_reg_info (Some rd) (MHZ_TO_KHZ f)) bands"

definition table_message :: "ieee80211_channel list option list \<Rightarrow> country_request \<Rightarrow> ieee80211_regdomain \<Rightarrow> skw_regdom" where
  "table_message bands r rd = \<lparr>country = [rq_code r ! 0, rq_code r ! 1, 0], rules = domain_table bands rd\<rparr>"

definition puts_in_force :: "ieee80211_regdomain list \<Rightarrow> country_request \<Rightarrow> bool" where
  "puts_in_force db r \<longleftrightarrow> named_domain db r \<noteq> None"

definition reaches_firmware :: "ieee80211_regdomain list \<Rightarrow> ieee80211_channel list option list \<Rightarrow> country_request \<Rightarrow> bool" where
  "reaches_firmware db bands r =
     (case named_domain db r of
        None \<Rightarrow> False
      | Some rd \<Rightarrow> rq_kernel r rd = 0 \<and> domain_table bands rd \<noteq> [] \<and> rq_firmware r (table_message bands r rd) = 0)"

definition request_result :: "ieee80211_regdomain list \<Rightarrow> ieee80211_channel list option list \<Rightarrow> country_request \<Rightarrow> int" where
  "request_result db bands r =
     (case named_domain db r of
        None \<Rightarrow> - EINVAL
      | Some rd \<Rightarrow>
          if rq_kernel r rd \<noteq> 0 then rq_kernel r rd
          else if domain_table bands rd = [] then 0 else rq_firmware r (table_message bands r rd))"

definition last_or :: "'b \<Rightarrow> ('a \<Rightarrow> 'b) \<Rightarrow> 'a list \<Rightarrow> 'b" where
  "last_or d f xs = (if xs = [] then d else f (last xs))"

lemma last_or_simps [simp]: "last_or d f [] = d" "last_or d f (xs @ [x]) = f x"
  by (simp_all add: last_or_def)

lemma country_request_self_managed:
  assumes "rg_self_managed st" "length (rq_code r) = 2"
  shows "country_request_run db kern r st =
    (request_result db (rg_bands st) r,
     st\<lparr>rg_regd := (if puts_in_force db r then named_domain db r else rg_regd st),
        rg_no_beacon_hints := (if puts_in_force db r then take 2 (rq_code r) \<noteq> code ''00'' else rg_no_beacon_hints st),
        rg_country := (if reaches_firmware db (rg_bands st) r then take 2 (rq_code r) else rg_country st)\<rparr>)"
proof -
  have ne: "EINVAL \<noteq> 0" by (simp add: EINVAL_def)
  obtain x y where xy: "rq_code r = [x, y]" using assms(2) by (auto simp: length_Suc_conv numeral_2_eq_2)
  have code: "code ''00'' = [0x30, 0x30]" by (simp add: code_def)
  have rule: "skw_regd_rule kern (s\<lparr>rg_no_beacon_hints := b, rg_regd := Some rd\<rparr>) =
      (\<lambda>f. skw_freq_reg_info (Some rd) (MHZ_TO_KHZ f))" for s b rd
    by (simp add: skw_regd_rule_def fun_eq_iff)
  note defs = country_request_run_def skw_set_regdom_def skw_set_wiphy_regd_def named_domain_def puts_in_force_def
    reaches_firmware_def request_result_def
  consider (bad) "\<not> is_skw_valid_reg_code (rq_code r)" | (unknown) "is_skw_valid_reg_code (rq_code r)" "skw_get_regd db (rq_code r) = None"
    | (known) rd where "is_skw_valid_reg_code (rq_code r)" "skw_get_regd db (rq_code r) = Some rd" by blast
  then show ?thesis
  proof cases
    case bad
    then have "skw_get_regd db (rq_code r) = None" by (simp add: skw_get_regd_def)
    with bad show ?thesis by (simp add: defs)
  next
    case unknown
    then show ?thesis using assms ne by (simp add: defs)
  next
    case known
    show ?thesis
    proof (cases "is_skw_valid_rd rd")
      case False
      then show ?thesis using assms known ne by (simp add: defs)
    next
      case True
      then show ?thesis using assms known
        by (simp add: defs skw_cmd_set_regdom_def Let_def rule xy code domain_table_def table_message_def)
    qed
  qed
qed

lemma country_history_keeps:
  "rg_self_managed (country_history db kern rs st) = rg_self_managed st"
  "rg_bands (country_history db kern rs st) = rg_bands st"
proof (induction rs rule: rev_induct)
  case (snoc r rs)
  have "rg_self_managed (snd (country_request_run db kern r st)) = rg_self_managed st \<and>
      rg_bands (snd (country_request_run db kern r st)) = rg_bands st" for st
    by (simp add: country_request_run_def skw_set_regdom_def skw_set_wiphy_regd_def skw_cmd_set_regdom_def Let_def
        split: option.split)
  with snoc show "rg_self_managed (country_history db kern (rs @ [r]) st) = rg_self_managed st"
    "rg_bands (country_history db kern (rs @ [r]) st) = rg_bands st"
    by (simp_all add: country_history_def)
qed (simp_all add: country_history_def)

text \<open>
  C38. After any history of requests, whatever the kernel and the firmware answered, the regulatory state
  depends on at most two of them. A driver that manages regulation itself has in force the domain of
  the last request that named one with valid rules, has beacon hints disabled exactly when that was
  not the world domain, and has stored the country of the last request whose table the kernel let
  through and the firmware took, which may be an older one. The next request returns the first error
  on its way, whatever came before. A driver that leaves regulation to the kernel keeps its state and
  returns the kernel's answer for every well-formed code.
\<close>

theorem country_history_determined:
  assumes "list_all (\<lambda>r. length (rq_code r) = 2) rs" "length (rq_code r) = 2"
  shows "let st = country_history db kern rs st0; forced = filter (puts_in_force db) rs;
      sent = filter (reaches_firmware db (rg_bands st0)) rs in
    if rg_self_managed st0 then
      rg_regd st = last_or (rg_regd st0) (named_domain db) forced \<and>
      rg_no_beacon_hints st = last_or (rg_no_beacon_hints st0) (\<lambda>r. rq_code r \<noteq> code ''00'') forced \<and>
      rg_country st = last_or (rg_country st0) rq_code sent \<and>
      fst (country_request_run db kern r st) = request_result db (rg_bands st0) r
    else
      st = st0 \<and>
      fst (country_request_run db kern r st) =
        (if is_skw_valid_reg_code (rq_code r) then rq_hint r (rq_code r) else - EINVAL)"
proof (cases "rg_self_managed st0")
  case False
  have one: "snd (country_request_run db kern r st0) = st0" for r
    using False by (simp add: country_request_run_def skw_set_regdom_def)
  have "country_history db kern rs st0 = st0"
    by (induction rs) (simp_all add: country_history_def one)
  with False show ?thesis by (simp add: country_request_run_def skw_set_regdom_def Let_def)
next
  case True
  let ?st = "country_history db kern"
  have "rg_regd (?st rs st0) = last_or (rg_regd st0) (named_domain db) (filter (puts_in_force db) rs) \<and>
      rg_no_beacon_hints (?st rs st0) =
        last_or (rg_no_beacon_hints st0) (\<lambda>r. rq_code r \<noteq> code ''00'') (filter (puts_in_force db) rs) \<and>
      rg_country (?st rs st0) = last_or (rg_country st0) rq_code (filter (reaches_firmware db (rg_bands st0)) rs)"
    using assms(1)
  proof (induction rs rule: rev_induct)
    case (snoc q rs)
    have "rg_self_managed (?st rs st0)" using True by (simp add: country_history_keeps)
    moreover have q: "length (rq_code q) = 2" using snoc.prems by simp
    ultimately have "?st (rs @ [q]) st0 = (?st rs st0)
        \<lparr>rg_regd := (if puts_in_force db q then named_domain db q else rg_regd (?st rs st0)),
         rg_no_beacon_hints := (if puts_in_force db q then rq_code q \<noteq> code ''00'' else rg_no_beacon_hints (?st rs st0)),
         rg_country := (if reaches_firmware db (rg_bands st0) q then rq_code q else rg_country (?st rs st0))\<rparr>"
      using country_request_self_managed [of "?st rs st0" q db kern]
      by (simp add: country_history_def country_history_keeps(2) [unfolded country_history_def])
    with snoc show ?case by simp
  qed (simp add: country_history_def)
  moreover have "fst (country_request_run db kern r (?st rs st0)) = request_result db (rg_bands st0) r"
    using country_request_self_managed [of "?st rs st0" r db kern] True assms(2) by (simp add: country_history_keeps)
  ultimately show ?thesis using True by (simp add: Let_def)
qed

text \<open>The worldwide domain XW accepted, then Guatemala, whose rules are invalid, then Germany, which the firmware refuses.\<close>

definition ask :: "string \<Rightarrow> int \<Rightarrow> country_request" where
  "ask c fw = \<lparr>rq_code = code c, rq_kernel = (\<lambda>rd. 0), rq_firmware = (\<lambda>t. fw), rq_hint = (\<lambda>a. 0)\<rparr>"

definition one_channel :: "ieee80211_channel list option list" where
  "one_channel = [Some [SKW_CHAN2G 1 2412]]"

definition st_world :: regd_state where
  "st_world = \<lparr>rg_country = code ''00'', rg_regd = None, rg_self_managed = True, rg_no_beacon_hints = False,
     rg_bands = one_channel\<rparr>"

definition three_requests :: "country_request list" where
  "three_requests = [ask ''XW'' 0, ask ''GT'' 0, ask ''DE'' (- EIO)]"

lemma named_by_code:
  assumes "rd \<in> set skw_regdb" "alpha2 rd = code c"
  shows "named_domain skw_regdb (ask c fw) = (if is_skw_valid_rd rd then Some rd else None)"
  using get_regd_self [OF assms(1)] assms(2) by (simp add: named_domain_def ask_def)

theorem country_history_determined_witness:
  "let st = country_history skw_regdb (\<lambda>f. Inl 0) three_requests (st_world) in
   rg_regd st = Some regdom_DE \<and> rg_country st = code ''XW'' \<and> rg_no_beacon_hints st"
proof -
  have db: "regdom_XW \<in> set skw_regdb" "regdom_GT \<in> set skw_regdb" "regdom_DE \<in> set skw_regdb"
    by (simp_all add: skw_regdb_def)
  have a: "alpha2 regdom_XW = code ''XW''" "alpha2 regdom_GT = code ''GT''" "alpha2 regdom_DE = code ''DE''"
    by (simp_all add: regdom_XW_def regdom_GT_def regdom_DE_def)
  have "is_skw_valid_rd rd \<longleftrightarrow> alpha2 rd \<noteq> code ''GT'' \<and> alpha2 rd \<noteq> code ''RS''" if "rd \<in> set skw_regdb" for rd
    using regdb_valid that unfolding list_all_iff valid_except_def by blast
  note this [OF db(1), unfolded a] this [OF db(2), unfolded a] this [OF db(3), unfolded a]
  then have valid: "is_skw_valid_rd regdom_XW" "\<not> is_skw_valid_rd regdom_GT" "is_skw_valid_rd regdom_DE"
    by (simp_all add: code_inj)
  have named: "named_domain skw_regdb (ask ''XW'' 0) = Some regdom_XW" "named_domain skw_regdb (ask ''GT'' 0) = None"
    "named_domain skw_regdb (ask ''DE'' (- EIO)) = Some regdom_DE"
    using named_by_code [OF db(1) a(1)] named_by_code [OF db(2) a(2)] named_by_code [OF db(3) a(3)] valid by simp_all
  have "skw_freq_reg_info (Some regdom_XW) (MHZ_TO_KHZ 2412) = Inr (0, hd (reg_rules regdom_XW))"
    by (simp add: skw_freq_reg_info_def regdom_XW_def REG_RULE_EXT_def khz_def skw_freq_in_rule_band_def
        skw_does_bw_fit_range_def abs_diff_def MHZ_TO_KHZ_def)
  moreover have "rr_flags (hd (reg_rules regdom_XW)) = 0" by (simp add: regdom_XW_def REG_RULE_EXT_def)
  ultimately have "domain_table one_channel regdom_XW \<noteq> []"
    by (simp add: domain_table_def one_channel_def regd_table_def regd_chan_step_def SKW_CHAN2G_def extend_last_def)
  then have sent: "reaches_firmware skw_regdb one_channel (ask ''XW'' 0)"
    "\<not> reaches_firmware skw_regdb one_channel (ask ''GT'' 0)"
    "\<not> reaches_firmware skw_regdb one_channel (ask ''DE'' (- EIO))"
    using named by (simp_all add: reaches_firmware_def) (simp_all add: ask_def EIO_def)
  have len: "list_all (\<lambda>r. length (rq_code r) = 2) three_requests" by (simp add: three_requests_def ask_def code_def)
  moreover have "length (rq_code (ask ''XW'' 0)) = 2" by (simp add: ask_def code_def)
  ultimately show ?thesis
    using country_history_determined [OF len, of "ask ''XW'' 0" skw_regdb "\<lambda>f. Inl 0" "st_world"] named sent
    by (simp add: Let_def three_requests_def puts_in_force_def st_world_def last_or_def)
       (simp add: ask_def code_inj)
qed

end
