(* ===== verification/Skw_Timer.thy ===== *)
theory Skw_Timer
  imports Skw_Prelude
begin

text \<open>
  The software timers of \<^verbatim>\<open>skw_timer.c\<close>: a list of pending timers served by one kernel timer.
  Addresses (identifier, callback, name) are numbers, zero is the null pointer; the conversion
  of milliseconds to jiffies is a parameter. The lock protects single sections only: adding a
  timer drops it between the search for the identifier and the insertion, the handler of the
  kernel timer drops it while callbacks run and decrements the counter outside it. These parts
  are separate steps of a step relation, between which other threads run.
\<close>

section \<open>Model\<close>

record skw_timer =
  tm_timeout :: u64
  tm_cb :: nat
  tm_id :: nat
  tm_data :: nat
  tm_name :: nat

text \<open>\<open>tm_pending\<close> is the expiry of the kernel timer when it is pending.\<close>

record skw_timer_data =
  tm_count :: int
  tm_list :: "skw_timer list"
  tm_pending :: "u64 option"

definition skw_timer_init :: skw_timer_data where
  "skw_timer_init = \<lparr>tm_count = 0, tm_list = [], tm_pending = None\<rparr>"

definition skw_timer_id_exist :: "skw_timer list \<Rightarrow> nat \<Rightarrow> bool" where
  "skw_timer_id_exist l i = list_ex (\<lambda>t. tm_id t = i) l"

text \<open>
  The place of a new timer: \<open>list_add\<close> links it behind the first node that expires no earlier,
  and behind the list head, which is the front, when there is none.
\<close>

fun add_behind :: "skw_timer \<Rightarrow> skw_timer list \<Rightarrow> skw_timer list option" where
  "add_behind t [] = None"
| "add_behind t (n # ns) =
     (if time_before_eq (tm_timeout t) (tm_timeout n) then Some (n # t # ns)
      else map_option ((#) n) (add_behind t ns))"

definition timer_insert :: "skw_timer \<Rightarrow> skw_timer list \<Rightarrow> skw_timer list" where
  "timer_insert t l = (case add_behind t l of None \<Rightarrow> t # l | Some l' \<Rightarrow> l')"

text \<open>
  Adding a timer has two parts: the checks and the allocation, which end with the lock released,
  and the insertion under the lock.
\<close>

definition add_timer_check ::
  "(u64 \<Rightarrow> u64) \<Rightarrow> bool \<Rightarrow> u64 \<Rightarrow> nat \<Rightarrow> nat \<Rightarrow> nat \<Rightarrow> u64 \<Rightarrow> nat \<Rightarrow> skw_timer_data \<Rightarrow> int + skw_timer" where
  "add_timer_check to_jiffies alloc now name cb dat timeout i st =
     (if i = 0 \<or> cb = 0 \<or> name = 0 then Inl (- EINVAL)
      else if skw_timer_id_exist (tm_list st) i then Inl (- EINVAL)
      else if \<not> alloc then Inl (- ENOMEM)
      else Inr \<lparr>tm_timeout = to_jiffies timeout + now + 1, tm_cb = cb, tm_id = i, tm_data = dat, tm_name = name\<rparr>)"

definition add_timer_link :: "skw_timer \<Rightarrow> skw_timer_data \<Rightarrow> skw_timer_data" where
  "add_timer_link t st =
     (let l = timer_insert t (tm_list st) in
      st\<lparr>tm_list := l, tm_count := tm_count st + 1, tm_pending := Some (tm_timeout (hd l))\<rparr>)"

definition skw_add_timer_work ::
  "(u64 \<Rightarrow> u64) \<Rightarrow> bool \<Rightarrow> u64 \<Rightarrow> nat \<Rightarrow> nat \<Rightarrow> nat \<Rightarrow> u64 \<Rightarrow> nat \<Rightarrow> skw_timer_data \<Rightarrow> int \<times> skw_timer_data" where
  "skw_add_timer_work to_jiffies alloc now name cb dat timeout i st =
     (case add_timer_check to_jiffies alloc now name cb dat timeout i st of
        Inl r \<Rightarrow> (r, st) | Inr t \<Rightarrow> (0, add_timer_link t st))"

definition timer_rearm :: "skw_timer_data \<Rightarrow> skw_timer_data" where
  "timer_rearm st = (case tm_list st of [] \<Rightarrow> st | t # _ \<Rightarrow> st\<lparr>tm_pending := Some (tm_timeout t)\<rparr>)"

fun timer_unlink :: "nat \<Rightarrow> skw_timer list \<Rightarrow> skw_timer list option" where
  "timer_unlink i [] = None"
| "timer_unlink i (t # ts) = (if tm_id t = i then Some ts else map_option ((#) t) (timer_unlink i ts))"

definition skw_del_timer_work :: "nat \<Rightarrow> skw_timer_data \<Rightarrow> skw_timer_data" where
  "skw_del_timer_work i st =
     timer_rearm (case timer_unlink i (tm_list st) of
        None \<Rightarrow> st | Some l \<Rightarrow> st\<lparr>tm_list := l, tm_count := tm_count st - 1\<rparr>)"

text \<open>
  The first loop of the handler moves expired timers, one by one, to the front of a local list.
  It reads the clock for every timer: \<open>clk k\<close> is the reading for the \<open>k\<close>-th, kept beside it.
\<close>

fun timer_collect ::
  "(nat \<Rightarrow> u64) \<Rightarrow> skw_timer list \<Rightarrow> (skw_timer \<times> u64) list \<Rightarrow> skw_timer list \<times> (skw_timer \<times> u64) list" where
  "timer_collect clk [] out = ([], out)"
| "timer_collect clk (t # ts) out =
     (if time_before (clk 0) (tm_timeout t) then (t # ts, out)
      else timer_collect (\<lambda>k. clk (Suc k)) ts ((t, clk 0) # out))"

text \<open>\<open>run_cb\<close> is what a callback does to the timers.\<close>

definition timer_fire :: "(skw_timer \<Rightarrow> skw_timer_data \<Rightarrow> skw_timer_data) \<Rightarrow> skw_timer \<Rightarrow> skw_timer_data \<Rightarrow> skw_timer_data" where
  "timer_fire run_cb t st = (let st1 = run_cb t st in st1\<lparr>tm_count := tm_count st1 - 1\<rparr>)"

text \<open>The kernel timer is no longer pending when its function runs.\<close>

definition skw_timer_work ::
  "(skw_timer \<Rightarrow> skw_timer_data \<Rightarrow> skw_timer_data) \<Rightarrow> (nat \<Rightarrow> u64) \<Rightarrow> skw_timer_data \<Rightarrow> skw_timer_data" where
  "skw_timer_work run_cb clk st =
     (let (l, out) = timer_collect clk (tm_list st) [] in
      timer_rearm (fold (timer_fire run_cb) (map fst out) (st\<lparr>tm_list := l, tm_pending := None\<rparr>)))"

text \<open>\<open>skw_timer_deinit\<close> first deletes the kernel timer and then, under the lock, takes the list.\<close>

definition deinit_stop :: "skw_timer_data \<Rightarrow> skw_timer_data" where
  "deinit_stop st = st\<lparr>tm_pending := None\<rparr>"

definition deinit_flush :: "skw_timer_data \<Rightarrow> skw_timer_data" where
  "deinit_flush st = st\<lparr>tm_list := []\<rparr>"

definition skw_timer_deinit :: "skw_timer_data \<Rightarrow> skw_timer_data" where
  "skw_timer_deinit st = deinit_flush (deinit_stop st)"

section \<open>The system of timers and handler\<close>

text \<open>
  The handler is idle, in its loop over the local list, in a callback, or has read the counter
  that it is about to write back decremented.
\<close>

datatype timer_handler =
    Th_idle
  | Th_loop "(skw_timer \<times> u64) list"
  | Th_call "(skw_timer \<times> u64) list"
  | Th_count int "(skw_timer \<times> u64) list"

text \<open>
  The timers with the threads in progress: the timers that passed the checks and are not yet
  inserted, the handler, and whether \<open>skw_timer_deinit\<close> is between its two parts; and the
  history of timers inserted, fired (with the clock reading) and cancelled or freed at the end,
  with the number of the latter.
\<close>

record timer_sys =
  ts_data :: skw_timer_data
  ts_adding :: "skw_timer list"
  ts_handler :: timer_handler
  ts_closing :: bool
  ts_added :: "skw_timer list"
  ts_fired :: "(skw_timer \<times> u64) list"
  ts_cancelled :: "skw_timer list"
  ts_flushed :: nat

definition timer_sys_init :: timer_sys where
  "timer_sys_init = \<lparr>ts_data = skw_timer_init, ts_adding = [], ts_handler = Th_idle, ts_closing = False,
     ts_added = [], ts_fired = [], ts_cancelled = [], ts_flushed = 0\<rparr>"

fun handler_list :: "timer_handler \<Rightarrow> (skw_timer \<times> u64) list" where
  "handler_list Th_idle = []"
| "handler_list (Th_loop l) = l"
| "handler_list (Th_call l) = l"
| "handler_list (Th_count c l) = l"

text \<open>A timer whose callback was called and which is still in the counter.\<close>

fun handler_uncounted :: "timer_handler \<Rightarrow> nat" where
  "handler_uncounted (Th_call l) = 1"
| "handler_uncounted (Th_count c l) = 1"
| "handler_uncounted h = 0"

fun handler_counting :: "timer_handler \<Rightarrow> bool" where
  "handler_counting (Th_count c l) = True"
| "handler_counting h = False"

definition in_flight :: "timer_sys \<Rightarrow> skw_timer list" where
  "in_flight s = map fst (handler_list (ts_handler s))"

text \<open>
  The kernel runs the handler when its timer is due; the handler is not run twice at a time.
  A callback may add and cancel timers, which the rules for those operations cover. The parameter
  \<open>race\<close> allows everything that the code allows. Without it the callers serialise the additions of
  one identifier, and no timer is inserted or cancelled between the handler's reading and
  writing of the counter.
\<close>

inductive timer_step :: "bool \<Rightarrow> timer_sys \<Rightarrow> timer_sys \<Rightarrow> bool" for race where
  add_check: "add_timer_check tj True now name cb dat timeout i (ts_data s) = Inr t \<Longrightarrow>
     race \<or> i \<notin> tm_id ` set (ts_adding s) \<Longrightarrow>
     timer_step race s (s\<lparr>ts_adding := t # ts_adding s\<rparr>)"
| add_fails: "add_timer_check tj alloc now name cb dat timeout i (ts_data s) = Inl r \<Longrightarrow> timer_step race s s"
| add_link: "ts_adding s = pre @ t # post \<Longrightarrow> race \<or> \<not> handler_counting (ts_handler s) \<Longrightarrow>
     timer_step race s (s\<lparr>ts_data := add_timer_link t (ts_data s), ts_adding := pre @ post,
       ts_added := ts_added s @ [t]\<rparr>)"
| del: "race \<or> \<not> handler_counting (ts_handler s) \<Longrightarrow>
     timer_step race s (s\<lparr>ts_data := skw_del_timer_work i (ts_data s),
       ts_cancelled := ts_cancelled s @ (case find (\<lambda>t. tm_id t = i) (tm_list (ts_data s)) of
          None \<Rightarrow> [] | Some t \<Rightarrow> [t])\<rparr>)"
| expire: "ts_handler s = Th_idle \<Longrightarrow> tm_pending (ts_data s) = Some e \<Longrightarrow> \<not> time_before (clk 0) e \<Longrightarrow>
     timer_collect clk (tm_list (ts_data s)) [] = (l, out) \<Longrightarrow>
     timer_step race s (s\<lparr>ts_data := (ts_data s)\<lparr>tm_list := l, tm_pending := None\<rparr>, ts_handler := Th_loop out\<rparr>)"
| call: "ts_handler s = Th_loop (f # out) \<Longrightarrow>
     timer_step race s (s\<lparr>ts_handler := Th_call out, ts_fired := ts_fired s @ [f]\<rparr>)"
| count_read: "ts_handler s = Th_call out \<Longrightarrow>
     timer_step race s (s\<lparr>ts_handler := Th_count (tm_count (ts_data s)) out\<rparr>)"
| count_write: "ts_handler s = Th_count c out \<Longrightarrow>
     timer_step race s (s\<lparr>ts_data := (ts_data s)\<lparr>tm_count := c - 1\<rparr>, ts_handler := Th_loop out\<rparr>)"
| finish: "ts_handler s = Th_loop [] \<Longrightarrow>
     timer_step race s (s\<lparr>ts_data := timer_rearm (ts_data s), ts_handler := Th_idle\<rparr>)"
| stop: "timer_step race s (s\<lparr>ts_data := deinit_stop (ts_data s), ts_closing := True\<rparr>)"
| flush: "ts_closing s \<Longrightarrow>
     timer_step race s (s\<lparr>ts_data := deinit_flush (ts_data s), ts_closing := False,
       ts_cancelled := ts_cancelled s @ tm_list (ts_data s),
       ts_flushed := ts_flushed s + length (tm_list (ts_data s))\<rparr>)"

inductive_cases timer_stepE: "timer_step race s s'"

definition timer_reachable :: "bool \<Rightarrow> timer_sys \<Rightarrow> bool" where
  "timer_reachable race = (timer_step race)\<^sup>*\<^sup>* timer_sys_init"

section \<open>Lists of timers\<close>

lemma add_behind_mset: "add_behind t l = Some l' \<Longrightarrow> mset l' = add_mset t (mset l)"
  by (induction l arbitrary: l') (auto split: if_splits)

lemma timer_insert_mset [simp]: "mset (timer_insert t l) = add_mset t (mset l)"
  by (auto simp: timer_insert_def dest: add_behind_mset split: option.splits)

lemma timer_insert_set [simp]: "set (timer_insert t l) = insert t (set l)"
  using timer_insert_mset [of t l] by (metis set_mset_add_mset_insert set_mset_mset)

lemma timer_insert_length [simp]: "length (timer_insert t l) = Suc (length l)"
  using timer_insert_mset [of t l] by (metis size_add_mset size_mset)

abbreviation ids :: "skw_timer list \<Rightarrow> nat list" where
  "ids \<equiv> map tm_id"

lemma distinct_ids_insert: "distinct (ids (timer_insert t l)) \<longleftrightarrow> tm_id t \<notin> set (ids l) \<and> distinct (ids l)"
proof -
  have "mset (ids (timer_insert t l)) = mset (tm_id t # ids l)" by simp
  from mset_eq_imp_distinct_iff [OF this] show ?thesis by auto
qed

lemma timer_unlink_None: "timer_unlink i l = None \<longleftrightarrow> i \<notin> set (ids l)"
  by (induction l) auto

lemma timer_unlink_find:
  "timer_unlink i l = Some l' \<Longrightarrow> \<exists>t pre post. find (\<lambda>t. tm_id t = i) l = Some t \<and> l = pre @ t # post \<and> l' = pre @ post"
proof (induction l arbitrary: l')
  case (Cons t ts)
  show ?case
  proof (cases "tm_id t = i")
    case True
    with Cons.prems have "find (\<lambda>t. tm_id t = i) (t # ts) = Some t" "t # ts = [] @ t # ts" "l' = [] @ ts" by simp_all
    then show ?thesis by blast
  next
    case False
    then obtain l1 where l1: "timer_unlink i ts = Some l1" "l' = t # l1" using Cons.prems by auto
    from Cons.IH [OF l1(1)] obtain u pre post where
      "find (\<lambda>t. tm_id t = i) ts = Some u" "ts = pre @ u # post" "l1 = pre @ post" by blast
    with False l1 have "find (\<lambda>t. tm_id t = i) (t # ts) = Some u" "t # ts = (t # pre) @ u # post" "l' = (t # pre) @ post"
      by simp_all
    then show ?thesis by blast
  qed
qed simp

lemma timer_collect_split:
  "timer_collect clk l out = (l', out') \<Longrightarrow>
     \<exists>pre. l = map fst pre @ l' \<and> out' = rev pre @ out \<and> (\<forall>(t, now) \<in> set pre. \<not> time_before now (tm_timeout t)) \<and>
       (l \<noteq> [] \<and> \<not> time_before (clk 0) (tm_timeout (hd l)) \<longrightarrow> pre \<noteq> [] \<and> hd pre = (hd l, clk 0))"
proof (induction clk l out rule: timer_collect.induct)
  case (2 clk t ts out)
  show ?case
  proof (cases "time_before (clk 0) (tm_timeout t)")
    case True
    with 2 show ?thesis by auto
  next
    case False
    with 2 obtain pre where "ts = map fst pre @ l'" "out' = rev pre @ (t, clk 0) # out"
      "\<forall>(t, now) \<in> set pre. \<not> time_before now (tm_timeout t)"
      by auto
    with False show ?thesis by (intro exI [of _ "(t, clk 0) # pre"]) auto
  qed
qed simp

section \<open>Invariant\<close>

definition timer_inv :: "timer_sys \<Rightarrow> bool" where
  "timer_inv s \<longleftrightarrow>
     0 \<notin> set (ids (tm_list (ts_data s) @ ts_adding s)) \<and>
     (ts_handler s = Th_idle \<longrightarrow> tm_list (ts_data s) \<noteq> [] \<longrightarrow>
        tm_pending (ts_data s) = Some (tm_timeout (hd (tm_list (ts_data s)))) \<or>
        tm_pending (ts_data s) = None \<and> ts_closing s) \<and>
     (\<forall>(t, now) \<in> set (ts_fired s @ handler_list (ts_handler s)). \<not> time_before now (tm_timeout t)) \<and>
     mset (ts_added s) = mset (tm_list (ts_data s)) + mset (in_flight s) + mset (map fst (ts_fired s)) + mset (ts_cancelled s)"

text \<open>What only holds without the races.\<close>

definition timer_serial_inv :: "timer_sys \<Rightarrow> bool" where
  "timer_serial_inv s \<longleftrightarrow>
     distinct (ids (tm_list (ts_data s) @ ts_adding s)) \<and>
     tm_count (ts_data s) = int (length (tm_list (ts_data s)) + length (in_flight s) +
       handler_uncounted (ts_handler s) + ts_flushed s) \<and>
     (\<forall>c l. ts_handler s = Th_count c l \<longrightarrow> c = tm_count (ts_data s))"

lemma timer_rearm_simps [simp]:
  "tm_list (timer_rearm d) = tm_list d"
  "tm_count (timer_rearm d) = tm_count d"
  "tm_list d \<noteq> [] \<Longrightarrow> tm_pending (timer_rearm d) = Some (tm_timeout (hd (tm_list d)))"
  by (auto simp: timer_rearm_def split: list.splits)

lemma add_timer_link_simps [simp]:
  "tm_list (add_timer_link t d) = timer_insert t (tm_list d)"
  "tm_count (add_timer_link t d) = tm_count d + 1"
  "tm_pending (add_timer_link t d) = Some (tm_timeout (hd (timer_insert t (tm_list d))))"
  by (simp_all add: add_timer_link_def Let_def)

lemma deinit_simps [simp]:
  "tm_list (deinit_stop d) = tm_list d" "tm_count (deinit_stop d) = tm_count d" "tm_pending (deinit_stop d) = None"
  "tm_list (deinit_flush d) = []" "tm_count (deinit_flush d) = tm_count d" "tm_pending (deinit_flush d) = tm_pending d"
  by (simp_all add: deinit_stop_def deinit_flush_def)

lemma add_timer_check_ok:
  "add_timer_check tj alloc now name cb dat timeout i d = Inr t \<Longrightarrow>
     tm_id t = i \<and> i \<noteq> 0 \<and> i \<notin> set (ids (tm_list d))"
  by (auto simp: add_timer_check_def skw_timer_id_exist_def list_ex_iff split: if_splits)

lemma del_timer_cases:
  obtains "find (\<lambda>t. tm_id t = i) (tm_list d) = None" "skw_del_timer_work i d = timer_rearm d"
  | t pre post where "find (\<lambda>t. tm_id t = i) (tm_list d) = Some t" "tm_list d = pre @ t # post"
      "skw_del_timer_work i d = timer_rearm (d\<lparr>tm_list := pre @ post, tm_count := tm_count d - 1\<rparr>)"
proof (cases "timer_unlink i (tm_list d)")
  case None
  then have "find (\<lambda>t. tm_id t = i) (tm_list d) = None"
    by (auto simp: timer_unlink_None find_None_iff)
  with None that(1) show ?thesis by (simp add: skw_del_timer_work_def)
next
  case (Some l)
  from timer_unlink_find [OF this] Some that(2) show ?thesis by (auto simp: skw_del_timer_work_def)
qed

lemma timer_step_inv:
  assumes "timer_step race s s'" "timer_inv s"
  shows "timer_inv s'"
  using assms
proof (induction rule: timer_step.induct)
  case (add_check tj now name cb dat timeout i s t)
  from add_timer_check_ok [OF add_check.hyps(1)] add_check.prems show ?case
    by (auto simp: timer_inv_def in_flight_def)
next
  case (add_link s pre t post)
  then show ?case by (auto simp: timer_inv_def in_flight_def)
next
  case (del s i)
  show ?case
  proof (rule del_timer_cases [of i "ts_data s"])
    assume "find (\<lambda>t. tm_id t = i) (tm_list (ts_data s)) = None"
      "skw_del_timer_work i (ts_data s) = timer_rearm (ts_data s)"
    with del show ?case by (simp add: timer_inv_def in_flight_def)
  next
    fix t pre post
    assume "find (\<lambda>t. tm_id t = i) (tm_list (ts_data s)) = Some t" "tm_list (ts_data s) = pre @ t # post"
      "skw_del_timer_work i (ts_data s) =
         timer_rearm ((ts_data s)\<lparr>tm_list := pre @ post, tm_count := tm_count (ts_data s) - 1\<rparr>)"
    with del show ?case by (auto simp: timer_inv_def in_flight_def)
  qed
next
  case (expire s e clk l out)
  from timer_collect_split [OF expire.hyps(4)] obtain pre where
    "tm_list (ts_data s) = map fst pre @ l" "out = rev pre" "\<forall>(t, now) \<in> set pre. \<not> time_before now (tm_timeout t)"
    by auto
  with expire show ?case by (auto simp: timer_inv_def in_flight_def)
qed (auto simp: timer_inv_def in_flight_def)

lemma timer_step_serial_inv:
  assumes "timer_step False s s'" "timer_serial_inv s"
  shows "timer_serial_inv s'"
  using assms
proof (induction rule: timer_step.induct)
  case (add_check tj now name cb dat timeout i s t)
  from add_timer_check_ok [OF add_check.hyps(1)] add_check.hyps(2) add_check.prems show ?case
    by (auto simp: timer_serial_inv_def in_flight_def)
next
  case (add_link s pre t post)
  then show ?case by (auto simp: timer_serial_inv_def in_flight_def distinct_ids_insert)
next
  case (del s i)
  show ?case
  proof (rule del_timer_cases [of i "ts_data s"])
    assume "find (\<lambda>t. tm_id t = i) (tm_list (ts_data s)) = None"
      "skw_del_timer_work i (ts_data s) = timer_rearm (ts_data s)"
    with del show ?case by (auto simp: timer_serial_inv_def in_flight_def)
  next
    fix t pre post
    assume "find (\<lambda>t. tm_id t = i) (tm_list (ts_data s)) = Some t" "tm_list (ts_data s) = pre @ t # post"
      "skw_del_timer_work i (ts_data s) =
         timer_rearm ((ts_data s)\<lparr>tm_list := pre @ post, tm_count := tm_count (ts_data s) - 1\<rparr>)"
    with del show ?case by (auto simp: timer_serial_inv_def in_flight_def)
  qed
next
  case (expire s e clk l out)
  from timer_collect_split [OF expire.hyps(4)] obtain pre where
    "tm_list (ts_data s) = map fst pre @ l" "out = rev pre"
    by auto
  with expire show ?case by (auto simp: timer_serial_inv_def in_flight_def)
qed (auto simp: timer_serial_inv_def in_flight_def)

lemma init_inv: "timer_inv timer_sys_init" "timer_serial_inv timer_sys_init"
  by (simp_all add: timer_inv_def timer_serial_inv_def timer_sys_init_def skw_timer_init_def in_flight_def)

lemma reachable_inv: "timer_reachable race s \<Longrightarrow> timer_inv s"
  unfolding timer_reachable_def
  by (induction rule: rtranclp_induct) (auto intro: timer_step_inv init_inv)

lemma reachable_serial_inv: "timer_reachable False s \<Longrightarrow> timer_serial_inv s"
  unfolding timer_reachable_def
  by (induction rule: rtranclp_induct) (auto intro: timer_step_serial_inv init_inv)

section \<open>Runs of the handler\<close>

lemma fire_one:
  assumes "ts_handler s = Th_loop (f # out)"
  shows "(timer_step race)\<^sup>*\<^sup>* s (s\<lparr>ts_data := timer_fire (\<lambda>_ d. d) (fst f) (ts_data s), ts_handler := Th_loop out,
       ts_fired := ts_fired s @ [f]\<rparr>)"
proof -
  define s1 where "s1 = s\<lparr>ts_handler := Th_call out, ts_fired := ts_fired s @ [f]\<rparr>"
  define s2 where "s2 = s1\<lparr>ts_handler := Th_count (tm_count (ts_data s1)) out\<rparr>"
  define s3 where "s3 = s2\<lparr>ts_data := (ts_data s2)\<lparr>tm_count := tm_count (ts_data s1) - 1\<rparr>, ts_handler := Th_loop out\<rparr>"
  have "timer_step race s s1" unfolding s1_def using assms by (rule timer_step.call)
  moreover have "timer_step race s1 s2" unfolding s2_def by (rule timer_step.count_read) (simp add: s1_def)
  moreover have "timer_step race s2 s3" unfolding s3_def by (rule timer_step.count_write) (simp add: s2_def)
  moreover have "s3 = s\<lparr>ts_data := timer_fire (\<lambda>_ d. d) (fst f) (ts_data s), ts_handler := Th_loop out,
       ts_fired := ts_fired s @ [f]\<rparr>"
    by (simp add: s3_def s2_def s1_def timer_fire_def Let_def)
  ultimately show ?thesis by (metis r_into_rtranclp rtranclp_trans)
qed

lemma fire_all:
  "ts_handler s = Th_loop out \<Longrightarrow>
     (timer_step race)\<^sup>*\<^sup>* s (s\<lparr>ts_data := fold (timer_fire (\<lambda>_ d. d)) (map fst out) (ts_data s), ts_handler := Th_loop [],
       ts_fired := ts_fired s @ out\<rparr>)"
proof (induction out arbitrary: s)
  case (Cons f out)
  define s1 where "s1 = s\<lparr>ts_data := timer_fire (\<lambda>_ d. d) (fst f) (ts_data s), ts_handler := Th_loop out,
       ts_fired := ts_fired s @ [f]\<rparr>"
  have "(timer_step race)\<^sup>*\<^sup>* s s1" unfolding s1_def by (rule fire_one [OF Cons.prems])
  moreover have "(timer_step race)\<^sup>*\<^sup>* s1 (s1\<lparr>ts_data := fold (timer_fire (\<lambda>_ d. d)) (map fst out) (ts_data s1),
       ts_handler := Th_loop [], ts_fired := ts_fired s1 @ out\<rparr>)" by (rule Cons.IH) (simp add: s1_def)
  ultimately have "(timer_step race)\<^sup>*\<^sup>* s (s1\<lparr>ts_data := fold (timer_fire (\<lambda>_ d. d)) (map fst out) (ts_data s1),
       ts_handler := Th_loop [], ts_fired := ts_fired s1 @ out\<rparr>)" by (rule rtranclp_trans)
  then show ?case by (simp add: s1_def)
next
  case Nil
  then have "s\<lparr>ts_handler := Th_loop []\<rparr> = s" by (cases s) simp
  then show ?case by (cases s) simp
qed

lemma fold_fire_list [simp]: "tm_list (fold (timer_fire (\<lambda>_ d. d)) out d) = tm_list d"
  by (induction out arbitrary: d) (simp_all add: timer_fire_def Let_def)

lemma handler_steps:
  assumes "ts_handler s = Th_idle" "tm_pending (ts_data s) = Some e" "\<not> time_before (clk 0) e"
  shows "(timer_step race)\<^sup>*\<^sup>* s (s\<lparr>ts_fired := ts_fired s @ snd (timer_collect clk (tm_list (ts_data s)) []),
     ts_data := skw_timer_work (\<lambda>_ d. d) clk (ts_data s), ts_handler := Th_idle\<rparr>)"
proof -
  obtain l out where c: "timer_collect clk (tm_list (ts_data s)) [] = (l, out)" by force
  let ?s1 = "s\<lparr>ts_data := (ts_data s)\<lparr>tm_list := l, tm_pending := None\<rparr>, ts_handler := Th_loop out\<rparr>"
  let ?s2 = "?s1\<lparr>ts_data := fold (timer_fire (\<lambda>_ d. d)) (map fst out) (ts_data ?s1), ts_handler := Th_loop [],
       ts_fired := ts_fired ?s1 @ out\<rparr>"
  from assms c have "(timer_step race)\<^sup>*\<^sup>* s ?s1" by (intro r_into_rtranclp timer_step.expire)
  also have "(timer_step race)\<^sup>*\<^sup>* ?s1 ?s2" by (rule fire_all) simp
  also have "timer_step race ?s2 (?s2\<lparr>ts_data := timer_rearm (ts_data ?s2), ts_handler := Th_idle\<rparr>)"
    by (rule timer_step.finish) simp
  finally show ?thesis using assms(1) c by (simp add: skw_timer_work_def)
qed

section \<open>Properties\<close>

text \<open>A timer of 100 ms and one of 200 ms, added at time 0 with jiffies of one millisecond.\<close>

definition short_timer :: skw_timer where
  "short_timer = \<lparr>tm_timeout = 101, tm_cb = 7, tm_id = 1, tm_data = 0, tm_name = 9\<rparr>"

definition long_timer :: skw_timer where
  "long_timer = \<lparr>tm_timeout = 201, tm_cb = 7, tm_id = 2, tm_data = 0, tm_name = 9\<rparr>"

definition sys_short :: timer_sys where
  "sys_short = \<lparr>ts_data = \<lparr>tm_count = 1, tm_list = [short_timer], tm_pending = Some 101\<rparr>, ts_adding = [],
     ts_handler = Th_idle, ts_closing = False, ts_added = [short_timer], ts_fired = [], ts_cancelled = [], ts_flushed = 0\<rparr>"

definition sys_adding :: timer_sys where
  "sys_adding = timer_sys_init\<lparr>ts_adding := [short_timer]\<rparr>"

lemma sys_adding_step: "timer_step race timer_sys_init sys_adding"
proof -
  have c: "add_timer_check (\<lambda>x. x) True 0 9 7 0 100 1 (ts_data timer_sys_init) = Inr short_timer"
    by (simp add: add_timer_check_def timer_sys_init_def skw_timer_init_def short_timer_def skw_timer_id_exist_def)
  show ?thesis
    using timer_step.add_check [where race = race, OF c] by (simp add: timer_sys_init_def sys_adding_def)
qed

lemma sys_short_reachable: "timer_reachable race sys_short"
proof -
  have "(timer_step race)\<^sup>*\<^sup>* timer_sys_init sys_adding" by (intro r_into_rtranclp sys_adding_step)
  also have "timer_step race sys_adding sys_short"
    using timer_step.add_link [of sys_adding "[]" short_timer "[]" race]
    by (simp add: sys_adding_def timer_sys_init_def sys_short_def skw_timer_init_def add_timer_link_def timer_insert_def
        short_timer_def)
  finally show ?thesis by (simp add: timer_reachable_def)
qed

text \<open>
  C17. Whatever the order in which threads add and cancel timers, timers expire and the module is
  closed, callbacks that add and cancel timers included: no callback runs before its timer's
  expiry, by the clock that the handler read for it, and every timer that was added is in exactly
  one place, pending, about to fire, fired once, or cancelled or freed at the end.
\<close>

theorem timers_safe:
  assumes "timer_reachable race s"
  shows "(\<forall>t now. (t, now) \<in> set (ts_fired s) \<longrightarrow> \<not> time_before now (tm_timeout t)) \<and>
    mset (ts_added s) =
      mset (tm_list (ts_data s)) + mset (in_flight s) + mset (map fst (ts_fired s)) + mset (ts_cancelled s)"
  using reachable_inv [OF assms] by (auto simp: timer_inv_def)

theorem timers_safe_witness: "timer_reachable True sys_short \<and> mset (ts_added sys_short) = {#short_timer#}"
  using timers_safe [OF sys_short_reachable [of True]] sys_short_reachable [of True]
  by (simp add: sys_short_def in_flight_def)

text \<open>
  C32. Over any interleaving (\<open>race\<close> or not), between runs of the handler the kernel timer is
  armed for the head of the list whenever there is one, except between the two parts of
  \<open>skw_timer_deinit\<close>. If moreover the callers serialise the additions of one identifier and
  nothing is inserted or cancelled between the handler's reading and writing of the counter (not
  \<open>race\<close>), the timers pending and about to be inserted have distinct identifiers, and the counter is
  the number of timers pending, about to fire or in their callback, and of timers that
  \<open>skw_timer_deinit\<close> freed. Lemmas \<open>adds_overlap\<close> and \<open>count_update_lost\<close> below show that
  the second part needs its conditions.
\<close>

theorem timers_invariant:
  assumes "timer_reachable race s"
  shows "(ts_handler s = Th_idle \<longrightarrow> tm_list (ts_data s) \<noteq> [] \<longrightarrow>
       tm_pending (ts_data s) = Some (tm_timeout (hd (tm_list (ts_data s)))) \<or>
       tm_pending (ts_data s) = None \<and> ts_closing s) \<and>
    (\<not> race \<longrightarrow>
       distinct (map tm_id (tm_list (ts_data s) @ ts_adding s)) \<and>
       tm_count (ts_data s) = int (length (tm_list (ts_data s)) + length (in_flight s) +
         handler_uncounted (ts_handler s) + ts_flushed s))"
  using reachable_inv [OF assms] reachable_serial_inv [of s] assms
  by (cases race) (simp_all add: timer_inv_def timer_serial_inv_def)

theorem timers_invariant_witness:
  "timer_reachable False sys_short \<and> tm_pending (ts_data sys_short) = Some 101 \<and> tm_count (ts_data sys_short) = 1"
  using timers_invariant [OF sys_short_reachable [of False]] sys_short_reachable [of False]
  by (simp add: sys_short_def in_flight_def short_timer_def)

text \<open>
  C33. The handler as one call (with callbacks that leave the timers alone) is a run of the step
  relation, and it makes progress: when the kernel timer is due, the timer at the head of the
  list fires and the list gets shorter, so pending timers cannot be stuck behind the handler.
\<close>

theorem timer_handler_progress:
  assumes "timer_reachable race s" "ts_handler s = Th_idle" "tm_list (ts_data s) = t # ts"
    and "tm_pending (ts_data s) = Some e" "\<not> time_before (clk 0) e"
  shows "\<exists>s'. (timer_step race)\<^sup>*\<^sup>* s s' \<and> ts_handler s' = Th_idle \<and>
     ts_data s' = skw_timer_work (\<lambda>_ d. d) clk (ts_data s) \<and>
     (t, clk 0) \<in> set (ts_fired s') \<and> length (tm_list (ts_data s')) < length (tm_list (ts_data s))"
proof -
  have due: "\<not> time_before (clk 0) (tm_timeout t)"
    using reachable_inv [OF assms(1)] assms by (simp add: timer_inv_def)
  obtain l out where c: "timer_collect clk (tm_list (ts_data s)) [] = (l, out)" by force
  from timer_collect_split [OF c] due assms(3) obtain pre where
    "t # ts = map fst pre @ l" "out = rev pre" "pre \<noteq> []" "hd pre = (t, clk 0)" by auto
  then have "(t, clk 0) \<in> set out" "length l < length (tm_list (ts_data s))"
    using assms(3) hd_in_set [of pre] by (auto simp: Cons_eq_append_conv)
  moreover note handler_steps [where race = race and clk = clk, OF assms(2,4,5)]
  ultimately show ?thesis using c by (force simp: skw_timer_work_def)
qed

theorem timer_handler_progress_witness:
  "\<exists>s'. (timer_step True)\<^sup>*\<^sup>* sys_short s' \<and> (short_timer, 101) \<in> set (ts_fired s')"
  using timer_handler_progress [OF sys_short_reachable [of True], of short_timer "[]" 101 "\<lambda>k. 101 + of_nat k"]
  by (auto simp: sys_short_def time_before_def time_after_def)

text \<open>
  Two threads that add a timer of one identifier can both find it free, because the lock is
  released between the search and the insertion.
\<close>

lemma adds_overlap: "\<exists>s. timer_reachable True s \<and> tm_list (ts_data s) = [short_timer, short_timer]"
proof -
  let ?s1 = "sys_adding\<lparr>ts_adding := [short_timer, short_timer]\<rparr>"
  let ?s2 = "?s1\<lparr>ts_data := add_timer_link short_timer (ts_data ?s1), ts_adding := [] @ [short_timer],
      ts_added := ts_added ?s1 @ [short_timer]\<rparr>"
  let ?s3 = "?s2\<lparr>ts_data := add_timer_link short_timer (ts_data ?s2), ts_adding := [] @ [],
      ts_added := ts_added ?s2 @ [short_timer]\<rparr>"
  have c: "add_timer_check (\<lambda>x. x) True 0 9 7 0 100 1 (ts_data sys_adding) = Inr short_timer"
    by (simp add: add_timer_check_def sys_adding_def timer_sys_init_def skw_timer_init_def short_timer_def
        skw_timer_id_exist_def)
  have "(timer_step True)\<^sup>*\<^sup>* timer_sys_init sys_adding" by (intro r_into_rtranclp sys_adding_step)
  also have "timer_step True sys_adding ?s1"
    using timer_step.add_check [where race = True, OF c] by (simp add: sys_adding_def)
  also have "timer_step True ?s1 ?s2" by (rule timer_step.add_link) simp_all
  also have "timer_step True ?s2 ?s3" by (rule timer_step.add_link) simp_all
  finally have "timer_reachable True ?s3" by (simp add: timer_reachable_def)
  moreover have "tm_list (ts_data ?s3) = [short_timer, short_timer]"
    by (simp add: sys_adding_def timer_sys_init_def skw_timer_init_def timer_insert_def time_before_eq_def)
  ultimately show ?thesis by blast
qed

text \<open>
  The handler decrements the counter outside the lock: an insertion between its reading and its
  writing is lost, and the counter is zero with a timer pending.
\<close>

lemma count_update_lost:
  "\<exists>s. timer_reachable True s \<and> tm_count (ts_data s) = 0 \<and> tm_list (ts_data s) = [long_timer]"
proof -
  define s1 where "s1 = sys_short\<lparr>ts_adding := [long_timer]\<rparr>"
  define s2 where "s2 = s1\<lparr>ts_data := (ts_data s1)\<lparr>tm_list := [], tm_pending := None\<rparr>, ts_handler := Th_loop [(short_timer, 101)]\<rparr>"
  define s3 where "s3 = s2\<lparr>ts_handler := Th_call [], ts_fired := ts_fired s2 @ [(short_timer, 101)]\<rparr>"
  define s4 where "s4 = s3\<lparr>ts_handler := Th_count (tm_count (ts_data s3)) []\<rparr>"
  define s5 where "s5 = s4\<lparr>ts_data := add_timer_link long_timer (ts_data s4), ts_adding := [] @ [], ts_added := ts_added s4 @ [long_timer]\<rparr>"
  define s6 where "s6 = s5\<lparr>ts_data := (ts_data s5)\<lparr>tm_count := 1 - 1\<rparr>, ts_handler := Th_loop []\<rparr>"
  have c: "add_timer_check (\<lambda>x. x) True 0 9 7 0 200 2 (ts_data sys_short) = Inr long_timer"
    by (simp add: add_timer_check_def sys_short_def short_timer_def long_timer_def skw_timer_id_exist_def)
  have "timer_step True sys_short s1"
    using timer_step.add_check [where race = True, OF c] by (simp add: s1_def sys_short_def)
  moreover have "\<not> time_before (101 :: u64) 101" by (simp add: time_before_def time_after_def)
  then have "timer_step True s1 s2" unfolding s2_def
    by (intro timer_step.expire [where clk = "\<lambda>_. 101" and e = 101])
      (simp_all add: s1_def sys_short_def short_timer_def)
  moreover have "timer_step True s2 s3" unfolding s3_def by (rule timer_step.call) (simp add: s2_def)
  moreover have "timer_step True s3 s4" unfolding s4_def by (rule timer_step.count_read) (simp add: s3_def)
  moreover have "timer_step True s4 s5" unfolding s5_def
    by (rule timer_step.add_link) (simp_all add: s4_def s3_def s2_def s1_def)
  moreover have "timer_step True s5 s6" unfolding s6_def
    by (rule timer_step.count_write) (simp add: s5_def s4_def s3_def s2_def s1_def sys_short_def)
  ultimately have "timer_reachable True s6"
    using sys_short_reachable [of True] unfolding timer_reachable_def by (meson rtranclp.rtrancl_into_rtrancl)
  moreover have "tm_count (ts_data s6) = 0" "tm_list (ts_data s6) = [long_timer]"
    by (simp_all add: s6_def s5_def s4_def s3_def s2_def timer_insert_def)
  ultimately show ?thesis by blast
qed

text \<open>
  \<open>list_add\<close> links a timer behind its successor and not before it: a timer that expires later
  than all others becomes the head, so the kernel timer is armed for the latest expiry and the
  shorter timer is served only then; and timers that expire together fire in the reverse order
  of the list.
\<close>

lemma timer_fires_late:
  assumes "skw_add_timer_work (\<lambda>x. x) True 0 9 7 0 200 2 (ts_data sys_short) = (r, d)"
  shows "r = 0 \<and> tm_list d = [long_timer, short_timer] \<and> tm_pending d = Some 201 \<and>
     timer_collect (\<lambda>_. 150) (tm_list d) [] = ([long_timer, short_timer], []) \<and>
     timer_collect (\<lambda>_. 201) (tm_list d) [] = ([], [(short_timer, 201), (long_timer, 201)])"
  using assms
  by (auto simp: skw_add_timer_work_def add_timer_check_def add_timer_link_def Let_def sys_short_def short_timer_def
        long_timer_def skw_timer_id_exist_def timer_insert_def time_before_eq_def time_before_def time_after_def)

lemma timer_count_after_deinit: "tm_count (skw_timer_deinit (ts_data sys_short)) = 1"
  by (simp add: skw_timer_deinit_def sys_short_def)

end
