(* ===== verification/Skw_Config.thy ===== *)
theory Skw_Config
  imports Skw_Util Skw_Regd
begin

text \<open>
  The configuration file, \<^verbatim>\<open>skw_config.c\<close>: reading lines, sections and items, the parsers of each
  section, the defaults, and the settings sent to the firmware. A C string is the list of
  characters before its terminator. A write outside an array, or reading a line that is
  not terminated, sets \<open>cfg_fault\<close>: what the C code does from there on is not defined, so the mark
  is never taken back and the result of the whole, \<open>skw_config_init\<close>, is \<open>None\<close>.
\<close>

section \<open>Strings and numbers\<close>

definition NUL :: char where "NUL = CHR 0x00"
definition TAB :: char where "TAB = CHR 0x09"
definition LF :: char where "LF = CHR 0x0A"
definition CR :: char where "CR = CHR 0x0D"

abbreviation of_ascii :: "char \<Rightarrow> nat" where
  "of_ascii c \<equiv> of_char c"

definition digit_val :: "char \<Rightarrow> nat option" where
  "digit_val c =
     (let n = of_ascii c; l = n OR 0x20 in
      if 0x30 \<le> n \<and> n \<le> 0x39 then Some (n - 0x30)
      else if 0x61 \<le> l \<and> l \<le> 0x66 then Some (l - 0x61 + 10) else None)"

text \<open>The kernel's \<open>_parse_integer\<close>: the value wraps at 64 bits.\<close>

fun parse_integer :: "nat \<Rightarrow> u64 \<Rightarrow> string \<Rightarrow> u64 \<times> string" where
  "parse_integer base acc [] = (acc, [])"
| "parse_integer base acc (c # cs) =
     (case digit_val c of
        None \<Rightarrow> (acc, c # cs)
      | Some v \<Rightarrow> if v < base then parse_integer base (acc * of_nat base + of_nat v) cs else (acc, c # cs))"

definition hex_prefix :: "string \<Rightarrow> bool" where
  "hex_prefix s = (case s of z # x # _ \<Rightarrow> z = CHR ''0'' \<and> (x = CHR ''x'' \<or> x = CHR ''X'') | _ \<Rightarrow> False)"

definition fixup_radix :: "nat \<Rightarrow> string \<Rightarrow> nat \<times> string" where
  "fixup_radix base s =
     (let b = (if base \<noteq> 0 then base
               else if s \<noteq> [] \<and> hd s = CHR ''0''
               then (if hex_prefix s \<and> 2 < length s \<and> digit_val (s ! 2) \<noteq> None then 16 else 8)
               else 10) in
      if b = 16 \<and> hex_prefix s then (16, drop 2 s) else (b, s))"

definition simple_strtoull :: "nat \<Rightarrow> string \<Rightarrow> u64 \<times> string" where
  "simple_strtoull base s = (let (b, s1) = fixup_radix base s in parse_integer b 0 s1)"

text \<open>\<open>simple_strtol\<close> with the rest of the string (\<open>endp\<close>).\<close>

definition simple_strtol :: "nat \<Rightarrow> string \<Rightarrow> int \<times> string" where
  "simple_strtol base s =
     (if s \<noteq> [] \<and> hd s = CHR ''-''
      then (let (v, r) = simple_strtoull base (tl s) in (sint (- v), r))
      else (let (v, r) = simple_strtoull base s in (sint v, r)))"

section \<open>The configuration\<close>

record skw_cfg_global =
  cg_flags :: u64
  cg_mac :: "u8 list"
  cg_dma_addr_align :: u8
  cg_reorder_timeout :: u8

datatype iftype =
  NL80211_IFTYPE_UNSPECIFIED | NL80211_IFTYPE_STATION | NL80211_IFTYPE_AP |
  NL80211_IFTYPE_P2P_CLIENT | NL80211_IFTYPE_P2P_GO | NL80211_IFTYPE_P2P_DEVICE

record skw_cfg_interface =
  ci_flags :: u64
  ci_name :: string
  ci_mac :: "u8 list"
  ci_iftype :: iftype
  ci_inst :: u8

record skw_cfg_regd =
  cr_flags :: u64
  cr_country :: string

record skw_cfg_calib =
  cc_flags :: u64
  cc_chip_alias_name :: string
  cc_project :: string

record skw_cfg_firmware =
  cf_flags :: u64
  cf_beacon_timeout :: u8

record skw_cfg_band =
  cb_flags :: u64
  cb_bw_2ghz :: u8
  cb_bw_5ghz :: u8

datatype SKW_MIB_TYPE =
  SKW_TYPE_INVALID | SKW_TYPE_S8 | SKW_TYPE_U8 | SKW_TYPE_S16 | SKW_TYPE_U16 | SKW_TYPE_S32 |
  SKW_TYPE_U32 | SKW_TYPE_BOOL | SKW_TYPE_STRING

text \<open>The field \<open>value\<close> holds a number, or the address of a copy of a string.\<close>

datatype mib_value = MibNum int | MibStr string

record skw_mib_data =
  md_value :: mib_value
  md_id :: int
  md_type :: SKW_MIB_TYPE

record skw_cfg_mib =
  cm_init :: "skw_mib_data list"
  cm_sta :: "skw_mib_data list"
  cm_sap :: "skw_mib_data list"
  cm_gc :: "skw_mib_data list"
  cm_go :: "skw_mib_data list"

record skw_config =
  cfg_global :: skw_cfg_global
  cfg_intf :: "skw_cfg_interface list"
  cfg_calib :: skw_cfg_calib
  cfg_regd :: skw_cfg_regd
  cfg_fw :: skw_cfg_firmware
  cfg_band :: skw_cfg_band
  cfg_mib :: skw_cfg_mib
  cfg_fault :: bool

definition SKW_LINE_BUFF_LEN :: nat where "SKW_LINE_BUFF_LEN = 128"
definition SKW_NR_IFACE :: nat where "SKW_NR_IFACE = 4"
definition IFNAMSIZ :: nat where "IFNAMSIZ = 16"

definition SKW_CFG_FLAG_P2P_DEV :: nat where "SKW_CFG_FLAG_P2P_DEV = 0"
definition SKW_CFG_FLAG_STA_EXT :: nat where "SKW_CFG_FLAG_STA_EXT = 1"
definition SKW_CFG_FLAG_SAP_EXT :: nat where "SKW_CFG_FLAG_SAP_EXT = 2"
definition SKW_CFG_FLAG_REPEATER :: nat where "SKW_CFG_FLAG_REPEATER = 3"
definition SKW_CFG_REGD_SELF_MANAGED :: nat where "SKW_CFG_REGD_SELF_MANAGED = 0"
definition SKW_CFG_REGD_DEFAULT_COUNTRY :: nat where "SKW_CFG_REGD_DEFAULT_COUNTRY = 1"
definition SKW_CFG_REGD_IGNORE_USER_HINT :: nat where "SKW_CFG_REGD_IGNORE_USER_HINT = 2"
definition SKW_CFG_REGD_IGNORE_COUNTRY_IE :: nat where "SKW_CFG_REGD_IGNORE_COUNTRY_IE = 3"
definition SKW_CFG_REGD_OUTDOOR :: nat where "SKW_CFG_REGD_OUTDOOR = 4"
definition SKW_CFG_CALIB_APPEND_BUS_NAME :: nat where "SKW_CFG_CALIB_APPEND_BUS_NAME = 0"
definition SKW_CFG_CALIB_APPEND_MODULE_ID :: nat where "SKW_CFG_CALIB_APPEND_MODULE_ID = 1"
definition SKW_CFG_FIRMWARE_CCA_ENABLE :: nat where "SKW_CFG_FIRMWARE_CCA_ENABLE = 0"
definition SKW_CFG_FIRMWARE_USE_4ADDR :: nat where "SKW_CFG_FIRMWARE_USE_4ADDR = 1"
definition SKW_CFG_BAND_2GHZ :: nat where "SKW_CFG_BAND_2GHZ = 0"
definition SKW_CFG_BAND_5GHZ :: nat where "SKW_CFG_BAND_5GHZ = 0"

section \<open>Lines\<close>

text \<open>
  The state of the loop of \<open>skw_read_line\<close>: \<open>mode\<close> is \<open>None\<close> for 0; the saved characters and
  their number, those included that the buffer has no room for. One turn returns the character
  that decides whether the loop ends.
\<close>

type_synonym line_state = "char option \<times> string \<times> nat"

definition read_line_char :: "char \<Rightarrow> line_state \<Rightarrow> char \<times> line_state" where
  "read_line_char c s =
     (case s of (mode, buf, cnt) \<Rightarrow>
      let chr = (if c = CR \<or> c = LF then NUL else if c = TAB then CHR '' '' else c);
          mode1 = (if (c = TAB \<or> c = CHR ''#'') \<and> mode = None then Some chr else mode);
          comment = (mode1 = Some (CHR ''#''));
          save = (\<not> comment \<and> chr \<noteq> CHR '' '');
          chr1 = (if \<not> comment \<and> chr = CHR '';'' then NUL else chr);
          buf1 = (if save \<and> length buf < SKW_LINE_BUFF_LEN then buf @ [chr1] else buf) in
      (chr1, mode1, buf1, if save then cnt + 1 else cnt))"

primrec read_line_loop :: "string \<Rightarrow> line_state \<Rightarrow> line_state \<times> string" where
  "read_line_loop [] s = (s, [])"
| "read_line_loop (c # cs) s =
     (case read_line_char c s of (chr, s1) \<Rightarrow> if chr = NUL then (s1, cs) else read_line_loop cs s1)"

text \<open>
  The line as a C string and the unread rest; \<open>None\<close> when the buffer is full and holds no
  terminator, so that reading it as a string leaves the buffer.
\<close>

definition skw_read_line :: "string \<Rightarrow> string option \<times> string" where
  "skw_read_line dat =
     (case read_line_loop dat (None, [], 0) of
        ((mode, buf, cnt), rest) \<Rightarrow>
          (if length buf < cnt then Some []
           else if length buf = SKW_LINE_BUFF_LEN \<and> NUL \<notin> set buf then None
           else Some (takeWhile (\<lambda>c. c \<noteq> NUL) buf), rest))"

datatype skw_line = SKW_LINE_ERROR | SKW_LINE_COMMENT | SKW_LINE_CONFIG string | SKW_LINE_ITEM string string

definition skw_line_parser :: "string \<Rightarrow> skw_line" where
  "skw_line_parser line =
     (if line = [] then SKW_LINE_COMMENT
      else if hd line = CHR ''['' \<and> last line = CHR '']'' then
        (if length line < 3 then SKW_LINE_ERROR else SKW_LINE_CONFIG (butlast (tl line)))
      else if CHR ''='' \<in> set line then
        SKW_LINE_ITEM (takeWhile (\<lambda>c. c \<noteq> CHR ''='') line) (tl (dropWhile (\<lambda>c. c \<noteq> CHR ''='') line))
      else SKW_LINE_ERROR)"

section \<open>Values\<close>

definition skw_bool_flag :: "u64 \<Rightarrow> nat \<Rightarrow> string \<Rightarrow> int \<times> u64" where
  "skw_bool_flag flags nr vtext =
     (let (val, endp) = simple_strtol 0 vtext in
      if endp \<noteq> [] then (- EINVAL, flags)
      else (val, if val = 0 then unset_bit nr flags else if val = 1 then set_bit nr flags else flags))"

text \<open>
  The loop of \<open>skw_get_mac_addr\<close> over the string with its terminator: the field being collected
  and the bytes found. Writing a seventh byte leaves the array \<open>addr\<close>.
\<close>

fun mac_addr_loop :: "string \<Rightarrow> string \<Rightarrow> u8 list \<Rightarrow> u8 list \<times> bool" where
  "mac_addr_loop [] dat addr = (addr, False)"
| "mac_addr_loop (c # cs) dat addr =
     (let chr = (if c = CHR '':'' then NUL else c) in
      if 8 \<le> length dat then (addr, False)
      else if chr = NUL then
        (let val = fst (simple_strtol 16 dat) in
         if 255 < val then (addr, False)
         else if length addr = 6 then (addr, True)
         else mac_addr_loop cs [] (addr @ [word_of_int val]))
      else mac_addr_loop cs (dat @ [chr]) addr)"

definition is_valid_ether_addr :: "u8 list \<Rightarrow> bool" where
  "is_valid_ether_addr a \<longleftrightarrow> \<not> bit (a ! 0) 0 \<and> \<not> list_all (\<lambda>b. b = 0) a"

definition skw_get_mac_addr :: "string \<Rightarrow> u8 list \<Rightarrow> u8 list \<times> bool" where
  "skw_get_mac_addr str mac =
     (let (fields, overrun) = mac_addr_loop (str @ [NUL]) [] [];
          addr = fields @ replicate (6 - length fields) 0 in
      (if length fields = 6 \<or> is_valid_ether_addr addr then addr else mac, overrun))"

definition skw_set_string :: "nat \<Rightarrow> string \<Rightarrow> string \<Rightarrow> string" where
  "skw_set_string buff_sz src old = (if length src < buff_sz then src else old)"

section \<open>The parsers of the sections\<close>

definition skw_global_parser :: "string \<Rightarrow> string \<Rightarrow> skw_config \<Rightarrow> skw_config" where
  "skw_global_parser key vtext c =
     (let g = cfg_global c in
      if key = ''mac_addr'' then
        (let (mac, overrun) = skw_get_mac_addr vtext (cg_mac g) in
         c\<lparr>cfg_global := g\<lparr>cg_mac := mac\<rparr>, cfg_fault := cfg_fault c \<or> overrun\<rparr>)
      else if key = ''dma_addr_align'' then
        c\<lparr>cfg_global := g\<lparr>cg_dma_addr_align := word_of_int (fst (simple_strtol 0 vtext))\<rparr>\<rparr>
      else if key = ''reorder_timeout'' then
        c\<lparr>cfg_global := g\<lparr>cg_reorder_timeout := word_of_int (fst (simple_strtol 0 vtext))\<rparr>\<rparr>
      else c)"

definition skw_firmware_parser :: "string \<Rightarrow> string \<Rightarrow> skw_config \<Rightarrow> skw_config" where
  "skw_firmware_parser key vtext c =
     (let f = cfg_fw c; flag = (\<lambda>nr. c\<lparr>cfg_fw := f\<lparr>cf_flags := snd (skw_bool_flag (cf_flags f) nr vtext)\<rparr>\<rparr>) in
      if key = ''beacon_timeout'' then
        c\<lparr>cfg_fw := f\<lparr>cf_beacon_timeout := word_of_int (fst (simple_strtol 0 vtext))\<rparr>\<rparr>
      else if key = ''cca_enable'' then flag SKW_CFG_FIRMWARE_CCA_ENABLE
      else if key = ''use_4addr'' then flag SKW_CFG_FIRMWARE_USE_4ADDR
      else c)"

definition skw_calib_parser :: "string \<Rightarrow> string \<Rightarrow> skw_config \<Rightarrow> skw_config" where
  "skw_calib_parser key vtext c =
     (let k = cfg_calib c; flag = (\<lambda>nr. c\<lparr>cfg_calib := k\<lparr>cc_flags := snd (skw_bool_flag (cc_flags k) nr vtext)\<rparr>\<rparr>) in
      if key = ''append_bus_name'' then flag SKW_CFG_CALIB_APPEND_BUS_NAME
      else if key = ''append_module_id'' then flag SKW_CFG_CALIB_APPEND_MODULE_ID
      else if key = ''chip_alias_name'' then
        c\<lparr>cfg_calib := k\<lparr>cc_chip_alias_name := skw_set_string 16 vtext (cc_chip_alias_name k)\<rparr>\<rparr>
      else if key = ''project_name'' then
        c\<lparr>cfg_calib := k\<lparr>cc_project := skw_set_string 16 vtext (cc_project k)\<rparr>\<rparr>
      else c)"

definition skw_regdom_parser :: "string \<Rightarrow> string \<Rightarrow> skw_config \<Rightarrow> skw_config" where
  "skw_regdom_parser key vtext c =
     (let r = cfg_regd c; flag = (\<lambda>nr. c\<lparr>cfg_regd := r\<lparr>cr_flags := snd (skw_bool_flag (cr_flags r) nr vtext)\<rparr>\<rparr>) in
      if key = ''self_managed'' then flag SKW_CFG_REGD_SELF_MANAGED
      else if key = ''country'' then
        (if length vtext = 2
         then c\<lparr>cfg_regd := r\<lparr>cr_country := vtext, cr_flags := set_bit SKW_CFG_REGD_DEFAULT_COUNTRY (cr_flags r)\<rparr>\<rparr>
         else c)
      else if key = ''ignore_user_hint'' then flag SKW_CFG_REGD_IGNORE_USER_HINT
      else if key = ''ignore_country_ie'' then flag SKW_CFG_REGD_IGNORE_COUNTRY_IE
      else if key = ''outdoor'' then flag SKW_CFG_REGD_OUTDOOR
      else c)"

text \<open>
  One field of an interface line. The state is the entry \<open>ifa\<close> points at, the configuration,
  and whether the loop is to end. The number is stored in an \<open>int\<close> and only compared with the
  upper bound; with a negative one the code goes on and writes in front of the array, which is the
  fault.
\<close>

definition intf_field :: "nat \<Rightarrow> string \<Rightarrow> nat \<times> skw_config \<times> bool \<Rightarrow> nat \<times> skw_config \<times> bool" where
  "intf_field idx str s =
     (case s of (ifa, c, ex) \<Rightarrow>
        let e = cfg_intf c ! ifa;
            upd = (\<lambda>e1. (ifa, c\<lparr>cfg_intf := (cfg_intf c)[ifa := e1]\<rparr>, ex)) in
        if idx = 0 then
          (let inst = sint (word_of_int (fst (simple_strtol 0 str)) :: 32 word) in
           if int SKW_NR_IFACE \<le> inst then (ifa, c, True)
           else if inst < 0 then (ifa, c\<lparr>cfg_fault := True\<rparr>, True)
           else (nat inst, c, ex))
        else if idx = 1 then
          (if str = ''sta'' then upd (e\<lparr>ci_iftype := NL80211_IFTYPE_STATION\<rparr>)
           else if str = ''sap'' then upd (e\<lparr>ci_iftype := NL80211_IFTYPE_AP\<rparr>)
           else if str = ''go'' then upd (e\<lparr>ci_iftype := NL80211_IFTYPE_P2P_GO\<rparr>)
           else if str = ''gc'' then upd (e\<lparr>ci_iftype := NL80211_IFTYPE_P2P_CLIENT\<rparr>)
           else if str = ''p2p_dev'' then upd (e\<lparr>ci_iftype := NL80211_IFTYPE_P2P_DEVICE\<rparr>)
           else s)
        else if idx = 2 then
          (if IFNAMSIZ < length str then s else upd (e\<lparr>ci_name := take (IFNAMSIZ - 1) str\<rparr>))
        else if idx = 3 then
          (let (mac, overrun) = skw_get_mac_addr str (ci_mac e) in
           case upd (e\<lparr>ci_mac := mac\<rparr>) of (i, c1, x) \<Rightarrow> (i, c1\<lparr>cfg_fault := cfg_fault c1 \<or> overrun\<rparr>, x))
        else s)"

text \<open>The loop over the comma-separated fields: \<open>n\<close> turns are left, \<open>idx\<close> is the next field.\<close>

primrec intf_loop :: "nat \<Rightarrow> nat \<Rightarrow> string \<Rightarrow> nat \<times> skw_config \<times> bool \<Rightarrow> skw_config" where
  "intf_loop 0 idx pos s = fst (snd s)"
| "intf_loop (Suc n) idx pos s =
     (if pos = [] then fst (snd s)
      else
        (let fld = takeWhile (\<lambda>c. c \<noteq> CHR '','') pos; rest = dropWhile (\<lambda>c. c \<noteq> CHR '','') pos;
             s1 = (if rest = [] then (fst s, fst (snd s), True) else s) in
         if fld = [] then intf_loop n (Suc idx) (tl rest) s1
         else (let s2 = intf_field idx fld s1 in
               if snd (snd s2) then fst (snd s2) else intf_loop n (Suc idx) (tl rest) s2)))"

definition skw_config_intf :: "string \<Rightarrow> skw_config \<Rightarrow> skw_config" where
  "skw_config_intf vtext c = intf_loop 4 0 vtext (0, c, False)"

definition skw_intf_parser :: "string \<Rightarrow> string \<Rightarrow> skw_config \<Rightarrow> skw_config" where
  "skw_intf_parser key vtext c = (if key = ''intf'' then skw_config_intf vtext c else c)"

section \<open>Settings of the firmware\<close>

datatype mib_head = MibInit | MibSta | MibSap | MibGc | MibGo

definition starts_with :: "string \<Rightarrow> string \<Rightarrow> bool" where
  "starts_with s ref \<longleftrightarrow> take (length ref) s = ref"

definition mib_head_of :: "string \<Rightarrow> mib_head option" where
  "mib_head_of key =
     (if starts_with key ''init@'' then Some MibInit
      else if starts_with key ''sta@'' then Some MibSta
      else if starts_with key ''sap@'' then Some MibSap
      else if starts_with key ''gc@'' then Some MibGc
      else if starts_with key ''go@'' then Some MibGo
      else None)"

definition mib_type_of :: "string \<Rightarrow> int \<Rightarrow> SKW_MIB_TYPE" where
  "mib_type_of t val =
     (if t = ''s8'' then (if - 127 \<le> val \<and> val \<le> 128 then SKW_TYPE_S8 else SKW_TYPE_INVALID)
      else if t = ''s16'' then (if - 32767 \<le> val \<and> val \<le> 32768 then SKW_TYPE_S16 else SKW_TYPE_INVALID)
      else if t = ''s32'' then (if - 2147483647 \<le> val \<and> val \<le> 2147483648 then SKW_TYPE_S32 else SKW_TYPE_INVALID)
      else if t = ''u8'' then (if 0 \<le> val \<and> val \<le> 0xff then SKW_TYPE_U8 else SKW_TYPE_INVALID)
      else if t = ''u16'' then (if 0 \<le> val \<and> val \<le> 0xffff then SKW_TYPE_U16 else SKW_TYPE_INVALID)
      else if t = ''u32'' then (if 0 \<le> val \<and> val \<le> 0xffffffff then SKW_TYPE_U32 else SKW_TYPE_INVALID)
      else if t = ''bool'' then (if val = 0 \<or> val = 1 then SKW_TYPE_BOOL else SKW_TYPE_INVALID)
      else SKW_TYPE_INVALID)"

text \<open>The part of a string before and after its last slash (\<open>strrchr\<close>).\<close>

definition split_last_slash :: "string \<Rightarrow> (string \<times> string) option" where
  "split_last_slash s =
     (if CHR ''/'' \<notin> set s then None
      else Some (rev (tl (dropWhile (\<lambda>c. c \<noteq> CHR ''/'') (rev s))), rev (takeWhile (\<lambda>c. c \<noteq> CHR ''/'') (rev s))))"

text \<open>Value and type of a setting; \<open>ok1\<close> is whether the copy of a string can be allocated.\<close>

definition mib_value_of :: "bool \<Rightarrow> string \<Rightarrow> int + (mib_value \<times> SKW_MIB_TYPE)" where
  "mib_value_of ok1 vtext =
     (case split_last_slash vtext of
        None \<Rightarrow> Inl (- EINVAL)
      | Some (txt, t) \<Rightarrow>
          if t = ''string'' then (if ok1 then Inr (MibStr txt, SKW_TYPE_STRING) else Inl (- ENOMEM))
          else
            (let (val, endp) = simple_strtol 0 vtext in
             if endp = [] \<or> hd endp \<noteq> CHR ''/'' then Inl (- EINVAL)
             else if mib_type_of (tl endp) val = SKW_TYPE_INVALID then Inl (- EINVAL)
             else Inr (MibNum val, mib_type_of (tl endp) val)))"

definition mib_add_tail :: "mib_head \<Rightarrow> skw_mib_data \<Rightarrow> skw_cfg_mib \<Rightarrow> skw_cfg_mib" where
  "mib_add_tail h md m =
     (case h of
        MibInit \<Rightarrow> m\<lparr>cm_init := cm_init m @ [md]\<rparr>
      | MibSta \<Rightarrow> m\<lparr>cm_sta := cm_sta m @ [md]\<rparr>
      | MibSap \<Rightarrow> m\<lparr>cm_sap := cm_sap m @ [md]\<rparr>
      | MibGc \<Rightarrow> m\<lparr>cm_gc := cm_gc m @ [md]\<rparr>
      | MibGo \<Rightarrow> m\<lparr>cm_go := cm_go m @ [md]\<rparr>)"

text \<open>The identifier is a \<open>long\<close> stored in an \<open>int\<close>.\<close>

definition skw_mib_parser :: "bool \<Rightarrow> bool \<Rightarrow> string \<Rightarrow> string \<Rightarrow> skw_config \<Rightarrow> int \<times> skw_config" where
  "skw_mib_parser ok1 ok2 key vtext c =
     (if CHR ''@'' \<notin> set key then (- EINVAL, c)
      else
        (let (id, endp) = simple_strtol 0 (tl (dropWhile (\<lambda>x. x \<noteq> CHR ''@'') key)) in
         if endp \<noteq> [] then (- EINVAL, c)
         else case mib_head_of key of
           None \<Rightarrow> (- EINVAL, c)
         | Some h \<Rightarrow>
             (case mib_value_of ok1 vtext of
                Inl e \<Rightarrow> (e, c)
              | Inr (v, t) \<Rightarrow>
                  if \<not> ok2 then (- ENOMEM, c)
                  else (0, c\<lparr>cfg_mib := mib_add_tail h
                           \<lparr>md_value = v, md_id = sint (word_of_int id :: 32 word), md_type = t\<rparr> (cfg_mib c)\<rparr>))))"

text \<open>The calls of \<open>skw_set_mib\<close> that \<open>skw_config_set_mib\<close> makes for a list of settings.\<close>

definition le32 :: "u32 \<Rightarrow> u8 list" where
  "le32 x = le16 (ucast x) @ le16 (ucast (drop_bit 16 x))"

definition mib_call :: "skw_mib_data \<Rightarrow> (int \<times> u8 list) list" where
  "mib_call m =
     (let num = (case md_value m of MibNum v \<Rightarrow> v | MibStr s \<Rightarrow> 0);
          str = (case md_value m of MibNum v \<Rightarrow> [] | MibStr s \<Rightarrow> s) in
      case md_type m of
        SKW_TYPE_S8 \<Rightarrow> [(md_id m, [word_of_int num])]
      | SKW_TYPE_U8 \<Rightarrow> [(md_id m, [word_of_int num])]
      | SKW_TYPE_BOOL \<Rightarrow> [(md_id m, [word_of_int num])]
      | SKW_TYPE_S16 \<Rightarrow> [(md_id m, le16 (word_of_int num))]
      | SKW_TYPE_U16 \<Rightarrow> [(md_id m, le16 (word_of_int num))]
      | SKW_TYPE_S32 \<Rightarrow> [(md_id m, le32 (word_of_int num))]
      | SKW_TYPE_U32 \<Rightarrow> [(md_id m, le32 (word_of_int num))]
      | SKW_TYPE_STRING \<Rightarrow> [(md_id m, map of_char str @ [0])]
      | SKW_TYPE_INVALID \<Rightarrow> [])"

definition skw_config_set_mib :: "skw_mib_data list \<Rightarrow> (int \<times> u8 list) list" where
  "skw_config_set_mib ms = concat (map mib_call ms)"

section \<open>The file\<close>

definition cfg_sections :: "string list" where
  "cfg_sections = [''global'', ''interface'', ''calib'', ''regdom'', ''roaming'', ''firmware'', ''band'', ''mib'']"

definition skw_cfg_match :: "string \<Rightarrow> string option" where
  "skw_cfg_match name = List.find (\<lambda>n. n = name) cfg_sections"

text \<open>
  The entries of \<open>g_cfg_table\<close>; the parsers of the sections roaming and band do nothing.
  \<open>al\<close> tells whether the two allocations for a setting succeed.
\<close>

definition section_parser :: "bool \<times> bool \<Rightarrow> string \<Rightarrow> string \<Rightarrow> string \<Rightarrow> skw_config \<Rightarrow> skw_config" where
  "section_parser al sec key vtext c =
     (if sec = ''global'' then skw_global_parser key vtext c
      else if sec = ''interface'' then skw_intf_parser key vtext c
      else if sec = ''calib'' then skw_calib_parser key vtext c
      else if sec = ''regdom'' then skw_regdom_parser key vtext c
      else if sec = ''firmware'' then skw_firmware_parser key vtext c
      else if sec = ''mib'' then snd (skw_mib_parser (fst al) (snd al) key vtext c)
      else c)"

definition parser_line :: "bool \<times> bool \<Rightarrow> string \<Rightarrow> string option \<times> skw_config \<Rightarrow> string option \<times> skw_config" where
  "parser_line al line s =
     (case skw_line_parser line of
        SKW_LINE_CONFIG sec \<Rightarrow> (skw_cfg_match sec, snd s)
      | SKW_LINE_ITEM key vtext \<Rightarrow>
          if key = [] \<or> vtext = [] then s
          else (case fst s of None \<Rightarrow> s | Some sec \<Rightarrow> (Some sec, section_parser al sec key vtext (snd s)))
      | _ \<Rightarrow> s)"

lemma read_line_loop_rest: "length (snd (read_line_loop dat s)) \<le> length dat"
  by (induction dat arbitrary: s) (auto split: prod.splits intro: le_SucI)

lemma snd_skw_read_line: "snd (skw_read_line dat) = snd (read_line_loop dat (None, [], 0))"
  by (simp add: skw_read_line_def split: prod.splits)

lemma skw_read_line_rest:
  assumes "dat \<noteq> []" "skw_read_line dat = (l, rest)"
  shows "length rest < length dat"
proof -
  obtain c cs where dat: "dat = c # cs" using assms(1) by (cases dat) auto
  have "length (snd (read_line_loop (c # cs) s)) \<le> length cs" for s
    using read_line_loop_rest [of cs] by (auto split: prod.splits)
  then show ?thesis using snd_skw_read_line [of dat] assms(2) dat by (metis le_imp_less_Suc length_Cons snd_conv)
qed

text \<open>The loop of \<open>skw_parser\<close>; it ends when a call of \<open>skw_read_line\<close> consumes nothing.\<close>

function parser_loop :: "bool \<times> bool \<Rightarrow> string \<Rightarrow> string option \<times> skw_config \<Rightarrow> skw_config" where
  "parser_loop al dat s =
     (if dat = [] then snd s
      else case skw_read_line dat of
        (None, rest) \<Rightarrow> (snd s)\<lparr>cfg_fault := True\<rparr>
      | (Some line, rest) \<Rightarrow> parser_loop al rest (parser_line al line s))"
  by pat_completeness auto
termination
  by (relation "measure (\<lambda>(al, dat, s). length dat)") (simp_all add: skw_read_line_rest [OF _ sym])

declare parser_loop.simps [simp del]

definition skw_parser :: "bool \<times> bool \<Rightarrow> string \<Rightarrow> skw_config \<Rightarrow> skw_config" where
  "skw_parser al dat c = parser_loop al dat (None, c)"

text \<open>\<open>file\<close> is the contents of the file when the kernel finds it.\<close>

definition skw_load_config :: "bool \<times> bool \<Rightarrow> string option \<Rightarrow> skw_config \<Rightarrow> skw_config" where
  "skw_load_config al file c = (case file of None \<Rightarrow> c | Some dat \<Rightarrow> skw_parser al dat c)"

section \<open>Defaults\<close>

text \<open>The build options that \<open>skw_config_init\<close> reads.\<close>

record kconfig =
  kc_reorder_timeout :: "int option"
  kc_sta_sme_ext :: bool
  kc_sap_sme_ext :: bool
  kc_repeater :: bool
  kc_legacy_p2p :: bool
  kc_self_managed :: bool
  kc_default_country :: "string option"
  kc_append_bus_id :: bool
  kc_append_module_id :: bool
  kc_chip_id :: "string option"
  kc_project_name :: "string option"
  kc_wds :: bool

definition zero_interface :: skw_cfg_interface where
  "zero_interface = \<lparr>ci_flags = 0, ci_name = [], ci_mac = replicate 6 0, ci_iftype = NL80211_IFTYPE_UNSPECIFIED, ci_inst = 0\<rparr>"

definition flag_if :: "bool \<Rightarrow> nat \<Rightarrow> u64 \<Rightarrow> u64" where
  "flag_if b n w = (if b then set_bit n w else w)"

definition config_defaults :: "kconfig \<Rightarrow> skw_config" where
  "config_defaults k =
     \<lparr>cfg_global =
        \<lparr>cg_flags = flag_if (kc_legacy_p2p k) SKW_CFG_FLAG_P2P_DEV
             (flag_if (kc_repeater k) SKW_CFG_FLAG_REPEATER
             (flag_if (kc_sap_sme_ext k) SKW_CFG_FLAG_SAP_EXT
             (flag_if (kc_sta_sme_ext k) SKW_CFG_FLAG_STA_EXT 0))),
         cg_mac = replicate 6 0, cg_dma_addr_align = 4,
         cg_reorder_timeout = (case kc_reorder_timeout k of None \<Rightarrow> 100 | Some v \<Rightarrow> word_of_int v)\<rparr>,
      cfg_intf =
        [zero_interface\<lparr>ci_name := ''wlan%d'', ci_inst := 0xff, ci_iftype := NL80211_IFTYPE_STATION\<rparr>,
         zero_interface, zero_interface,
         if kc_legacy_p2p k
         then zero_interface\<lparr>ci_name := ''p2p%d'', ci_inst := 3, ci_iftype := NL80211_IFTYPE_P2P_DEVICE\<rparr>
         else zero_interface],
      cfg_calib =
        \<lparr>cc_flags = flag_if (kc_append_module_id k) SKW_CFG_CALIB_APPEND_MODULE_ID
             (flag_if (kc_append_bus_id k) SKW_CFG_CALIB_APPEND_BUS_NAME 0),
         cc_chip_alias_name = (case kc_chip_id k of None \<Rightarrow> [] | Some s \<Rightarrow> take 15 s),
         cc_project = (case kc_project_name k of None \<Rightarrow> ''SEEKWAVE'' | Some s \<Rightarrow> if s = [] then ''SEEKWAVE'' else take 15 s)\<rparr>,
      cfg_regd =
        \<lparr>cr_flags = flag_if (kc_self_managed k) SKW_CFG_REGD_SELF_MANAGED 0,
         cr_country = (case kc_default_country k of None \<Rightarrow> ''00''
            | Some s \<Rightarrow> if length s = 2 \<and> is_skw_valid_reg_code (map of_char s) then s else ''00'')\<rparr>,
      cfg_fw = \<lparr>cf_flags = flag_if (kc_wds k) SKW_CFG_FIRMWARE_USE_4ADDR 0, cf_beacon_timeout = 6\<rparr>,
      cfg_band = \<lparr>cb_flags = set_bit SKW_CFG_BAND_5GHZ (set_bit SKW_CFG_BAND_2GHZ 0), cb_bw_2ghz = 1, cb_bw_5ghz = 0\<rparr>,
      cfg_mib = \<lparr>cm_init = [], cm_sta = [], cm_sap = [], cm_gc = [], cm_go = []\<rparr>,
      cfg_fault = False\<rparr>"

text \<open>The configuration that the driver starts with; \<open>None\<close> when an access left an array on the way.\<close>

definition skw_config_init :: "bool \<times> bool \<Rightarrow> kconfig \<Rightarrow> string option \<Rightarrow> skw_config option" where
  "skw_config_init al k file =
     (let c = skw_load_config al file (config_defaults k) in if cfg_fault c then None else Some c)"

end
