(* ===== verification/Skw_Config_Props.thy ===== *)
theory Skw_Config_Props
  imports Skw_Config
begin

text \<open>
  Properties of the configuration parser: what it reads of a plain file, that every
  configuration it can produce is well typed, which files it reads without leaving an array, round
  trips of addresses and settings, and the inputs it gets wrong.
\<close>

section \<open>Plain files\<close>

text \<open>A plain line has no character that the line reader treats specially, and fits the buffer.\<close>

definition plain_char :: "char \<Rightarrow> bool" where
  "plain_char c \<longleftrightarrow> c \<noteq> NUL \<and> c \<noteq> CR \<and> c \<noteq> LF \<and> c \<noteq> TAB \<and> c \<noteq> CHR ''#'' \<and> c \<noteq> CHR '' '' \<and> c \<noteq> CHR '';''"

definition plain_line :: "string \<Rightarrow> bool" where
  "plain_line l \<longleftrightarrow> list_all plain_char l \<and> length l < SKW_LINE_BUFF_LEN"

lemma special_chars [simp]:
  "NUL \<noteq> CHR '' ''" "NUL \<noteq> CHR ''#''" "NUL \<noteq> CHR '';''" "LF \<noteq> TAB" "LF \<noteq> CHR ''#''"
  "CHR '' '' \<noteq> NUL" "CHR ''#'' \<noteq> NUL" "CHR '';'' \<noteq> NUL" "TAB \<noteq> LF" "TAB \<noteq> CR" "LF \<noteq> NUL" "LF \<noteq> CHR '' ''"
  by (simp_all add: NUL_def LF_def CR_def TAB_def)

lemma read_plain_char:
  "plain_char c \<Longrightarrow> length buf < SKW_LINE_BUFF_LEN \<Longrightarrow>
     read_line_char c (None, buf, n) = (c, None, buf @ [c], Suc n)"
  by (simp add: read_line_char_def plain_char_def)

lemma read_newline:
  "length buf < SKW_LINE_BUFF_LEN \<Longrightarrow> read_line_char LF (None, buf, n) = (NUL, None, buf @ [NUL], Suc n)"
  by (simp add: read_line_char_def)

lemma read_plain_loop:
  "list_all plain_char l \<Longrightarrow> length buf + length l < SKW_LINE_BUFF_LEN \<Longrightarrow>
     read_line_loop (l @ LF # rest) (None, buf, n) = ((None, buf @ l @ [NUL], n + length l + 1), rest)"
proof (induction l arbitrary: buf n)
  case (Cons c l)
  then have "plain_char c" "c \<noteq> NUL" by (simp_all add: plain_char_def)
  with Cons show ?case by (simp add: read_plain_char)
qed (simp add: read_newline)

lemma skw_read_plain: "plain_line l \<Longrightarrow> skw_read_line (l @ LF # rest) = (Some l, rest)"
proof -
  assume l: "plain_line l"
  then have "NUL \<notin> set l" by (auto simp: plain_line_def list_all_iff plain_char_def)
  then have "takeWhile (\<lambda>c. c \<noteq> NUL) (l @ [NUL]) = l" by (subst takeWhile_append2) auto
  with l show ?thesis by (simp add: skw_read_line_def read_plain_loop plain_line_def)
qed

definition file_of :: "string list \<Rightarrow> string" where
  "file_of ls = concat (map (\<lambda>l. l @ [LF]) ls)"

lemma parser_loop_plain:
  "list_all plain_line ls \<Longrightarrow> parser_loop al (file_of ls) s = snd (fold (parser_line al) ls s)"
proof (induction ls arbitrary: s)
  case (Cons l ls)
  then have "skw_read_line (file_of (l # ls)) = (Some l, file_of ls)"
    by (simp add: file_of_def skw_read_plain)
  moreover have "file_of (l # ls) \<noteq> []" by (simp add: file_of_def)
  ultimately show ?case using Cons by (simp add: parser_loop.simps [of al "file_of (l # ls)"])
qed (simp add: file_of_def parser_loop.simps)

section \<open>Addresses\<close>

definition hex_digit :: "nat \<Rightarrow> char" where
  "hex_digit n = ''0123456789abcdef'' ! n"

definition byte_text :: "u8 \<Rightarrow> string" where
  "byte_text b = [hex_digit (unat b div 16), hex_digit (unat b mod 16)]"

fun mac_text :: "u8 list \<Rightarrow> string" where
  "mac_text [] = []"
| "mac_text [b] = byte_text b"
| "mac_text (b # bs) = byte_text b @ CHR '':'' # mac_text bs"

lemma hex_digit_all:
  "list_all (\<lambda>n. digit_val (hex_digit n) = Some n \<and> hex_digit n \<notin> {CHR '':'', NUL, CHR ''x'', CHR ''X'', CHR ''-''})
     [0..<16]"
  by code_simp

lemma hex_digit:
  assumes "n < 16"
  shows "digit_val (hex_digit n) = Some n" "hex_digit n \<noteq> CHR '':''" "hex_digit n \<noteq> NUL"
    "hex_digit n \<noteq> CHR ''x''" "hex_digit n \<noteq> CHR ''X''" "hex_digit n \<noteq> CHR ''-''"
  using hex_digit_all assms by (auto simp: list_all_iff)

lemma unat_u8: "unat (b :: u8) < 256"
proof -
  have "unat b < 2 ^ LENGTH(8)" by (rule unsigned_less)
  then show ?thesis by simp
qed

lemma strtol_byte_text: "simple_strtol 16 (byte_text b) = (uint b, [])"
proof -
  let ?h = "unat b div 16" and ?l = "unat b mod 16"
  note b = unat_u8 [of b]
  then have h: "?h < 16" and l: "?l < 16" by simp_all
  have "\<not> hex_prefix (byte_text b)" using hex_digit(4,5) [OF l] by (simp add: hex_prefix_def byte_text_def)
  then have "fixup_radix 16 (byte_text b) = (16, byte_text b)" by (simp add: fixup_radix_def)
  then have v: "simple_strtoull 16 (byte_text b) = (of_nat ?h * 16 + of_nat ?l, [])"
    using h l by (simp add: simple_strtoull_def byte_text_def hex_digit(1))
  have "of_nat ?h * 16 + of_nat ?l = (of_nat (?h * 16 + ?l) :: u64)"
    by (simp only: of_nat_add of_nat_mult of_nat_numeral)
  also have "\<dots> = of_nat (unat b)" by (simp only: div_mult_mod_eq)
  finally have "sint (of_nat ?h * 16 + of_nat ?l :: u64) = sint (of_nat (unat b) :: u64)" by simp
  also have "\<dots> = uint b"
  proof -
    have "(of_nat (unat b) :: u64) = word_of_int (uint b)" by simp
    moreover have "signed_take_bit 63 (uint b) = uint b"
      using uint_lt2p [of b] by (intro signed_take_bit_int_eq_self) (simp_all add: order.trans [of _ "0::int"])
    ultimately show ?thesis by (simp only: signed_of_int) simp
  qed
  finally show ?thesis using v hex_digit(6) [OF h]
    by (simp add: simple_strtol_def byte_text_def)
qed

lemma mac_addr_field:
  assumes "length addr < 6" "sep = CHR '':'' \<or> sep = NUL"
  shows "mac_addr_loop (byte_text b @ sep # rest) [] addr = mac_addr_loop rest [] (addr @ [b])"
proof -
  have b: "unat b div 16 < 16" "unat b mod 16 < 16" using unat_u8 [of b] by simp_all
  have "uint b \<le> 255" using uint_lt2p [of b] by simp
  then show ?thesis using assms hex_digit(2,3) [OF b(1)] hex_digit(2,3) [OF b(2)] strtol_byte_text [of b]
    by (auto simp: byte_text_def)
qed

lemma mac_addr_text:
  "macs \<noteq> [] \<Longrightarrow> length addr + length macs \<le> 6 \<Longrightarrow>
     mac_addr_loop (mac_text macs @ [NUL]) [] addr = (addr @ macs, False)"
proof (induction macs arbitrary: addr rule: mac_text.induct)
  case (2 b)
  then show ?case using mac_addr_field [of addr NUL b "[]"] by simp
next
  case (3 b c bs)
  then show ?case using mac_addr_field [of addr "CHR '':''" b "mac_text (c # bs) @ [NUL]"] by simp
qed simp

section \<open>Well-typed configurations\<close>

definition mib_ok :: "skw_mib_data \<Rightarrow> bool" where
  "mib_ok m \<longleftrightarrow> - (2 ^ 31) \<le> md_id m \<and> md_id m < 2 ^ 31 \<and>
     (case md_value m of
        MibStr _ \<Rightarrow> md_type m = SKW_TYPE_STRING
      | MibNum v \<Rightarrow> (case md_type m of
            SKW_TYPE_S8 \<Rightarrow> - 127 \<le> v \<and> v \<le> 128
          | SKW_TYPE_U8 \<Rightarrow> 0 \<le> v \<and> v \<le> 255
          | SKW_TYPE_S16 \<Rightarrow> - 32767 \<le> v \<and> v \<le> 32768
          | SKW_TYPE_U16 \<Rightarrow> 0 \<le> v \<and> v \<le> 65535
          | SKW_TYPE_S32 \<Rightarrow> - 2147483647 \<le> v \<and> v \<le> 2147483648
          | SKW_TYPE_U32 \<Rightarrow> 0 \<le> v \<and> v \<le> 4294967295
          | SKW_TYPE_BOOL \<Rightarrow> v = 0 \<or> v = 1
          | _ \<Rightarrow> False))"

definition mibs_of :: "skw_cfg_mib \<Rightarrow> skw_mib_data list" where
  "mibs_of m = cm_init m @ cm_sta m @ cm_sap m @ cm_gc m @ cm_go m"

definition interface_ok :: "skw_cfg_interface \<Rightarrow> bool" where
  "interface_ok i \<longleftrightarrow> length (ci_name i) < IFNAMSIZ \<and> length (ci_mac i) = 6"

definition config_ok :: "skw_config \<Rightarrow> bool" where
  "config_ok c \<longleftrightarrow> length (cg_mac (cfg_global c)) = 6 \<and>
     length (cfg_intf c) = SKW_NR_IFACE \<and> list_all interface_ok (cfg_intf c) \<and>
     length (cc_chip_alias_name (cfg_calib c)) < 16 \<and> length (cc_project (cfg_calib c)) < 16 \<and>
     length (cr_country (cfg_regd c)) = 2 \<and> list_all mib_ok (mibs_of (cfg_mib c))"

lemma mac_addr_loop_length: "length addr \<le> 6 \<Longrightarrow> length (fst (mac_addr_loop s dat addr)) \<le> 6"
  by (induction s dat addr rule: mac_addr_loop.induct) (auto simp: Let_def)

lemma get_mac_length: "length mac = 6 \<Longrightarrow> length (fst (skw_get_mac_addr s mac)) = 6"
  using mac_addr_loop_length [of "[]" "s @ [NUL]" "[]"]
  by (auto simp: skw_get_mac_addr_def Let_def split: prod.splits)

lemma config_ok_fault [simp]: "config_ok (c\<lparr>cfg_fault := b\<rparr>) = config_ok c"
  by (simp add: config_ok_def)

lemma global_parser_ok: "config_ok c \<Longrightarrow> config_ok (skw_global_parser key vtext c)"
  using get_mac_length [of "cg_mac (cfg_global c)" vtext]
  by (auto simp: skw_global_parser_def config_ok_def Let_def split: prod.splits)

lemma firmware_parser_ok: "config_ok c \<Longrightarrow> config_ok (skw_firmware_parser key vtext c)"
  by (simp add: skw_firmware_parser_def config_ok_def Let_def)

lemma calib_parser_ok: "config_ok c \<Longrightarrow> config_ok (skw_calib_parser key vtext c)"
  by (simp add: skw_calib_parser_def config_ok_def Let_def skw_set_string_def)

lemma regdom_parser_ok: "config_ok c \<Longrightarrow> config_ok (skw_regdom_parser key vtext c)"
  by (simp add: skw_regdom_parser_def config_ok_def Let_def)

lemma config_ok_intf_upd:
  "config_ok c \<Longrightarrow> interface_ok e \<Longrightarrow> config_ok (c\<lparr>cfg_intf := (cfg_intf c)[i := e]\<rparr>)"
  by (auto simp: config_ok_def list_all_iff dest!: set_update_subset_insert [THEN subsetD])

definition intf_state_ok :: "nat \<times> skw_config \<times> bool \<Rightarrow> bool" where
  "intf_state_ok s \<longleftrightarrow> fst s < SKW_NR_IFACE \<and> config_ok (fst (snd s))"

lemma config_ok_nth: "config_ok c \<Longrightarrow> i < SKW_NR_IFACE \<Longrightarrow> interface_ok (cfg_intf c ! i)"
  by (simp add: config_ok_def list_all_length)

lemma intf_field_ok:
  assumes "intf_state_ok s"
  shows "intf_state_ok (intf_field idx str s)"
proof -
  obtain i c ex where s: "s = (i, c, ex)" by (cases s) auto
  have i: "i < SKW_NR_IFACE" and c: "config_ok c" using assms s by (simp_all add: intf_state_ok_def)
  have e: "interface_ok (cfg_intf c ! i)" using config_ok_nth [OF c i] .
  then have upd: "intf_state_ok (i, c\<lparr>cfg_intf := (cfg_intf c)[i := e1]\<rparr>, ex)" if "interface_ok e1" for e1
    using i config_ok_intf_upd [OF c that] by (simp add: intf_state_ok_def)
  have mac: "length (fst (skw_get_mac_addr str (ci_mac (cfg_intf c ! i)))) = 6"
    using e by (intro get_mac_length) (simp add: interface_ok_def)
  consider "idx = 0" | "idx = 1" | "idx = 2" | "idx = 3" | "3 < idx" by linarith
  then show ?thesis
  proof cases
    case 1
    then show ?thesis using i c by (auto simp: s intf_field_def intf_state_ok_def Let_def)
  next
    case 2
    then show ?thesis using upd e assms by (simp add: s intf_field_def interface_ok_def Let_def)
  next
    case 3
    then show ?thesis using upd e assms by (simp add: s intf_field_def interface_ok_def IFNAMSIZ_def Let_def)
  next
    case 4
    obtain m ov where m: "skw_get_mac_addr str (ci_mac (cfg_intf c ! i)) = (m, ov)" by force
    then have "interface_ok ((cfg_intf c ! i)\<lparr>ci_mac := m\<rparr>)" using mac e by (simp add: interface_ok_def)
    with upd 4 m show ?thesis by (simp add: s intf_field_def intf_state_ok_def Let_def)
  qed (use assms in \<open>simp add: s intf_field_def Let_def\<close>)
qed

lemma intf_loop_ok: "intf_state_ok s \<Longrightarrow> config_ok (intf_loop n idx pos s)"
proof (induction n arbitrary: idx pos s)
  case (Suc n)
  then show ?case using intf_field_ok [of "(fst s, fst (snd s), True)"] intf_field_ok [of s]
    by (auto simp: Let_def intf_state_ok_def)
qed (simp add: intf_state_ok_def)

lemma intf_parser_ok: "config_ok c \<Longrightarrow> config_ok (skw_intf_parser key vtext c)"
  by (simp add: skw_intf_parser_def skw_config_intf_def intf_loop_ok intf_state_ok_def SKW_NR_IFACE_def)

lemma sint_range32: "- (2 ^ 31) \<le> sint (w :: 32 word) \<and> sint w < 2 ^ 31"
  using sint_greater_eq [of w] sint_less [of w] by simp

lemma mib_value_of_ok:
  assumes "mib_value_of ok1 vtext = Inr (v, t)"
  shows "mib_ok \<lparr>md_value = v, md_id = sint (w :: 32 word), md_type = t\<rparr>"
proof -
  have "mib_ok \<lparr>md_value = MibNum n, md_id = sint w, md_type = mib_type_of ty n\<rparr>"
    if "mib_type_of ty n \<noteq> SKW_TYPE_INVALID" for ty n
    using that sint_range32 [of w] by (auto simp: mib_ok_def mib_type_of_def split: if_splits)
  then show ?thesis using assms sint_range32 [of w]
    by (auto simp: mib_value_of_def Let_def mib_ok_def split: option.splits if_splits prod.splits)
qed

lemma mib_add_tail_ok: "mib_ok md \<Longrightarrow> list_all mib_ok (mibs_of m) \<Longrightarrow> list_all mib_ok (mibs_of (mib_add_tail h md m))"
  by (cases h) (auto simp: mib_add_tail_def mibs_of_def)

lemma mib_parser_ok: "config_ok c \<Longrightarrow> config_ok (snd (skw_mib_parser ok1 ok2 key vtext c))"
  by (auto simp: skw_mib_parser_def config_ok_def Let_def split: option.splits sum.splits prod.splits
      intro!: mib_add_tail_ok mib_value_of_ok)

lemmas section_parsers_ok = global_parser_ok intf_parser_ok calib_parser_ok regdom_parser_ok
  firmware_parser_ok mib_parser_ok

lemma parser_line_ok: "config_ok (snd s) \<Longrightarrow> config_ok (snd (parser_line al line s))"
  by (auto simp: parser_line_def section_parser_def section_parsers_ok split: skw_line.splits option.splits)

lemma parser_loop_ok: "config_ok (snd s) \<Longrightarrow> config_ok (parser_loop al dat s)"
proof (induction al dat s rule: parser_loop.induct)
  case (1 al dat s)
  then show ?case
    by (subst parser_loop.simps) (auto split: prod.splits option.splits simp: parser_line_ok)
qed

lemma defaults_ok: "config_ok (config_defaults k)"
  by (auto simp: config_ok_def config_defaults_def SKW_NR_IFACE_def IFNAMSIZ_def interface_ok_def
      zero_interface_def mibs_of_def split: option.splits)

section \<open>Files without faults\<close>

text \<open>
  An item is safe when an address in it has at most six fields, and when the number of an interface, read into
  an \<open>int\<close>, is not negative. A file is safe when every line is terminated in its buffer and its
  items are safe.
\<close>

abbreviation colons :: "string \<Rightarrow> nat" where
  "colons v \<equiv> length (filter (\<lambda>c. c = CHR '':'') v)"

definition intf_number :: "string \<Rightarrow> int" where
  "intf_number v = sint (word_of_int (fst (simple_strtol 0 (takeWhile (\<lambda>c. c \<noteq> CHR '','') v))) :: 32 word)"

definition item_safe :: "string \<Rightarrow> string \<Rightarrow> bool" where
  "item_safe key v \<longleftrightarrow>
     (key = ''mac_addr'' \<or> key = ''intf'' \<longrightarrow> colons v < 6) \<and> (key = ''intf'' \<longrightarrow> 0 \<le> intf_number v)"

definition line_safe :: "string \<Rightarrow> bool" where
  "line_safe line = (case skw_line_parser line of SKW_LINE_ITEM key v \<Rightarrow> item_safe key v | _ \<Rightarrow> True)"

function file_safe :: "string \<Rightarrow> bool" where
  "file_safe dat =
     (if dat = [] then True
      else case skw_read_line dat of (None, rest) \<Rightarrow> False | (Some line, rest) \<Rightarrow> line_safe line \<and> file_safe rest)"
  by pat_completeness auto
termination
  by (relation "measure length") (simp_all add: skw_read_line_rest [OF _ sym])

declare file_safe.simps [simp del]

lemma mac_addr_loop_fits:
  "length addr + length (filter (\<lambda>c. c = CHR '':'' \<or> c = NUL) s) \<le> 6 \<Longrightarrow> \<not> snd (mac_addr_loop s dat addr)"
proof (induction s arbitrary: dat addr)
  case (Cons c cs)
  then show ?case by (cases "c = CHR '':''"; cases "c = NUL") (simp_all add: Let_def)
qed simp

lemma get_mac_fits:
  assumes "NUL \<notin> set v" "colons v < 6"
  shows "\<not> snd (skw_get_mac_addr v mac)"
proof -
  have "filter (\<lambda>c. c = CHR '':'' \<or> c = NUL) v = filter (\<lambda>c. c = CHR '':'') v"
    using assms(1) by (intro filter_cong) auto
  then have "\<not> snd (mac_addr_loop (v @ [NUL]) [] [])"
    using assms(2) by (intro mac_addr_loop_fits) simp
  then show ?thesis by (auto simp: skw_get_mac_addr_def Let_def split: prod.splits)
qed

lemma colons_takeWhile: "colons (takeWhile P v) \<le> colons v"
  by (induction v) auto

lemma colons_rest: "colons (tl (dropWhile P v)) \<le> colons v"
  by (induction v) auto

lemma set_rest: "set (tl (dropWhile P v)) \<subseteq> set v"
  by (induction v) auto

lemma intf_field_fits:
  assumes "idx = 0 \<longrightarrow> 0 \<le> sint (word_of_int (fst (simple_strtol 0 str)) :: 32 word)"
    and "NUL \<notin> set str" "colons str < 6"
  shows "cfg_fault (fst (snd (intf_field idx str s))) = cfg_fault (fst (snd s))"
proof -
  obtain i c ex where s: "s = (i, c, ex)" by (cases s) auto
  consider "idx = 0" | "idx = 1" | "idx = 2" | "idx = 3" | "3 < idx" by linarith
  then show ?thesis
  proof cases
    case 1
    then show ?thesis using assms(1) by (simp add: s intf_field_def Let_def)
  next
    case 4
    obtain m ov where m: "skw_get_mac_addr str (ci_mac (cfg_intf c ! i)) = (m, ov)" by force
    then have "\<not> ov" using get_mac_fits [OF assms(2,3)] by (metis snd_conv)
    with 4 m show ?thesis by (simp add: s intf_field_def Let_def)
  qed (simp_all add: s intf_field_def Let_def)
qed

lemma intf_loop_fits:
  assumes "idx = 0 \<longrightarrow> 0 \<le> intf_number pos" "NUL \<notin> set pos" "colons pos < 6" "\<not> cfg_fault (fst (snd s))"
  shows "\<not> cfg_fault (intf_loop n idx pos s)"
  using assms
proof (induction n arbitrary: idx pos s)
  case (Suc n)
  let ?f = "takeWhile (\<lambda>c. c \<noteq> CHR '','') pos" and ?r = "tl (dropWhile (\<lambda>c. c \<noteq> CHR '','') pos)"
  have f: "NUL \<notin> set ?f" "colons ?f < 6"
    using Suc.prems(2,3) colons_takeWhile [of _ pos] by (auto dest: set_takeWhileD intro: le_less_trans)
  have r: "NUL \<notin> set ?r" "colons ?r < 6"
    using Suc.prems(2,3) colons_rest [of _ pos] set_rest [of _ pos] by (blast, meson le_less_trans)
  have next_turn: "\<not> cfg_fault (intf_loop n (Suc idx) ?r t)" if "\<not> cfg_fault (fst (snd t))" for t
    using Suc.IH [of "Suc idx" ?r t] r that by simp
  have field: "cfg_fault (fst (snd (intf_field idx ?f t))) = cfg_fault (fst (snd t))" for t
    using f Suc.prems(1) by (intro intf_field_fits) (auto simp: intf_number_def)
  show ?case using Suc.prems(4) next_turn field by (simp add: Let_def)
qed simp

lemma other_parsers_fault:
  "cfg_fault (skw_calib_parser key v c) = cfg_fault c"
  "cfg_fault (skw_regdom_parser key v c) = cfg_fault c"
  "cfg_fault (skw_firmware_parser key v c) = cfg_fault c"
  by (simp_all add: skw_calib_parser_def skw_regdom_parser_def skw_firmware_parser_def Let_def if_distrib [of cfg_fault]
      cong: if_cong)

lemma mib_parser_fault: "cfg_fault (snd (skw_mib_parser ok1 ok2 key v c)) = cfg_fault c"
  by (simp add: skw_mib_parser_def Let_def split: option.split sum.split prod.split)

lemma section_parser_fits:
  assumes "item_safe key v" "NUL \<notin> set v" "\<not> cfg_fault c"
  shows "\<not> cfg_fault (section_parser al sec key v c)"
proof -
  have "\<not> cfg_fault (skw_global_parser key v c)"
  proof (cases "key = ''mac_addr''")
    case True
    then have "\<not> snd (skw_get_mac_addr v (cg_mac (cfg_global c)))"
      using assms by (intro get_mac_fits) (simp_all add: item_safe_def)
    with True assms(3) show ?thesis by (auto simp: skw_global_parser_def Let_def split: prod.split)
  next
    case False
    with assms(3) show ?thesis by (simp add: skw_global_parser_def Let_def)
  qed
  moreover have "\<not> cfg_fault (skw_intf_parser key v c)"
  proof (cases "key = ''intf''")
    case True
    with assms have "\<not> cfg_fault (intf_loop 4 0 v (0, c, False))"
      by (intro intf_loop_fits) (simp_all add: item_safe_def)
    with True show ?thesis by (simp add: skw_intf_parser_def skw_config_intf_def)
  next
    case False
    with assms(3) show ?thesis by (simp add: skw_intf_parser_def)
  qed
  ultimately show ?thesis using assms(3)
    by (simp add: section_parser_def other_parsers_fault mib_parser_fault)
qed

lemma read_line_no_NUL: "skw_read_line dat = (Some line, rest) \<Longrightarrow> NUL \<notin> set line"
  by (auto simp: skw_read_line_def dest: set_takeWhileD split: prod.splits if_splits)

lemma item_value_set: "skw_line_parser line = SKW_LINE_ITEM key v \<Longrightarrow> set v \<subseteq> set line"
  by (auto simp: skw_line_parser_def dest: set_rest [THEN subsetD] split: if_splits)

lemma parser_line_fits:
  assumes "line_safe line" "NUL \<notin> set line" "\<not> cfg_fault (snd s)"
  shows "\<not> cfg_fault (snd (parser_line al line s))"
proof (cases "skw_line_parser line")
  case (SKW_LINE_ITEM key v)
  then have "item_safe key v" "NUL \<notin> set v"
    using assms(1,2) item_value_set [of line] by (auto simp: line_safe_def)
  then show ?thesis using SKW_LINE_ITEM section_parser_fits [of key v "snd s" al] assms(3)
    by (simp add: parser_line_def split: option.split)
qed (use assms(3) in \<open>simp_all add: parser_line_def\<close>)

lemma parser_loop_fits: "file_safe dat \<Longrightarrow> \<not> cfg_fault (snd s) \<Longrightarrow> \<not> cfg_fault (parser_loop al dat s)"
proof (induction al dat s rule: parser_loop.induct)
  case (1 al dat s)
  show ?case
  proof (cases "dat = []")
    case True
    then show ?thesis using 1(3) by (simp add: parser_loop.simps)
  next
    case False
    then obtain line rest where l: "skw_read_line dat = (Some line, rest)" "line_safe line" "file_safe rest"
      using 1(2) by (subst (asm) file_safe.simps) (auto split: prod.splits option.splits)
    have "\<not> cfg_fault (snd (parser_line al line s))"
      using l 1(3) read_line_no_NUL parser_line_fits by blast
    then show ?thesis using 1(1) [OF False l(1) [symmetric] refl l(3)] l False
      by (simp add: parser_loop.simps [of al dat])
  qed
qed

text \<open>A fault is never taken back.\<close>

lemma section_parser_fault: "cfg_fault c \<Longrightarrow> cfg_fault (section_parser al sec key v c)"
proof -
  assume c: "cfg_fault c"
  have field: "cfg_fault (fst (snd (intf_field idx str s)))" if "cfg_fault (fst (snd s))" for idx str s
    using that by (cases s) (simp add: intf_field_def Let_def split: prod.split)
  have loop: "cfg_fault (intf_loop n idx pos s)" if "cfg_fault (fst (snd s))" for n idx pos s
    using that by (induction n arbitrary: idx pos s) (simp_all add: Let_def field)
  have "cfg_fault (skw_intf_parser key v c)" using c by (simp add: skw_intf_parser_def skw_config_intf_def loop)
  moreover have "cfg_fault (skw_global_parser key v c)"
    using c by (simp add: skw_global_parser_def Let_def split: prod.split)
  ultimately show ?thesis using c by (simp add: section_parser_def other_parsers_fault mib_parser_fault)
qed

lemma parser_line_fault: "cfg_fault (snd s) \<Longrightarrow> cfg_fault (snd (parser_line al line s))"
  by (auto simp: parser_line_def section_parser_fault split: skw_line.splits option.splits)

section \<open>Printing and parsing a configuration file\<close>

type_synonym cfg_file = "(string \<times> (string \<times> string) list) list"

definition section_lines :: "string \<times> (string \<times> string) list \<Rightarrow> string list" where
  "section_lines s = (CHR ''['' # fst s @ '']'') # map (\<lambda>(k, v). k @ CHR ''='' # v) (snd s)"

definition print_cfg :: "cfg_file \<Rightarrow> string" where
  "print_cfg cf = file_of (concat (map section_lines cf))"

definition plain_item :: "string \<times> string \<Rightarrow> bool" where
  "plain_item i \<longleftrightarrow> fst i \<noteq> [] \<and> snd i \<noteq> [] \<and> CHR ''='' \<notin> set (fst i) \<and> hd (fst i) \<noteq> CHR ''['' \<and>
     list_all plain_char (fst i @ snd i) \<and> length (fst i @ snd i) < 127"

definition plain_cfg :: "cfg_file \<Rightarrow> bool" where
  "plain_cfg cf \<longleftrightarrow> list_all (\<lambda>s. fst s \<in> set cfg_sections \<and> list_all plain_item (snd s)) cf"

lemma item_line:
  assumes "plain_item (k, v)"
  shows "skw_line_parser (k @ CHR ''='' # v) = SKW_LINE_ITEM k v" "plain_line (k @ CHR ''='' # v)"
proof -
  have k: "k \<noteq> []" "hd k \<noteq> CHR ''[''" and "\<forall>c \<in> set k. c \<noteq> CHR ''=''" using assms by (auto simp: plain_item_def)
  then have "takeWhile (\<lambda>c. c \<noteq> CHR ''='') (k @ CHR ''='' # v) = k"
    "dropWhile (\<lambda>c. c \<noteq> CHR ''='') (k @ CHR ''='' # v) = CHR ''='' # v"
    by (simp_all add: takeWhile_append dropWhile_append)
  then show "skw_line_parser (k @ CHR ''='' # v) = SKW_LINE_ITEM k v"
    using k by (simp add: skw_line_parser_def)
  show "plain_line (k @ CHR ''='' # v)" using assms
    by (simp add: plain_item_def plain_line_def SKW_LINE_BUFF_LEN_def)
       (simp add: plain_char_def NUL_def CR_def LF_def TAB_def)
qed

lemma sections_plain:
  "list_all (\<lambda>n. n \<noteq> [] \<and> plain_line (CHR ''['' # n @ '']'') \<and> skw_cfg_match n = Some n) cfg_sections"
  by (simp add: cfg_sections_def skw_cfg_match_def plain_line_def plain_char_def NUL_def CR_def LF_def TAB_def
      SKW_LINE_BUFF_LEN_def)

lemma section_line:
  assumes "n \<in> set cfg_sections"
  shows "skw_line_parser (CHR ''['' # n @ '']'') = SKW_LINE_CONFIG n" "plain_line (CHR ''['' # n @ '']'')"
    "skw_cfg_match n = Some n"
proof -
  have n: "n \<noteq> []" and p: "plain_line (CHR ''['' # n @ '']'')" and m: "skw_cfg_match n = Some n"
    using sections_plain assms by (auto simp: list_all_iff)
  from n show "skw_line_parser (CHR ''['' # n @ '']'') = SKW_LINE_CONFIG n"
    by (cases n) (simp_all add: skw_line_parser_def)
  show "plain_line (CHR ''['' # n @ '']'')" "skw_cfg_match n = Some n" by (fact p m)+
qed

lemma fold_items:
  "list_all plain_item items \<Longrightarrow>
     fold (parser_line al) (map (\<lambda>(k, v). k @ CHR ''='' # v) items) (Some sec, c) =
       (Some sec, fold (\<lambda>(k, v). section_parser al sec k v) items c)"
proof (induction items arbitrary: c)
  case (Cons i items)
  obtain k v where i: "i = (k, v)" by force
  then have "plain_item (k, v)" using Cons.prems by simp
  with Cons i show ?case by (simp add: parser_line_def item_line) (simp add: plain_item_def)
qed simp

lemma fold_sections:
  "plain_cfg cf \<Longrightarrow>
     snd (fold (parser_line al) (concat (map section_lines cf)) (cur, c)) =
       fold (\<lambda>(sec, items). fold (\<lambda>(k, v). section_parser al sec k v) items) cf c"
proof (induction cf arbitrary: cur c)
  case (Cons s cf)
  obtain sec items where s: "s = (sec, items)" by force
  then have "sec \<in> set cfg_sections" "list_all plain_item items" using Cons.prems by (simp_all add: plain_cfg_def)
  with Cons s show ?case
    by (simp add: section_lines_def parser_line_def [of al "CHR ''['' # _"] section_line fold_items plain_cfg_def)
qed (simp add: plain_cfg_def)

lemma plain_cfg_lines: "plain_cfg cf \<Longrightarrow> list_all plain_line (concat (map section_lines cf))"
  by (induction cf) (auto simp: plain_cfg_def section_lines_def list_all_iff section_line item_line)

section \<open>Settings as bytes\<close>

definition get32 :: "u8 list \<Rightarrow> u32" where
  "get32 bs = ucast (get16 bs) + 65536 * ucast (get16 (drop 2 bs))"

text \<open>How the firmware reads the bytes of a setting of a type.\<close>

definition mib_read :: "SKW_MIB_TYPE \<Rightarrow> u8 list \<Rightarrow> int" where
  "mib_read t bs =
     (case t of SKW_TYPE_S8 \<Rightarrow> sint (bs ! 0) | SKW_TYPE_S16 \<Rightarrow> sint (get16 bs) | SKW_TYPE_S32 \<Rightarrow> sint (get32 bs)
      | SKW_TYPE_U16 \<Rightarrow> uint (get16 bs) | SKW_TYPE_U32 \<Rightarrow> uint (get32 bs) | _ \<Rightarrow> uint (bs ! 0))"

lemma word32_halves: "ucast (ucast x :: u16) + 65536 * ucast (ucast (drop_bit 16 x) :: u16) = (x :: u32)"
proof -
  have x: "uint x < 4294967296" using uint_lt2p [of x] by simp
  then have "uint x div 65536 mod 65536 = uint x div 65536"
    by (intro mod_pos_pos_trivial) (simp_all add: pos_imp_zdiv_nonneg_iff)
  with x have "uint (ucast (ucast x :: u16) + 65536 * ucast (ucast (drop_bit 16 x) :: u16) :: u32) = uint x"
    by (simp add: uint_word_ariths unsigned_ucast_eq unsigned_drop_bit_eq take_bit_eq_mod
        drop_bit_eq_div uint_mod uint_div)
  then show ?thesis by (rule word_uint_eqI)
qed

lemma get32_le32: "get32 (le32 x) = x"
  using get16_le16 [of "ucast (drop_bit 16 x)" "[]"]
  by (simp add: get32_def le32_def word32_halves)

lemma sint_word_of_int_range:
  "- (2 ^ (LENGTH('a) - 1)) \<le> v \<Longrightarrow> v < 2 ^ (LENGTH('a) - 1) \<Longrightarrow> sint (word_of_int v :: 'a::len word) = v"
  by (simp add: signed_of_int signed_take_bit_int_eq_self)

lemma uint_word_of_int_range: "0 \<le> v \<Longrightarrow> v < 2 ^ LENGTH('a) \<Longrightarrow> uint (word_of_int v :: 'a::len word) = v"
  by (simp add: uint_word_of_int_eq take_bit_int_eq_self)

lemma get16_le16_end [simp]: "get16 (le16 x) = x"
  using get16_le16 [of x "[]"] by simp

section \<open>Properties\<close>

text \<open>A build without options.\<close>

definition kconfig_none :: kconfig where
  "kconfig_none = \<lparr>kc_reorder_timeout = None, kc_sta_sme_ext = False, kc_sap_sme_ext = False, kc_repeater = False,
     kc_legacy_p2p = False, kc_self_managed = False, kc_default_country = None, kc_append_bus_id = False,
     kc_append_module_id = False, kc_chip_id = None, kc_project_name = None, kc_wds = False\<rparr>"

text \<open>
  C36. Whatever the build options, whether allocations succeed, and whatever the file holds: a
  configuration that is read without an access outside an array is well typed, with four interfaces
  whose names and addresses fit their fields, terminated strings, a two-letter country, and firmware
  settings whose value lies in the range checked for their type. There is no such access when the file
  is safe, see \<open>file_safe\<close>: no line fills its buffer exactly, no address in it has
  more than six fields, and no interface has a negative number. The lemmas at the end of this theory
  show what the other files do: each of the three conditions guards an access that the code
  does not check.
\<close>

theorem config_well_typed:
  "(\<forall>c. skw_config_init al k file = Some c \<longrightarrow> config_ok c) \<and>
   ((case file of None \<Rightarrow> True | Some dat \<Rightarrow> file_safe dat) \<longrightarrow> (\<exists>c. skw_config_init al k file = Some c))"
proof -
  have "config_ok (skw_load_config al file (config_defaults k))"
    by (simp add: skw_load_config_def skw_parser_def parser_loop_ok defaults_ok split: option.split)
  moreover have "\<not> cfg_fault (config_defaults k)" by (simp add: config_defaults_def)
  then have "\<not> cfg_fault (skw_load_config al file (config_defaults k))"
    if "case file of None \<Rightarrow> True | Some dat \<Rightarrow> file_safe dat"
    using that by (auto simp: skw_load_config_def skw_parser_def parser_loop_fits split: option.splits)
  ultimately show ?thesis by (auto simp: skw_config_init_def Let_def)
qed

text \<open>A file with an interface and its address.\<close>

definition intf_file :: string where
  "intf_file = file_of [''[interface]'', ''intf=1,sap,ap0,2:0:0:0:0:7'']"

lemma file_safe_plain: "plain_line l \<Longrightarrow> file_safe (file_of (l # ls)) = (line_safe l \<and> file_safe (file_of ls))"
  by (subst file_safe.simps) (simp add: file_of_def skw_read_plain)

lemma intf_file_safe: "file_safe intf_file"
proof -
  have "line_safe ''[interface]''" by (simp add: line_safe_def skw_line_parser_def)
  moreover have "line_safe ''intf=1,sap,ap0,2:0:0:0:0:7''"
    by (simp add: line_safe_def skw_line_parser_def item_safe_def intf_number_def simple_strtol_def simple_strtoull_def
        fixup_radix_def hex_prefix_def digit_val_def Let_def)
  moreover have "plain_line ''[interface]''" "plain_line ''intf=1,sap,ap0,2:0:0:0:0:7''"
    by (simp_all add: plain_line_def plain_char_def NUL_def CR_def LF_def TAB_def SKW_LINE_BUFF_LEN_def)
  moreover have "file_safe (file_of [])" by (simp add: file_of_def file_safe.simps)
  ultimately show ?thesis unfolding intf_file_def by (simp only: file_safe_plain simp_thms)
qed

theorem config_well_typed_witness: "\<exists>c. skw_config_init (True, True) kconfig_none (Some intf_file) = Some c \<and> config_ok c"
  using config_well_typed [of "(True, True)" kconfig_none "Some intf_file"] intf_file_safe by auto

text \<open>
  C31. Printing a configuration as sections with their items and parsing the text applies exactly
  the items, in order, each with the parser of its section.
\<close>

theorem config_print_parse:
  assumes "plain_cfg cf"
  shows "skw_parser al (print_cfg cf) c =
    fold (\<lambda>(sec, items). fold (\<lambda>(k, v). section_parser al sec k v) items) cf c"
  using parser_loop_plain [OF plain_cfg_lines [OF assms], of al "(None, c)"] fold_sections [OF assms]
  by (simp add: skw_parser_def print_cfg_def)

theorem config_print_parse_witness:
  "cr_country (cfg_regd (skw_parser (True, True) (print_cfg [(''regdom'', [(''country'', ''DE'')])])
     (config_defaults kconfig_none))) = ''DE''"
proof -
  have "plain_cfg [(''regdom'', [(''country'', ''DE'')])]"
    by (simp add: plain_cfg_def plain_item_def cfg_sections_def plain_char_def NUL_def CR_def LF_def TAB_def)
  from config_print_parse [OF this, of "(True, True)" "config_defaults kconfig_none"] show ?thesis
    by (simp add: section_parser_def skw_regdom_parser_def Let_def)
qed

text \<open>
  Writing a MAC address as six hexadecimal bytes separated by colons and reading it gives the
  address back, without leaving the parser's buffers.
\<close>

theorem mac_addr_roundtrip:
  assumes "length mac = 6"
  shows "skw_get_mac_addr (mac_text mac) old = (mac, False)"
proof -
  have "mac_addr_loop (mac_text mac @ [NUL]) [] [] = (mac, False)"
    using assms by (subst mac_addr_text) auto
  with assms show ?thesis by (simp add: skw_get_mac_addr_def)
qed

theorem mac_addr_roundtrip_witness:
  "skw_get_mac_addr (mac_text [0x12, 0x34, 0x56, 0x78, 0x9a, 0xbc]) [] = ([0x12, 0x34, 0x56, 0x78, 0x9a, 0xbc], False)"
  by (rule mac_addr_roundtrip) simp

text \<open>
  A numeric setting of the configuration is sent as one message part with as many bytes as
  its type has, which read as that type give the configured value; the one value per signed type
  that the range check admits but the type does not hold (128, 32768, 2147483648) arrives negated.
\<close>

theorem mib_value_sent:
  assumes "mib_ok m" "md_value m = MibNum v"
  shows "\<exists>bs. skw_config_set_mib [m] = [(md_id m, bs)] \<and>
     mib_read (md_type m) bs =
       (if (md_type m, v) \<in> {(SKW_TYPE_S8, 128), (SKW_TYPE_S16, 32768), (SKW_TYPE_S32, 2147483648)} then - v else v)"
  using assms
  by (cases "md_type m")
     (auto simp: skw_config_set_mib_def mib_call_def mib_ok_def mib_read_def get32_le32
       sint_word_of_int_range uint_word_of_int_range)

definition tx_power_mib :: skw_mib_data where
  "tx_power_mib = \<lparr>md_value = MibNum (- 3), md_id = 17, md_type = SKW_TYPE_S16\<rparr>"

theorem mib_value_sent_witness:
  "\<exists>bs. skw_config_set_mib [tx_power_mib] = [(17, bs)] \<and> mib_read SKW_TYPE_S16 bs = - 3"
  using mib_value_sent [of tx_power_mib "- 3"] by (simp add: tx_power_mib_def mib_ok_def)

section \<open>Inputs the parser gets wrong\<close>

text \<open>A tab ends the search for comments: what follows the number sign becomes part of the line.\<close>

lemma tab_hides_comment:
  "skw_read_line (''a=1'' @ [TAB] @ ''#x'' @ [LF]) = (Some ''a=1#x'', [])"
  "skw_read_line (''a=1 #x'' @ [LF]) = (Some ''a=1'', [])"
  by (simp_all add: skw_read_line_def read_line_char_def NUL_def CR_def LF_def TAB_def SKW_LINE_BUFF_LEN_def Let_def)

text \<open>A line of exactly 128 characters at the end of the file leaves the buffer unterminated.\<close>

lemma unterminated_line:
  assumes "list_all plain_char l" "length l = 128"
  shows "skw_read_line l = (None, [])"
proof -
  have "read_line_loop l (None, buf, n) = ((None, buf @ l, n + length l), [])"
    if "list_all plain_char l" "length buf + length l \<le> 128" for buf n l
    using that
  proof (induction l arbitrary: buf n)
    case (Cons c l)
    then have "plain_char c" "c \<noteq> NUL" by (simp_all add: plain_char_def)
    with Cons show ?case by (simp add: read_plain_char SKW_LINE_BUFF_LEN_def)
  qed simp
  with assms show ?thesis
    by (auto simp: skw_read_line_def SKW_LINE_BUFF_LEN_def list_all_iff plain_char_def)
qed

text \<open>An address of seven fields is written past the end of the array.\<close>

lemma seven_fields_overrun: "snd (skw_get_mac_addr ''1:2:3:4:5:6:7'' old)"
  by (simp add: skw_get_mac_addr_def NUL_def simple_strtol_def simple_strtoull_def fixup_radix_def
      hex_prefix_def digit_val_def Let_def)

text \<open>A single field is accepted as an address, since being a valid address is enough.\<close>

lemma partial_mac_accepted: "skw_get_mac_addr ''2'' old = ([2, 0, 0, 0, 0, 0], False)"
  by (simp add: skw_get_mac_addr_def NUL_def simple_strtol_def simple_strtoull_def fixup_radix_def
      hex_prefix_def digit_val_def Let_def is_valid_ether_addr_def numeral_eq_Suc)

text \<open>A negative interface number passes the only comparison and indexes before the array.\<close>

lemma negative_interface:
  "cfg_fault (skw_config_intf ''-1,sta'' c)"
  by (simp add: skw_config_intf_def intf_field_def Let_def simple_strtol_def simple_strtoull_def
      fixup_radix_def hex_prefix_def digit_val_def SKW_NR_IFACE_def numeral_eq_Suc)

text \<open>The flags of the two bands are the same bit.\<close>

lemma band_flags_clash: "cb_flags (cfg_band (config_defaults k)) = 1"
  by (simp add: config_defaults_def SKW_CFG_BAND_2GHZ_def SKW_CFG_BAND_5GHZ_def set_bit_eq_or)

end
