(* ===== verification/Skw_Mbssid.thy ===== *)
theory Skw_Mbssid
  imports Skw_Util
begin

text \<open>
  Multiple-BSSID beacons, \<^verbatim>\<open>skw_mbssid.c\<close>: from the elements of a beacon the driver derives one
  entry per nontransmitted BSSID, with an address and a list of elements of its own. Positions
  are offsets. The code reads up to two bytes past the end of the elements when they are
  truncated; the bytes that lie there are the parameter \<open>beyond\<close>. \<open>cfg80211_find_ie\<close> of the
  kernel is the first element with an identifier.
\<close>

section \<open>Elements\<close>

definition WLAN_EID_SSID :: u8 where "WLAN_EID_SSID = 0"
definition WLAN_EID_MULTIPLE_BSSID :: u8 where "WLAN_EID_MULTIPLE_BSSID = 71"
definition WLAN_EID_NON_TX_BSSID_CAP :: u8 where "WLAN_EID_NON_TX_BSSID_CAP = 83"
definition SKW_WLAN_EID_MULTI_BSSID_IDX :: u8 where "SKW_WLAN_EID_MULTI_BSSID_IDX = 85"
definition WLAN_EID_VENDOR_SPECIFIC :: u8 where "WLAN_EID_VENDOR_SPECIFIC = 221"
definition SKW_WLAN_EID_EXTENSION :: u8 where "SKW_WLAN_EID_EXTENSION = 255"
definition SKW_EID_EXT_NON_INHERITANCE :: u8 where "SKW_EID_EXT_NON_INHERITANCE = 56"

lemmas eid_defs = WLAN_EID_SSID_def WLAN_EID_MULTIPLE_BSSID_def WLAN_EID_NON_TX_BSSID_CAP_def
  SKW_WLAN_EID_MULTI_BSSID_IDX_def WLAN_EID_VENDOR_SPECIFIC_def SKW_WLAN_EID_EXTENSION_def
  SKW_EID_EXT_NON_INHERITANCE_def

abbreviation datalen :: "u8 list \<Rightarrow> nat \<Rightarrow> nat" where
  "datalen bs p \<equiv> unat (bs ! (p + 1))"

abbreviation elem_data :: "u8 list \<Rightarrow> nat \<Rightarrow> u8 list" where
  "elem_data bs p \<equiv> take (datalen bs p) (drop (p + 2) bs)"

abbreviation elem_bytes :: "u8 list \<Rightarrow> nat \<Rightarrow> u8 list" where
  "elem_bytes bs p \<equiv> take (datalen bs p + 2) (drop p bs)"

text \<open>The positions \<open>skw_foreach_element\<close> visits from \<open>p\<close> on, up to \<open>stop\<close>.\<close>

function elems :: "u8 list \<Rightarrow> nat \<Rightarrow> nat \<Rightarrow> nat list" where
  "elems bs stop p =
     (if p + 2 \<le> stop \<and> p + 2 + datalen bs p \<le> stop
      then p # elems bs stop (p + 2 + datalen bs p) else [])"
  by pat_completeness auto
termination
  by (relation "measure (\<lambda>(bs, stop, p). stop - p)") auto

declare elems.simps [simp del]

definition cfg80211_find_ie :: "u8 \<Rightarrow> u8 list \<Rightarrow> nat option" where
  "cfg80211_find_ie eid ies = List.find (\<lambda>p. ies ! p = eid) (elems ies (length ies) 0)"

text \<open>
  \<open>skw_find_elem\<close> between \<open>p\<close> and \<open>stop\<close>. The comparison with the length is in unsigned 32-bit
  arithmetic.
\<close>

definition skw_find_elem :: "u8 \<Rightarrow> u8 list \<Rightarrow> nat \<Rightarrow> nat \<Rightarrow> u8 list \<Rightarrow> nat \<Rightarrow> nat option" where
  "skw_find_elem eid ies stop p match match_offset =
     List.find (\<lambda>q. ies ! q = eid \<and>
         (of_nat match_offset - 2 + of_nat (length match) :: u32) \<le> of_nat (datalen ies q) \<and>
         take (length match) (drop (q + 2 + (match_offset - 2)) ies) = match)
       (elems ies stop p)"

section \<open>Profiles\<close>

text \<open>\<open>m\<close> and \<open>s\<close> are the multiple-BSSID element and the subelement at hand.\<close>

definition skw_get_profile_continuation :: "u8 list \<Rightarrow> nat \<Rightarrow> nat \<Rightarrow> nat option" where
  "skw_get_profile_continuation ie m s =
     (let mbssid_end = m + 2 + datalen ie m in
      case skw_find_elem WLAN_EID_MULTIPLE_BSSID ie (length ie) mbssid_end [] 0 of
        None \<Rightarrow> None
      | Some n \<Rightarrow>
          if s + 2 + datalen ie s < mbssid_end - 1 then None
          else if datalen ie n < 4 then None
          else
            (let sub = n + 3 in
             if n + 2 + datalen ie n < sub + 2 + datalen ie sub then None
             else if ie ! sub \<noteq> 0 \<or> datalen ie sub < 2 then None
             else if ie ! (sub + 2) = WLAN_EID_NON_TX_BSSID_CAP then None else Some n))"

text \<open>
  With the offset 0 the comparison is with a number beyond any length, so this search finds
  nothing: no continuation is ever found, which is also why the loop below ends.
\<close>

lemma find_elem_offset_0: "length match \<le> 1 \<Longrightarrow> skw_find_elem eid ies stop p match 0 = None"
proof -
  assume m: "length match \<le> 1"
  have "\<not> (of_nat 0 - 2 + of_nat (length match) :: u32) \<le> of_nat (datalen ies q)" for q
  proof -
    have "unat (ies ! (q + 1)) < 2 ^ LENGTH(8)" by (rule unsigned_less)
    then have "unat (of_nat (datalen ies q) :: u32) < 256"
      by (simp add: unsigned_ucast_eq take_bit_nat_eq_self)
    moreover have "length match = 0 \<or> length match = 1" using m by linarith
    moreover have "unat (- 1 :: u32) = 4294967295" by (simp add: unsigned_minus_1_eq_mask mask_eq_exp_minus_1)
    ultimately show ?thesis by (auto simp: word_le_nat_alt)
  qed
  then show ?thesis by (simp add: skw_find_elem_def find_None_iff)
qed

lemma continuation_None [simp]: "skw_get_profile_continuation ie m s = None"
  by (simp add: skw_get_profile_continuation_def find_elem_offset_0)

text \<open>
  The loop of \<open>skw_merge_profile\<close>: the continuation is looked up with the same arguments each
  time. \<open>merged\<close> are the bytes copied so far.
\<close>

function merge_loop :: "u8 list \<Rightarrow> nat \<Rightarrow> nat \<Rightarrow> nat \<Rightarrow> u8 list \<Rightarrow> u8 list" where
  "merge_loop ie m s max_copy_len merged =
     (case skw_get_profile_continuation ie m s of
        None \<Rightarrow> merged
      | Some n \<Rightarrow>
          if max_copy_len < length merged + datalen ie (n + 3) then merged
          else merge_loop ie m s max_copy_len (merged @ elem_data ie (n + 3)))"
  by pat_completeness auto
termination
  by (relation "measure (\<lambda>(ie, m, s, k, merged). k - length merged)") auto

definition skw_merge_profile :: "u8 list \<Rightarrow> nat \<Rightarrow> nat \<Rightarrow> nat \<Rightarrow> u8 list" where
  "skw_merge_profile ie m s max_copy_len =
     (if max_copy_len < datalen ie s then [] else merge_loop ie m s max_copy_len (elem_data ie s))"

section \<open>Addresses\<close>

text \<open>
  \<open>SKW_GENMASK_ULL(max_bssid - 1, 0)\<close> shifts by \<open>64 - max_bssid\<close>, which is defined only from 0
  to 63. \<open>mask_of\<close> is the mask that the machine computes for the other numbers: the network is reported all
  the same.
\<close>

definition bssid_mask :: "u8 \<Rightarrow> u64" where
  "bssid_mask max_bssid = (- 1) AND drop_bit (64 - unat max_bssid) (- 1)"

definition skw_gen_new_bssid :: "(u8 \<Rightarrow> u64) \<Rightarrow> u8 list \<Rightarrow> u8 \<Rightarrow> u8 \<Rightarrow> u8 list" where
  "skw_gen_new_bssid mask_of bssid max_bssid mbssid_index =
     (let b = skw_mac_to_u64 bssid;
          mask = (if max_bssid = 0 \<or> 64 < max_bssid then mask_of max_bssid else bssid_mask max_bssid) in
      skw_u64_to_mac ((b AND NOT mask) OR (((b AND mask) + ucast mbssid_index) AND mask)) (replicate 6 0))"

section \<open>The elements of a nontransmitted BSSID\<close>

definition rd :: "(nat \<Rightarrow> u8) \<Rightarrow> u8 list \<Rightarrow> nat \<Rightarrow> u8" where
  "rd beyond bs i = (if i < length bs then bs ! i else beyond (i - length bs))"

text \<open>\<open>ni\<close> is the data of the non-inheritance element, when there is one.\<close>

definition is_skw_element_inherited :: "u8 \<Rightarrow> u8 \<Rightarrow> u8 list option \<Rightarrow> bool" where
  "is_skw_element_inherited eid ext ni =
     (if eid = WLAN_EID_MULTIPLE_BSSID then False
      else case ni of
        None \<Rightarrow> True
      | Some d \<Rightarrow>
          if length d < 2 then True
          else
            (let id_len = unat (d ! 1) in
             if length d < 3 + id_len then True
             else
               (let ext_id_len = unat (d ! (2 + id_len)) in
                if length d < 3 + id_len + ext_id_len then True
                else if eid = SKW_WLAN_EID_EXTENSION
                then ext \<notin> set (take ext_id_len (drop (3 + id_len) d))
                else eid \<notin> set (take id_len (drop 2 d)))))"

text \<open>
  One turn of the first loop of \<open>skw_gen_new_ie\<close> for an element that is not skipped: the bytes
  appended and the copy of the subelements, in which an element that was used gets the
  identifier 0.
\<close>

definition gen_old_elem ::
  "(nat \<Rightarrow> u8) \<Rightarrow> u8 list \<Rightarrow> nat \<Rightarrow> (nat \<Rightarrow> u8) \<Rightarrow> u8 list option \<Rightarrow> u8 list \<Rightarrow> u8 list \<times> u8 list" where
  "gen_old_elem beyond ie p beyond_sub ni sub =
     (let eid = ie ! p; old = elem_bytes ie p;
          tmp = (if eid = SKW_WLAN_EID_EXTENSION
                 then skw_find_elem SKW_WLAN_EID_EXTENSION sub (length sub) 0 [rd beyond ie (p + 2)] 2
                 else cfg80211_find_ie eid sub) in
      case tmp of
        None \<Rightarrow> (if is_skw_element_inherited eid (rd beyond ie (p + 2)) ni then old else [], sub)
      | Some q \<Rightarrow>
          if eid = WLAN_EID_VENDOR_SPECIFIC \<and>
             map (\<lambda>i. rd beyond ie (p + 2 + i)) [0..<5] \<noteq> map (\<lambda>i. rd beyond_sub sub (q + 2 + i)) [0..<5]
          then (old, sub)
          else (elem_bytes sub q, sub[q := WLAN_EID_SSID]))"

function gen_old_loop ::
  "(nat \<Rightarrow> u8) \<Rightarrow> u8 list \<Rightarrow> (nat \<Rightarrow> u8) \<Rightarrow> u8 list option \<Rightarrow> nat \<Rightarrow> u8 list \<times> u8 list \<Rightarrow> u8 list \<times> u8 list" where
  "gen_old_loop beyond ie beyond_sub ni p s =
     (let n = unat (rd beyond ie (p + 1)) in
      if length ie < p + n + 2 then s
      else if ie ! p = 0 then gen_old_loop beyond ie beyond_sub ni (p + 1) s
      else
        (let (out, sub) = gen_old_elem beyond ie p beyond_sub ni (snd s); s1 = (fst s @ out, sub) in
         if p + n + 2 = length ie then s1 else gen_old_loop beyond ie beyond_sub ni (p + n + 2) s1))"
  by pat_completeness auto
termination
  by (relation "measure (\<lambda>(b, ie, b2, ni, p, s). length ie - p)") auto

declare gen_old_loop.simps [simp del]

text \<open>The last loop appends the subelements that were not used.\<close>

function gen_sub_loop :: "(nat \<Rightarrow> u8) \<Rightarrow> u8 list \<Rightarrow> nat \<Rightarrow> u8 list \<Rightarrow> u8 list" where
  "gen_sub_loop beyond sub p out =
     (let n = unat (rd beyond sub (p + 1)) in
      if length sub < p + n + 2 then out
      else
        (let out1 = (if sub ! p = WLAN_EID_NON_TX_BSSID_CAP \<or> sub ! p = WLAN_EID_SSID then out
                     else out @ elem_bytes sub p) in
         if p + n + 2 = length sub then out1 else gen_sub_loop beyond sub (p + n + 2) out1))"
  by pat_completeness auto
termination
  by (relation "measure (\<lambda>(b, sub, p, out). length sub - p)") auto

declare gen_sub_loop.simps [simp del]

definition skw_gen_new_ie :: "bool \<Rightarrow> (nat \<Rightarrow> u8) \<Rightarrow> (nat \<Rightarrow> u8) \<Rightarrow> u8 list \<Rightarrow> u8 list \<Rightarrow> u8 list" where
  "skw_gen_new_ie ok beyond beyond_sub ie sub =
     (if \<not> ok then []
      else
        (let ssid = (case cfg80211_find_ie WLAN_EID_SSID sub of None \<Rightarrow> [] | Some q \<Rightarrow> elem_bytes sub q);
             ni = map_option (elem_data sub)
                    (skw_find_elem SKW_WLAN_EID_EXTENSION sub (length sub) 0 [SKW_EID_EXT_NON_INHERITANCE] 0);
             start = (case cfg80211_find_ie WLAN_EID_SSID ie of None \<Rightarrow> 0 | Some q \<Rightarrow> q + datalen ie q + 2);
             (out, sub1) = gen_old_loop beyond ie beyond_sub ni start (ssid, sub) in
         gen_sub_loop beyond_sub sub1 0 out))"

section \<open>The beacon\<close>

record mbss_entry =
  mb_bssid :: "u8 list"
  mb_capability :: u16
  mb_ie :: "u8 list"
  mb_index :: u8
  mb_max :: u8

text \<open>
  What one subelement at \<open>s\<close> of the element at \<open>m\<close> yields: \<open>None\<close> for nothing, otherwise the
  entry that is reported. The profile's length is stored in a byte.
\<close>

definition mbssid_sub ::
  "(u8 \<Rightarrow> u64) \<Rightarrow> (nat \<Rightarrow> bool) \<Rightarrow> (nat \<Rightarrow> u8) \<Rightarrow> (nat \<Rightarrow> u8) \<Rightarrow> u8 list \<Rightarrow> u8 list \<Rightarrow> nat \<Rightarrow> nat \<Rightarrow> mbss_entry option" where
  "mbssid_sub mask_of ok beyond beyond_sub bssid ie m s =
     (if ie ! s \<noteq> 0 \<or> datalen ie s < 4 then None
      else if ie ! (s + 2) \<noteq> WLAN_EID_NON_TX_BSSID_CAP \<or> ie ! (s + 3) \<noteq> 2 then None
      else
        (let merged = skw_merge_profile ie m s (length ie);
             profile = take (unat (of_nat (length merged) :: u8)) merged in
         case cfg80211_find_ie SKW_WLAN_EID_MULTI_BSSID_IDX profile of
           None \<Rightarrow> None
         | Some q \<Rightarrow>
             if datalen profile q < 1 \<or> profile ! (q + 2) = 0 \<or> 46 < profile ! (q + 2) then None
             else
               (let nb = skw_gen_new_bssid mask_of bssid (ie ! (m + 2)) (profile ! (q + 2));
                    new_ie = skw_gen_new_ie (ok s) beyond beyond_sub ie profile in
                if new_ie = [] then None
                else Some \<lparr>mb_bssid = nb, mb_capability = get16 (drop 2 merged), mb_ie = new_ie,
                           mb_index = profile ! (q + 2), mb_max = ie ! (m + 2)\<rparr>)))"

text \<open>
  The subelements of one element; the loop ends at an entry that the kernel does not take
  (\<open>inform\<close> is false).
\<close>

fun mbssid_subs :: "(nat \<Rightarrow> mbss_entry option) \<Rightarrow> (mbss_entry \<Rightarrow> bool) \<Rightarrow> nat list \<Rightarrow> mbss_entry list" where
  "mbssid_subs f inform [] = []"
| "mbssid_subs f inform (s # ss) =
     (case f s of None \<Rightarrow> mbssid_subs f inform ss
      | Some e \<Rightarrow> if inform e then e # mbssid_subs f inform ss else [])"

definition skw_parse_mbssid_data ::
  "(u8 \<Rightarrow> u64) \<Rightarrow> (nat \<Rightarrow> bool) \<Rightarrow> (nat \<Rightarrow> u8) \<Rightarrow> (nat \<Rightarrow> u8) \<Rightarrow> (mbss_entry \<Rightarrow> bool) \<Rightarrow> u8 list \<Rightarrow> u8 list \<Rightarrow> mbss_entry list" where
  "skw_parse_mbssid_data mask_of ok beyond beyond_sub inform bssid ie =
     concat (map (\<lambda>m. if ie ! m \<noteq> WLAN_EID_MULTIPLE_BSSID \<or> datalen ie m < 4 then []
                       else mbssid_subs (mbssid_sub mask_of ok beyond beyond_sub bssid ie m) inform
                              (elems ie (m + 2 + datalen ie m) (m + 3)))
              (elems ie (length ie) 0))"

text \<open>
  The frame: the elements follow the 36 bytes of header, timestamp, interval and capability. A
  frame without a multiple-BSSID element is left alone.
\<close>

definition skw_mbssid_data_parser ::
  "(u8 \<Rightarrow> u64) \<Rightarrow> (nat \<Rightarrow> bool) \<Rightarrow> (nat \<Rightarrow> u8) \<Rightarrow> (nat \<Rightarrow> u8) \<Rightarrow> (mbss_entry \<Rightarrow> bool) \<Rightarrow> u8 list \<Rightarrow> mbss_entry list" where
  "skw_mbssid_data_parser mask_of ok beyond beyond_sub inform mgmt =
     (let ie = drop 36 mgmt; bssid = take 6 (drop 16 mgmt) in
      if cfg80211_find_ie WLAN_EID_MULTIPLE_BSSID ie = None then []
      else skw_parse_mbssid_data mask_of ok beyond beyond_sub inform bssid ie)"

end
