(* ===== verification/Skw_Mbssid_Props.thy ===== *)
theory Skw_Mbssid_Props
  imports Skw_Mbssid
begin

text \<open>
  Properties of the multiple-BSSID code: the derived address, and the size of the derived list of
  elements.
\<close>

section \<open>Positions of elements\<close>

abbreviation fits_at :: "u8 list \<Rightarrow> nat \<Rightarrow> nat \<Rightarrow> bool" where
  "fits_at bs stop p \<equiv> p + 2 \<le> stop \<and> p + 2 + datalen bs p \<le> stop"

lemma elems_step: "fits_at bs stop p \<Longrightarrow> elems bs stop p = p # elems bs stop (p + 2 + datalen bs p)"
  by (subst elems.simps) simp

lemma elems_stop: "\<not> fits_at bs stop p \<Longrightarrow> elems bs stop p = []"
  by (subst elems.simps) simp

text \<open>Induction over the elements from a position on.\<close>

lemma elems_induct [case_names stop step]:
  assumes "\<And>p. \<not> fits_at bs stop p \<Longrightarrow> P p"
    and "\<And>p. fits_at bs stop p \<Longrightarrow> P (p + 2 + datalen bs p) \<Longrightarrow> P p"
  shows "P p"
proof (induction "stop - p" arbitrary: p rule: less_induct)
  case less
  show ?case
  proof (cases "fits_at bs stop p")
    case True
    then have "stop - (p + 2 + datalen bs p) < stop - p" by linarith
    from less [OF this] assms(2) [OF True] show ?thesis by blast
  qed (rule assms(1))
qed

lemma elems_bounds: "q \<in> set (elems bs stop p) \<Longrightarrow> p \<le> q \<and> q + 2 + datalen bs q \<le> stop"
  by (induction p rule: elems_induct [of stop bs]) (auto simp: elems_stop elems_step)

lemma elems_distinct: "distinct (elems bs stop p)"
  by (induction p rule: elems_induct [of stop bs]) (auto simp: elems_stop elems_step dest: elems_bounds)

lemma elems_sum: "p \<le> stop \<Longrightarrow> (\<Sum>q \<leftarrow> elems bs stop p. datalen bs q + 2) \<le> stop - p"
  by (induction p rule: elems_induct [of stop bs]) (auto simp: elems_stop elems_step)

lemma elems_upd_before: "q < p \<Longrightarrow> elems (bs[q := x]) stop p = elems bs stop p"
proof (induction p rule: elems_induct [of stop bs])
  case (stop p)
  then show ?case by (simp add: elems_stop)
next
  case (step p)
  then have "fits_at (bs[q := x]) stop p" "datalen (bs[q := x]) p = datalen bs p" by auto
  with step show ?case by (simp add: elems_step)
qed

lemma elems_upd: "q \<in> set (elems bs stop p) \<Longrightarrow> elems (bs[q := x]) stop p = elems bs stop p"
proof (induction p rule: elems_induct [of stop bs])
  case (step p)
  have q: "q = p \<or> q \<in> set (elems bs stop (p + 2 + datalen bs p))"
    using step.prems step.hyps by (simp add: elems_step)
  then have d: "datalen (bs[q := x]) p = datalen bs p" by (auto dest: elems_bounds)
  then have "elems (bs[q := x]) stop p = p # elems (bs[q := x]) stop (p + 2 + datalen bs p)"
    using step.hyps elems_step [of p stop "bs[q := x]"] by auto
  also have "elems (bs[q := x]) stop (p + 2 + datalen bs p) = elems bs stop (p + 2 + datalen bs p)"
    using q step.IH elems_upd_before by auto
  finally show ?case using step.hyps by (simp add: elems_step)
qed (simp add: elems_stop)

lemma elems_spaced:
  "r \<in> set (elems bs stop p) \<Longrightarrow> q \<in> set (elems bs stop p) \<Longrightarrow> r < q \<Longrightarrow> r + 2 + datalen bs r \<le> q"
proof (induction p rule: elems_induct [of stop bs])
  case (step p)
  then have "q \<in> set (elems bs stop (p + 2 + datalen bs p))" "r = p \<or> r \<in> set (elems bs stop (p + 2 + datalen bs p))"
    using elems_bounds [OF step.prems(1)] by (auto simp: elems_step)
  then show ?case using step.IH step.prems(3) by (auto dest: elems_bounds)
qed (simp add: elems_stop)

text \<open>The bytes of the elements that are still to be copied: those with an identifier other than 0.\<close>

definition open_bytes :: "u8 list \<Rightarrow> nat \<Rightarrow> nat" where
  "open_bytes bs p = (\<Sum>q \<leftarrow> elems bs (length bs) p. if bs ! q = 0 then 0 else datalen bs q + 2)"

lemma open_bytes_set:
  "open_bytes bs p = (\<Sum>q \<in> set (elems bs (length bs) p). if bs ! q = 0 then 0 else datalen bs q + 2)"
  unfolding open_bytes_def by (rule sum_list_distinct_conv_sum_set) (rule elems_distinct)

lemma elems_sum_set: "p \<le> stop \<Longrightarrow> (\<Sum>q \<in> set (elems bs stop p). datalen bs q + 2) \<le> stop - p"
  using elems_sum [of p stop bs] sum_list_distinct_conv_sum_set [OF elems_distinct] by metis

lemma open_bytes_mark:
  assumes "q \<in> set (elems bs (length bs) 0)" "bs ! q \<noteq> 0"
  shows "open_bytes (bs[q := 0]) 0 + (datalen bs q + 2) = open_bytes bs 0"
proof -
  let ?S = "set (elems bs (length bs) 0)"
  have b: "q + 2 + datalen bs q \<le> length bs" using elems_bounds [OF assms(1)] by simp
  have e: "elems (bs[q := 0]) (length (bs[q := 0])) 0 = elems bs (length bs) 0"
    using elems_upd [OF assms(1)] by simp
  let ?f = "\<lambda>bs r. if bs ! r = 0 then 0 else datalen bs r + 2"
  have "datalen (bs[q := 0]) r = datalen bs r" if "r \<in> ?S" for r
    using elems_spaced [OF that assms(1)] that by (cases "r < q") auto
  then have "sum (?f (bs[q := 0])) (?S - {q}) = sum (?f bs) (?S - {q})" by (intro sum.cong) simp_all
  moreover have "sum (?f (bs[q := 0])) ?S = sum (?f (bs[q := 0])) (?S - {q})"
    using assms b by (subst sum.remove [of _ q]) simp_all
  ultimately have "open_bytes (bs[q := 0]) 0 = sum (?f bs) (?S - {q})" unfolding open_bytes_set e by simp
  then show ?thesis
    unfolding open_bytes_set using assms sum.remove [of ?S q "\<lambda>r. if bs ! r = 0 then 0 else datalen bs r + 2"]
    by simp
qed

lemma elem_bytes_length: "p + 2 + datalen bs p \<le> length bs \<Longrightarrow> length (elem_bytes bs p) = datalen bs p + 2"
  by simp

lemma find_SomeD: "List.find P xs = Some x \<Longrightarrow> x \<in> set xs \<and> P x"
  by (auto simp: find_Some_iff)

section \<open>The size of the derived elements\<close>

lemma gen_old_elem_bytes:
  assumes "p + 2 + datalen ie p \<le> length ie" "ie ! p \<noteq> 0"
    and "gen_old_elem beyond ie p beyond_sub ni sub = (out, sub1)"
  shows "length out + open_bytes sub1 0 \<le> open_bytes sub 0 + (datalen ie p + 2)"
proof -
  have used: "length (elem_bytes sub q) + open_bytes (sub[q := WLAN_EID_SSID]) 0 \<le> open_bytes sub 0"
    if "q \<in> set (elems sub (length sub) 0)" "sub ! q \<noteq> 0" for q
    using open_bytes_mark [OF that] elems_bounds [OF that(1)] by (simp add: WLAN_EID_SSID_def)
  let ?tmp = "if ie ! p = SKW_WLAN_EID_EXTENSION
     then skw_find_elem SKW_WLAN_EID_EXTENSION sub (length sub) 0 [rd beyond ie (p + 2)] 2
     else cfg80211_find_ie (ie ! p) sub"
  have found: "q \<in> set (elems sub (length sub) 0) \<and> sub ! q = ie ! p" if "?tmp = Some q" for q
    using that by (auto simp: skw_find_elem_def cfg80211_find_ie_def split: if_splits dest!: find_SomeD)
  have "(sub1 = sub \<and> (out = [] \<or> out = elem_bytes ie p)) \<or>
      (\<exists>q. ?tmp = Some q \<and> out = elem_bytes sub q \<and> sub1 = sub[q := WLAN_EID_SSID])"
    using assms(3) unfolding gen_old_elem_def Let_def by (cases ?tmp) (auto split: if_splits)
  then show ?thesis
  proof (elim disjE exE conjE)
    fix q
    assume "?tmp = Some q" "out = elem_bytes sub q" "sub1 = sub[q := WLAN_EID_SSID]"
    with used [of q] found [of q] assms(2) show ?thesis by simp
  qed (use elem_bytes_length [OF assms(1)] in simp_all)
qed

lemma rd_inside: "p + unat (rd b bs (p + 1)) + 2 \<le> length bs \<Longrightarrow> rd b bs (p + 1) = bs ! (p + 1)"
  by (simp add: rd_def)

lemma gen_old_loop_bytes:
  "p \<le> length ie \<Longrightarrow>
     length (fst (gen_old_loop beyond ie beyond_sub ni p s)) + open_bytes (snd (gen_old_loop beyond ie beyond_sub ni p s)) 0
       \<le> length (fst s) + open_bytes (snd s) 0 + (length ie - p)"
proof (induction beyond ie beyond_sub ni p s rule: gen_old_loop.induct)
  case (1 beyond ie beyond_sub ni p s)
  let ?n = "unat (rd beyond ie (p + 1))"
  show ?case
  proof (cases "length ie < p + ?n + 2")
    case True
    then show ?thesis by (subst (1 2) gen_old_loop.simps) (simp add: Let_def)
  next
    case in_ie: False
    then have n: "?n = datalen ie p" using rd_inside [of p beyond ie] by simp
    show ?thesis
    proof (cases "ie ! p = 0")
      case True
      with in_ie 1 show ?thesis by (subst (1 2) gen_old_loop.simps) (simp add: Let_def)
    next
      case False
      obtain out sub where g: "gen_old_elem beyond ie p beyond_sub ni (snd s) = (out, sub)" by force
      have le: "p + 2 + datalen ie p \<le> length ie" using in_ie n by simp
      note b = gen_old_elem_bytes [OF le False g]
      show ?thesis
      proof (cases "p + ?n + 2 = length ie")
        case True
        with in_ie False g b n show ?thesis by (subst (1 2) gen_old_loop.simps) (simp add: Let_def)
      next
        case more: False
        have "length (fst (gen_old_loop beyond ie beyond_sub ni (p + ?n + 2) (fst s @ out, sub))) +
            open_bytes (snd (gen_old_loop beyond ie beyond_sub ni (p + ?n + 2) (fst s @ out, sub))) 0
            \<le> length (fst s @ out) + open_bytes sub 0 + (length ie - (p + ?n + 2))"
          using 1(2) [OF refl in_ie False g [symmetric] refl refl more] in_ie by simp
        with in_ie False g b n more show ?thesis by (subst (1 2) gen_old_loop.simps) (simp add: Let_def)
      qed
    qed
  qed
qed

lemma gen_sub_loop_bytes:
  "p \<le> length sub \<Longrightarrow> length (gen_sub_loop beyond sub p out) \<le> length out + open_bytes sub p"
proof (induction beyond sub p out rule: gen_sub_loop.induct)
  case (1 beyond sub p out)
  let ?n = "unat (rd beyond sub (p + 1))"
  let ?out = "if sub ! p = WLAN_EID_NON_TX_BSSID_CAP \<or> sub ! p = WLAN_EID_SSID then out else out @ elem_bytes sub p"
  show ?case
  proof (cases "length sub < p + ?n + 2")
    case True
    then show ?thesis by (subst gen_sub_loop.simps) (simp add: Let_def)
  next
    case False
    then have n: "?n = datalen sub p" using rd_inside [of p beyond sub] by simp
    then have le: "fits_at sub (length sub) p" using False by simp
    have o: "length ?out + open_bytes sub (p + 2 + datalen sub p) \<le> length out + open_bytes sub p"
      using elem_bytes_length [of p sub] le by (simp add: open_bytes_def elems_step WLAN_EID_SSID_def)
    show ?thesis
    proof (cases "p + ?n + 2 = length sub")
      case True
      with False o show ?thesis by (subst gen_sub_loop.simps) (simp add: Let_def)
    next
      case more: False
      have "length (gen_sub_loop beyond sub (p + ?n + 2) ?out) \<le> length ?out + open_bytes sub (p + ?n + 2)"
        using 1(1) [OF refl False refl more] False by simp
      with False more o n show ?thesis
        by (subst gen_sub_loop.simps) (simp add: Let_def add.commute add.left_commute split del: if_split)
    qed
  qed
qed

lemma ssid_bytes:
  "length (case cfg80211_find_ie WLAN_EID_SSID sub of None \<Rightarrow> [] | Some q \<Rightarrow> elem_bytes sub q) + open_bytes sub 0 \<le> length sub"
proof -
  let ?S = "set (elems sub (length sub) 0)"
  let ?f = "\<lambda>r. if sub ! r = 0 then 0 else datalen sub r + 2"
  have all: "(\<Sum>r \<in> ?S. datalen sub r + 2) \<le> length sub" using elems_sum_set [of 0 "length sub" sub] by simp
  have le: "sum ?f A \<le> (\<Sum>r \<in> A. datalen sub r + 2)" for A by (rule sum_mono) simp
  show ?thesis
  proof (cases "cfg80211_find_ie WLAN_EID_SSID sub")
    case None
    then show ?thesis using all le [of ?S] by (simp add: open_bytes_set)
  next
    case (Some q)
    then have q: "q \<in> ?S" "sub ! q = 0"
      by (auto simp: cfg80211_find_ie_def WLAN_EID_SSID_def dest!: find_SomeD)
    then have "sum ?f ?S = sum ?f (?S - {q})" by (subst sum.remove [of _ q]) simp_all
    moreover have "(\<Sum>r \<in> ?S. datalen sub r + 2) = datalen sub q + 2 + (\<Sum>r \<in> ?S - {q}. datalen sub r + 2)"
      using q by (subst sum.remove [of _ q]) simp_all
    ultimately show ?thesis
      using Some all le [of "?S - {q}"] elem_bytes_length [of q sub] elems_bounds [OF q(1)] by (simp add: open_bytes_set)
  qed
qed

lemma find_ie_start: "case cfg80211_find_ie eid ie of None \<Rightarrow> True | Some q \<Rightarrow> q + datalen ie q + 2 \<le> length ie"
  by (auto simp: cfg80211_find_ie_def split: option.splits dest!: find_SomeD elems_bounds)

lemma gen_new_ie_bytes: "length (skw_gen_new_ie ok beyond beyond_sub ie sub) \<le> length ie + length sub"
proof (cases ok)
  case True
  let ?ssid = "case cfg80211_find_ie WLAN_EID_SSID sub of None \<Rightarrow> [] | Some q \<Rightarrow> elem_bytes sub q"
  let ?ni = "map_option (elem_data sub)
     (skw_find_elem SKW_WLAN_EID_EXTENSION sub (length sub) 0 [SKW_EID_EXT_NON_INHERITANCE] 0)"
  let ?start = "case cfg80211_find_ie WLAN_EID_SSID ie of None \<Rightarrow> 0 | Some q \<Rightarrow> q + datalen ie q + 2"
  obtain out sub1 where l: "gen_old_loop beyond ie beyond_sub ?ni ?start (?ssid, sub) = (out, sub1)" by force
  have "?start \<le> length ie" using find_ie_start [of ie WLAN_EID_SSID] by (auto split: option.splits)
  from gen_old_loop_bytes [OF this, of beyond beyond_sub ?ni "(?ssid, sub)"]
  have "length out + open_bytes sub1 0 \<le> length ?ssid + open_bytes sub 0 + length ie" unfolding l by simp
  moreover have "skw_gen_new_ie ok beyond beyond_sub ie sub = gen_sub_loop beyond_sub sub1 0 out"
    using True by (simp only: skw_gen_new_ie_def Let_def l prod.case) simp
  then have "length (skw_gen_new_ie ok beyond beyond_sub ie sub) \<le> length out + open_bytes sub1 0"
    using gen_sub_loop_bytes [of 0 sub1 beyond_sub out] by simp
  ultimately show ?thesis using ssid_bytes [of sub] by linarith
qed (simp add: skw_gen_new_ie_def)

section \<open>Addresses\<close>

lemma mac_loop_other: "n \<le> i \<Longrightarrow> u64_to_mac_loop n u addr ! i = addr ! i"
  by (induction n u addr rule: u64_to_mac_loop.induct) auto

lemma take_mac_loop:
  assumes "n < length addr"
  shows "take (Suc n) (u64_to_mac_loop (Suc n) u addr) =
    take n (u64_to_mac_loop n (drop_bit 8 u) (addr[n := ucast (u AND 0xff)])) @ [ucast (u AND 0xff)]"
  using assms mac_loop_other [of n n "drop_bit 8 u" "addr[n := ucast (u AND 0xff)]"]
  by (simp add: take_Suc_conv_app_nth)

lemma mac_step_bits:
  assumes "n \<le> 6"
  shows "mac_step (ucast (u AND 0xff)) (take_bit (8 * n) (drop_bit 8 u)) = take_bit (8 * Suc n) (u :: u64)"
proof -
  have ff: "(0xff :: u64) = mask 8" by (simp add: mask_eq_exp_minus_1)
  show ?thesis unfolding ff using assms by (intro bit_word_eqI) (auto simp: bit_simps)
qed

lemma mac_to_u64_loop:
  "n \<le> length addr \<Longrightarrow> n \<le> 6 \<Longrightarrow> fold mac_step (take n (u64_to_mac_loop n u addr)) 0 = take_bit (8 * n) u"
proof (induction n arbitrary: u addr)
  case (Suc n)
  have "fold mac_step (take (Suc n) (u64_to_mac_loop (Suc n) u addr)) 0 =
      mac_step (ucast (u AND 0xff)) (take_bit (8 * n) (drop_bit 8 u))"
    using Suc by (subst take_mac_loop) simp_all
  then show ?case using Suc.prems mac_step_bits [of n u] by simp
qed simp

lemma mac_to_u64_inverse: "skw_mac_to_u64 (skw_u64_to_mac u (replicate 6 0)) = take_bit 48 u"
  using mac_to_u64_loop [of 6 "replicate 6 0" u] by (simp add: skw_mac_to_u64_def skw_u64_to_mac_def)

lemma bssid_mask_bits: "1 \<le> unat m \<Longrightarrow> unat m \<le> 64 \<Longrightarrow> bit (bssid_mask m) i \<longleftrightarrow> i < unat m"
  by (auto simp: bssid_mask_def bit_simps)

lemma bssid_mask_eq: "1 \<le> unat m \<Longrightarrow> unat m \<le> 64 \<Longrightarrow> bssid_mask m = mask (unat m)"
  by (intro bit_word_eqI) (auto simp: bssid_mask_bits bit_simps)

lemma new_bssid_number:
  fixes b u :: u64
  assumes "n \<le> 48" "\<And>k. bit b k \<Longrightarrow> k < 48"
    and u: "u = (b AND NOT (mask n)) OR (((b AND mask n) + i) AND mask n)"
  shows "take_bit 48 u = u" "unat u div 2 ^ n = unat b div 2 ^ n" "unat u mod 2 ^ n = (unat b + unat i) mod 2 ^ n"
proof -
  have low: "((b AND mask n) + i) AND mask n = take_bit n (b + i)"
  proof (rule word_uint_eqI)
    have "(uint b mod 2 ^ n + uint i) mod 2 ^ 64 mod 2 ^ n = (uint b + uint i) mod 2 ^ 64 mod 2 ^ n"
      using mod_mod_cancel [OF le_imp_power_dvd [of n 64 "2 :: int"]] assms(1) by (simp only: mod_add_left_eq)
    moreover have "uint (take_bit n x) = uint x mod 2 ^ n" for x :: u64
      by (subst unsigned_take_bit_eq) (rule take_bit_eq_mod)
    ultimately show "uint (((b AND mask n) + i) AND mask n) = uint (take_bit n (b + i))"
      by (simp add: take_bit_eq_mask [symmetric] uint_word_ariths)
  qed
  show "take_bit 48 u = u" unfolding u low using assms(1,2)
    by (intro bit_word_eqI) (auto simp: bit_simps)
  have "drop_bit n u = drop_bit n b" unfolding u low
    by (intro bit_word_eqI) (auto simp: bit_simps dest: bit_imp_le_length)
  then have "unat (drop_bit n u) = unat (drop_bit n b)" by simp
  moreover have "unat (drop_bit n x) = unat x div 2 ^ n" for x :: u64
    by (subst unsigned_drop_bit_eq) (simp add: drop_bit_eq_div take_bit_nat_eq_self unsigned_less [where ?'b = 64, simplified])
  ultimately show "unat u div 2 ^ n = unat b div 2 ^ n" by simp
  have "take_bit n u = take_bit n (b + i)" unfolding u low by (intro bit_word_eqI) (auto simp: bit_simps)
  then have "unat u mod 2 ^ n = unat (b + i) mod 2 ^ n"
    by (metis take_bit_eq_mod unsigned_take_bit_eq)
  also have "\<dots> = (unat b + unat i) mod 2 ^ n"
    using mod_mod_cancel [OF le_imp_power_dvd [of n 64 "2 :: nat"]] assms(1) by (simp add: unat_word_ariths)
  finally show "unat u mod 2 ^ n = (unat b + unat i) mod 2 ^ n" .
qed

lemma mac_bits_48: "length bssid = 6 \<Longrightarrow> bit (skw_mac_to_u64 bssid) k \<Longrightarrow> k < 48"
  using mac_bits [of bssid k] by (simp add: skw_mac_to_u64_def)

section \<open>Entries\<close>

lemma mbssid_subs_mem: "e \<in> set (mbssid_subs f inform ss) \<Longrightarrow> \<exists>s. f s = Some e"
  by (induction ss) (auto split: option.splits if_splits)

lemma mbssid_sub_entry:
  assumes "mbssid_sub mask_of ok beyond beyond_sub bssid ie m s = Some e"
  shows "1 \<le> mb_index e \<and> mb_index e \<le> 46 \<and> length (mb_bssid e) = 6 \<and> mb_ie e \<noteq> [] \<and> length (mb_ie e) \<le> length ie + 255"
proof -
  have len: "length (take (unat (of_nat k :: u8)) xs) \<le> 255" for k and xs :: "u8 list"
  proof -
    have "unat (of_nat k :: u8) < 2 ^ LENGTH(8)" by (rule unsigned_less)
    then show ?thesis by simp
  qed
  have "length (skw_gen_new_ie c beyond beyond_sub ie (take (unat (of_nat k :: u8)) xs)) \<le> length ie + 255" for c k xs
    using gen_new_ie_bytes [of c beyond beyond_sub ie "take (unat (of_nat k :: u8)) xs"] len [of k xs] by linarith
  moreover have "1 \<le> x" if "x \<noteq> 0" for x :: u8 using that by (simp add: word_le_nat_alt Suc_le_eq unat_gt_0)
  ultimately show ?thesis using assms
    by (auto simp: mbssid_sub_def Let_def skw_gen_new_bssid_def skw_u64_to_mac_def not_less split: if_splits option.splits)
qed

section \<open>Properties\<close>

text \<open>
  The elements derived for a nontransmitted BSSID take no more bytes than the beacon's
  elements and the profile together: no element of the profile is copied twice, and every
  element of the beacon is copied once or replaced.
\<close>

theorem new_ie_bounded: "length (skw_gen_new_ie ok beyond beyond_sub ie sub) \<le> length ie + length sub"
  by (rule gen_new_ie_bytes)

text \<open>
  The address derived for a nontransmitted BSSID agrees with the transmitted one above the
  \<open>max_bssid\<close> lowest bits, and in those it is the transmitted one plus the index, modulo their
  range.
\<close>

theorem new_bssid_address:
  assumes "length bssid = 6" "1 \<le> unat max_bssid" "unat max_bssid \<le> 48"
  shows "let nb = skw_gen_new_bssid mask_of bssid max_bssid idx; B = unat (skw_mac_to_u64 bssid); N = unat (skw_mac_to_u64 nb); m = 2 ^ unat max_bssid in
     length nb = 6 \<and> N div m = B div m \<and> N mod m = (B + unat idx) mod m"
proof -
  let ?b = "skw_mac_to_u64 bssid" and ?n = "unat max_bssid"
  define u where "u = (?b AND NOT (mask ?n)) OR (((?b AND mask ?n) + ucast idx) AND mask ?n)"
  note num = new_bssid_number [OF assms(3) mac_bits_48 [OF assms(1)] u_def]
  have "max_bssid \<noteq> 0" using assms(2) by auto
  moreover have "\<not> 64 < max_bssid" using assms(3) by (simp add: word_less_nat_alt)
  ultimately have "skw_gen_new_bssid mask_of bssid max_bssid idx = skw_u64_to_mac u (replicate 6 0)"
    using assms by (simp add: skw_gen_new_bssid_def Let_def bssid_mask_eq u_def)
  moreover have "unat (ucast idx :: u64) = unat idx"
  proof -
    have "unat idx < 2 ^ LENGTH(8)" by (rule unsigned_less)
    then show ?thesis by (simp add: unsigned_ucast_eq take_bit_nat_eq_self)
  qed
  moreover have "length (skw_u64_to_mac u (replicate 6 0)) = 6" by (simp add: skw_u64_to_mac_def)
  ultimately show ?thesis using num by (simp add: mac_to_u64_inverse Let_def)
qed

theorem new_bssid_address_witness:
  "let nb = skw_gen_new_bssid (\<lambda>_. 0) [2, 0, 0, 0, 0, 7] 3 2 in
     unat (skw_mac_to_u64 nb) mod 8 = (unat (skw_mac_to_u64 [2, 0, 0, 0, 0, 7]) + 2) mod 8"
  using new_bssid_address [of "[2, 0, 0, 0, 0, 7]" 3 "\<lambda>_. 0" 2] by (auto simp: Let_def)

text \<open>
  C40. Every entry that the parser reports for a beacon has an index between 1 and 46, a six-byte
  address and a non-empty list of elements at most 255 bytes longer than the beacon's.
\<close>

theorem mbssid_entries_well_formed:
  assumes "e \<in> set (skw_parse_mbssid_data mask_of ok beyond beyond_sub inform bssid ie)"
  shows "1 \<le> mb_index e \<and> mb_index e \<le> 46 \<and> length (mb_bssid e) = 6 \<and> mb_ie e \<noteq> [] \<and> length (mb_ie e) \<le> length ie + 255"
  using assms
  by (auto simp: skw_parse_mbssid_data_def split: if_splits dest!: mbssid_subs_mem mbssid_sub_entry)

text \<open>A beacon with its own name, one nontransmitted BSSID with index 1 and a name of its own.\<close>

definition ex_beacon :: "u8 list" where
  "ex_beacon = [0, 1, 90, 71, 13, 1, 0, 10, 83, 2, 1, 0, 0, 1, 65, 85, 1, 1]"

theorem mbssid_entries_well_formed_witness:
  "skw_parse_mbssid_data (\<lambda>_. 0) (\<lambda>_. True) (\<lambda>_. 0) (\<lambda>_. 0) (\<lambda>_. True) [2, 0, 0, 0, 0, 6] ex_beacon =
     [\<lparr>mb_bssid = [2, 0, 0, 0, 0, 7], mb_capability = 1, mb_ie = [0, 1, 65, 85, 1, 1], mb_index = 1, mb_max = 1\<rparr>] \<and>
   length [0, 1, 65, 85, 1, 1 :: u8] \<le> length ex_beacon + 255"
proof -
  let ?e = "\<lparr>mb_bssid = [2, 0, 0, 0, 0, 7], mb_capability = 1, mb_ie = [0, 1, 65, 85, 1, 1], mb_index = 1, mb_max = 1\<rparr>"
  have p: "skw_parse_mbssid_data (\<lambda>_. 0) (\<lambda>_. True) (\<lambda>_. 0) (\<lambda>_. 0) (\<lambda>_. True) [2, 0, 0, 0, 0, 6] ex_beacon = [?e]"
    by code_simp
  then have "?e \<in> set (skw_parse_mbssid_data (\<lambda>_. 0) (\<lambda>_. True) (\<lambda>_. 0) (\<lambda>_. 0) (\<lambda>_. True) [2, 0, 0, 0, 0, 6] ex_beacon)"
    by simp
  from mbssid_entries_well_formed [OF this] p show ?thesis by simp
qed

end
