(* ===== verification/Skw_Dfs.thy ===== *)
theory Skw_Dfs
  imports Skw_Util
begin

text \<open>
  Radar detection, \<^verbatim>\<open>skw_dfs.c\<close>: pulses reported by the firmware are matched against the radar
  types of the regulatory region. Timestamps, counts and rule constants are natural numbers with
  the reductions to 32 and 64 bits written out. The pools of recycled list nodes are kept as
  their sizes, since the nodes are anonymous. Each region's radar types with their detectors are
  the global tables of the source; \<open>alloc\<close> tells whether an allocation succeeds, \<open>send\<close> is the
  answer to a message to the firmware.
\<close>

section \<open>Radar types\<close>

definition SKW_PRI_TOLERANCE :: nat where "SKW_PRI_TOLERANCE = 16"

record skw_radar_rule =
  type_id :: nat
  width_min :: nat
  width_max :: nat
  pri_min :: nat
  pri_max :: nat
  nr_pri :: nat
  ppb :: nat
  ppb_thresh :: nat
  max_pri_tolerance :: nat
  chirp :: bool

definition SKW_PPB_THRESH_RATE :: "nat \<Rightarrow> nat \<Rightarrow> nat" where
  "SKW_PPB_THRESH_RATE p rate = (p * rate + 100 - rate) div 100"

definition SKW_PRF2PRI :: "nat \<Rightarrow> nat" where
  "SKW_PRF2PRI prf = (1000000 + prf div 2) div prf"

definition SKW_WIDTH_LOWER :: "nat \<Rightarrow> nat" where
  "SKW_WIDTH_LOWER w = (w * 95 + 50) div 100"

definition SKW_WIDTH_UPPER :: "nat \<Rightarrow> nat" where
  "SKW_WIDTH_UPPER w = (w * 105 + 50) div 100"

text \<open>The fields are bytes, except for the two intervals, which have 16 bits.\<close>

definition SKW_JP_PATTERN ::
  "nat \<Rightarrow> nat \<Rightarrow> nat \<Rightarrow> nat \<Rightarrow> nat \<Rightarrow> nat \<Rightarrow> nat \<Rightarrow> nat \<Rightarrow> bool \<Rightarrow> skw_radar_rule" where
  "SKW_JP_PATTERN ident wmin wmax pmin pmax prf p rate ch =
     \<lparr>type_id = ident mod 256, width_min = SKW_WIDTH_LOWER wmin mod 256, width_max = SKW_WIDTH_UPPER wmax mod 256,
      pri_min = (pmin - SKW_PRI_TOLERANCE) mod 65536, pri_max = (pmax * prf + SKW_PRI_TOLERANCE) mod 65536,
      nr_pri = prf mod 256, ppb = p * prf mod 256, ppb_thresh = SKW_PPB_THRESH_RATE p rate mod 256,
      max_pri_tolerance = SKW_PRI_TOLERANCE, chirp = ch\<rparr>"

definition SKW_FCC_PATTERN ::
  "nat \<Rightarrow> nat \<Rightarrow> nat \<Rightarrow> nat \<Rightarrow> nat \<Rightarrow> nat \<Rightarrow> nat \<Rightarrow> bool \<Rightarrow> skw_radar_rule" where
  "SKW_FCC_PATTERN ident wmin wmax pmin pmax prf p ch = SKW_JP_PATTERN ident wmin wmax pmin pmax prf p 50 ch"

definition SKW_ETSI_PATTERN ::
  "nat \<Rightarrow> nat \<Rightarrow> nat \<Rightarrow> nat \<Rightarrow> nat \<Rightarrow> nat \<Rightarrow> nat \<Rightarrow> bool \<Rightarrow> skw_radar_rule" where
  "SKW_ETSI_PATTERN ident wmin wmax pmin pmax prf p ch =
     SKW_JP_PATTERN ident wmin wmax (SKW_PRF2PRI pmax) (SKW_PRF2PRI pmin) prf p 50 ch"

definition skw_radar_etsi_cfgs :: "skw_radar_rule list" where
  "skw_radar_etsi_cfgs =
     [SKW_ETSI_PATTERN 0 0 1 700 700 1 18 False, SKW_ETSI_PATTERN 1 0 5 200 1000 1 10 False,
      SKW_ETSI_PATTERN 2 0 15 200 1600 1 15 False, SKW_ETSI_PATTERN 3 0 15 2300 4000 1 25 False,
      SKW_ETSI_PATTERN 4 20 30 2000 4000 1 20 False, SKW_ETSI_PATTERN 5 0 2 300 400 3 10 False,
      SKW_ETSI_PATTERN 6 0 2 400 1200 3 15 False]"

definition skw_radar_fcc_cfgs :: "skw_radar_rule list" where
  "skw_radar_fcc_cfgs =
     [SKW_FCC_PATTERN 0 0 1 1428 1428 1 18 False, SKW_FCC_PATTERN 101 0 1 518 938 1 57 False,
      SKW_FCC_PATTERN 102 0 1 938 2000 1 27 False, SKW_FCC_PATTERN 103 0 1 2000 3066 1 18 False,
      SKW_FCC_PATTERN 2 0 5 150 230 1 23 False, SKW_FCC_PATTERN 3 6 10 200 500 1 16 False,
      SKW_FCC_PATTERN 4 11 20 200 500 1 12 False, SKW_FCC_PATTERN 5 50 100 1000 2000 1 1 True,
      SKW_FCC_PATTERN 6 0 1 333 333 1 9 False]"

definition skw_radar_jp_cfgs :: "skw_radar_rule list" where
  "skw_radar_jp_cfgs =
     [SKW_JP_PATTERN 0 0 1 1428 1428 1 18 29 False, SKW_JP_PATTERN 1 2 3 3846 3846 1 18 29 False,
      SKW_JP_PATTERN 2 0 1 1388 1388 1 18 50 False, SKW_JP_PATTERN 3 0 4 4000 4000 1 18 50 False,
      SKW_JP_PATTERN 4 0 5 150 230 1 23 50 False, SKW_JP_PATTERN 5 6 10 200 500 1 16 50 False,
      SKW_JP_PATTERN 6 11 20 200 500 1 12 50 False, SKW_JP_PATTERN 7 50 100 1000 2000 1 3 50 True,
      SKW_JP_PATTERN 5 0 1 333 333 1 9 50 False]"

text \<open>The regions by number: unset, FCC, ETSI, Japan.\<close>

definition skw_radar_infos :: "skw_radar_rule list list" where
  "skw_radar_infos = [[], skw_radar_fcc_cfgs, skw_radar_etsi_cfgs, skw_radar_jp_cfgs]"

section \<open>State\<close>

record skw_pulse_info =
  pl_ts :: nat
  pl_width :: nat
  pl_rssi :: int
  pl_chirp :: bool

record skw_pri_sequence =
  ps_pri :: nat
  ps_dur :: nat
  ps_count :: nat
  ps_count_falses :: nat
  ps_first_ts :: nat
  ps_last_ts :: nat
  ps_deadline_ts :: nat

text \<open>The pulses of a detector are their timestamps, the newest first.\<close>

record skw_pri_detector =
  pd_last_ts :: nat
  pd_window_size :: nat
  pd_count :: nat
  pd_max_count :: nat
  pd_sequences :: "skw_pri_sequence list"
  pd_pulses :: "nat list"

record skw_radar_cfg =
  rc_rule :: skw_radar_rule
  rc_pri :: skw_pri_detector

record dfs_chandef =
  cd_chan :: nat
  cd_width :: nat
  cd_freq1 :: int
  cd_freq2 :: int

record dfs_iface =
  sd_flags :: u64
  sd_cac_time :: nat
  sd_cac_work :: bool
  sd_cac_started :: bool

datatype dfs_out =
  DfsStartCac nat nat int int nat nat nat | DfsStopCac nat | DfsStartMonitor nat | DfsStopMonitor nat |
  RadarEvent | CacAborted nat | CacFinished nat

record skw_dfs =
  dfs_fw_enabled :: bool
  dfs_last_pulse_ts :: nat
  dfs_flags :: u64
  dfs_pulse_pool :: nat
  dfs_pseq_pool :: nat
  dfs_region :: nat
  dfs_chan :: dfs_chandef
  dfs_info :: "nat option"
  dfs_cfgs :: "skw_radar_cfg list list"
  dfs_ifaces :: "dfs_iface list"
  dfs_outs :: "dfs_out list"

definition SKW_DFS_FLAG_CAC_MODE :: nat where "SKW_DFS_FLAG_CAC_MODE = 1"
definition SKW_DFS_FLAG_MONITOR_MODE :: nat where "SKW_DFS_FLAG_MONITOR_MODE = 2"

definition sub64 :: "nat \<Rightarrow> nat \<Rightarrow> nat" where
  "sub64 a b = (if b \<le> a then a - b else 2 ^ 64 + a - b)"

section \<open>Queues of pulses\<close>

text \<open>A detector together with the two pools.\<close>

record dfs_ctx =
  cx_pde :: skw_pri_detector
  cx_pulse_pool :: nat
  cx_pseq_pool :: nat

definition pulse_queue_dequeue :: "dfs_ctx \<Rightarrow> dfs_ctx" where
  "pulse_queue_dequeue c =
     (let d = cx_pde c in
      if pd_pulses d = [] then c
      else c\<lparr>cx_pde := d\<lparr>pd_pulses := butlast (pd_pulses d), pd_count := pd_count d - 1\<rparr>,
             cx_pulse_pool := cx_pulse_pool c + 1\<rparr>)"

function check_window_loop :: "nat \<Rightarrow> dfs_ctx \<Rightarrow> dfs_ctx" where
  "check_window_loop min_valid_ts c =
     (if pd_pulses (cx_pde c) = [] then c
      else if min_valid_ts \<le> last (pd_pulses (cx_pde c)) then c
      else check_window_loop min_valid_ts (pulse_queue_dequeue c))"
  by pat_completeness auto
termination
  by (relation "measure (\<lambda>(m, c). length (pd_pulses (cx_pde c)))") (auto simp: pulse_queue_dequeue_def Let_def)

declare check_window_loop.simps [simp del]

definition pulse_queue_check_window :: "dfs_ctx \<Rightarrow> dfs_ctx" where
  "pulse_queue_check_window c =
     (let d = cx_pde c in
      if pd_count d < 2 then c
      else if pd_last_ts d \<le> pd_window_size d then c
      else check_window_loop (pd_last_ts d - pd_window_size d) c)"

definition pulse_queue_enqueue :: "bool \<Rightarrow> nat \<Rightarrow> dfs_ctx \<Rightarrow> dfs_ctx" where
  "pulse_queue_enqueue alloc ts c =
     (if cx_pulse_pool c = 0 \<and> \<not> alloc then c
      else
        (let d = cx_pde c;
             c1 = c\<lparr>cx_pulse_pool := cx_pulse_pool c - 1,
                    cx_pde := d\<lparr>pd_pulses := ts # pd_pulses d, pd_count := pd_count d + 1, pd_last_ts := ts\<rparr>\<rparr>;
             c2 = pulse_queue_check_window c1 in
         if pd_max_count (cx_pde c2) \<le> pd_count (cx_pde c2) then pulse_queue_dequeue c2 else c2))"

section \<open>Sequences\<close>

definition pde_get_multiple :: "nat \<Rightarrow> nat \<Rightarrow> nat \<Rightarrow> nat" where
  "pde_get_multiple val fraction tolerance =
     (if fraction = 0 then 0
      else
        (let delta = (if val < fraction then fraction - val else val - fraction) in
         if delta \<le> tolerance then 1
         else if tolerance < val mod fraction
         then (if fraction - val mod fraction \<le> tolerance then val div fraction + 1 else 0)
         else val div fraction))"

text \<open>The new pulse and one sequence: \<open>None\<close> when the sequence has expired, otherwise with whether it was extended.\<close>

definition seq_step :: "skw_radar_rule \<Rightarrow> nat \<Rightarrow> skw_pri_sequence \<Rightarrow> (skw_pri_sequence \<times> bool) option" where
  "seq_step rule ts ps =
     (if ps_deadline_ts ps < ts then None
      else if 0 < pde_get_multiple (sub64 ts (ps_last_ts ps) mod 2 ^ 32) (ps_pri ps) (max_pri_tolerance rule)
      then Some (ps\<lparr>ps_last_ts := ts, ps_count := ps_count ps + 1\<rparr>, True)
      else Some (ps\<lparr>ps_count_falses := ps_count_falses ps + 1\<rparr>, False))"

text \<open>The sequences kept, the number given back to the pool, and the largest count of those extended.\<close>

fun add_to_seqs :: "skw_radar_rule \<Rightarrow> nat \<Rightarrow> skw_pri_sequence list \<Rightarrow> skw_pri_sequence list \<times> nat \<times> nat" where
  "add_to_seqs rule ts [] = ([], 0, 0)"
| "add_to_seqs rule ts (ps # pss) =
     (case add_to_seqs rule ts pss of (rest, freed, m) \<Rightarrow>
       (case seq_step rule ts ps of
          None \<Rightarrow> (rest, freed + 1, m)
        | Some (ps1, ext) \<Rightarrow> (ps1 # rest, freed, if ext then max (ps_count ps1) m else m)))"

definition pseq_handler_add_to_existing_seqs :: "skw_radar_rule \<Rightarrow> nat \<Rightarrow> dfs_ctx \<Rightarrow> nat \<times> dfs_ctx" where
  "pseq_handler_add_to_existing_seqs rule ts c =
     (case add_to_seqs rule ts (pd_sequences (cx_pde c)) of (seqs, freed, m) \<Rightarrow>
        (m, c\<lparr>cx_pde := (cx_pde c)\<lparr>pd_sequences := seqs\<rparr>, cx_pseq_pool := cx_pseq_pool c + freed\<rparr>))"

text \<open>The inner loop over older pulses: \<open>fls\<close> are the false pulses since the last match.\<close>

fun seq_candidates :: "skw_radar_rule \<Rightarrow> nat \<Rightarrow> nat list \<Rightarrow> nat \<Rightarrow> skw_pri_sequence \<Rightarrow> skw_pri_sequence" where
  "seq_candidates rule min_valid_ts [] fls ps = ps"
| "seq_candidates rule min_valid_ts (t # ts) fls ps =
     (if t < min_valid_ts then ps
      else if 0 < pde_get_multiple (sub64 (ps_last_ts ps) t mod 2 ^ 32) (ps_pri ps) (max_pri_tolerance rule)
      then seq_candidates rule min_valid_ts ts 0
             (ps\<lparr>ps_count := ps_count ps + 1, ps_first_ts := t, ps_count_falses := ps_count_falses ps + fls\<rparr>)
      else seq_candidates rule min_valid_ts ts (fls + 1) ps)"

definition new_seq :: "skw_radar_rule \<Rightarrow> nat \<Rightarrow> nat \<Rightarrow> nat list \<Rightarrow> skw_pri_sequence" where
  "new_seq rule ts p older =
     (let pri = (if pri_min rule + SKW_PRI_TOLERANCE = pri_max rule - SKW_PRI_TOLERANCE
                 then pri_min rule + SKW_PRI_TOLERANCE else sub64 ts p mod 2 ^ 32);
          dur = (pri * (ppb rule - 1) + 2 * max_pri_tolerance rule) mod 2 ^ 32;
          ps = seq_candidates rule (sub64 ts dur) older 0
                 \<lparr>ps_pri = pri, ps_dur = dur, ps_count = 2, ps_count_falses = 0, ps_first_ts = p,
                  ps_last_ts = ts, ps_deadline_ts = 0\<rparr> in
      ps\<lparr>ps_deadline_ts := (ps_first_ts ps + dur) mod 2 ^ 64\<rparr>)"

text \<open>
  The outer loop over the pulses. \<open>alloc\<close> is asked with the number of sequences there are.
  The result says whether all allocations succeeded.
\<close>

fun create_loop ::
  "(nat \<Rightarrow> bool) \<Rightarrow> skw_radar_rule \<Rightarrow> nat \<Rightarrow> nat \<Rightarrow> nat list \<Rightarrow> skw_pri_sequence list \<times> nat \<Rightarrow>
   bool \<times> skw_pri_sequence list \<times> nat" where
  "create_loop alloc rule ts min_count [] s = (True, s)"
| "create_loop alloc rule ts min_count (p # older) s =
     (let delta = sub64 ts p mod 2 ^ 32 in
      if delta < pri_min rule then create_loop alloc rule ts min_count older s
      else if pri_max rule < delta then (True, s)
      else
        (let ps = new_seq rule ts p older in
         if ps_count ps \<le> min_count then create_loop alloc rule ts min_count older s
         else if snd s = 0 \<and> \<not> alloc (length (fst s)) then (False, s)
         else create_loop alloc rule ts min_count older (ps # fst s, snd s - 1)))"

definition pseq_handler_create_sequences ::
  "(nat \<Rightarrow> bool) \<Rightarrow> skw_radar_rule \<Rightarrow> nat \<Rightarrow> nat \<Rightarrow> dfs_ctx \<Rightarrow> bool \<times> dfs_ctx" where
  "pseq_handler_create_sequences alloc rule ts min_count c =
     (case create_loop alloc rule ts min_count (pd_pulses (cx_pde c)) (pd_sequences (cx_pde c), cx_pseq_pool c) of
        (ok, seqs, pool) \<Rightarrow> (ok, c\<lparr>cx_pde := (cx_pde c)\<lparr>pd_sequences := seqs\<rparr>, cx_pseq_pool := pool\<rparr>))"

definition pri_detector_reset :: "nat \<Rightarrow> dfs_ctx \<Rightarrow> dfs_ctx" where
  "pri_detector_reset ts c =
     (let d = cx_pde c in
      c\<lparr>cx_pde := d\<lparr>pd_sequences := [], pd_pulses := [], pd_count := 0, pd_last_ts := ts\<rparr>,
        cx_pseq_pool := cx_pseq_pool c + length (pd_sequences d),
        cx_pulse_pool := cx_pulse_pool c + length (pd_pulses d)\<rparr>)"

definition pseq_handler_check_detection :: "skw_radar_rule \<Rightarrow> skw_pri_detector \<Rightarrow> skw_pri_sequence option" where
  "pseq_handler_check_detection rule d =
     List.find (\<lambda>ps. ppb_thresh rule \<le> ps_count ps \<and> ps_count_falses ps \<le> ps_count ps * nr_pri rule) (pd_sequences d)"

section \<open>Pulses\<close>

text \<open>One radar type and a pulse: the detector afterwards, and whether radar was detected.\<close>

definition rule_match :: "skw_radar_rule \<Rightarrow> skw_pulse_info \<Rightarrow> bool" where
  "rule_match rule pulse \<longleftrightarrow> width_min rule \<le> pl_width pulse \<and> pl_width pulse \<le> width_max rule \<and>
     (chirp rule \<longrightarrow> pl_chirp pulse)"

definition add_pulse_cfg ::
  "(nat \<Rightarrow> bool) \<Rightarrow> bool \<Rightarrow> skw_radar_rule \<Rightarrow> skw_pulse_info \<Rightarrow> dfs_ctx \<Rightarrow> bool \<times> dfs_ctx" where
  "add_pulse_cfg alloc reset rule pulse c =
     (let ts = pl_ts pulse in
      if reset then (False, pri_detector_reset ts c)
      else if \<not> rule_match rule pulse then (False, c)
      else if sub64 ts (pd_last_ts (cx_pde c)) < max_pri_tolerance rule then (False, c)
      else
        (let (m, c1) = pseq_handler_add_to_existing_seqs rule ts c;
             (ok, c2) = pseq_handler_create_sequences alloc rule ts m c1 in
         if \<not> ok then (False, pri_detector_reset ts c2)
         else if pseq_handler_check_detection rule (cx_pde c2) \<noteq> None then (True, c2)
         else (False, pulse_queue_enqueue (alloc (length (pd_sequences (cx_pde c2)))) ts c2)))"

text \<open>The loop over the radar types of the region; it ends at the first that detects radar.\<close>

fun add_pulse_loop ::
  "(nat \<Rightarrow> bool) \<Rightarrow> bool \<Rightarrow> skw_pulse_info \<Rightarrow> skw_radar_cfg list \<Rightarrow> nat \<times> nat \<Rightarrow> bool \<times> skw_radar_cfg list \<times> nat \<times> nat" where
  "add_pulse_loop alloc reset pulse [] pools = (False, [], pools)"
| "add_pulse_loop alloc reset pulse (cfg # cfgs) pools =
     (let (hit, c) = add_pulse_cfg alloc reset (rc_rule cfg) pulse
                       \<lparr>cx_pde = rc_pri cfg, cx_pulse_pool = fst pools, cx_pseq_pool = snd pools\<rparr>;
          cfg1 = cfg\<lparr>rc_pri := cx_pde c\<rparr>; pools1 = (cx_pulse_pool c, cx_pseq_pool c) in
      if hit then (True, cfg1 # cfgs, pools1)
      else case add_pulse_loop alloc reset pulse cfgs pools1 of
             (r, cfgs1, pools2) \<Rightarrow> (r, cfg1 # cfgs1, pools2))"

section \<open>Channel availability check and monitoring\<close>

definition upd_iface :: "nat \<Rightarrow> (dfs_iface \<Rightarrow> dfs_iface) \<Rightarrow> skw_dfs \<Rightarrow> skw_dfs" where
  "upd_iface i f s = s\<lparr>dfs_ifaces := (dfs_ifaces s)[i := f (dfs_ifaces s ! i)]\<rparr>"

definition dfs_emit :: "dfs_out \<Rightarrow> skw_dfs \<Rightarrow> skw_dfs" where
  "dfs_emit o1 s = s\<lparr>dfs_outs := dfs_outs s @ [o1]\<rparr>"

definition set_mode :: "nat \<Rightarrow> nat \<Rightarrow> skw_dfs \<Rightarrow> skw_dfs" where
  "set_mode i nr s =
     upd_iface i (\<lambda>f. f\<lparr>sd_flags := set_bit nr (sd_flags f)\<rparr>) (s\<lparr>dfs_flags := set_bit nr (dfs_flags s)\<rparr>)"

definition clear_mode :: "nat \<Rightarrow> nat \<Rightarrow> skw_dfs \<Rightarrow> skw_dfs" where
  "clear_mode i nr s =
     upd_iface i (\<lambda>f. f\<lparr>sd_flags := unset_bit nr (sd_flags f)\<rparr>) (s\<lparr>dfs_flags := unset_bit nr (dfs_flags s)\<rparr>)"

definition skw_dfs_start_cac :: "(dfs_out \<Rightarrow> int) \<Rightarrow> (nat \<Rightarrow> nat) \<Rightarrow> nat \<Rightarrow> skw_dfs \<Rightarrow> int \<times> skw_dfs" where
  "skw_dfs_start_cac send to_bw i s =
     (if \<not> dfs_fw_enabled s then (- ENOTSUPP, s)
      else
        (let ch = dfs_chan s;
             m = DfsStartCac i (cd_chan ch mod 256) (skw_freq_to_chn (cd_freq1 ch)) (skw_freq_to_chn (cd_freq2 ch))
                   (to_bw (cd_width ch)) (dfs_region s) (sd_cac_time (dfs_ifaces s ! i));
             ret = send m; s1 = dfs_emit m s in
         (ret, if ret = 0 then set_mode i SKW_DFS_FLAG_CAC_MODE s1 else s1)))"

definition skw_dfs_stop_cac :: "(dfs_out \<Rightarrow> int) \<Rightarrow> nat \<Rightarrow> skw_dfs \<Rightarrow> int \<times> skw_dfs" where
  "skw_dfs_stop_cac send i s =
     (if \<not> dfs_fw_enabled s then (- ENOTSUPP, s)
      else (send (DfsStopCac i), dfs_emit (DfsStopCac i) (clear_mode i SKW_DFS_FLAG_CAC_MODE s)))"

definition skw_dfs_start_monitor :: "(dfs_out \<Rightarrow> int) \<Rightarrow> nat \<Rightarrow> skw_dfs \<Rightarrow> int \<times> skw_dfs" where
  "skw_dfs_start_monitor send i s =
     (if \<not> dfs_fw_enabled s then (- ENOTSUPP, s)
      else
        (let ret = send (DfsStartMonitor i); s1 = dfs_emit (DfsStartMonitor i) s in
         (ret, if ret = 0 then set_mode i SKW_DFS_FLAG_MONITOR_MODE s1 else s1)))"

definition skw_dfs_stop_monitor :: "(dfs_out \<Rightarrow> int) \<Rightarrow> nat \<Rightarrow> skw_dfs \<Rightarrow> int \<times> skw_dfs" where
  "skw_dfs_stop_monitor send i s =
     (if \<not> dfs_fw_enabled s then (- ENOTSUPP, s)
      else (send (DfsStopMonitor i), dfs_emit (DfsStopMonitor i) (clear_mode i SKW_DFS_FLAG_MONITOR_MODE s)))"

text \<open>Every detector of every region is reset with timestamp 0.\<close>

fun reset_cfgs :: "skw_radar_cfg list \<Rightarrow> nat \<times> nat \<Rightarrow> skw_radar_cfg list \<times> nat \<times> nat" where
  "reset_cfgs [] pools = ([], pools)"
| "reset_cfgs (cfg # cfgs) pools =
     (let c = pri_detector_reset 0 \<lparr>cx_pde = rc_pri cfg, cx_pulse_pool = fst pools, cx_pseq_pool = snd pools\<rparr> in
      case reset_cfgs cfgs (cx_pulse_pool c, cx_pseq_pool c) of
        (cfgs1, pools1) \<Rightarrow> (cfg\<lparr>rc_pri := cx_pde c\<rparr> # cfgs1, pools1))"

fun reset_infos :: "skw_radar_cfg list list \<Rightarrow> nat \<times> nat \<Rightarrow> skw_radar_cfg list list \<times> nat \<times> nat" where
  "reset_infos [] pools = ([], pools)"
| "reset_infos (i # is) pools =
     (case reset_cfgs i pools of (i1, pools1) \<Rightarrow>
       (case reset_infos is pools1 of (is1, pools2) \<Rightarrow> (i1 # is1, pools2)))"

definition skw_dfs_deinit :: "(dfs_out \<Rightarrow> int) \<Rightarrow> nat \<Rightarrow> skw_dfs \<Rightarrow> skw_dfs" where
  "skw_dfs_deinit send i s =
     (let s1 = (if bit (sd_flags (dfs_ifaces s ! i)) SKW_DFS_FLAG_CAC_MODE
                then dfs_emit (CacAborted i)
                       (snd (skw_dfs_stop_cac send i (upd_iface i (\<lambda>f. f\<lparr>sd_cac_work := False\<rparr>) s)))
                else s);
          s2 = (if bit (sd_flags (dfs_ifaces s1 ! i)) SKW_DFS_FLAG_MONITOR_MODE
                then snd (skw_dfs_stop_monitor send i s1) else s1) in
      case reset_infos (dfs_cfgs s2) (dfs_pulse_pool s2, dfs_pseq_pool s2) of
        (cfgs, p, q) \<Rightarrow> s2\<lparr>dfs_cfgs := cfgs, dfs_pulse_pool := p, dfs_pseq_pool := q\<rparr>)"

definition skw_dfs_add_pulse :: "(dfs_out \<Rightarrow> int) \<Rightarrow> (nat \<Rightarrow> bool) \<Rightarrow> nat \<Rightarrow> skw_pulse_info \<Rightarrow> skw_dfs \<Rightarrow> skw_dfs" where
  "skw_dfs_add_pulse send alloc i pulse s =
     (if sd_flags (dfs_ifaces s ! i) = 0 then s
      else
        (let reset = (pl_ts pulse < dfs_last_pulse_ts s); k = the (dfs_info s) in
         case add_pulse_loop alloc reset pulse (dfs_cfgs s ! k) (dfs_pulse_pool s, dfs_pseq_pool s) of
           (hit, cfgs, p, q) \<Rightarrow>
             (let s1 = s\<lparr>dfs_last_pulse_ts := pl_ts pulse, dfs_cfgs := (dfs_cfgs s)[k := cfgs],
                         dfs_pulse_pool := p, dfs_pseq_pool := q\<rparr> in
              if hit then dfs_emit RadarEvent (skw_dfs_deinit send i s1) else s1)))"

text \<open>The work that ends the channel availability check in time.\<close>

definition skw_dfs_cac_work :: "(dfs_out \<Rightarrow> int) \<Rightarrow> nat \<Rightarrow> skw_dfs \<Rightarrow> skw_dfs" where
  "skw_dfs_cac_work send i s =
     (let s0 = upd_iface i (\<lambda>f. f\<lparr>sd_cac_work := False\<rparr>) s in
      if sd_cac_started (dfs_ifaces s ! i)
      then dfs_emit (CacFinished i) (snd (skw_dfs_stop_cac send i s0)) else s0)"

text \<open>The lists of the region are emptied; count and time of the last pulse stay.\<close>

definition chan_init_cfg :: "skw_radar_cfg \<Rightarrow> skw_radar_cfg" where
  "chan_init_cfg cfg =
     (let r = rc_rule cfg in
      cfg\<lparr>rc_pri := (rc_pri cfg)\<lparr>pd_sequences := [], pd_pulses := [],
          pd_window_size := pri_max r * ppb r * nr_pri r mod 2 ^ 32, pd_max_count := ppb r * 2\<rparr>\<rparr>)"

definition skw_dfs_chan_init :: "nat \<Rightarrow> dfs_chandef \<Rightarrow> nat \<Rightarrow> skw_dfs \<Rightarrow> int \<times> skw_dfs" where
  "skw_dfs_chan_init i ch cac_time s =
     (if \<not> dfs_fw_enabled s then (- ENOTSUPP, s)
      else if dfs_flags s \<noteq> 0 \<and> (cd_width (dfs_chan s) \<noteq> cd_width ch \<or> cd_chan (dfs_chan s) \<noteq> cd_chan ch)
      then (- EBUSY, s)
      else if length skw_radar_infos \<le> dfs_region s then (- EINVAL, s)
      else if dfs_cfgs s ! dfs_region s = [] then (- EINVAL, s\<lparr>dfs_info := Some (dfs_region s)\<rparr>)
      else
        (0, upd_iface i (\<lambda>f. f\<lparr>sd_cac_time := cac_time\<rparr>)
              (s\<lparr>dfs_info := Some (dfs_region s), dfs_last_pulse_ts := 0, dfs_chan := ch,
                 dfs_cfgs := (dfs_cfgs s)[dfs_region s := map chan_init_cfg (dfs_cfgs s ! dfs_region s)]\<rparr>)))"

text \<open>The set-up of an access point interface empties the lists of every region.\<close>

definition skw_dfs_init :: "nat \<Rightarrow> skw_dfs \<Rightarrow> skw_dfs" where
  "skw_dfs_init i s =
     upd_iface i (\<lambda>f. f\<lparr>sd_flags := 0, sd_cac_work := False\<rparr>)
       (s\<lparr>dfs_cfgs := map (map (\<lambda>cfg. cfg\<lparr>rc_pri := (rc_pri cfg)\<lparr>pd_sequences := [], pd_pulses := []\<rparr>\<rparr>)) (dfs_cfgs s)\<rparr>)"

section \<open>The radar event of the firmware\<close>

text \<open>
  One entry of \<open>struct skw_radar_pulse\<close> is a 64-bit word; \<open>usecs\<close> is the clock in microseconds,
  an unsigned 32-bit number.
\<close>

definition pulse_of :: "u32 \<Rightarrow> u64 \<Rightarrow> skw_pulse_info" where
  "pulse_of usecs w =
     (let r = unat (take_bit 5 (drop_bit 1 w)) in
      \<lparr>pl_ts = unat ((usecs AND 0xFF000000) OR ucast (take_bit 24 (drop_bit 14 w))),
       pl_width = unat (take_bit 8 (drop_bit 6 w)) div 2,
       pl_rssi = (if r < 16 then int r - 60 else int r - 92), pl_chirp = bit w 0\<rparr>)"

definition skw_event_dfs_radar_pulse ::
  "(dfs_out \<Rightarrow> int) \<Rightarrow> (nat \<Rightarrow> bool) \<Rightarrow> nat \<Rightarrow> (u32 \<times> u64) list \<Rightarrow> skw_dfs \<Rightarrow> skw_dfs" where
  "skw_event_dfs_radar_pulse send alloc i dat s =
     (if dfs_info s = None \<or> \<not> dfs_fw_enabled s \<or> dfs_flags s = 0 then s
      else fold (\<lambda>(usecs, w) s1. if pl_width (pulse_of usecs w) = 0 then s1
                   else skw_dfs_add_pulse send alloc i (pulse_of usecs w) s1) dat s)"

end
