(* ===== verification/Skw_Dfs_Props.thy ===== *)
theory Skw_Dfs_Props
  imports Skw_Dfs "HOL-Library.Code_Target_Nat"
begin

text \<open>
  Soundness of radar detection: radar is reported only when the pulses received so far contain
  enough pulses of one radar type within one burst. The invariant relates the sequences and
  pulses a detector holds to the history of pulses.
\<close>

section \<open>Pulses of a radar type in an interval\<close>

definition hits :: "skw_radar_rule \<Rightarrow> nat \<Rightarrow> nat \<Rightarrow> skw_pulse_info list \<Rightarrow> nat" where
  "hits rule lo hi hist = length (filter (\<lambda>q. rule_match rule q \<and> lo \<le> pl_ts q \<and> pl_ts q \<le> hi) hist)"

definition burst :: "skw_radar_rule \<Rightarrow> nat" where
  "burst rule = pri_max rule * ppb rule + 2 * max_pri_tolerance rule"

text \<open>What the tables guarantee of a radar type.\<close>

definition rule_ok :: "skw_radar_rule \<Rightarrow> bool" where
  "rule_ok rule \<longleftrightarrow> 1 \<le> ppb rule \<and> ppb rule < 256 \<and> 32 \<le> pri_max rule \<and> pri_max rule < 65536 \<and>
     max_pri_tolerance rule = 16 \<and> 1 \<le> ppb_thresh rule \<and> pri_min rule < pri_max rule \<and> width_min rule \<le> width_max rule"

lemma infos_ok: "list_all (list_all rule_ok) skw_radar_infos"
  by (simp add: skw_radar_infos_def skw_radar_fcc_cfgs_def skw_radar_etsi_cfgs_def skw_radar_jp_cfgs_def
      SKW_FCC_PATTERN_def SKW_ETSI_PATTERN_def SKW_JP_PATTERN_def SKW_PRF2PRI_def SKW_PRI_TOLERANCE_def
      SKW_PPB_THRESH_RATE_def SKW_WIDTH_LOWER_def SKW_WIDTH_UPPER_def rule_ok_def)

lemma hits_mono: "lo' \<le> lo \<Longrightarrow> hi \<le> hi' \<Longrightarrow> hits rule lo hi hist \<le> hits rule lo' hi' hist"
  unfolding hits_def by (induction hist) auto

lemma hits_Cons:
  "hits rule lo hi (p # hist) =
     (if rule_match rule p \<and> lo \<le> pl_ts p \<and> pl_ts p \<le> hi then 1 else 0) + hits rule lo hi hist"
  by (simp add: hits_def)

abbreviation times :: "skw_radar_rule \<Rightarrow> skw_pulse_info list \<Rightarrow> nat multiset" where
  "times rule hist \<equiv> mset (map pl_ts (filter (rule_match rule) hist))"

lemma hits_mset: "hits rule lo hi hist = size (filter_mset (\<lambda>t. lo \<le> t \<and> t \<le> hi) (times rule hist))"
  unfolding hits_def by (induction hist) auto

lemma hits_sub:
  "mset ts \<subseteq># times rule hist \<Longrightarrow> length (filter (\<lambda>t. lo \<le> t \<and> t \<le> hi) ts) \<le> hits rule lo hi hist"
  unfolding hits_mset by (metis mset_filter multiset_filter_mono size_mset size_mset_mono)

section \<open>Sequences\<close>

definition seq_ok :: "skw_radar_rule \<Rightarrow> skw_pulse_info list \<Rightarrow> nat \<Rightarrow> skw_pri_sequence \<Rightarrow> bool" where
  "seq_ok rule hist now ps \<longleftrightarrow>
     ps_count ps \<le> hits rule (ps_first_ts ps) (ps_last_ts ps) hist \<and>
     ps_first_ts ps \<le> ps_last_ts ps \<and> ps_last_ts ps \<le> now \<and>
     ps_dur ps \<le> burst rule \<and> ps_deadline_ts ps = ps_first_ts ps + ps_dur ps"

definition seq_live :: "skw_radar_rule \<Rightarrow> nat \<Rightarrow> skw_pri_sequence \<Rightarrow> bool" where
  "seq_live rule now ps \<longleftrightarrow> now \<le> ps_first_ts ps + burst rule"

lemma seq_ok_mono: "seq_ok rule hist now ps \<Longrightarrow> now \<le> now' \<Longrightarrow> seq_ok rule (p # hist) now' ps"
  by (auto simp: seq_ok_def hits_Cons)

lemma seq_step_ok:
  assumes "seq_ok rule hist now ps" "now \<le> pl_ts p" "rule_match rule p"
    and "seq_step rule (pl_ts p) ps = Some (ps1, e)"
  shows "seq_ok rule (p # hist) (pl_ts p) ps1 \<and> seq_live rule (pl_ts p) ps1"
proof -
  have "hits rule (ps_first_ts ps) (ps_last_ts ps) hist \<le> hits rule (ps_first_ts ps) (pl_ts p) hist"
    using assms(1,2) by (intro hits_mono) (auto simp: seq_ok_def)
  with assms show ?thesis
    by (auto simp: seq_step_def seq_ok_def seq_live_def hits_Cons split: if_splits)
qed

lemma add_to_seqs_ok:
  assumes "\<forall>ps \<in> set pss. seq_ok rule hist now ps" "now \<le> pl_ts p" "rule_match rule p"
    and "add_to_seqs rule (pl_ts p) pss = (pss1, f, m)"
  shows "\<forall>ps \<in> set pss1. seq_ok rule (p # hist) (pl_ts p) ps \<and> seq_live rule (pl_ts p) ps"
  using assms
proof (induction pss arbitrary: pss1 f m)
  case (Cons ps pss)
  obtain rest f1 m1 where r: "add_to_seqs rule (pl_ts p) pss = (rest, f1, m1)" by (metis prod_cases3)
  from Cons.IH [OF _ _ _ r] Cons.prems r seq_step_ok [of rule hist now ps p] show ?case
    by (auto split: option.splits)
qed simp

lemma seq_candidates_ok:
  assumes "sorted_wrt (\<ge>) older" "\<forall>t \<in> set older. t \<le> ps_first_ts ps"
  shows "let ps1 = seq_candidates rule mv older fls ps in
    ps_first_ts ps1 \<le> ps_first_ts ps \<and> (ps_first_ts ps1 = ps_first_ts ps \<or> mv \<le> ps_first_ts ps1) \<and>
    ps_count ps1 \<le> ps_count ps + length (filter (\<lambda>t. ps_first_ts ps1 \<le> t) older) \<and>
    ps_last_ts ps1 = ps_last_ts ps \<and> ps_dur ps1 = ps_dur ps"
  using assms
proof (induction older arbitrary: fls ps)
  case (Cons t older)
  let ?ps = "ps\<lparr>ps_count := ps_count ps + 1, ps_first_ts := t, ps_count_falses := ps_count_falses ps + fls\<rparr>"
  have "let ps1 = seq_candidates rule mv older 0 ?ps in
    ps_first_ts ps1 \<le> t \<and> (ps_first_ts ps1 = t \<or> mv \<le> ps_first_ts ps1) \<and>
    ps_count ps1 \<le> ps_count ps + 1 + length (filter (\<lambda>t. ps_first_ts ps1 \<le> t) older) \<and>
    ps_last_ts ps1 = ps_last_ts ps \<and> ps_dur ps1 = ps_dur ps"
    using Cons.IH [of ?ps 0] Cons.prems by simp
  moreover have "let ps1 = seq_candidates rule mv older (fls + 1) ps in
    ps_first_ts ps1 \<le> ps_first_ts ps \<and> (ps_first_ts ps1 = ps_first_ts ps \<or> mv \<le> ps_first_ts ps1) \<and>
    ps_count ps1 \<le> ps_count ps + length (filter (\<lambda>t. ps_first_ts ps1 \<le> t) older) \<and>
    ps_last_ts ps1 = ps_last_ts ps \<and> ps_dur ps1 = ps_dur ps"
    using Cons.IH [of ps "fls + 1"] Cons.prems by simp
  ultimately show ?case using Cons.prems by (auto simp: Let_def)
qed simp

lemma new_seq_ok:
  assumes r: "rule_ok rule" and p: "rule_match rule p" "pl_ts p < 2 ^ 32"
    and s: "sorted_wrt (\<ge>) (t # older)" "t \<le> pl_ts p" "mset (t # older) \<subseteq># times rule hist"
    and d: "sub64 (pl_ts p) t mod 2 ^ 32 \<le> pri_max rule"
  shows "seq_ok rule (p # hist) (pl_ts p) (new_seq rule (pl_ts p) t older) \<and>
    seq_live rule (pl_ts p) (new_seq rule (pl_ts p) t older)"
proof -
  let ?ts = "pl_ts p"
  define pri where "pri = (if pri_min rule + SKW_PRI_TOLERANCE = pri_max rule - SKW_PRI_TOLERANCE
     then pri_min rule + SKW_PRI_TOLERANCE else sub64 ?ts t mod 2 ^ 32)"
  define dur where "dur = (pri * (ppb rule - 1) + 2 * max_pri_tolerance rule) mod 2 ^ 32"
  define ps where "ps = seq_candidates rule (sub64 ?ts dur) older 0
     \<lparr>ps_pri = pri, ps_dur = dur, ps_count = 2, ps_count_falses = 0, ps_first_ts = t, ps_last_ts = ?ts, ps_deadline_ts = 0\<rparr>"
  have n: "new_seq rule ?ts t older = ps\<lparr>ps_deadline_ts := (ps_first_ts ps + dur) mod 2 ^ 64\<rparr>"
    by (simp add: new_seq_def Let_def pri_def dur_def ps_def)
  have delta: "?ts - t \<le> pri_max rule" using d s(2) p(2) by (simp add: sub64_def)
  have "pri \<le> pri_max rule" using d r by (auto simp: pri_def rule_ok_def)
  then have "pri * (ppb rule - 1) \<le> pri_max rule * ppb rule" by (intro mult_le_mono) auto
  moreover have "dur \<le> pri * (ppb rule - 1) + 2 * max_pri_tolerance rule" by (simp add: dur_def)
  ultimately have dur: "dur \<le> burst rule" by (simp add: burst_def)
  have c: "ps_first_ts ps \<le> t" "ps_first_ts ps = t \<or> sub64 ?ts dur \<le> ps_first_ts ps"
    "ps_count ps \<le> 2 + length (filter (\<lambda>x. ps_first_ts ps \<le> x) older)" "ps_last_ts ps = ?ts" "ps_dur ps = dur"
    using seq_candidates_ok [of older "\<lparr>ps_pri = pri, ps_dur = dur, ps_count = 2, ps_count_falses = 0,
      ps_first_ts = t, ps_last_ts = ?ts, ps_deadline_ts = 0\<rparr>" rule "sub64 ?ts dur" 0] s(1)
    by (simp_all add: Let_def ps_def)
  have "length (filter (\<lambda>x. ps_first_ts ps \<le> x \<and> x \<le> ?ts) (t # older)) \<le> hits rule (ps_first_ts ps) ?ts hist"
    by (rule hits_sub [OF s(3)])
  moreover have "filter (\<lambda>x. ps_first_ts ps \<le> x \<and> x \<le> ?ts) (t # older) = t # filter (\<lambda>x. ps_first_ts ps \<le> x) older"
    using s(1,2) c(1) by (auto intro!: filter_cong)
  ultimately have cnt: "ps_count ps \<le> hits rule (ps_first_ts ps) ?ts (p # hist)"
    using c(1,3) s(2) p(1) by (simp add: hits_Cons)
  have "pri_max rule \<le> pri_max rule * ppb rule" using r by (simp add: rule_ok_def)
  then have pm: "pri_max rule \<le> burst rule" unfolding burst_def by (rule trans_le_add1)
  have "pri_max rule * ppb rule \<le> 65535 * 255" using r by (intro mult_le_mono) (auto simp: rule_ok_def)
  then have small: "burst rule < 2 ^ 32" using r by (simp add: burst_def rule_ok_def)
  have live: "?ts \<le> ps_first_ts ps + burst rule"
    using c(1,2) delta dur pm small p(2) s(2) by (auto simp: sub64_def split: if_splits)
  have "ps_first_ts ps + dur < 2 ^ 64" using c(1) s(2) p(2) dur small by simp
  then show ?thesis using cnt live dur c s(2) unfolding n by (simp add: seq_ok_def seq_live_def)
qed

lemma create_loop_ok:
  assumes "rule_ok rule" "rule_match rule p" "pl_ts p < 2 ^ 32"
    and "sorted_wrt (\<ge>) ps" "\<forall>t \<in> set ps. t \<le> pl_ts p" "mset ps \<subseteq># times rule hist"
    and "\<forall>q \<in> set (fst s). seq_ok rule (p # hist) (pl_ts p) q \<and> seq_live rule (pl_ts p) q"
    and "create_loop alloc rule (pl_ts p) m ps s = (ok, s1)"
  shows "\<forall>q \<in> set (fst s1). seq_ok rule (p # hist) (pl_ts p) q \<and> seq_live rule (pl_ts p) q"
  using assms
proof (induction ps arbitrary: s)
  case (Cons t older)
  let ?d = "sub64 (pl_ts p) t mod 2 ^ 32"
  have new: "seq_ok rule (p # hist) (pl_ts p) (new_seq rule (pl_ts p) t older) \<and>
      seq_live rule (pl_ts p) (new_seq rule (pl_ts p) t older)" if "?d \<le> pri_max rule"
    using new_seq_ok [of rule p t older hist] Cons.prems that by simp
  have sub: "sorted_wrt (\<ge>) older" "\<forall>t \<in> set older. t \<le> pl_ts p" "mset older \<subseteq># times rule hist"
    using Cons.prems by (auto dest: mset_subset_eq_insertD simp: subset_mset.less_imp_le)
  have IH: "\<forall>q \<in> set (fst s1). seq_ok rule (p # hist) (pl_ts p) q \<and> seq_live rule (pl_ts p) q"
    if "create_loop alloc rule (pl_ts p) m older s' = (ok, s1)"
      "\<forall>q \<in> set (fst s'). seq_ok rule (p # hist) (pl_ts p) q \<and> seq_live rule (pl_ts p) q" for s'
    using Cons.IH [OF Cons.prems(1-3) sub that(2,1)] .
  have "s1 = s \<or> create_loop alloc rule (pl_ts p) m older s = (ok, s1) \<or>
      (?d \<le> pri_max rule \<and>
       create_loop alloc rule (pl_ts p) m older (new_seq rule (pl_ts p) t older # fst s, snd s - 1) = (ok, s1))"
    using Cons.prems(8) by (simp add: Let_def not_less split: if_splits)
  then show ?case
  proof (elim disjE conjE)
    assume a: "?d \<le> pri_max rule"
      "create_loop alloc rule (pl_ts p) m older (new_seq rule (pl_ts p) t older # fst s, snd s - 1) = (ok, s1)"
    show ?thesis by (rule IH [OF a(2)]) (use new [OF a(1)] Cons.prems(7) in auto)
  qed (use IH Cons.prems(7) in blast)+
qed simp

section \<open>Detectors\<close>

definition det_ok :: "skw_radar_rule \<Rightarrow> skw_pulse_info list \<Rightarrow> nat \<Rightarrow> skw_pri_detector \<Rightarrow> bool" where
  "det_ok rule hist now d \<longleftrightarrow>
     (\<forall>ps \<in> set (pd_sequences d). seq_ok rule hist now ps) \<and>
     sorted_wrt (\<ge>) (pd_pulses d) \<and> (\<forall>t \<in> set (pd_pulses d). t \<le> now) \<and> mset (pd_pulses d) \<subseteq># times rule hist"

lemma det_ok_empty [simp]: "pd_sequences d = [] \<Longrightarrow> pd_pulses d = [] \<Longrightarrow> det_ok rule hist now d"
  by (simp add: det_ok_def)

lemma times_mono: "times rule hist \<subseteq># times rule (p # hist)"
  by simp

lemma det_ok_mono: "det_ok rule hist now d \<Longrightarrow> now \<le> now' \<Longrightarrow> det_ok rule (p # hist) now' d"
  unfolding det_ok_def using times_mono [of rule hist p] seq_ok_mono [of rule hist now _ now' p]
  by (meson order.trans subset_mset.order_trans)

lemma sorted_butlast: "sorted_wrt P xs \<Longrightarrow> sorted_wrt P (butlast xs)"
  by (metis append_butlast_last_id butlast.simps(1) sorted_wrt_append)

lemma mset_butlast: "mset (butlast xs) \<subseteq># mset xs"
  by (metis append_butlast_last_id butlast.simps(1) mset_append mset_subset_eq_add_left subset_mset.order_refl)

lemma dequeue_ok: "det_ok rule hist now (cx_pde c) \<Longrightarrow> det_ok rule hist now (cx_pde (pulse_queue_dequeue c))"
  unfolding det_ok_def pulse_queue_dequeue_def Let_def
  by (auto simp: sorted_butlast dest: in_set_butlastD intro: subset_mset.order_trans [OF mset_butlast])

lemma check_window_loop_ok:
  "det_ok rule hist now (cx_pde c) \<Longrightarrow> det_ok rule hist now (cx_pde (check_window_loop m c))"
proof (induction m c rule: check_window_loop.induct)
  case (1 m c)
  then show ?case by (subst check_window_loop.simps) (auto intro: dequeue_ok)
qed

lemma check_window_ok:
  "det_ok rule hist now (cx_pde c) \<Longrightarrow> det_ok rule hist now (cx_pde (pulse_queue_check_window c))"
  by (simp add: pulse_queue_check_window_def Let_def check_window_loop_ok)

lemma enqueue_ok:
  assumes "sorted_wrt (\<ge>) (pd_pulses (cx_pde c))" "\<forall>t \<in> set (pd_pulses (cx_pde c)). t \<le> pl_ts p"
    and "mset (pd_pulses (cx_pde c)) \<subseteq># times rule hist" "rule_match rule p"
    and "\<forall>ps \<in> set (pd_sequences (cx_pde c)). seq_ok rule (p # hist) (pl_ts p) ps"
  shows "det_ok rule (p # hist) (pl_ts p) (cx_pde (pulse_queue_enqueue alloc (pl_ts p) c))"
proof -
  let ?c = "c\<lparr>cx_pulse_pool := cx_pulse_pool c - 1, cx_pde := (cx_pde c)\<lparr>pd_pulses := pl_ts p # pd_pulses (cx_pde c),
     pd_count := pd_count (cx_pde c) + 1, pd_last_ts := pl_ts p\<rparr>\<rparr>"
  have "det_ok rule (p # hist) (pl_ts p) (cx_pde c)"
    using assms(1-3,5) subset_mset.order_trans [OF assms(3) times_mono] by (simp add: det_ok_def)
  moreover have "det_ok rule (p # hist) (pl_ts p) (cx_pde ?c)" using assms by (auto simp: det_ok_def)
  ultimately show ?thesis by (simp add: pulse_queue_enqueue_def Let_def check_window_ok dequeue_ok)
qed

text \<open>What a report of radar means: enough pulses of the type within one burst that ends now.\<close>

definition radar_seen :: "skw_radar_rule \<Rightarrow> skw_pulse_info list \<Rightarrow> nat \<Rightarrow> bool" where
  "radar_seen rule hist now \<longleftrightarrow> (\<exists>t0. ppb_thresh rule \<le> hits rule t0 now hist \<and> now \<le> t0 + burst rule)"

lemma detection_seen:
  assumes "\<forall>ps \<in> set (pd_sequences d). seq_ok rule hist now ps \<and> seq_live rule now ps"
    and "pseq_handler_check_detection rule d \<noteq> None"
  shows "radar_seen rule hist now"
proof -
  obtain ps where ps: "ps \<in> set (pd_sequences d)" "ppb_thresh rule \<le> ps_count ps"
    using assms(2) by (auto simp: pseq_handler_check_detection_def find_Some_iff dest!: nth_mem)
  then have "ps_count ps \<le> hits rule (ps_first_ts ps) (ps_last_ts ps) hist" "ps_last_ts ps \<le> now"
    "now \<le> ps_first_ts ps + burst rule" using assms(1) by (auto simp: seq_ok_def seq_live_def)
  then show ?thesis using ps(2) hits_mono [of "ps_first_ts ps" "ps_first_ts ps" "ps_last_ts ps" now rule hist]
    unfolding radar_seen_def by (intro exI [of _ "ps_first_ts ps"]) auto
qed

lemma add_pulse_cfg_ok:
  assumes r: "rule_ok rule" and d: "det_ok rule hist now (cx_pde c)"
    and ts: "pl_ts p < 2 ^ 32" "reset \<longleftrightarrow> pl_ts p < now"
    and a: "add_pulse_cfg alloc reset rule p c = (hit, c1)"
  shows "det_ok rule (p # hist) (pl_ts p) (cx_pde c1) \<and> (hit \<longrightarrow> radar_seen rule (p # hist) (pl_ts p))"
proof (cases "reset \<or> \<not> rule_match rule p \<or> sub64 (pl_ts p) (pd_last_ts (cx_pde c)) < max_pri_tolerance rule")
  case True
  then show ?thesis using a d ts(2) det_ok_mono [OF d, of "pl_ts p" p]
    by (auto simp: add_pulse_cfg_def Let_def pri_detector_reset_def split: if_splits)
next
  case False
  then have m: "rule_match rule p" and le: "now \<le> pl_ts p" using ts(2) by auto
  obtain mx ca where A: "pseq_handler_add_to_existing_seqs rule (pl_ts p) c = (mx, ca)" by force
  obtain ok cb where B: "pseq_handler_create_sequences alloc rule (pl_ts p) mx ca = (ok, cb)" by force
  obtain pss f where A': "add_to_seqs rule (pl_ts p) (pd_sequences (cx_pde c)) = (pss, f, mx)"
      "cx_pde ca = (cx_pde c)\<lparr>pd_sequences := pss\<rparr>"
    using A by (auto simp: pseq_handler_add_to_existing_seqs_def split: prod.splits)
  obtain s1 where B': "create_loop alloc rule (pl_ts p) mx (pd_pulses (cx_pde c)) (pss, cx_pseq_pool ca) = (ok, s1)"
      "cx_pde cb = (cx_pde c)\<lparr>pd_sequences := fst s1\<rparr>"
    using B A'(2) by (auto simp: pseq_handler_create_sequences_def split: prod.splits)
  have old: "\<forall>ps \<in> set (pd_sequences (cx_pde c)). seq_ok rule hist now ps" and q: "sorted_wrt (\<ge>) (pd_pulses (cx_pde c))"
      "\<forall>t \<in> set (pd_pulses (cx_pde c)). t \<le> pl_ts p" "mset (pd_pulses (cx_pde c)) \<subseteq># times rule hist"
    using d le by (auto simp: det_ok_def)
  have "\<forall>ps \<in> set pss. seq_ok rule (p # hist) (pl_ts p) ps \<and> seq_live rule (pl_ts p) ps"
    by (rule add_to_seqs_ok [OF old le m A'(1)])
  then have new: "\<forall>ps \<in> set (fst s1). seq_ok rule (p # hist) (pl_ts p) ps \<and> seq_live rule (pl_ts p) ps"
    using create_loop_ok [OF r m ts(1) q _ B'(1)] by simp
  have enq: "det_ok rule (p # hist) (pl_ts p) (cx_pde (pulse_queue_enqueue al (pl_ts p) cb))" for al
    by (rule enqueue_ok) (use q m new B'(2) in auto)
  have cb: "det_ok rule (p # hist) (pl_ts p) (cx_pde cb)"
    using q new B'(2) subset_mset.order_trans [OF q(3) times_mono] by (simp add: det_ok_def)
  have seen: "radar_seen rule (p # hist) (pl_ts p)"
    if "pseq_handler_check_detection rule (cx_pde cb) \<noteq> None"
    using detection_seen [OF _ that, of "p # hist" "pl_ts p"] new B'(2) by simp
  have "(hit, c1) = (if \<not> ok then (False, pri_detector_reset (pl_ts p) cb)
     else if pseq_handler_check_detection rule (cx_pde cb) \<noteq> None then (True, cb)
     else (False, pulse_queue_enqueue (alloc (length (pd_sequences (cx_pde cb)))) (pl_ts p) cb))"
    using a False A B by (simp add: add_pulse_cfg_def Let_def)
  then show ?thesis using enq cb seen by (auto simp: pri_detector_reset_def Let_def split: if_splits)
qed

lemma det_ok_Cons: "det_ok rule hist now d \<Longrightarrow> det_ok rule (p # hist) now d"
  by (rule det_ok_mono [OF _ order_refl])

lemma add_pulse_cfg_hit_reset: "fst (add_pulse_cfg alloc True rule p c) = False"
  by (simp add: add_pulse_cfg_def Let_def)

lemma add_pulse_loop_ok:
  assumes "\<forall>cfg \<in> set cfgs. rule_ok (rc_rule cfg) \<and> det_ok (rc_rule cfg) hist now (rc_pri cfg)"
    and "pl_ts p < 2 ^ 32" "reset \<longleftrightarrow> pl_ts p < now"
    and "add_pulse_loop alloc reset p cfgs pools = (hit, cfgs1, pools1)"
  shows "map rc_rule cfgs1 = map rc_rule cfgs \<and>
    (\<not> hit \<longrightarrow> (\<forall>cfg \<in> set cfgs1. det_ok (rc_rule cfg) (p # hist) (pl_ts p) (rc_pri cfg))) \<and>
    (hit \<longrightarrow> (\<exists>cfg \<in> set cfgs. radar_seen (rc_rule cfg) (p # hist) (pl_ts p)))"
  using assms
proof (induction cfgs arbitrary: pools cfgs1 hit pools1)
  case (Cons cfg cfgs)
  let ?c = "\<lparr>cx_pde = rc_pri cfg, cx_pulse_pool = fst pools, cx_pseq_pool = snd pools\<rparr>"
  obtain h c where a: "add_pulse_cfg alloc reset (rc_rule cfg) p ?c = (h, c)" by force
  obtain r rest q where l: "add_pulse_loop alloc reset p cfgs (cx_pulse_pool c, cx_pseq_pool c) = (r, rest, q)"
    by (metis prod_cases3)
  have "det_ok (rc_rule cfg) (p # hist) (pl_ts p) (cx_pde c) \<and> (h \<longrightarrow> radar_seen (rc_rule cfg) (p # hist) (pl_ts p))"
    by (rule add_pulse_cfg_ok [OF _ _ Cons.prems(2,3) a]) (use Cons.prems(1) in auto)
  moreover have "(hit, cfgs1) = (if h then (True, cfg\<lparr>rc_pri := cx_pde c\<rparr> # cfgs) else (r, cfg\<lparr>rc_pri := cx_pde c\<rparr> # rest))"
    using Cons.prems(4) a l by (auto simp: Let_def split: if_splits)
  ultimately show ?case
    using Cons.IH [OF _ _ _ l] Cons.prems(1-3) by (auto split: if_splits)
qed simp

section \<open>All detectors together\<close>

lemma reset_cfgs_det:
  "reset_cfgs cfgs pools = (cfgs1, pools1) \<Longrightarrow>
     map rc_rule cfgs1 = map rc_rule cfgs \<and> (\<forall>cfg \<in> set cfgs1. det_ok (rc_rule cfg) hist now (rc_pri cfg))"
  by (induction cfgs arbitrary: pools cfgs1)
    (auto simp: Let_def pri_detector_reset_def split: prod.splits)

lemma reset_infos_det:
  "reset_infos is pools = (is1, pools1) \<Longrightarrow>
     map (map rc_rule) is1 = map (map rc_rule) is \<and> (\<forall>i \<in> set is1. \<forall>cfg \<in> set i. det_ok (rc_rule cfg) hist now (rc_pri cfg))"
proof (induction "is" arbitrary: pools is1)
  case (Cons i "is")
  then show ?case using reset_cfgs_det [of i pools _ _ hist now] by (auto split: prod.splits)
qed simp

text \<open>
  The invariant over the history of pulses, the newest first: the radar types are those of the
  tables, and the detectors of the region in use account for pulses of the history.
\<close>

definition dfs_ok :: "skw_pulse_info list \<Rightarrow> skw_dfs \<Rightarrow> bool" where
  "dfs_ok hist s \<longleftrightarrow> map (map rc_rule) (dfs_cfgs s) = skw_radar_infos \<and>
     (\<forall>k. dfs_info s = Some k \<longrightarrow> k < length skw_radar_infos \<and>
        (\<forall>cfg \<in> set (dfs_cfgs s ! k). det_ok (rc_rule cfg) hist (dfs_last_pulse_ts s) (rc_pri cfg)))"

lemma dfs_ok_length: "dfs_ok hist s \<Longrightarrow> length (dfs_cfgs s) = length skw_radar_infos"
  unfolding dfs_ok_def by (metis length_map)

lemma dfs_ok_rules: "dfs_ok hist s \<Longrightarrow> k < length skw_radar_infos \<Longrightarrow> map rc_rule (dfs_cfgs s ! k) = skw_radar_infos ! k"
  using dfs_ok_length [of hist s] unfolding dfs_ok_def by (metis nth_map)

lemma dfs_ok_rule_ok: "dfs_ok hist s \<Longrightarrow> k < length skw_radar_infos \<Longrightarrow> cfg \<in> set (dfs_cfgs s ! k) \<Longrightarrow> rule_ok (rc_rule cfg)"
  using infos_ok dfs_ok_rules [of hist s k]
  by (metis (no_types, lifting) image_eqI list.set_map list_all_length list_all_iff nth_mem)

text \<open>Messages, modes and timers do not touch the detectors.\<close>

definition same_detectors :: "skw_dfs \<Rightarrow> skw_dfs \<Rightarrow> bool" where
  "same_detectors s1 s \<longleftrightarrow> dfs_cfgs s1 = dfs_cfgs s \<and> dfs_info s1 = dfs_info s \<and> dfs_last_pulse_ts s1 = dfs_last_pulse_ts s"

lemma same_detectors_refl [simp]: "same_detectors s s"
  by (simp add: same_detectors_def)

lemma same_detectors_emit [simp]: "same_detectors (dfs_emit o1 s1) s = same_detectors s1 s"
  by (simp add: same_detectors_def dfs_emit_def)

lemma same_detectors_iface [simp]: "same_detectors (upd_iface i f s1) s = same_detectors s1 s"
  by (simp add: same_detectors_def upd_iface_def)

lemma same_detectors_set [simp]: "same_detectors (set_mode i nr s1) s = same_detectors s1 s"
  unfolding set_mode_def same_detectors_iface by (simp add: same_detectors_def)

lemma same_detectors_clear [simp]: "same_detectors (clear_mode i nr s1) s = same_detectors s1 s"
  unfolding clear_mode_def same_detectors_iface by (simp add: same_detectors_def)

lemma same_detectors_start_cac [simp]: "same_detectors (snd (skw_dfs_start_cac send to_bw i s)) s"
  by (simp add: skw_dfs_start_cac_def Let_def)

lemma same_detectors_stop_cac [simp]: "same_detectors (snd (skw_dfs_stop_cac send i s1)) s = same_detectors s1 s"
  by (simp add: skw_dfs_stop_cac_def)

lemma same_detectors_start_monitor [simp]: "same_detectors (snd (skw_dfs_start_monitor send i s)) s"
  by (simp add: skw_dfs_start_monitor_def Let_def)

lemma same_detectors_stop_monitor [simp]: "same_detectors (snd (skw_dfs_stop_monitor send i s1)) s = same_detectors s1 s"
  by (simp add: skw_dfs_stop_monitor_def)

lemma same_detectors_cac_work [simp]: "same_detectors (skw_dfs_cac_work send i s) s"
  by (simp add: skw_dfs_cac_work_def Let_def)

lemma dfs_ok_same: "same_detectors s1 s \<Longrightarrow> dfs_ok hist s \<Longrightarrow> dfs_ok hist s1"
  by (simp add: same_detectors_def dfs_ok_def)

lemma deinit_resets:
  "dfs_info (skw_dfs_deinit send i s) = dfs_info s \<and>
     (\<exists>pools pools1. reset_infos (dfs_cfgs s) pools = (dfs_cfgs (skw_dfs_deinit send i s), pools1))"
proof -
  define s1 where "s1 = (if bit (sd_flags (dfs_ifaces s ! i)) SKW_DFS_FLAG_CAC_MODE
     then dfs_emit (CacAborted i) (snd (skw_dfs_stop_cac send i (upd_iface i (\<lambda>f. f\<lparr>sd_cac_work := False\<rparr>) s))) else s)"
  define s2 where "s2 = (if bit (sd_flags (dfs_ifaces s1 ! i)) SKW_DFS_FLAG_MONITOR_MODE
     then snd (skw_dfs_stop_monitor send i s1) else s1)"
  obtain cfgs p q where r: "reset_infos (dfs_cfgs s2) (dfs_pulse_pool s2, dfs_pseq_pool s2) = (cfgs, p, q)"
    by (metis prod_cases3)
  have d: "skw_dfs_deinit send i s = s2\<lparr>dfs_cfgs := cfgs, dfs_pulse_pool := p, dfs_pseq_pool := q\<rparr>"
    using r unfolding skw_dfs_deinit_def Let_def s1_def [symmetric] s2_def [symmetric] by simp
  have "same_detectors s1 s" by (simp add: s1_def)
  then have "same_detectors s2 s" by (simp add: s2_def)
  then have "dfs_cfgs s2 = dfs_cfgs s" "dfs_info s2 = dfs_info s" by (simp_all add: same_detectors_def)
  then show ?thesis unfolding d using r by (intro conjI exI) simp_all
qed

lemma dfs_ok_deinit:
  assumes "map (map rc_rule) (dfs_cfgs s) = skw_radar_infos" "\<forall>k. dfs_info s = Some k \<longrightarrow> k < length skw_radar_infos"
  shows "dfs_ok hist (skw_dfs_deinit send i s)"
proof -
  let ?s = "skw_dfs_deinit send i s"
  obtain pools pools1 where r: "reset_infos (dfs_cfgs s) pools = (dfs_cfgs ?s, pools1)" using deinit_resets by blast
  have cfgs: "map (map rc_rule) (dfs_cfgs ?s) = skw_radar_infos"
      "\<forall>c \<in> set (dfs_cfgs ?s). \<forall>cfg \<in> set c. det_ok (rc_rule cfg) hist now (rc_pri cfg)"
    for now using reset_infos_det [OF r] assms(1) by auto
  have "length (dfs_cfgs ?s) = length skw_radar_infos" using cfgs(1) by (metis length_map)
  then have "det_ok (rc_rule cfg) hist (dfs_last_pulse_ts ?s) (rc_pri cfg)"
    if "dfs_info s = Some k" "cfg \<in> set (dfs_cfgs ?s ! k)" for k cfg using cfgs(2) assms(2) that by (metis nth_mem)
  then show ?thesis unfolding dfs_ok_def using cfgs(1) assms(2) deinit_resets [of send i s] by simp
qed

lemma dfs_ok_init:
  assumes ok: "dfs_ok hist s"
  shows "dfs_ok hist (skw_dfs_init i s)"
  using ok dfs_ok_length [OF ok] by (auto simp: skw_dfs_init_def dfs_ok_def upd_iface_def comp_def)

lemma dfs_ok_chan_init: "dfs_ok hist s \<Longrightarrow> dfs_ok hist (snd (skw_dfs_chan_init i ch t s))"
proof -
  assume ok: "dfs_ok hist s"
  let ?k = "dfs_region s"
  have "map rc_rule (map chan_init_cfg cfgs) = map rc_rule cfgs" for cfgs by (simp add: chan_init_cfg_def Let_def)
  then have rules: "map (map rc_rule) ((dfs_cfgs s)[?k := map chan_init_cfg (dfs_cfgs s ! ?k)]) = map (map rc_rule) (dfs_cfgs s)"
    by (metis list_update_id map_update)
  have det: "det_ok rule hist now (rc_pri (chan_init_cfg cfg))" for rule cfg now
    by (simp add: chan_init_cfg_def Let_def)
  show ?thesis using ok rules det dfs_ok_length [OF ok]
    by (simp add: skw_dfs_chan_init_def upd_iface_def dfs_ok_def)
qed

lemma dfs_ok_pulse:
  assumes ok: "dfs_ok hist s" and info: "dfs_info s = Some k" and ts: "pl_ts p < 2 ^ 32"
  shows "dfs_ok (p # hist) (skw_dfs_add_pulse send alloc i p s) \<and>
    (count_list (dfs_outs s) RadarEvent < count_list (dfs_outs (skw_dfs_add_pulse send alloc i p s)) RadarEvent \<longrightarrow>
       (\<exists>rule \<in> set (skw_radar_infos ! k). radar_seen rule (p # hist) (pl_ts p)))"
proof (cases "sd_flags (dfs_ifaces s ! i) = 0")
  case True
  then show ?thesis using ok by (auto simp: skw_dfs_add_pulse_def dfs_ok_def intro: det_ok_Cons)
next
  case False
  obtain hit cfgs q r where l: "add_pulse_loop alloc (pl_ts p < dfs_last_pulse_ts s) p (dfs_cfgs s ! k)
      (dfs_pulse_pool s, dfs_pseq_pool s) = (hit, cfgs, q, r)" by (metis prod_cases4)
  define s1 where "s1 = s\<lparr>dfs_last_pulse_ts := pl_ts p, dfs_cfgs := (dfs_cfgs s)[k := cfgs], dfs_pulse_pool := q, dfs_pseq_pool := r\<rparr>"
  have s': "skw_dfs_add_pulse send alloc i p s = (if hit then dfs_emit RadarEvent (skw_dfs_deinit send i s1) else s1)"
    using False info l by (simp add: skw_dfs_add_pulse_def Let_def s1_def)
  have k: "k < length skw_radar_infos" using ok info by (simp add: dfs_ok_def)
  have det: "\<forall>cfg \<in> set (dfs_cfgs s ! k). rule_ok (rc_rule cfg) \<and> det_ok (rc_rule cfg) hist (dfs_last_pulse_ts s) (rc_pri cfg)"
    using ok info dfs_ok_rule_ok [OF ok k] by (auto simp: dfs_ok_def)
  note A = add_pulse_loop_ok [OF det ts refl l]
  have rules: "map (map rc_rule) (dfs_cfgs s1) = skw_radar_infos"
    using A dfs_ok_rules [OF ok k] ok by (simp add: s1_def dfs_ok_def map_update)
  have seen: "hit \<Longrightarrow> \<exists>rule \<in> set (skw_radar_infos ! k). radar_seen rule (p # hist) (pl_ts p)"
    using A dfs_ok_rules [OF ok k] by (metis image_eqI list.set_map)
  have "dfs_ok (p # hist) s1" if "\<not> hit"
    using A that rules info k dfs_ok_length [OF ok] by (simp add: dfs_ok_def s1_def)
  moreover have "dfs_ok (p # hist) (skw_dfs_deinit send i s1)"
    by (rule dfs_ok_deinit [OF rules]) (use info k in \<open>simp add: s1_def\<close>)
  then have "dfs_ok (p # hist) (dfs_emit RadarEvent (skw_dfs_deinit send i s1))" by (simp add: dfs_ok_def dfs_emit_def)
  ultimately show ?thesis unfolding s' using seen by (auto simp: s1_def)
qed

section \<open>The operations as one machine\<close>

datatype dfs_event =
  DPulses nat "(u32 \<times> u64) list" | DChanInit nat dfs_chandef nat | DInit nat | DDeinit nat |
  DStartCac nat | DStopCac nat | DStartMonitor nat | DStopMonitor nat | DCacWork nat

text \<open>The state with the history of all pulses reported so far, the newest first.\<close>

primrec dfs_step ::
  "(dfs_out \<Rightarrow> int) \<Rightarrow> (nat \<Rightarrow> bool) \<Rightarrow> (nat \<Rightarrow> nat) \<Rightarrow> dfs_event \<Rightarrow>
   skw_pulse_info list \<times> skw_dfs \<Rightarrow> skw_pulse_info list \<times> skw_dfs" where
  "dfs_step send alloc bw (DPulses i dat) hs =
     (rev (map (\<lambda>(u, w). pulse_of u w) dat) @ fst hs, skw_event_dfs_radar_pulse send alloc i dat (snd hs))"
| "dfs_step send alloc bw (DChanInit i ch t) hs = (fst hs, snd (skw_dfs_chan_init i ch t (snd hs)))"
| "dfs_step send alloc bw (DInit i) hs = (fst hs, skw_dfs_init i (snd hs))"
| "dfs_step send alloc bw (DDeinit i) hs = (fst hs, skw_dfs_deinit send i (snd hs))"
| "dfs_step send alloc bw (DStartCac i) hs = (fst hs, snd (skw_dfs_start_cac send bw i (snd hs)))"
| "dfs_step send alloc bw (DStopCac i) hs = (fst hs, snd (skw_dfs_stop_cac send i (snd hs)))"
| "dfs_step send alloc bw (DStartMonitor i) hs = (fst hs, snd (skw_dfs_start_monitor send i (snd hs)))"
| "dfs_step send alloc bw (DStopMonitor i) hs = (fst hs, snd (skw_dfs_stop_monitor send i (snd hs)))"
| "dfs_step send alloc bw (DCacWork i) hs = (fst hs, skw_dfs_cac_work send i (snd hs))"

text \<open>The global tables when the module is loaded, with the list heads not yet set up.\<close>

definition dfs_module_load :: "bool \<Rightarrow> nat \<Rightarrow> nat \<Rightarrow> skw_dfs" where
  "dfs_module_load fw region n =
     \<lparr>dfs_fw_enabled = fw, dfs_last_pulse_ts = 0, dfs_flags = 0, dfs_pulse_pool = 0, dfs_pseq_pool = 0,
      dfs_region = region, dfs_chan = \<lparr>cd_chan = 0, cd_width = 0, cd_freq1 = 0, cd_freq2 = 0\<rparr>, dfs_info = None,
      dfs_cfgs = map (map (\<lambda>r. \<lparr>rc_rule = r, rc_pri = \<lparr>pd_last_ts = 0, pd_window_size = 0, pd_count = 0,
        pd_max_count = 0, pd_sequences = [], pd_pulses = []\<rparr>\<rparr>)) skw_radar_infos,
      dfs_ifaces = replicate n \<lparr>sd_flags = 0, sd_cac_time = 0, sd_cac_work = False, sd_cac_started = False\<rparr>,
      dfs_outs = []\<rparr>"

lemma dfs_ok_load: "dfs_ok [] (dfs_module_load fw region n)"
  by (simp add: dfs_ok_def dfs_module_load_def comp_def)

lemma pulse_of_ts: "pl_ts (pulse_of u w) < 2 ^ 32"
proof -
  have "unat x < 2 ^ LENGTH(32)" for x :: u32 by (rule unsigned_less)
  then show ?thesis by (simp add: pulse_of_def Let_def)
qed

lemma add_pulse_info [simp]: "dfs_info (skw_dfs_add_pulse send alloc i p s) = dfs_info s"
  by (simp add: skw_dfs_add_pulse_def Let_def dfs_emit_def deinit_resets split: prod.splits)

text \<open>The handler of the radar event, pulse by pulse.\<close>

lemma pulses_fold_ok:
  assumes "dfs_ok hist s" "dfs_info s = Some k"
    and "s1 = fold (\<lambda>(usecs, w) s1. if pl_width (pulse_of usecs w) = 0 then s1
                   else skw_dfs_add_pulse send alloc i (pulse_of usecs w) s1) dat s"
  shows "dfs_ok (rev (map (\<lambda>(u, w). pulse_of u w) dat) @ hist) s1 \<and>
    (count_list (dfs_outs s) RadarEvent < count_list (dfs_outs s1) RadarEvent \<longrightarrow>
       (\<exists>pre p post. map (\<lambda>(u, w). pulse_of u w) dat = pre @ p # post \<and>
          (\<exists>rule \<in> set (skw_radar_infos ! k). radar_seen rule (p # rev pre @ hist) (pl_ts p))))"
  using assms
proof (induction dat arbitrary: hist s)
  case (Cons e dat)
  obtain u w where e: "e = (u, w)" by force
  let ?p = "pulse_of u w"
  let ?s = "if pl_width ?p = 0 then s else skw_dfs_add_pulse send alloc i ?p s"
  have ok: "dfs_ok (?p # hist) ?s" "dfs_info ?s = Some k"
    using dfs_ok_pulse [OF Cons.prems(1,2) pulse_of_ts] Cons.prems(1,2) by (auto simp: dfs_ok_def intro: det_ok_Cons)
  have first: "count_list (dfs_outs s) RadarEvent < count_list (dfs_outs ?s) RadarEvent \<Longrightarrow>
      \<exists>rule \<in> set (skw_radar_infos ! k). radar_seen rule (?p # hist) (pl_ts ?p)"
    using dfs_ok_pulse [OF Cons.prems(1,2) pulse_of_ts] by (auto split: if_splits)
  note IH = Cons.IH [OF ok]
  show ?case
  proof (intro conjI impI)
    show "dfs_ok (rev (map (\<lambda>(u, w). pulse_of u w) (e # dat)) @ hist) s1" using IH Cons.prems(3) e by simp
  next
    assume less: "count_list (dfs_outs s) RadarEvent < count_list (dfs_outs s1) RadarEvent"
    show "\<exists>pre p post. map (\<lambda>(u, w). pulse_of u w) (e # dat) = pre @ p # post \<and>
        (\<exists>rule \<in> set (skw_radar_infos ! k). radar_seen rule (p # rev pre @ hist) (pl_ts p))"
    proof (cases "count_list (dfs_outs s) RadarEvent < count_list (dfs_outs ?s) RadarEvent")
      case True
      then show ?thesis using first e by (intro exI [of _ "[]"]) auto
    next
      case False
      then have "count_list (dfs_outs ?s) RadarEvent < count_list (dfs_outs s1) RadarEvent" using less by simp
      then obtain pre p post where "map (\<lambda>(u, w). pulse_of u w) dat = pre @ p # post"
          "\<exists>rule \<in> set (skw_radar_infos ! k). radar_seen rule (p # rev pre @ ?p # hist) (pl_ts p)"
        using IH Cons.prems(3) e by auto
      then show ?thesis using e by (intro exI [of _ "?p # pre"]) auto
    qed
  qed
qed simp

lemma dfs_ok_append: "dfs_ok hist s \<Longrightarrow> dfs_ok (ps @ hist) s"
  by (induction ps) (auto simp: dfs_ok_def intro: det_ok_Cons)

interpretation dfs: inv_machine "dfs_step send alloc bw" "\<lambda>(hist, s). dfs_ok hist s" "\<lambda>_ _. True"
proof
  fix hs e
  assume "case hs of (hist, s) \<Rightarrow> dfs_ok hist s"
  then have ok: "dfs_ok (fst hs) (snd hs)" by (simp add: case_prod_beta)
  have "dfs_ok (fst (dfs_step send alloc bw e hs)) (snd (dfs_step send alloc bw e hs))"
  proof (cases e)
    case (DPulses i dat)
    then show ?thesis using ok pulses_fold_ok [OF ok, of _ _ send alloc i dat]
      by (auto simp: skw_event_dfs_radar_pulse_def dfs_ok_append)
  next
    case (DDeinit i)
    have "dfs_ok (fst hs) (skw_dfs_deinit send i (snd hs))" by (rule dfs_ok_deinit) (use ok in \<open>simp_all add: dfs_ok_def\<close>)
    then show ?thesis using DDeinit by simp
  qed (simp_all add: ok dfs_ok_same [OF _ ok] dfs_ok_chan_init dfs_ok_init)
  then show "case dfs_step send alloc bw e hs of (hist, s) \<Rightarrow> dfs_ok hist s" by (simp add: case_prod_beta)
qed

text \<open>
  C6. Radar is reported only when there is evidence for it. Over any sequence of channel set-ups,
  checks and reported pulses from the loading of the module, when a message of the firmware makes
  the driver report radar, one of its pulses completes, together with the pulses reported before,
  at least as many pulses of one radar type of the region as the threshold of that type, all
  within the length of one burst of that type.
\<close>

theorem radar_event_sound:
  assumes "fold (dfs_step send alloc bw) es ([], dfs_module_load fw region n) = (hist, s)"
    and "skw_event_dfs_radar_pulse send alloc i dat s = s1"
    and "count_list (dfs_outs s) RadarEvent < count_list (dfs_outs s1) RadarEvent"
  shows "\<exists>k pre p post rule. dfs_info s = Some k \<and> map (\<lambda>(u, w). pulse_of u w) dat = pre @ p # post \<and>
    rule \<in> set (skw_radar_infos ! k) \<and> radar_seen rule (p # rev pre @ hist) (pl_ts p)"
proof -
  have ok: "dfs_ok hist s"
    using dfs.run_invar [of "([], dfs_module_load fw region n)" send alloc bw es] dfs_ok_load assms(1) by simp
  have "dfs_info s \<noteq> None" using assms(2,3) by (auto simp: skw_event_dfs_radar_pulse_def split: if_splits)
  then obtain k where k: "dfs_info s = Some k" by auto
  show ?thesis using pulses_fold_ok [OF ok k, of s1 send alloc i dat] assms(2,3) k
    by (auto simp: skw_event_dfs_radar_pulse_def split: if_splits)
qed

text \<open>Japan's chirp type reports radar on its second pulse, 1500 microseconds after the first.\<close>

definition chirp_events :: "dfs_event list" where
  "chirp_events =
     [DInit 0, DChanInit 0 \<lparr>cd_chan = 52, cd_width = 1, cd_freq1 = 5260, cd_freq2 = 0\<rparr> 60, DStartCac 0, DPulses 0 [(0, 16391681)]]"

definition chirp_run :: "skw_pulse_info list \<times> skw_dfs" where
  "chirp_run = fold (dfs_step (\<lambda>_. 0) (\<lambda>_. True) (\<lambda>_. 0)) chirp_events ([], dfs_module_load True 3 1)"

lemma chirp_detected:
  "let s = snd chirp_run in count_list (dfs_outs s) RadarEvent <
     count_list (dfs_outs (skw_event_dfs_radar_pulse (\<lambda>_. 0) (\<lambda>_. True) 0 [(0, 40967681)] s)) RadarEvent"
  by code_simp

theorem radar_event_sound_witness:
  "\<exists>k pre p post rule. dfs_info (snd chirp_run) = Some k \<and> [pulse_of 0 40967681] = pre @ p # post \<and>
    rule \<in> set (skw_radar_infos ! k) \<and> radar_seen rule (p # rev pre @ fst chirp_run) (pl_ts p)"
  using radar_event_sound [OF _ refl chirp_detected [unfolded Let_def], of "\<lambda>_. 0" chirp_events True 3 1 "fst chirp_run"]
  by (simp add: chirp_run_def)

section \<open>Bound on the stored pulses\<close>

definition cap_ok :: "skw_radar_cfg \<Rightarrow> bool" where
  "cap_ok cfg \<longleftrightarrow> length (pd_pulses (rc_pri cfg)) \<le> pd_count (rc_pri cfg) \<and> pd_count (rc_pri cfg) < 2 * ppb (rc_rule cfg)"

text \<open>A detector while a pulse is being added: between two counts.\<close>

definition cap_mid :: "nat \<Rightarrow> nat \<Rightarrow> skw_pri_detector \<Rightarrow> bool" where
  "cap_mid n mx d \<longleftrightarrow> length (pd_pulses d) \<le> pd_count d \<and> pd_count d \<le> n \<and> pd_max_count d = mx"

lemma cap_dequeue: "cap_mid n mx (cx_pde c) \<Longrightarrow> cap_mid n mx (cx_pde (pulse_queue_dequeue c))"
  by (auto simp: cap_mid_def pulse_queue_dequeue_def Let_def)

lemma cap_window_loop:
  assumes "cap_mid n mx (cx_pde c)" "pd_pulses (cx_pde c) = h # ts" "m \<le> h"
  shows "cap_mid n mx (cx_pde (check_window_loop m c)) \<and> pd_pulses (cx_pde (check_window_loop m c)) \<noteq> []"
  using assms
proof (induction m c arbitrary: ts rule: check_window_loop.induct)
  case (1 m c)
  show ?case
  proof (cases "m \<le> last (pd_pulses (cx_pde c))")
    case True
    then show ?thesis using "1.prems" by (subst (1 2) check_window_loop.simps) simp
  next
    case False
    then have "ts \<noteq> []" using "1.prems" by auto
    then have "pd_pulses (cx_pde (pulse_queue_dequeue c)) = h # butlast ts"
      using "1.prems" by (simp add: pulse_queue_dequeue_def Let_def)
    from "1.IH" [OF _ False cap_dequeue [OF "1.prems"(1)] this "1.prems"(3)] show ?thesis
      using False "1.prems"(2) by (subst (1 2) check_window_loop.simps) simp
  qed
qed

lemma cap_enqueue:
  fixes alloc ts
  assumes "length (pd_pulses (cx_pde c)) \<le> pd_count (cx_pde c)" "pd_count (cx_pde c) < n" "pd_max_count (cx_pde c) = n"
  defines "d \<equiv> cx_pde (pulse_queue_enqueue alloc ts c)"
  shows "length (pd_pulses d) \<le> pd_count d \<and> pd_count d < n \<and> pd_max_count d = n"
proof (cases "cx_pulse_pool c = 0 \<and> \<not> alloc")
  case True
  then show ?thesis using assms by (simp add: pulse_queue_enqueue_def)
next
  case False
  let ?c = "c\<lparr>cx_pulse_pool := cx_pulse_pool c - 1, cx_pde := (cx_pde c)\<lparr>pd_pulses := ts # pd_pulses (cx_pde c),
     pd_count := pd_count (cx_pde c) + 1, pd_last_ts := ts\<rparr>\<rparr>"
  have "cap_mid n n (cx_pde ?c)" using assms by (simp add: cap_mid_def)
  then have w: "cap_mid n n (cx_pde (pulse_queue_check_window ?c)) \<and> pd_pulses (cx_pde (pulse_queue_check_window ?c)) \<noteq> []"
    using cap_window_loop [of n n ?c ts "pd_pulses (cx_pde c)"] by (auto simp: pulse_queue_check_window_def Let_def)
  have "d = cx_pde (if n \<le> pd_count (cx_pde (pulse_queue_check_window ?c))
      then pulse_queue_dequeue (pulse_queue_check_window ?c) else pulse_queue_check_window ?c)"
    unfolding d_def pulse_queue_enqueue_def if_not_P [OF False] Let_def using w by (simp add: cap_mid_def)
  moreover have "length (pd_pulses (cx_pde c2)) \<le> pd_count (cx_pde c2) \<and> pd_max_count (cx_pde c2) = n \<and>
      pd_count (cx_pde c2) < n"
    if "cap_mid n n (cx_pde c1)" "pd_pulses (cx_pde c1) \<noteq> []"
      "c2 = (if n \<le> pd_count (cx_pde c1) then pulse_queue_dequeue c1 else c1)" for c1 c2
    using that by (cases "pd_pulses (cx_pde c1)") (auto simp: cap_mid_def pulse_queue_dequeue_def Let_def)
  ultimately show ?thesis using w by blast
qed

lemma cap_add_pulse:
  assumes "cap_ok cfg" "pd_max_count (rc_pri cfg) = 2 * ppb (rc_rule cfg)" "1 \<le> ppb (rc_rule cfg)"
    and "add_pulse_cfg alloc reset (rc_rule cfg) p \<lparr>cx_pde = rc_pri cfg, cx_pulse_pool = q, cx_pseq_pool = r\<rparr> = (hit, c)"
  shows "cap_ok (cfg\<lparr>rc_pri := cx_pde c\<rparr>) \<and> pd_max_count (cx_pde c) = 2 * ppb (rc_rule cfg)"
proof -
  let ?c = "\<lparr>cx_pde = rc_pri cfg, cx_pulse_pool = q, cx_pseq_pool = r\<rparr>"
  have keep: "pd_pulses (cx_pde (snd (pseq_handler_add_to_existing_seqs rule ts c))) = pd_pulses (cx_pde c) \<and>
      pd_count (cx_pde (snd (pseq_handler_add_to_existing_seqs rule ts c))) = pd_count (cx_pde c) \<and>
      pd_max_count (cx_pde (snd (pseq_handler_add_to_existing_seqs rule ts c))) = pd_max_count (cx_pde c)" for rule ts c
    by (simp add: pseq_handler_add_to_existing_seqs_def split: prod.splits)
  have keep2: "pd_pulses (cx_pde (snd (pseq_handler_create_sequences alloc rule ts m c))) = pd_pulses (cx_pde c) \<and>
      pd_count (cx_pde (snd (pseq_handler_create_sequences alloc rule ts m c))) = pd_count (cx_pde c) \<and>
      pd_max_count (cx_pde (snd (pseq_handler_create_sequences alloc rule ts m c))) = pd_max_count (cx_pde c)" for rule ts m c
    by (simp add: pseq_handler_create_sequences_def split: prod.splits)
  obtain mx ca where A: "pseq_handler_add_to_existing_seqs (rc_rule cfg) (pl_ts p) ?c = (mx, ca)" by force
  obtain ok cb where B: "pseq_handler_create_sequences alloc (rc_rule cfg) (pl_ts p) mx ca = (ok, cb)" by force
  have cb: "pd_pulses (cx_pde cb) = pd_pulses (rc_pri cfg)" "pd_count (cx_pde cb) = pd_count (rc_pri cfg)"
      "pd_max_count (cx_pde cb) = 2 * ppb (rc_rule cfg)"
    using keep [of "rc_rule cfg" "pl_ts p" ?c] keep2 [of "rc_rule cfg" "pl_ts p" mx ca] A B assms(2) by simp_all
  have enq: "cap_ok (cfg\<lparr>rc_pri := cx_pde (pulse_queue_enqueue al (pl_ts p) cb)\<rparr>) \<and>
      pd_max_count (cx_pde (pulse_queue_enqueue al (pl_ts p) cb)) = 2 * ppb (rc_rule cfg)" for al
    using cap_enqueue [of cb "2 * ppb (rc_rule cfg)" al "pl_ts p"] cb assms(1) by (simp add: cap_ok_def)
  have "c \<in> {pri_detector_reset (pl_ts p) ?c, ?c, pri_detector_reset (pl_ts p) cb, cb,
      pulse_queue_enqueue (alloc (length (pd_sequences (cx_pde cb)))) (pl_ts p) cb}"
    using assms(4) A B by (auto simp: add_pulse_cfg_def Let_def split: if_splits)
  then show ?thesis using enq cb assms(1-3) by (auto simp: cap_ok_def pri_detector_reset_def Let_def)
qed

text \<open>The detectors of every region, and those of the region in use.\<close>

definition cap_all :: "skw_dfs \<Rightarrow> bool" where
  "cap_all s \<longleftrightarrow> (\<forall>cfgs \<in> set (dfs_cfgs s). \<forall>cfg \<in> set cfgs. cap_ok cfg)"

definition cap_set :: "skw_dfs \<Rightarrow> bool" where
  "cap_set s \<longleftrightarrow> (\<forall>k. dfs_info s = Some k \<longrightarrow>
     (\<forall>cfg \<in> set (dfs_cfgs s ! k). pd_max_count (rc_pri cfg) = 2 * ppb (rc_rule cfg)))"

lemma cap_loop:
  assumes "\<forall>cfg \<in> set cfgs. cap_ok cfg \<and> pd_max_count (rc_pri cfg) = 2 * ppb (rc_rule cfg) \<and> 1 \<le> ppb (rc_rule cfg)"
    and "add_pulse_loop alloc reset p cfgs pools = (hit, cfgs1, pools1)"
  shows "\<forall>cfg \<in> set cfgs1. cap_ok cfg \<and> pd_max_count (rc_pri cfg) = 2 * ppb (rc_rule cfg)"
  using assms
proof (induction cfgs arbitrary: pools cfgs1 hit pools1)
  case (Cons cfg cfgs)
  let ?c = "\<lparr>cx_pde = rc_pri cfg, cx_pulse_pool = fst pools, cx_pseq_pool = snd pools\<rparr>"
  obtain h c where a: "add_pulse_cfg alloc reset (rc_rule cfg) p ?c = (h, c)" by force
  obtain r rest q where l: "add_pulse_loop alloc reset p cfgs (cx_pulse_pool c, cx_pseq_pool c) = (r, rest, q)"
    by (metis prod_cases3)
  have "cap_ok (cfg\<lparr>rc_pri := cx_pde c\<rparr>) \<and> pd_max_count (cx_pde c) = 2 * ppb (rc_rule cfg)"
    by (rule cap_add_pulse [OF _ _ _ a]) (use Cons.prems(1) in auto)
  moreover have "cfgs1 = (if h then cfg\<lparr>rc_pri := cx_pde c\<rparr> # cfgs else cfg\<lparr>rc_pri := cx_pde c\<rparr> # rest)"
    using Cons.prems(2) a l by (auto simp: Let_def split: if_splits)
  ultimately show ?case using Cons.IH [OF _ l] Cons.prems(1) by (auto split: if_splits)
qed simp

lemma cap_reset_cfgs:
  "reset_cfgs cfgs pools = (cfgs1, pools1) \<Longrightarrow> \<forall>cfg \<in> set cfgs. 1 \<le> ppb (rc_rule cfg) \<Longrightarrow>
     (\<forall>cfg \<in> set cfgs1. cap_ok cfg) \<and>
     map (\<lambda>cfg. (rc_rule cfg, pd_max_count (rc_pri cfg))) cfgs1 = map (\<lambda>cfg. (rc_rule cfg, pd_max_count (rc_pri cfg))) cfgs"
  by (induction cfgs arbitrary: pools cfgs1)
    (auto simp: Let_def pri_detector_reset_def cap_ok_def split: prod.splits)

lemma cap_reset_infos:
  "reset_infos is pools = (is1, pools1) \<Longrightarrow> \<forall>i \<in> set is. \<forall>cfg \<in> set i. 1 \<le> ppb (rc_rule cfg) \<Longrightarrow>
     (\<forall>i \<in> set is1. \<forall>cfg \<in> set i. cap_ok cfg) \<and>
     map (map (\<lambda>cfg. (rc_rule cfg, pd_max_count (rc_pri cfg)))) is1 = map (map (\<lambda>cfg. (rc_rule cfg, pd_max_count (rc_pri cfg)))) is"
proof (induction "is" arbitrary: pools is1)
  case (Cons i "is")
  then show ?case using cap_reset_cfgs [of i pools] by (auto split: prod.splits)
qed simp

definition dfs_cap :: "skw_pulse_info list \<Rightarrow> skw_dfs \<Rightarrow> bool" where
  "dfs_cap hist s \<longleftrightarrow> dfs_ok hist s \<and> cap_all s \<and> cap_set s"

lemma dfs_ok_ppb: "dfs_ok hist s \<Longrightarrow> \<forall>i \<in> set (dfs_cfgs s). \<forall>cfg \<in> set i. 1 \<le> ppb (rc_rule cfg)"
proof -
  assume ok: "dfs_ok hist s"
  have "1 \<le> ppb (rc_rule cfg)" if "k < length (dfs_cfgs s)" "cfg \<in> set (dfs_cfgs s ! k)" for k cfg
    using dfs_ok_rule_ok [OF ok _ that(2)] that(1) dfs_ok_length [OF ok] by (simp add: rule_ok_def)
  then show ?thesis by (metis in_set_conv_nth)
qed

lemma cap_deinit:
  assumes "\<forall>i \<in> set (dfs_cfgs s). \<forall>cfg \<in> set i. 1 \<le> ppb (rc_rule cfg)"
    and "\<forall>k. dfs_info s = Some k \<longrightarrow> k < length (dfs_cfgs s)" "cap_set s"
  shows "cap_all (skw_dfs_deinit send i s) \<and> cap_set (skw_dfs_deinit send i s)"
proof -
  let ?s = "skw_dfs_deinit send i s" and ?f = "\<lambda>cfg. (rc_rule cfg, pd_max_count (rc_pri cfg))"
  obtain pools pools1 where r: "reset_infos (dfs_cfgs s) pools = (dfs_cfgs ?s, pools1)" using deinit_resets by blast
  note c = cap_reset_infos [OF r assms(1)]
  have len: "length (dfs_cfgs ?s) = length (dfs_cfgs s)"
    using arg_cong [OF conjunct2 [OF c], of length] by simp
  have "pd_max_count (rc_pri cfg) = 2 * ppb (rc_rule cfg)" if k: "dfs_info s = Some k" "cfg \<in> set (dfs_cfgs ?s ! k)" for k cfg
  proof -
    have "map (map ?f) (dfs_cfgs ?s) ! k = map (map ?f) (dfs_cfgs s) ! k" using c by simp
    then have "map ?f (dfs_cfgs ?s ! k) = map ?f (dfs_cfgs s ! k)" using assms(2) k(1) len by simp
    then have "?f cfg \<in> ?f ` set (dfs_cfgs s ! k)" using imageI [OF k(2), of ?f] by (metis list.set_map)
    then show ?thesis using assms(3) k(1) by (auto simp: cap_set_def)
  qed
  then show ?thesis using c deinit_resets [of send i s] by (simp add: cap_all_def cap_set_def)
qed

lemma ppb_update:
  assumes "\<forall>i \<in> set iss. \<forall>cfg \<in> set i. 1 \<le> ppb (rc_rule cfg)" "k < length iss" "map rc_rule cfgs = map rc_rule (iss ! k)"
  shows "\<forall>i \<in> set (iss[k := cfgs]). \<forall>cfg \<in> set i. 1 \<le> ppb (rc_rule cfg)"
proof -
  have "rc_rule ` set cfgs = rc_rule ` set (iss ! k)" using assms(3) by (metis list.set_map)
  then have "1 \<le> ppb (rc_rule cfg)" if "cfg \<in> set cfgs" for cfg
    using assms(1) nth_mem [OF assms(2)] that by (metis image_iff)
  then show ?thesis using assms(1) set_update_subset_insert [of iss k cfgs] by blast
qed

lemma cap_pulse:
  assumes ok: "dfs_cap hist s" and info: "dfs_info s = Some k" and ts: "pl_ts p < 2 ^ 32"
  shows "dfs_cap (p # hist) (skw_dfs_add_pulse send alloc i p s)"
proof -
  have d: "dfs_ok hist s" using ok by (simp add: dfs_cap_def)
  have dp: "dfs_ok (p # hist) (skw_dfs_add_pulse send alloc i p s)" using dfs_ok_pulse [OF d info ts] by blast
  obtain hit cfgs q r where l: "add_pulse_loop alloc (pl_ts p < dfs_last_pulse_ts s) p (dfs_cfgs s ! k)
      (dfs_pulse_pool s, dfs_pseq_pool s) = (hit, cfgs, q, r)" by (metis prod_cases4)
  define s1 where "s1 = s\<lparr>dfs_last_pulse_ts := pl_ts p, dfs_cfgs := (dfs_cfgs s)[k := cfgs], dfs_pulse_pool := q, dfs_pseq_pool := r\<rparr>"
  have k: "k < length (dfs_cfgs s)" using d info dfs_ok_length [OF d] by (simp add: dfs_ok_def)
  have "\<forall>cfg \<in> set (dfs_cfgs s ! k). cap_ok cfg \<and> pd_max_count (rc_pri cfg) = 2 * ppb (rc_rule cfg) \<and> 1 \<le> ppb (rc_rule cfg)"
    using ok info dfs_ok_ppb [OF d] nth_mem [OF k] by (auto simp: dfs_cap_def cap_all_def cap_set_def)
  note c = cap_loop [OF this l]
  have s1: "cap_all s1" "cap_set s1"
    using ok c info k by (auto simp: s1_def cap_all_def cap_set_def dfs_cap_def dest!: set_update_subset_insert [THEN subsetD])
  have "\<forall>cfg \<in> set (dfs_cfgs s ! k). rule_ok (rc_rule cfg) \<and> det_ok (rc_rule cfg) hist (dfs_last_pulse_ts s) (rc_pri cfg)"
    using d info dfs_ok_rule_ok [OF d] by (auto simp: dfs_ok_def)
  then have "map rc_rule cfgs = map rc_rule (dfs_cfgs s ! k)" using add_pulse_loop_ok [OF _ ts refl l, of hist] by blast
  then have ppb1: "\<forall>i \<in> set (dfs_cfgs s1). \<forall>cfg \<in> set i. 1 \<le> ppb (rc_rule cfg)"
    unfolding s1_def using ppb_update [OF dfs_ok_ppb [OF d] k] by simp
  have "cap_all (skw_dfs_add_pulse send alloc i p s) \<and> cap_set (skw_dfs_add_pulse send alloc i p s)"
  proof (cases "sd_flags (dfs_ifaces s ! i) = 0")
    case True
    then show ?thesis using ok by (simp add: skw_dfs_add_pulse_def dfs_cap_def)
  next
    case False
    then have s': "skw_dfs_add_pulse send alloc i p s = (if hit then dfs_emit RadarEvent (skw_dfs_deinit send i s1) else s1)"
      using info l by (simp add: skw_dfs_add_pulse_def Let_def s1_def)
    have "cap_all (skw_dfs_deinit send i s1) \<and> cap_set (skw_dfs_deinit send i s1)"
      by (rule cap_deinit [OF ppb1 _ s1(2)]) (use info k in \<open>simp add: s1_def\<close>)
    then show ?thesis unfolding s' using s1 by (simp add: cap_all_def cap_set_def dfs_emit_def)
  qed
  with dp show ?thesis by (simp add: dfs_cap_def)
qed

lemma cap_same: "same_detectors s1 s \<Longrightarrow> dfs_cap hist s \<Longrightarrow> dfs_cap hist s1"
  by (simp add: same_detectors_def dfs_cap_def dfs_ok_def cap_all_def cap_set_def)

lemma cap_init: "dfs_cap hist s \<Longrightarrow> dfs_cap hist (skw_dfs_init i s)"
proof -
  assume cap: "dfs_cap hist s"
  let ?f = "\<lambda>cfg. cfg\<lparr>rc_pri := (rc_pri cfg)\<lparr>pd_sequences := [], pd_pulses := []\<rparr>\<rparr>"
  have "dfs_info s = Some k \<Longrightarrow> k < length (dfs_cfgs s)" for k
    using cap dfs_ok_length [of hist s] by (simp add: dfs_cap_def dfs_ok_def)
  moreover have "cap_ok cfg \<Longrightarrow> cap_ok (?f cfg)" for cfg by (simp add: cap_ok_def)
  ultimately have "cap_all (skw_dfs_init i s) \<and> cap_set (skw_dfs_init i s)"
    using cap by (auto simp: skw_dfs_init_def upd_iface_def dfs_cap_def cap_all_def cap_set_def)
  then show ?thesis using cap dfs_ok_init by (simp add: dfs_cap_def)
qed

lemma cap_chan_init: "dfs_cap hist s \<Longrightarrow> dfs_cap hist (snd (skw_dfs_chan_init i ch t s))"
proof -
  assume cap: "dfs_cap hist s"
  have len: "length (dfs_cfgs s) = length skw_radar_infos" using cap dfs_ok_length [of hist s] by (simp add: dfs_cap_def)
  have ok: "cap_ok cfg \<Longrightarrow> cap_ok (chan_init_cfg cfg)" for cfg by (simp add: cap_ok_def chan_init_cfg_def Let_def)
  let ?cs = "(dfs_cfgs s)[dfs_region s := map chan_init_cfg (dfs_cfgs s ! dfs_region s)]"
  have all: "\<forall>cfgs \<in> set ?cs. \<forall>cfg \<in> set cfgs. cap_ok cfg" if "dfs_region s < length skw_radar_infos"
  proof -
    have "\<forall>cfg \<in> set (dfs_cfgs s ! dfs_region s). cap_ok cfg"
      using cap nth_mem [of "dfs_region s" "dfs_cfgs s"] that len by (auto simp: dfs_cap_def cap_all_def)
    then show ?thesis using cap ok set_update_subset_insert [of "dfs_cfgs s" "dfs_region s"]
      by (auto simp: dfs_cap_def cap_all_def dest!: set_update_subset_insert [THEN subsetD])
  qed
  have "cap_all (snd (skw_dfs_chan_init i ch t s)) \<and> cap_set (snd (skw_dfs_chan_init i ch t s))"
    using cap all len
    by (simp add: skw_dfs_chan_init_def upd_iface_def dfs_cap_def cap_all_def cap_set_def chan_init_cfg_def Let_def mult.commute)
  then show ?thesis using cap dfs_ok_chan_init by (simp add: dfs_cap_def)
qed

lemma cap_pulses:
  assumes "dfs_cap hist s" "dfs_info s = Some k"
  shows "dfs_cap (rev (map (\<lambda>(u, w). pulse_of u w) dat) @ hist)
    (fold (\<lambda>(usecs, w) s1. if pl_width (pulse_of usecs w) = 0 then s1
                   else skw_dfs_add_pulse send alloc i (pulse_of usecs w) s1) dat s)"
  using assms
proof (induction dat arbitrary: hist s)
  case (Cons e dat)
  obtain u w where e: "e = (u, w)" by force
  let ?s = "if pl_width (pulse_of u w) = 0 then s else skw_dfs_add_pulse send alloc i (pulse_of u w) s"
  have "dfs_cap (pulse_of u w # hist) ?s" "dfs_info ?s = Some k"
    using cap_pulse [OF Cons.prems pulse_of_ts] dfs_ok_append [of hist s "[pulse_of u w]"] Cons.prems
    by (auto simp: dfs_cap_def)
  from Cons.IH [OF this] show ?case by (simp add: e)
qed simp

interpretation dfs_cap: inv_machine "dfs_step send alloc bw" "\<lambda>(hist, s). dfs_cap hist s" "\<lambda>_ _. True"
proof
  fix hs e
  assume "case hs of (hist, s) \<Rightarrow> dfs_cap hist s"
  then have cap: "dfs_cap (fst hs) (snd hs)" by (simp add: case_prod_beta)
  then have d: "dfs_ok (fst hs) (snd hs)" by (simp add: dfs_cap_def)
  have "dfs_cap (fst (dfs_step send alloc bw e hs)) (snd (dfs_step send alloc bw e hs))"
  proof (cases e)
    case (DPulses i dat)
    then show ?thesis using cap cap_pulses [OF cap] dfs_ok_append [OF d]
      by (auto simp: skw_event_dfs_radar_pulse_def dfs_cap_def)
  next
    case (DDeinit i)
    have "cap_all (skw_dfs_deinit send i (snd hs)) \<and> cap_set (skw_dfs_deinit send i (snd hs))"
      by (rule cap_deinit [OF dfs_ok_ppb [OF d]]) (use cap dfs_ok_length [OF d] in \<open>auto simp: dfs_cap_def dfs_ok_def\<close>)
    moreover have "dfs_ok (fst hs) (skw_dfs_deinit send i (snd hs))"
      by (rule dfs_ok_deinit) (use d in \<open>simp_all add: dfs_ok_def\<close>)
    ultimately show ?thesis using DDeinit by (simp add: dfs_cap_def)
  qed (simp_all add: cap cap_same [OF _ cap] cap_chan_init cap_init)
  then show "case dfs_step send alloc bw e hs of (hist, s) \<Rightarrow> dfs_cap hist s" by (simp add: case_prod_beta)
qed

lemma cap_load: "dfs_cap [] (dfs_module_load fw region n)"
proof -
  have "\<forall>rules \<in> set skw_radar_infos. \<forall>rule \<in> set rules. 0 < ppb rule"
    using infos_ok by (simp add: list_all_iff rule_ok_def Suc_le_eq)
  then show ?thesis using dfs_ok_load [of fw region n]
    by (auto simp: dfs_cap_def cap_all_def cap_set_def cap_ok_def dfs_module_load_def)
qed

text \<open>
  C37. The memory of the detectors is bounded. Over any sequence of channel set-ups, checks and
  reported pulses from the loading of the module, every detector of every region remembers fewer
  than twice as many pulses as a burst of its radar type has.
\<close>

theorem stored_pulses_bounded:
  assumes "fold (dfs_step send alloc bw) es ([], dfs_module_load fw region n) = (hist, s)"
    and "cfgs \<in> set (dfs_cfgs s)" "cfg \<in> set cfgs"
  shows "length (pd_pulses (rc_pri cfg)) \<le> pd_count (rc_pri cfg) \<and> pd_count (rc_pri cfg) < 2 * ppb (rc_rule cfg)"
proof -
  have "dfs_cap hist s"
    using dfs_cap.run_invar [of "([], dfs_module_load fw region n)" send alloc bw es] cap_load assms(1) by simp
  then show ?thesis using assms(2,3) by (auto simp: dfs_cap_def cap_all_def cap_ok_def)
qed

lemma chirp_stored: "map (\<lambda>cfg. length (pd_pulses (rc_pri cfg))) (dfs_cfgs (snd chirp_run) ! 3) = [0, 0, 0, 0, 0, 0, 0, 1, 0]"
  by code_simp

theorem stored_pulses_bounded_witness:
  "let cfg = dfs_cfgs (snd chirp_run) ! 3 ! 7 in
     length (pd_pulses (rc_pri cfg)) = 1 \<and> pd_count (rc_pri cfg) < 2 * ppb (rc_rule cfg)"
proof -
  let ?cfgs = "dfs_cfgs (snd chirp_run) ! 3" and ?f = "\<lambda>cfg. length (pd_pulses (rc_pri cfg))"
  have len: "length ?cfgs = 9" using arg_cong [OF chirp_stored, of length] by simp
  have one: "?f (?cfgs ! 7) = 1" using arg_cong [OF chirp_stored, of "\<lambda>xs. xs ! 7"] len by simp
  have run: "fold (dfs_step (\<lambda>_. 0) (\<lambda>_. True) (\<lambda>_. 0)) chirp_events ([], dfs_module_load True 3 1) = (fst chirp_run, snd chirp_run)"
    by (simp add: chirp_run_def)
  have "dfs_ok (fst chirp_run) (snd chirp_run)"
    using dfs.run_invar [of "([], dfs_module_load True 3 1)" "\<lambda>_. 0" "\<lambda>_. True" "\<lambda>_. 0" chirp_events] dfs_ok_load run by (simp add: case_prod_beta)
  then have "?cfgs \<in> set (dfs_cfgs (snd chirp_run))" using dfs_ok_length by (simp add: skw_radar_infos_def)
  with stored_pulses_bounded [OF run this, of "?cfgs ! 7"] one len show ?thesis by (simp add: Let_def)
qed

section \<open>Behaviour worth knowing\<close>

text \<open>
  A new channel empties the lists of a detector but keeps its count. When the count is one below
  its limit, which a busy channel reaches, every pulse stored from then on is dropped at once, and
  the detector stays blind until it is reset.
\<close>

theorem stale_count_blinds:
  assumes "pd_pulses (cx_pde c) = []" "pd_sequences (cx_pde c) = []" "pd_count (cx_pde c) + 1 = pd_max_count (cx_pde c)"
    and "add_pulse_cfg alloc False rule p c = (hit, c1)"
  shows "\<not> hit \<and> pd_pulses (cx_pde c1) = [] \<and> pd_sequences (cx_pde c1) = [] \<and> pd_count (cx_pde c1) + 1 = pd_max_count (cx_pde c1)"
proof -
  have loop: "check_window_loop m d = d" if "pd_pulses (cx_pde d) = [t]" "m \<le> t" for m t d
    using that by (subst check_window_loop.simps) simp
  have "pulse_queue_check_window d = d" if "pd_pulses (cx_pde d) = [pl_ts p]" "pd_last_ts (cx_pde d) = pl_ts p" for d
    using that loop by (simp add: pulse_queue_check_window_def Let_def)
  then show ?thesis using assms
    by (auto simp: add_pulse_cfg_def Let_def pseq_handler_add_to_existing_seqs_def pseq_handler_create_sequences_def
        pseq_handler_check_detection_def pulse_queue_enqueue_def pulse_queue_dequeue_def split: if_splits)
qed

end
