(* ===== verification/Spec2Isabelle.thy ===== *)
theory Spec2Isabelle
  imports Rx_Reorder_Props Rx_Reorder_Live Skw_Tx_Props Skw_Event_Props Skw_Work Skw_Ba Skw_Mlme_Props Skw_Sdio_Props Skw_Edma_Props Skw_Calib Rx_Session_Props Skw_Regd_Props Skw_Timer Skw_Config_Props Skw_Mbssid_Props Skw_Dfs_Props
begin

text \<open>
  Verification of the SeekWave vs6621s wireless driver, the C code of the image builder
  (\<^verbatim>\<open>src/patches/wireless/vs6621s/vs6621s/swt6621s_wifi\<close>; file names below are relative to it, or to
  \<^verbatim>\<open>seekwaveplatform_lite\<close> beside it).

  \<^bold>\<open>The program.\<close> The driver sits between the kernel's wireless stack and a chip with its own
  firmware. On PCIe, frames and messages pass through rings of descriptors (\<^verbatim>\<open>skw_edma.c\<close>). Transfers of the SDIO bus carry packets of several channels, which the transport (\<^verbatim>\<open>sdio/skw_sdio_rx.c\<close>)
  gives to their ports: to callbacks, to byte buffers with readers, or to itself when they are commands of the
  firmware. Frames come from the bus; the receive path (\<^verbatim>\<open>skw_rx.c\<close>) puts those of a block-ack session
  back into order, checks packet numbers against replay, reassembles fragments and hands frames to
  the network stack. Settings go to the firmware as messages of type-length-value items
  (\<^verbatim>\<open>skw_util.c\<close>); they come from a configuration file (\<^verbatim>\<open>skw_config.c\<close>) and from the regulatory
  domain (\<^verbatim>\<open>skw_regd.c\<close>, with the database \<^verbatim>\<open>skw_db.c\<close>). One-shot timers share a kernel timer
  (\<^verbatim>\<open>skw_timer.c\<close>). Scan results with a Multiple BSSID element are split into one entry per network
  (\<^verbatim>\<open>skw_mbssid.c\<close>). Outgoing frames wait in queues per interface and class; a scheduler (\<^verbatim>\<open>skw_tx.c\<close>) shares
  the firmware's credits between them and passes frames through a ring to a second worker, which gathers them
  for the bus. Commands go through one buffer guarded by a semaphore, and wait for an acknowledgement with their
  number (\<^verbatim>\<open>skw_msg.c\<close>); the firmware's events are sorted out by the bus callback, queued, and handed to
  handlers by the work of the driver and of each interface. Deferred work has its own list (\<^verbatim>\<open>skw_work.c\<close>).
  An interface in access point mode authenticates and associates stations, with a table of clients and one of peers
  (\<^verbatim>\<open>skw_mlme.c\<close>, \<^verbatim>\<open>skw_cfg80211.c\<close>). Reports of block-ack sessions open, move and close the sessions of the receive path. On channels shared with radar the firmware reports pulses, in which the driver
  looks for the radar types of the region (\<^verbatim>\<open>skw_dfs.c\<close>).

  \<^bold>\<open>Conventions.\<close> A C struct is a record with the names of the source, an integer is a word of its
  width where wrap-around matters and a number otherwise, an error is a negative number or a branch of
  a sum as in the source. State is passed explicitly. A socket buffer is a value with an identity, so
  that conservation theorems can count each buffer. The answers of the kernel and of the firmware
  (allocation, \<open>jiffies\<close>, the result of a message, the list of known networks) are parameters, over
  which the theorems are universally quantified. Locks are not modelled: what the source
  does under one holding of a lock is one step. Where a component has several threads
  (\<^verbatim>\<open>Skw_Msg\<close>, \<^verbatim>\<open>Skw_Timer\<close>, \<^verbatim>\<open>Skw_Work\<close>, \<^verbatim>\<open>Skw_Edma\<close>, \<^verbatim>\<open>Skw_Vring\<close>) an operation that lets go of its lock, or works
  outside it, is split into its sections, between which the others run. An access outside an array sets a
  mark of the state (\<open>fault\<close>, \<open>cfg_fault\<close>): what the C code does from there on is not defined, and the rest of such
  a run says nothing about it.

  \<^bold>\<open>Theories.\<close>

  \<^item> \<^verbatim>\<open>Skw_Prelude\<close>: types of machine integers, sequence numbers modulo 4096, time comparison, and the
    interfaces as locales: \<open>inv_machine\<close> (operations, named by events, that keep an invariant)
    and \<open>conserving_machine\<close> (operations that in addition neither lose nor duplicate buffers).
    Each component that has state interprets one of them for its own operations.

  \<^item> \<^verbatim>\<open>Rx_Reorder\<close>, \<^verbatim>\<open>Rx_Reorder_Correct\<close>, \<^verbatim>\<open>Rx_Reorder_Props\<close>, \<^verbatim>\<open>Rx_Reorder_Live\<close>: the reorder window of
    \<^verbatim>\<open>skw_rx.c\<close> (\<open>skw_ampdu_reorder\<close>, \<open>skw_reorder_release\<close>, \<open>skw_reorder_force_release\<close>,
    \<open>skw_set_reorder_timer\<close>). Shown: buffers are conserved whatever arrives; the window invariant holds
    after clean frames whose A-MSDU subframes stay within the window, and what leaves after such frames is in sequence order; a forced release has a closed form; duplicates
    and late frames are dropped; after a release pass, nothing waits without a timer or a pending release.

  \<^item> \<^verbatim>\<open>Rx_Frag\<close>, \<^verbatim>\<open>Rx_Frag_Props\<close>: replay detection and reassembly (\<open>skw_replay_detect\<close>,
    \<open>skw_pn_allowed\<close>, \<open>skw_rx_defragment\<close>). Shown: among the frames to which the check applies packet numbers never decrease; a reassembled
    frame is the join of a chain of matching fragments, and a chain is reassembled whatever else the
    table holds.

  \<^item> \<^verbatim>\<open>Rx_Session\<close>, \<^verbatim>\<open>Rx_Session_Props\<close>: peers and block-ack sessions, the work list of the receive
    thread, reports of dropped frames and the data handler, composed from the two components above.
    Shown: over any sequence of operations the structures stay well formed and each buffer is in
    exactly one place; the end of a session leaks nothing.

  \<^item> \<^verbatim>\<open>Skw_Vring\<close>, \<^verbatim>\<open>Skw_Vring_Props\<close>: the transmit ring (\<open>skw_vring_set\<close>, \<open>skw_sdio_write\<close>,
    \<open>skw_dy_worker\<close>). Shown: the ring refines a queue, with its bytes; the worker terminates.

  \<^item> \<^verbatim>\<open>Skw_Tx\<close>, \<^verbatim>\<open>Skw_Tx_Props\<close>: the transmit scheduler on the SDIO bus (\<open>skw_txq_prepare\<close>,
    \<open>skw_merge_pure_ack\<close>, \<open>skw_vring_check\<close>, \<open>skw_tx_worker\<close>). Shown: over any sequence of frames, credits
    and runs of both workers each frame is in exactly one place and the ring never overruns.

  \<^item> \<^verbatim>\<open>Skw_Msg\<close>, \<^verbatim>\<open>Skw_Msg_Props\<close>: the command channel, as functions and as a step relation in which
    senders, the transmit worker, acknowledgements, aborts and time-outs interleave. Shown by rule induction:
    one command at a time, completed only by its own acknowledgement, except after two coincidences of a timer
    and an acknowledgement, which a parameter of the relation allows or not; a command reads back from the buffer.

  \<^item> \<^verbatim>\<open>Skw_Event\<close>, \<^verbatim>\<open>Skw_Event_Props\<close>: the bus callback, the event queues and the dispatch. Shown: every
    buffer is in exactly one place, those that the code skips included; events in sequence reach their handlers once and in order.

  \<^item> \<^verbatim>\<open>Skw_Work\<close>: the work list, objects freed after a grace period, admission of stations. The
    handler is a function (\<open>skw_work\<close>) and, section by section, a step relation among its callers, with the scheduling of
    the work queue. Shown by rule induction: work is done once and in order and no wake-up is missed; objects
    handed over at the safe moments are all freed in order, and the handler alone returns with everything
    done; admission has a closed form.

  \<^item> \<^verbatim>\<open>Skw_Ba\<close>: requests and reports of block-ack sessions, on the state of the receive path. Shown: the
    receive path stays well formed and keeps its frames; six refusals end the requests for a class.

  \<^item> \<^verbatim>\<open>Skw_Mlme\<close>, \<^verbatim>\<open>Skw_Mlme_Props\<close>: the access point's state machine (\<open>skw_mlme_ap_auth_handler\<close>,
    \<open>skw_mlme_ap_assoc_handler\<close>, \<open>skw_mlme_ap_tx_status\<close>, \<open>skw_sap_rx_mgmt\<close>, \<open>skw_add_station\<close> and its
    relatives) and the responses a connecting station gets. Every operation is shown to be a sequence of small steps
    of a relation. Shown over any run: the tables stay consistent and no timer outlives its client; a
    station is associated only after the whole exchange, in order.

  \<^item> \<^verbatim>\<open>Skw_Sdio\<close>, \<^verbatim>\<open>Skw_Sdio_Props\<close>: the SDIO transport (\<open>skw_sdio_adma_parser\<close>, \<open>skw_sdio_handle_packet\<close>,
    \<open>skw_sdio_rx_thread\<close>, \<open>open_sdio_port\<close>, \<open>sdio_read\<close>, \<open>send_data\<close>), one model for the two generations of the chip. Shown: every
    fragment is in exactly one place, and none is lost while no transfer fails; a port's buffer is a queue of bytes.

  \<^item> \<^verbatim>\<open>Skw_Edma\<close>, \<^verbatim>\<open>Skw_Edma_Props\<close>: the DMA rings of the PCIe bus, with the chip as a second party
    (\<open>skw_edma_set_data\<close>, \<open>skw_edma_tx\<close>, \<open>skw_edma_napi_txrx_compl_task\<close>, \<open>skw_pci_edma_rx_data\<close>, \<open>skw_edma_refill_skb\<close>). Shown:
    the chip reads what was written, in order; each descriptor is taken off once and in order, also when the channels are opened again;
    buffers are conserved whatever fails, and counted when nothing does.

  \<^item> \<^verbatim>\<open>Skw_Calib\<close>: the table of calibration results (\<open>skw_dpd_result_handler\<close>). Shown: it keeps the first result for each entry.

  \<^item> \<^verbatim>\<open>Skw_Util\<close>: utilities and messages (\<open>skw_tlv_add\<close>, \<open>skw_set_mib\<close>, element iteration, addresses).
    Shown: messages and addresses decode to what was encoded; a failing operation changes nothing.

  \<^item> \<^verbatim>\<open>Skw_Regd\<close>, \<^verbatim>\<open>Skw_Db\<close>, \<^verbatim>\<open>Skw_Regd_Props\<close>: regulatory domains, with the whole database. Shown: the
    rule of a channel is the first that fits; the table for the firmware fits its message for every
    country and set of bands; after any history of requests, the state is that of the last ones that took effect.

  \<^item> \<^verbatim>\<open>Skw_Timer\<close>: timers as functions and as a step relation in which the sections of adding, cancelling, the
    handler with its callbacks, and closing interleave. Shown by rule induction: nothing fires early, twice or after
    cancellation; the kernel timer is armed for the head of the list; identifiers are distinct and the counter is right as long as two
    races do not happen; the handler is a run of the relation that makes progress.

  \<^item> \<^verbatim>\<open>Skw_Config\<close>, \<^verbatim>\<open>Skw_Config_Props\<close>: the configuration file. Shown: the result is well typed for any
    bytes that are read without leaving an array, and for which files that is so; printing and parsing agree; settings are sent with their value.

  \<^item> \<^verbatim>\<open>Skw_Mbssid\<close>, \<^verbatim>\<open>Skw_Mbssid_Props\<close>: Multiple BSSID. Shown: the elements built fit; addresses are
    derived as the standard says; every entry reported is well formed.

  \<^item> \<^verbatim>\<open>Skw_Dfs\<close>, \<^verbatim>\<open>Skw_Dfs_Props\<close>: radar detection. Shown over any run from the loading of the module, as
    an invariant that relates each detector to the history of pulses: radar is reported only with enough
    pulses of one type in one burst; the stored pulses are bounded.

  \<^bold>\<open>Termination and bounds.\<close> There is no fuel. Loops are structural recursions or have a measure (the bytes
  left of a file or of a list of elements, the pulses left in a queue, the distance to the end of the window).
  The three worker loops that run as long as there is something to do (\<open>skw_dy_worker\<close>, \<open>skw_tx_worker\<close>,
  \<open>skw_work\<close>) are partial functions into \<open>option\<close>: for the first it is proved that it returns from every
  well-formed state, for the last that it returns from every state reached without its races; for the transmit worker, a state is given from which it never does.

  \<^bold>\<open>Behaviour worth knowing.\<close> The sections of that name at the end of the theories state, as theorems,
  where the code departs from what it means to do: among others a frame accepted twice at the edge of the
  window, fragments of two peers joined, timers that fire late because of an unsorted list, a
  configuration line without terminator, settings off by one at the end of their range, element
  searches that never succeed, a radar detector blinded by a stale count, acknowledgements sent out of order,
  a transmit worker that spins, a semaphore released twice, an acknowledgement that blocks the command
  channel, a station associated without having answered its challenge, a port of the bus that one lost packet makes deaf, a
  receive thread that repeats a failing transfer, and a lock of a DMA channel that is never released.

  \<^bold>\<open>Not modelled.\<close> The image builder itself is shell scripts and kernel patches. Of the driver: transmission on
  PCIe and USB, most handlers of events, TDLS links, the operations offered
  to cfg80211 and wireless extensions, recovery, the set-up of the DMA channels; the set-up of the SDIO card,
  its interrupts and power management, the USB and Bluetooth
  transports, which are bound to the kernel's bus drivers; and logging and debugfs, which are pure output.
\<close>

end
